(* ===== verification/Prelude.thy ===== *)
theory Prelude
  imports Main "HOL-Library.Word" "HOL-Library.Char_ord" "HOL-Library.List_Lexorder"
begin

unbundle bit_operations_syntax

text \<open>
  Shared vocabulary of the development: the Rust integer types as words, \<open>Result\<close> as a sum
  type, the ASCII predicates and number parsers of Rust's standard library on byte strings, and
  the list and word lemmas the components use.

  A Rust \<open>String\<close> or \<open>&str\<close> is its sequence of UTF-8 bytes, one \<^typ>\<open>char\<close> per byte, so
  \<open>length\<close> is Rust's \<open>len()\<close> and the order of \<^typ>\<open>string\<close> is Rust's byte order of strings.
\<close>

section \<open>Integer types and results\<close>

type_synonym u8 = "8 word"
type_synonym u16 = "16 word"
type_synonym u32 = "32 word"
type_synonym u64 = "64 word"
type_synonym i64 = "64 word"

type_synonym bytes = "u8 list"

abbreviation Err :: "'e \<Rightarrow> 'e + 'a" where "Err \<equiv> Inl"
abbreviation Ok :: "'a \<Rightarrow> 'e + 'a" where "Ok \<equiv> Inr"

text \<open>The operator \<open>?\<close>: go on with the value, or return the error.\<close>

fun and_then :: "'e + 'a \<Rightarrow> ('a \<Rightarrow> 'e + 'b) \<Rightarrow> 'e + 'b" where
  "and_then (Inl e) f = Inl e"
| "and_then (Inr x) f = f x"

fun map_ok :: "('a \<Rightarrow> 'b) \<Rightarrow> 'e + 'a \<Rightarrow> 'e + 'b" where
  "map_ok f (Inl e) = Inl e"
| "map_ok f (Inr x) = Inr (f x)"

fun map_err :: "('e \<Rightarrow> 'f) \<Rightarrow> 'e + 'a \<Rightarrow> 'f + 'a" where
  "map_err f (Inl e) = Inl (f e)"
| "map_err f (Inr x) = Inr x"

fun is_ok :: "'e + 'a \<Rightarrow> bool" where
  "is_ok (Inl e) = False"
| "is_ok (Inr x) = True"

fun ok_or :: "'e \<Rightarrow> 'a option \<Rightarrow> 'e + 'a" where
  "ok_or e None = Inl e"
| "ok_or e (Some x) = Inr x"

text \<open>The \<open>collect\<close> of an iterator of results: the first error wins.\<close>

fun collect_results :: "('e + 'a) list \<Rightarrow> 'e + 'a list" where
  "collect_results [] = Inr []"
| "collect_results (r # rs) = and_then r (\<lambda>x. map_ok ((#) x) (collect_results rs))"

lemma and_then_Ok [simp]: "and_then r f = Inr y \<longleftrightarrow> (\<exists>x. r = Inr x \<and> f x = Inr y)"
  by (cases r) auto

lemma and_then_Err: "and_then r f = Inl e \<longleftrightarrow> r = Inl e \<or> (\<exists>x. r = Inr x \<and> f x = Inl e)"
  by (cases r) auto

lemma map_ok_Ok [simp]: "map_ok f r = Inr y \<longleftrightarrow> (\<exists>x. r = Inr x \<and> y = f x)"
  by (cases r) auto

lemma map_ok_Err [simp]: "map_ok f r = Inl e \<longleftrightarrow> r = Inl e"
  by (cases r) auto

lemma map_err_Ok [simp]: "map_err f r = Inr x \<longleftrightarrow> r = Inr x"
  by (cases r) simp_all

lemma is_ok_iff: "is_ok r \<longleftrightarrow> (\<exists>x. r = Inr x)"
  by (cases r) auto

lemma collect_results_map_Ok: "collect_results (map (\<lambda>x. Inr (f x)) xs) = Inr (map f xs)"
  by (induction xs) auto


text \<open>\<open>u32::saturating_add(1)\<close>.\<close>

definition saturating_inc :: "u32 \<Rightarrow> u32" where
  "saturating_inc n = (if n = 2 ^ 32 - 1 then n else n + 1)"

lemma unat_saturating_inc: "unat (saturating_inc n) = min (unat n + 1) (2 ^ 32 - 1)"
proof (cases "n = 2 ^ 32 - 1")
  case False
  then have "unat n < 2 ^ 32 - 1"
    using unsigned_less[of n, where ?'a = nat] by (auto simp: word_unat_eq_iff order_less_le)
  with False show ?thesis by (simp add: saturating_inc_def unat_word_ariths)
qed (simp add: saturating_inc_def)

section \<open>ASCII characters\<close>

definition code_of :: "char \<Rightarrow> nat" where
  "code_of c = of_char c"

definition is_ascii_digit :: "char \<Rightarrow> bool" where
  "is_ascii_digit c \<longleftrightarrow> 48 \<le> code_of c \<and> code_of c \<le> 57"

definition is_ascii_uppercase :: "char \<Rightarrow> bool" where
  "is_ascii_uppercase c \<longleftrightarrow> 65 \<le> code_of c \<and> code_of c \<le> 90"

definition is_ascii_lowercase :: "char \<Rightarrow> bool" where
  "is_ascii_lowercase c \<longleftrightarrow> 97 \<le> code_of c \<and> code_of c \<le> 122"

definition is_ascii_alphabetic :: "char \<Rightarrow> bool" where
  "is_ascii_alphabetic c \<longleftrightarrow> is_ascii_uppercase c \<or> is_ascii_lowercase c"

definition is_ascii_alphanumeric :: "char \<Rightarrow> bool" where
  "is_ascii_alphanumeric c \<longleftrightarrow> is_ascii_alphabetic c \<or> is_ascii_digit c"

text \<open>Space, tab, line feed, form feed, carriage return.\<close>

definition is_ascii_whitespace :: "char \<Rightarrow> bool" where
  "is_ascii_whitespace c \<longleftrightarrow> code_of c \<in> {32, 9, 10, 12, 13}"

definition is_ascii :: "string \<Rightarrow> bool" where
  "is_ascii s \<longleftrightarrow> list_all (\<lambda>c. code_of c < 128) s"

definition to_ascii_lowercase_char :: "char \<Rightarrow> char" where
  "to_ascii_lowercase_char c = (if is_ascii_uppercase c then char_of (code_of c + 32) else c)"

definition to_ascii_lowercase :: "string \<Rightarrow> string" where
  "to_ascii_lowercase s = map to_ascii_lowercase_char s"

definition eq_ignore_ascii_case :: "string \<Rightarrow> string \<Rightarrow> bool" where
  "eq_ignore_ascii_case s t \<longleftrightarrow> to_ascii_lowercase s = to_ascii_lowercase t"

named_theorems ascii_defs
declare code_of_def [ascii_defs] is_ascii_digit_def [ascii_defs]
  is_ascii_uppercase_def [ascii_defs] is_ascii_lowercase_def [ascii_defs]
  is_ascii_alphabetic_def [ascii_defs] is_ascii_alphanumeric_def [ascii_defs]
  is_ascii_whitespace_def [ascii_defs]

lemma digit_not_alphabetic: "is_ascii_digit c \<Longrightarrow> \<not> is_ascii_alphabetic c"
  by (simp add: ascii_defs)

lemma digit_not_whitespace: "is_ascii_digit c \<Longrightarrow> \<not> is_ascii_whitespace c"
  by (auto simp: ascii_defs)

lemma alphabetic_not_whitespace: "is_ascii_alphabetic c \<Longrightarrow> \<not> is_ascii_whitespace c"
  by (auto simp: ascii_defs)

lemma digit_alphanumeric: "is_ascii_digit c \<Longrightarrow> is_ascii_alphanumeric c"
  by (simp add: is_ascii_alphanumeric_def)

lemma alphabetic_alphanumeric: "is_ascii_alphabetic c \<Longrightarrow> is_ascii_alphanumeric c"
  by (simp add: is_ascii_alphanumeric_def)

section \<open>Decimal and hexadecimal numbers\<close>

definition digit_val :: "char \<Rightarrow> nat" where
  "digit_val c = code_of c - 48"

definition digits_val :: "string \<Rightarrow> nat" where
  "digits_val s = foldl (\<lambda>n c. 10 * n + digit_val c) 0 s"

text \<open>
  Rust's \<open>str::parse\<close> for an unsigned type with the values below \<open>bound\<close>: an optional \<open>+\<close>, then
  at least one digit, and no overflow.
\<close>

definition parse_unsigned :: "nat \<Rightarrow> string \<Rightarrow> nat option" where
  "parse_unsigned bound s =
     (let ds = (case s of CHR ''+'' # t \<Rightarrow> t | _ \<Rightarrow> s)
      in if ds \<noteq> [] \<and> list_all is_ascii_digit ds \<and> digits_val ds < bound
         then Some (digits_val ds) else None)"

text \<open>\<open>char::to_digit(16)\<close>, and \<open>u8::from_str_radix(_, 16)\<close>, which takes a leading \<open>+\<close> too.\<close>

definition hex_digit :: "char \<Rightarrow> nat option" where
  "hex_digit c =
     (if is_ascii_digit c then Some (code_of c - 48)
      else if 97 \<le> code_of c \<and> code_of c \<le> 102 then Some (code_of c - 87)
      else if 65 \<le> code_of c \<and> code_of c \<le> 70 then Some (code_of c - 55)
      else None)"

fun hex_digits_val :: "nat \<Rightarrow> string \<Rightarrow> nat option" where
  "hex_digits_val acc [] = Some acc"
| "hex_digits_val acc (c # cs) =
     (case hex_digit c of None \<Rightarrow> None | Some d \<Rightarrow> hex_digits_val (16 * acc + d) cs)"

definition u8_from_str_radix16 :: "string \<Rightarrow> u8 option" where
  "u8_from_str_radix16 s =
     (let ds = (case s of c # d # t \<Rightarrow> if c = CHR ''+'' then d # t else s | _ \<Rightarrow> s)
      in if ds = [] then None
         else case hex_digits_val 0 ds of
                None \<Rightarrow> None
              | Some n \<Rightarrow> if n < 256 then Some (of_nat n) else None)"

definition hex_char :: "nat \<Rightarrow> char" where
  "hex_char n = (if n < 10 then char_of (48 + n) else char_of (55 + n))"

text \<open>The format \<open>{:02X}\<close> of a byte.\<close>

definition format_02X :: "u8 \<Rightarrow> string" where
  "format_02X b = [hex_char (unat b div 16), hex_char (unat b mod 16)]"

text \<open>Decimal display of a natural number.\<close>

fun show_nat :: "nat \<Rightarrow> string" where
  "show_nat n = (if n < 10 then [char_of (48 + n)] else show_nat (n div 10) @ [char_of (48 + n mod 10)])"

declare show_nat.simps [simp del]

lemma code_of_char_of: "n < 256 \<Longrightarrow> code_of (char_of n) = n"
  by (simp add: code_of_def)

lemma code_of_hex_char: "n < 16 \<Longrightarrow> code_of (hex_char n) = (if n < 10 then 48 + n else 55 + n)"
  by (simp add: hex_char_def code_of_char_of)

lemma hex_digit_hex_char: "n < 16 \<Longrightarrow> hex_digit (hex_char n) = Some n"
  by (auto simp: hex_digit_def is_ascii_digit_def code_of_hex_char)

lemma hex_char_not_plus: "n < 16 \<Longrightarrow> hex_char n \<noteq> CHR ''+''"
proof
  assume "n < 16" and "hex_char n = CHR ''+''"
  then have "code_of (hex_char n) = 43" by (simp add: code_of_def)
  with \<open>n < 16\<close> show False by (simp add: code_of_hex_char split: if_splits)
qed

lemma unat_u8_less [simp]: "unat (b :: u8) < 256"
proof -
  have "unat b < 2 ^ LENGTH(8)" by (rule unsigned_less)
  then show ?thesis by simp
qed

lemma format_02X_parses: "u8_from_str_radix16 (format_02X b) = Some b"
proof -
  have d: "unat b div 16 < 16" and m: "unat b mod 16 < 16"
    using unat_u8_less[of b] by (simp_all add: less_mult_imp_div_less)
  have "16 * (unat b div 16) + unat b mod 16 = unat b" by simp
  then show ?thesis
    using d m by (simp add: u8_from_str_radix16_def format_02X_def hex_digit_hex_char
        hex_char_not_plus)
qed

lemma format_02X_ascii: "is_ascii (format_02X b)"
proof -
  have d: "unat b div 16 < 16" and m: "unat b mod 16 < 16"
    using unat_u8_less[of b] by (simp_all add: less_mult_imp_div_less)
  then show ?thesis by (auto simp: is_ascii_def format_02X_def code_of_hex_char)
qed

lemma length_format_02X [simp]: "length (format_02X b) = 2"
  by (simp add: format_02X_def)

lemma digits_val_snoc: "digits_val (s @ [c]) = 10 * digits_val s + digit_val c"
  by (simp add: digits_val_def)

lemma digit_char:
  assumes "n < 10"
  shows "is_ascii_digit (char_of (48 + n))" and "digit_val (char_of (48 + n)) = n"
  using assms by (simp_all add: is_ascii_digit_def digit_val_def code_of_char_of)

lemma show_nat_digits: "show_nat n \<noteq> [] \<and> list_all is_ascii_digit (show_nat n)"
  by (induction n rule: show_nat.induct)
    (subst show_nat.simps, subst (2) show_nat.simps, auto simp: digit_char)

lemma digits_val_show_nat: "digits_val (show_nat n) = n"
proof (induction n rule: show_nat.induct)
  case (1 n)
  show ?case
  proof (cases "n < 10")
    case True
    then have "digits_val [char_of (48 + n)] = n" by (simp add: digits_val_def digit_char)
    with True show ?thesis by (subst show_nat.simps) simp
  next
    case False
    with 1 show ?thesis by (subst show_nat.simps) (simp add: digits_val_snoc digit_char)
  qed
qed

section \<open>Words and lists\<close>

lemma unat_of_nat_small: "n < 2 ^ LENGTH('a::len) \<Longrightarrow> unat (of_nat n :: 'a word) = n"
  by (simp add: unat_of_nat take_bit_nat_eq_self)

lemma div_add_mod: "(a :: nat) div n + (a mod n + j) div n = (a + j) div n"
proof (cases "n = 0")
  case False
  have "(a + j) div n = (a div n * n + (a mod n + j)) div n" by simp
  also have "\<dots> = a div n + (a mod n + j) div n"
    using False by (rule div_mult_self3)
  finally show ?thesis by simp
qed simp

lemma length_ge3E:
  assumes "3 \<le> length xs"
  obtains a b c ys where "xs = a # b # c # ys"
  using assms by (auto simp: numeral_eq_Suc Suc_le_length_iff)

end
