(* ===== verification/Float64.thy ===== *)
theory Float64
  imports Complex_Main Prelude "HOL-Library.Log_Nat"
begin

text \<open>
  The part of Rust's \<open>f64\<close> and \<open>f32\<close> the program uses, as an executable model of IEEE 754
  binary64 and binary32 with rounding to nearest, ties to even. A finite number is its exact
  rational value, so equality of values is equality of terms; the negative zero and the
  infinities are constructors of their own. \<open>NaN\<close> payloads are not observed by the program
  and are one value. \<open>representable\<close> says which rationals a format holds; the lemmas show that
  every rounding result is representable, that a representable value is not changed, and that
  rounding does not pass a representable bound.
\<close>

section \<open>Formats and values\<close>

datatype fp = FNaN | FInf bool | FNegZero | FNum rat

type_synonym f64 = fp
type_synonym f32 = fp

text \<open>
  \<open>prec\<close> is the number of significant bits, \<open>qmin\<close> the exponent of the smallest subnormal,
  and every finite value is below two to the power \<open>emax\<close>.
\<close>

record fp_format =
  prec :: nat
  qmin :: int
  emax :: int

definition binary64 :: fp_format where
  "binary64 = \<lparr>prec = 53, qmin = -1074, emax = 1024\<rparr>"

definition binary32 :: fp_format where
  "binary32 = \<lparr>prec = 24, qmin = -149, emax = 128\<rparr>"

definition format_ok :: "fp_format \<Rightarrow> bool" where
  "format_ok f \<longleftrightarrow> 1 \<le> prec f \<and> qmin f + int (prec f) \<le> emax f"

lemma format_ok_binary [simp]: "format_ok binary64" "format_ok binary32"
  by (simp_all add: format_ok_def binary64_def binary32_def)

definition representable :: "fp_format \<Rightarrow> rat \<Rightarrow> bool" where
  "representable f q \<longleftrightarrow>
     (\<exists>m e. q = of_int m * 2 powi e \<and> \<bar>m\<bar> < 2 ^ prec f \<and> qmin f \<le> e) \<and> \<bar>q\<bar> < 2 powi emax f"

fun wf_fp :: "fp_format \<Rightarrow> fp \<Rightarrow> bool" where
  "wf_fp f (FNum q) \<longleftrightarrow> representable f q"
| "wf_fp f _ \<longleftrightarrow> True"

section \<open>Rounding\<close>

definition ilog2 :: "rat \<Rightarrow> int" where
  "ilog2 q = (let (n, d) = quotient_of q; k = bitlen n - bitlen d
              in if 2 powi k \<le> q then k else k - 1)"

definition round_half_even :: "rat \<Rightarrow> int" where
  "round_half_even q =
     (let n = \<lfloor>q\<rfloor>; r = q - of_int n
      in if r < 1 / 2 then n
         else if 1 / 2 < r then n + 1
         else if even n then n else n + 1)"

definition quantum :: "fp_format \<Rightarrow> rat \<Rightarrow> int" where
  "quantum f q = max (ilog2 q - (int (prec f) - 1)) (qmin f)"

definition round_pos :: "fp_format \<Rightarrow> rat \<Rightarrow> rat" where
  "round_pos f q =
     (let e = quantum f q in of_int (round_half_even (q / 2 powi e)) * 2 powi e)"

definition round_rat :: "fp_format \<Rightarrow> rat \<Rightarrow> rat" where
  "round_rat f q =
     (if q = 0 then 0 else if q < 0 then - round_pos f (- q) else round_pos f q)"

text \<open>\<open>neg\<close> is the sign an exact zero gets; a nonzero value that rounds to zero keeps its own.\<close>

definition fp_of_rat :: "fp_format \<Rightarrow> bool \<Rightarrow> rat \<Rightarrow> fp" where
  "fp_of_rat f neg q =
     (let r = round_rat f q
      in if 2 powi emax f \<le> \<bar>r\<bar> then FInf (r < 0)
         else if r = 0 then (if q < 0 \<or> q = 0 \<and> neg then FNegZero else FNum 0)
         else FNum r)"

lemma quotient_of_pos:
  assumes "0 < q" and "quotient_of q = (n, d)"
  shows "0 < n" and "0 < d" and "q = of_int n / of_int d"
proof -
  show d: "0 < d" using assms(2) by (rule quotient_of_denom_pos)
  show q: "q = of_int n / of_int d" using assms(2) by (rule quotient_of_div)
  show "0 < n" using assms(1) d unfolding q by (simp add: zero_less_divide_iff)
qed

lemma bitlen_pow_bounds:
  assumes "0 < (n :: int)"
  shows "(2 :: rat) powi (bitlen n - 1) \<le> of_int n" and "of_int n < (2 :: rat) powi bitlen n"
proof -
  have b: "2 ^ nat (bitlen n - 1) \<le> n" "n < 2 ^ nat (bitlen n)"
    using bitlen_bounds[OF assms] by simp_all
  have p: "1 \<le> bitlen n" using assms bitlen_eq_zero_iff[of n] bitlen_nonneg[of n] by linarith
  have "(2 :: rat) powi (bitlen n - 1) = of_int (2 ^ nat (bitlen n - 1))"
    using p by (simp add: power_int_def)
  then show "(2 :: rat) powi (bitlen n - 1) \<le> of_int n"
    using b(1) by (metis of_int_le_iff)
  have "(2 :: rat) powi bitlen n = of_int (2 ^ nat (bitlen n))"
    using p by (simp add: power_int_def)
  then show "of_int n < (2 :: rat) powi bitlen n"
    using b(2) by (metis of_int_less_iff)
qed

lemma ilog2_bounds:
  assumes "0 < q"
  shows "2 powi ilog2 q \<le> q" and "q < 2 powi (ilog2 q + 1)"
proof -
  obtain n d where nd: "quotient_of q = (n, d)" by fastforce
  note pos = quotient_of_pos[OF assms nd]
  define k where "k = bitlen n - bitlen d"
  have ilog: "ilog2 q = (if 2 powi k \<le> q then k else k - 1)"
    by (simp add: ilog2_def nd k_def Let_def)
  note bn = bitlen_pow_bounds[OF pos(1)] and bd = bitlen_pow_bounds[OF pos(2)]
  have lo: "2 powi (k - 1) \<le> q"
  proof -
    have "(2 :: rat) powi (k - 1) = 2 powi (bitlen n - 1) / 2 powi bitlen d"
      by (simp add: k_def power_int_diff)
    also have "\<dots> \<le> of_int n / of_int d"
      using bn bd pos by (intro frac_le) auto
    finally show ?thesis by (simp add: pos(3))
  qed
  have hi: "q < 2 powi (k + 1)"
  proof -
    have "of_int n / of_int d < (2 :: rat) powi bitlen n / 2 powi (bitlen d - 1)"
      using bn bd pos by (intro frac_less) auto
    also have "\<dots> = 2 powi (k + 1)"
      by (simp add: k_def power_int_diff power_int_add)
    finally show ?thesis by (simp add: pos(3))
  qed
  show "2 powi ilog2 q \<le> q" using lo by (simp add: ilog)
  show "q < 2 powi (ilog2 q + 1)" using hi by (simp add: ilog not_le)
qed

lemma round_half_even_bounds:
  "of_int (round_half_even q) \<le> q + 1 / 2" "q \<le> of_int (round_half_even q) + 1 / 2"
proof -
  define n :: rat where "n = of_int \<lfloor>q\<rfloor>"
  have n: "n \<le> q" "q < n + 1" unfolding n_def by linarith+
  have "of_int (round_half_even q) =
      (if q - n < 1 / 2 then n else if 1 / 2 < q - n then n + 1
       else if even \<lfloor>q\<rfloor> then n else n + 1)"
    by (simp add: round_half_even_def Let_def n_def)
  with n show "of_int (round_half_even q) \<le> q + 1 / 2" "q \<le> of_int (round_half_even q) + 1 / 2"
    by (simp_all split: if_splits)
qed

lemma round_half_even_of_int [simp]: "round_half_even (of_int n) = n"
  by (simp add: round_half_even_def)

lemma round_half_even_mono:
  assumes "p \<le> q"
  shows "round_half_even p \<le> round_half_even q"
proof (rule ccontr)
  assume a: "\<not> round_half_even p \<le> round_half_even q"
  have "of_int (round_half_even p) \<le> p + 1 / 2" "q \<le> of_int (round_half_even q) + 1 / 2"
    by (rule round_half_even_bounds)+
  with assms have "(of_int (round_half_even p) :: rat) \<le> of_int (round_half_even q + 1)" by simp
  then have le: "round_half_even p \<le> round_half_even q + 1" by (simp only: of_int_le_iff)
  with a have eq: "round_half_even p = round_half_even q + 1" by simp
  have "p = q"
    using assms round_half_even_bounds(1)[of p] round_half_even_bounds(2)[of q]
    by (simp add: eq)
  with a show False by simp
qed

section \<open>What rounding keeps\<close>

lemma powi_le_imp_exp_less:
  assumes "(2 :: rat) powi a < 2 powi b"
  shows "a < b"
proof (rule ccontr)
  assume "\<not> a < b"
  then have "(2 :: rat) powi b \<le> 2 powi a" by (intro power_int_increasing) auto
  with assms show False by simp
qed

lemma powi_nonneg_int: "0 \<le> k \<Longrightarrow> (2 :: rat) powi k = of_int (2 ^ nat k)"
  by (simp add: power_int_def)

lemma quantum_le_exp:
  assumes "0 < q" and "q \<le> of_int m * 2 powi e" and "\<bar>m\<bar> < 2 ^ prec f" and "qmin f \<le> e"
  shows "quantum f q \<le> e"
proof -
  have "2 powi ilog2 q \<le> q" using assms(1) by (rule ilog2_bounds)
  also have "\<dots> \<le> of_int m * 2 powi e" by (rule assms(2))
  also have "\<dots> < 2 ^ prec f * (2 :: rat) powi e"
  proof -
    have "of_int m < (of_int (2 ^ prec f) :: rat)" using assms(3) by (subst of_int_less_iff) simp
    then show ?thesis by simp
  qed
  also have "\<dots> = 2 powi (int (prec f) + e)" by (simp add: power_int_add)
  finally have "ilog2 q < int (prec f) + e" by (rule powi_le_imp_exp_less)
  with assms(4) show ?thesis by (simp add: quantum_def)
qed

lemma div_quantum_int:
  assumes "quantum f q \<le> e"
  shows "of_int m * 2 powi e / 2 powi quantum f q = (of_int (m * 2 ^ nat (e - quantum f q)) :: rat)"
proof -
  have "(2 :: rat) powi e / 2 powi quantum f q = 2 powi (e - quantum f q)"
    by (simp add: power_int_diff)
  also have "\<dots> = of_int (2 ^ nat (e - quantum f q))" using assms by (intro powi_nonneg_int) simp
  finally show ?thesis by (simp add: field_simps)
qed

lemma round_pos_le:
  assumes "0 < q" and "q \<le> b" and "representable f b"
  shows "round_pos f q \<le> b"
proof -
  obtain m e where b: "b = of_int m * 2 powi e" "\<bar>m\<bar> < 2 ^ prec f" "qmin f \<le> e"
    using assms(3) by (auto simp: representable_def)
  let ?u = "(2 :: rat) powi quantum f q"
  have "quantum f q \<le> e" using assms(1,2) b by (intro quantum_le_exp) auto
  then have n: "b / ?u = of_int (m * 2 ^ nat (e - quantum f q))"
    unfolding b(1) by (rule div_quantum_int)
  have "q / ?u \<le> b / ?u" using assms(2) by (intro divide_right_mono) auto
  then have "round_half_even (q / ?u) \<le> round_half_even (b / ?u)" by (rule round_half_even_mono)
  also have "\<dots> = m * 2 ^ nat (e - quantum f q)" by (simp only: n round_half_even_of_int)
  finally have "(of_int (round_half_even (q / ?u)) :: rat) \<le> b / ?u" by (simp only: n of_int_le_iff)
  then have "of_int (round_half_even (q / ?u)) * ?u \<le> b"
    by (simp add: pos_le_divide_eq)
  then show ?thesis by (simp add: round_pos_def Let_def)
qed

lemma round_pos_exact:
  assumes "0 < q" and "representable f q"
  shows "round_pos f q = q"
proof -
  obtain m e where b: "q = of_int m * 2 powi e" "\<bar>m\<bar> < 2 ^ prec f" "qmin f \<le> e"
    using assms(2) by (auto simp: representable_def)
  have "quantum f q \<le> e" using assms(1) b by (intro quantum_le_exp) auto
  then have n: "q / 2 powi quantum f q = of_int (m * 2 ^ nat (e - quantum f q))"
    by (subst b(1)) (rule div_quantum_int)
  have "(of_int (round_half_even (q / 2 powi quantum f q)) :: rat) = q / 2 powi quantum f q"
    by (simp only: n round_half_even_of_int)
  then show ?thesis by (simp add: round_pos_def Let_def)
qed

lemma round_pos_nonneg: "0 < q \<Longrightarrow> 0 \<le> round_pos f q"
proof -
  assume "0 < q"
  then have "round_half_even 0 \<le> round_half_even (q / 2 powi quantum f q)"
    by (intro round_half_even_mono) simp
  moreover have "round_half_even 0 = 0" using round_half_even_of_int[of 0] by simp
  ultimately show ?thesis by (simp add: round_pos_def Let_def)
qed

lemma scaled_below_prec:
  assumes "0 < q" and "1 \<le> prec f"
  shows "q / 2 powi quantum f q \<le> 2 ^ prec f"
proof -
  have "q \<le> 2 powi (ilog2 q + 1)" using ilog2_bounds(2)[OF assms(1)] by simp
  also have "\<dots> \<le> 2 powi (int (prec f) + quantum f q)"
    by (intro power_int_increasing) (auto simp: quantum_def)
  also have "\<dots> = 2 ^ prec f * 2 powi quantum f q" by (simp add: power_int_add)
  finally show ?thesis by (simp add: pos_divide_le_eq)
qed

lemma round_pos_mantissa:
  assumes "0 < q" and "1 \<le> prec f"
  shows "\<exists>m e. round_pos f q = of_int m * 2 powi e \<and> \<bar>m\<bar> < 2 ^ prec f \<and> qmin f \<le> e"
proof -
  let ?k = "quantum f q"
  let ?m = "round_half_even (q / 2 powi ?k)"
  have rp: "round_pos f q = of_int ?m * 2 powi ?k" by (simp add: round_pos_def Let_def)
  have "round_half_even 0 \<le> ?m" using assms(1) by (intro round_half_even_mono) simp
  moreover have "round_half_even 0 = 0" using round_half_even_of_int[of 0] by simp
  ultimately have m0: "0 \<le> ?m" by simp
  have "?m \<le> round_half_even (of_int (2 ^ prec f))"
    using scaled_below_prec[OF assms] by (intro round_half_even_mono) simp
  then have m1: "?m \<le> 2 ^ prec f" by (simp only: round_half_even_of_int)
  have k: "qmin f \<le> ?k" by (simp add: quantum_def)
  show ?thesis
  proof (cases "?m < 2 ^ prec f")
    case True
    with m0 k rp show ?thesis by (intro exI[of _ ?m] exI[of _ ?k]) simp
  next
    case False
    with m1 have eq: "?m = 2 ^ prec f" by simp
    have "round_pos f q = of_int (2 ^ (prec f - 1)) * 2 powi (?k + 1)"
      using assms(2) by (simp add: rp eq power_int_add power_eq_if[of 2 "prec f"])
    moreover have "(2 :: int) ^ (prec f - 1) < 2 ^ prec f" using assms(2) by simp
    ultimately show ?thesis using k
      by (intro exI[of _ "2 ^ (prec f - 1)"] exI[of _ "?k + 1"]) simp
  qed
qed

lemma representableI:
  assumes "\<bar>m\<bar> < 2 ^ prec f" and "qmin f \<le> e" and "int (prec f) + e \<le> emax f"
  shows "representable f (of_int m * 2 powi e)"
proof -
  have "(of_int \<bar>m\<bar> :: rat) < of_int (2 ^ prec f)" using assms(1) by (simp only: of_int_less_iff)
  then have "\<bar>of_int m * 2 powi e :: rat\<bar> < 2 ^ prec f * 2 powi e"
    by (simp add: abs_mult)
  also have "\<dots> = 2 powi (int (prec f) + e)" by (simp add: power_int_add)
  also have "\<dots> \<le> 2 powi emax f" using assms(3) by (intro power_int_increasing) auto
  finally show ?thesis using assms(1,2) unfolding representable_def by blast
qed

lemma representable_minus [simp]: "representable f (- q) = representable f q"
proof -
  have "representable f p \<Longrightarrow> representable f (- p)" for p
    unfolding representable_def by (metis abs_minus_cancel mult_minus_left of_int_minus)
  from this[of q] this[of "- q"] show ?thesis by auto
qed

lemma representable_zero: "format_ok f \<Longrightarrow> representable f 0"
  by (auto simp: representable_def format_ok_def intro!: exI[of _ 0] exI[of _ "qmin f"])

lemma representable_abs: "representable f \<bar>q\<bar> = representable f q"
  by (simp add: abs_if)

lemma round_rat_exact: "representable f q \<Longrightarrow> round_rat f q = q"
  using round_pos_exact[of q f] round_pos_exact[of "- q" f]
  by (auto simp: round_rat_def)

lemma round_rat_abs_le:
  assumes "\<bar>q\<bar> \<le> b" and "representable f b"
  shows "\<bar>round_rat f q\<bar> \<le> b"
  using assms round_pos_le[of "\<bar>q\<bar>" b f] round_pos_nonneg[of "\<bar>q\<bar>" f]
  by (auto simp: round_rat_def abs_if split: if_splits)

lemma wf_fp_of_rat:
  assumes "format_ok f"
  shows "wf_fp f (fp_of_rat f neg q)"
proof (cases "q = 0 \<or> 2 powi emax f \<le> \<bar>round_rat f q\<bar>")
  case True
  then show ?thesis
    using representable_zero[OF assms] by (auto simp: fp_of_rat_def round_rat_def Let_def)
next
  case False
  then have "0 < \<bar>q\<bar>" by simp
  moreover have "1 \<le> prec f" using assms by (simp add: format_ok_def)
  ultimately have "representable f (round_pos f \<bar>q\<bar>)"
    using round_pos_mantissa[of "\<bar>q\<bar>" f] False round_pos_nonneg[of "\<bar>q\<bar>" f]
    by (auto simp: representable_def round_rat_def abs_if split: if_splits)
  with False have "representable f (round_rat f q)"
    by (auto simp: round_rat_def abs_if split: if_splits)
  then show ?thesis
    using representable_zero[OF assms] by (auto simp: fp_of_rat_def Let_def)
qed

lemma fp_of_rat_exact:
  assumes "representable f q" and "q \<noteq> 0"
  shows "fp_of_rat f neg q = FNum q"
proof -
  have "\<bar>q\<bar> < 2 powi emax f" using assms(1) by (simp add: representable_def)
  with assms show ?thesis by (simp add: fp_of_rat_def round_rat_exact)
qed

text \<open>Rounding never overflows past a finite bound of the format.\<close>

lemma fp_of_rat_bounded:
  assumes "\<bar>q\<bar> \<le> b" and "representable f b"
  shows "fp_of_rat f neg q = FNegZero \<or> (\<exists>r. fp_of_rat f neg q = FNum r \<and> \<bar>r\<bar> \<le> b)"
proof -
  have "\<bar>round_rat f q\<bar> \<le> b" using assms by (rule round_rat_abs_le)
  moreover have "b < 2 powi emax f" using assms(2) by (auto simp: representable_def)
  ultimately show ?thesis by (auto simp: fp_of_rat_def Let_def)
qed

section \<open>Operations\<close>

fun fp_neg :: "fp \<Rightarrow> fp" where
  "fp_neg FNaN = FNaN"
| "fp_neg (FInf s) = FInf (\<not> s)"
| "fp_neg FNegZero = FNum 0"
| "fp_neg (FNum q) = (if q = 0 then FNegZero else FNum (- q))"

fun fp_abs :: "fp \<Rightarrow> fp" where
  "fp_abs FNaN = FNaN"
| "fp_abs (FInf s) = FInf False"
| "fp_abs FNegZero = FNum 0"
| "fp_abs (FNum q) = FNum \<bar>q\<bar>"

text \<open>The sign bit and, for finite values, the rational value.\<close>

fun fp_sign :: "fp \<Rightarrow> bool" where
  "fp_sign FNaN = False"
| "fp_sign (FInf s) = s"
| "fp_sign FNegZero = True"
| "fp_sign (FNum q) = (q < 0)"

fun fp_val :: "fp \<Rightarrow> rat" where
  "fp_val (FNum q) = q"
| "fp_val _ = 0"

fun is_nan :: "fp \<Rightarrow> bool" where
  "is_nan FNaN = True"
| "is_nan _ = False"

fun is_infinite :: "fp \<Rightarrow> bool" where
  "is_infinite (FInf s) = True"
| "is_infinite _ = False"

fun is_finite :: "fp \<Rightarrow> bool" where
  "is_finite FNaN = False"
| "is_finite (FInf s) = False"
| "is_finite _ = True"

definition fp_add :: "fp_format \<Rightarrow> fp \<Rightarrow> fp \<Rightarrow> fp" where
  "fp_add f x y =
     (if is_nan x \<or> is_nan y then FNaN
      else if is_infinite x then (if is_infinite y \<and> x \<noteq> y then FNaN else x)
      else if is_infinite y then y
      else fp_of_rat f (fp_sign x \<and> fp_sign y) (fp_val x + fp_val y))"

definition fp_sub :: "fp_format \<Rightarrow> fp \<Rightarrow> fp \<Rightarrow> fp" where
  "fp_sub f x y = fp_add f x (fp_neg y)"

definition fp_mul :: "fp_format \<Rightarrow> fp \<Rightarrow> fp \<Rightarrow> fp" where
  "fp_mul f x y =
     (let s = (fp_sign x \<noteq> fp_sign y)
      in if is_nan x \<or> is_nan y then FNaN
         else if is_infinite x then (if is_finite y \<and> fp_val y = 0 then FNaN else FInf s)
         else if is_infinite y then (if fp_val x = 0 then FNaN else FInf s)
         else fp_of_rat f s (fp_val x * fp_val y))"

definition fp_div :: "fp_format \<Rightarrow> fp \<Rightarrow> fp \<Rightarrow> fp" where
  "fp_div f x y =
     (let s = (fp_sign x \<noteq> fp_sign y)
      in if is_nan x \<or> is_nan y then FNaN
         else if is_infinite x then (if is_infinite y then FNaN else FInf s)
         else if is_infinite y then (if s then FNegZero else FNum 0)
         else if fp_val y = 0 then (if fp_val x = 0 then FNaN else FInf s)
         else fp_of_rat f s (fp_val x / fp_val y))"

definition rat_trunc :: "rat \<Rightarrow> int" where
  "rat_trunc q = (if q < 0 then \<lceil>q\<rceil> else \<lfloor>q\<rfloor>)"

text \<open>The operator \<open>%\<close>: the remainder of the truncated quotient, with the dividend's sign.\<close>

definition fp_rem :: "fp_format \<Rightarrow> fp \<Rightarrow> fp \<Rightarrow> fp" where
  "fp_rem f x y =
     (if is_nan x \<or> is_nan y \<or> is_infinite x then FNaN
      else if is_infinite y then x
      else if fp_val y = 0 then FNaN
      else fp_of_rat f (fp_sign x)
             (fp_val x - fp_val y * of_int (rat_trunc (fp_val x / fp_val y))))"

definition fp_fract :: "fp_format \<Rightarrow> fp \<Rightarrow> fp" where
  "fp_fract f x =
     (if is_finite x then fp_of_rat f False (fp_val x - of_int (rat_trunc (fp_val x))) else FNaN)"

text \<open>Comparisons: false as soon as one side is not a number; both zeros are equal.\<close>

fun fp_lt :: "fp \<Rightarrow> fp \<Rightarrow> bool" where
  "fp_lt FNaN y = False"
| "fp_lt x FNaN = False"
| "fp_lt (FInf s) (FInf t) = (s \<and> \<not> t)"
| "fp_lt (FInf s) y = s"
| "fp_lt x (FInf t) = (\<not> t)"
| "fp_lt x y = (fp_val x < fp_val y)"

fun fp_eq :: "fp \<Rightarrow> fp \<Rightarrow> bool" where
  "fp_eq FNaN y = False"
| "fp_eq x FNaN = False"
| "fp_eq (FInf s) (FInf t) = (s = t)"
| "fp_eq (FInf s) y = False"
| "fp_eq x (FInf t) = False"
| "fp_eq x y = (fp_val x = fp_val y)"

definition fp_le :: "fp \<Rightarrow> fp \<Rightarrow> bool" where
  "fp_le x y \<longleftrightarrow> fp_lt x y \<or> fp_eq x y"

text \<open>\<open>f64::max\<close>, and \<open>f64::clamp\<close>, which panics (\<open>None\<close>) unless \<open>min <= max\<close>.\<close>

definition fp_max :: "fp \<Rightarrow> fp \<Rightarrow> fp" where
  "fp_max x y = (if is_nan x then y else if is_nan y then x else if fp_lt x y then y else x)"

definition fp_clamp :: "fp \<Rightarrow> fp \<Rightarrow> fp \<Rightarrow> fp option" where
  "fp_clamp x lo hi =
     (if \<not> fp_le lo hi then None
      else let x1 = (if fp_lt x lo then lo else x)
           in Some (if fp_lt hi x1 then hi else x1))"

text \<open>The casts \<open>as i64\<close> and \<open>as u32\<close> saturate, and take \<open>NaN\<close> to zero.\<close>

fun fp_to_int_sat :: "int \<Rightarrow> int \<Rightarrow> fp \<Rightarrow> int" where
  "fp_to_int_sat lo hi FNaN = 0"
| "fp_to_int_sat lo hi (FInf s) = (if s then lo else hi)"
| "fp_to_int_sat lo hi x = min hi (max lo (rat_trunc (fp_val x)))"

definition fp_as_i64 :: "fp \<Rightarrow> i64" where
  "fp_as_i64 x = of_int (fp_to_int_sat (- (2 ^ 63)) (2 ^ 63 - 1) x)"

definition fp_as_u32 :: "fp \<Rightarrow> u32" where
  "fp_as_u32 x = of_int (fp_to_int_sat 0 (2 ^ 32 - 1) x)"

definition fp_of_int :: "fp_format \<Rightarrow> int \<Rightarrow> fp" where
  "fp_of_int f n = fp_of_rat f False (of_int n)"

definition i64_as_f64 :: "i64 \<Rightarrow> f64" where
  "i64_as_f64 n = fp_of_int binary64 (sint n)"

definition u32_as_f64 :: "u32 \<Rightarrow> f64" where
  "u32_as_f64 n = fp_of_int binary64 (uint n)"

definition u32_as_f32 :: "u32 \<Rightarrow> f32" where
  "u32_as_f32 n = fp_of_int binary32 (uint n)"

text \<open>Widening is exact, so it is the identity on values; narrowing rounds.\<close>

definition f32_as_f64 :: "f32 \<Rightarrow> f64" where
  "f32_as_f64 x = x"

fun f64_as_f32 :: "f64 \<Rightarrow> f32" where
  "f64_as_f32 (FNum q) = fp_of_rat binary32 False q"
| "f64_as_f32 x = x"

definition f64_MAX :: f64 where
  "f64_MAX = FNum (of_int (2 ^ 53 - 1) * 2 ^ 971)"

definition f32_MAX :: f32 where
  "f32_MAX = FNum (of_int (2 ^ 24 - 1) * 2 ^ 104)"

text \<open>
  \<open>str::parse::<f64>\<close> on the texts the lexer passes to it (digits with one dot): the decimal
  value, correctly rounded.
\<close>

definition parse_decimal :: "string \<Rightarrow> f64" where
  "parse_decimal s =
     (let ip = takeWhile (\<lambda>c. c \<noteq> CHR ''.'') s;
          fr = drop (Suc (length ip)) s
      in fp_of_rat binary64 False
           (of_nat (digits_val (ip @ fr)) / of_nat (10 ^ length fr)))"

lemma wf_fp_neg [simp]: "wf_fp f x \<Longrightarrow> format_ok f \<Longrightarrow> wf_fp f (fp_neg x)"
  by (cases x) (auto simp: representable_zero)

lemma wf_fp_abs [simp]: "wf_fp f x \<Longrightarrow> format_ok f \<Longrightarrow> wf_fp f (fp_abs x)"
  by (cases x) (auto simp: representable_zero representable_abs)

lemma wf_fp_add [simp]: "wf_fp f x \<Longrightarrow> wf_fp f y \<Longrightarrow> format_ok f \<Longrightarrow> wf_fp f (fp_add f x y)"
  by (auto simp: fp_add_def wf_fp_of_rat)

lemma wf_fp_sub [simp]: "wf_fp f x \<Longrightarrow> wf_fp f y \<Longrightarrow> format_ok f \<Longrightarrow> wf_fp f (fp_sub f x y)"
  by (simp add: fp_sub_def)

lemma wf_fp_mul [simp]: "format_ok f \<Longrightarrow> wf_fp f (fp_mul f x y)"
  by (auto simp: fp_mul_def Let_def wf_fp_of_rat)

lemma wf_fp_div [simp]: "format_ok f \<Longrightarrow> wf_fp f (fp_div f x y)"
  by (auto simp: fp_div_def Let_def wf_fp_of_rat representable_zero)

lemma wf_fp_rem [simp]: "wf_fp f x \<Longrightarrow> format_ok f \<Longrightarrow> wf_fp f (fp_rem f x y)"
  by (auto simp: fp_rem_def wf_fp_of_rat)

lemma wf_fp_of_int [simp]: "format_ok f \<Longrightarrow> wf_fp f (fp_of_int f n)"
  by (simp add: fp_of_int_def wf_fp_of_rat)

lemma wf_parse_decimal [simp]: "wf_fp binary64 (parse_decimal s)"
  by (simp add: parse_decimal_def wf_fp_of_rat Let_def)

lemma representable_f64_MAX: "representable binary64 (of_int (2 ^ 53 - 1) * 2 ^ 971)"
proof -
  have "representable binary64 (of_int (2 ^ 53 - 1) * 2 powi 971)"
    by (rule representableI) (simp_all add: binary64_def)
  then show ?thesis by (simp only: power_int_numeral)
qed

lemma representable_f32_MAX: "representable binary32 (of_int (2 ^ 24 - 1) * 2 ^ 104)"
proof -
  have "representable binary32 (of_int (2 ^ 24 - 1) * 2 powi 104)"
    by (rule representableI) (simp_all add: binary32_def)
  then show ?thesis by (simp only: power_int_numeral)
qed

lemma finite_cases:
  assumes "is_finite x"
  obtains "x = FNegZero" | q where "x = FNum q"
  using assms by (cases x) auto

lemma fp_lt_finite: "is_finite x \<Longrightarrow> is_finite y \<Longrightarrow> fp_lt x y \<longleftrightarrow> fp_val x < fp_val y"
  by (cases x; cases y) auto

lemma fp_eq_finite: "is_finite x \<Longrightarrow> is_finite y \<Longrightarrow> fp_eq x y \<longleftrightarrow> fp_val x = fp_val y"
  by (cases x; cases y) auto

lemma fp_le_finite: "is_finite x \<Longrightarrow> is_finite y \<Longrightarrow> fp_le x y \<longleftrightarrow> fp_val x \<le> fp_val y"
  by (auto simp: fp_le_def fp_lt_finite fp_eq_finite)

lemma fp_not_gt:
  assumes "is_finite x" and "is_finite y" and "\<not> fp_lt y x"
  shows "fp_le x y"
  using assms by (simp add: fp_le_finite fp_lt_finite)

text \<open>With finite ordered bounds, clamping a finite value returns and stays inside them.\<close>

lemma fp_clamp_finite:
  assumes "is_finite x" and "is_finite lo" and "is_finite hi" and "fp_le lo hi"
  shows "\<exists>y. fp_clamp x lo hi = Some y \<and> is_finite y \<and> fp_le lo y \<and> fp_le y hi \<and> y \<in> {x, lo, hi}"
proof -
  define x1 where "x1 = (if fp_lt x lo then lo else x)"
  have x1: "is_finite x1" "fp_le lo x1" "x1 \<in> {x, lo}"
    using assms by (auto simp: x1_def fp_le_finite fp_lt_finite)
  have c: "fp_clamp x lo hi = Some (if fp_lt hi x1 then hi else x1)"
    using assms by (simp add: fp_clamp_def x1_def Let_def)
  show ?thesis
  proof (cases "fp_lt hi x1")
    case True
    with c assms show ?thesis by (auto simp: fp_le_finite)
  next
    case False
    with c x1 assms show ?thesis by (auto simp: fp_not_gt)
  qed
qed

lemma fp_to_int_sat_bounds: "lo \<le> hi \<Longrightarrow> lo \<le> 0 \<Longrightarrow> 0 \<le> hi \<Longrightarrow>
    lo \<le> fp_to_int_sat lo hi x \<and> fp_to_int_sat lo hi x \<le> hi"
  by (cases x) auto

text \<open>A finite binary64 value no larger than the largest binary32 narrows to a finite value.\<close>

lemma f64_as_f32_finite:
  assumes "is_finite x" and "fp_le (fp_neg f32_MAX) x" and "fp_le x f32_MAX"
  shows "is_finite (f64_as_f32 x) \<and> wf_fp binary32 (f64_as_f32 x)"
proof (cases rule: finite_cases[OF assms(1)])
  case 1
  then show ?thesis by simp
next
  case (2 q)
  define b :: rat where "b = of_int (2 ^ 24 - 1) * 2 ^ 104"
  have rep: "representable binary32 b" unfolding b_def by (rule representable_f32_MAX)
  have m: "f32_MAX = FNum b" unfolding f32_MAX_def b_def ..
  have "b \<noteq> 0" by (simp add: b_def)
  with assms(2,3) 2 have "- b \<le> q" "q \<le> b" by (simp_all add: m fp_le_finite)
  then have "\<bar>q\<bar> \<le> b" by linarith
  from fp_of_rat_bounded[OF this rep, of False] 2
  show ?thesis by (auto simp: wf_fp_of_rat)
qed

lemma fp_of_int_exact:
  assumes "\<bar>n\<bar> < 2 ^ 53"
  shows "fp_of_int binary64 n = FNum (of_int n)"
proof (cases "n = 0")
  case True
  then show ?thesis by (simp add: fp_of_int_def fp_of_rat_def round_rat_def binary64_def power_int_def)
next
  case False
  have "representable binary64 (of_int n)"
    using representableI[of n binary64 0] assms by (simp add: binary64_def)
  with False show ?thesis by (simp add: fp_of_int_def fp_of_rat_exact)
qed

lemma is_finite_u32_as_f64: "u32_as_f64 n = FNum (of_int (uint n))"
proof -
  have "uint n < 2 ^ LENGTH(32)" by (rule uint_bounded)
  then have "\<bar>uint n\<bar> < 2 ^ 53" by simp
  then show ?thesis unfolding u32_as_f64_def by (rule fp_of_int_exact)
qed

end
