(* ===== verification/Ordered_Map.thy ===== *)
theory Ordered_Map
  imports Prelude "HOL-Library.Product_Lexorder"
begin

text \<open>
  The ordered map (\<open>std::collections::BTreeMap\<close>) that several components keep their state in:
  an association list with strictly increasing keys. The locale states what its clients rely on
  (lookup after insert, iteration in key order, one entry per key); the interpretation proves it
  for the list the components use.
\<close>

fun btree_insert :: "'k::linorder \<Rightarrow> 'v \<Rightarrow> ('k \<times> 'v) list \<Rightarrow> ('k \<times> 'v) list" where
  "btree_insert k v [] = [(k, v)]"
| "btree_insert k v ((k', v') # m) =
     (if k < k' then (k, v) # (k', v') # m
      else if k = k' then (k, v) # m
      else (k', v') # btree_insert k v m)"

definition btree_remove :: "'k \<Rightarrow> ('k \<times> 'v) list \<Rightarrow> ('k \<times> 'v) list" where
  "btree_remove k m = filter (\<lambda>(k', v). k' \<noteq> k) m"

definition btree_ok :: "('k::linorder \<times> 'v) list \<Rightarrow> bool" where
  "btree_ok m \<longleftrightarrow> sorted_wrt (<) (map fst m)"

lemma btree_ok_filter: "btree_ok m \<Longrightarrow> btree_ok (filter P m)"
  unfolding btree_ok_def by (induction m) auto

locale ordered_map =
  fixes empty :: "'m"
    and insert :: "'k::linorder \<Rightarrow> 'v \<Rightarrow> 'm \<Rightarrow> 'm"
    and lookup :: "'m \<Rightarrow> 'k \<Rightarrow> 'v option"
    and entries :: "'m \<Rightarrow> ('k \<times> 'v) list"
    and invar :: "'m \<Rightarrow> bool"
  assumes invar_empty: "invar empty"
    and lookup_empty: "lookup empty k = None"
    and invar_insert: "invar m \<Longrightarrow> invar (insert k v m)"
    and lookup_insert: "invar m \<Longrightarrow> lookup (insert k v m) = (lookup m)(k \<mapsto> v)"
    and entries_lookup: "invar m \<Longrightarrow> map_of (entries m) = lookup m"
    and entries_sorted: "invar m \<Longrightarrow> sorted_wrt (<) (map fst (entries m))"
begin

definition insert_all :: "('k \<times> 'v) list \<Rightarrow> 'm \<Rightarrow> 'm" where
  "insert_all kvs m = fold (\<lambda>(k, v). insert k v) kvs m"

lemma invar_insert_all: "invar m \<Longrightarrow> invar (insert_all kvs m)"
  unfolding insert_all_def by (induction kvs arbitrary: m) (auto simp: invar_insert)

lemma lookup_insert_all: "invar m \<Longrightarrow> lookup (insert_all kvs m) = lookup m ++ map_of (rev kvs)"
  unfolding insert_all_def
proof (induction kvs arbitrary: m)
  case Nil
  then show ?case by simp
next
  case (Cons kv kvs)
  obtain k v where "kv = (k, v)" by fastforce
  with Cons show ?case by (simp add: invar_insert lookup_insert map_add_upd_left fun_eq_iff map_add_def
        split: option.split)
qed

lemma entries_distinct: "invar m \<Longrightarrow> distinct (map fst (entries m))"
  using entries_sorted[of m] by (simp add: strict_sorted_iff)

lemma lookup_iff_entry: "invar m \<Longrightarrow> lookup m k = Some v \<longleftrightarrow> (k, v) \<in> set (entries m)"
  using entries_distinct[of m] entries_lookup[of m] by (metis map_of_eq_Some_iff)

lemma keys_of_entries: "invar m \<Longrightarrow> dom (lookup m) = fst ` set (entries m)"
  using entries_lookup[of m] by (metis dom_map_of_conv_image_fst)

end

locale removable_map = ordered_map +
  fixes remove :: "'b \<Rightarrow> 'a \<Rightarrow> 'a"
  assumes invar_remove: "invar m \<Longrightarrow> invar (remove k m)"
    and lookup_remove: "invar m \<Longrightarrow> lookup (remove k m) = (lookup m)(k := None)"
begin

lemma insert_remove_lookup:
  "invar m \<Longrightarrow> lookup (remove k (insert k v m)) = lookup (remove k m)"
  by (simp add: lookup_remove lookup_insert invar_insert)

lemma remove_insert_other:
  "invar m \<Longrightarrow> k \<noteq> k' \<Longrightarrow> lookup (remove k (insert k' v m)) = lookup (insert k' v (remove k m))"
  by (auto simp: lookup_remove lookup_insert invar_insert invar_remove)

end

lemma set_btree_insert_keys: "fst ` set (btree_insert k v m) = insert k (fst ` set m)"
  by (induction k v m rule: btree_insert.induct) auto

lemma btree_ok_Cons: "btree_ok ((k, v) # m) \<longleftrightarrow> (\<forall>k' \<in> fst ` set m. k < k') \<and> btree_ok m"
  by (auto simp: btree_ok_def)

lemma btree_ok_insert: "btree_ok m \<Longrightarrow> btree_ok (btree_insert k v m)"
proof (induction k v m rule: btree_insert.induct)
  case (1 k v)
  then show ?case by (simp add: btree_ok_def)
next
  case (2 k v k' v' m)
  then show ?case
    by (auto simp: btree_ok_Cons set_btree_insert_keys simp del: btree_insert.simps
        simp: btree_insert.simps(2)[of k v k' v' m])
qed

lemma map_of_btree_insert: "btree_ok m \<Longrightarrow> map_of (btree_insert k v m) = (map_of m)(k \<mapsto> v)"
proof (induction k v m rule: btree_insert.induct)
  case (1 k v)
  then show ?case by simp
next
  case (2 k v k' v' m)
  then show ?case by (auto simp: btree_ok_Cons fun_eq_iff)
qed

lemma btree_ok_remove: "btree_ok m \<Longrightarrow> btree_ok (btree_remove k m)"
  unfolding btree_ok_def btree_remove_def
  by (induction m) (auto simp: split_beta)

lemma map_of_btree_remove: "map_of (btree_remove k m) = (map_of m)(k := None)"
  by (induction m) (auto simp: btree_remove_def fun_eq_iff)

lemma length_btree_insert:
  "btree_ok m \<Longrightarrow> length (btree_insert k v m) = (if map_of m k = None then Suc (length m) else length m)"
proof (induction k v m rule: btree_insert.induct)
  case (2 k v k' v' m)
  have "map_of m k = None" if "k < k'"
    using that 2(2) by (auto simp: btree_ok_Cons map_of_eq_None_iff)
  with 2 show ?case by (auto simp: btree_ok_Cons)
qed simp

lemma btree_remove_absent: "k \<notin> fst ` set m \<Longrightarrow> btree_remove k m = m"
  by (force simp: btree_remove_def filter_id_conv)

lemma length_btree_remove:
  "distinct (map fst m) \<Longrightarrow> map_of m k \<noteq> None \<Longrightarrow> Suc (length (btree_remove k m)) = length m"
proof (induction m)
  case (Cons kv m)
  obtain k' v where "kv = (k', v)" by fastforce
  with Cons btree_remove_absent[of k m] show ?case by (auto simp: btree_remove_def split: if_splits)
qed simp

interpretation bt: removable_map "[]" btree_insert map_of "\<lambda>m. m" btree_ok btree_remove
proof unfold_locales
  show "btree_ok ([] :: ('a \<times> 'b) list)" by (simp add: btree_ok_def)
  show "sorted_wrt (<) (map fst m)" if "btree_ok m" for m :: "('a \<times> 'b) list"
    using that by (simp add: btree_ok_def)
qed (simp_all add: btree_ok_insert map_of_btree_insert btree_ok_remove map_of_btree_remove)

end
