(* ===== verification/Model.thy ===== *)
theory Model
  imports Float64 Ordered_Map
begin

text \<open>
  The data model shared by the acquisition program (\<open>src/src/model\<close>) and the cache of the latest
  device states (\<open>src/src/runtime_cache.rs\<close>): values, commands, station versions, the system
  state of ports and devices. A \<open>HashMap\<close> is a partial function; locks are taken and released
  inside each operation, so an operation is one function on the protected state.
\<close>

section \<open>Values (value.rs, mod.rs)\<close>

datatype rcd_value = V_UInt u32 | V_Bool bool | V_Float f32 | V_Double f64

fun to_f64 :: "rcd_value \<Rightarrow> f64" where
  "to_f64 (V_UInt n) = u32_as_f64 n"
| "to_f64 (V_Bool b) = (if b then FNum 1 else FNum 0)"
| "to_f64 (V_Float f) = f32_as_f64 f"
| "to_f64 (V_Double f) = f"

definition get_sum :: "bytes \<Rightarrow> u8" where
  "get_sum data = foldl (\<lambda>acc b. acc + b) 0 data"

section \<open>Station versions (station_version.rs)\<close>

datatype module_type = MT_Unknown | MT_Domestic | MT_LegacyRussian

fun module_type_as_str :: "module_type \<Rightarrow> string" where
  "module_type_as_str MT_Unknown = ''unknown''"
| "module_type_as_str MT_Domestic = ''domestic''"
| "module_type_as_str MT_LegacyRussian = ''legacy_russian''"

datatype module_type_error = BadModuleType

definition module_type_from_str :: "string \<Rightarrow> module_type_error + module_type" where
  "module_type_from_str s =
     (if s = ''unknown'' then Ok MT_Unknown
      else if s = ''domestic'' then Ok MT_Domestic
      else if s = ''legacy_russian'' then Ok MT_LegacyRussian
      else Err BadModuleType)"

record station_version_record =
  configured_module_type :: module_type
  detected_module_type :: module_type
  type_mismatch :: bool
  communication_module_version :: string
  communication_module_version_raw :: "u16 option"
  plc_version :: string
  plc_version_raw :: "u16 option"
  version_payload :: string
  version_state :: string
  last_version_attempt_at :: "string option"
  last_version_success_at :: "string option"
  last_version_error :: string
  consecutive_failures :: u32
  stale :: bool

definition default_station_version :: station_version_record where
  "default_station_version =
     \<lparr>configured_module_type = MT_Unknown, detected_module_type = MT_Unknown,
      type_mismatch = False, communication_module_version = [],
      communication_module_version_raw = None, plc_version = [], plc_version_raw = None,
      version_payload = [], version_state = ''never_queried'',
      last_version_attempt_at = None, last_version_success_at = None,
      last_version_error = [], consecutive_failures = 0, stale = False\<rparr>"

definition has_last_version :: "station_version_record \<Rightarrow> bool" where
  "has_last_version r \<longleftrightarrow>
     last_version_success_at r \<noteq> None \<or> communication_module_version_raw r \<noteq> None
       \<or> plc_version_raw r \<noteq> None"

definition reset_for_configured_type ::
  "station_version_record \<Rightarrow> module_type \<Rightarrow> station_version_record" where
  "reset_for_configured_type r configured =
     default_station_version
       \<lparr>configured_module_type := configured,
        version_state := (case configured of
            MT_LegacyRussian \<Rightarrow> ''unsupported''
          | MT_Unknown \<Rightarrow> ''never_queried''
          | MT_Domestic \<Rightarrow> ''never_queried'')\<rparr>"

definition display_version :: "u16 \<Rightarrow> string" where
  "display_version raw =
     ''V'' @ show_nat (unat (drop_bit 8 raw)) @ ''.'' @ show_nat (unat (raw AND 255))"

section \<open>Commands (command.rs)\<close>

record send_data =
  sd_device_id :: u32
  sd_command :: bytes

datatype command_type =
    SendData send_data
  | PortStatus bool
  | DeviceSetting u8 bool
  | SendDataWithAck send_data
  | DeviceReadSetting u8 bool
  | StationModuleTypeSetting u8 module_type
  | QueryStationVersion u8

text \<open>
  The receipt of a control command is its revision; the reply channel and the reservation permit
  carry no data of their own and are represented by their presence. Instants are natural numbers.
\<close>

record command =
  cmd_com :: string
  cmd_command :: command_type
  cmd_ack_id :: "u64 option"
  cmd_expires_at :: "nat option"
  cmd_control_receipt :: "u64 option"
  cmd_permit :: bool

definition command_as_string :: "send_data \<Rightarrow> string" where
  "command_as_string d = concat (map format_02X (sd_command d))"

datatype command_ack_status = Ack_Waiting | Ack_Received | Ack_Failed

fun as_opc_value :: "command_ack_status \<Rightarrow> string" where
  "as_opc_value Ack_Received = ''1''"
| "as_opc_value Ack_Waiting = ''2''"
| "as_opc_value Ack_Failed = ''3''"

fun is_terminal :: "command_ack_status \<Rightarrow> bool" where
  "is_terminal Ack_Received = True"
| "is_terminal Ack_Failed = True"
| "is_terminal Ack_Waiting = False"

record command_ack_update =
  cau_com :: string
  cau_ack_id :: "u64 option"
  cau_status :: command_ack_status

section \<open>Device states and the latest-state cache (device.rs, runtime_cache.rs)\<close>

record device_status =
  ds_id :: u64
  ds_device_id :: u8
  ds_com :: string
  ds_com_status :: bool
  ds_device_status :: bool
  ds_value :: "string \<rightharpoonup> rcd_value"
  ds_raw_data :: bytes

type_synonym latest_status_cache = "((string \<times> u8) \<times> device_status) list"

definition cache_update :: "device_status \<Rightarrow> latest_status_cache \<Rightarrow> latest_status_cache" where
  "cache_update st c = btree_insert (ds_com st, ds_device_id st) st c"

definition snapshot_statuses :: "latest_status_cache \<Rightarrow> device_status list" where
  "snapshot_statuses c = map snd c"

definition cache_len :: "latest_status_cache \<Rightarrow> nat" where
  "cache_len c = length c"

definition cache_is_empty :: "latest_status_cache \<Rightarrow> bool" where
  "cache_is_empty c \<longleftrightarrow> cache_len c = 0"

section \<open>System state (state.rs)\<close>

record port_runtime_state =
  prs_port_number :: string
  prs_status :: bool
  prs_device_status :: "u8 \<rightharpoonup> bool"

type_synonym system_state = "port_runtime_state list"

datatype state_error = PortNotFound string | DeviceNotFound u8 string

definition new_system_state :: system_state where
  "new_system_state = []"

definition add_port :: "port_runtime_state \<Rightarrow> system_state \<Rightarrow> system_state" where
  "add_port p s = s @ [p]"

text \<open>The first port with the number is changed in place, as \<open>iter_mut().find\<close> does.\<close>

fun set_port_status :: "string \<Rightarrow> bool \<Rightarrow> system_state \<Rightarrow> state_error + system_state" where
  "set_port_status n st [] = Err (PortNotFound n)"
| "set_port_status n st (p # ps) =
     (if prs_port_number p = n then Ok (p\<lparr>prs_status := st\<rparr> # ps)
      else map_ok ((#) p) (set_port_status n st ps))"

fun set_device_status ::
  "string \<Rightarrow> u8 \<Rightarrow> bool \<Rightarrow> system_state \<Rightarrow> state_error + system_state" where
  "set_device_status n d st [] = Err (PortNotFound n)"
| "set_device_status n d st (p # ps) =
     (if prs_port_number p = n then
        (case prs_device_status p d of
           None \<Rightarrow> Err (DeviceNotFound d n)
         | Some _ \<Rightarrow> Ok (p\<lparr>prs_device_status := (prs_device_status p)(d \<mapsto> st)\<rparr> # ps))
      else map_ok ((#) p) (set_device_status n d st ps))"

definition get_state :: "system_state \<Rightarrow> port_runtime_state list" where
  "get_state s = s"

definition find_port :: "string \<Rightarrow> system_state \<Rightarrow> port_runtime_state option" where
  "find_port n s = List.find (\<lambda>p. prs_port_number p = n) s"

section \<open>Lemmas\<close>

lemma get_sum_Nil [simp]: "get_sum [] = 0"
  by (simp add: get_sum_def)

lemma foldl_plus_word: "foldl (+) (a :: 'a::len word) xs = a + sum_list xs"
  by (induction xs arbitrary: a) (auto simp: add.assoc)

lemma get_sum_eq: "get_sum xs = sum_list xs"
  by (simp add: get_sum_def foldl_plus_word)

lemma get_sum_append: "get_sum (xs @ ys) = get_sum xs + get_sum ys"
  by (simp add: get_sum_eq)

lemma module_type_round_trip: "module_type_from_str (module_type_as_str t) = Ok t"
  by (cases t) (simp_all add: module_type_from_str_def)

lemma module_type_from_str_Ok: "module_type_from_str s = Ok t \<Longrightarrow> module_type_as_str t = s"
  by (auto simp: module_type_from_str_def split: if_splits)

lemma cache_ok_update: "btree_ok c \<Longrightarrow> btree_ok (cache_update st c)"
  by (simp add: cache_update_def btree_ok_insert)

lemma map_of_cache_update:
  "btree_ok c \<Longrightarrow> map_of (cache_update st c) = (map_of c)((ds_com st, ds_device_id st) \<mapsto> st)"
  by (simp add: cache_update_def map_of_btree_insert)

lemma set_port_status_find:
  "set_port_status n st s = Ok s' \<Longrightarrow>
     find_port m s' = (if m = n then map_option (prs_status_update (\<lambda>_. st)) (find_port m s)
                       else find_port m s)"
  by (induction s arbitrary: s') (auto simp: find_port_def split: if_splits)

lemma set_port_status_Err: "is_ok (set_port_status n st s) \<longleftrightarrow> find_port n s \<noteq> None"
proof (induction s)
  case Nil
  then show ?case by (simp add: find_port_def)
next
  case (Cons p ps)
  then show ?case by (cases "set_port_status n st ps") (auto simp: find_port_def)
qed

lemma set_device_status_find:
  "set_device_status n d st s = Ok s' \<Longrightarrow>
     find_port m s' =
       (if m = n
        then map_option (\<lambda>p. p\<lparr>prs_device_status := (prs_device_status p)(d \<mapsto> st)\<rparr>) (find_port m s)
        else find_port m s)"
  by (induction s arbitrary: s') (auto simp: find_port_def split: if_splits option.splits)

lemma set_device_status_result:
  "set_device_status n d st s =
     (case find_port n s of
        None \<Rightarrow> Err (PortNotFound n)
      | Some p \<Rightarrow> if prs_device_status p d = None then Err (DeviceNotFound d n)
                  else set_device_status n d st s)"
  by (induction s) (auto simp: find_port_def split: option.splits)

lemma set_device_status_is_ok:
  "find_port n s = Some p \<Longrightarrow> prs_device_status p d \<noteq> None \<Longrightarrow> is_ok (set_device_status n d st s)"
proof (induction s)
  case (Cons q qs)
  then show ?case by (cases "set_device_status n d st qs") (auto simp: find_port_def split: if_splits)
qed (simp add: find_port_def)

end
