(* ===== verification/Tokenizer.thy ===== *)
theory Tokenizer
  imports Model
begin

text \<open>
  The lexer of the calculation engine (\<open>src/src/calc_engine/tokenizer.rs\<close>). The position in the
  character vector is the remaining suffix of the text. Error texts are constructors; the
  position and character they quote only reach the log and are left out.
\<close>

datatype token =
    T_Int i64 | T_Float f64 | T_Ident string
  | T_Plus | T_Minus | T_Star | T_Slash | T_Percent
  | T_Amp | T_Pipe | T_Caret | T_Tilde | T_ShiftLeft | T_ShiftRight
  | T_And | T_Or | T_Bang
  | T_Eq | T_NotEq | T_Lt | T_Gt | T_LtEq | T_GtEq
  | T_LParen | T_RParen | T_Comma
  | T_Eof

datatype lex_error = IntOutOfRange string | LoneEquals | IllegalChar

definition is_ident_char :: "char \<Rightarrow> bool" where
  "is_ident_char c \<longleftrightarrow> is_ascii_alphanumeric c \<or> c = CHR ''_''"

definition is_ident_start :: "char \<Rightarrow> bool" where
  "is_ident_start c \<longleftrightarrow> is_ascii_alphabetic c \<or> c = CHR ''_''"

text \<open>Digits with at most one dot: the consumed text, the rest, and whether a dot was consumed.\<close>

fun take_number :: "bool \<Rightarrow> string \<Rightarrow> string \<times> string \<times> bool" where
  "take_number has_dot [] = ([], [], has_dot)"
| "take_number has_dot (c # cs) =
     (if is_ascii_digit c then
        (let (n, rest, d) = take_number has_dot cs in (c # n, rest, d))
      else if c = CHR ''.'' \<and> \<not> has_dot then
        (let (n, rest, d) = take_number True cs in (c # n, rest, d))
      else ([], c # cs, has_dot))"

definition parse_i64 :: "string \<Rightarrow> i64 option" where
  "parse_i64 s = map_option of_nat (parse_unsigned (2 ^ 63) s)"

definition lex_number :: "string \<Rightarrow> lex_error + (token \<times> string)" where
  "lex_number s =
     (let (num, rest, has_dot) = take_number False s
      in if rest \<noteq> [] \<and> is_ident_start (hd rest) then
           Ok (T_Ident (num @ takeWhile is_ident_char rest), dropWhile is_ident_char rest)
         else if has_dot then Ok (T_Float (parse_decimal num), rest)
         else case parse_i64 num of
                None \<Rightarrow> Err (IntOutOfRange num)
              | Some n \<Rightarrow> Ok (T_Int n, rest))"

definition lex_ident :: "string \<Rightarrow> token \<times> string" where
  "lex_ident s = (T_Ident (takeWhile is_ident_char s), dropWhile is_ident_char s)"

definition next_is :: "char \<Rightarrow> string \<Rightarrow> bool" where
  "next_is c s \<longleftrightarrow> s \<noteq> [] \<and> hd s = c"

definition lex_operator :: "char \<Rightarrow> string \<Rightarrow> lex_error + (token \<times> string)" where
  "lex_operator c s =
     (if c = CHR ''+'' then Ok (T_Plus, s)
      else if c = CHR ''-'' then Ok (T_Minus, s)
      else if c = CHR ''*'' then Ok (T_Star, s)
      else if c = CHR ''/'' then Ok (T_Slash, s)
      else if c = CHR ''%'' then Ok (T_Percent, s)
      else if c = CHR ''^'' then Ok (T_Caret, s)
      else if c = CHR ''~'' then Ok (T_Tilde, s)
      else if c = CHR ''('' then Ok (T_LParen, s)
      else if c = CHR '')'' then Ok (T_RParen, s)
      else if c = CHR '','' then Ok (T_Comma, s)
      else if c = CHR ''&'' then (if next_is (CHR ''&'') s then Ok (T_And, tl s) else Ok (T_Amp, s))
      else if c = CHR ''|'' then (if next_is (CHR ''|'') s then Ok (T_Or, tl s) else Ok (T_Pipe, s))
      else if c = CHR ''!'' then (if next_is (CHR ''='') s then Ok (T_NotEq, tl s) else Ok (T_Bang, s))
      else if c = CHR ''='' then (if next_is (CHR ''='') s then Ok (T_Eq, tl s) else Err LoneEquals)
      else if c = CHR ''<'' then
        (if next_is (CHR ''='') s then Ok (T_LtEq, tl s)
         else if next_is (CHR ''<'') s then Ok (T_ShiftLeft, tl s) else Ok (T_Lt, s))
      else if c = CHR ''>'' then
        (if next_is (CHR ''='') s then Ok (T_GtEq, tl s)
         else if next_is (CHR ''>'') s then Ok (T_ShiftRight, tl s) else Ok (T_Gt, s))
      else Err IllegalChar)"

text \<open>One round of the loop at a nonempty rest: no token for white space, else one token.\<close>

definition lex_step :: "char \<Rightarrow> string \<Rightarrow> lex_error + (token option \<times> string)" where
  "lex_step c s =
     (if is_ascii_whitespace c then Ok (None, s)
      else if is_ascii_digit c \<or> c = CHR ''.'' \<and> s \<noteq> [] \<and> is_ascii_digit (hd s)
      then map_ok (\<lambda>(t, r). (Some t, r)) (lex_number (c # s))
      else if is_ident_start c then (let (t, r) = lex_ident (c # s) in Ok (Some t, r))
      else map_ok (\<lambda>(t, r). (Some t, r)) (lex_operator c s))"

lemma take_number_append: "take_number d s = (n, r, d') \<Longrightarrow> s = n @ r"
  by (induction s arbitrary: d n r d') (auto split: if_splits prod.splits)

lemma lex_operator_shorter: "lex_operator c s = Ok (t, r) \<Longrightarrow> length r \<le> length s"
  by (auto simp: lex_operator_def next_is_def split: if_splits)

lemma lex_number_shorter:
  assumes "lex_number (c # s) = Ok (t, r)"
    and "is_ascii_digit c \<or> c = CHR ''.''"
  shows "length r \<le> length s"
proof -
  obtain n q d where tn: "take_number False (c # s) = (n, q, d)" by (metis prod_cases3)
  with assms(2) have "n \<noteq> []" by (auto split: prod.splits if_splits)
  moreover have "c # s = n @ q" using tn by (rule take_number_append)
  ultimately have "length q \<le> length s" by (cases n) auto
  moreover have "length (dropWhile is_ident_char q) \<le> length q" by (rule length_dropWhile_le)
  ultimately show ?thesis
    using assms(1) tn by (auto simp: lex_number_def split: if_splits option.splits)
qed

lemma lex_step_shorter:
  assumes "lex_step c s = Ok (t, r)"
  shows "length r \<le> length s"
proof -
  have "is_ident_start c \<Longrightarrow> is_ident_char c"
    by (auto simp: is_ident_start_def is_ident_char_def alphabetic_alphanumeric)
  then have "is_ident_start c \<Longrightarrow> length (dropWhile is_ident_char (c # s)) \<le> length s"
    using length_dropWhile_le[of is_ident_char s] by simp
  with assms show ?thesis
    by (auto simp: lex_step_def lex_ident_def dest: lex_operator_shorter lex_number_shorter
        split: if_splits)
qed

function tokenize :: "string \<Rightarrow> lex_error + token list" where
  "tokenize [] = Ok [T_Eof]"
| "tokenize (c # s) =
     (case lex_step c s of
        Inl e \<Rightarrow> Err e
      | Inr (t, r) \<Rightarrow>
          (case t of None \<Rightarrow> tokenize r | Some tok \<Rightarrow> map_ok ((#) tok) (tokenize r)))"
  by pat_completeness auto
termination
  by (relation "measure length") (auto dest: lex_step_shorter)

section \<open>Every accepted text ends with the end token\<close>

lemma tokenize_ends:
  "tokenize s = Ok ts \<Longrightarrow> \<exists>us. ts = us @ [T_Eof] \<and> T_Eof \<notin> set us"
proof (induction s arbitrary: ts rule: tokenize.induct)
  case 1
  then show ?case by auto
next
  case (2 c s)
  have ne: "lex_step c s = Ok (Some tok, r) \<Longrightarrow> tok \<noteq> T_Eof" for tok r
    by (auto simp: lex_step_def lex_ident_def lex_number_def lex_operator_def
        split: if_splits prod.splits option.splits)
  obtain t r where step: "lex_step c s = Ok (t, r)"
    using "2.prems" by (auto split: sum.splits)
  show ?case
  proof (cases t)
    case None
    with step 2 show ?thesis by auto
  next
    case (Some tok)
    with step "2.prems" obtain us where "tokenize r = Ok us" and ts: "ts = tok # us" by auto
    with "2.IH"(2)[OF step refl Some] obtain vs where "us = vs @ [T_Eof]" "T_Eof \<notin> set vs" by auto
    with ts Some ne[of tok r] step show ?thesis by (intro exI[of _ "tok # vs"]) auto
  qed
qed

section \<open>Printing and reading back\<close>

text \<open>
  A nonnegative binary fraction written out in full: the integer part, a dot, and as many digits as the
  denominator, a power of two, needs, at least one.
\<close>

fun fixed_digits :: "nat \<Rightarrow> nat \<Rightarrow> string" where
  "fixed_digits 0 n = []"
| "fixed_digits (Suc k) n = fixed_digits k (n div 10) @ [char_of (48 + n mod 10)]"

definition decimals :: "rat \<Rightarrow> nat" where
  "decimals q = nat (max 1 (bitlen (snd (quotient_of q)) - 1))"

definition show_float :: "rat \<Rightarrow> string" where
  "show_float q =
     (let k = decimals q; n = nat \<lfloor>q * 10 ^ k\<rfloor> in show_nat (n div 10 ^ k) @ CHR ''.'' # fixed_digits k n)"

text \<open>The text of a token; float literals are finite and not negative.\<close>

fun token_text :: "token \<Rightarrow> string" where
  "token_text (T_Int n) = show_nat (unat n)"
| "token_text (T_Float f) = (case f of FNum q \<Rightarrow> show_float q | _ \<Rightarrow> [])"
| "token_text (T_Ident s) = s"
| "token_text T_Plus = ''+''"
| "token_text T_Minus = ''-''"
| "token_text T_Star = ''*''"
| "token_text T_Slash = ''/''"
| "token_text T_Percent = ''%''"
| "token_text T_Amp = ''&''"
| "token_text T_Pipe = ''|''"
| "token_text T_Caret = ''^''"
| "token_text T_Tilde = ''~''"
| "token_text T_ShiftLeft = ''<<''"
| "token_text T_ShiftRight = ''>>''"
| "token_text T_And = ''&&''"
| "token_text T_Or = ''||''"
| "token_text T_Bang = ''!''"
| "token_text T_Eq = ''==''"
| "token_text T_NotEq = ''!=''"
| "token_text T_Lt = ''<''"
| "token_text T_Gt = ''>''"
| "token_text T_LtEq = ''<=''"
| "token_text T_GtEq = ''>=''"
| "token_text T_LParen = ''(''"
| "token_text T_RParen = '')''"
| "token_text T_Comma = '',''"
| "token_text T_Eof = []"

definition print_tokens :: "token list \<Rightarrow> string" where
  "print_tokens ts = concat (map (\<lambda>t. token_text t @ '' '') ts)"

text \<open>
  An identifier of the lexer: letters, digits and underscores, not digits alone (a KKS name such
  as \<open>9CYE91GH201_SL1\<close> may start with a digit). Numbers are nonnegative: 64-bit integers, and finite
  values of the 64-bit floating point format.
\<close>

definition valid_ident :: "string \<Rightarrow> bool" where
  "valid_ident s \<longleftrightarrow> list_all is_ident_char s \<and> \<not> list_all is_ascii_digit s"

fun printable :: "token \<Rightarrow> bool" where
  "printable (T_Int n) \<longleftrightarrow> unat n < 2 ^ 63"
| "printable (T_Float f) \<longleftrightarrow> (case f of FNum q \<Rightarrow> 0 \<le> q \<and> representable binary64 q | _ \<Rightarrow> False)"
| "printable (T_Ident s) \<longleftrightarrow> valid_ident s"
| "printable T_Eof \<longleftrightarrow> False"
| "printable _ \<longleftrightarrow> True"

lemma space_facts [simp]:
  "\<not> is_ident_char (CHR '' '')" "\<not> is_ascii_digit (CHR '' '')" "\<not> is_ident_start (CHR '' '')"
  "is_ascii_whitespace (CHR '' '')"
  by (simp_all add: is_ident_char_def is_ident_start_def ascii_defs)

lemma take_number_digits:
  assumes "list_all is_ascii_digit ds" and "rest \<noteq> []" and "\<not> is_ascii_digit (hd rest)"
    and "hd rest \<noteq> CHR ''.''"
  shows "take_number d (ds @ rest) = (ds, rest, d)"
  using assms by (induction ds arbitrary: d) (auto simp: neq_Nil_conv)

lemma takeWhile_ident: "list_all is_ident_char s \<Longrightarrow>
    takeWhile is_ident_char (s @ CHR '' '' # r) = s \<and> dropWhile is_ident_char (s @ CHR '' '' # r) = CHR '' '' # r"
  by (induction s) auto

lemma parse_i64_show_nat:
  assumes "unat n < 2 ^ 63"
  shows "parse_i64 (show_nat (unat n)) = Some n"
proof -
  have d: "show_nat (unat n) \<noteq> []" "list_all is_ascii_digit (show_nat (unat n))"
    using show_nat_digits by auto
  moreover have "\<not> is_ascii_digit (CHR ''+'')" by (simp add: ascii_defs)
  ultimately have "(case show_nat (unat n) of CHR ''+'' # t \<Rightarrow> t | _ \<Rightarrow> show_nat (unat n)) = show_nat (unat n)"
    by (auto split: list.splits char.splits bool.splits)
  with d assms show ?thesis
    by (simp add: parse_i64_def parse_unsigned_def digits_val_show_nat)
qed

lemma lex_step_operator:
  assumes "\<not> is_ascii_whitespace c" and "\<not> is_ascii_digit c" and "c \<noteq> CHR ''.''"
    and "\<not> is_ident_start c"
  shows "lex_step c s = map_ok (\<lambda>(t, r). (Some t, r)) (lex_operator c s)"
  using assms by (simp add: lex_step_def)

lemma lex_step_int:
  assumes "unat n < 2 ^ 63"
  shows "\<exists>c s. show_nat (unat n) = c # s \<and> lex_step c (s @ CHR '' '' # r) = Ok (Some (T_Int n), CHR '' '' # r)"
proof -
  obtain c s where cs: "show_nat (unat n) = c # s" using show_nat_digits by (metis neq_Nil_conv)
  have dig: "list_all is_ascii_digit (c # s)" using show_nat_digits cs by metis
  have "take_number False ((c # s) @ CHR '' '' # r) = (c # s, CHR '' '' # r, False)"
    using dig by (intro take_number_digits) auto
  then have "lex_number (c # s @ CHR '' '' # r) = Ok (T_Int n, CHR '' '' # r)"
    using parse_i64_show_nat[OF assms] by (simp add: lex_number_def cs)
  moreover have "is_ascii_digit c" using dig by simp
  ultimately have "lex_step c (s @ CHR '' '' # r) = Ok (Some (T_Int n), CHR '' '' # r)"
    by (simp add: lex_step_def digit_not_whitespace)
  with cs show ?thesis by blast
qed

lemma fixed_digits_facts: "length (fixed_digits k n) = k" "list_all is_ascii_digit (fixed_digits k n)"
  by (induction k arbitrary: n) (simp_all add: digit_char)

lemma digits_val_fixed: "digits_val (s @ fixed_digits k n) = digits_val s * 10 ^ k + n mod 10 ^ k"
proof (induction k arbitrary: n)
  case (Suc k)
  have "digits_val (s @ fixed_digits (Suc k) n) = 10 * (digits_val s * 10 ^ k + n div 10 mod 10 ^ k) + n mod 10"
    using Suc[of "n div 10"] by (simp add: digits_val_snoc digit_char flip: append_assoc)
  also have "\<dots> = digits_val s * 10 ^ Suc k + n mod 10 ^ Suc k"
    using mod_mult2_eq[of n 10 "10 ^ k"] by (simp add: algebra_simps)
  finally show ?case .
qed simp

text \<open>The digits suffice.\<close>

lemma dvd_pow2: "0 < (d :: int) \<Longrightarrow> d dvd 2 ^ k \<Longrightarrow> \<exists>i. d = 2 ^ i"
proof (induction k arbitrary: d)
  case (Suc k)
  show ?case
  proof (cases "even d")
    case True
    then obtain c where c: "d = 2 * c" by blast
    with Suc.prems have "0 < c" "c dvd 2 ^ k" by simp_all
    from Suc.IH[OF this] obtain i where "c = 2 ^ i" ..
    with c show ?thesis by (intro exI[of _ "Suc i"]) simp
  next
    case False
    then have "coprime d (2 ^ Suc k)" by simp
    with Suc.prems have "d = 1" by (metis coprime_absorb_left zdvd1_eq abs_of_pos)
    then show ?thesis by (intro exI[of _ 0]) simp
  qed
qed (auto intro: exI[of _ 0])

lemma representable_denominator:
  assumes "representable f q"
  shows "\<exists>i. snd (quotient_of q) = 2 ^ i"
proof -
  obtain n d where nd: "quotient_of q = (n, d)" by fastforce
  have d: "0 < d" "coprime n d" "q = of_int n / of_int d"
    using quotient_of_denom_pos[OF nd] quotient_of_coprime[OF nd] quotient_of_div[OF nd] by simp_all
  obtain m e where me: "q = of_int m * 2 powi e" using assms by (auto simp: representable_def)
  have "\<exists>k. d dvd 2 ^ k"
  proof -
    define k where "k = nat (- e)"
    have "\<exists>z. q * 2 ^ k = of_int z"
    proof (cases "0 \<le> e")
      case True
      then have "q * 2 ^ k = of_int (m * 2 ^ nat e)" by (simp add: me k_def power_int_def)
      then show ?thesis by blast
    next
      case False
      then have "q * 2 ^ k = of_int m" by (simp add: me k_def power_int_def flip: power_mult_distrib)
      then show ?thesis by blast
    qed
    then obtain z where "of_int n * 2 ^ k = of_int d * (of_int z :: rat)" using d by (auto simp: field_simps)
    then have "of_int (n * 2 ^ k) = (of_int (d * z) :: rat)" by simp
    then have "n * 2 ^ k = d * z" unfolding of_int_eq_iff .
    then have "d dvd n * 2 ^ k" by simp
    then show ?thesis using d(2) coprime_dvd_mult_right_iff[of d n] by (auto simp: coprime_commute)
  qed
  then show ?thesis using dvd_pow2[OF d(1)] nd by auto
qed

lemma bitlen_pow2: "bitlen (2 ^ i) = int i + 1"
proof -
  have "2 ^ nat (bitlen (2 ^ i :: int) - 1) \<le> (2 ^ i :: int)" "(2 ^ i :: int) < 2 ^ nat (bitlen (2 ^ i :: int))"
    using bitlen_bounds[of "2 ^ i"] by simp_all
  then have "nat (bitlen (2 ^ i :: int) - 1) \<le> i" "i < nat (bitlen (2 ^ i :: int))" by simp_all
  then show ?thesis by linarith
qed

lemma decimals_enough:
  assumes "representable f q" and "0 \<le> q"
  shows "of_nat (nat \<lfloor>q * 10 ^ decimals q\<rfloor>) = q * 10 ^ decimals q"
proof -
  obtain n d where nd: "quotient_of q = (n, d)" by fastforce
  obtain i where i: "d = 2 ^ i" using representable_denominator[OF assms(1)] nd by auto
  have "i \<le> decimals q" using nd i by (simp add: decimals_def bitlen_pow2)
  then obtain j where j: "decimals q = i + j" using le_Suc_ex by blast
  have "q = of_int n / of_int d" using quotient_of_div[OF nd] .
  then have "q * 2 ^ i = of_int n" by (simp add: i)
  moreover have "(10 :: rat) ^ decimals q = 2 ^ i * (5 ^ i * 10 ^ j)" by (simp add: j power_add flip: power_mult_distrib)
  ultimately have "q * 10 ^ decimals q = of_int n * (5 ^ i * 10 ^ j)" by (simp only: mult.assoc[symmetric])
  also have "\<dots> = of_int (n * (5 ^ i * 10 ^ j))" by simp
  finally have e: "q * 10 ^ decimals q = of_int (n * (5 ^ i * 10 ^ j))" .
  have "0 \<le> q * 10 ^ decimals q" using assms(2) by simp
  then have "0 \<le> n * (5 ^ i * 10 ^ j)" unfolding e by (simp only: of_int_0_le_iff)
  then show ?thesis unfolding e floor_of_int by (simp only: of_nat_nat)
qed

lemma parse_decimal_show_float:
  assumes "representable binary64 q" and "0 \<le> q"
  shows "parse_decimal (show_float q) = FNum q"
proof -
  define k where "k = decimals q"
  define n where "n = nat \<lfloor>q * 10 ^ k\<rfloor>"
  have t: "show_float q = show_nat (n div 10 ^ k) @ CHR ''.'' # fixed_digits k n" by (simp add: show_float_def k_def n_def Let_def)
  have "\<not> is_ascii_digit (CHR ''.'')" by (simp add: ascii_defs)
  then have "\<forall>c \<in> set (show_nat (n div 10 ^ k)). c \<noteq> CHR ''.''"
    using show_nat_digits[of "n div 10 ^ k"] by (auto simp: list_all_iff)
  then have "takeWhile (\<lambda>c. c \<noteq> CHR ''.'') (show_float q) = show_nat (n div 10 ^ k)"
    unfolding t by (subst takeWhile_append2) auto
  then have p: "parse_decimal (show_float q) = fp_of_rat binary64 False (of_nat (n div 10 ^ k * 10 ^ k + n mod 10 ^ k) / of_nat (10 ^ k))"
    by (simp add: parse_decimal_def t Let_def digits_val_fixed digits_val_show_nat fixed_digits_facts)
  have "of_nat n = q * 10 ^ k" using decimals_enough[OF assms] by (simp add: n_def k_def)
  then have "of_nat (n div 10 ^ k * 10 ^ k + n mod 10 ^ k) / of_nat (10 ^ k) = q"
    by (simp only: div_mult_mod_eq of_nat_power of_nat_numeral) simp
  with p assms(1) show ?thesis
    by (cases "q = 0") (simp_all add: fp_of_rat_exact, simp add: fp_of_rat_def round_rat_def binary64_def)
qed

lemma take_number_float:
  assumes "list_all is_ascii_digit a" and "list_all is_ascii_digit b"
  shows "take_number False (a @ CHR ''.'' # b @ CHR '' '' # r) = (a @ CHR ''.'' # b, CHR '' '' # r, True)"
proof -
  have "\<not> is_ascii_digit (CHR ''.'')" by (simp add: ascii_defs)
  moreover have "take_number True (b @ CHR '' '' # r) = (b, CHR '' '' # r, True)" using assms(2) by (intro take_number_digits) auto
  ultimately have "take_number False (CHR ''.'' # b @ CHR '' '' # r) = (CHR ''.'' # b, CHR '' '' # r, True)" by simp
  then show ?thesis using assms(1) by (induction a) auto
qed

lemma lex_step_float:
  assumes "representable binary64 q" and "0 \<le> q"
  shows "\<exists>c s. show_float q = c # s \<and> lex_step c (s @ CHR '' '' # r) = Ok (Some (T_Float (FNum q)), CHR '' '' # r)"
proof -
  let ?k = "decimals q" and ?n = "nat \<lfloor>q * 10 ^ decimals q\<rfloor>"
  obtain c s where cs: "show_nat (?n div 10 ^ ?k) = c # s" using show_nat_digits by (metis neq_Nil_conv)
  have dig: "list_all is_ascii_digit (c # s)" using show_nat_digits cs by metis
  let ?t = "s @ CHR ''.'' # fixed_digits ?k ?n"
  have t: "show_float q = c # ?t" using cs by (simp add: show_float_def Let_def)
  have "take_number False ((c # s) @ CHR ''.'' # fixed_digits ?k ?n @ CHR '' '' # r) = (c # ?t, CHR '' '' # r, True)"
    using take_number_float[OF dig fixed_digits_facts(2), of ?k ?n r] by simp
  then have "lex_number (c # ?t @ CHR '' '' # r) = Ok (T_Float (FNum q), CHR '' '' # r)"
    using parse_decimal_show_float[OF assms] by (simp add: lex_number_def t)
  moreover have "is_ascii_digit c" using dig by simp
  ultimately have "lex_step c (?t @ CHR '' '' # r) = Ok (Some (T_Float (FNum q)), CHR '' '' # r)"
    by (simp add: lex_step_def digit_not_whitespace)
  with t show ?thesis by blast
qed

lemma lex_number_ident:
  assumes "list_all is_ident_char s" and "\<not> list_all is_ascii_digit s"
  shows "lex_number (s @ CHR '' '' # r) = Ok (T_Ident s, CHR '' '' # r)"
proof -
  define ds where "ds = takeWhile is_ascii_digit s"
  define q where "q = dropWhile is_ascii_digit s"
  have s: "s = ds @ q" unfolding ds_def q_def by (rule takeWhile_dropWhile_id[symmetric])
  have ds: "list_all is_ascii_digit ds" by (auto simp: ds_def list_all_iff dest: set_takeWhileD)
  have q: "q \<noteq> []" "\<not> is_ascii_digit (hd q)"
    using assms(2) by (auto simp: q_def list_all_iff hd_dropWhile)
  have qi: "list_all is_ident_char q" using assms(1) s by simp
  then have hq: "is_ident_char (hd q)" using q by (cases q) auto
  then have start: "is_ident_start (hd q)"
    using q(2) by (auto simp: is_ident_char_def is_ident_start_def is_ascii_alphanumeric_def)
  have dot: "\<not> is_ident_char (CHR ''.'')" by (simp add: is_ident_char_def ascii_defs)
  have "take_number False (ds @ (q @ CHR '' '' # r)) = (ds, q @ CHR '' '' # r, False)"
    using ds q hq dot by (intro take_number_digits) auto
  moreover have "takeWhile is_ident_char (q @ CHR '' '' # r) = q"
    "dropWhile is_ident_char (q @ CHR '' '' # r) = CHR '' '' # r"
    using takeWhile_ident[OF qi] by blast+
  moreover have "is_ident_start (hd (q @ CHR '' '' # r))" using start q by simp
  ultimately have "lex_number (ds @ (q @ CHR '' '' # r)) = Ok (T_Ident (ds @ q), CHR '' '' # r)"
    by (simp add: lex_number_def)
  then show ?thesis unfolding s by simp
qed

lemma lex_step_ident:
  assumes "valid_ident i"
  shows "\<exists>c s. i = c # s \<and> lex_step c (s @ CHR '' '' # r) = Ok (Some (T_Ident i), CHR '' '' # r)"
proof -
  from assms have i: "list_all is_ident_char i" "\<not> list_all is_ascii_digit i"
    by (simp_all add: valid_ident_def)
  then obtain c s where cs: "i = c # s" by (cases i) auto
  have c: "is_ident_char c" using i cs by simp
  have nw: "\<not> is_ascii_whitespace c"
    using c by (auto simp: is_ident_char_def ascii_defs)
  have "lex_step c (s @ CHR '' '' # r) = Ok (Some (T_Ident i), CHR '' '' # r)"
  proof (cases "is_ascii_digit c")
    case True
    with nw lex_number_ident[OF i, of r] show ?thesis by (simp add: lex_step_def cs)
  next
    case False
    with c have "is_ident_start c"
      by (auto simp: is_ident_char_def is_ident_start_def is_ascii_alphanumeric_def)
    moreover have "c \<noteq> CHR ''.''" using c by (auto simp: is_ident_char_def ascii_defs)
    moreover have "takeWhile is_ident_char (i @ CHR '' '' # r) = i"
      "dropWhile is_ident_char (i @ CHR '' '' # r) = CHR '' '' # r"
      using takeWhile_ident[OF i(1)] by blast+
    ultimately show ?thesis using False nw cs by (simp add: lex_step_def lex_ident_def)
  qed
  with cs show ?thesis by blast
qed

lemma lex_step_print:
  assumes "printable t"
  shows "\<exists>c s. token_text t = c # s \<and> lex_step c (s @ CHR '' '' # r) = Ok (Some t, CHR '' '' # r)"
proof (cases t)
  case (T_Int n)
  with assms show ?thesis using lex_step_int[of n r] by simp
next
  case (T_Float f)
  with assms obtain q where "f = FNum q" "0 \<le> q" "representable binary64 q" by (auto split: fp.splits)
  with T_Float lex_step_float[of q r] show ?thesis by simp
next
  case (T_Ident i)
  with assms show ?thesis using lex_step_ident[of i r] by simp
qed (use assms in \<open>simp_all add: lex_step_operator is_ident_start_def ascii_defs lex_operator_def next_is_def\<close>)

lemma tokenize_print:
  "list_all printable ts \<Longrightarrow> tokenize (print_tokens ts) = Ok (ts @ [T_Eof])"
proof (induction ts)
  case Nil
  then show ?case by (simp add: print_tokens_def)
next
  case (Cons t ts)
  let ?r = "print_tokens ts"
  have pt: "print_tokens (t # ts) = token_text t @ CHR '' '' # ?r" by (simp add: print_tokens_def)
  obtain c s where cs: "token_text t = c # s"
    "lex_step c (s @ CHR '' '' # ?r) = Ok (Some t, CHR '' '' # ?r)"
    using lex_step_print[of t ?r] Cons.prems by auto
  have "tokenize (CHR '' '' # ?r) = tokenize ?r" by (simp add: lex_step_def)
  with Cons cs pt show ?case by simp
qed

end
