(* ===== verification/Calc_Parser.thy ===== *)
theory Calc_Parser
  imports Tokenizer
begin

text \<open>
  The Pratt parser of the calculation engine (\<open>src/src/calc_engine/parser.rs\<close>). The parser state
  (token vector and position) is the remaining token list. The recursion of \<open>expr_bp\<close> and of its
  loop spends one unit of fuel per call; \<open>parse\<close> gives one unit more than there are tokens, which
  is proved to be enough, so \<open>OutOfFuel\<close> is never its result. The binding powers are small
  constants and are natural numbers.
\<close>

section \<open>Syntax trees\<close>

datatype bin_op =
    B_Add | B_Sub | B_Mul | B_Div | B_Mod
  | B_BitAnd | B_BitOr | B_BitXor | B_ShiftLeft | B_ShiftRight
  | B_And | B_Or
  | B_Eq | B_NotEq | B_Lt | B_Gt | B_LtEq | B_GtEq

datatype unary_op = U_Neg | U_Not | U_BitNot

datatype literal = L_Int i64 | L_Float f64 | L_Bool bool

datatype expr =
    E_Literal literal
  | E_Variable string
  | E_Binary bin_op expr expr
  | E_Unary unary_op expr
  | E_If expr expr expr

fun collect_variables :: "expr \<Rightarrow> string list \<Rightarrow> string list" where
  "collect_variables (E_Literal l) out = out"
| "collect_variables (E_Variable name) out = out @ [name]"
| "collect_variables (E_Binary op l r) out = collect_variables r (collect_variables l out)"
| "collect_variables (E_Unary op e) out = collect_variables e out"
| "collect_variables (E_If c t e) out =
     collect_variables e (collect_variables t (collect_variables c out))"

text \<open>\<open>sort\<close> and then \<open>dedup\<close>, which removes equal neighbours.\<close>

definition extract_variables :: "expr \<Rightarrow> string list" where
  "extract_variables e = remdups_adj (sort (collect_variables e []))"

section \<open>Binding powers\<close>

fun infix_bp :: "bin_op \<Rightarrow> nat \<times> nat" where
  "infix_bp B_Or = (2, 3)"
| "infix_bp B_And = (4, 5)"
| "infix_bp B_BitOr = (6, 7)"
| "infix_bp B_BitXor = (8, 9)"
| "infix_bp B_BitAnd = (10, 11)"
| "infix_bp B_Eq = (12, 13)"
| "infix_bp B_NotEq = (12, 13)"
| "infix_bp B_Lt = (14, 15)"
| "infix_bp B_Gt = (14, 15)"
| "infix_bp B_LtEq = (14, 15)"
| "infix_bp B_GtEq = (14, 15)"
| "infix_bp B_ShiftLeft = (16, 17)"
| "infix_bp B_ShiftRight = (16, 17)"
| "infix_bp B_Add = (18, 19)"
| "infix_bp B_Sub = (18, 19)"
| "infix_bp B_Mul = (20, 21)"
| "infix_bp B_Div = (20, 21)"
| "infix_bp B_Mod = (20, 21)"

fun prefix_bp :: "unary_op \<Rightarrow> nat" where
  "prefix_bp op = 23"

fun token_to_binop :: "token \<Rightarrow> bin_op option" where
  "token_to_binop T_Plus = Some B_Add"
| "token_to_binop T_Minus = Some B_Sub"
| "token_to_binop T_Star = Some B_Mul"
| "token_to_binop T_Slash = Some B_Div"
| "token_to_binop T_Percent = Some B_Mod"
| "token_to_binop T_Amp = Some B_BitAnd"
| "token_to_binop T_Pipe = Some B_BitOr"
| "token_to_binop T_Caret = Some B_BitXor"
| "token_to_binop T_ShiftLeft = Some B_ShiftLeft"
| "token_to_binop T_ShiftRight = Some B_ShiftRight"
| "token_to_binop T_And = Some B_And"
| "token_to_binop T_Or = Some B_Or"
| "token_to_binop T_Eq = Some B_Eq"
| "token_to_binop T_NotEq = Some B_NotEq"
| "token_to_binop T_Lt = Some B_Lt"
| "token_to_binop T_Gt = Some B_Gt"
| "token_to_binop T_LtEq = Some B_LtEq"
| "token_to_binop T_GtEq = Some B_GtEq"
| "token_to_binop _ = None"

section \<open>The parser\<close>

datatype parse_error =
    ExpectedExpression token | MissingRParen
  | IfMissingLParen | IfMissingComma1 | IfMissingComma2 | IfMissingRParen
  | TrailingToken token
  | OutOfFuel

type_synonym parse_result = "parse_error + (expr \<times> token list)"

fun peek :: "token list \<Rightarrow> token" where
  "peek [] = T_Eof"
| "peek (t # ts) = t"

fun advance :: "token list \<Rightarrow> token \<times> token list" where
  "advance [] = (T_Eof, [])"
| "advance (t # ts) = (t, ts)"

text \<open>Consume one token, which must be \<open>t\<close>.\<close>

definition expect :: "token \<Rightarrow> parse_error \<Rightarrow> token list \<Rightarrow> parse_error + token list" where
  "expect t err ts = (if fst (advance ts) \<noteq> t then Err err else Ok (snd (advance ts)))"

text \<open>\<open>E\<close> is the parser for a subexpression, given the least binding power.\<close>

definition parse_if_function :: "(nat \<Rightarrow> token list \<Rightarrow> parse_result) \<Rightarrow> token list \<Rightarrow> parse_result" where
  "parse_if_function E ts =
     and_then (expect T_LParen IfMissingLParen ts) (\<lambda>ts.
     and_then (E 0 ts) (\<lambda>(c, ts).
     and_then (expect T_Comma IfMissingComma1 ts) (\<lambda>ts.
     and_then (E 0 ts) (\<lambda>(t, ts).
     and_then (expect T_Comma IfMissingComma2 ts) (\<lambda>ts.
     and_then (E 0 ts) (\<lambda>(e, ts).
     map_ok (\<lambda>ts. (E_If c t e, ts)) (expect T_RParen IfMissingRParen ts)))))))"

definition parse_unary ::
  "(nat \<Rightarrow> token list \<Rightarrow> parse_result) \<Rightarrow> unary_op \<Rightarrow> token list \<Rightarrow> parse_result" where
  "parse_unary E op ts = map_ok (\<lambda>(e, ts). (E_Unary op e, ts)) (E (prefix_bp op) ts)"

definition parse_prefix :: "(nat \<Rightarrow> token list \<Rightarrow> parse_result) \<Rightarrow> token list \<Rightarrow> parse_result" where
  "parse_prefix E ts =
     (case advance ts of (tok, ts) \<Rightarrow>
       (case tok of
          T_Int n \<Rightarrow> Ok (E_Literal (L_Int n), ts)
        | T_Float n \<Rightarrow> Ok (E_Literal (L_Float n), ts)
        | T_Ident name \<Rightarrow>
            if eq_ignore_ascii_case name ''true'' then Ok (E_Literal (L_Bool True), ts)
            else if eq_ignore_ascii_case name ''false'' then Ok (E_Literal (L_Bool False), ts)
            else if eq_ignore_ascii_case name ''if'' \<and> peek ts = T_LParen
            then parse_if_function E ts
            else Ok (E_Variable name, ts)
        | T_LParen \<Rightarrow>
            and_then (E 0 ts) (\<lambda>(inner, ts).
            map_ok (\<lambda>ts. (inner, ts)) (expect T_RParen MissingRParen ts))
        | T_Minus \<Rightarrow> parse_unary E U_Neg ts
        | T_Bang \<Rightarrow> parse_unary E U_Not ts
        | T_Tilde \<Rightarrow> parse_unary E U_BitNot ts
        | _ \<Rightarrow> Err (ExpectedExpression tok)))"

fun expr_bp :: "nat \<Rightarrow> nat \<Rightarrow> token list \<Rightarrow> parse_result"
  and infix_loop :: "nat \<Rightarrow> nat \<Rightarrow> expr \<Rightarrow> token list \<Rightarrow> parse_result" where
  "expr_bp 0 min_bp ts = Err OutOfFuel"
| "expr_bp (Suc fuel) min_bp ts =
     and_then (parse_prefix (expr_bp fuel) ts) (\<lambda>(lhs, ts). infix_loop fuel min_bp lhs ts)"
| "infix_loop 0 min_bp lhs ts = Err OutOfFuel"
| "infix_loop (Suc fuel) min_bp lhs ts =
     (case token_to_binop (peek ts) of
        None \<Rightarrow> Ok (lhs, ts)
      | Some op \<Rightarrow>
          let (l_bp, r_bp) = infix_bp op
          in if l_bp < min_bp then Ok (lhs, ts)
             else and_then (expr_bp fuel r_bp (snd (advance ts))) (\<lambda>(rhs, ts).
                  infix_loop fuel min_bp (E_Binary op lhs rhs) ts))"

definition parse :: "token list \<Rightarrow> parse_error + expr" where
  "parse tokens =
     and_then (expr_bp (length tokens + 1) 0 tokens) (\<lambda>(e, ts).
     if peek ts \<noteq> T_Eof then Err (TrailingToken (peek ts)) else Ok e)"

section \<open>The fuel is enough\<close>

definition good_parser :: "(nat \<Rightarrow> token list \<Rightarrow> parse_result) \<Rightarrow> nat \<Rightarrow> bool" where
  "good_parser E n \<longleftrightarrow>
     (\<forall>m ts. length ts < n \<longrightarrow>
        E m ts \<noteq> Err OutOfFuel \<and> (\<forall>e r. E m ts = Ok (e, r) \<longrightarrow> length r < length ts))"

lemma good_parserD:
  assumes "good_parser E n" and "length ts < n"
  shows "E m ts \<noteq> Err OutOfFuel" and "E m ts = Ok (e, r) \<Longrightarrow> length r < length ts"
  using assms by (auto simp: good_parser_def)

lemma expect_Ok: "expect t err ts = Ok r \<Longrightarrow> t \<noteq> T_Eof \<Longrightarrow> ts = t # r"
  by (cases ts) (auto simp: expect_def split: if_splits)

lemma expect_Err: "expect t err ts = Err x \<Longrightarrow> x = err"
  by (auto simp: expect_def split: if_splits)

lemma parse_if_good:
  assumes "good_parser E (length ts)"
  shows "parse_if_function E ts \<noteq> Err OutOfFuel"
    and "parse_if_function E ts = Ok (e, r) \<Longrightarrow> length r < length ts"
proof -
  show "parse_if_function E ts \<noteq> Err OutOfFuel"
    using assms
    by (auto simp: parse_if_function_def and_then_Err split: prod.splits
        dest!: expect_Err dest!: expect_Ok good_parserD(2)[OF assms, rotated])
      (force simp: good_parser_def)+
  show "parse_if_function E ts = Ok (e, r) \<Longrightarrow> length r < length ts"
    by (auto simp: parse_if_function_def split: prod.splits
        dest!: expect_Ok dest!: good_parserD(2)[OF assms, rotated])
qed

lemma parse_unary_good:
  assumes "good_parser E n" and "length ts < n"
  shows "parse_unary E op ts \<noteq> Err OutOfFuel"
    and "parse_unary E op ts = Ok (e, r) \<Longrightarrow> length r < length ts"
  using assms by (auto simp: parse_unary_def good_parser_def)

lemma good_parser_mono: "good_parser E n \<Longrightarrow> m \<le> n \<Longrightarrow> good_parser E m"
  by (auto simp: good_parser_def)

lemma parse_prefix_good:
  assumes "good_parser E (length ts)"
  shows "parse_prefix E ts \<noteq> Err OutOfFuel \<and> (\<forall>e r. parse_prefix E ts = Ok (e, r) \<longrightarrow> length r < length ts)"
proof (cases ts)
  case Nil
  then show ?thesis by (simp add: parse_prefix_def)
next
  case (Cons t us)
  have g: "good_parser E (length us)" using assms Cons by (auto intro: good_parser_mono)
  have lt: "length us < length ts" using Cons by simp
  have un: "parse_unary E op us \<noteq> Err OutOfFuel"
    "parse_unary E op us = Ok (e, r) \<Longrightarrow> length r < length us" for op e r
    using parse_unary_good[OF assms lt] by auto
  have inner: "E 0 us \<noteq> Err OutOfFuel" "E 0 us = Ok (e, r) \<Longrightarrow> length r < length us" for e r
    using good_parserD[OF assms lt] by auto
  show ?thesis
  proof (cases "\<exists>x. t = T_Ident x")
    case True
    then obtain x where t: "t = T_Ident x" ..
    have "parse_if_function E us = Ok (e, r) \<Longrightarrow> length r < Suc (length us)" for e r
      using parse_if_good(2)[OF g, of e r] by simp
    with parse_if_good(1)[OF g] show ?thesis by (simp add: parse_prefix_def Cons t)
  next
    case False
    with un inner Cons show ?thesis
      by (cases t)
        (auto simp: parse_prefix_def and_then_Err split: prod.splits
          dest!: expect_Ok expect_Err inner(2) dest: un(2) less_trans intro: less_SucI)
  qed
qed

lemma fuel_enough:
  "good_parser (expr_bp f) f \<and>
   (\<forall>m lhs ts. length ts < f \<longrightarrow>
      infix_loop f m lhs ts \<noteq> Err OutOfFuel \<and>
      (\<forall>e r. infix_loop f m lhs ts = Ok (e, r) \<longrightarrow> length r \<le> length ts))"
proof (induction f)
  case 0
  then show ?case by (simp add: good_parser_def)
next
  case (Suc f)
  then have g: "good_parser (expr_bp f) f"
    and loop: "\<And>m lhs ts. length ts < f \<Longrightarrow> infix_loop f m lhs ts \<noteq> Err OutOfFuel"
      "\<And>m lhs ts e r. length ts < f \<Longrightarrow> infix_loop f m lhs ts = Ok (e, r) \<Longrightarrow> length r \<le> length ts"
    by auto
  have "good_parser (expr_bp (Suc f)) (Suc f)"
    unfolding good_parser_def
  proof (intro allI impI)
    fix m :: nat and ts :: "token list"
    assume len: "length ts < Suc f"
    then have pre: "parse_prefix (expr_bp f) ts \<noteq> Err OutOfFuel"
      "\<And>e r. parse_prefix (expr_bp f) ts = Ok (e, r) \<Longrightarrow> length r < length ts"
      using parse_prefix_good[of "expr_bp f" ts] good_parser_mono[OF g] by auto
    show "expr_bp (Suc f) m ts \<noteq> Err OutOfFuel \<and>
        (\<forall>e r. expr_bp (Suc f) m ts = Ok (e, r) \<longrightarrow> length r < length ts)"
    proof (cases "parse_prefix (expr_bp f) ts")
      case (Inl err)
      with pre show ?thesis by auto
    next
      case (Inr er)
      obtain e r where er: "er = (e, r)" by fastforce
      have "length r < length ts" using pre(2) Inr er by simp
      then have "length r < f" using len by simp
      with loop[of r m e] \<open>length r < length ts\<close> Inr er show ?thesis by fastforce
    qed
  qed
  moreover have "infix_loop (Suc f) m lhs ts \<noteq> Err OutOfFuel \<and>
      (\<forall>e r. infix_loop (Suc f) m lhs ts = Ok (e, r) \<longrightarrow> length r \<le> length ts)"
    if len: "length ts < Suc f" for m lhs ts
  proof (cases "token_to_binop (peek ts)")
    case None
    then show ?thesis by simp
  next
    case (Some op)
    then obtain t us where ts: "ts = t # us" by (cases ts) auto
    obtain lb rb where bp: "infix_bp op = (lb, rb)" by fastforce
    have us: "length us < f" using len ts by simp
    show ?thesis
    proof (cases "lb < m")
      case True
      with Some bp show ?thesis by simp
    next
      case False
      show ?thesis
      proof (cases "expr_bp f rb us")
        case (Inl err)
        with good_parserD(1)[OF g us] Some bp False ts show ?thesis by auto
      next
        case (Inr er)
        obtain e r where er: "er = (e, r)" by fastforce
        have "length r < length us" using good_parserD(2)[OF g us] Inr er by simp
        with us loop[of r m "E_Binary op lhs e"] Some bp False ts Inr er show ?thesis by fastforce
      qed
    qed
  qed
  ultimately show ?case by blast
qed

lemmas expr_bp_good = fuel_enough[THEN conjunct1]

declare expr_bp.simps [simp del] infix_loop.simps [simp del]

section \<open>Fuel-free equations\<close>

definition parse_expr :: "nat \<Rightarrow> token list \<Rightarrow> parse_result" where
  "parse_expr m ts = expr_bp (length ts + 1) m ts"

definition parse_infix :: "nat \<Rightarrow> expr \<Rightarrow> token list \<Rightarrow> parse_result" where
  "parse_infix m lhs ts = infix_loop (length ts + 1) m lhs ts"

lemma parse_if_cong:
  assumes "good_parser E (length ts)"
    and eq: "\<And>m us. length us < length ts \<Longrightarrow> E m us = E' m us"
  shows "parse_if_function E ts = parse_if_function E' ts"
proof -
  have step: "and_then (E 0 us) (\<lambda>(e, us). F e us) = and_then (E' 0 us) (\<lambda>(e, us). G e us)"
    if "length us < length ts" and "\<And>e vs. length vs < length us \<Longrightarrow> F e vs = G e vs"
    for us and F G :: "expr \<Rightarrow> token list \<Rightarrow> parse_result"
  proof (cases "E 0 us")
    case (Inl err)
    moreover have "E' 0 us = E 0 us" using eq[of us 0] that(1) by simp
    ultimately show ?thesis by simp
  next
    case (Inr er)
    obtain e vs where er: "er = (e, vs)" by fastforce
    have "length vs < length us" using good_parserD(2)[OF assms(1) that(1)] Inr er by simp
    moreover have "E' 0 us = E 0 us" using eq[of us 0] that(1) by simp
    ultimately show ?thesis using Inr er that(2) by simp
  qed
  have exp: "and_then (expect t err us) F = and_then (expect t err us) G"
    if "t \<noteq> T_Eof" and "\<And>vs. length vs < length us \<Longrightarrow> F vs = G vs"
    for t err us and F G :: "token list \<Rightarrow> parse_result"
  proof (cases "expect t err us")
    case (Inl x)
    then show ?thesis by simp
  next
    case (Inr vs)
    with expect_Ok[OF Inr that(1)] that(2)[of vs] show ?thesis by simp
  qed
  show ?thesis
    unfolding parse_if_function_def
    by (intro exp step) auto
qed

lemma parse_prefix_cong:
  assumes "good_parser E (length ts)"
    and eq: "\<And>m us. length us < length ts \<Longrightarrow> E m us = E' m us"
  shows "parse_prefix E ts = parse_prefix E' ts"
proof (cases ts)
  case Nil
  then show ?thesis by (simp add: parse_prefix_def)
next
  case (Cons t us)
  have "good_parser E (length us)" using assms(1) Cons by (auto intro: good_parser_mono)
  then have "parse_if_function E us = parse_if_function E' us"
    using eq Cons by (intro parse_if_cong) auto
  moreover have "E m us = E' m us" for m using eq[of us m] Cons by simp
  ultimately show ?thesis
    by (cases t) (simp_all add: parse_prefix_def Cons parse_unary_def)
qed

lemma fuel_stable_Suc:
  "(\<forall>m ts. length ts < f \<longrightarrow> expr_bp (Suc f) m ts = expr_bp f m ts) \<and>
   (\<forall>m lhs ts. length ts < f \<longrightarrow> infix_loop (Suc f) m lhs ts = infix_loop f m lhs ts)"
proof (induction f)
  case 0
  then show ?case by simp
next
  case (Suc f)
  have e: "expr_bp (Suc (Suc f)) m ts = expr_bp (Suc f) m ts" if len: "length ts < Suc f" for m ts
  proof -
    have g: "good_parser (expr_bp f) (length ts)"
      using expr_bp_good[of f] len by (auto intro: good_parser_mono)
    have pre: "parse_prefix (expr_bp (Suc f)) ts = parse_prefix (expr_bp f) ts"
      using Suc.IH len by (intro parse_prefix_cong[OF g, symmetric]) auto
    note eqs = expr_bp.simps(2)[of "Suc f" m ts] expr_bp.simps(2)[of f m ts]
    show ?thesis
    proof (cases "parse_prefix (expr_bp f) ts")
      case (Inl err)
      with pre show ?thesis by (simp add: eqs)
    next
      case (Inr er)
      obtain e r where er: "er = (e, r)" by fastforce
      have "length r < f" using parse_prefix_good[OF g] Inr er len by fastforce
      with pre Inr er Suc.IH show ?thesis by (simp add: eqs)
    qed
  qed
  have l: "infix_loop (Suc (Suc f)) m lhs ts = infix_loop (Suc f) m lhs ts"
    if len: "length ts < Suc f" for m lhs ts
  proof (cases "token_to_binop (peek ts)")
    case None
    then show ?thesis by (simp add: infix_loop.simps(2))
  next
    case (Some op)
    then obtain t us where ts: "ts = t # us" by (cases ts) auto
    note eqs = infix_loop.simps(2)[of "Suc f" m lhs "t # us"] infix_loop.simps(2)[of f m lhs "t # us"]
    have us: "length us < f" using len ts by simp
    obtain lb rb where bp: "infix_bp op = (lb, rb)" by fastforce
    have same: "expr_bp (Suc f) rb us = expr_bp f rb us" using Suc.IH us by blast
    show ?thesis
    proof (cases "expr_bp f rb us")
      case (Inl err)
      with Some bp ts same show ?thesis by (simp add: eqs)
    next
      case (Inr er)
      obtain e r where er: "er = (e, r)" by fastforce
      have "length r < f" using good_parserD(2)[OF expr_bp_good us] Inr er us by fastforce
      with Suc.IH have "infix_loop (Suc f) m (E_Binary op lhs e) r = infix_loop f m (E_Binary op lhs e) r"
        by blast
      with Some bp ts same Inr er show ?thesis by (simp add: eqs)
    qed
  qed
  from e l show ?case by blast
qed

lemma fuel_stable:
  assumes "length ts < f"
  shows "expr_bp f m ts = parse_expr m ts" and "infix_loop f m lhs ts = parse_infix m lhs ts"
proof -
  have "expr_bp (length ts + 1 + k) m ts = parse_expr m ts \<and>
      infix_loop (length ts + 1 + k) m lhs ts = parse_infix m lhs ts" for k
  proof (induction k)
    case 0
    then show ?case by (simp add: parse_expr_def parse_infix_def)
  next
    case (Suc k)
    have "length ts < length ts + 1 + k" by simp
    with fuel_stable_Suc[of "length ts + 1 + k"] Suc show ?case by simp
  qed
  from this[of "f - (length ts + 1)"] assms
  show "expr_bp f m ts = parse_expr m ts" "infix_loop f m lhs ts = parse_infix m lhs ts"
    by simp_all
qed

lemma good_parse_expr: "good_parser parse_expr n"
  unfolding good_parser_def
proof (intro allI impI)
  fix m :: nat and ts :: "token list"
  have "good_parser (expr_bp (length ts + 1)) (length ts + 1)" by (rule expr_bp_good)
  then show "parse_expr m ts \<noteq> Err OutOfFuel \<and> (\<forall>e r. parse_expr m ts = Ok (e, r) \<longrightarrow> length r < length ts)"
    by (simp add: good_parser_def parse_expr_def)
qed

lemma parse_prefix_expr_bp:
  "length ts \<le> f \<Longrightarrow> parse_prefix (expr_bp f) ts = parse_prefix parse_expr ts"
  using fuel_stable(1)[of _ f] expr_bp_good[of f]
  by (intro parse_prefix_cong) (auto intro: good_parser_mono)

lemma parse_expr_eq:
  "parse_expr m ts = and_then (parse_prefix parse_expr ts) (\<lambda>(lhs, r). parse_infix m lhs r)"
proof (cases "parse_prefix parse_expr ts")
  case (Inl err)
  with parse_prefix_expr_bp[of ts "length ts"] show ?thesis
    by (simp add: parse_expr_def[of m ts] expr_bp.simps(2))
next
  case (Inr er)
  obtain e r where er: "er = (e, r)" by fastforce
  have "length r < length ts"
    using parse_prefix_good[OF good_parse_expr[of "length ts"]] Inr er by simp
  with Inr er parse_prefix_expr_bp[of ts "length ts"] show ?thesis
    by (simp add: parse_expr_def[of m ts] expr_bp.simps(2) fuel_stable(2))
qed

lemma parse_infix_eq:
  "parse_infix m lhs ts =
     (case token_to_binop (peek ts) of
        None \<Rightarrow> Ok (lhs, ts)
      | Some op \<Rightarrow>
          if fst (infix_bp op) < m then Ok (lhs, ts)
          else and_then (parse_expr (snd (infix_bp op)) (tl ts)) (\<lambda>(rhs, r).
               parse_infix m (E_Binary op lhs rhs) r))"
proof (cases "token_to_binop (peek ts)")
  case None
  then show ?thesis by (simp add: parse_infix_def infix_loop.simps(2))
next
  case (Some op)
  then obtain t us where ts: "ts = t # us" by (cases ts) auto
  obtain lb rb where bp: "infix_bp op = (lb, rb)" by fastforce
  have same: "expr_bp (length ts) rb us = parse_expr rb us" using ts by (intro fuel_stable) simp
  show ?thesis
  proof (cases "parse_expr rb us")
    case (Inl err)
    with Some bp ts same show ?thesis by (simp add: parse_infix_def[of m lhs "t # us"] infix_loop.simps(2)[of _ m lhs "t # us"])
  next
    case (Inr er)
    obtain e r where er: "er = (e, r)" by fastforce
    have "length r < length us" using good_parserD(2)[OF good_parse_expr, of us "length ts"] Inr er ts
      by simp
    then have "infix_loop (length ts) m (E_Binary op lhs e) r = parse_infix m (E_Binary op lhs e) r"
      using ts by (intro fuel_stable) simp
    with Some bp ts same Inr er show ?thesis
      by (simp add: parse_infix_def[of m lhs "t # us"] infix_loop.simps(2)[of _ m lhs "t # us"])
  qed
qed

lemma parse_eq:
  "parse ts = and_then (parse_expr 0 ts) (\<lambda>(e, r).
     if peek r \<noteq> T_Eof then Err (TrailingToken (peek r)) else Ok e)"
  by (simp add: parse_def parse_expr_def)

section \<open>Printing with the fewest parentheses\<close>

fun op_token :: "bin_op \<Rightarrow> token" where
  "op_token B_Add = T_Plus"
| "op_token B_Sub = T_Minus"
| "op_token B_Mul = T_Star"
| "op_token B_Div = T_Slash"
| "op_token B_Mod = T_Percent"
| "op_token B_BitAnd = T_Amp"
| "op_token B_BitOr = T_Pipe"
| "op_token B_BitXor = T_Caret"
| "op_token B_ShiftLeft = T_ShiftLeft"
| "op_token B_ShiftRight = T_ShiftRight"
| "op_token B_And = T_And"
| "op_token B_Or = T_Or"
| "op_token B_Eq = T_Eq"
| "op_token B_NotEq = T_NotEq"
| "op_token B_Lt = T_Lt"
| "op_token B_Gt = T_Gt"
| "op_token B_LtEq = T_LtEq"
| "op_token B_GtEq = T_GtEq"

fun unary_token :: "unary_op \<Rightarrow> token" where
  "unary_token U_Neg = T_Minus"
| "unary_token U_Not = T_Bang"
| "unary_token U_BitNot = T_Tilde"

fun literal_token :: "literal \<Rightarrow> token" where
  "literal_token (L_Int n) = T_Int n"
| "literal_token (L_Float f) = T_Float f"
| "literal_token (L_Bool b) = T_Ident (if b then ''true'' else ''false'')"

text \<open>
  \<open>print_expr k e\<close> is \<open>e\<close> in a context of binding power \<open>k\<close>: a binary operation is put in
  parentheses only when it binds less than the context.
\<close>

fun print_expr :: "nat \<Rightarrow> expr \<Rightarrow> token list" where
  "print_expr k (E_Literal l) = [literal_token l]"
| "print_expr k (E_Variable x) = [T_Ident x]"
| "print_expr k (E_Unary op e) = unary_token op # print_expr (prefix_bp op) e"
| "print_expr k (E_Binary op l r) =
     (let (lb, rb) = infix_bp op;
          body = print_expr lb l @ op_token op # print_expr rb r
      in if lb < k then T_LParen # body @ [T_RParen] else body)"
| "print_expr k (E_If c t e) =
     T_Ident ''IF'' # T_LParen # print_expr 0 c @ T_Comma # print_expr 0 t
       @ T_Comma # print_expr 0 e @ [T_RParen]"

text \<open>No variable is spelled like a Boolean literal.\<close>

fun plain_names :: "expr \<Rightarrow> bool" where
  "plain_names (E_Literal l) = True"
| "plain_names (E_Variable x) =
     (\<not> eq_ignore_ascii_case x ''true'' \<and> \<not> eq_ignore_ascii_case x ''false'')"
| "plain_names (E_Unary op e) = plain_names e"
| "plain_names (E_Binary op l r) = (plain_names l \<and> plain_names r)"
| "plain_names (E_If c t e) = (plain_names c \<and> plain_names t \<and> plain_names e)"

text \<open>What may follow an expression printed in a context of binding power \<open>k\<close>.\<close>

definition follows :: "nat \<Rightarrow> token list \<Rightarrow> bool" where
  "follows k rest \<longleftrightarrow> peek rest \<noteq> T_LParen \<and>
     (case token_to_binop (peek rest) of None \<Rightarrow> True | Some op \<Rightarrow> fst (infix_bp op) \<le> k)"

lemma binop_op_token [simp]: "token_to_binop (op_token op) = Some op"
  by (cases op) simp_all

lemma op_token_not_paren [simp]: "op_token op \<noteq> T_LParen"
  by (cases op) simp_all

lemma infix_bp_facts: "snd (infix_bp op) = fst (infix_bp op) + 1" "fst (infix_bp op) < 23"
  by (cases op; simp)+

lemma parse_infix_stop:
  assumes "\<And>op. token_to_binop (peek rest) = Some op \<Longrightarrow> fst (infix_bp op) < m"
  shows "parse_infix m lhs rest = Ok (lhs, rest)"
  using assms by (auto simp: parse_infix_eq[of m lhs rest] split: option.split)

lemma parse_infix_follows: "follows k rest \<Longrightarrow> k < m \<Longrightarrow> parse_infix m lhs rest = Ok (lhs, rest)"
  by (rule parse_infix_stop) (auto simp: follows_def)

lemma case_names [simp]:
  "eq_ignore_ascii_case ''true'' ''true''" "eq_ignore_ascii_case ''false'' ''false''"
  "\<not> eq_ignore_ascii_case ''false'' ''true''" "\<not> eq_ignore_ascii_case ''IF'' ''true''"
  "\<not> eq_ignore_ascii_case ''IF'' ''false''" "eq_ignore_ascii_case ''IF'' ''if''"
  by code_simp+

lemma expect_head [simp]: "expect t err (t # ts) = Ok ts"
  by (simp add: expect_def)

lemma follows_simps [simp]:
  "follows k (T_RParen # ts)" "follows k (T_Comma # ts)" "follows k [T_Eof]" "follows k []"
  "follows k (op_token op # ts) \<longleftrightarrow> fst (infix_bp op) \<le> k"
  by (simp_all add: follows_def)

lemma follows_mono: "follows k rest \<Longrightarrow> k \<le> k' \<Longrightarrow> follows k' rest"
  by (auto simp: follows_def split: option.splits)

lemma parse_infix_closing [simp]:
  "parse_infix m lhs (T_RParen # ts) = Ok (lhs, T_RParen # ts)"
  "parse_infix m lhs (T_Comma # ts) = Ok (lhs, T_Comma # ts)"
  "parse_infix m lhs [T_Eof] = Ok (lhs, [T_Eof])"
  by (rule parse_infix_stop, simp)+

lemma parse_body:
  assumes l: "\<And>rest. follows (fst (infix_bp op)) rest \<Longrightarrow>
       parse_expr m (print_expr (fst (infix_bp op)) l @ rest) = parse_infix m l rest"
    and r: "\<And>m rest. m \<le> snd (infix_bp op) \<Longrightarrow> follows (snd (infix_bp op)) rest \<Longrightarrow>
       parse_expr m (print_expr (snd (infix_bp op)) r @ rest) = parse_infix m r rest"
    and m: "m \<le> fst (infix_bp op)" and f: "follows (fst (infix_bp op)) rest"
  shows "parse_expr m ((print_expr (fst (infix_bp op)) l @ op_token op # print_expr (snd (infix_bp op)) r) @ rest)
    = parse_infix m (E_Binary op l r) rest"
proof -
  let ?lb = "fst (infix_bp op)" and ?rb = "snd (infix_bp op)"
  have "parse_expr m (print_expr ?lb l @ op_token op # print_expr ?rb r @ rest)
      = parse_infix m l (op_token op # print_expr ?rb r @ rest)"
    by (rule l) simp
  also have "\<dots> = and_then (parse_expr ?rb (print_expr ?rb r @ rest))
      (\<lambda>(rhs, r). parse_infix m (E_Binary op l rhs) r)"
    using m by (simp add: parse_infix_eq[of m l])
  also have "parse_expr ?rb (print_expr ?rb r @ rest) = parse_infix ?rb r rest"
    using f by (intro r follows_mono[OF f]) (simp_all add: infix_bp_facts)
  also have "\<dots> = Ok (r, rest)"
    using f by (rule parse_infix_follows) (simp add: infix_bp_facts)
  finally show ?thesis by simp
qed

lemma parse_print_expr:
  assumes "plain_names e" and "m \<le> k" and "follows k rest"
  shows "parse_expr m (print_expr k e @ rest) = parse_infix m e rest"
  using assms
proof (induction e arbitrary: m k rest)
  case (E_Literal l)
  then show ?case by (cases l) (simp_all add: parse_expr_eq[of m] parse_prefix_def)
next
  case (E_Variable x)
  then have "peek rest \<noteq> T_LParen" by (simp add: follows_def)
  with E_Variable.prems(1) show ?case by (simp add: parse_expr_eq[of m] parse_prefix_def)
next
  case (E_Unary op e)
  have "\<And>o'. token_to_binop (peek rest) = Some o' \<Longrightarrow> fst (infix_bp o') < 23"
    by (simp add: infix_bp_facts)
  then have "parse_infix 23 e rest = Ok (e, rest)" by (rule parse_infix_stop)
  moreover have "follows 23 rest"
    using E_Unary.prems(3) by (auto simp: follows_def infix_bp_facts less_imp_le split: option.split)
  then have "parse_expr 23 (print_expr 23 e @ rest) = parse_infix 23 e rest"
    using E_Unary.prems by (intro E_Unary.IH) simp_all
  ultimately show ?case
    by (cases op) (simp_all add: parse_expr_eq[of m] parse_prefix_def parse_unary_def)
next
  case (E_Binary op l r)
  let ?lb = "fst (infix_bp op)" and ?rb = "snd (infix_bp op)"
  let ?body = "print_expr ?lb l @ op_token op # print_expr ?rb r"
  have body: "parse_expr n (?body @ q) = parse_infix n (E_Binary op l r) q"
    if "n \<le> ?lb" "follows ?lb q" for n q
    using that E_Binary by (intro parse_body E_Binary.IH) auto
  show ?case
  proof (cases "?lb < k")
    case False
    then have "parse_expr m (?body @ rest) = parse_infix m (E_Binary op l r) rest"
      using E_Binary.prems by (intro body) (auto intro: follows_mono)
    with False show ?thesis by (simp add: split_beta)
  next
    case True
    have "parse_expr 0 (?body @ T_RParen # rest) = Ok (E_Binary op l r, T_RParen # rest)"
      using body[of 0 "T_RParen # rest"] by simp
    with True show ?thesis
      by (simp add: split_beta parse_expr_eq[of m] parse_prefix_def)
  qed
next
  case (E_If c t e)
  have c: "parse_expr 0 (print_expr 0 c @ T_Comma # q) = Ok (c, T_Comma # q)" for q
    using E_If.IH(1)[of 0 0 "T_Comma # q"] E_If.prems by simp
  have t: "parse_expr 0 (print_expr 0 t @ T_Comma # q) = Ok (t, T_Comma # q)" for q
    using E_If.IH(2)[of 0 0 "T_Comma # q"] E_If.prems by simp
  have e: "parse_expr 0 (print_expr 0 e @ T_RParen # q) = Ok (e, T_RParen # q)" for q
    using E_If.IH(3)[of 0 0 "T_RParen # q"] E_If.prems by simp
  show ?case
    by (simp add: parse_expr_eq[of m] parse_prefix_def parse_if_function_def c t e)
qed

lemma parse_printed: "plain_names e \<Longrightarrow> parse (print_expr 0 e @ [T_Eof]) = Ok e"
  by (simp add: parse_eq parse_print_expr)

section \<open>Variables of an expression\<close>

fun expr_vars :: "expr \<Rightarrow> string set" where
  "expr_vars (E_Literal l) = {}"
| "expr_vars (E_Variable name) = {name}"
| "expr_vars (E_Binary op l r) = expr_vars l \<union> expr_vars r"
| "expr_vars (E_Unary op e) = expr_vars e"
| "expr_vars (E_If c t e) = expr_vars c \<union> expr_vars t \<union> expr_vars e"

lemma set_collect_variables [simp]: "set (collect_variables e out) = set out \<union> expr_vars e"
  by (induction e arbitrary: out) auto

lemma set_extract_variables [simp]: "set (extract_variables e) = expr_vars e"
  by (simp add: extract_variables_def)

lemma distinct_remdups_adj_sorted: "sorted xs \<Longrightarrow> distinct (remdups_adj xs)"
  by (induction xs rule: remdups_adj.induct) (auto dest: order.antisym)

lemma extract_variables_sorted: "sorted (extract_variables e) \<and> distinct (extract_variables e)"
  by (simp add: extract_variables_def sorted_remdups_adj distinct_remdups_adj_sorted)

end
