(* ===== verification/Evaluator.thy ===== *)
theory Evaluator
  imports Calc_Parser "HOL-Library.Signed_Division"
begin

text \<open>
  The evaluator of the calculation engine (\<open>src/src/calc_engine/evaluator.rs\<close>): the value type of
  expressions, the checked 64-bit operations, the two recursive evaluators and their error values.
  A \<open>HashMap\<close> of variables is a partial function. The \<open>unreachable!\<close> arm of \<open>eval_binary\<close>
  is the error value \<open>EvalPanic\<close>; \<open>evaluate_no_panic\<close> shows that it is never produced.
\<close>

section \<open>Values and errors\<close>

datatype eval_value = EV_Int i64 | EV_Bool bool | EV_Float f64

datatype type_error =
    NotFiniteInteger f64 | NotIntegral f64 | OutsideI64 f64
  | NegOverflow | AddOverflow | SubOverflow | MulOverflow | RemOverflow
  | NegativeShift i64

datatype eval_error =
    MissingVariable string | DivisionByZero | TypeError type_error | EvalPanic

fun from_model_value :: "rcd_value \<Rightarrow> eval_value" where
  "from_model_value (V_UInt n) = EV_Int (ucast n)"
| "from_model_value (V_Bool b) = EV_Bool b"
| "from_model_value (V_Float f) = EV_Float (f32_as_f64 f)"
| "from_model_value (V_Double f) = EV_Float f"

fun as_bool :: "eval_value \<Rightarrow> bool" where
  "as_bool (EV_Bool b) = b"
| "as_bool (EV_Int n) = (n \<noteq> 0)"
| "as_bool (EV_Float f) = (\<not> fp_eq f (FNum 0))"

fun as_f64 :: "eval_value \<Rightarrow> f64" where
  "as_f64 (EV_Int n) = i64_as_f64 n"
| "as_f64 (EV_Bool b) = (if b then FNum 1 else FNum 0)"
| "as_f64 (EV_Float f) = f"

fun is_invalid_float :: "eval_value \<Rightarrow> bool" where
  "is_invalid_float (EV_Float f) = (is_nan f \<or> is_infinite f)"
| "is_invalid_float _ = False"

fun is_float :: "eval_value \<Rightarrow> bool" where
  "is_float (EV_Float f) = True"
| "is_float _ = False"

text \<open>\<open>i64::MIN as f64\<close> is \<open>-2^63\<close>; \<open>i64::MAX as f64\<close> rounds up to \<open>2^63\<close>.\<close>

definition i64_MIN :: i64 where "i64_MIN = - (2 ^ 63)"
definition i64_MAX :: i64 where "i64_MAX = 2 ^ 63 - 1"

fun as_int_for_integer_op :: "eval_value \<Rightarrow> eval_error + i64" where
  "as_int_for_integer_op (EV_Int n) = Ok n"
| "as_int_for_integer_op (EV_Bool b) = Ok (if b then 1 else 0)"
| "as_int_for_integer_op (EV_Float f) =
     (if \<not> is_finite f then Err (TypeError (NotFiniteInteger f))
      else if \<not> fp_eq (fp_fract binary64 f) (FNum 0) then Err (TypeError (NotIntegral f))
      else if fp_lt f (i64_as_f64 i64_MIN) \<or> fp_lt (i64_as_f64 i64_MAX) f
        then Err (TypeError (OutsideI64 f))
      else Ok (fp_as_i64 f))"

section \<open>Checked 64-bit arithmetic\<close>

definition checked_i64 :: "int \<Rightarrow> i64 option" where
  "checked_i64 x = (if - (2 ^ 63) \<le> x \<and> x < 2 ^ 63 then Some (word_of_int x) else None)"

definition checked_neg :: "i64 \<Rightarrow> i64 option" where
  "checked_neg a = checked_i64 (- sint a)"

definition checked_add :: "i64 \<Rightarrow> i64 \<Rightarrow> i64 option" where
  "checked_add a b = checked_i64 (sint a + sint b)"

definition checked_sub :: "i64 \<Rightarrow> i64 \<Rightarrow> i64 option" where
  "checked_sub a b = checked_i64 (sint a - sint b)"

definition checked_mul :: "i64 \<Rightarrow> i64 \<Rightarrow> i64 option" where
  "checked_mul a b = checked_i64 (sint a * sint b)"

text \<open>\<open>checked_rem\<close> fails on a zero divisor and where the quotient overflows.\<close>

definition checked_rem :: "i64 \<Rightarrow> i64 \<Rightarrow> i64 option" where
  "checked_rem a b = (if b = 0 \<or> checked_i64 (sint a sdiv sint b) = None then None
     else checked_i64 (sint a smod sint b))"

section \<open>Operators\<close>

fun eval_literal :: "literal \<Rightarrow> eval_value" where
  "eval_literal (L_Int n) = EV_Int n"
| "eval_literal (L_Float f) = EV_Float f"
| "eval_literal (L_Bool b) = EV_Bool b"

fun eval_unary :: "unary_op \<Rightarrow> eval_value \<Rightarrow> eval_error + eval_value" where
  "eval_unary U_Neg (EV_Float f) = Ok (EV_Float (fp_neg f))"
| "eval_unary U_Neg v = and_then (as_int_for_integer_op v)
     (\<lambda>n. ok_or (TypeError NegOverflow) (map_option EV_Int (checked_neg n)))"
| "eval_unary U_Not v = Ok (EV_Bool (\<not> as_bool v))"
| "eval_unary U_BitNot v = map_ok (\<lambda>n. EV_Int (not n)) (as_int_for_integer_op v)"

text \<open>The common shape of the integer operators: both operands in order, then the operation.\<close>

definition int_op ::
  "eval_value \<Rightarrow> eval_value \<Rightarrow> (i64 \<Rightarrow> i64 \<Rightarrow> eval_error + eval_value) \<Rightarrow> eval_error + eval_value" where
  "int_op l r f = and_then (as_int_for_integer_op l)
     (\<lambda>a. and_then (as_int_for_integer_op r) (\<lambda>b. f a b))"

definition eval_add :: "eval_value \<Rightarrow> eval_value \<Rightarrow> eval_error + eval_value" where
  "eval_add l r =
     (if is_float l \<or> is_float r then Ok (EV_Float (fp_add binary64 (as_f64 l) (as_f64 r)))
      else int_op l r (\<lambda>a b. ok_or (TypeError AddOverflow) (map_option EV_Int (checked_add a b))))"

definition eval_sub :: "eval_value \<Rightarrow> eval_value \<Rightarrow> eval_error + eval_value" where
  "eval_sub l r =
     (if is_float l \<or> is_float r then Ok (EV_Float (fp_sub binary64 (as_f64 l) (as_f64 r)))
      else int_op l r (\<lambda>a b. ok_or (TypeError SubOverflow) (map_option EV_Int (checked_sub a b))))"

definition eval_mul :: "eval_value \<Rightarrow> eval_value \<Rightarrow> eval_error + eval_value" where
  "eval_mul l r =
     (if is_float l \<or> is_float r then Ok (EV_Float (fp_mul binary64 (as_f64 l) (as_f64 r)))
      else int_op l r (\<lambda>a b. ok_or (TypeError MulOverflow) (map_option EV_Int (checked_mul a b))))"

definition eval_div :: "eval_value \<Rightarrow> eval_value \<Rightarrow> eval_error + eval_value" where
  "eval_div l r =
     (if fp_eq (as_f64 r) (FNum 0) then Err DivisionByZero
      else Ok (EV_Float (fp_div binary64 (as_f64 l) (as_f64 r))))"

definition eval_mod :: "eval_value \<Rightarrow> eval_value \<Rightarrow> eval_error + eval_value" where
  "eval_mod l r =
     (if fp_eq (as_f64 r) (FNum 0) then Err DivisionByZero
      else if is_float l \<or> is_float r
        then Ok (EV_Float (fp_rem binary64 (as_f64 l) (as_f64 r)))
      else int_op l r (\<lambda>a b. ok_or (TypeError RemOverflow) (map_option EV_Int (checked_rem a b))))"

text \<open>The cast \<open>shift as u32\<close> keeps the low 32 bits; \<open>min(63)\<close> is applied to what is left.\<close>

definition checked_shift :: "i64 \<Rightarrow> eval_error + u32" where
  "checked_shift shift =
     (if sint shift < 0 then Err (TypeError (NegativeShift shift))
      else Ok (min (ucast shift) 63))"

definition FLOAT_EQ_EPSILON :: f64 where
  "FLOAT_EQ_EPSILON = fp_of_rat binary64 False (1 / 10 ^ 9)"

fun eq_values :: "eval_value \<Rightarrow> eval_value \<Rightarrow> bool" where
  "eq_values (EV_Bool a) (EV_Bool b) = (a = b)"
| "eq_values (EV_Int a) (EV_Int b) = (a = b)"
| "eq_values l r = fp_le (fp_abs (fp_sub binary64 (as_f64 l) (as_f64 r))) FLOAT_EQ_EPSILON"

fun eval_binary :: "bin_op \<Rightarrow> eval_value \<Rightarrow> eval_value \<Rightarrow> eval_error + eval_value" where
  "eval_binary B_Add l r = eval_add l r"
| "eval_binary B_Sub l r = eval_sub l r"
| "eval_binary B_Mul l r = eval_mul l r"
| "eval_binary B_Div l r = eval_div l r"
| "eval_binary B_Mod l r = eval_mod l r"
| "eval_binary B_BitAnd l r = int_op l r (\<lambda>a b. Ok (EV_Int (and a b)))"
| "eval_binary B_BitOr l r = int_op l r (\<lambda>a b. Ok (EV_Int (or a b)))"
| "eval_binary B_BitXor l r = int_op l r (\<lambda>a b. Ok (EV_Int (xor a b)))"
| "eval_binary B_ShiftLeft l r =
     and_then (and_then (as_int_for_integer_op r) checked_shift)
       (\<lambda>s. map_ok (\<lambda>a. EV_Int (push_bit (unat s) a)) (as_int_for_integer_op l))"
| "eval_binary B_ShiftRight l r =
     and_then (and_then (as_int_for_integer_op r) checked_shift)
       (\<lambda>s. map_ok (\<lambda>a. EV_Int (signed_drop_bit (unat s) a)) (as_int_for_integer_op l))"
| "eval_binary B_And l r = Err EvalPanic"
| "eval_binary B_Or l r = Err EvalPanic"
| "eval_binary B_Eq l r = Ok (EV_Bool (eq_values l r))"
| "eval_binary B_NotEq l r = Ok (EV_Bool (\<not> eq_values l r))"
| "eval_binary B_Lt l r = Ok (EV_Bool (fp_lt (as_f64 l) (as_f64 r)))"
| "eval_binary B_Gt l r = Ok (EV_Bool (fp_lt (as_f64 r) (as_f64 l)))"
| "eval_binary B_LtEq l r = Ok (EV_Bool (fp_le (as_f64 l) (as_f64 r)))"
| "eval_binary B_GtEq l r = Ok (EV_Bool (fp_le (as_f64 r) (as_f64 l)))"

section \<open>The evaluators\<close>

type_synonym variables = "string \<rightharpoonup> eval_value"
type_synonym validity = "string \<rightharpoonup> bool"

fun evaluate :: "expr \<Rightarrow> variables \<Rightarrow> eval_error + eval_value" where
  "evaluate (E_Literal lit) vars = Ok (eval_literal lit)"
| "evaluate (E_Variable name) vars = ok_or (MissingVariable name) (vars name)"
| "evaluate (E_Unary op e) vars = and_then (evaluate e vars) (eval_unary op)"
| "evaluate (E_Binary op l r) vars =
     (case op of
        B_And \<Rightarrow> and_then (evaluate l vars) (\<lambda>lv.
          if \<not> as_bool lv then Ok (EV_Bool False)
          else map_ok (\<lambda>rv. EV_Bool (as_bool rv)) (evaluate r vars))
      | B_Or \<Rightarrow> and_then (evaluate l vars) (\<lambda>lv.
          if as_bool lv then Ok (EV_Bool True)
          else map_ok (\<lambda>rv. EV_Bool (as_bool rv)) (evaluate r vars))
      | _ \<Rightarrow> and_then (evaluate l vars) (\<lambda>lv.
          and_then (evaluate r vars) (\<lambda>rv. eval_binary op lv rv)))"
| "evaluate (E_If c t e) vars = and_then (evaluate c vars) (\<lambda>cv.
     if as_bool cv then evaluate t vars else evaluate e vars)"

fun evaluate_with_validity ::
  "expr \<Rightarrow> variables \<Rightarrow> validity \<Rightarrow> eval_error + eval_value \<times> bool" where
  "evaluate_with_validity (E_Literal lit) vars val = Ok (eval_literal lit, True)"
| "evaluate_with_validity (E_Variable name) vars val =
     ok_or (MissingVariable name)
       (map_option (\<lambda>v. (v, case val name of None \<Rightarrow> False | Some b \<Rightarrow> b)) (vars name))"
| "evaluate_with_validity (E_Unary op e) vars val =
     and_then (evaluate_with_validity e vars val) (\<lambda>(v, ok).
       map_ok (\<lambda>w. (w, ok)) (eval_unary op v))"
| "evaluate_with_validity (E_Binary op l r) vars val =
     (case op of
        B_And \<Rightarrow> and_then (evaluate_with_validity l vars val) (\<lambda>(lv, lok).
          if \<not> as_bool lv then Ok (EV_Bool False, lok)
          else map_ok (\<lambda>(rv, rok). (EV_Bool (as_bool rv), lok \<and> rok))
                 (evaluate_with_validity r vars val))
      | B_Or \<Rightarrow> and_then (evaluate_with_validity l vars val) (\<lambda>(lv, lok).
          if as_bool lv then Ok (EV_Bool True, lok)
          else map_ok (\<lambda>(rv, rok). (EV_Bool (as_bool rv), lok \<and> rok))
                 (evaluate_with_validity r vars val))
      | _ \<Rightarrow> and_then (evaluate_with_validity l vars val) (\<lambda>(lv, lok).
          and_then (evaluate_with_validity r vars val) (\<lambda>(rv, rok).
            map_ok (\<lambda>w. (w, lok \<and> rok)) (eval_binary op lv rv))))"
| "evaluate_with_validity (E_If c t e) vars val =
     and_then (evaluate_with_validity c vars val) (\<lambda>(cv, cok).
       map_ok (\<lambda>(v, bok). (v, cok \<and> bok))
         (if as_bool cv then evaluate_with_validity t vars val
          else evaluate_with_validity e vars val))"

section \<open>Operators: types, exactness and errors\<close>

lemma checked_i64_Some [simp]: "checked_i64 x = Some c \<longleftrightarrow> sint c = x"
proof -
  have "sint (word_of_int x :: i64) = x" if "- (2 ^ 63) \<le> x" "x < 2 ^ 63"
    using that by (simp add: signed_of_int signed_take_bit_int_eq_self_iff)
  moreover have "- (2 ^ 63) \<le> sint c" "sint c < 2 ^ 63"
    using sint_ge[of c] sint_lt[of c] by simp_all
  ultimately show ?thesis by (auto simp: checked_i64_def)
qed

lemma checked_i64_None: "checked_i64 x = None \<longleftrightarrow> (\<nexists>c :: i64. sint c = x)"
  by (metis checked_i64_Some not_None_eq)

lemma ok_or_Ok [simp]: "ok_or e m = Inr y \<longleftrightarrow> m = Some y"
  by (cases m) simp_all

lemma ok_or_Err [simp]: "ok_or e m = Inl e' \<longleftrightarrow> m = None \<and> e' = e"
  by (cases m) auto

fun wf_eval_value :: "eval_value \<Rightarrow> bool" where
  "wf_eval_value (EV_Float f) = wf_fp binary64 f"
| "wf_eval_value _ = True"

fun wf_expr :: "expr \<Rightarrow> bool" where
  "wf_expr (E_Literal l) = wf_eval_value (eval_literal l)"
| "wf_expr (E_Variable name) = True"
| "wf_expr (E_Binary op l r) = (wf_expr l \<and> wf_expr r)"
| "wf_expr (E_Unary op e) = wf_expr e"
| "wf_expr (E_If c t e) = (wf_expr c \<and> wf_expr t \<and> wf_expr e)"

lemma representable_one: "representable binary64 1"
  using representableI[of 1 binary64 0] by (simp add: binary64_def)

lemma wf_as_f64 [simp]: "wf_eval_value v \<Longrightarrow> wf_fp binary64 (as_f64 v)"
  by (cases v) (auto simp: i64_as_f64_def representable_one representable_zero)

lemma wf_eval_unary: "eval_unary op v = Ok w \<Longrightarrow> wf_eval_value v \<Longrightarrow> wf_eval_value w"
  by (cases "(op, v)" rule: eval_unary.cases) auto

lemma wf_int_op:
  "int_op l r f = Ok w \<Longrightarrow> (\<And>a b. f a b = Ok w \<Longrightarrow> wf_eval_value w) \<Longrightarrow> wf_eval_value w"
  by (auto simp: int_op_def)

lemma wf_eval_binary:
  "eval_binary op l r = Ok w \<Longrightarrow> wf_eval_value l \<Longrightarrow> wf_eval_value r \<Longrightarrow> wf_eval_value w"
  by (cases op)
     (auto simp: eval_add_def eval_sub_def eval_mul_def eval_div_def eval_mod_def
           split: if_splits elim!: wf_int_op)

lemmas no_panic_simps = int_op_def eval_add_def eval_sub_def eval_mul_def eval_div_def
  eval_mod_def checked_shift_def and_then_Err

lemma as_int_no_panic [simp]: "as_int_for_integer_op v \<noteq> Err EvalPanic"
  by (cases v) simp_all

lemma eval_unary_no_panic [simp]: "eval_unary op v \<noteq> Err EvalPanic"
  by (cases "(op, v)" rule: eval_unary.cases) (auto simp: and_then_Err)

lemma eval_binary_no_panic:
  "op \<noteq> B_And \<Longrightarrow> op \<noteq> B_Or \<Longrightarrow> eval_binary op l r \<noteq> Err EvalPanic"
  by (cases op) (auto simp: no_panic_simps)

lemma as_int_not_missing [simp]: "as_int_for_integer_op v \<noteq> Err (MissingVariable x)"
  by (cases v) simp_all

lemma eval_unary_not_missing [simp]: "eval_unary op v \<noteq> Err (MissingVariable x)"
  by (cases "(op, v)" rule: eval_unary.cases) (auto simp: and_then_Err)

lemma eval_binary_not_missing [simp]: "eval_binary op l r \<noteq> Err (MissingVariable x)"
  by (cases op) (auto simp: no_panic_simps)

section \<open>The evaluators\<close>

text \<open>The operators other than \<open>&&\<close> and \<open>||\<close> evaluate both operands.\<close>

definition strict_op :: "bin_op \<Rightarrow> bool" where
  "strict_op op \<longleftrightarrow> op \<noteq> B_And \<and> op \<noteq> B_Or"

lemma bin_op_cases:
  obtains "op = B_And" | "op = B_Or" | "strict_op op"
  by (auto simp: strict_op_def)

lemma evaluate_strict:
  "strict_op op \<Longrightarrow> evaluate (E_Binary op l r) vars =
     and_then (evaluate l vars) (\<lambda>lv. and_then (evaluate r vars) (\<lambda>rv. eval_binary op lv rv))"
  by (cases op) (simp_all only: strict_op_def evaluate.simps bin_op.case simp_thms)

lemma evaluate_with_validity_strict:
  "strict_op op \<Longrightarrow> evaluate_with_validity (E_Binary op l r) vars val =
     and_then (evaluate_with_validity l vars val) (\<lambda>(lv, lok).
       and_then (evaluate_with_validity r vars val) (\<lambda>(rv, rok).
         map_ok (\<lambda>w. (w, lok \<and> rok)) (eval_binary op lv rv)))"
  by (cases op) (simp_all only: strict_op_def evaluate_with_validity.simps bin_op.case simp_thms)

lemmas evaluate_binary =
  evaluate.simps(4)[of B_And, simplified bin_op.case]
  evaluate.simps(4)[of B_Or, simplified bin_op.case] evaluate_strict

lemmas evaluate_with_validity_binary =
  evaluate_with_validity.simps(4)[of B_And, simplified bin_op.case]
  evaluate_with_validity.simps(4)[of B_Or, simplified bin_op.case] evaluate_with_validity_strict

declare evaluate.simps(4) [simp del] evaluate_with_validity.simps(4) [simp del]

lemma map_ok_and_then: "map_ok g (and_then r f) = and_then r (\<lambda>x. map_ok g (f x))"
  by (cases r) simp_all

lemma and_then_map_ok: "and_then (map_ok g r) f = and_then r (\<lambda>x. f (g x))"
  by (cases r) simp_all

lemma map_ok_map_ok: "map_ok g (map_ok f r) = map_ok (\<lambda>x. g (f x)) r"
  by (cases r) simp_all

lemma map_ok_id: "map_ok (\<lambda>x. x) r = r"
  by (cases r) simp_all

lemma and_then_cong: "(\<And>x. r = Inr x \<Longrightarrow> f x = g x) \<Longrightarrow> and_then r f = and_then r g"
  by (cases r) simp_all

lemmas result_fusion = map_ok_and_then and_then_map_ok map_ok_map_ok map_ok_id

text \<open>Erasing the flags of \<open>evaluate_with_validity\<close> gives \<open>evaluate\<close>.\<close>

lemma evaluate_erases:
  "evaluate e vars = map_ok fst (evaluate_with_validity e vars val)"
proof (induction e)
  case (E_Variable name)
  then show ?case by (cases "vars name") simp_all
next
  case (E_Binary op l r)
  show ?case
    by (cases op rule: bin_op_cases)
       (auto simp: E_Binary evaluate_binary evaluate_with_validity_binary result_fusion
         split_beta cong: if_cong intro!: and_then_cong)
qed (auto simp: result_fusion split_beta cong: if_cong intro!: and_then_cong)

text \<open>A result flagged valid depends on nothing but variables that are flagged valid.\<close>

lemma evaluate_valid_only:
  assumes "evaluate_with_validity e vars val = Ok (v, True)"
    and "\<And>x. val x = Some True \<Longrightarrow> vars' x = vars x"
  shows "evaluate_with_validity e vars' val = Ok (v, True)"
  using assms(1)
proof (induction e arbitrary: v)
  case (E_Variable name)
  then show ?case using assms(2)[of name] by (auto split: option.splits)
next
  case (E_Binary op l r)
  then show ?case
    by (cases op rule: bin_op_cases)
       (fastforce simp: evaluate_with_validity_binary split: if_splits)+
next
  case (E_If c t e)
  then show ?case by (fastforce split: if_splits)
qed auto

lemma evaluate_cong_vars:
  assumes "\<And>x. x \<in> expr_vars e \<Longrightarrow> vars x = vars' x"
  shows "evaluate e vars = evaluate e vars'"
  using assms
proof (induction e)
  case (E_Binary op l r)
  then have "evaluate l vars = evaluate l vars'" "evaluate r vars = evaluate r vars'" by simp_all
  then show ?case
    by (cases op rule: bin_op_cases) (simp_all add: evaluate_binary cong: if_cong)
qed (auto cong: if_cong)

lemma evaluate_missing:
  "evaluate e vars = Err (MissingVariable x) \<Longrightarrow> x \<in> expr_vars e \<and> vars x = None"
proof (induction e)
  case (E_Binary op l r)
  then show ?case
    by (cases op rule: bin_op_cases)
       (auto simp: evaluate_binary and_then_Err split: if_splits)
qed (auto simp: and_then_Err split: if_splits)

lemma evaluate_no_panic: "evaluate e vars \<noteq> Err EvalPanic"
proof (induction e)
  case (E_Binary op l r)
  then show ?case
    by (cases op rule: bin_op_cases)
       (auto simp: evaluate_binary and_then_Err eval_binary_no_panic strict_op_def
         split: if_splits)
qed (auto simp: and_then_Err)

lemma wf_evaluate:
  assumes "evaluate e vars = Ok v" and "wf_expr e"
    and vars: "\<And>x w. vars x = Some w \<Longrightarrow> wf_eval_value w"
  shows "wf_eval_value v"
  using assms(1,2)
proof (induction e arbitrary: v)
  case (E_Unary op e)
  then show ?case by (auto intro: wf_eval_unary)
next
  case (E_Binary op l r)
  then have "\<And>w. evaluate l vars = Ok w \<Longrightarrow> wf_eval_value w"
    "\<And>w. evaluate r vars = Ok w \<Longrightarrow> wf_eval_value w" by auto
  with E_Binary.prems(1) show ?case
    by (cases op rule: bin_op_cases)
       (auto simp: evaluate_binary split: if_splits intro: wf_eval_binary)
qed (auto split: if_splits intro: vars)

text \<open>Integer arithmetic is the arithmetic of the integers, or an error.\<close>

fun int_arith :: "bin_op \<Rightarrow> (int \<Rightarrow> int \<Rightarrow> int) option" where
  "int_arith B_Add = Some (+)"
| "int_arith B_Sub = Some (-)"
| "int_arith B_Mul = Some (*)"
| "int_arith _ = None"

lemma eval_binary_int_exact:
  assumes "int_arith op = Some f"
  shows "eval_binary op (EV_Int a) (EV_Int b) = Ok v \<longleftrightarrow> (\<exists>c. v = EV_Int c \<and> sint c = f (sint a) (sint b))"
  using assms
  by (cases op) (auto simp: eval_add_def eval_sub_def eval_mul_def int_op_def
      checked_add_def checked_sub_def checked_mul_def)

text \<open>A shift count below \<open>2^32\<close> is clamped to 63; only its low 32 bits count.\<close>

lemma checked_shift_small:
  assumes "uint s < 2 ^ 32"
  shows "checked_shift s = Ok (if uint s < 63 then ucast s else 63)"
proof -
  have "sint s = uint s"
    using assms order_trans[of "- (2 ^ 63)" 0 "uint s"]
    by (simp add: sint_uint signed_take_bit_int_eq_self_iff)
  moreover have "uint (ucast s :: u32) = uint s"
    using assms by (simp add: unsigned_ucast_eq take_bit_int_eq_self_iff)
  then have "(ucast s :: u32) \<le> 63 \<longleftrightarrow> uint s \<le> 63" by (simp add: word_le_def)
  ultimately show ?thesis
    using assms by (auto simp: checked_shift_def min_def word_uint_eq_iff unsigned_ucast_eq take_bit_int_eq_self_iff)
qed

lemma checked_shift_wraps: "checked_shift (2 ^ 32) = Ok 0"
  by code_simp

end
