(* ===== verification/Calc_Engine.thy ===== *)
theory Calc_Engine
  imports Evaluator
begin

text \<open>
  The calculation engine: its rules (\<open>src/src/calc_engine/config.rs\<close>), compilation, topological
  sorting and the evaluation cycle (\<open>engine.rs\<close>). A panic of the code (an index out of range, an
  underflow of an in-degree, \<open>unwrap\<close> of a rule already taken, \<open>clamp\<close> with its bounds in the
  wrong order) is \<open>None\<close>; that no engine built by \<open>new\<close> reaches one is proved, not assumed.
\<close>

section \<open>Configuration (config.rs)\<close>

record calc_rule =
  cr_kks_calc :: string
  cr_data_type :: string
  cr_expression :: string
  cr_max_limit :: f64
  cr_min_limit :: f64
  cr_default_value :: f64

datatype calc_data_type = CD_UInt | CD_Bool | CD_Float | CD_Double

fun calc_data_type_as_str :: "calc_data_type \<Rightarrow> string" where
  "calc_data_type_as_str CD_UInt = ''uint''"
| "calc_data_type_as_str CD_Bool = ''bool''"
| "calc_data_type_as_str CD_Float = ''float''"
| "calc_data_type_as_str CD_Double = ''double''"

definition normalize_data_type :: "string \<Rightarrow> calc_data_type option" where
  "normalize_data_type s =
     (let t = to_ascii_lowercase s in
      if t \<in> set [''u32'', ''uint32'', ''uint''] then Some CD_UInt
      else if t \<in> set [''bool'', ''boolean''] then Some CD_Bool
      else if t \<in> set [''f32'', ''float''] then Some CD_Float
      else if t \<in> set [''f64'', ''double''] then Some CD_Double
      else None)"

definition default_max :: f64 where "default_max = f64_MAX"
definition default_min :: f64 where "default_min = fp_neg f64_MAX"

text \<open>
  A rule as the file spells it: the fields with a \<open>serde\<close> default are optional. \<open>read\<close> and
  \<open>from_toml\<close> stand for the file system and the TOML library.
\<close>

record toml_rule =
  tr_kks_calc :: string
  tr_data_type :: string
  tr_expression :: string
  tr_max_limit :: "f64 option"
  tr_min_limit :: "f64 option"
  tr_default_value :: "f64 option"

definition rule_of_toml :: "toml_rule \<Rightarrow> calc_rule" where
  "rule_of_toml t =
     \<lparr>cr_kks_calc = tr_kks_calc t, cr_data_type = tr_data_type t,
      cr_expression = tr_expression t,
      cr_max_limit = (case tr_max_limit t of None \<Rightarrow> default_max | Some x \<Rightarrow> x),
      cr_min_limit = (case tr_min_limit t of None \<Rightarrow> default_min | Some x \<Rightarrow> x),
      cr_default_value = (case tr_default_value t of None \<Rightarrow> FNum 0 | Some x \<Rightarrow> x)\<rparr>"

datatype 'e load_error = ReadFailed 'e | TomlFailed 'e

definition load_calc_config ::
  "bool \<Rightarrow> ('e + string) \<Rightarrow> (string \<Rightarrow> 'e + toml_rule list) \<Rightarrow> 'e load_error + calc_rule list" where
  "load_calc_config path_exists read from_toml =
     (if \<not> path_exists then Ok []
      else case read of
        Inl e \<Rightarrow> Err (ReadFailed e)
      | Inr content \<Rightarrow>
          (case from_toml content of
             Inl e \<Rightarrow> Err (TomlFailed e)
           | Inr rules \<Rightarrow> Ok (map rule_of_toml rules)))"

section \<open>Compilation (engine.rs)\<close>

record compiled_rule =
  kks_calc :: string
  data_type :: calc_data_type
  expression :: string
  ast :: expr
  rule_variables :: "string list"
  max_limit :: f64
  min_limit :: f64
  default_value :: f64

datatype compile_error =
    UnknownDataType string | NonFiniteBound | MinAboveMax
  | LexFailed lex_error | ParseFailed parse_error | SelfReference string

definition compile_rule :: "calc_rule \<Rightarrow> compile_error + compiled_rule" where
  "compile_rule rule =
     and_then (ok_or (UnknownDataType (cr_data_type rule)) (normalize_data_type (cr_data_type rule)))
      (\<lambda>dt.
     if \<not> is_finite (cr_max_limit rule) \<or> \<not> is_finite (cr_min_limit rule)
          \<or> \<not> is_finite (cr_default_value rule) then Err NonFiniteBound
     else if fp_lt (cr_max_limit rule) (cr_min_limit rule) then Err MinAboveMax
     else
       and_then (map_err LexFailed (tokenize (cr_expression rule))) (\<lambda>tokens.
       and_then (map_err ParseFailed (parse tokens)) (\<lambda>e.
       let vars = extract_variables e in
       if cr_kks_calc rule \<in> set vars then Err (SelfReference (cr_kks_calc rule))
       else Ok \<lparr>kks_calc = cr_kks_calc rule, data_type = dt, expression = cr_expression rule,
                ast = e, rule_variables = vars, max_limit = cr_max_limit rule,
                min_limit = cr_min_limit rule, default_value = cr_default_value rule\<rparr>)))"

text \<open>The loop of \<open>new\<close>: rules that do not compile, and later duplicates of an output, are skipped.\<close>

fun compile_all :: "calc_rule list \<Rightarrow> compiled_rule list \<Rightarrow> compiled_rule list" where
  "compile_all [] compiled = compiled"
| "compile_all (rule # rules) compiled =
     (case compile_rule rule of
        Inl e \<Rightarrow> compile_all rules compiled
      | Inr cr \<Rightarrow>
          if list_ex (\<lambda>existing. kks_calc existing = kks_calc cr) compiled
          then compile_all rules compiled
          else compile_all rules (compiled @ [cr]))"

section \<open>Topological sorting (engine.rs)\<close>

text \<open>Collecting pairs into a \<open>HashMap\<close> keeps the last index of a name.\<close>

definition name_to_idx :: "compiled_rule list \<Rightarrow> string \<rightharpoonup> nat" where
  "name_to_idx rules = map_of (rev (zip (map kks_calc rules) [0..<length rules]))"

text \<open>The two nested loops that fill the adjacency lists and the in-degrees.\<close>

fun add_edges ::
  "(string \<rightharpoonup> nat) \<Rightarrow> nat \<Rightarrow> string list \<Rightarrow> nat list list \<times> nat list \<Rightarrow> nat list list \<times> nat list" where
  "add_edges idx i [] s = s"
| "add_edges idx i (v # vs) (adj, deg) =
     add_edges idx i vs
       (case idx v of
          None \<Rightarrow> (adj, deg)
        | Some d \<Rightarrow> (adj[d := adj ! d @ [i]], deg[i := deg ! i + 1]))"

fun build_graph ::
  "(string \<rightharpoonup> nat) \<Rightarrow> nat \<Rightarrow> compiled_rule list \<Rightarrow> nat list list \<times> nat list \<Rightarrow> nat list list \<times> nat list" where
  "build_graph idx i [] s = s"
| "build_graph idx i (r # rs) s = build_graph idx (i + 1) rs (add_edges idx i (rule_variables r) s)"

text \<open>The inner loop of Kahn's algorithm: every successor loses one in-degree.\<close>

fun relax :: "nat list \<Rightarrow> nat list \<Rightarrow> nat list \<Rightarrow> (nat list \<times> nat list) option" where
  "relax [] deg queue = Some (deg, queue)"
| "relax (x # xs) deg queue =
     (if x \<ge> length deg \<or> deg ! x = 0 then None
      else let d = deg ! x - 1
           in relax xs (deg[x := d]) (if d = 0 then queue @ [x] else queue))"

lemma relax_measure:
  "relax xs deg queue = Some (deg', queue') \<Longrightarrow>
     sum_list deg' + length queue' \<le> sum_list deg + length queue"
proof (induction xs deg queue rule: relax.induct)
  case (2 x xs deg queue)
  then have x: "x < length deg" "deg ! x \<noteq> 0" by (auto split: if_splits)
  have "deg ! x \<le> sum_list deg" using x(1) by (simp add: member_le_sum_list)
  then have "sum_list (deg[x := deg ! x - 1]) + 1 = sum_list deg"
    using x by (simp add: sum_list_update)
  with 2 x show ?case by (fastforce simp: Let_def split: if_splits)
qed simp

function kahn :: "nat list list \<Rightarrow> nat list \<Rightarrow> nat list \<Rightarrow> nat list \<Rightarrow> (nat list \<times> nat list) option" where
  "kahn adj [] deg order = Some (order, deg)"
| "kahn adj (i # queue) deg order =
     (if i \<ge> length adj then None
      else case relax (adj ! i) deg queue of
             None \<Rightarrow> None
           | Some (deg', queue') \<Rightarrow> kahn adj queue' deg' (order @ [i]))"
  by pat_completeness auto
termination
  by (relation "measure (\<lambda>(adj, queue, deg, order). sum_list deg + length queue)")
     (auto dest!: relax_measure)

text \<open>\<open>rules_opt[i].take().unwrap()\<close> for every index of the order.\<close>

fun take_rules :: "nat list \<Rightarrow> 'a option list \<Rightarrow> 'a list option" where
  "take_rules [] opts = Some []"
| "take_rules (i # is) opts =
     (if i \<ge> length opts then None
      else case opts ! i of
             None \<Rightarrow> None
           | Some r \<Rightarrow> map_option ((#) r) (take_rules is (opts[i := None])))"

definition topological_sort :: "compiled_rule list \<Rightarrow> compiled_rule list option" where
  "topological_sort rules =
     (let n = length rules;
          (adj, deg) = build_graph (name_to_idx rules) 0 rules (replicate n [], replicate n 0);
          queue = filter (\<lambda>i. deg ! i = 0) [0..<n]
      in case kahn adj queue deg [] of
           None \<Rightarrow> None
         | Some (order, _) \<Rightarrow> take_rules order (map Some rules))"

type_synonym calc_engine = "compiled_rule list"

definition engine_new :: "calc_rule list \<Rightarrow> calc_engine option" where
  "engine_new config_rules =
     (if config_rules = [] then Some []
      else let compiled = compile_all config_rules []
           in if compiled = [] then Some [] else topological_sort compiled)"

section \<open>What an engine reports (engine.rs)\<close>

definition output_names :: "calc_engine \<Rightarrow> string list" where
  "output_names eng = map kks_calc eng"

definition required_base_variables :: "calc_engine \<Rightarrow> string list" where
  "required_base_variables eng =
     remdups_adj (sort (filter (\<lambda>v. v \<notin> set (map kks_calc eng)) (concat (map rule_variables eng))))"

definition output_definitions :: "calc_engine \<Rightarrow> (string \<times> string) list" where
  "output_definitions eng = map (\<lambda>r. (kks_calc r, calc_data_type_as_str (data_type r))) eng"

definition output_dependencies :: "calc_engine \<Rightarrow> (string \<times> string list) list" where
  "output_dependencies eng = map (\<lambda>r. (kks_calc r, rule_variables r)) eng"

definition engine_is_empty :: "calc_engine \<Rightarrow> bool" where
  "engine_is_empty eng \<longleftrightarrow> eng = []"

section \<open>The evaluation cycle (engine.rs)\<close>

definition u32_MAX_f64 :: f64 where "u32_MAX_f64 = FNum (of_int (2 ^ 32 - 1))"

text \<open>The conversion of the clamped result to the output type.\<close>

definition typed_output :: "calc_data_type \<Rightarrow> eval_value \<Rightarrow> f64 \<Rightarrow> rcd_value" where
  "typed_output dt safe clamped =
     (case dt of
        CD_UInt \<Rightarrow> V_UInt (fp_as_u32 (fp_max clamped (FNum 0)))
      | CD_Bool \<Rightarrow>
          V_Bool (case safe of
                    EV_Bool b \<Rightarrow> if fp_eq clamped (as_f64 safe) then b
                                 else \<not> fp_eq clamped (FNum 0)
                  | _ \<Rightarrow> \<not> fp_eq clamped (FNum 0))
      | CD_Float \<Rightarrow>
          (let f32_max = f32_as_f64 f32_MAX in
           V_Float (if fp_lt f32_max clamped then f32_MAX
                    else if fp_lt clamped (fp_neg f32_max) then fp_neg f32_MAX
                    else f64_as_f32 clamped))
      | CD_Double \<Rightarrow> V_Double clamped)"

text \<open>The body of the loop for one rule: evaluation with its fallbacks, clamping, conversion.\<close>

definition rule_result ::
  "compiled_rule \<Rightarrow> variables \<Rightarrow> validity \<Rightarrow> (rcd_value \<times> bool) option" where
  "rule_result rule vars val =
     (let (raw, ok) = (case evaluate_with_validity (ast rule) vars val of
                         Inr res \<Rightarrow> res
                       | Inl e \<Rightarrow> (EV_Float (default_value rule), False));
          (safe, ok) = (if is_invalid_float raw then (EV_Float (default_value rule), False)
                        else (raw, ok))
      in case fp_clamp (as_f64 safe) (min_limit rule) (max_limit rule) of
           None \<Rightarrow> None
         | Some clamped \<Rightarrow> Some (typed_output (data_type rule) safe clamped, ok))"

fun run_cycle_with_quality ::
  "calc_engine \<Rightarrow> variables \<Rightarrow> validity \<Rightarrow> (string \<times> rcd_value \<times> bool) list option" where
  "run_cycle_with_quality [] vars val = Some []"
| "run_cycle_with_quality (rule # rules) vars val =
     (case rule_result rule vars val of
        None \<Rightarrow> None
      | Some (v, ok) \<Rightarrow>
          map_option ((#) (kks_calc rule, v, ok))
            (run_cycle_with_quality rules
               (vars(kks_calc rule \<mapsto> from_model_value v)) (val(kks_calc rule \<mapsto> ok))))"

definition run_cycle :: "calc_engine \<Rightarrow> variables \<Rightarrow> (string \<times> rcd_value) list option" where
  "run_cycle eng vars =
     map_option (map (\<lambda>(kks, v, _). (kks, v)))
       (run_cycle_with_quality eng vars (\<lambda>x. if vars x = None then None else Some True))"

end
