(* ===== verification/Dependency_Order.thy ===== *)
theory Dependency_Order
  imports Calc_Engine
begin

text \<open>
  Correctness of the topological sort of the calculation engine. The locale \<open>kahn_graph\<close> is what
  Kahn's algorithm needs of its adjacency lists; it is interpreted on the graph that
  \<open>build_graph\<close> builds from any list of rules, and the facts are then read back on rule names.
\<close>

section \<open>Kahn's algorithm on an arbitrary graph\<close>

lemma count_list_update_le:
  assumes "\<forall>y<length deg. count_list (x # xs) y \<le> deg ! y"
  shows "\<forall>y<length (deg[x := deg ! x - 1]). count_list xs y \<le> deg[x := deg ! x - 1] ! y"
proof (intro allI impI)
  fix y
  assume "y < length (deg[x := deg ! x - 1])"
  with assms show "count_list xs y \<le> deg[x := deg ! x - 1] ! y"
    by (cases "y = x") (force simp: nth_list_update)+
qed

lemma relax_spec:
  assumes "set xs \<subseteq> {..<length deg}" and "\<forall>y<length deg. count_list xs y \<le> deg ! y"
  shows "\<exists>news. relax xs deg q = Some (map (\<lambda>y. deg ! y - count_list xs y) [0..<length deg], q @ news)
     \<and> distinct news \<and> set news = {y. y < length deg \<and> 0 < deg ! y \<and> deg ! y = count_list xs y}"
  using assms
proof (induction xs arbitrary: deg q)
  case Nil
  then show ?case by (auto simp: map_nth)
next
  case (Cons x xs)
  let ?deg = "deg[x := deg ! x - 1]"
  let ?q = "if deg ! x - 1 = 0 then q @ [x] else q"
  have x: "x < length deg" "0 < deg ! x" using Cons.prems by force+
  obtain news where news: "relax xs ?deg ?q = Some (map (\<lambda>y. ?deg ! y - count_list xs y) [0..<length ?deg], ?q @ news)"
    "distinct news" "set news = {y. y < length ?deg \<and> 0 < ?deg ! y \<and> ?deg ! y = count_list xs y}"
    using Cons.IH[of ?deg ?q] count_list_update_le[OF Cons.prems(2)] Cons.prems(1) by auto
  let ?news = "if deg ! x - 1 = 0 then x # news else news"
  have cx: "count_list xs x \<le> deg ! x - 1" using Cons.prems(2) x by fastforce
  have "map (\<lambda>y. ?deg ! y - count_list xs y) [0..<length ?deg]
      = map (\<lambda>y. deg ! y - count_list (x # xs) y) [0..<length deg]"
    by (auto simp: nth_list_update)
  then have "relax (x # xs) deg q
      = Some (map (\<lambda>y. deg ! y - count_list (x # xs) y) [0..<length deg], q @ ?news)"
    using x news(1) by (simp add: Let_def)
  moreover have "distinct ?news"
    using news(2,3) x by (auto simp: nth_list_update)
  moreover have "y \<in> set ?news \<longleftrightarrow> y < length deg \<and> 0 < deg ! y \<and> deg ! y = count_list (x # xs) y" for y
    using x cx by (cases "y = x") (simp_all add: news(3), linarith)
  then have "set ?news = {y. y < length deg \<and> 0 < deg ! y \<and> deg ! y = count_list (x # xs) y}"
    by blast
  ultimately show ?case by blast
qed

lemma length_filter_remove1:
  assumes "i \<notin> S"
  shows "length (filter (\<lambda>j. j \<notin> insert i S) xs) = length (filter (\<lambda>j. j \<notin> S) xs) - count_list xs i"
    and "count_list xs i \<le> length (filter (\<lambda>j. j \<notin> S) xs)"
proof -
  have "length (filter (\<lambda>j. j \<notin> insert i S) xs) + count_list xs i = length (filter (\<lambda>j. j \<notin> S) xs)"
    using assms by (induction xs) auto
  then show "length (filter (\<lambda>j. j \<notin> insert i S) xs) = length (filter (\<lambda>j. j \<notin> S) xs) - count_list xs i"
    and "count_list xs i \<le> length (filter (\<lambda>j. j \<notin> S) xs)" by linarith+
qed

text \<open>
  \<open>deps i\<close> are the nodes that have to precede \<open>i\<close>, with repetitions; the adjacency lists hold
  the same edges the other way round.
\<close>

locale kahn_graph =
  fixes n :: nat and adj :: "nat list list" and deps :: "nat \<Rightarrow> nat list"
  assumes len: "length adj = n"
    and adj_range: "\<And>j. j < n \<Longrightarrow> set (adj ! j) \<subseteq> {..<n}"
    and deps_range: "\<And>i. i < n \<Longrightarrow> set (deps i) \<subseteq> {..<n}"
    and edges: "\<And>i j. i < n \<Longrightarrow> j < n \<Longrightarrow> count_list (adj ! j) i = count_list (deps i) j"
begin

definition kinv :: "nat list \<Rightarrow> nat list \<Rightarrow> nat list \<Rightarrow> bool" where
  "kinv q deg order \<longleftrightarrow>
     length deg = n \<and> distinct (order @ q) \<and> set (order @ q) \<subseteq> {..<n} \<and>
     (\<forall>i<n. deg ! i = length (filter (\<lambda>j. j \<notin> set order) (deps i))) \<and>
     (\<forall>i<n. i \<in> set (order @ q) \<longleftrightarrow> deg ! i = 0) \<and>
     (\<forall>k<length order. set (deps (order ! k)) \<subseteq> set (take k order))"

lemma kinv_init:
  "kinv (filter (\<lambda>i. map (\<lambda>i. length (deps i)) [0..<n] ! i = 0) [0..<n])
     (map (\<lambda>i. length (deps i)) [0..<n]) []"
  by (auto simp: kinv_def)

lemma kinv_step:
  assumes inv: "kinv (i # q) deg order"
  obtains deg' q' where "relax (adj ! i) deg q = Some (deg', q')" and "kinv q' deg' (order @ [i])"
proof -
  have i: "i < n" "i \<notin> set order" and len_deg: "length deg = n"
    and deg: "\<And>x. x < n \<Longrightarrow> deg ! x = length (filter (\<lambda>j. j \<notin> set order) (deps x))"
    and zero: "\<And>x. x < n \<Longrightarrow> x \<in> set (order @ i # q) \<longleftrightarrow> deg ! x = 0"
    using inv by (auto simp: kinv_def)
  let ?c = "\<lambda>x. count_list (adj ! i) x"
  have c: "?c x = count_list (deps x) i" if "x < n" for x using edges[OF that i(1)] .
  have le: "?c x \<le> deg ! x" if "x < n" for x
    using length_filter_remove1(2)[OF i(2)] that by (simp add: c deg)
  let ?deg = "map (\<lambda>y. deg ! y - ?c y) [0..<length deg]"
  obtain news where r: "relax (adj ! i) deg q = Some (?deg, q @ news)"
    and news: "distinct news" "set news = {y. y < n \<and> 0 < deg ! y \<and> deg ! y = ?c y}"
    using relax_spec[of "adj ! i" deg q] adj_range[OF i(1)] le by (auto simp: len_deg)
  have new_deg: "?deg ! x = length (filter (\<lambda>j. j \<notin> set (order @ [i])) (deps x))" if "x < n" for x
    using length_filter_remove1(1)[OF i(2), of "deps x"] that by (simp add: len_deg c deg)
  have mem: "x \<in> set ((order @ [i]) @ q @ news) \<longleftrightarrow> ?deg ! x = 0" if "x < n" for x
    using zero[OF that] that le[OF that] by (auto simp: news len_deg)
  have "set (deps i) \<subseteq> set order"
    using zero[OF i(1)] deg[OF i(1)] by (auto simp: filter_empty_conv)
  then have "set (deps ((order @ [i]) ! k)) \<subseteq> set (take k (order @ [i]))" if "k < length (order @ [i])" for k
    using inv that by (cases "k = length order") (auto simp: kinv_def nth_append)
  moreover have "distinct ((order @ [i]) @ q @ news)"
    using inv news zero by (auto simp: kinv_def)
  moreover have "set ((order @ [i]) @ q @ news) \<subseteq> {..<n}"
    using inv news by (auto simp: kinv_def)
  ultimately have "kinv (q @ news) ?deg (order @ [i])"
    using new_deg mem len_deg unfolding kinv_def by simp
  with r that show thesis by blast
qed

lemma kahn_inv:
  "a = adj \<Longrightarrow> kinv q deg order \<Longrightarrow>
     \<exists>order' deg'. kahn a q deg order = Some (order', deg') \<and> kinv [] deg' order'"
proof (induction a q deg order rule: kahn.induct)
  case (2 a i q deg order)
  obtain deg' q' where r: "relax (adj ! i) deg q = Some (deg', q')" "kinv q' deg' (order @ [i])"
    using kinv_step[OF 2(3)] .
  have "i < length adj" using 2(3) by (auto simp: kinv_def len)
  with 2 r show ?case by simp
qed simp

text \<open>The result is a duplicate-free order in which every node follows its dependencies.\<close>

theorem kahn_correct:
  obtains order deg' where
    "kahn adj (filter (\<lambda>i. map (\<lambda>i. length (deps i)) [0..<n] ! i = 0) [0..<n])
       (map (\<lambda>i. length (deps i)) [0..<n]) [] = Some (order, deg')"
    and "distinct order" and "set order \<subseteq> {..<n}"
    and "\<And>k. k < length order \<Longrightarrow> set (deps (order ! k)) \<subseteq> set (take k order)"
    and "\<And>i. i < n \<Longrightarrow> set (deps i) \<subseteq> set order \<Longrightarrow> i \<in> set order"
proof -
  obtain order deg' where k: "kahn adj (filter (\<lambda>i. map (\<lambda>i. length (deps i)) [0..<n] ! i = 0) [0..<n])
       (map (\<lambda>i. length (deps i)) [0..<n]) [] = Some (order, deg')" and inv: "kinv [] deg' order"
    using kahn_inv[OF refl kinv_init] by blast
  have "i \<in> set order" if "i < n" "set (deps i) \<subseteq> set order" for i
  proof -
    have "filter (\<lambda>j. j \<notin> set order) (deps i) = []" using that by (auto simp: filter_empty_conv)
    with inv that show ?thesis by (auto simp: kinv_def)
  qed
  with k inv that show thesis by (auto simp: kinv_def)
qed

end

section \<open>The graph of a list of rules\<close>

definition dep_indices :: "(string \<rightharpoonup> nat) \<Rightarrow> compiled_rule \<Rightarrow> nat list" where
  "dep_indices idx r = List.map_filter idx (rule_variables r)"

lemma name_to_idx_Some:
  assumes "name_to_idx rules v = Some j"
  shows "j < length rules" and "kks_calc (rules ! j) = v"
proof -
  have "(v, j) \<in> set (zip (map kks_calc rules) [0..<length rules])"
    using map_of_SomeD[OF assms[unfolded name_to_idx_def]] by simp
  then show "j < length rules" and "kks_calc (rules ! j) = v" by (auto simp: set_zip)
qed

lemma name_to_idx_None: "name_to_idx rules v = None \<longleftrightarrow> v \<notin> kks_calc ` set rules"
proof -
  have "fst ` set (zip (map kks_calc rules) [0..<length rules]) = kks_calc ` set rules"
    by (simp flip: set_map)
  then show ?thesis by (simp add: name_to_idx_def map_of_eq_None_iff)
qed

lemma count_list_replicate: "count_list (replicate m x) y = (if x = y then m else 0)"
  by (induction m) auto

lemma add_edges_spec:
  assumes "add_edges idx i vs (adj, deg) = (adj', deg')"
    and "\<And>v j. idx v = Some j \<Longrightarrow> j < length adj" and "i < length deg"
  shows "length adj' = length adj \<and> deg' = deg[i := deg ! i + length (List.map_filter idx vs)] \<and>
    (\<forall>j<length adj. adj' ! j = adj ! j @ replicate (count_list (List.map_filter idx vs) j) i)"
  using assms
proof (induction vs arbitrary: adj deg)
  case Nil
  then show ?case by (simp add: map_filter_def)
next
  case (Cons v vs)
  show ?case
  proof (cases "idx v")
    case None
    with Cons show ?thesis by (simp add: map_filter_def)
  next
    case (Some d)
    then have "d < length adj" using Cons.prems by blast
    with Cons.IH[of "adj[d := adj ! d @ [i]]" "deg[i := deg ! i + 1]"] Cons.prems Some
    show ?thesis by (auto simp: map_filter_def nth_list_update replicate_app_Cons_same)
  qed
qed

lemma build_graph_spec:
  assumes "build_graph idx i rs (adj, deg) = (adj', deg')"
    and "\<And>v j. idx v = Some j \<Longrightarrow> j < length adj" and "i + length rs \<le> length deg"
  shows "length adj' = length adj \<and> length deg' = length deg \<and>
    (\<forall>k<length deg. deg' ! k = deg ! k + (if i \<le> k \<and> k < i + length rs then length (dep_indices idx (rs ! (k - i))) else 0)) \<and>
    (\<forall>j<length adj. \<forall>k. count_list (adj' ! j) k = count_list (adj ! j) k +
       (if i \<le> k \<and> k < i + length rs then count_list (dep_indices idx (rs ! (k - i))) j else 0))"
  using assms
proof (induction rs arbitrary: i adj deg)
  case (Cons r rs)
  obtain adj1 deg1 where e: "add_edges idx i (rule_variables r) (adj, deg) = (adj1, deg1)"
    by (cases "add_edges idx i (rule_variables r) (adj, deg)")
  have 1: "length adj1 = length adj" "deg1 = deg[i := deg ! i + length (dep_indices idx r)]"
    "\<forall>j<length adj. adj1 ! j = adj ! j @ replicate (count_list (dep_indices idx r) j) i"
    using add_edges_spec[OF e Cons.prems(2)] Cons.prems(3) by (auto simp: dep_indices_def)
  have 2: "length adj' = length adj1 \<and> length deg' = length deg1 \<and>
    (\<forall>k<length deg1. deg' ! k = deg1 ! k + (if i + 1 \<le> k \<and> k < i + 1 + length rs then length (dep_indices idx (rs ! (k - (i + 1)))) else 0)) \<and>
    (\<forall>j<length adj1. \<forall>k. count_list (adj' ! j) k = count_list (adj1 ! j) k +
       (if i + 1 \<le> k \<and> k < i + 1 + length rs then count_list (dep_indices idx (rs ! (k - (i + 1)))) j else 0))"
    by (rule Cons.IH) (use Cons.prems e 1 in auto)
  show ?case
  proof (intro conjI allI impI)
    fix k assume "k < length deg"
    with 1 2 show "deg' ! k = deg ! k + (if i \<le> k \<and> k < i + length (r # rs) then length (dep_indices idx ((r # rs) ! (k - i))) else 0)"
      by (cases "k = i") (auto simp: nth_Cons')
  next
    fix j k assume "j < length adj"
    with 1 2 show "count_list (adj' ! j) k = count_list (adj ! j) k +
       (if i \<le> k \<and> k < i + length (r # rs) then count_list (dep_indices idx ((r # rs) ! (k - i))) j else 0)"
      by (cases "k = i") (auto simp: nth_Cons' count_list_append count_list_replicate)
  qed (use 1 2 in auto)
qed auto

definition rule_graph :: "compiled_rule list \<Rightarrow> nat list list \<times> nat list" where
  "rule_graph rules = build_graph (name_to_idx rules) 0 rules
     (replicate (length rules) [], replicate (length rules) 0)"

definition rule_deps :: "compiled_rule list \<Rightarrow> nat \<Rightarrow> nat list" where
  "rule_deps rules i = dep_indices (name_to_idx rules) (rules ! i)"

lemma rule_graph_spec:
  shows "length (fst (rule_graph rules)) = length rules"
    and "snd (rule_graph rules) = map (\<lambda>i. length (rule_deps rules i)) [0..<length rules]"
    and "j < length rules \<Longrightarrow>
      count_list (fst (rule_graph rules) ! j) k = (if k < length rules then count_list (rule_deps rules k) j else 0)"
proof -
  obtain adj deg where g: "rule_graph rules = (adj, deg)" by fastforce
  have "length adj = length rules \<and> length deg = length rules \<and>
    (\<forall>k<length rules. deg ! k = length (rule_deps rules k)) \<and>
    (\<forall>j<length rules. \<forall>k. count_list (adj ! j) k = (if k < length rules then count_list (rule_deps rules k) j else 0))"
    using build_graph_spec[OF g[unfolded rule_graph_def]] name_to_idx_Some(1)[of rules]
    by (simp add: rule_deps_def)
  then show "length (fst (rule_graph rules)) = length rules"
    and "snd (rule_graph rules) = map (\<lambda>i. length (rule_deps rules i)) [0..<length rules]"
    and "j < length rules \<Longrightarrow>
      count_list (fst (rule_graph rules) ! j) k = (if k < length rules then count_list (rule_deps rules k) j else 0)"
    by (auto simp: g intro: nth_equalityI)
qed

lemma set_rule_deps:
  "set (rule_deps rules i) = {j. \<exists>v\<in>set (rule_variables (rules ! i)). name_to_idx rules v = Some j}"
  by (auto simp: rule_deps_def dep_indices_def map_filter_def) force+

interpretation rg: kahn_graph "length rules" "fst (rule_graph rules)" "rule_deps rules" for rules
proof
  fix j assume j: "j < length rules"
  show "set (fst (rule_graph rules) ! j) \<subseteq> {..<length rules}"
    using rule_graph_spec(3)[OF j] by (metis count_list_0_iff lessThan_iff subsetI)
next
  fix i assume "i < length rules"
  show "set (rule_deps rules i) \<subseteq> {..<length rules}"
    using name_to_idx_Some(1) by (auto simp: set_rule_deps)
qed (simp_all add: rule_graph_spec)

lemma take_rules_spec:
  assumes "distinct order" and "\<And>i. i \<in> set order \<Longrightarrow> i < length opts \<and> opts ! i = Some (f i)"
  shows "take_rules order opts = Some (map f order)"
  using assms
proof (induction order arbitrary: opts)
  case (Cons i order)
  then have "take_rules order (opts[i := None]) = Some (map f order)"
    by (intro Cons.IH) (auto simp: nth_list_update)
  with Cons.prems(2)[of i] show ?case by simp
qed simp

section \<open>Rules that depend on no cycle\<close>

definition depends :: "compiled_rule list \<Rightarrow> (string \<times> string) set" where
  "depends rules = {(kks_calc r, v) |r v. r \<in> set rules \<and> v \<in> set (rule_variables r) \<and> v \<in> kks_calc ` set rules}"

text \<open>A rule is cyclic when following its dependencies can lead into a cycle.\<close>

definition reaches_cycle :: "compiled_rule list \<Rightarrow> string \<Rightarrow> bool" where
  "reaches_cycle rules x \<longleftrightarrow> (\<exists>y. (x, y) \<in> (depends rules)\<^sup>* \<and> (y, y) \<in> (depends rules)\<^sup>+)"

lemma finite_depends: "finite (depends rules)"
proof -
  have "depends rules \<subseteq> kks_calc ` set rules \<times> kks_calc ` set rules"
    by (auto simp: depends_def)
  then show ?thesis by (rule finite_subset) simp
qed

lemma reaches_cycle_step:
  "(x, y) \<in> depends rules \<Longrightarrow> reaches_cycle rules y \<Longrightarrow> reaches_cycle rules x"
  unfolding reaches_cycle_def by (meson converse_rtrancl_into_rtrancl)

text \<open>Dependencies that reach no cycle can be used for induction.\<close>

lemma acyclic_induct:
  assumes "\<not> reaches_cycle rules x"
    and step: "\<And>x. (\<And>y. (x, y) \<in> depends rules \<Longrightarrow> P y) \<Longrightarrow> P x"
  shows "P x"
proof -
  define R where "R = {(x, y) \<in> depends rules. \<not> reaches_cycle rules x}"
  have sub: "R \<subseteq> depends rules" by (auto simp: R_def)
  have "(y, y) \<notin> R\<^sup>+" for y
  proof
    assume c: "(y, y) \<in> R\<^sup>+"
    then have "\<not> reaches_cycle rules y" by (induction rule: converse_trancl_induct) (auto simp: R_def)
    moreover have "(y, y) \<in> (depends rules)\<^sup>+" using c trancl_mono sub by blast
    ultimately show False by (auto simp: reaches_cycle_def)
  qed
  then have "wf (R\<inverse>)"
    using finite_depends[of rules] finite_subset[OF sub] by (intro finite_acyclic_wf_converse) (auto simp: acyclic_def)
  then have "\<not> reaches_cycle rules x \<longrightarrow> P x"
  proof (induction x rule: wf_induct_rule)
    case (less x)
    show ?case
    proof
      assume x: "\<not> reaches_cycle rules x"
      show "P x"
      proof (rule step)
        fix y assume "(x, y) \<in> depends rules"
        with x less show "P y" by (auto simp: R_def dest: reaches_cycle_step)
      qed
    qed
  qed
  with assms(1) show ?thesis by blast
qed

lemma ordered_not_cyclic:
  assumes "\<And>k. k < length xs \<Longrightarrow> (\<forall>y. (xs ! k, y) \<in> depends rules \<longrightarrow> y \<in> set (take k xs))"
    and "distinct xs" and "x \<in> set xs"
  shows "\<not> reaches_cycle rules x"
proof -
  define pos where "pos = (\<lambda>x. THE k. k < length xs \<and> xs ! k = x)"
  have pos: "pos (xs ! k) = k" if "k < length xs" for k
    using that \<open>distinct xs\<close> unfolding pos_def by (auto simp: nth_eq_iff_index_eq)
  have step: "y \<in> set xs \<and> pos y < pos x" if x: "x \<in> set xs" "(x, y) \<in> depends rules" for x y
  proof -
    obtain k where k: "k < length xs" "x = xs ! k" using x(1) by (auto simp: in_set_conv_nth)
    with assms(1) x(2) obtain l where "l < k" "y = xs ! l" by (force simp: in_set_conv_nth)
    with k pos show ?thesis by auto
  qed
  have "y \<in> set xs" if "(x, y) \<in> (depends rules)\<^sup>*" for y
    using that assms(3) by (induction rule: rtrancl_induct) (auto dest: step)
  moreover have "y' \<in> set xs \<and> pos y' < pos y" if "(y, y') \<in> (depends rules)\<^sup>+" "y \<in> set xs" for y y'
    using that by (induction rule: trancl_induct) (auto dest: step)
  ultimately show ?thesis by (fastforce simp: reaches_cycle_def)
qed

lemma acyclic_in_order:
  assumes closed: "\<And>i. i < length rules \<Longrightarrow> set (rule_deps rules i) \<subseteq> S \<Longrightarrow> i \<in> S"
    and "\<not> reaches_cycle rules (kks_calc (rules ! i))" and "i < length rules"
  shows "i \<in> S"
proof -
  have "\<forall>i<length rules. kks_calc (rules ! i) = kks_calc (rules ! i') \<longrightarrow> i \<in> S"
    if "\<not> reaches_cycle rules (kks_calc (rules ! i'))" for i'
    using that
  proof (rule acyclic_induct)
    fix x assume IH: "\<And>y. (x, y) \<in> depends rules \<Longrightarrow> \<forall>i<length rules. kks_calc (rules ! i) = y \<longrightarrow> i \<in> S"
    show "\<forall>i<length rules. kks_calc (rules ! i) = x \<longrightarrow> i \<in> S"
    proof (intro allI impI, rule closed, assumption, rule subsetI)
      fix i j assume i: "i < length rules" "kks_calc (rules ! i) = x" and "j \<in> set (rule_deps rules i)"
      then obtain v where v: "v \<in> set (rule_variables (rules ! i))" "name_to_idx rules v = Some j"
        by (auto simp: set_rule_deps)
      have "(x, v) \<in> depends rules"
        using i v name_to_idx_None[of rules v] by (auto simp: depends_def intro!: exI[of _ "rules ! i"])
      with IH name_to_idx_Some[OF v(2)] show "j \<in> S" by blast
    qed
  qed
  with assms show ?thesis by blast
qed

lemma sorted_not_cyclic:
  assumes names: "distinct (map kks_calc rules)" and dist: "distinct (map kks_calc srt)"
    and sub: "set srt \<subseteq> set rules"
    and r: "r \<in> set srt"
    and ord: "\<And>k v. k < length srt \<Longrightarrow> v \<in> set (rule_variables (srt ! k)) \<Longrightarrow>
           v \<in> kks_calc ` set rules \<Longrightarrow> v \<in> kks_calc ` set (take k srt)"
  shows "\<not> reaches_cycle rules (kks_calc r)"
proof (rule ordered_not_cyclic[OF _ dist])
  show "kks_calc r \<in> set (map kks_calc srt)" using r by simp
  fix k assume k: "k < length (map kks_calc srt)"
  show "\<forall>y. (map kks_calc srt ! k, y) \<in> depends rules \<longrightarrow> y \<in> set (take k (map kks_calc srt))"
  proof (intro allI impI)
    fix y assume "(map kks_calc srt ! k, y) \<in> depends rules"
    then obtain r where r: "r \<in> set rules" "kks_calc r = kks_calc (srt ! k)"
      "y \<in> set (rule_variables r)" "y \<in> kks_calc ` set rules" using k by (auto simp: depends_def)
    have "srt ! k \<in> set rules" using k sub by (auto dest: nth_mem)
    with r names have "r = srt ! k" by (auto simp: distinct_map inj_on_def)
    with r k ord[of k y] show "y \<in> set (take k (map kks_calc srt))" by (simp add: take_map)
  qed
qed

lemma topological_sort_graph:
  "topological_sort rules =
     (case kahn (fst (rule_graph rules)) (filter (\<lambda>i. snd (rule_graph rules) ! i = 0) [0..<length rules])
             (snd (rule_graph rules)) [] of
        None \<Rightarrow> None
      | Some (order, _) \<Rightarrow> take_rules order (map Some rules))"
  by (simp add: topological_sort_def rule_graph_def Let_def split_beta)

text \<open>The sort returns, and keeps, in dependency order, exactly the rules that reach no cycle.\<close>

theorem topological_sort_spec:
  assumes "distinct (map kks_calc rules)"
  obtains sorted where "topological_sort rules = Some sorted"
    and "distinct (map kks_calc sorted)"
    and "set sorted = {r \<in> set rules. \<not> reaches_cycle rules (kks_calc r)}"
    and "\<And>k v. k < length sorted \<Longrightarrow> v \<in> set (rule_variables (sorted ! k)) \<Longrightarrow>
           v \<in> kks_calc ` set rules \<Longrightarrow> v \<in> kks_calc ` set (take k sorted)"
proof -
  obtain order deg' where kahn: "kahn (fst (rule_graph rules)) (filter (\<lambda>i. snd (rule_graph rules) ! i = 0) [0..<length rules])
             (snd (rule_graph rules)) [] = Some (order, deg')"
    and order: "distinct order" "set order \<subseteq> {..<length rules}"
    and before: "\<And>k. k < length order \<Longrightarrow> set (rule_deps rules (order ! k)) \<subseteq> set (take k order)"
    and closed: "\<And>i. i < length rules \<Longrightarrow> set (rule_deps rules i) \<subseteq> set order \<Longrightarrow> i \<in> set order"
    using rg.kahn_correct[of rules, folded rule_graph_spec(2)] by blast
  define sorted where "sorted = map ((!) rules) order"
  have idx: "order ! k < length rules" if "k < length order" for k
    using order(2) that by (auto dest: nth_mem)
  have sort: "topological_sort rules = Some sorted"
    using take_rules_spec[OF order(1), of "map Some rules" "(!) rules"] order(2)
    by (simp add: topological_sort_graph kahn sorted_def subset_iff)
  have inj: "inj_on (\<lambda>i. kks_calc (rules ! i)) {..<length rules}"
    using assms by (auto simp: distinct_conv_nth inj_on_def)
  have dist: "distinct (map kks_calc sorted)"
    using order inj by (auto simp: sorted_def distinct_map o_def intro: inj_on_subset)
  have ord: "v \<in> kks_calc ` set (take k sorted)"
    if k: "k < length sorted" and v: "v \<in> set (rule_variables (sorted ! k))" "v \<in> kks_calc ` set rules" for k v
  proof -
    obtain j where j: "name_to_idx rules v = Some j" using v(2) name_to_idx_None[of rules v] by auto
    with k v before[of k] have "j \<in> set (take k order)" by (auto simp: sorted_def set_rule_deps)
    with name_to_idx_Some[OF j] show ?thesis by (force simp: sorted_def take_map)
  qed
  have sub: "set sorted \<subseteq> set rules" using order(2) by (auto simp: sorted_def)
  have "r \<in> set sorted" if "r \<in> set rules" "\<not> reaches_cycle rules (kks_calc r)" for r
    using that acyclic_in_order[OF closed] by (auto simp: sorted_def in_set_conv_nth)
  moreover have "\<not> reaches_cycle rules (kks_calc r)" if "r \<in> set sorted" for r
    by (rule sorted_not_cyclic[OF assms dist sub that]) (rule ord)
  ultimately have "set sorted = {r \<in> set rules. \<not> reaches_cycle rules (kks_calc r)}" using sub by blast
  with sort dist ord that show thesis by blast
qed

end
