(* ===== verification/Calc_Cycle.thy ===== *)
theory Calc_Cycle
  imports Dependency_Order
begin

text \<open>
  Correctness of the evaluation cycle of the calculation engine and the runner that feeds it
  (\<open>src/src/calc_engine/runner.rs\<close>): engines built by \<open>engine_new\<close> never panic, deliver one
  output of the declared type per rule, and their outputs solve all formulas at once.
\<close>

section \<open>The runner (runner.rs)\<close>

record calc_runner =
  engine :: calc_engine
  global_vars :: variables
  valid_vars :: validity

definition runner_new :: "calc_engine \<Rightarrow> calc_runner" where
  "runner_new eng = \<lparr>engine = eng, global_vars = Map.empty, valid_vars = Map.empty\<rparr>"

text \<open>
  The loop over the values of one device status. The values are a \<open>HashMap\<close>, every key is visited
  once, so the insertions commute and amount to an override.
\<close>

definition absorb_status :: "device_status \<Rightarrow> calc_runner \<Rightarrow> calc_runner" where
  "absorb_status st run =
     (let valid = ds_com_status st \<and> ds_device_status st
      in run\<lparr>global_vars := global_vars run ++ (\<lambda>kks. map_option from_model_value (ds_value st kks)),
             valid_vars := valid_vars run ++ (\<lambda>kks. map_option (\<lambda>_. valid) (ds_value st kks))\<rparr>)"

type_synonym cycle_output = "(string \<times> rcd_value \<times> bool) list"

definition run_with_quality :: "calc_runner \<Rightarrow> cycle_output option" where
  "run_with_quality run = run_cycle_with_quality (engine run) (global_vars run) (valid_vars run)"

definition rebuild_from_statuses_with_quality ::
  "device_status list \<Rightarrow> calc_runner \<Rightarrow> cycle_output option \<times> calc_runner" where
  "rebuild_from_statuses_with_quality statuses run =
     (let run = run\<lparr>global_vars := Map.empty, valid_vars := Map.empty\<rparr> in
      if engine_is_empty (engine run) then (Some [], run)
      else let run = foldl (\<lambda>run st. absorb_status st run) run statuses
           in (run_with_quality run, run))"

definition on_update_with_quality ::
  "device_status \<Rightarrow> calc_runner \<Rightarrow> cycle_output option \<times> calc_runner" where
  "on_update_with_quality st run =
     (if engine_is_empty (engine run) then (Some [], run)
      else let run = absorb_status st run in (run_with_quality run, run))"

definition drop_quality :: "cycle_output \<Rightarrow> (string \<times> rcd_value) list" where
  "drop_quality = map (\<lambda>(kks, v, _). (kks, v))"

definition rebuild_from_statuses ::
  "device_status list \<Rightarrow> calc_runner \<Rightarrow> (string \<times> rcd_value) list option \<times> calc_runner" where
  "rebuild_from_statuses statuses run =
     apfst (map_option drop_quality) (rebuild_from_statuses_with_quality statuses run)"

definition on_update ::
  "device_status \<Rightarrow> calc_runner \<Rightarrow> (string \<times> rcd_value) list option \<times> calc_runner" where
  "on_update st run = apfst (map_option drop_quality) (on_update_with_quality st run)"

section \<open>Engines that the constructor builds\<close>

definition rule_ok :: "compiled_rule \<Rightarrow> bool" where
  "rule_ok r \<longleftrightarrow> is_finite (min_limit r) \<and> is_finite (max_limit r) \<and> is_finite (default_value r)
     \<and> fp_le (min_limit r) (max_limit r)
     \<and> rule_variables r = extract_variables (ast r) \<and> kks_calc r \<notin> set (rule_variables r)"

lemma compile_rule_ok: "compile_rule rule = Ok r \<Longrightarrow> rule_ok r"
  by (auto simp: compile_rule_def rule_ok_def Let_def fp_not_gt split: if_splits)

lemma compile_all_ok:
  "list_all rule_ok compiled \<Longrightarrow> distinct (map kks_calc compiled) \<Longrightarrow>
     list_all rule_ok (compile_all rules compiled) \<and> distinct (map kks_calc (compile_all rules compiled))"
proof (induction rules compiled rule: compile_all.induct)
  case (2 rule rules compiled)
  show ?case
  proof (cases "compile_rule rule")
    case (Inl e)
    with 2 show ?thesis by simp
  next
    case (Inr cr)
    have "list_ex (\<lambda>existing. kks_calc existing = kks_calc cr) compiled \<longleftrightarrow> kks_calc cr \<in> kks_calc ` set compiled"
      by (metis (mono_tags, lifting) image_iff list_ex_iff)
    with 2 Inr compile_rule_ok[OF Inr] show ?thesis by auto
  qed
qed simp

text \<open>No rule uses its own output or that of a later rule.\<close>

fun well_ordered :: "compiled_rule list \<Rightarrow> bool" where
  "well_ordered [] = True"
| "well_ordered (r # rs) = (set (rule_variables r) \<inter> kks_calc ` set (r # rs) = {} \<and> well_ordered rs)"

definition engine_ok :: "calc_engine \<Rightarrow> bool" where
  "engine_ok eng \<longleftrightarrow> list_all rule_ok eng \<and> distinct (map kks_calc eng) \<and> well_ordered eng"

lemma well_ordered_iff:
  "well_ordered rs \<longleftrightarrow>
     (\<forall>k<length rs. set (rule_variables (rs ! k)) \<inter> kks_calc ` set (drop k rs) = {})"
proof (induction rs)
  case (Cons r rs)
  then show ?case by (auto simp: All_less_Suc2)
qed simp

lemma well_orderedI:
  assumes "distinct (map kks_calc rs)"
    and "\<And>k v. k < length rs \<Longrightarrow> v \<in> set (rule_variables (rs ! k)) \<Longrightarrow>
           v \<in> kks_calc ` set rs \<Longrightarrow> v \<in> kks_calc ` set (take k rs)"
  shows "well_ordered rs"
  unfolding well_ordered_iff
proof (intro allI impI equals0I)
  fix k v assume k: "k < length rs" and "v \<in> set (rule_variables (rs ! k)) \<inter> kks_calc ` set (drop k rs)"
  then have v: "v \<in> set (rule_variables (rs ! k))" "v \<in> kks_calc ` set (drop k rs)" by auto
  then have "v \<in> kks_calc ` set rs" using set_drop_subset[of k rs] by blast
  with assms(2) k v have "v \<in> kks_calc ` set (take k rs)" by blast
  moreover have "distinct (map kks_calc (take k rs) @ map kks_calc (drop k rs))"
    using assms(1) by (metis append_take_drop_id map_append)
  ultimately show False using v(2) by auto
qed

theorem engine_new_spec:
  obtains eng where "engine_new cfg = Some eng" and "engine_ok eng"
    and "set eng = {r \<in> set (compile_all cfg []). \<not> reaches_cycle (compile_all cfg []) (kks_calc r)}"
proof (cases "cfg = [] \<or> compile_all cfg [] = []")
  case True
  then show thesis by (intro that[of "[]"]) (auto simp: engine_new_def engine_ok_def)
next
  case False
  let ?c = "compile_all cfg []"
  have c: "list_all rule_ok ?c" "distinct (map kks_calc ?c)"
    using compile_all_ok[of "[]" cfg] by simp_all
  obtain srt where s: "topological_sort ?c = Some srt" "distinct (map kks_calc srt)"
    "set srt = {r \<in> set ?c. \<not> reaches_cycle ?c (kks_calc r)}"
    and ord: "\<And>k v. k < length srt \<Longrightarrow> v \<in> set (rule_variables (srt ! k)) \<Longrightarrow>
           v \<in> kks_calc ` set ?c \<Longrightarrow> v \<in> kks_calc ` set (take k srt)"
    using topological_sort_spec[OF c(2)] by blast
  have "well_ordered srt"
    using s(3) by (intro well_orderedI s(2) ord) auto
  then have "engine_ok srt" using s c by (auto simp: engine_ok_def list_all_iff)
  with False s show thesis by (intro that[of srt]) (auto simp: engine_new_def Let_def)
qed

section \<open>One rule\<close>

lemma i64_as_f64_finite: "is_finite (i64_as_f64 n)"
proof -
  have "representable binary64 (of_int 1 * 2 powi 63)"
    by (rule representableI) (simp_all add: binary64_def)
  then have r: "representable binary64 (2 ^ 63)" by simp
  have "\<bar>sint n\<bar> \<le> 2 ^ 63" using sint_ge[of n] sint_lt[of n] by simp
  then have "\<bar>of_int (sint n) :: rat\<bar> \<le> 2 ^ 63"
    by (metis of_int_abs of_int_le_iff of_int_numeral of_int_power)
  from fp_of_rat_bounded[OF this r, of False] show ?thesis
    by (auto simp: i64_as_f64_def fp_of_int_def)
qed

lemma as_f64_finite: "\<not> is_invalid_float v \<Longrightarrow> is_finite (as_f64 v)"
proof (cases v)
  case (EV_Float f)
  then show "\<not> is_invalid_float v \<Longrightarrow> is_finite (as_f64 v)" by (cases f) simp_all
qed (simp_all add: i64_as_f64_finite)

text \<open>
  The promise of a rule about its output: a finite value inside the limits, in the declared type. A
  \<open>Double\<close> is that value itself; a \<open>UInt\<close> is its integer part, from 0 up to the largest 32-bit number; a
  \<open>Bool\<close> says whether it differs from zero; a \<open>Float\<close> is that value rounded, or the largest single
  precision number with its sign. So the limits bind before the conversion: a \<open>UInt\<close> with the limits 0.3
  and 0.7 is 0.
\<close>

definition within_limits :: "compiled_rule \<Rightarrow> f64 \<Rightarrow> bool" where
  "within_limits r c \<longleftrightarrow> is_finite c \<and> fp_le (min_limit r) c \<and> fp_le c (max_limit r)"

fun output_ok :: "compiled_rule \<Rightarrow> rcd_value \<Rightarrow> bool" where
  "output_ok r (V_UInt n) = (data_type r = CD_UInt
     \<and> (\<exists>c. within_limits r c \<and> uint n = fp_to_int_sat 0 (2 ^ 32 - 1) (fp_max c (FNum 0))))"
| "output_ok r (V_Bool b) = (data_type r = CD_Bool \<and> (\<exists>c. within_limits r c \<and> b = (\<not> fp_eq c (FNum 0))))"
| "output_ok r (V_Float f) = (data_type r = CD_Float \<and> is_finite f \<and> wf_fp binary32 f
     \<and> (\<exists>c. within_limits r c
          \<and> f = (if fp_lt f32_MAX c then f32_MAX else if fp_lt c (fp_neg f32_MAX) then fp_neg f32_MAX else f64_as_f32 c)))"
| "output_ok r (V_Double f) = (data_type r = CD_Double \<and> within_limits r f)"

lemma fp_eq_bool: "fp_eq c (as_f64 (EV_Bool b)) \<Longrightarrow> b = (\<not> fp_eq c (FNum 0))"
  by (cases c) (auto split: if_splits)

lemma typed_output_ok:
  assumes "within_limits r c"
  shows "output_ok r (typed_output (data_type r) safe c)"
proof (cases "data_type r")
  case CD_UInt
  have "uint (fp_as_u32 x) = fp_to_int_sat 0 (2 ^ 32 - 1) x" for x
    using fp_to_int_sat_bounds[of 0 "2 ^ 32 - 1" x] by (simp add: fp_as_u32_def uint_word_of_int)
  with CD_UInt assms show ?thesis by (auto simp: typed_output_def)
next
  case CD_Bool
  with assms show ?thesis using fp_eq_bool[of c]
    by (auto simp: typed_output_def simp del: as_f64.simps intro!: exI[of _ c] split: eval_value.split)
next
  case CD_Float
  have m: "is_finite f32_MAX" "is_finite (fp_neg f32_MAX)" "wf_fp binary32 f32_MAX"
    using representable_f32_MAX by (simp_all add: f32_MAX_def)
  then have "is_finite (f64_as_f32 c) \<and> wf_fp binary32 (f64_as_f32 c)"
    if "\<not> fp_lt f32_MAX c" "\<not> fp_lt c (fp_neg f32_MAX)"
    using that assms by (intro f64_as_f32_finite) (auto simp: within_limits_def intro: fp_not_gt)
  with CD_Float m assms show ?thesis by (auto simp: typed_output_def f32_as_f64_def Let_def)
next
  case CD_Double
  with assms show ?thesis by (simp add: typed_output_def)
qed

text \<open>The last part of a rule, from the value it settled on.\<close>

definition clamped_output :: "compiled_rule \<Rightarrow> eval_value \<Rightarrow> bool \<Rightarrow> (rcd_value \<times> bool) option" where
  "clamped_output r safe ok = map_option (\<lambda>c. (typed_output (data_type r) safe c, ok))
     (fp_clamp (as_f64 safe) (min_limit r) (max_limit r))"

lemma rule_result_eq:
  "rule_result r vars val =
     (case evaluate_with_validity (ast r) vars val of
        Inr (raw, ok) \<Rightarrow>
          if is_invalid_float raw then clamped_output r (EV_Float (default_value r)) False
          else clamped_output r raw ok
      | Inl e \<Rightarrow> clamped_output r (EV_Float (default_value r)) False)"
  by (auto simp: rule_result_def clamped_output_def Let_def split: sum.split option.split)

lemma clamped_output_ok:
  assumes "rule_ok r" and "\<not> is_invalid_float safe"
  shows "\<exists>v. clamped_output r safe ok = Some (v, ok) \<and> output_ok r v"
proof -
  obtain c where "fp_clamp (as_f64 safe) (min_limit r) (max_limit r) = Some c" "is_finite c"
    "fp_le (min_limit r) c" "fp_le c (max_limit r)"
    using fp_clamp_finite[OF as_f64_finite[OF assms(2)]] assms(1) unfolding rule_ok_def by blast
  then show ?thesis by (simp add: clamped_output_def typed_output_ok within_limits_def)
qed

lemma default_not_invalid: "rule_ok r \<Longrightarrow> \<not> is_invalid_float (EV_Float (default_value r))"
  by (cases "default_value r") (auto simp: rule_ok_def)

lemma rule_result_ok:
  assumes "rule_ok r"
  obtains v ok where "rule_result r vars val = Some (v, ok)" and "output_ok r v"
proof -
  have "\<exists>safe ok. rule_result r vars val = clamped_output r safe ok \<and> \<not> is_invalid_float safe"
    using default_not_invalid[OF assms] unfolding rule_result_eq
    by (auto split: sum.split)
  then obtain safe ok where "rule_result r vars val = clamped_output r safe ok"
    "\<not> is_invalid_float safe" by blast
  with clamped_output_ok[OF assms, of safe ok] that show thesis by auto
qed

section \<open>The cycle\<close>

text \<open>Every engine from the constructor runs to the end and keeps the promise of each rule.\<close>

lemma run_cycle_ok:
  assumes "list_all rule_ok eng"
  shows "\<exists>res. run_cycle_with_quality eng vars val = Some res
     \<and> list_all2 (\<lambda>r (kks, v, ok). kks = kks_calc r \<and> output_ok r v) eng res"
  using assms
proof (induction eng arbitrary: vars val)
  case (Cons r rs)
  obtain v ok where r: "rule_result r vars val = Some (v, ok)" "output_ok r v"
    using rule_result_ok[of r vars val] Cons.prems by auto
  moreover obtain res where "run_cycle_with_quality rs
      (vars(kks_calc r \<mapsto> from_model_value v)) (val(kks_calc r \<mapsto> ok)) = Some res"
    "list_all2 (\<lambda>r (kks, v, ok). kks = kks_calc r \<and> output_ok r v) rs res"
    using Cons by fastforce
  ultimately show ?case by simp
qed simp

text \<open>The variable and validity tables after a cycle.\<close>

definition final_vars :: "variables \<Rightarrow> cycle_output \<Rightarrow> variables" where
  "final_vars vars res = vars ++ map_of (map (\<lambda>(kks, v, ok). (kks, from_model_value v)) res)"

definition final_validity :: "validity \<Rightarrow> cycle_output \<Rightarrow> validity" where
  "final_validity val res = val ++ map_of (map (\<lambda>(kks, v, ok). (kks, ok)) res)"

lemma evaluate_with_validity_cong:
  assumes "\<And>x. x \<in> expr_vars e \<Longrightarrow> vars x = vars' x \<and> val x = val' x"
  shows "evaluate_with_validity e vars val = evaluate_with_validity e vars' val'"
  using assms
proof (induction e)
  case (E_Binary op l r)
  then have "evaluate_with_validity l vars val = evaluate_with_validity l vars' val'"
    "evaluate_with_validity r vars val = evaluate_with_validity r vars' val'" by simp_all
  then show ?case
    by (cases op rule: bin_op_cases) (simp_all add: evaluate_with_validity_binary cong: if_cong)
qed (auto cong: if_cong)

lemma rule_result_cong:
  "(\<And>x. x \<in> expr_vars (ast r) \<Longrightarrow> vars x = vars' x \<and> val x = val' x) \<Longrightarrow>
     rule_result r vars val = rule_result r vars' val'"
  by (simp add: rule_result_def evaluate_with_validity_cong[of "ast r" vars vars' val val'])

lemma run_cycle_names: "run_cycle_with_quality eng vars val = Some res \<Longrightarrow> map fst res = map kks_calc eng"
  by (induction eng arbitrary: vars val res) (auto split: option.splits)

lemma map_of_outputs_None:
  "k \<notin> fst ` set res \<Longrightarrow> map_of (map (\<lambda>(kks, v, ok). (kks, f kks v ok)) res) k = None"
  by (induction res) auto

lemma final_step:
  assumes "kks \<notin> fst ` set res"
  shows "final_vars (vars(kks \<mapsto> from_model_value v)) res = final_vars vars ((kks, v, ok) # res)"
    and "final_validity (val(kks \<mapsto> ok)) res = final_validity val ((kks, v, ok) # res)"
  using assms map_of_outputs_None[of kks res "\<lambda>_ v _. from_model_value v"]
    map_of_outputs_None[of kks res "\<lambda>_ _ ok. ok"]
  by (auto simp: final_vars_def final_validity_def map_add_def split: option.splits)

text \<open>The outputs of a cycle solve all formulas at once.\<close>

lemma run_cycle_solves:
  assumes "engine_ok eng" and "run_cycle_with_quality eng vars val = Some res"
    and "r \<in> set eng"
  shows "\<exists>v ok. (kks_calc r, v, ok) \<in> set res
     \<and> rule_result r (final_vars vars res) (final_validity val res) = Some (v, ok)"
  using assms
proof (induction eng arbitrary: vars val res)
  case (Cons r0 rs)
  obtain v ok res' where r0: "rule_result r0 vars val = Some (v, ok)"
    and res: "res = (kks_calc r0, v, ok) # res'"
    and rest: "run_cycle_with_quality rs (vars(kks_calc r0 \<mapsto> from_model_value v))
          (val(kks_calc r0 \<mapsto> ok)) = Some res'"
    using Cons.prems(2) by (auto split: option.splits)
  have names: "fst ` set res' = kks_calc ` set rs"
    using run_cycle_names[OF rest] by (metis set_map)
  have ok: "engine_ok rs" "kks_calc r0 \<notin> fst ` set res'"
    "set (rule_variables r0) \<inter> kks_calc ` set (r0 # rs) = {}" "rule_ok r0"
    using Cons.prems(1) by (auto simp: engine_ok_def names)
  show ?case
  proof (cases "r = r0")
    case True
    have "rule_result r0 (final_vars vars res) (final_validity val res) = rule_result r0 vars val"
    proof (rule rule_result_cong)
      fix x assume "x \<in> expr_vars (ast r0)"
      then have "x \<notin> fst ` set res" using ok(3,4) by (auto simp: rule_ok_def names res)
      then show "final_vars vars res x = vars x \<and> final_validity val res x = val x"
        using map_of_outputs_None[of x res "\<lambda>_ v _. from_model_value v"]
          map_of_outputs_None[of x res "\<lambda>_ _ ok. ok"]
        by (simp add: final_vars_def final_validity_def map_add_def)
    qed
    with True r0 res show ?thesis by auto
  next
    case False
    with Cons.prems(3) have "r \<in> set rs" by simp
    from Cons.IH[OF ok(1) rest this, unfolded final_step(1)[OF ok(2), where ok = ok]
        final_step(2)[OF ok(2), where v = v]]
    show ?thesis by (auto simp: res)
  qed
qed simp

section \<open>Quality\<close>

text \<open>A valid output does not depend on any input that is not valid.\<close>

lemma rule_result_valid:
  assumes "\<And>x. val x = Some True \<Longrightarrow> vars' x = vars x"
    and "rule_result r vars val = Some (v, True)"
  shows "rule_result r vars' val = Some (v, True)"
proof -
  obtain raw where "evaluate_with_validity (ast r) vars val = Ok (raw, True)"
    "\<not> is_invalid_float raw"
    using assms(2) by (auto simp: rule_result_eq clamped_output_def split: sum.splits if_splits)
  moreover from this(1) assms(1) have "evaluate_with_validity (ast r) vars' val = Ok (raw, True)"
    by (rule evaluate_valid_only)
  ultimately show ?thesis using assms(2) by (simp add: rule_result_eq)
qed

lemma run_cycle_valid:
  assumes "\<And>x. val x = Some True \<Longrightarrow> vars' x = vars x"
    and "run_cycle_with_quality eng vars val = Some res"
    and "run_cycle_with_quality eng vars' val = Some res'"
  shows "list_all2 (\<lambda>(k, v, ok) (k', v', ok'). k = k' \<and> ok = ok' \<and> (ok \<longrightarrow> v = v')) res res'"
  using assms
proof (induction eng arbitrary: vars vars' val res res')
  case (Cons r rs)
  obtain v ok v' ok' where r: "rule_result r vars val = Some (v, ok)" "rule_result r vars' val = Some (v', ok')"
    using Cons.prems(2,3) by (auto split: option.splits)
  have "ok' \<and> v = v'" if ok
    using rule_result_valid[of val vars' vars r v] Cons.prems(1) r that by simp
  moreover have ok if ok'
    using rule_result_valid[of val vars vars' r v'] Cons.prems(1) r that by simp
  ultimately have ok: "ok = ok'" "ok \<Longrightarrow> v = v'" by blast+
  let ?vars = "vars(kks_calc r \<mapsto> from_model_value v)"
    and ?vars' = "vars'(kks_calc r \<mapsto> from_model_value v')" and ?val = "val(kks_calc r \<mapsto> ok)"
  obtain out out' where out: "run_cycle_with_quality rs ?vars ?val = Some out"
      "run_cycle_with_quality rs ?vars' ?val = Some out'"
    and res: "res = (kks_calc r, v, ok) # out" "res' = (kks_calc r, v', ok) # out'"
    using Cons.prems(2,3) r ok by auto
  have "?vars' x = ?vars x" if "?val x = Some True" for x
    using that ok Cons.prems(1) by (auto split: if_splits)
  from Cons.IH[OF this out] res ok show ?case by simp
qed simp

section \<open>The runner\<close>

lemma absorb_engine [simp]: "engine (absorb_status st run) = engine run"
  by (simp add: absorb_status_def Let_def)

lemma absorb_all_engine [simp]: "engine (foldl (\<lambda>run st. absorb_status st run) run sts) = engine run"
  by (induction sts arbitrary: run) simp_all

text \<open>Rebuilding from a list of states leaves the runner where the updates, one by one, leave it.\<close>

lemma rebuild_is_updates:
  assumes "engine run = eng" and "statuses \<noteq> []"
  shows "rebuild_from_statuses_with_quality statuses run =
    on_update_with_quality (last statuses)
      (foldl (\<lambda>run st. snd (on_update_with_quality st run)) (runner_new eng) (butlast statuses))"
proof -
  have reset: "run\<lparr>global_vars := Map.empty, valid_vars := Map.empty\<rparr> = runner_new eng"
    using assms(1) by (simp add: runner_new_def)
  have fold: "foldl (\<lambda>run st. snd (on_update_with_quality st run)) r sts
      = (if engine_is_empty (engine r) then r else foldl (\<lambda>run st. absorb_status st run) r sts)" for r sts
    by (induction sts arbitrary: r) (simp_all add: on_update_with_quality_def Let_def)
  have "foldl (\<lambda>run st. absorb_status st run) r statuses
      = absorb_status (last statuses) (foldl (\<lambda>run st. absorb_status st run) r (butlast statuses))" for r
    using assms(2) by (metis append_butlast_last_id foldl_Cons foldl_Nil foldl_append)
  then show ?thesis
    unfolding rebuild_from_statuses_with_quality_def Let_def reset fold
    by (auto simp: on_update_with_quality_def Let_def)
qed

lemma absorb_lookup:
  "global_vars (absorb_status st run) x =
     (case ds_value st x of Some v \<Rightarrow> Some (from_model_value v) | None \<Rightarrow> global_vars run x)"
  "valid_vars (absorb_status st run) x =
     (if ds_value st x = None then valid_vars run x
      else Some (ds_com_status st \<and> ds_device_status st))"
  by (auto simp: absorb_status_def Let_def map_add_def split: option.splits)

end
