(* ===== verification/Csv_Config.thy ===== *)
theory Csv_Config
  imports Model
begin

text \<open>
  The device point tables (\<open>src/src/csv_parser.rs\<close>): the record and header types, the strict
  validator used before a file is saved, and the parser used at startup. The \<open>csv\<close> crate splits
  the text into rows and deserialises a row into a record; its results are arguments of the
  definitions here: \<open>rows\<close>, each row a list of fields or the reader's error, and \<open>deser\<close>, the
  positional deserialisation of a row.
\<close>

section \<open>Text helpers of the standard library\<close>

text \<open>The UTF-8 encodings of the characters that \<open>str::trim\<close> strips.\<close>

definition whitespace_encodings :: "string list" where
  "whitespace_encodings = map (map char_of)
     ([[9], [10], [11], [12], [13], [32], [194, 133], [194, 160], [225, 154, 128]]
      @ map (\<lambda>n. [226, 128, n]) [128..<139]
      @ [[226, 128, 168], [226, 128, 169], [226, 128, 175], [226, 129, 159],
         [227, 128, 128 :: nat]])"

definition starts_with :: "string \<Rightarrow> string \<Rightarrow> bool" where
  "starts_with s p \<longleftrightarrow> take (length p) s = p"

function strip_prefixes :: "string list \<Rightarrow> string \<Rightarrow> string" where
  "strip_prefixes ps s =
     (case List.find (\<lambda>p. p \<noteq> [] \<and> starts_with s p) ps of
        None \<Rightarrow> s
      | Some p \<Rightarrow> strip_prefixes ps (drop (length p) s))"
  by pat_completeness auto
termination
proof (relation "measure (\<lambda>(ps, s). length s)")
  show "((ps, drop (length p) s), ps, s) \<in> measure (\<lambda>(ps, s). length s)"
    if "List.find (\<lambda>p. p \<noteq> [] \<and> starts_with s p) ps = Some p" for ps s p
  proof -
    from that have "p \<noteq> []" "take (length p) s = p"
      by (auto simp: find_Some_iff starts_with_def)
    then have "s \<noteq> []" "p \<noteq> []" by auto
    then show ?thesis by simp
  qed
qed simp

declare strip_prefixes.simps [simp del]

definition trim_start :: "string \<Rightarrow> string" where
  "trim_start s = strip_prefixes whitespace_encodings s"

definition trim_end :: "string \<Rightarrow> string" where
  "trim_end s = rev (strip_prefixes (map rev whitespace_encodings) (rev s))"

definition trim :: "string \<Rightarrow> string" where
  "trim s = trim_end (trim_start s)"

text \<open>Some character is a control character (U+0000 to U+001F, U+007F to U+009F).\<close>

fun any_control :: "string \<Rightarrow> bool" where
  "any_control [] = False"
| "any_control (c # cs) =
     (code_of c < 32 \<or> code_of c = 127
      \<or> code_of c = 194 \<and> (case cs of d # _ \<Rightarrow> 128 \<le> code_of d \<and> code_of d \<le> 159 | [] \<Rightarrow> False)
      \<or> any_control cs)"

definition parse_u32 :: "string \<Rightarrow> u32 option" where
  "parse_u32 s = map_option of_nat (parse_unsigned (2 ^ 32) s)"

definition parse_u8 :: "string \<Rightarrow> u8 option" where
  "parse_u8 s = map_option of_nat (parse_unsigned 256 s)"

definition parse_bool :: "string \<Rightarrow> bool option" where
  "parse_bool s = (if s = ''true'' then Some True else if s = ''false'' then Some False else None)"

section \<open>Records and headers\<close>

datatype bit_index = BI_Single u32 | BI_Range u32 u32

definition bit_index_from_str :: "string \<Rightarrow> bit_index option" where
  "bit_index_from_str s =
     (if CHR ''.'' \<in> set s then
        (let lo = takeWhile (\<lambda>c. c \<noteq> CHR ''.'') s; hi = drop (Suc (length lo)) s
         in case parse_u32 lo of
              None \<Rightarrow> None
            | Some start \<Rightarrow> map_option (\<lambda>e. BI_Range start e) (parse_u32 hi))
      else map_option BI_Single (parse_u32 s))"

record csv_record =
  rec_kks :: string
  rec_type :: string
  rec_f_type :: string
  rec_byte_index :: u32
  rec_bit_index :: bit_index
  rec_def :: u32
  rec_max :: u32
  rec_min :: u32
  rec_byte_order :: u32

record csv_config =
  cfg_com :: string
  cfg_baud_rate :: u32
  cfg_is_special :: bool
  cfg_com_index :: u8
  cfg_device_id :: u8
  cfg_data_len :: u8
  cfg_kks_prefix :: string

record device_config =
  dc_config :: csv_config
  dc_records :: "csv_record list"

datatype bounds_error =
    ByteIndexZero | ByteIndexBeyond | BitBeyond | RangeReversed | RangeTooWide | RangeBeyond

text \<open>\<open>None\<close> when the point can be read from a status area of \<open>data_len\<close> bytes.\<close>

definition record_bounds_error :: "csv_record \<Rightarrow> nat \<Rightarrow> bounds_error option" where
  "record_bounds_error r data_len =
     (if rec_byte_index r = 0 then Some ByteIndexZero
      else let byte_index = unat (rec_byte_index r) - 1
      in if data_len \<le> byte_index then Some ByteIndexBeyond
         else case rec_bit_index r of
           BI_Single b \<Rightarrow> if 8 \<le> b then Some BitBeyond else None
         | BI_Range s e \<Rightarrow>
             (let start_bit = unat s; end_bit = unat e
              in if end_bit < start_bit then Some RangeReversed
                 else if 32 < end_bit - start_bit + 1 then Some RangeTooWide
                 else if data_len \<le> byte_index + end_bit div 8 then Some RangeBeyond
                 else None))"

section \<open>Validation before saving\<close>

datatype header_error = MissingHeader string nat | BadHeaderValue string string

definition parse_required ::
  "(string \<Rightarrow> 'a option) \<Rightarrow> string list \<Rightarrow> nat \<Rightarrow> string \<Rightarrow> header_error + 'a" where
  "parse_required p headers idx field =
     (if idx < length headers \<and> trim (headers ! idx) \<noteq> [] then
        (case p (trim (headers ! idx)) of
           None \<Rightarrow> Err (BadHeaderValue field (trim (headers ! idx)))
         | Some v \<Rightarrow> Ok v)
      else Err (MissingHeader field (idx + 1)))"

definition remove_underscores :: "string \<Rightarrow> string" where
  "remove_underscores s = filter (\<lambda>c. c \<noteq> CHR ''_'') s"

definition csv_label_matches :: "string \<Rightarrow> string \<Rightarrow> bool" where
  "csv_label_matches actual expected =
     (let a = to_ascii_lowercase (remove_underscores (trim actual));
          e = to_ascii_lowercase (remove_underscores expected)
      in a = e \<or> (e = ''kksprefix'' \<and> a = ''pre''))"

datatype 'x csv_reject =
    MissingConfigRow nat string
  | UnreadableRow nat 'x
  | WrongConfigRow nat string
  | BadCom
  | PrefixHasControl
  | HeaderRejected header_error
  | ZeroBaudRate
  | MissingColumnRow
  | BadColumnRow
  | BadKks nat
  | DuplicateKks nat string
  | BadType nat string
  | BadByteOrder nat string
  | PointOutOfBounds nat string bounds_error

type_synonym 'x csv_row = "'x + string list"

definition header_fields :: "string list" where
  "header_fields = [''com'', ''baud_rate'', ''is_special'', ''com_index'', ''device_id'',
     ''data_len'', ''kks_prefix'']"

definition record_csv_header :: "string list" where
  "record_csv_header = [''kks'', ''type_'', ''f_type'', ''byte_index'', ''bit_index'', ''def'',
     ''max'', ''min'', ''lh'']"

definition second_field :: "string list \<Rightarrow> string" where
  "second_field row = (if 1 < length row then row ! 1 else [])"

fun read_headers ::
  "nat \<Rightarrow> string list \<Rightarrow> 'x csv_row list \<Rightarrow> 'x csv_reject + (string list \<times> 'x csv_row list)" where
  "read_headers i [] rows = Ok ([], rows)"
| "read_headers i (f # fs) [] = Err (MissingConfigRow (i + 1) f)"
| "read_headers i (f # fs) (Inl e # rows) = Err (UnreadableRow (i + 1) e)"
| "read_headers i (f # fs) (Inr row # rows) =
     (if row \<noteq> [] \<and> csv_label_matches (hd row) f
      then map_ok (\<lambda>(hs, rest). (second_field row # hs, rest)) (read_headers (i + 1) fs rows)
      else Err (WrongConfigRow (i + 1) f))"

definition lift_header :: "header_error + 'a \<Rightarrow> 'x csv_reject + 'a" where
  "lift_header r = (case r of Inl e \<Rightarrow> Err (HeaderRejected e) | Inr v \<Rightarrow> Ok v)"

definition validate_config :: "string list \<Rightarrow> 'x csv_reject + csv_config" where
  "validate_config hs =
     (let com = trim (hs ! 0)
      in if com = [] \<or> any_control com then Err BadCom
         else if any_control (hs ! 6) then Err PrefixHasControl
         else
           and_then (if eq_ignore_ascii_case (trim (hs ! 2)) ''false'' then Ok False
                     else lift_header (parse_required parse_bool hs 2 ''is_special''))
             (\<lambda>is_special.
           and_then (lift_header (parse_required parse_u32 hs 1 ''baud_rate'')) (\<lambda>baud_rate.
           and_then (lift_header (parse_required parse_u8 hs 3 ''com_index'')) (\<lambda>com_index.
           and_then (lift_header (parse_required parse_u8 hs 4 ''device_id'')) (\<lambda>device_id.
           and_then (lift_header (parse_required parse_u8 hs 5 ''data_len'')) (\<lambda>data_len.
           if baud_rate = 0 then Err ZeroBaudRate
           else Ok \<lparr>cfg_com = com, cfg_baud_rate = baud_rate, cfg_is_special = is_special,
                    cfg_com_index = com_index, cfg_device_id = device_id,
                    cfg_data_len = data_len, cfg_kks_prefix = hs ! 6\<rparr>))))))"

definition validate_columns :: "'x csv_row list \<Rightarrow> 'x csv_reject + 'x csv_row list" where
  "validate_columns rows =
     (case rows of
        [] \<Rightarrow> Err MissingColumnRow
      | Inl e # _ \<Rightarrow> Err (UnreadableRow 8 e)
      | Inr row # rest \<Rightarrow>
          if length row = length record_csv_header
             \<and> list_all2 csv_label_matches row record_csv_header
          then Ok rest else Err BadColumnRow)"

text \<open>
  The record loop. \<open>warn\<close> is whether the caller passed a warning callback; the messages it gets
  are the second component of the result.
\<close>

fun validate_records ::
  "(string list \<Rightarrow> 'x + csv_record) \<Rightarrow> bool \<Rightarrow> csv_config \<Rightarrow> nat \<Rightarrow> string set \<Rightarrow> 'x csv_row list
     \<Rightarrow> 'x csv_reject + (csv_record list \<times> (nat \<times> string \<times> bounds_error) list)" where
  "validate_records deser warn cfg n names [] = Ok ([], [])"
| "validate_records deser warn cfg n names (Inl e # rows) = Err (UnreadableRow n e)"
| "validate_records deser warn cfg n names (Inr row # rows) =
     (case deser row of
        Inl e \<Rightarrow> Err (UnreadableRow n e)
      | Inr r0 \<Rightarrow>
          if trim (rec_kks r0) = [] \<or> any_control (rec_kks r0) then Err (BadKks n)
          else let r = r0\<lparr>rec_kks := cfg_kks_prefix cfg @ rec_kks r0\<rparr>
          in if rec_kks r \<in> names then Err (DuplicateKks n (rec_kks r))
             else if rec_type r \<notin> {''uint'', ''bool'', ''float''} then Err (BadType n (rec_kks r))
             else if 1 < rec_byte_order r then Err (BadByteOrder n (rec_kks r))
             else case record_bounds_error r (unat (cfg_data_len cfg) + 1) of
               None \<Rightarrow>
                 map_ok (\<lambda>(rs, ws). (r # rs, ws))
                   (validate_records deser warn cfg (n + 1) (insert (rec_kks r) names) rows)
             | Some b \<Rightarrow>
                 if warn then
                   map_ok (\<lambda>(rs, ws). (r # rs, (n, rec_kks r, b) # ws))
                     (validate_records deser warn cfg (n + 1) (insert (rec_kks r) names) rows)
                 else Err (PointOutOfBounds n (rec_kks r) b))"

definition validate_csv_content_inner ::
  "(string list \<Rightarrow> 'x + csv_record) \<Rightarrow> bool \<Rightarrow> 'x csv_row list
     \<Rightarrow> 'x csv_reject + (csv_config \<times> csv_record list \<times> (nat \<times> string \<times> bounds_error) list)" where
  "validate_csv_content_inner deser warn rows =
     and_then (read_headers 0 header_fields rows) (\<lambda>(hs, rest).
     and_then (validate_config hs) (\<lambda>cfg.
     and_then (validate_columns rest) (\<lambda>records.
     map_ok (\<lambda>(rs, ws). (cfg, rs, ws)) (validate_records deser warn cfg 9 {} records))))"

definition validate_csv_content ::
  "(string list \<Rightarrow> 'x + csv_record) \<Rightarrow> 'x csv_row list
     \<Rightarrow> 'x csv_reject + (csv_config \<times> csv_record list)" where
  "validate_csv_content deser rows =
     map_ok (\<lambda>(c, rs, ws). (c, rs)) (validate_csv_content_inner deser False rows)"

definition validate_csv_content_with_point_warnings ::
  "(string list \<Rightarrow> 'x + csv_record) \<Rightarrow> 'x csv_row list
     \<Rightarrow> 'x csv_reject + (csv_config \<times> csv_record list \<times> (nat \<times> string \<times> bounds_error) list)" where
  "validate_csv_content_with_point_warnings deser rows = validate_csv_content_inner deser True rows"

section \<open>The startup parser\<close>

datatype 'x csv_parse_error = CPE_Csv 'x | CPE_Header header_error

definition header_result :: "header_error + 'a \<Rightarrow> 'x csv_parse_error + 'a" where
  "header_result r = (case r of Inl e \<Rightarrow> Err (CPE_Header e) | Inr v \<Rightarrow> Ok v)"

definition parse_csv_headers :: "'x csv_row list \<Rightarrow> 'x csv_parse_error + string list" where
  "parse_csv_headers rows =
     collect_results (map (\<lambda>r. case r of Inl e \<Rightarrow> Err (CPE_Csv e) | Inr row \<Rightarrow> Ok (second_field row))
       (take 7 rows))"

definition parse_csv_config :: "string list \<Rightarrow> 'x csv_parse_error + csv_config" where
  "parse_csv_config hs =
     (if hs = [] \<or> trim (hs ! 0) = [] then Err (CPE_Header (MissingHeader ''com'' 1))
      else
        and_then (header_result (parse_required parse_u32 hs 1 ''baud_rate'')) (\<lambda>baud_rate.
        let is_special = (if 2 < length hs
                          then (case parse_bool (trim (hs ! 2)) of Some b \<Rightarrow> b | None \<Rightarrow> False)
                          else False)
        in and_then (header_result (parse_required parse_u8 hs 3 ''com_index'')) (\<lambda>com_index.
        and_then (header_result (parse_required parse_u8 hs 4 ''device_id'')) (\<lambda>device_id.
        and_then (header_result (parse_required parse_u8 hs 5 ''data_len'')) (\<lambda>data_len.
        Ok \<lparr>cfg_com = trim (hs ! 0), cfg_baud_rate = baud_rate, cfg_is_special = is_special,
            cfg_com_index = com_index, cfg_device_id = device_id, cfg_data_len = data_len,
            cfg_kks_prefix = (if 6 < length hs then hs ! 6 else [])\<rparr>)))))"

definition parse_csv_record ::
  "(string list \<Rightarrow> 'x + csv_record) \<Rightarrow> csv_config \<Rightarrow> 'x csv_row \<Rightarrow> 'x csv_parse_error + csv_record" where
  "parse_csv_record deser cfg r =
     (case r of
        Inl e \<Rightarrow> Err (CPE_Csv e)
      | Inr row \<Rightarrow>
          (case deser row of
             Inl e \<Rightarrow> Err (CPE_Csv e)
           | Inr r0 \<Rightarrow> Ok (r0\<lparr>rec_kks := cfg_kks_prefix cfg @ rec_kks r0\<rparr>)))"

definition parse_csv ::
  "(string list \<Rightarrow> 'x + csv_record) \<Rightarrow> 'x csv_row list
     \<Rightarrow> 'x csv_parse_error + (csv_config \<times> csv_record list)" where
  "parse_csv deser rows =
     and_then (parse_csv_headers rows) (\<lambda>hs.
     and_then (parse_csv_config hs) (\<lambda>cfg.
     map_ok (\<lambda>rs. (cfg, rs)) (collect_results (map (parse_csv_record deser cfg) (drop 8 rows)))))"

section \<open>Trimming text that starts and ends with a visible character\<close>

definition visible :: "char \<Rightarrow> bool" where
  "visible c \<longleftrightarrow> 33 \<le> code_of c \<and> code_of c < 127"

lemma whitespace_not_visible:
  "list_all (\<lambda>p. p \<noteq> [] \<and> \<not> visible (hd p) \<and> \<not> visible (last p)) whitespace_encodings"
  by (simp add: whitespace_encodings_def visible_def code_of_def upt_rec del: upt_rec_numeral) 

lemma strip_prefixes_visible:
  assumes "list_all (\<lambda>p. p \<noteq> [] \<and> \<not> visible (hd p)) ps" and "s \<noteq> [] \<Longrightarrow> visible (hd s)"
  shows "strip_prefixes ps s = s"
proof -
  have "\<not> starts_with s p" if "p \<in> set ps" for p
  proof
    assume "starts_with s p"
    moreover have "p \<noteq> []" "\<not> visible (hd p)" using assms(1) that by (auto simp: list_all_iff)
    ultimately have "hd s = hd p" "s \<noteq> []" unfolding starts_with_def by (metis hd_take length_greater_0_conv, auto)
    with assms(2) \<open>\<not> visible (hd p)\<close> show False by simp
  qed
  then have "List.find (\<lambda>p. p \<noteq> [] \<and> starts_with s p) ps = None" by (auto simp: find_None_iff)
  then show ?thesis by (subst strip_prefixes.simps) simp
qed

lemma trim_visible:
  assumes "s \<noteq> [] \<Longrightarrow> visible (hd s) \<and> visible (last s)"
  shows "trim s = s"
proof -
  have "strip_prefixes whitespace_encodings s = s"
    using assms whitespace_not_visible by (intro strip_prefixes_visible) (auto simp: list_all_iff)
  moreover have "strip_prefixes (map rev whitespace_encodings) (rev s) = rev s"
    using assms whitespace_not_visible by (intro strip_prefixes_visible) (auto simp: list_all_iff hd_rev)
  ultimately show ?thesis by (simp add: trim_def trim_start_def trim_end_def)
qed

section \<open>The validator and the parser agree\<close>

lemma read_headers_Ok:
  assumes "read_headers i fs rows = Ok (hs, rest)"
  obtains rws where "rows = map Inr rws @ rest" and "length rws = length fs" and "hs = map second_field rws"
  using assms
proof (induction i fs rows arbitrary: hs rest thesis rule: read_headers.induct)
  case (4 i f fs row rows)
  obtain hs' where r: "read_headers (i + 1) fs rows = Ok (hs', rest)" "hs = second_field row # hs'"
    using 4(3) by (auto split: if_splits)
  moreover have "row \<noteq> [] \<and> csv_label_matches (hd row) f" using 4(3) by (auto split: if_splits)
  ultimately obtain rws where "rows = map Inr rws @ rest" "length rws = length fs" "hs' = map second_field rws"
    using 4(1) by blast
  with r show ?case by (intro 4(2)[of "row # rws"]) simp_all
qed simp_all

lemma lift_header_Ok [simp]: "lift_header r = Inr v \<longleftrightarrow> r = Inr v"
  by (cases r) (simp_all add: lift_header_def)

lemma header_result_Ok [simp]: "header_result r = Inr v \<longleftrightarrow> r = Inr v"
  by (cases r) (simp_all add: header_result_def)

lemma parse_required_bool:
  "parse_required parse_bool hs i f = Inr b \<Longrightarrow> parse_bool (trim (hs ! i)) = Some b"
  by (auto simp: parse_required_def split: if_splits option.splits)

lemma not_bool_false: "eq_ignore_ascii_case s ''false'' \<Longrightarrow> parse_bool s \<noteq> Some True"
  by (auto simp: parse_bool_def eq_ignore_ascii_case_def to_ascii_lowercase_def)

lemma validate_config_parse:
  assumes "validate_config hs = Ok cfg" and "length hs = 7"
  shows "parse_csv_config hs = Ok cfg"
proof -
  obtain sp br ci di dl where v: "trim (hs ! 0) \<noteq> []"
      "(if eq_ignore_ascii_case (trim (hs ! 2)) ''false'' then Ok False
        else lift_header (parse_required parse_bool hs 2 ''is_special'')) = (Ok sp :: unit csv_reject + bool)"
      "parse_required parse_u32 hs 1 ''baud_rate'' = Ok br" "parse_required parse_u8 hs 3 ''com_index'' = Ok ci"
      "parse_required parse_u8 hs 4 ''device_id'' = Ok di" "parse_required parse_u8 hs 5 ''data_len'' = Ok dl"
      "cfg = \<lparr>cfg_com = trim (hs ! 0), cfg_baud_rate = br, cfg_is_special = sp, cfg_com_index = ci,
        cfg_device_id = di, cfg_data_len = dl, cfg_kks_prefix = hs ! 6\<rparr>"
    using assms(1) by (auto simp: validate_config_def Let_def split: if_splits)
  have "(case parse_bool (trim (hs ! 2)) of Some b \<Rightarrow> b | None \<Rightarrow> False) = sp"
    using v(2) not_bool_false[of "trim (hs ! 2)"] parse_required_bool[of hs 2 "''is_special''" sp]
    by (auto split: if_splits option.splits)
  with v assms(2) show ?thesis by (auto simp: parse_csv_config_def Let_def)
qed

lemma validate_records_parse:
  "validate_records deser warn cfg n names rows = Ok (rs, ws) \<Longrightarrow>
     collect_results (map (parse_csv_record deser cfg) rows) = Ok rs"
  by (induction deser warn cfg n names rows arbitrary: rs ws rule: validate_records.induct)
     (auto simp: parse_csv_record_def Let_def split: sum.splits if_splits option.splits)

lemma collect_headers:
  "collect_results (map (\<lambda>r. case r of Inl e \<Rightarrow> Err (CPE_Csv e) | Inr row \<Rightarrow> Ok (second_field row)) (map Inr rws))
     = Ok (map second_field rws)"
  using collect_results_map_Ok[of second_field rws] by (simp add: o_def)

text \<open>What the validator accepts, the parser reads at startup, with the same result.\<close>

lemma validated_parses:
  assumes "validate_csv_content_inner deser warn rows = Ok (cfg, rs, ws)"
  shows "parse_csv deser rows = Ok (cfg, rs)"
proof -
  obtain hs rest records where h: "read_headers 0 header_fields rows = Ok (hs, rest)"
    and c: "validate_config hs = (Ok cfg :: 'a csv_reject + csv_config)"
    and r: "validate_columns rest = Ok records"
    and v: "validate_records deser warn cfg 9 {} records = Ok (rs, ws)"
    using assms by (auto simp: validate_csv_content_inner_def)
  obtain rws where rws: "rows = map Inr rws @ rest" "length rws = 7" "hs = map second_field rws"
    using h by (rule read_headers_Ok) (simp add: header_fields_def)
  obtain row where "rest = Inr row # records"
    using r by (auto simp: validate_columns_def split: list.splits sum.splits if_splits)
  then have "take 7 rows = map Inr rws" "drop 8 rows = records" using rws by simp_all
  with rws validate_config_parse[OF c] validate_records_parse[OF v] show ?thesis
    by (simp add: parse_csv_def parse_csv_headers_def collect_headers del: map_map)
qed

section \<open>Accepted points\<close>

lemma validate_records_ConsE:
  assumes "validate_records deser warn cfg n names (Inr row # rows) = Ok (rs, ws)"
  obtains r rs' ws' where "rs = r # rs'" and "rec_kks r \<notin> names"
    and "rec_type r \<in> {''uint'', ''bool'', ''float''}" and "rec_byte_order r \<le> 1"
    and "validate_records deser warn cfg (n + 1) (insert (rec_kks r) names) rows = Ok (rs', ws')"
    and "record_bounds_error r (unat (cfg_data_len cfg) + 1) = None \<and> ws = ws'
         \<or> warn \<and> (\<exists>b. ws = (n, rec_kks r, b) # ws')"
proof -
  obtain r0 where r0: "deser row = Ok r0" using assms by (auto split: sum.splits)
  define r where "r = r0\<lparr>rec_kks := cfg_kks_prefix cfg @ rec_kks r0\<rparr>"
  show thesis
    using assms that[of r]
    by (cases "record_bounds_error r (unat (cfg_data_len cfg) + 1)")
       (auto simp: r0 Let_def not_less simp flip: r_def split: if_splits)
qed

definition accepted_point ::
  "bool \<Rightarrow> csv_config \<Rightarrow> (nat \<times> string \<times> bounds_error) list \<Rightarrow> csv_record \<Rightarrow> bool" where
  "accepted_point warn cfg ws r \<longleftrightarrow> rec_type r \<in> {''uint'', ''bool'', ''float''} \<and> rec_byte_order r \<le> 1
     \<and> (record_bounds_error r (unat (cfg_data_len cfg) + 1) = None
         \<or> warn \<and> rec_kks r \<in> (\<lambda>w. fst (snd w)) ` set ws)"

lemma validate_records_points:
  "validate_records deser warn cfg n names rows = Ok (rs, ws) \<Longrightarrow>
     distinct (map rec_kks rs) \<and> rec_kks ` set rs \<inter> names = {} \<and> list_all (accepted_point warn cfg ws) rs"
proof (induction rows arbitrary: n names rs ws)
  case (Cons row rows)
  obtain row' where row: "row = Inr row'" using Cons.prems by (cases row) auto
  from Cons.prems[unfolded row] show ?case
  proof (rule validate_records_ConsE)
    fix r rs' ws'
    assume r: "rs = r # rs'" "rec_kks r \<notin> names" "rec_type r \<in> {''uint'', ''bool'', ''float''}"
      "rec_byte_order r \<le> 1"
      and v: "validate_records deser warn cfg (n + 1) (insert (rec_kks r) names) rows = Ok (rs', ws')"
      and b: "record_bounds_error r (unat (cfg_data_len cfg) + 1) = None \<and> ws = ws'
         \<or> warn \<and> (\<exists>b. ws = (n, rec_kks r, b) # ws')"
    have "accepted_point warn cfg ws r" using r b by (auto simp: accepted_point_def)
    moreover have "accepted_point warn cfg ws x" if "accepted_point warn cfg ws' x" for x
    proof -
      have "set ws' \<subseteq> set ws" using b by auto
      with that show ?thesis unfolding accepted_point_def by blast
    qed
    ultimately show ?case using Cons.IH[OF v] r(1,2) by (auto simp: list_all_iff)
  qed
qed simp

lemma validated_points:
  assumes "validate_csv_content_inner deser warn rows = Ok (cfg, rs, ws)"
  shows "distinct (map rec_kks rs)" and "list_all (accepted_point warn cfg ws) rs"
  using assms by (auto simp: validate_csv_content_inner_def dest!: validate_records_points)

text \<open>Warnings only ever replace the rejection of a point that is out of bounds.\<close>

lemma validate_records_warn:
  "validate_records deser False cfg n names rows = Ok (rs, ws) \<Longrightarrow>
     validate_records deser True cfg n names rows = Ok (rs, []) \<and> ws = []"
proof (induction rows arbitrary: n names rs ws)
  case (Cons row rows)
  then show ?case by (cases row) (fastforce simp: Let_def split: sum.splits if_splits option.splits)+
qed simp

lemma strict_implies_warning_mode:
  assumes "validate_csv_content deser rows = Ok (cfg, rs)"
  shows "validate_csv_content_with_point_warnings deser rows = Ok (cfg, rs, [])"
  using assms validate_records_warn
  by (fastforce simp: validate_csv_content_def validate_csv_content_with_point_warnings_def
      validate_csv_content_inner_def)

end
