(* ===== verification/Protocol.thy ===== *)
theory Protocol
  imports Csv_Config
begin

unbundle bit_operations_syntax

text \<open>
  The serial protocol of the acquisition program (\<open>src/src/protocol.rs\<close>): checksums, the version
  query and its response, data packets, the extraction of point values from the status bytes and
  the hexadecimal reader of commands. A slice index the source has checked is \<open>!\<close>; a record the
  source skips with \<open>continue\<close> is \<open>None\<close>.
\<close>

section \<open>Constants\<close>

definition READ_STATUS :: u8 where "READ_STATUS = 0x08"
definition READ_SUBCMD :: u8 where "READ_SUBCMD = 0x02"
definition STATUS_PAGE :: u8 where "STATUS_PAGE = 0x30"
definition STATUS_OFFSET :: u8 where "STATUS_OFFSET = 0x10"
definition VERSION_PAGE :: u8 where "VERSION_PAGE = 0x50"
definition VERSION_OFFSET :: u8 where "VERSION_OFFSET = 0x10"
definition VERSION_LENGTH :: u8 where "VERSION_LENGTH = 0x04"

section \<open>Frames\<close>

record data_packet =
  dp_addr :: u8
  dp_cmd :: u8
  dp_len :: u8
  dp_status :: bytes
  dp_crc :: u8

datatype station_version_response =
    Domestic bytes u16 u16
  | LegacyRussian bytes

datatype protocol_error =
    VersionLength | VersionHeader | VersionChecksum
  | FrameTooShort | FrameLengthMismatch | FrameChecksum

definition verify_checksum :: "bytes \<Rightarrow> bool" where
  "verify_checksum data \<longleftrightarrow>
     (if data = [] then False
      else foldl (\<lambda>acc x. acc + x) 0 (take (length data - 1) data) = data ! (length data - 1))"

definition build_station_version_query :: "u8 \<Rightarrow> bytes" where
  "build_station_version_query addr =
     (let frame = [addr, READ_STATUS, READ_SUBCMD, VERSION_PAGE, VERSION_OFFSET, VERSION_LENGTH, 0]
      in frame[6 := foldl (\<lambda>sum b. sum + b) 0 (take 6 frame)])"

definition u16_from_be_bytes :: "u8 \<Rightarrow> u8 \<Rightarrow> u16" where
  "u16_from_be_bytes hi lo = push_bit 8 (ucast hi) OR ucast lo"

definition parse_station_version_response ::
  "bytes \<Rightarrow> protocol_error + station_version_response" where
  "parse_station_version_response frame =
     (if length frame \<noteq> 9 then Err VersionLength
      else if take 3 frame \<noteq> [0x00, 0x00, 0x04] then Err VersionHeader
      else if \<not> verify_checksum frame then Err VersionChecksum
      else let payload = [frame ! 4, frame ! 5, frame ! 6, frame ! 7]
      in if payload = [0xFF, 0xFF, 0xFF, 0xFF] then Ok (LegacyRussian payload)
         else Ok (Domestic payload
                    (u16_from_be_bytes (payload ! 0) (payload ! 1))
                    (u16_from_be_bytes (payload ! 2) (payload ! 3))))"

definition parse_data_packet :: "bytes \<Rightarrow> protocol_error + data_packet" where
  "parse_data_packet data =
     (if length data < 4 then Err FrameTooShort
      else if unat (data ! 2) + 2 \<noteq> length data - 3 then Err FrameLengthMismatch
      else if \<not> verify_checksum data then Err FrameChecksum
      else Ok \<lparr>dp_addr = data ! 0, dp_cmd = data ! 1, dp_len = data ! 2,
               dp_status = drop 3 (take (length data - 1) data),
               dp_crc = data ! (length data - 1)\<rparr>)"

section \<open>Point values\<close>

text \<open>The loop that combines the bytes of a range, first big-endian, then little-endian.\<close>

fun combine_be :: "u64 \<Rightarrow> bytes \<Rightarrow> u64" where
  "combine_be acc [] = acc"
| "combine_be acc (b # bs) = combine_be (push_bit 8 acc OR ucast b) bs"

fun combine_le :: "nat \<Rightarrow> u64 \<Rightarrow> bytes \<Rightarrow> u64" where
  "combine_le k acc [] = acc"
| "combine_le k acc (b # bs) = combine_le (k + 1) (acc OR push_bit (8 * k) (ucast b)) bs"

definition range_raw_value :: "bytes \<Rightarrow> nat \<Rightarrow> u32 \<Rightarrow> u32 \<Rightarrow> u32 \<Rightarrow> u32 option" where
  "range_raw_value data byte_index start_bit end_bit byte_order =
     (let total_bits = (of_nat (length data * 8) :: u32);
          start_byte = byte_index + unat start_bit div 8;
          end_byte = byte_index + unat end_bit div 8;
          num_bits = unat end_bit - unat start_bit + 1
      in if end_bit < start_bit \<or> total_bits \<le> end_bit then None
         else if length data \<le> end_byte then None
         else if 32 < num_bits then None
         else let bs = drop start_byte (take (end_byte + 1) data);
                  combined = (if byte_order = 1 then combine_be 0 bs else combine_le 0 0 bs);
                  bit_offset = unat start_bit mod 8;
                  mask = (if num_bits = 32 then 0xFFFFFFFF else push_bit num_bits 1 - 1) :: u64
         in Some (ucast (drop_bit bit_offset combined AND mask)))"

definition raw_value :: "bytes \<Rightarrow> csv_record \<Rightarrow> u32 option" where
  "raw_value data r =
     (if rec_byte_index r = 0 then None
      else let byte_index = unat (rec_byte_index r) - 1
      in if length data \<le> byte_index then None
         else case rec_bit_index r of
           BI_Single b \<Rightarrow>
             if 8 \<le> b then None
             else Some (ucast (drop_bit (unat b) (data ! byte_index) AND 1))
         | BI_Range s e \<Rightarrow> range_raw_value data byte_index s e (rec_byte_order r))"

definition typed_value :: "string \<Rightarrow> u32 \<Rightarrow> rcd_value option" where
  "typed_value ty raw =
     (if ty = ''uint'' then Some (V_UInt raw)
      else if ty = ''bool'' then Some (V_Bool (raw \<noteq> 0))
      else if ty = ''float'' then Some (V_Float (fp_div binary32 (u32_as_f32 raw) (FNum 100)))
      else None)"

definition record_value :: "bytes \<Rightarrow> csv_record \<Rightarrow> rcd_value option" where
  "record_value data r = Option.bind (raw_value data r) (typed_value (rec_type r))"

fun parse_status_from ::
  "(string \<rightharpoonup> rcd_value) \<Rightarrow> bytes \<Rightarrow> csv_record list \<Rightarrow> (string \<rightharpoonup> rcd_value)" where
  "parse_status_from results data [] = results"
| "parse_status_from results data (r # rs) =
     (case record_value data r of
        None \<Rightarrow> parse_status_from results data rs
      | Some v \<Rightarrow> parse_status_from (results(rec_kks r \<mapsto> v)) data rs)"

definition parse_status :: "bytes \<Rightarrow> csv_record list \<Rightarrow> (string \<rightharpoonup> rcd_value)" where
  "parse_status data records = parse_status_from Map.empty data records"

section \<open>Searching and hexadecimal text\<close>

fun find_double_zero :: "bytes \<Rightarrow> nat option" where
  "find_double_zero (a # b # rest) =
     (if a = 0 \<and> b = 0 then Some 0 else map_option Suc (find_double_zero (b # rest)))"
| "find_double_zero _ = None"

datatype hex_error = HexNotAscii | HexOddLength | HexBadDigits string

fun hex_pairs :: "string \<Rightarrow> (hex_error + u8) list" where
  "hex_pairs (a # b # s) =
     (case u8_from_str_radix16 [a, b] of
        None \<Rightarrow> Err (HexBadDigits [a, b])
      | Some v \<Rightarrow> Ok v) # hex_pairs s"
| "hex_pairs _ = []"

definition hex_str_to_bytes :: "string \<Rightarrow> hex_error + bytes" where
  "hex_str_to_bytes s =
     (if \<not> is_ascii s then Err HexNotAscii
      else if length s mod 2 \<noteq> 0 then Err HexOddLength
      else collect_results (hex_pairs s))"

section \<open>Checksums\<close>

lemma verify_checksum_snoc: "verify_checksum (xs @ [c]) \<longleftrightarrow> get_sum xs = c"
  by (simp add: verify_checksum_def get_sum_def nth_append)

lemma verify_checksum_iff:
  "verify_checksum data \<longleftrightarrow> (\<exists>xs. data = xs @ [get_sum xs])"
  by (cases data rule: rev_cases) (auto simp: verify_checksum_snoc verify_checksum_def[of "[]"])

lemma get_sum_update:
  "i < length xs \<Longrightarrow> get_sum (xs[i := b]) = get_sum xs - xs ! i + b"
proof (induction xs arbitrary: i)
  case Nil
  then show ?case by simp
next
  case (Cons x xs)
  then show ?case by (cases i) (auto simp: get_sum_eq)
qed

lemma checksum_detects_change:
  assumes "verify_checksum data" and "i < length data" and "b \<noteq> data ! i"
  shows "\<not> verify_checksum (data[i := b])"
proof -
  obtain xs where d: "data = xs @ [get_sum xs]" using assms(1) by (auto simp: verify_checksum_iff)
  show ?thesis
  proof (cases "i = length xs")
    case True
    with d assms(3) show ?thesis by (simp add: verify_checksum_snoc list_update_append)
  next
    case False
    with assms(2) d have i: "i < length xs" by simp
    with d assms(3) show ?thesis
      by (simp add: verify_checksum_snoc list_update_append get_sum_update nth_append)
  qed
qed

section \<open>Bits of a range\<close>

lemma combine_be_snoc: "combine_be acc (bs @ [b]) = push_bit 8 (combine_be acc bs) OR ucast b"
  by (induction bs arbitrary: acc) simp_all

lemma combine_le_acc:
  "combine_le k acc bs = acc OR push_bit (8 * k) (combine_le 0 0 bs)"
proof (induction bs arbitrary: k acc)
  case Nil
  then show ?case by simp
next
  case (Cons b bs)
  have "combine_le 0 0 (b # bs) = ucast b OR push_bit 8 (combine_le 0 0 bs)"
    using Cons.IH[of 1 "ucast b"] by simp
  moreover have "combine_le k acc (b # bs)
      = (acc OR push_bit (8 * k) (ucast b)) OR push_bit (8 * (k + 1)) (combine_le 0 0 bs)"
    using Cons.IH[of "k + 1"] by simp
  ultimately show ?case by (simp add: push_bit_or or.assoc add.commute)
qed

lemma combine_le_Cons: "combine_le 0 0 (b # bs) = ucast b OR push_bit 8 (combine_le 0 0 bs)"
  using combine_le_acc[of 1 "ucast b" bs] by simp

text \<open>The two byte orders differ by a reversal of the bytes.\<close>

lemma combine_be_rev: "combine_be 0 bs = combine_le 0 0 (rev bs)"
  by (induction bs rule: rev_induct)
    (simp_all add: combine_be_snoc combine_le_Cons or.commute del: combine_le.simps(2))

lemma bit_combine_le:
  "bit (combine_le 0 0 bs) n \<longleftrightarrow> n < 64 \<and> n div 8 < length bs \<and> bit (bs ! (n div 8)) (n mod 8)"
proof (induction bs arbitrary: n)
  case Nil
  then show ?case by simp
next
  case (Cons b bs)
  show ?case
  proof (cases "n < 8")
    case True
    then show ?thesis
      by (simp add: combine_le_Cons bit_or_iff bit_push_bit_iff bit_unsigned_iff del: combine_le.simps)
  next
    case False
    then have d: "n div 8 = Suc ((n - 8) div 8)" "(n - 8) mod 8 = n mod 8"
      by (simp_all add: le_div_geq le_mod_geq)
    have "\<not> bit (ucast b :: u64) n"
      using False bit_imp_le_length[of b n] by (auto simp: bit_unsigned_iff)
    with False d Cons.IH[of "n - 8"] show ?thesis
      by (auto simp: combine_le_Cons bit_or_iff bit_push_bit_iff simp del: combine_le.simps)
  qed
qed

lemma bit_low_mask: "k \<le> 32 \<Longrightarrow>
   bit ((if k = 32 then 0xFFFFFFFF else push_bit k 1 - 1) :: u64) j \<longleftrightarrow> j < k"
proof -
  assume k: "k \<le> 32"
  have "((if k = 32 then 0xFFFFFFFF else push_bit k 1 - 1) :: u64) = mask k"
    by (simp add: mask_eq_exp_minus_1 push_bit_eq_mult)
  with k show ?thesis by (auto simp: bit_mask_iff)
qed

lemma range_raw_value_Some:
  assumes "range_raw_value data bi s e bo = Some v"
  obtains bs where
    "bs = drop (bi + unat s div 8) (take (bi + unat e div 8 + 1) data)"
    "unat s \<le> unat e" "unat e - unat s < 32" "bi + unat e div 8 < length data"
    "\<And>j. bit v j \<longleftrightarrow> j \<le> unat e - unat s
        \<and> bit (if bo = 1 then combine_be 0 bs else combine_le 0 0 bs) (unat s mod 8 + j)"
proof -
  define bs where "bs = drop (bi + unat s div 8) (take (bi + unat e div 8 + 1) data)"
  define comb where "comb = (if bo = 1 then combine_be 0 bs else combine_le 0 0 bs)"
  define n where "n = unat e - unat s + 1"
  from assms have le: "unat s \<le> unat e"
    by (auto simp: range_raw_value_def Let_def word_le_nat_alt not_less split: if_splits)
  from assms have len: "bi + unat e div 8 < length data"
    by (auto simp: range_raw_value_def Let_def split: if_splits)
  from assms have n: "n \<le> 32"
    by (auto simp: range_raw_value_def Let_def n_def split: if_splits)
  have v: "v = ucast (drop_bit (unat s mod 8) comb
      AND (if n = 32 then 0xFFFFFFFF else push_bit n 1 - 1))"
    using assms by (simp add: range_raw_value_def Let_def comb_def bs_def n_def split: if_splits)
  have "bit v j \<longleftrightarrow> j < n \<and> bit comb (unat s mod 8 + j)" for j
  proof -
    have "bit v j \<longleftrightarrow> j < 32 \<and> bit (drop_bit (unat s mod 8) comb) j \<and> j < n"
      using n unfolding v
      by (auto simp: bit_unsigned_iff bit_and_iff bit_low_mask[OF n] simp del: of_nat_unat)
    with n show ?thesis by (auto simp: bit_drop_bit_eq)
  qed
  with that[OF bs_def le _ len] n show ?thesis by (simp add: comb_def n_def less_Suc_eq_le)
qed

lemma nth_status_slice:
  assumes "a \<le> b" and "b < length data" and "i \<le> b - a"
  shows "drop a (take (b + 1) data) ! i = data ! (a + i)"
  using assms by simp

lemma range_bits_le:
  assumes "range_raw_value data bi s e bo = Some v" and "bo \<noteq> 1"
  shows "bit v j \<longleftrightarrow> j \<le> unat e - unat s
           \<and> bit (data ! (bi + (unat s + j) div 8)) ((unat s + j) mod 8)"
proof -
  from assms(1) obtain bs where bs: "bs = drop (bi + unat s div 8) (take (bi + unat e div 8 + 1) data)"
    and le: "unat s \<le> unat e" and w: "unat e - unat s < 32" and len: "bi + unat e div 8 < length data"
    and bits: "\<And>j. bit v j \<longleftrightarrow> j \<le> unat e - unat s
        \<and> bit (if bo = 1 then combine_be 0 bs else combine_le 0 0 bs) (unat s mod 8 + j)"
    by (rule range_raw_value_Some) blast
  let ?i = "(unat s mod 8 + j) div 8"
  have split: "unat s div 8 + ?i = (unat s + j) div 8" "(unat s mod 8 + j) mod 8 = (unat s + j) mod 8"
    by (simp_all add: div_add_mod mod_simps)
  show ?thesis
  proof (cases "j \<le> unat e - unat s")
    case True
    then have "unat s + j \<le> unat e" using le by simp
    then have "(unat s + j) div 8 \<le> unat e div 8" by (rule div_le_mono)
    then have i: "?i \<le> unat e div 8 - unat s div 8" and ab: "unat s div 8 \<le> unat e div 8"
      using split by linarith+
    have "bs ! ?i = data ! (bi + unat s div 8 + ?i)"
      unfolding bs using i ab len by (intro nth_status_slice) simp_all
    moreover have "?i < length bs" using i ab len by (simp add: bs Suc_diff_le)
    moreover have "unat s mod 8 + j < 64" using True w by simp
    ultimately show ?thesis using True bits[of j] assms(2) split
      by (simp add: bit_combine_le add.assoc)
  next
    case False
    then show ?thesis by (simp add: bits)
  qed
qed

lemma slice_index_rev: "(a :: nat) \<le> b \<Longrightarrow> i \<le> b - a \<Longrightarrow> k + a + (b - a - i) = k + b - i"
  by linarith

lemma range_value_be:
  assumes "range_raw_value data bi s e 1 = Some v"
  shows "bit v j \<longleftrightarrow> j \<le> unat e - unat s
           \<and> bit (data ! (bi + unat e div 8 - (unat s mod 8 + j) div 8)) ((unat s + j) mod 8)
           \<and> (unat s mod 8 + j) div 8 \<le> unat e div 8 - unat s div 8"
proof -
  from assms obtain bs where bs: "bs = drop (bi + unat s div 8) (take (bi + unat e div 8 + 1) data)"
    and le: "unat s \<le> unat e" and w: "unat e - unat s < 32" and len: "bi + unat e div 8 < length data"
    and bits: "\<And>j. bit v j \<longleftrightarrow> j \<le> unat e - unat s
        \<and> bit (if (1 :: u32) = 1 then combine_be 0 bs else combine_le 0 0 bs) (unat s mod 8 + j)"
    by (rule range_raw_value_Some) blast
  let ?i = "(unat s mod 8 + j) div 8" and ?d = "unat e div 8 - unat s div 8"
  have ab: "unat s div 8 \<le> unat e div 8" using le by (rule div_le_mono)
  have lb: "length bs = Suc ?d" using ab len by (simp add: bs)
  show ?thesis
  proof (cases "j \<le> unat e - unat s \<and> ?i \<le> ?d")
    case True
    have "rev bs ! ?i = bs ! (?d - ?i)" using True lb by (simp add: rev_nth)
    also have "\<dots> = data ! (bi + unat s div 8 + (?d - ?i))"
      unfolding bs using ab len by (intro nth_status_slice) linarith+
    also have "bi + unat s div 8 + (?d - ?i) = bi + unat e div 8 - ?i"
      using True ab by (intro slice_index_rev) simp_all
    finally have "rev bs ! ?i = data ! (bi + unat e div 8 - ?i)" .
    moreover have "unat s mod 8 + j < 64"
    proof -
      have "j < 32" "unat s mod 8 < 8" using True w by simp_all
      then show ?thesis by linarith
    qed
    ultimately show ?thesis using True bits[of j] lb
      by (simp add: bit_combine_le combine_be_rev mod_simps)
  next
    case False
    then show ?thesis using bits[of j] lb by (auto simp: combine_be_rev bit_combine_le)
  qed
qed

lemma range_raw_value_defined:
  assumes "length data * 8 < 2 ^ 32"
  shows "range_raw_value data bi s e bo \<noteq> None \<longleftrightarrow>
           unat s \<le> unat e \<and> unat e - unat s < 32 \<and> bi + unat e div 8 < length data"
proof -
  have t: "unat (of_nat (length data * 8) :: u32) = length data * 8"
    using assms by (intro unat_of_nat_small) simp
  have "bi + unat e div 8 < length data \<Longrightarrow> unat e < length data * 8" by linarith
  with t show ?thesis
    by (auto simp: range_raw_value_def Let_def word_less_nat_alt word_le_nat_alt)
qed

lemma raw_value_defined_iff:
  assumes "length data * 8 < 2 ^ 32"
  shows "raw_value data r \<noteq> None \<longleftrightarrow> record_bounds_error r (length data) = None"
  using range_raw_value_defined[OF assms]
  by (cases "rec_bit_index r") (auto simp: raw_value_def record_bounds_error_def Let_def not_le)

section \<open>The status map\<close>

lemma parse_status_from_eq:
  "parse_status_from m data rs =
     m ++ map_of (rev (List.map_filter (\<lambda>r. map_option (Pair (rec_kks r)) (record_value data r)) rs))"
  by (induction rs arbitrary: m)
    (auto simp: List.map_filter_def map_add_def fun_eq_iff split: option.splits)

lemma parse_status_from_frame:
  "k \<notin> rec_kks ` set rs \<Longrightarrow> parse_status_from m data rs k = m k"
  by (induction rs arbitrary: m) (auto split: option.split)

lemma parse_status_lookup:
  assumes "distinct (map rec_kks rs)" and "r \<in> set rs"
  shows "parse_status_from m data rs (rec_kks r) =
           (case record_value data r of None \<Rightarrow> m (rec_kks r) | Some v \<Rightarrow> Some v)"
  using assms
proof (induction rs arbitrary: m)
  case Nil
  then show ?case by simp
next
  case (Cons x xs)
  show ?case
  proof (cases "x = r")
    case True
    with Cons.prems have "rec_kks r \<notin> rec_kks ` set xs" by auto
    with True show ?thesis by (simp add: parse_status_from_frame split: option.split)
  next
    case False
    with Cons.prems have "rec_kks x \<noteq> rec_kks r" by (auto simp: image_iff)
    with False Cons show ?thesis by (auto split: option.split)
  qed
qed

section \<open>Frames\<close>

definition encode_data_packet :: "u8 \<Rightarrow> u8 \<Rightarrow> bytes \<Rightarrow> bytes" where
  "encode_data_packet addr cmd status =
     (let body = [addr, cmd, of_nat (length status - 1)] @ status in body @ [get_sum body])"

lemma parse_data_packet_encoded:
  assumes "1 \<le> length status" and "length status \<le> 256"
  shows "parse_data_packet (encode_data_packet addr cmd status) =
           Ok \<lparr>dp_addr = addr, dp_cmd = cmd, dp_len = of_nat (length status - 1),
               dp_status = status, dp_crc = get_sum ([addr, cmd, of_nat (length status - 1)] @ status)\<rparr>"
proof -
  have u: "unat (of_nat (length status - 1) :: u8) = length status - 1"
    using assms by (intro unat_of_nat_small) simp
  have "verify_checksum (encode_data_packet addr cmd status)"
    by (simp add: encode_data_packet_def Let_def verify_checksum_snoc[of "_ # _ # _ # _", simplified])
  with assms u show ?thesis
    by (simp add: parse_data_packet_def encode_data_packet_def Let_def nth_append)
qed

lemma parse_data_packet_Ok:
  assumes "parse_data_packet data = Ok p"
  shows "1 \<le> length (dp_status p) \<and> length (dp_status p) \<le> 256
    \<and> dp_len p = of_nat (length (dp_status p) - 1)
    \<and> data = encode_data_packet (dp_addr p) (dp_cmd p) (dp_status p)"
proof -
  from assms have len: "4 \<le> length data" "unat (data ! 2) + 2 = length data - 3"
    and v: "verify_checksum data"
    and p: "p = \<lparr>dp_addr = data ! 0, dp_cmd = data ! 1, dp_len = data ! 2,
               dp_status = drop 3 (take (length data - 1) data), dp_crc = data ! (length data - 1)\<rparr>"
    by (auto simp: parse_data_packet_def not_less split: if_splits)
  obtain xs where d: "data = xs @ [get_sum xs]" using v by (auto simp: verify_checksum_iff)
  with len(1) have "3 \<le> length xs" by simp
  then obtain a b c ys where xs: "xs = a # b # c # ys" by (rule length_ge3E)
  have c: "unat c = length ys - 1" "1 \<le> length ys" using len(2) d xs by (simp_all)
  have l: "length ys \<le> 256" using c unat_u8_less[of c] by linarith
  with c(2) have "unat (of_nat (length ys - 1) :: u8) = length ys - 1"
    by (intro unat_of_nat_small) simp
  then have "c = of_nat (length ys - 1)" using c(1) by (simp only: word_unat_eq_iff)
  moreover note l
  ultimately show ?thesis using c(2) p d xs
    by (simp add: encode_data_packet_def Let_def nth_append)
qed

section \<open>Hexadecimal text\<close>

lemma hex_pairs_append:
  "length s mod 2 = 0 \<Longrightarrow> hex_pairs (s @ t) = hex_pairs s @ hex_pairs t"
  by (induction s rule: hex_pairs.induct) (auto simp: mod_Suc split: if_splits)

lemma hex_pairs_format: "hex_pairs (concat (map format_02X bs)) = map Ok bs"
proof (induction bs)
  case Nil
  then show ?case by simp
next
  case (Cons b bs)
  obtain x y where f: "format_02X b = [x, y]" by (simp add: format_02X_def)
  then have "u8_from_str_radix16 [x, y] = Some b" using format_02X_parses[of b] by simp
  with Cons f show ?case by simp
qed

lemma is_ascii_concat: "is_ascii (concat ss) \<longleftrightarrow> list_all is_ascii ss"
  by (induction ss) (auto simp: is_ascii_def)

lemma even_length_format: "length (concat (map format_02X bs)) mod 2 = 0"
  by (induction bs) auto

section \<open>Validated points\<close>

fun value_has_type :: "string \<Rightarrow> rcd_value \<Rightarrow> bool" where
  "value_has_type ty (V_UInt n) = (ty = ''uint'')"
| "value_has_type ty (V_Bool b) = (ty = ''bool'')"
| "value_has_type ty (V_Float f) = (ty = ''float'')"
| "value_has_type ty (V_Double f) = False"

lemma typed_value_defined:
  "ty \<in> {''uint'', ''bool'', ''float''} \<Longrightarrow> \<exists>v. typed_value ty raw = Some v \<and> value_has_type ty v"
  by (auto simp: typed_value_def)

text \<open>A point that the strict validation accepted has a value in every frame of the configured length.\<close>

lemma accepted_point_value:
  assumes "distinct (map rec_kks rs)" and "list_all (accepted_point False cfg ws) rs" and "r \<in> set rs"
    and "length data = unat (cfg_data_len cfg) + 1"
  shows "\<exists>v. parse_status data rs (rec_kks r) = Some v \<and> value_has_type (rec_type r) v"
proof -
  have acc: "accepted_point False cfg ws r" using assms(2,3) by (auto simp: list_all_iff)
  have "length data \<le> 256" using assms(4) unat_u8_less[of "cfg_data_len cfg"] by linarith
  then have "length data * 8 < 2 ^ 32" by simp
  then obtain raw where "raw_value data r = Some raw"
    using acc raw_value_defined_iff[of data r] assms(4) by (auto simp: accepted_point_def)
  with acc typed_value_defined[of "rec_type r" raw] parse_status_lookup[OF assms(1,3), of Map.empty data]
  show ?thesis by (auto simp: record_value_def parse_status_def accepted_point_def)
qed

lemma parsed_status_length:
  "parse_data_packet frame = Ok p \<Longrightarrow> length (dp_status p) = unat (dp_len p) + 1"
proof -
  assume "parse_data_packet frame = Ok p"
  from parse_data_packet_Ok[OF this] have l: "1 \<le> length (dp_status p)" "length (dp_status p) \<le> 256"
    "dp_len p = of_nat (length (dp_status p) - 1)" by simp_all
  have "unat (of_nat (length (dp_status p) - 1) :: u8) = length (dp_status p) - 1"
    using l(2) by (intro unat_of_nat_small) simp
  with l show ?thesis by simp
qed

end
