(* ===== verification/Command_Tracking.thy ===== *)
theory Command_Tracking
  imports Model
begin

text \<open>
  The in-memory command journal (\<open>src/src/command_tracking.rs\<close>, \<open>Tracker\<close>): admission of commands,
  the bounded cache of their snapshots, the tombstone filter and the memory side of the writer
  thread. Every section of the code that runs under the state lock is one definition; \<open>begin\<close> puts
  them together, with \<open>env\<close> standing for what other threads do while the lock is free. SHA-256
  is the parameter \<open>sha\<close>; the answer of the journal reader thread is the parameter \<open>lookup\<close>.
  Revisions are natural numbers (the \<open>u64\<close> counter grows by one per recorded event). Payloads are
  ASCII: the callers check them as hexadecimal text before.
\<close>

section \<open>Snapshots\<close>

record attempt =
  at_attempt :: u32
  at_sent :: bool
  at_result :: string
  at_at :: string

record snapshot =
  schema_version :: nat
  manager_instance_id :: string
  command_id :: string
  gateway_instance_id :: string
  boot_id :: string
  port_id :: string
  ack_id :: string
  request_hash :: string
  request_preview :: string
  device_id :: string
  accepted :: bool
  status_code :: u32
  phase :: string
  attempt_count :: u32
  sent_count :: u32
  attempts :: "attempt list"
  snap_error :: string
  snap_revision :: nat
  started_at :: string
  updated_at :: string
  audit_incomplete :: bool

definition terminal_phase :: "string \<Rightarrow> bool" where
  "terminal_phase p \<longleftrightarrow>
     p \<in> set [''AckReceived'', ''Failed'', ''Expired'', ''Unknown'', ''SentUnconfirmed'']"

definition terminal :: "snapshot \<Rightarrow> bool" where
  "terminal v \<longleftrightarrow> terminal_phase (phase v)"

definition NUL :: char where "NUL = CHR 0x00"

definition tracking_key :: "string \<Rightarrow> string \<Rightarrow> string" where
  "tracking_key manager command = manager @ NUL # command"

definition snapshot_key :: "snapshot \<Rightarrow> string" where
  "snapshot_key v = tracking_key (manager_instance_id v) (command_id v)"

section \<open>State\<close>

definition CACHE_LIMIT :: nat where "CACHE_LIMIT = 10000"
definition SEEN_BYTES :: nat where "SEEN_BYTES = 128 * 1024"
definition ATTEMPT_LIMIT :: nat where "ATTEMPT_LIMIT = 256"

record tracker_state =
  entries :: "(string \<times> snapshot) list"
  acks :: "string \<times> u64 \<rightharpoonup> string"
  dirty :: "(string \<times> snapshot) list"
  revision :: nat
  persisted :: "string \<rightharpoonup> nat"
  error :: string
  gap :: bool
  seen :: "nat \<Rightarrow> u8"

record tracker_ctx =
  gateway :: string
  boot :: string
  historical_ids :: "bytes list"
  history_known :: bool

datatype tracker_error =
    InvalidIdentity | PayloadTooLarge | IdReused | HistoryUnavailable
  | HistoricalEvidenceGone | EvidenceGone | TooManyActive | InstanceChanged
  | Journal string

definition open_state :: "nat \<Rightarrow> string \<Rightarrow> tracker_state" where
  "open_state head err =
     \<lparr>entries = [], acks = Map.empty, dirty = [], revision = head, persisted = Map.empty,
      error = err, gap = False, seen = (\<lambda>_. 0)\<rparr>"

definition degrade :: "string \<Rightarrow> tracker_state \<Rightarrow> tracker_state" where
  "degrade e s = s\<lparr>error := e\<rparr>"

definition validate_identity :: "tracker_ctx \<Rightarrow> string \<Rightarrow> string \<Rightarrow> tracker_error + unit" where
  "validate_identity ctx g b =
     (if g \<noteq> gateway ctx \<or> b \<noteq> boot ctx then Err InstanceChanged else Ok ())"

text \<open>\<open>get\<close>: the cached snapshot, flagged while the audit is degraded, or the journal's answer.\<close>

definition get ::
  "tracker_error + snapshot option \<Rightarrow> string \<Rightarrow> string \<Rightarrow> tracker_state \<Rightarrow>
   tracker_error + snapshot option" where
  "get lookup manager command s =
     (case map_of (entries s) (tracking_key manager command) of
        Some v \<Rightarrow> Ok (Some (v\<lparr>audit_incomplete := audit_incomplete v \<or> error s \<noteq> []\<rparr>))
      | None \<Rightarrow> lookup)"

text \<open>A changed snapshot goes to the cache and, for the writer, to the dirty table.\<close>

definition store :: "string \<Rightarrow> snapshot \<Rightarrow> tracker_state \<Rightarrow> tracker_state" where
  "store k v s = s\<lparr>entries := btree_insert k v (entries s), dirty := btree_insert k v (dirty s)\<rparr>"

section \<open>The tombstone filter\<close>

definition u32_from_le_bytes :: "bytes \<Rightarrow> nat" where
  "u32_from_le_bytes bs = foldr (\<lambda>b n. unat b + 256 * n) bs 0"

fun chunks4 :: "nat \<Rightarrow> bytes \<Rightarrow> bytes list" where
  "chunks4 0 bs = []"
| "chunks4 (Suc n) bs = (if length bs < 4 then [] else take 4 bs # chunks4 n (drop 4 bs))"

definition seen_indexes :: "bytes \<Rightarrow> nat list" where
  "seen_indexes digest = map (\<lambda>b. u32_from_le_bytes b mod (SEEN_BYTES * 8)) (chunks4 4 digest)"

definition seen_bit :: "(nat \<Rightarrow> u8) \<Rightarrow> nat \<Rightarrow> bool" where
  "seen_bit f i \<longleftrightarrow> and (f (i div 8)) (push_bit (i mod 8) 1) \<noteq> 0"

definition mark_seen :: "nat list \<Rightarrow> (nat \<Rightarrow> u8) \<Rightarrow> (nat \<Rightarrow> u8)" where
  "mark_seen idx f = foldl (\<lambda>f i. f(i div 8 := or (f (i div 8)) (push_bit (i mod 8) 1))) f idx"

section \<open>Admission\<close>

definition valid_identity_part :: "string \<Rightarrow> bool" where
  "valid_identity_part v \<longleftrightarrow> v \<noteq> [] \<and> length v \<le> 256 \<and> NUL \<notin> set v"

definition to_ascii_uppercase_char :: "char \<Rightarrow> char" where
  "to_ascii_uppercase_char c = (if is_ascii_lowercase c then char_of (code_of c - 32) else c)"

definition normalize_payload :: "string \<Rightarrow> string" where
  "normalize_payload payload =
     map to_ascii_uppercase_char (filter (\<lambda>c. \<not> is_ascii_whitespace c) payload)"

definition hex_lower :: "bytes \<Rightarrow> string" where
  "hex_lower bs = to_ascii_lowercase (concat (map format_02X bs))"

definition request_digest :: "(string \<Rightarrow> bytes) \<Rightarrow> string \<Rightarrow> string \<Rightarrow> string" where
  "request_digest sha port normalized = hex_lower (sha (port @ NUL # normalized))"

definition payload_device :: "string \<Rightarrow> string" where
  "payload_device normalized =
     (if length normalized < 2 then []
      else case u8_from_str_radix16 (take 2 normalized) of
             None \<Rightarrow> [] | Some b \<Rightarrow> show_nat (unat b))"

text \<open>The oldest finished command, by revision.\<close>

definition oldest_terminal :: "(string \<times> snapshot) list \<Rightarrow> string option" where
  "oldest_terminal es =
     (case filter (\<lambda>(k, v). terminal v) es of
        [] \<Rightarrow> None
      | c # cs \<Rightarrow> Some (fst (arg_min_list (\<lambda>(k, v). snap_revision v) (c # cs))))"

definition evict :: "string \<Rightarrow> tracker_state \<Rightarrow> tracker_state" where
  "evict old s =
     s\<lparr>gap := gap s \<or> map_of (dirty s) old \<noteq> None,
       dirty := btree_remove old (dirty s),
       entries := btree_remove old (entries s),
       persisted := (persisted s)(old := None),
       acks := (\<lambda>p. case acks s p of None \<Rightarrow> None | Some k \<Rightarrow> if k \<noteq> old then Some k else None)\<rparr>"

definition make_room :: "tracker_state \<Rightarrow> tracker_error + tracker_state" where
  "make_room s =
     (if length (entries s) \<ge> CACHE_LIMIT
      then case oldest_terminal (entries s) of
             None \<Rightarrow> Err TooManyActive
           | Some old \<Rightarrow> Ok (evict old s)
      else Ok s)"

record admission =
  adm_manager :: string
  adm_command :: string
  adm_port :: string
  adm_ack :: u64
  adm_hash :: string
  adm_normalized :: string
  adm_time :: string

definition new_snapshot :: "tracker_ctx \<Rightarrow> admission \<Rightarrow> tracker_state \<Rightarrow> snapshot" where
  "new_snapshot ctx a s =
     \<lparr>schema_version = 1, manager_instance_id = adm_manager a, command_id = adm_command a,
      gateway_instance_id = gateway ctx, boot_id = boot ctx, port_id = adm_port a,
      ack_id = show_nat (unat (adm_ack a)), request_hash = adm_hash a,
      request_preview = take 512 (adm_normalized a),
      device_id = payload_device (adm_normalized a), accepted = False, status_code = 0,
      phase = ''Accepted'', attempt_count = 0, sent_count = 0, attempts = [], snap_error = [],
      snap_revision = revision s, started_at = adm_time a, updated_at = adm_time a,
      audit_incomplete = (error s \<noteq> [])\<rparr>"

text \<open>The section of \<open>begin\<close> under the state lock.\<close>

definition admit ::
  "(string \<Rightarrow> bytes) \<Rightarrow> tracker_ctx \<Rightarrow> admission \<Rightarrow> tracker_state \<Rightarrow>
   tracker_error + (snapshot \<times> tracker_state)" where
  "admit sha ctx a s =
     (let idx = seen_indexes (sha (tracking_key (adm_manager a) (adm_command a))) in
      if list_all (seen_bit (seen s)) idx then Err EvidenceGone
      else and_then (make_room s) (\<lambda>s.
        let s = s\<lparr>seen := mark_seen idx (seen s), revision := revision s + 1\<rparr>;
            v = new_snapshot ctx a s;
            k = snapshot_key v
        in Ok (v, store k v (s\<lparr>acks := (acks s)((adm_port a, adm_ack a) \<mapsto> k)\<rparr>))))"

section \<open>Updates\<close>

text \<open>\<open>change\<close> is the closure of the caller; \<open>now\<close> the time stamp.\<close>

definition cap_attempts :: "snapshot \<Rightarrow> snapshot" where
  "cap_attempts v =
     (if length (attempts v) > ATTEMPT_LIMIT
      then v\<lparr>attempts := drop (length (attempts v) - ATTEMPT_LIMIT) (attempts v),
             audit_incomplete := True\<rparr>
      else v)"

definition update ::
  "string \<Rightarrow> string \<Rightarrow> u64 option \<Rightarrow> (snapshot \<Rightarrow> snapshot) \<Rightarrow> tracker_state \<Rightarrow> tracker_state" where
  "update now port ack change s =
     (case ack of
        None \<Rightarrow> s
      | Some a \<Rightarrow>
          (case acks s (port, a) of
             None \<Rightarrow> s
           | Some k \<Rightarrow>
               let s = s\<lparr>revision := revision s + 1\<rparr> in
               case map_of (entries s) k of
                 None \<Rightarrow> s
               | Some v \<Rightarrow>
                   let v = cap_attempts ((change v)\<lparr>snap_revision := revision s, updated_at := now\<rparr>)
                   in store k v s))"

definition is_terminal_ack :: "string \<Rightarrow> u64 \<Rightarrow> tracker_state \<Rightarrow> bool" where
  "is_terminal_ack port ack s =
     (case acks s (port, ack) of
        None \<Rightarrow> False
      | Some k \<Rightarrow> (case map_of (entries s) k of None \<Rightarrow> False | Some v \<Rightarrow> terminal v))"

section \<open>Admission, end to end\<close>

definition confirmed :: "string \<Rightarrow> snapshot \<Rightarrow> tracker_state \<Rightarrow> bool" where
  "confirmed k v s \<longleftrightarrow> (case persisted s k of None \<Rightarrow> False | Some r \<Rightarrow> r \<ge> snap_revision v)"

text \<open>
  The checks before the lock is taken. \<open>Ok None\<close> lets the request proceed to \<open>admit\<close>, \<open>Ok (Some v)\<close>
  answers a repeated request with the command it repeats.
\<close>

definition begin_lookup ::
  "(string \<Rightarrow> bytes) \<Rightarrow> tracker_ctx \<Rightarrow> (tracker_error + snapshot option) \<Rightarrow> (tracker_error \<Rightarrow> string) \<Rightarrow>
   string \<Rightarrow> string \<Rightarrow> string \<Rightarrow> tracker_state \<Rightarrow> (tracker_error + snapshot option) \<times> tracker_state" where
  "begin_lookup sha ctx lookup show_error manager command hash s =
     (let r = get lookup manager command s in
      case r of
        Inr (Some existing) \<Rightarrow>
          (if request_hash existing \<noteq> hash then Err IdReused else Ok (Some existing), s)
      | _ \<Rightarrow>
          (let s = (case r of Inl e \<Rightarrow> degrade (show_error e) s | _ \<Rightarrow> s) in
           if (case r of Inl e \<Rightarrow> \<not> history_known ctx | _ \<Rightarrow> False) then (Err HistoryUnavailable, s)
           else if sha (tracking_key manager command) \<in> set (historical_ids ctx)
             then (Err HistoricalEvidenceGone, s)
           else (Ok None, s)))"

text \<open>The wait for the writer: confirmed, or degraded and flagged.\<close>

definition begin_confirm ::
  "(tracker_error + snapshot option) \<Rightarrow> string \<Rightarrow> admission \<Rightarrow> snapshot \<Rightarrow> tracker_state \<Rightarrow>
   (tracker_error + (snapshot \<times> bool)) \<times> tracker_state" where
  "begin_confirm lookup now a v s =
     (if confirmed (snapshot_key v) v s then (Ok (v, True), s)
      else let s = degrade ''command acceptance not durably confirmed within 100 ms'' s;
               s = update now (adm_port a) (Some (adm_ack a)) (\<lambda>v. v\<lparr>audit_incomplete := True\<rparr>) s
           in (map_ok (\<lambda>r. (case r of Some w \<Rightarrow> w | None \<Rightarrow> v, True))
                 (get lookup (adm_manager a) (adm_command a) s), s))"

record begin_env =
  be_lookup :: "tracker_error + snapshot option"
  be_show_error :: "tracker_error \<Rightarrow> string"
  be_before_admit :: "tracker_state \<Rightarrow> tracker_state"
  be_while_waiting :: "tracker_state \<Rightarrow> tracker_state"
  be_time :: string
  be_now :: string

definition begin_command ::
  "(string \<Rightarrow> bytes) \<Rightarrow> tracker_ctx \<Rightarrow> begin_env \<Rightarrow> string \<Rightarrow> string \<Rightarrow> string \<Rightarrow> u64 \<Rightarrow> string \<Rightarrow>
   tracker_state \<Rightarrow> (tracker_error + (snapshot \<times> bool)) \<times> tracker_state" where
  "begin_command sha ctx env manager command port ack payload s =
     (if \<not> list_all valid_identity_part [manager, command, port] then (Err InvalidIdentity, s)
      else let normalized = normalize_payload payload in
      if length normalized > 65536 then (Err PayloadTooLarge, s)
      else let hash = request_digest sha port normalized in
      case begin_lookup sha ctx (be_lookup env) (be_show_error env) manager command hash s of
        (Inl e, s) \<Rightarrow> (Err e, s)
      | (Inr (Some existing), s) \<Rightarrow> (Ok (existing, False), s)
      | (Inr None, s) \<Rightarrow>
          (let a = \<lparr>adm_manager = manager, adm_command = command, adm_port = port, adm_ack = ack,
                    adm_hash = hash, adm_normalized = normalized, adm_time = be_time env\<rparr>;
               s = be_before_admit env s
           in case admit sha ctx a s of
                Inl e \<Rightarrow> (Err e, s)
              | Inr (v, s) \<Rightarrow> begin_confirm (be_lookup env) (be_now env) a v (be_while_waiting env s)))"

section \<open>The memory side of the writer thread\<close>

text \<open>After a snapshot was saved.\<close>

definition saved :: "snapshot \<Rightarrow> tracker_state \<Rightarrow> tracker_state" where
  "saved v s =
     (let k = snapshot_key v;
          s = s\<lparr>persisted := (persisted s)(k \<mapsto> snap_revision v)\<rparr>;
          s = (case map_of (dirty s) k of
                 None \<Rightarrow> s
               | Some x \<Rightarrow> if snap_revision x = snap_revision v
                           then s\<lparr>dirty := btree_remove k (dirty s)\<rparr> else s)
      in if dirty s = [] then s\<lparr>error := []\<rparr> else s)"

text \<open>The loops over the keys of \<open>dirty\<close> after a failed save and after a reopened database.\<close>

definition flag_incomplete :: "tracker_state \<Rightarrow> string \<Rightarrow> tracker_state" where
  "flag_incomplete s k =
     (case map_of (entries s) k of
        None \<Rightarrow> s
      | Some v \<Rightarrow> store k (v\<lparr>audit_incomplete := True\<rparr>) s)"

definition save_failed :: "string \<Rightarrow> tracker_state \<Rightarrow> tracker_state" where
  "save_failed e s = foldl flag_incomplete (s\<lparr>error := e\<rparr>) (map fst (dirty s))"

definition rebase_key :: "tracker_state \<Rightarrow> string \<Rightarrow> tracker_state" where
  "rebase_key s k =
     (let s = s\<lparr>revision := revision s + 1\<rparr> in
      case map_of (entries s) k of
        None \<Rightarrow> s
      | Some v \<Rightarrow> store k (v\<lparr>snap_revision := revision s, audit_incomplete := True\<rparr>) s)"

definition reopened :: "nat \<Rightarrow> tracker_state \<Rightarrow> tracker_state" where
  "reopened head s =
     foldl rebase_key (s\<lparr>revision := max (revision s) head\<rparr>) (map fst (dirty s))"

definition open_failed :: "string \<Rightarrow> tracker_state \<Rightarrow> tracker_state" where
  "open_failed e s = s\<lparr>error := e\<rparr>"

definition gap_restored :: "tracker_state \<Rightarrow> tracker_state" where
  "gap_restored s = s\<lparr>gap := True\<rparr>"

text \<open>No event above this revision is shown: older evidence may still have to be written.\<close>

definition events_ceiling :: "tracker_state \<Rightarrow> nat" where
  "events_ceiling s =
     (case map (\<lambda>(k, v). snap_revision v - 1) (dirty s) of
        [] \<Rightarrow> revision s
      | r # rs \<Rightarrow> Min (set (r # rs)))"

lemma store_fields [simp]:
  "entries (store k v s) = btree_insert k v (entries s)" "dirty (store k v s) = btree_insert k v (dirty s)"
  "acks (store k v s) = acks s" "revision (store k v s) = revision s" "seen (store k v s) = seen s"
  "gap (store k v s) = gap s" "error (store k v s) = error s" "persisted (store k v s) = persisted s"
  by (simp_all add: store_def)

section \<open>Steps of the tracker\<close>

text \<open>
  The sections under the state lock, in any order and from any thread. A step that admits a command
  is labelled with the identity it admits.
\<close>

inductive tracker_step ::
  "(string \<Rightarrow> bytes) \<Rightarrow> tracker_ctx \<Rightarrow> tracker_state \<Rightarrow> string option \<Rightarrow> tracker_state \<Rightarrow> bool"
  for sha ctx where
  st_admit: "admit sha ctx a s = Ok (v, s') \<Longrightarrow> tracker_step sha ctx s (Some (snapshot_key v)) s'"
| st_update: "(\<And>v. snapshot_key (change v) = snapshot_key v) \<Longrightarrow>
    tracker_step sha ctx s None (update now port ack change s)"
| st_degrade: "tracker_step sha ctx s None (degrade e s)"
| st_saved: "tracker_step sha ctx s None (saved v s)"
| st_save_failed: "tracker_step sha ctx s None (save_failed e s)"
| st_reopened: "tracker_step sha ctx s None (reopened head s)"
| st_open_failed: "tracker_step sha ctx s None (open_failed e s)"
| st_gap: "tracker_step sha ctx s None (gap_restored s)"

inductive tracker_run ::
  "(string \<Rightarrow> bytes) \<Rightarrow> tracker_ctx \<Rightarrow> tracker_state \<Rightarrow> string list \<Rightarrow> tracker_state \<Rightarrow> bool"
  for sha ctx where
  run_nil: "tracker_run sha ctx s [] s"
| run_silent: "tracker_run sha ctx s ks s' \<Longrightarrow> tracker_step sha ctx s' None s'' \<Longrightarrow> tracker_run sha ctx s ks s''"
| run_admit: "tracker_run sha ctx s ks s' \<Longrightarrow> tracker_step sha ctx s' (Some k) s'' \<Longrightarrow>
    tracker_run sha ctx s (ks @ [k]) s''"

section \<open>The tombstone filter only grows\<close>

lemma seen_bit_iff: "seen_bit f i \<longleftrightarrow> bit (f (i div 8)) (i mod 8)"
proof -
  have "and (f (i div 8)) (push_bit (i mod 8) 1) = (if bit (f (i div 8)) (i mod 8) then push_bit (i mod 8) 1 else 0)"
    by (auto intro!: bit_eqI simp: bit_and_iff bit_exp_iff split: if_splits)
  moreover have "push_bit (i mod 8) 1 \<noteq> (0 :: u8)"
    by (rule notI, drule arg_cong[of _ _ "\<lambda>w. bit w (i mod 8)"]) (simp add: bit_exp_iff)
  ultimately show ?thesis by (simp add: seen_bit_def)
qed

lemma seen_bit_mark:
  "seen_bit (mark_seen idx f) i \<longleftrightarrow> seen_bit f i \<or> i \<in> set idx"
proof -
  have same: "i div 8 = j div 8 \<and> i mod 8 = j mod 8 \<longleftrightarrow> i = j" for i j :: nat
    by (metis div_mod_decomp)
  have one: "seen_bit (f(j div 8 := or (f (j div 8)) (push_bit (j mod 8) 1))) i \<longleftrightarrow> seen_bit f i \<or> i = j" for f j
    using same[of i j] by (auto simp: seen_bit_iff bit_or_iff bit_exp_iff)
  show ?thesis
    unfolding mark_seen_def
  proof (induction idx arbitrary: f)
    case (Cons j idx)
    then show ?case by (simp only: foldl_Cons one list.set insert_iff) blast
  qed simp
qed

lemma step_seen_mono:
  assumes "tracker_step sha ctx s l s'" and "seen_bit (seen s) i"
  shows "seen_bit (seen s') i"
  using assms
proof (cases rule: tracker_step.cases)
  case (st_admit a v)
  then show ?thesis using assms(2)
    by (auto simp: admit_def make_room_def evict_def Let_def seen_bit_mark split: if_splits option.splits)
next
  case (st_update change now port ack)
  then show ?thesis using assms(2) by (auto simp: update_def Let_def split: option.splits)
next
  case (st_save_failed e)
  have "seen (foldl flag_incomplete t ks) = seen t" for t ks
    by (induction ks arbitrary: t) (auto simp: flag_incomplete_def Let_def split: option.splits)
  with st_save_failed assms(2) show ?thesis by (simp add: save_failed_def)
next
  case (st_reopened head)
  have "seen (foldl rebase_key t ks) = seen t" for t ks
    by (induction ks arbitrary: t) (auto simp: rebase_key_def Let_def split: option.splits)
  with st_reopened assms(2) show ?thesis by (simp add: reopened_def)
qed (auto simp: degrade_def saved_def open_failed_def gap_restored_def Let_def split: option.splits)

text \<open>The filter bits of an identity.\<close>

definition tombstoned :: "(string \<Rightarrow> bytes) \<Rightarrow> string \<Rightarrow> tracker_state \<Rightarrow> bool" where
  "tombstoned sha k s \<longleftrightarrow> list_all (seen_bit (seen s)) (seen_indexes (sha k))"

lemma step_tombstoned: "tracker_step sha ctx s l s' \<Longrightarrow> tombstoned sha k s \<Longrightarrow> tombstoned sha k s'"
  by (auto simp: tombstoned_def list_all_iff step_seen_mono)

lemma admit_key: "admit sha ctx a s = Ok (v, s') \<Longrightarrow> snapshot_key v = tracking_key (adm_manager a) (adm_command a)"
  by (auto simp: admit_def Let_def new_snapshot_def snapshot_key_def split: if_splits)

lemma admit_tombstones:
  assumes "admit sha ctx a s = Ok (v, s')"
  shows "\<not> tombstoned sha (snapshot_key v) s" and "tombstoned sha (snapshot_key v) s'"
  using assms
  by (auto simp: admit_key[OF assms] tombstoned_def admit_def Let_def list_all_iff seen_bit_mark split: if_splits)

lemma run_tombstoned:
  "tracker_run sha ctx s ks s' \<Longrightarrow> k \<in> set ks \<Longrightarrow> tombstoned sha k s'"
proof (induction rule: tracker_run.induct)
  case (run_admit s ks s' k' s'')
  have "tombstoned sha k' s''"
    using run_admit.hyps(2) by (cases rule: tracker_step.cases) (auto dest: admit_tombstones(2))
  with run_admit show ?case by (auto intro: step_tombstoned)
qed (auto intro: step_tombstoned)

text \<open>No identity is admitted twice, whatever the threads do in between.\<close>

lemma run_admits_once: "tracker_run sha ctx s ks s' \<Longrightarrow> distinct ks"
proof (induction rule: tracker_run.induct)
  case (run_admit s ks s' k s'')
  from run_admit.hyps(2) have "\<not> tombstoned sha k s'"
    by (cases rule: tracker_step.cases) (auto dest: admit_tombstones(1))
  with run_admit run_tombstoned[OF run_admit.hyps(1)] show ?case by auto
qed simp_all

section \<open>The invariant of the tracker\<close>

text \<open>
  The cache is bounded and keyed by identity, its revisions are distinct and not above the counter,
  what waits to be written is the cached snapshot, and every pending acknowledgement names a cached
  command.
\<close>

definition entry_ok :: "tracker_state \<Rightarrow> string \<Rightarrow> snapshot \<Rightarrow> bool" where
  "entry_ok s k v \<longleftrightarrow> snapshot_key v = k \<and> snap_revision v \<le> revision s
     \<and> length (attempts v) \<le> ATTEMPT_LIMIT"

definition tracker_ok :: "tracker_state \<Rightarrow> bool" where
  "tracker_ok s \<longleftrightarrow>
     btree_ok (entries s) \<and> btree_ok (dirty s) \<and> length (entries s) \<le> CACHE_LIMIT \<and>
     (\<forall>k v. map_of (entries s) k = Some v \<longrightarrow> entry_ok s k v) \<and>
     inj_on (\<lambda>k. map_option snap_revision (map_of (entries s) k)) (dom (map_of (entries s))) \<and>
     map_of (dirty s) \<subseteq>\<^sub>m map_of (entries s) \<and>
     ran (acks s) \<subseteq> dom (map_of (entries s))"

lemma tracker_ok_open: "tracker_ok (open_state head e)"
  by (simp add: tracker_ok_def open_state_def btree_ok_def)

lemma map_le_upd_both: "m \<subseteq>\<^sub>m n \<Longrightarrow> m(k \<mapsto> v) \<subseteq>\<^sub>m n(k \<mapsto> v)"
  by (auto simp: map_le_def)

text \<open>Storing a snapshot whose revision no other command has keeps the invariant.\<close>

lemma store_ok:
  assumes ok: "tracker_ok s" and v: "entry_ok s k v"
    and room: "map_of (entries s) k \<noteq> None \<or> length (entries s) < CACHE_LIMIT"
    and fresh: "\<And>k' v'. k' \<noteq> k \<Longrightarrow> map_of (entries s) k' = Some v' \<Longrightarrow> snap_revision v' \<noteq> snap_revision v"
  shows "tracker_ok (store k v s)"
proof -
  have e: "map_of (entries (store k v s)) = (map_of (entries s))(k \<mapsto> v)"
    and d: "map_of (dirty (store k v s)) = (map_of (dirty s))(k \<mapsto> v)"
    using ok by (simp_all add: tracker_ok_def map_of_btree_insert)
  have "inj_on (\<lambda>x. map_option snap_revision (((map_of (entries s))(k \<mapsto> v)) x)) (insert k (dom (map_of (entries s))))"
    using ok fresh unfolding tracker_ok_def inj_on_def
    by (auto split: if_splits) (metis fresh)+
  moreover have "length (entries (store k v s)) \<le> CACHE_LIMIT"
    using ok room by (auto simp: tracker_ok_def length_btree_insert)
  moreover have "\<forall>k' v'. ((map_of (entries s))(k \<mapsto> v)) k' = Some v' \<longrightarrow> entry_ok (store k v s) k' v'"
    using ok v by (auto simp: tracker_ok_def entry_ok_def)
  ultimately show ?thesis
    using ok unfolding tracker_ok_def e d
    by (auto simp: btree_ok_insert map_le_upd_both)
qed

lemma tracker_ok_revision: "tracker_ok s \<Longrightarrow> revision s \<le> n \<Longrightarrow> tracker_ok (s\<lparr>revision := n\<rparr>)"
  by (fastforce simp: tracker_ok_def entry_ok_def)

lemma store_fresh_ok:
  assumes ok: "tracker_ok s" and "snap_revision v = Suc (revision s)" and "snapshot_key v = k"
    and "length (attempts v) \<le> ATTEMPT_LIMIT"
    and "map_of (entries s) k \<noteq> None \<or> length (entries s) < CACHE_LIMIT"
  shows "tracker_ok (store k v (s\<lparr>revision := Suc (revision s)\<rparr>))"
proof (rule store_ok)
  show "tracker_ok (s\<lparr>revision := Suc (revision s)\<rparr>)" using ok by (simp add: tracker_ok_revision)
  fix k' v' assume "map_of (entries (s\<lparr>revision := Suc (revision s)\<rparr>)) k' = Some v'"
  with ok have "snap_revision v' \<le> revision s" by (simp add: tracker_ok_def entry_ok_def)
  with assms(2) show "snap_revision v' \<noteq> snap_revision v" by simp
qed (use assms in \<open>auto simp: entry_ok_def\<close>)

lemma cap_attempts_fields [simp]:
  "snap_revision (cap_attempts v) = snap_revision v" "snapshot_key (cap_attempts v) = snapshot_key v"
  "length (attempts (cap_attempts v)) \<le> ATTEMPT_LIMIT" "phase (cap_attempts v) = phase v"
  by (auto simp: cap_attempts_def snapshot_key_def)

lemma snapshot_key_update [simp]:
  "snapshot_key (v\<lparr>snap_revision := r\<rparr>) = snapshot_key v" "snapshot_key (v\<lparr>updated_at := t\<rparr>) = snapshot_key v"
  "snapshot_key (v\<lparr>audit_incomplete := b\<rparr>) = snapshot_key v"
  by (simp_all add: snapshot_key_def)

lemma update_ok:
  assumes ok: "tracker_ok s" and change: "\<And>v. snapshot_key (change v) = snapshot_key v"
  shows "tracker_ok (update now port ack change s)"
proof -
  have "tracker_ok (store k (cap_attempts ((change v)\<lparr>snap_revision := Suc (revision s), updated_at := now\<rparr>))
      (s\<lparr>revision := Suc (revision s)\<rparr>))" if "map_of (entries s) k = Some v" for k v
  proof (rule store_fresh_ok[OF ok])
    show "snapshot_key (cap_attempts ((change v)\<lparr>snap_revision := Suc (revision s), updated_at := now\<rparr>)) = k"
      using ok that by (simp add: change tracker_ok_def entry_ok_def)
  qed (use that in simp_all)
  with ok show ?thesis
    by (auto simp: update_def Let_def tracker_ok_revision split: option.split)
qed

lemma flag_ok: "tracker_ok s \<Longrightarrow> tracker_ok (flag_incomplete s k)"
  unfolding flag_incomplete_def
proof (split option.split, intro conjI allI impI)
  fix v assume ok: "tracker_ok s" and v: "map_of (entries s) k = Some v"
  show "tracker_ok (store k (v\<lparr>audit_incomplete := True\<rparr>) s)"
  proof (rule store_ok[OF ok])
    fix k' v' assume "k' \<noteq> k" "map_of (entries s) k' = Some v'"
    with ok v show "snap_revision v' \<noteq> snap_revision (v\<lparr>audit_incomplete := True\<rparr>)"
      by (auto simp: tracker_ok_def inj_on_def dom_def)
  qed (use ok v in \<open>auto simp: tracker_ok_def entry_ok_def\<close>)
qed

lemma rebase_ok: "tracker_ok s \<Longrightarrow> tracker_ok (rebase_key s k)"
  unfolding rebase_key_def Let_def
proof (split option.split, intro conjI allI impI)
  fix v assume ok: "tracker_ok s" and v: "map_of (entries (s\<lparr>revision := revision s + 1\<rparr>)) k = Some v"
  then show "tracker_ok (store k (v\<lparr>snap_revision := revision (s\<lparr>revision := revision s + 1\<rparr>), audit_incomplete := True\<rparr>)
       (s\<lparr>revision := revision s + 1\<rparr>))"
    using store_fresh_ok[OF ok, of "v\<lparr>snap_revision := Suc (revision s), audit_incomplete := True\<rparr>" k]
    by (simp add: tracker_ok_def entry_ok_def)
qed (simp add: tracker_ok_revision)

lemma oldest_terminal_Some:
  assumes "oldest_terminal es = Some k" and "btree_ok es"
  obtains v where "map_of es k = Some v" and "terminal v"
    and "\<And>k' v'. map_of es k' = Some v' \<Longrightarrow> terminal v' \<Longrightarrow> snap_revision v \<le> snap_revision v'"
proof -
  let ?ts = "filter (\<lambda>(k, v). terminal v) es" and ?f = "\<lambda>(k, v). snap_revision v"
  have ne: "?ts \<noteq> []" and k: "k = fst (arg_min_list ?f ?ts)"
    using assms(1) by (auto simp: oldest_terminal_def split: list.splits)
  obtain v where kv: "arg_min_list ?f ?ts = (k, v)" using k by (metis prod.collapse)
  then have mem: "(k, v) \<in> set ?ts" using arg_min_list_in[OF ne, of ?f] by simp
  have dist: "distinct (map fst es)" using assms(2) by (simp add: bt.entries_distinct)
  have "snap_revision v \<le> snap_revision v'" if "map_of es k' = Some v'" "terminal v'" for k' v'
  proof -
    have "(k', v') \<in> set ?ts" using that map_of_SomeD by fastforce
    then have "?f (arg_min_list ?f ?ts) \<le> ?f (k', v')"
      using f_arg_min_list_f[OF ne, of ?f] by (metis (no_types, lifting) Min_le finite_imageI finite_set image_eqI)
    then show ?thesis by (simp add: kv)
  qed
  with mem dist that show thesis by auto
qed

lemma evict_ok:
  assumes ok: "tracker_ok s" and old: "map_of (entries s) old \<noteq> None"
  shows "tracker_ok (evict old s)" and "length (entries (evict old s)) < CACHE_LIMIT"
proof -
  have e: "map_of (entries (evict old s)) = (map_of (entries s))(old := None)"
    and d: "map_of (dirty (evict old s)) = (map_of (dirty s))(old := None)"
    by (simp_all add: evict_def map_of_btree_remove)
  have "distinct (map fst (entries s))" using ok by (simp add: tracker_ok_def bt.entries_distinct)
  from length_btree_remove[OF this old] ok show l: "length (entries (evict old s)) < CACHE_LIMIT"
    by (simp add: evict_def tracker_ok_def)
  have "inj_on (\<lambda>x. map_option snap_revision (((map_of (entries s))(old := None)) x)) (dom (map_of (entries s)) - {old})"
    using ok by (auto simp: tracker_ok_def inj_on_def)
  moreover have "(map_of (dirty s))(old := None) \<subseteq>\<^sub>m (map_of (entries s))(old := None)"
    using ok by (auto simp: tracker_ok_def map_le_def)
  moreover have "ran (acks (evict old s)) \<subseteq> dom (map_of (entries s)) - {old}"
    using ok by (auto simp: tracker_ok_def evict_def ran_def split: option.splits if_splits) blast
  moreover have "\<forall>k v. ((map_of (entries s))(old := None)) k = Some v \<longrightarrow> entry_ok (evict old s) k v"
    using ok by (auto simp: tracker_ok_def entry_ok_def evict_def)
  ultimately show "tracker_ok (evict old s)"
    using ok l unfolding tracker_ok_def e d
    by (auto simp: evict_def btree_ok_remove)
qed

lemma make_room_ok:
  assumes "tracker_ok s" and "make_room s = Ok s'"
  shows "tracker_ok s'" and "length (entries s') < CACHE_LIMIT"
  using assms evict_ok[OF assms(1)]
  by (auto simp: make_room_def tracker_ok_def not_le split: if_splits option.splits
      elim!: oldest_terminal_Some)

lemma tracker_ok_cong:
  "tracker_ok s \<Longrightarrow> entries s' = entries s \<Longrightarrow> dirty s' = dirty s \<Longrightarrow> revision s' = revision s \<Longrightarrow>
     ran (acks s') \<subseteq> dom (map_of (entries s)) \<Longrightarrow> tracker_ok s'"
  by (simp add: tracker_ok_def entry_ok_def)

lemma store_ack_ok:
  assumes ok: "tracker_ok (store k v s)"
    and s': "entries s' = btree_insert k v (entries s)" "dirty s' = btree_insert k v (dirty s)"
      "revision s' = revision s" "acks s' = (acks s)(p \<mapsto> k)"
  shows "tracker_ok s'"
proof (rule tracker_ok_cong[OF ok])
  have "k \<in> dom (map_of (entries (store k v s)))"
    by (simp add: dom_map_of_conv_image_fst set_btree_insert_keys)
  moreover have "ran (acks s') \<subseteq> insert k (ran (acks s))" unfolding s' by (auto simp: ran_def)
  moreover have "ran (acks s) \<subseteq> dom (map_of (entries (store k v s)))" using ok by (simp add: tracker_ok_def)
  ultimately show "ran (acks s') \<subseteq> dom (map_of (entries (store k v s)))" by blast
qed (simp_all add: s')

lemma admit_ok:
  assumes ok: "tracker_ok s" and adm: "admit sha ctx a s = Ok (v, s')"
  shows "tracker_ok s'"
proof -
  obtain r where r: "make_room s = Ok r" using adm by (auto simp: admit_def Let_def split: if_splits)
  define t where "t = r\<lparr>seen := mark_seen (seen_indexes (sha (tracking_key (adm_manager a) (adm_command a)))) (seen r),
      revision := revision r + 1\<rparr>"
  have s': "s' = store (snapshot_key v) v (t\<lparr>acks := (acks t)((adm_port a, adm_ack a) \<mapsto> snapshot_key v)\<rparr>)"
    and v: "v = new_snapshot ctx a t"
    using adm r by (auto simp: admit_def Let_def t_def split: if_splits)
  have "tracker_ok (store (snapshot_key v) v (r\<lparr>revision := Suc (revision r)\<rparr>))"
    using make_room_ok[OF ok r] by (intro store_fresh_ok) (simp_all add: v new_snapshot_def t_def)
  then show ?thesis by (rule store_ack_ok) (simp_all add: s' t_def)
qed

lemma saved_ok: "tracker_ok s \<Longrightarrow> tracker_ok (saved v s)"
  by (auto simp: saved_def Let_def tracker_ok_def entry_ok_def btree_ok_remove map_of_btree_remove
      map_le_def bt.invar_empty split: option.splits if_splits)

lemma foldl_ok: "tracker_ok s \<Longrightarrow> (\<And>s k. tracker_ok s \<Longrightarrow> tracker_ok (f s k)) \<Longrightarrow> tracker_ok (foldl f s ks)"
  by (induction ks arbitrary: s) simp_all

lemma step_ok: "tracker_step sha ctx s l s' \<Longrightarrow> tracker_ok s \<Longrightarrow> tracker_ok s'"
proof (induction rule: tracker_step.induct)
  case (st_save_failed s e)
  have "tracker_ok (s\<lparr>error := e\<rparr>)"
    by (rule tracker_ok_cong[OF st_save_failed]) (use st_save_failed in \<open>auto simp: tracker_ok_def\<close>)
  then show ?case by (simp add: save_failed_def foldl_ok flag_ok)
next
  case (st_reopened s head)
  then show ?case by (simp add: reopened_def foldl_ok rebase_ok tracker_ok_revision)
next
  case (st_admit a s v s')
  then show ?case by (rule admit_ok[rotated])
next
  case (st_update change s now port ack)
  then show ?case by (intro update_ok)
next
  case (st_saved s v)
  then show ?case by (rule saved_ok)
qed (simp_all add: degrade_def open_failed_def gap_restored_def tracker_ok_def entry_ok_def)

lemma run_ok: "tracker_run sha ctx s ks s' \<Longrightarrow> tracker_ok s \<Longrightarrow> tracker_ok s'"
  by (induction rule: tracker_run.induct) (auto intro: step_ok)

section \<open>Loss of evidence is recorded\<close>

lemma dom_store: "dom (map_of (entries (store k v s))) = insert k (dom (map_of (entries s)))"
  by (simp add: dom_map_of_conv_image_fst set_btree_insert_keys)

lemma dom_flag: "dom (map_of (entries (foldl flag_incomplete s ks))) = dom (map_of (entries s))"
  by (induction ks arbitrary: s) (auto simp: flag_incomplete_def dom_store simp del: store_fields split: option.splits)

lemma dom_rebase: "dom (map_of (entries (foldl rebase_key s ks))) = dom (map_of (entries s))"
  by (induction ks arbitrary: s) (auto simp: rebase_key_def Let_def dom_store simp del: store_fields split: option.splits)

lemma dom_update: "dom (map_of (entries (update now port ack change s))) = dom (map_of (entries s))"
  by (auto simp: update_def Let_def dom_store simp del: store_fields split: option.splits)

lemma silent_keeps_entries:
  "tracker_step sha ctx s None s' \<Longrightarrow> dom (map_of (entries s')) = dom (map_of (entries s))"
  by (erule tracker_step.cases)
     (simp_all add: dom_update degrade_def saved_def Let_def save_failed_def dom_flag reopened_def
       dom_rebase open_failed_def gap_restored_def split: option.split)

lemma admit_evicts:
  assumes ok: "tracker_ok s" and adm: "admit sha ctx a s = Ok (w, s')"
    and v: "map_of (entries s) k = Some v" and gone: "map_of (entries s') k = None"
  shows "terminal v \<and> length (entries s) = CACHE_LIMIT \<and> (map_of (dirty s) k \<noteq> None \<longrightarrow> gap s')
    \<and> (\<forall>k' v'. map_of (entries s) k' = Some v' \<longrightarrow> terminal v' \<longrightarrow> snap_revision v \<le> snap_revision v')"
proof -
  obtain r where r: "make_room s = Ok r"
    and s': "dom (map_of (entries s')) = insert (snapshot_key w) (dom (map_of (entries r)))" "gap s' = gap r"
    using adm by (auto simp: admit_def Let_def dom_store simp del: store_fields(1) split: if_splits)
  then have "map_of (entries r) k = None" using gone by (metis domIff insertCI)
  with r v have full: "length (entries s) \<ge> CACHE_LIMIT" and old: "oldest_terminal (entries s) = Some k"
    and "r = evict k s"
    by (auto simp: make_room_def evict_def map_of_btree_remove split: if_splits option.splits)
  have bok: "btree_ok (entries s)" using ok by (simp add: tracker_ok_def)
  obtain w where "map_of (entries s) k = Some w" "terminal w"
    "\<And>k' v'. map_of (entries s) k' = Some v' \<Longrightarrow> terminal v' \<Longrightarrow> snap_revision w \<le> snap_revision v'"
    by (rule oldest_terminal_Some[OF old bok]) blast
  with v full ok s'(2) \<open>r = evict k s\<close> show ?thesis by (auto simp: tracker_ok_def evict_def)
qed

text \<open>Only a finished command leaves the cache, only when it is full, and unsaved evidence leaves a mark.\<close>

lemma step_loss:
  assumes "tracker_step sha ctx s l s'" and "tracker_ok s"
    and "map_of (entries s) k = Some v" and "map_of (entries s') k = None"
  shows "terminal v \<and> length (entries s) = CACHE_LIMIT \<and> (map_of (dirty s) k \<noteq> None \<longrightarrow> gap s')"
proof (cases l)
  case None
  with assms silent_keeps_entries[of sha ctx s s'] show ?thesis by (auto simp: domIff)
next
  case (Some x)
  with assms(1) obtain a w where "admit sha ctx a s = Ok (w, s')" by (auto elim: tracker_step.cases)
  from admit_evicts[OF assms(2) this assms(3,4)] show ?thesis by blast
qed

lemma gap_flag: "gap (foldl flag_incomplete s ks) = gap s"
  by (induction ks arbitrary: s) (auto simp: flag_incomplete_def split: option.splits)

lemma gap_rebase: "gap (foldl rebase_key s ks) = gap s"
  by (induction ks arbitrary: s) (auto simp: rebase_key_def Let_def split: option.splits)

lemma gap_stays: "tracker_step sha ctx s l s' \<Longrightarrow> gap s \<Longrightarrow> gap s'"
  by (erule tracker_step.cases)
     (auto simp: admit_def make_room_def evict_def update_def degrade_def saved_def Let_def save_failed_def
       reopened_def gap_flag gap_rebase open_failed_def gap_restored_def split: option.splits if_splits)

lemma ceiling_below_dirty:
  assumes "(k, v) \<in> set (dirty s)" and "0 < snap_revision v"
  shows "events_ceiling s < snap_revision v"
proof -
  let ?rs = "map (\<lambda>(k, v). snap_revision v - 1) (dirty s)"
  have "snap_revision v - 1 \<in> set ?rs" using assms(1) by force
  moreover from this have "events_ceiling s = Min (set ?rs)"
    by (auto simp: events_ceiling_def split: list.split)
  ultimately have "events_ceiling s \<le> snap_revision v - 1" by simp
  with assms(2) show ?thesis by simp
qed

section \<open>Admission, end to end\<close>

lemma key_inj:
  assumes "tracking_key m c = tracking_key m' c'" and "NUL \<notin> set m" and "NUL \<notin> set m'"
  shows "m = m' \<and> c = c'"
  using assms
proof (induction m arbitrary: m')
  case Nil
  then show ?case by (cases m') (auto simp: tracking_key_def)
next
  case (Cons x m)
  then show ?case by (cases m') (auto simp: tracking_key_def)
qed

text \<open>A request for a cached identity changes nothing and never counts as new.\<close>

lemma begin_repeated:
  assumes "map_of (entries s) (tracking_key manager command) = Some v"
  shows "snd (begin_command sha ctx env manager command port ack payload s) = s"
    and "fst (begin_command sha ctx env manager command port ack payload s) = Ok (w, new) \<Longrightarrow>
      \<not> new \<and> request_hash v = request_digest sha port (normalize_payload payload)"
  using assms
  by (auto simp: begin_command_def begin_lookup_def get_def Let_def split: if_splits)

lemma run_append:
  "tracker_run sha ctx s' ks' s'' \<Longrightarrow> tracker_run sha ctx s ks s' \<Longrightarrow> tracker_run sha ctx s (ks @ ks') s''"
proof (induction rule: tracker_run.induct)
  case (run_admit s' ks' t k t')
  then show ?case using tracker_run.run_admit[of sha ctx s "ks @ ks'" t k t'] by simp
qed (auto intro: run_silent)

lemma begin_lookup_run:
  assumes "begin_lookup sha ctx lookup show_error manager command hash s = (r, s')"
  shows "tracker_run sha ctx s [] s'"
proof -
  have "s' = s \<or> (\<exists>e. s' = degrade e s)"
    using assms by (auto simp: begin_lookup_def Let_def split: sum.splits option.splits if_splits)
  then show ?thesis by (auto intro: run_nil run_silent[OF run_nil] st_degrade)
qed

lemma begin_confirm_run:
  assumes "begin_confirm lookup now a v s = (r, s')"
  shows "tracker_run sha ctx s [] s'" and "r = Ok (w, new) \<Longrightarrow> new"
proof -
  let ?msg = "''command acceptance not durably confirmed within 100 ms''"
  let ?t = "update now (adm_port a) (Some (adm_ack a)) (\<lambda>v. v\<lparr>audit_incomplete := True\<rparr>) (degrade ?msg s)"
  have "s' = s \<or> s' = ?t" using assms by (auto simp: begin_confirm_def Let_def split: if_splits)
  moreover have "tracker_run sha ctx s [] (degrade ?msg s)" by (rule run_silent[OF run_nil st_degrade])
  then have "tracker_run sha ctx s [] ?t" by (rule run_silent) (rule st_update, simp)
  ultimately show "tracker_run sha ctx s [] s'" by (auto intro: run_nil)
  show "r = Ok (w, new) \<Longrightarrow> new" using assms by (auto simp: begin_confirm_def Let_def split: if_splits)
qed

text \<open>
  The thread that admitted a command holds the admission lock until it has answered, so no other command is
  admitted and none leaves the table: the record of the new command is there for the answer.
\<close>

lemma silent_run_entries:
  assumes "tracker_run sha ctx s [] s'"
  shows "dom (map_of (entries s')) = dom (map_of (entries s))"
proof -
  have "ks = [] \<Longrightarrow> dom (map_of (entries t')) = dom (map_of (entries t))" if "tracker_run sha ctx t ks t'" for t ks t'
    using that by (induction rule: tracker_run.induct) (simp_all add: silent_keeps_entries)
  with assms show ?thesis by blast
qed

lemma admit_enters:
  assumes "admit sha ctx a s = Ok (v, s')"
  shows "snapshot_key v \<in> dom (map_of (entries s'))"
proof -
  obtain t where "s' = store (snapshot_key v) v t" using assms by (auto simp: admit_def Let_def split: if_splits)
  then show ?thesis using dom_store by (metis insertI1)
qed

lemma begin_confirm_answers:
  assumes "begin_confirm lookup now a v s = (r, s')" and "tracking_key (adm_manager a) (adm_command a) \<in> dom (map_of (entries s))"
  shows "\<exists>w. r = Ok (w, True)"
proof -
  let ?msg = "''command acceptance not durably confirmed within 100 ms''"
  let ?t = "update now (adm_port a) (Some (adm_ack a)) (\<lambda>v. v\<lparr>audit_incomplete := True\<rparr>) (degrade ?msg s)"
  have "dom (map_of (entries ?t)) = dom (map_of (entries s))"
    by (simp add: dom_update degrade_def)
  with assms(2) have "\<exists>w. get lookup (adm_manager a) (adm_command a) ?t = Ok (Some w)"
    by (auto simp: get_def split: option.splits)
  with assms(1) show ?thesis by (auto simp: begin_confirm_def Let_def split: if_splits)
qed

text \<open>
  A whole \<open>begin\<close> is a run of the tracker that admits its identity when it answers as new, and admits
  nothing when it answers with a command it repeats or with an error.
\<close>

definition begin_admits :: "string \<Rightarrow> tracker_error + (snapshot \<times> bool) \<Rightarrow> string list" where
  "begin_admits key r = (case r of Inl e \<Rightarrow> [] | Inr (w, new) \<Rightarrow> if new then [key] else [])"

lemma begin_is_run:
  assumes env: "\<And>t. tracker_run sha ctx t [] (be_before_admit env t)"
      "\<And>t. tracker_run sha ctx t [] (be_while_waiting env t)"
    and b: "begin_command sha ctx env manager command port ack payload s = (r, s')"
  shows "tracker_run sha ctx s (begin_admits (tracking_key manager command) r) s'"
proof -
  let ?hash = "request_digest sha port (normalize_payload payload)"
  let ?a = "\<lparr>adm_manager = manager, adm_command = command, adm_port = port, adm_ack = ack,
      adm_hash = ?hash, adm_normalized = normalize_payload payload, adm_time = be_time env\<rparr>"
  obtain q t where l: "begin_lookup sha ctx (be_lookup env) (be_show_error env) manager command ?hash s = (q, t)"
    by fastforce
  note rl = begin_lookup_run[OF l]
  have early: ?thesis if "s' = s \<or> s' = t" "\<And>w. r \<noteq> Ok (w, True)"
    using that rl by (auto simp: begin_admits_def intro: run_nil split: sum.split)
  have rt: "tracker_run sha ctx s [] (be_before_admit env t)"
    using run_append[OF env(1) rl] by simp
  show ?thesis
  proof (cases "q = Ok None \<and> list_all valid_identity_part [manager, command, port] \<and> length (normalize_payload payload) \<le> 65536")
    case False
    then show ?thesis using b
      by (intro early) (auto simp: begin_command_def Let_def l split: sum.splits option.splits if_splits)
  next
    case True
    show ?thesis
    proof (cases "admit sha ctx ?a (be_before_admit env t)")
      case (Inl e)
      with True b have "r = Err e" "s' = be_before_admit env t"
        by (auto simp: begin_command_def Let_def l)
      with rt show ?thesis by (simp add: begin_admits_def)
    next
      case (Inr vs)
      obtain v u where vs: "vs = (v, u)" by fastforce
      have k: "snapshot_key v = tracking_key manager command" using admit_key[OF Inr[unfolded vs]] by simp
      have "tracker_run sha ctx s [tracking_key manager command] u"
        using run_admit[OF rt st_admit[OF Inr[unfolded vs]]] k by simp
      then have w: "tracker_run sha ctx s [tracking_key manager command] (be_while_waiting env u)"
        using run_append[OF env(2)] by fastforce
      have c: "begin_confirm (be_lookup env) (be_now env) ?a v (be_while_waiting env u) = (r, s')"
        using True b Inr vs by (auto simp: begin_command_def Let_def l)
      have "tracking_key manager command \<in> dom (map_of (entries (be_while_waiting env u)))"
        using admit_enters[OF Inr[unfolded vs]] silent_run_entries[OF env(2), of u] k by simp
      with begin_confirm_answers[OF c] obtain x where "r = Ok (x, True)" by auto
      with run_append[OF begin_confirm_run(1)[OF c] w] show ?thesis by (simp add: begin_admits_def)
    qed
  qed
qed

end
