(* ===== verification/Command_Journal.thy ===== *)
theory Command_Journal
  imports Command_Tracking
begin

text \<open>
  The durable side of the command journal (\<open>src/src/command_tracking.rs\<close>): the SQLite tables and
  the statements the program runs on them, each statement read as its effect on the tables. \<open>enc\<close>
  and \<open>dec\<close> stand for the JSON library (\<open>serde_json\<close>); a \<open>fault\<close> stands for a statement that
  the database refuses, which rolls its transaction back. Rows are listed in row-id order.
\<close>

section \<open>Tables\<close>

record command_row =
  row_revision :: nat
  row_finished :: bool
  row_updated :: string
  row_data :: string

record event_row =
  ev_manager :: string
  ev_id :: string
  ev_data :: string

record journal_db =
  user_version :: nat
  identity :: "string option"
  commands :: "((string \<times> string) \<times> command_row) list"
  events :: "(nat \<times> event_row) list"
  head :: nat
  history_gap :: bool

definition empty_db :: journal_db where
  "empty_db = \<lparr>user_version = 0, identity = None, commands = [], events = [], head = 0,
     history_gap = False\<rparr>"

definition KEEP_COUNT :: nat where "KEEP_COUNT = 100000"

type_synonym encoder = "snapshot \<Rightarrow> string + string"
type_synonym decoder = "string \<Rightarrow> string + snapshot"

section \<open>Saving a snapshot\<close>

text \<open>
  \<open>INSERT ... ON CONFLICT(manager,id) DO UPDATE ... WHERE excluded.revision > commands.revision\<close>.
\<close>

fun upsert ::
  "string \<times> string \<Rightarrow> command_row \<Rightarrow> ((string \<times> string) \<times> command_row) list \<Rightarrow>
   ((string \<times> string) \<times> command_row) list" where
  "upsert k r [] = [(k, r)]"
| "upsert k r ((k', r') # rows) =
     (if k = k' then (k', if row_revision r > row_revision r' then r else r') # rows
      else (k', r') # upsert k r rows)"

text \<open>\<open>INSERT OR IGNORE INTO events\<close>, on the primary key \<open>revision\<close>.\<close>

definition insert_or_ignore :: "nat \<Rightarrow> event_row \<Rightarrow> (nat \<times> event_row) list \<Rightarrow> (nat \<times> event_row) list" where
  "insert_or_ignore n e es = (if map_of es n = None then btree_insert n e es else es)"

definition save :: "string option \<Rightarrow> encoder \<Rightarrow> snapshot \<Rightarrow> journal_db \<Rightarrow> string + journal_db" where
  "save fault enc v db =
     and_then (enc v) (\<lambda>raw.
       case fault of
         Some e \<Rightarrow> Err e
       | None \<Rightarrow>
           Ok (db\<lparr>commands := upsert (manager_instance_id v, command_id v)
                    \<lparr>row_revision = snap_revision v, row_finished = terminal v,
                     row_updated = updated_at v, row_data = raw\<rparr> (commands db),
                  events := insert_or_ignore (snap_revision v)
                    \<lparr>ev_manager = manager_instance_id v, ev_id = command_id v, ev_data = raw\<rparr> (events db),
                  head := max (head db) (snap_revision v)\<rparr>))"

section \<open>Opening the database\<close>

text \<open>What the recovery of an unfinished command of an earlier process records.\<close>

definition recovered :: "nat \<Rightarrow> string \<Rightarrow> snapshot \<Rightarrow> snapshot" where
  "recovered rv now v =
     v\<lparr>snap_revision := rv, phase := ''Unknown'',
       snap_error := ''lower restarted before durable completion; never replayed'',
       audit_incomplete := True, updated_at := now\<rparr>"

fun recover_all ::
  "(nat \<Rightarrow> string option) \<Rightarrow> encoder \<Rightarrow> decoder \<Rightarrow> string \<Rightarrow> string \<Rightarrow> string list \<Rightarrow> nat \<Rightarrow> journal_db \<Rightarrow>
   (string + nat) \<times> journal_db" where
  "recover_all fault enc dec bid now [] rv db = (Ok rv, db)"
| "recover_all fault enc dec bid now (raw # raws) rv db =
     (case dec raw of
        Inl e \<Rightarrow> (Err e, db)
      | Inr v \<Rightarrow>
          if boot_id v = bid then recover_all fault enc dec bid now raws rv db
          else (case save (fault (rv + 1)) enc (recovered (rv + 1) now v) db of
                  Inl e \<Rightarrow> (Err e, db)
                | Inr db \<Rightarrow> recover_all fault enc dec bid now raws (rv + 1) db))"

definition max_event :: "journal_db \<Rightarrow> nat" where
  "max_event db = foldr (\<lambda>(n, e). max n) (events db) 0"

definition unfinished :: "journal_db \<Rightarrow> string list" where
  "unfinished db = map (\<lambda>(k, r). row_data r) (filter (\<lambda>(k, r). \<not> row_finished r) (commands db))"

definition open_database ::
  "string option \<Rightarrow> (nat \<Rightarrow> string option) \<Rightarrow> encoder \<Rightarrow> decoder \<Rightarrow> string \<Rightarrow> string \<Rightarrow> string \<Rightarrow>
   string option \<Rightarrow> journal_db \<Rightarrow> (string + (string \<times> nat)) \<times> journal_db" where
  "open_database fault save_fault enc dec bid fresh_id now expected db =
     (case fault of
        Some e \<Rightarrow> (Err e, db)
      | None \<Rightarrow>
     if user_version db > 1
     then (Err (''unsupported command journal schema '' @ show_nat (user_version db) @ ''; control remains enabled''), db)
     else if expected \<noteq> None \<and> identity db \<noteq> None \<and> expected \<noteq> identity db
     then (Err ''command journal instance mismatch; evidence remains in degraded memory; operator recovery required'', db)
     else
       let gw = (case identity db of
                   Some g \<Rightarrow> g
                 | None \<Rightarrow> (case expected of Some g \<Rightarrow> g | None \<Rightarrow> ''gateway-'' @ fresh_id));
           db = db\<lparr>identity := Some gw, user_version := 1\<rparr>
       in case recover_all save_fault enc dec bid now (unfinished db) (max (head db) (max_event db)) db of
            (Inl e, db) \<Rightarrow> (Err e, db)
          | (Inr rv, db) \<Rightarrow> (Ok (gw, rv), db))"

section \<open>Reading\<close>

definition read_gateway_identity :: "string option \<Rightarrow> journal_db \<Rightarrow> string option" where
  "read_gateway_identity fault db = (if fault \<noteq> None then None else identity db)"

definition lookup_journal ::
  "string option \<Rightarrow> decoder \<Rightarrow> string \<Rightarrow> string \<Rightarrow> string \<Rightarrow> journal_db \<Rightarrow> string + snapshot option" where
  "lookup_journal fault dec gid manager command db =
     (case fault of
        Some e \<Rightarrow> Err e
      | None \<Rightarrow>
     if user_version db \<noteq> 1 then Err (''unsupported command journal schema '' @ show_nat (user_version db))
     else case identity db of
       None \<Rightarrow> Err ''Query returned no rows''
     | Some g \<Rightarrow>
         if g \<noteq> gid then Err ''command journal instance mismatch; operator recovery required''
         else case map_of (commands db) (manager, command) of
                None \<Rightarrow> Ok None
              | Some r \<Rightarrow> map_ok Some (dec (row_data r)))"

fun collect_ids ::
  "(string \<Rightarrow> bytes) \<Rightarrow> nat \<Rightarrow> (string \<times> string) list \<Rightarrow> bytes list \<Rightarrow> string + bytes list" where
  "collect_ids sha limit [] ids = Ok ids"
| "collect_ids sha limit ((m, c) # rows) ids =
     (if length ids \<ge> limit then Err ''historical identity inventory exceeds bounded limit''
      else collect_ids sha limit rows (List.insert (sha (tracking_key m c)) ids))"

text \<open>\<open>None\<close> for the database is a file that does not exist.\<close>

definition historical_command_ids ::
  "(string \<Rightarrow> bytes) \<Rightarrow> string option \<Rightarrow> string \<Rightarrow> journal_db option \<Rightarrow> string + bytes list" where
  "historical_command_ids sha fault gid file =
     (case file of
        None \<Rightarrow> Ok []
      | Some db \<Rightarrow>
     (case fault of
        Some e \<Rightarrow> Err e
      | None \<Rightarrow>
     (case identity db of
        None \<Rightarrow> Err ''Query returned no rows''
      | Some g \<Rightarrow>
          if g \<noteq> gid then Err ''historical journal identity mismatch''
          else collect_ids sha (KEEP_COUNT + CACHE_LIMIT) (map fst (commands db)) [])))"

section \<open>Retention\<close>

text \<open>The finished rows beyond the newest \<open>keep\<close>, by revision.\<close>

definition beyond_count :: "nat \<Rightarrow> ((string \<times> string) \<times> command_row) list \<Rightarrow> (string \<times> string) list" where
  "beyond_count keep rows =
     map fst (drop keep (rev (sort_key (\<lambda>(k, r). row_revision r) (filter (\<lambda>(k, r). row_finished r) rows))))"

definition prune_journal :: "string option \<Rightarrow> string \<Rightarrow> nat \<Rightarrow> journal_db \<Rightarrow> string + journal_db" where
  "prune_journal fault cutoff keep db =
     (case fault of
        Some e \<Rightarrow> Err e
      | None \<Rightarrow>
          let old = beyond_count keep (commands db);
              rows = filter (\<lambda>(k, r). \<not> (row_finished r \<and> (row_updated r < cutoff \<or> k \<in> set old)))
                       (commands db)
          in Ok (db\<lparr>commands := rows,
                    events := filter (\<lambda>(n, e). (ev_manager e, ev_id e) \<in> set (map fst rows)) (events db)\<rparr>))"

section \<open>The event feed\<close>

text \<open>
  The loop over the selected rows: it stops before the reply exceeds one mebibyte, but always
  delivers one row.
\<close>

fun collect_events ::
  "decoder \<Rightarrow> nat \<Rightarrow> snapshot list \<Rightarrow> nat \<Rightarrow> string list \<Rightarrow> string + (snapshot list \<times> nat)" where
  "collect_events dec cursor items used [] = Ok (items, cursor)"
| "collect_events dec cursor items used (raw # raws) =
     (if items \<noteq> [] \<and> used + length raw > 1024 * 1024 then Ok (items, cursor)
      else case dec raw of
             Inl e \<Rightarrow> Err e
           | Inr v \<Rightarrow> collect_events dec (snap_revision v) (items @ [v]) (used + length raw) raws)"

definition select_events :: "string \<Rightarrow> nat \<Rightarrow> nat \<Rightarrow> nat \<Rightarrow> journal_db \<Rightarrow> (nat \<times> event_row) list" where
  "select_events manager after newest limit db =
     take limit (filter (\<lambda>(n, e). ev_manager e = manager \<and> after < n \<and> n \<le> newest) (events db))"

record event_page =
  page_items :: "snapshot list"
  page_cursor :: nat
  page_oldest :: nat
  page_gap :: bool

definition events_query ::
  "decoder \<Rightarrow> tracker_state \<Rightarrow> string \<Rightarrow> nat \<Rightarrow> nat \<Rightarrow> journal_db \<Rightarrow> string + event_page" where
  "events_query dec s manager after limit db =
     (let oldest = (case events db of [] \<Rightarrow> 0 | (n, e) # es \<Rightarrow> n) in
      map_ok (\<lambda>(items, cursor).
          \<lparr>page_items = items, page_cursor = cursor, page_oldest = oldest,
           page_gap = (gap s \<or> (after > 0 \<and> after < oldest - 1))\<rparr>)
        (collect_events dec after [] 0
           (map (\<lambda>(n, e). ev_data e)
             (select_events manager after (events_ceiling s) (max 1 (min limit 200)) db))))"

section \<open>One round of the writer thread\<close>

text \<open>
  Saving the batch: each success is recorded in memory at once, the first failure flags what is
  still waiting and ends the round.
\<close>

fun save_batch ::
  "(snapshot \<Rightarrow> string option) \<Rightarrow> encoder \<Rightarrow> snapshot list \<Rightarrow> tracker_state \<Rightarrow> journal_db \<Rightarrow>
   tracker_state \<times> journal_db" where
  "save_batch fault enc [] s db = (s, db)"
| "save_batch fault enc (v # vs) s db =
     (case save (fault v) enc v db of
        Inl e \<Rightarrow> (save_failed e s, db)
      | Inr db \<Rightarrow> save_batch fault enc vs (saved v s) db)"

text \<open>A writer without a connection tries to reopen the database first.\<close>

definition writer_connect ::
  "string option \<Rightarrow> (nat \<Rightarrow> string option) \<Rightarrow> encoder \<Rightarrow> decoder \<Rightarrow> tracker_ctx \<Rightarrow> string \<Rightarrow> string \<Rightarrow>
   bool \<Rightarrow> tracker_state \<Rightarrow> journal_db \<Rightarrow> bool \<times> tracker_state \<times> journal_db" where
  "writer_connect fault save_fault enc dec ctx fresh_id now is_open s db =
     (if is_open then (True, s, db)
      else case open_database fault save_fault enc dec (boot ctx) fresh_id now (Some (gateway ctx)) db of
             (Inl e, db) \<Rightarrow> (False, open_failed e s, db)
           | (Inr (_, rv), db) \<Rightarrow> (True, reopened rv s, db))"

definition writer_batch :: "tracker_state \<Rightarrow> snapshot list" where
  "writer_batch s = take 256 (map snd (dirty s))"

definition sync_gap :: "tracker_state \<Rightarrow> journal_db \<Rightarrow> tracker_state \<times> journal_db" where
  "sync_gap s db =
     (if gap s then (s, db\<lparr>history_gap := True\<rparr>)
      else if history_gap db then (gap_restored s, db) else (s, db))"

definition writer_round ::
  "(snapshot \<Rightarrow> string option) \<Rightarrow> encoder \<Rightarrow> tracker_state \<Rightarrow> journal_db \<Rightarrow> tracker_state \<times> journal_db" where
  "writer_round fault enc s db =
     (let vs = writer_batch s; (s, db) = sync_gap s db in save_batch fault enc vs s db)"

text \<open>
  The part that runs once a minute: retention, whose failure degrades the tracker, and the answer to a query of the
  event feed, which needs a connection.
\<close>

definition writer_cleanup ::
  "string option \<Rightarrow> string \<Rightarrow> tracker_state \<Rightarrow> journal_db \<Rightarrow> tracker_state \<times> journal_db" where
  "writer_cleanup fault cutoff s db =
     (case prune_journal fault cutoff KEEP_COUNT db of
        Inl e \<Rightarrow> (s\<lparr>error := ''command journal retention failed: '' @ e\<rparr>, db)
      | Inr db \<Rightarrow> (s, db))"

definition writer_events ::
  "bool \<Rightarrow> decoder \<Rightarrow> tracker_state \<Rightarrow> string \<Rightarrow> nat \<Rightarrow> nat \<Rightarrow> journal_db \<Rightarrow> string + event_page" where
  "writer_events is_open dec s manager after limit db =
     (if is_open then events_query dec s manager after limit db else Err ''journal unavailable'')"

section \<open>Opening the tracker\<close>

text \<open>
  \<open>Tracker::open\<close>: the identity is the stored one whenever it can be read, even if the database
  cannot be written, and the identities of all stored commands are read into memory.
\<close>

record open_env =
  oe_fault :: "string option"
  oe_save_fault :: "nat \<Rightarrow> string option"
  oe_read_fault :: "string option"
  oe_history_fault :: "string option"
  oe_boot :: string
  oe_fresh :: string
  oe_now :: string

definition tracker_open ::
  "(string \<Rightarrow> bytes) \<Rightarrow> encoder \<Rightarrow> decoder \<Rightarrow> open_env \<Rightarrow> journal_db \<Rightarrow>
   tracker_ctx \<times> tracker_state \<times> bool \<times> journal_db" where
  "tracker_open sha enc dec env db =
     (let (opened, db) = open_database (oe_fault env) (oe_save_fault env) enc dec (oe_boot env)
            (oe_fresh env) (oe_now env) None db;
          (gw, rv, conn, err) =
            (case opened of
               Inr (g, n) \<Rightarrow> (g, n, True, [])
             | Inl e \<Rightarrow> (case read_gateway_identity (oe_read_fault env) db of
                          Some g \<Rightarrow> g | None \<Rightarrow> ''volatile-'' @ oe_boot env, 0, False, e));
          history = historical_command_ids sha (oe_history_fault env) gw (Some db)
      in (\<lparr>gateway = gw, boot = oe_boot env,
           historical_ids = (case history of Inr ids \<Rightarrow> ids | Inl e \<Rightarrow> []),
           history_known = is_ok history\<rparr>, open_state rv err, conn, db))"

record tracker_identity =
  ti_gateway :: string
  ti_boot :: string
  ti_revision :: string
  ti_audit_degraded :: bool
  ti_audit_error :: string
  ti_history_gap :: bool
  ti_retention_days :: nat
  ti_max_completed :: nat

definition report_identity :: "tracker_ctx \<Rightarrow> tracker_state \<Rightarrow> tracker_identity" where
  "report_identity ctx s =
     \<lparr>ti_gateway = gateway ctx, ti_boot = boot ctx, ti_revision = show_nat (revision s),
      ti_audit_degraded = (error s \<noteq> []), ti_audit_error = error s, ti_history_gap = gap s,
      ti_retention_days = 7, ti_max_completed = KEEP_COUNT\<rparr>"

section \<open>The invariant of the tables\<close>

text \<open>What the code relies on from the JSON library: a text it wrote reads back as the same snapshot.\<close>

definition json_ok :: "encoder \<Rightarrow> decoder \<Rightarrow> bool" where
  "json_ok enc dec \<longleftrightarrow> (\<forall>v raw. enc v = Ok raw \<longrightarrow> dec raw = Ok v)"

definition row_ok :: "decoder \<Rightarrow> journal_db \<Rightarrow> string \<times> string \<Rightarrow> command_row \<Rightarrow> bool" where
  "row_ok dec db k r \<longleftrightarrow> row_revision r \<le> head db \<and>
     (\<exists>v. dec (row_data r) = Ok v \<and> (manager_instance_id v, command_id v) = k
        \<and> snap_revision v = row_revision r \<and> terminal v = row_finished r)"

definition event_ok :: "decoder \<Rightarrow> journal_db \<Rightarrow> nat \<Rightarrow> event_row \<Rightarrow> bool" where
  "event_ok dec db n e \<longleftrightarrow> n \<le> head db \<and>
     (\<exists>v. dec (ev_data e) = Ok v \<and> manager_instance_id v = ev_manager e \<and> command_id v = ev_id e
        \<and> snap_revision v = n)"

definition journal_ok :: "decoder \<Rightarrow> journal_db \<Rightarrow> bool" where
  "journal_ok dec db \<longleftrightarrow>
     distinct (map fst (commands db)) \<and> btree_ok (events db) \<and>
     (\<forall>k r. map_of (commands db) k = Some r \<longrightarrow> row_ok dec db k r) \<and>
     (\<forall>n e. map_of (events db) n = Some e \<longrightarrow> event_ok dec db n e)"

lemma journal_ok_empty: "journal_ok dec empty_db"
  by (simp add: journal_ok_def empty_db_def bt.invar_empty)

lemma journal_okD:
  assumes "journal_ok dec db"
  shows "map_of (commands db) k = Some r \<Longrightarrow> row_ok dec db k r"
    and "map_of (events db) n = Some e \<Longrightarrow> event_ok dec db n e"
    and "distinct (map fst (commands db))" and "btree_ok (events db)"
  using assms unfolding journal_ok_def by blast+

lemma keys_upsert: "fst ` set (upsert k r rows) = insert k (fst ` set rows)"
  by (induction k r rows rule: upsert.induct) auto

lemma distinct_upsert: "distinct (map fst rows) \<Longrightarrow> distinct (map fst (upsert k r rows))"
proof (induction k r rows rule: upsert.induct)
  case (2 k r k' r' rows)
  then show ?case using keys_upsert[of k r rows] by (auto simp flip: set_map)
qed simp

lemma map_of_upsert:
  "distinct (map fst rows) \<Longrightarrow> map_of (upsert k r rows) =
     (map_of rows)(k \<mapsto> (case map_of rows k of
        None \<Rightarrow> r | Some r' \<Rightarrow> if row_revision r > row_revision r' then r else r'))"
proof (induction k r rows rule: upsert.induct)
  case (2 k r k' r' rows)
  have "map_of rows k' = None" using 2(2) by (simp add: map_of_eq_None_iff)
  with 2 show ?case by (auto simp: fun_eq_iff)
qed simp

lemma btree_ok_insert_or_ignore: "btree_ok es \<Longrightarrow> btree_ok (insert_or_ignore n e es)"
  by (simp add: insert_or_ignore_def btree_ok_insert)

lemma map_of_insert_or_ignore:
  "btree_ok es \<Longrightarrow> map_of (insert_or_ignore n e es) =
     (if map_of es n = None then (map_of es)(n \<mapsto> e) else map_of es)"
  by (simp add: insert_or_ignore_def map_of_btree_insert)

lemma saveE:
  assumes "save fault enc v db = Ok db'"
  obtains raw where "enc v = Ok raw" and "fault = None"
    and "commands db' = upsert (manager_instance_id v, command_id v)
           \<lparr>row_revision = snap_revision v, row_finished = terminal v, row_updated = updated_at v,
            row_data = raw\<rparr> (commands db)"
    and "events db' = insert_or_ignore (snap_revision v)
           \<lparr>ev_manager = manager_instance_id v, ev_id = command_id v, ev_data = raw\<rparr> (events db)"
    and "head db' = max (head db) (snap_revision v)" and "identity db' = identity db"
    and "user_version db' = user_version db"
  using assms by (auto simp: save_def split: option.splits)

lemma save_ok:
  assumes json: "json_ok enc dec" and ok: "journal_ok dec db" and s: "save fault enc v db = Ok db'"
  shows "journal_ok dec db'"
proof -
  obtain raw where raw: "enc v = Ok raw" and c: "commands db' = upsert (manager_instance_id v, command_id v)
           \<lparr>row_revision = snap_revision v, row_finished = terminal v, row_updated = updated_at v,
            row_data = raw\<rparr> (commands db)"
    and e: "events db' = insert_or_ignore (snap_revision v)
           \<lparr>ev_manager = manager_instance_id v, ev_id = command_id v, ev_data = raw\<rparr> (events db)"
    and h: "head db' = max (head db) (snap_revision v)"
    using s by (rule saveE) blast
  have dec: "dec raw = Ok v" using json raw by (simp add: json_ok_def)
  have row: "row_ok dec db' k r" if "map_of (commands db) k = Some r" for k r
    using journal_okD(1)[OF ok that] by (auto simp: row_ok_def h)
  have ev: "event_ok dec db' n x" if "map_of (events db) n = Some x" for n x
    using journal_okD(2)[OF ok that] by (auto simp: event_ok_def h)
  have "\<forall>k r. map_of (commands db') k = Some r \<longrightarrow> row_ok dec db' k r"
    using row dec unfolding c map_of_upsert[OF journal_okD(3)[OF ok]]
    by (auto simp: row_ok_def[of dec db'] h split: if_splits option.splits)
  moreover have "\<forall>n x. map_of (events db') n = Some x \<longrightarrow> event_ok dec db' n x"
    using ev dec unfolding e map_of_insert_or_ignore[OF journal_okD(4)[OF ok]]
    by (auto simp: event_ok_def[of dec db'] h split: if_splits)
  ultimately show ?thesis
    using journal_okD(3,4)[OF ok] by (simp add: journal_ok_def c e distinct_upsert btree_ok_insert_or_ignore)
qed

text \<open>The newest snapshot of a command is what the journal answers.\<close>

lemma save_lookup:
  assumes json: "json_ok enc dec" and ok: "journal_ok dec db" and s: "save fault enc v db = Ok db'"
    and opened: "user_version db = 1" "identity db = Some g"
    and newer: "\<And>r. map_of (commands db) (manager_instance_id v, command_id v) = Some r \<Longrightarrow> row_revision r < snap_revision v"
  shows "lookup_journal None dec g (manager_instance_id v) (command_id v) db' = Ok (Some v)"
  using s
proof (rule saveE)
  fix raw assume "enc v = Ok raw"
  then have "dec raw = Ok v" using json by (simp add: json_ok_def)
  moreover assume "commands db' = upsert (manager_instance_id v, command_id v)
           \<lparr>row_revision = snap_revision v, row_finished = terminal v, row_updated = updated_at v,
            row_data = raw\<rparr> (commands db)" "identity db' = identity db" "user_version db' = user_version db"
  ultimately show ?thesis
    using ok opened newer by (auto simp: lookup_journal_def journal_ok_def map_of_upsert split: option.splits)
qed

section \<open>Recovery after a restart\<close>

lemma terminal_recovered [simp]: "terminal (recovered n now v)"
  by (simp add: terminal_def terminal_phase_def recovered_def)

lemma recovered_fields [simp]:
  "manager_instance_id (recovered n now v) = manager_instance_id v"
  "command_id (recovered n now v) = command_id v" "snap_revision (recovered n now v) = n"
  by (simp_all add: recovered_def)

text \<open>Unfinished rows of another process, other than those still to be visited.\<close>

definition covered :: "decoder \<Rightarrow> string \<Rightarrow> string list \<Rightarrow> journal_db \<Rightarrow> bool" where
  "covered dec b raws db \<longleftrightarrow>
     (\<forall>k r v. map_of (commands db) k = Some r \<longrightarrow> \<not> row_finished r \<longrightarrow> dec (row_data r) = Ok v \<longrightarrow>
        boot_id v \<noteq> b \<longrightarrow> row_data r \<in> set raws)"

lemma covered_save:
  assumes ok: "journal_ok dec db" and cov: "covered dec b (raw # raws) db" and v: "dec raw = Ok v"
    and h: "head db \<le> n" and s: "save fault enc (recovered (n + 1) now v) db = Ok db'"
  shows "covered dec b raws db'"
  unfolding covered_def
proof (intro allI impI)
  fix k r w
  assume r: "map_of (commands db') k = Some r" "\<not> row_finished r" "dec (row_data r) = Ok w" "boot_id w \<noteq> b"
  let ?k = "(manager_instance_id v, command_id v)"
  obtain raw' where c: "commands db' = upsert ?k \<lparr>row_revision = n + 1, row_finished = True,
      row_updated = updated_at (recovered (n + 1) now v), row_data = raw'\<rparr> (commands db)"
    using s by (rule saveE) auto
  have older: "row_revision x < n + 1" if "map_of (commands db) ?k = Some x" for x
    using journal_okD(1)[OF ok that] h by (simp add: row_ok_def)
  have k: "k \<noteq> ?k" and r': "map_of (commands db) k = Some r"
    using r(1,2) older unfolding c map_of_upsert[OF journal_okD(3)[OF ok]]
    by (auto split: if_splits option.splits)
  then have "row_data r \<noteq> raw" using journal_okD(1)[OF ok r'] v by (auto simp: row_ok_def)
  with cov r r' show "row_data r \<in> set raws" by (cases k) (auto simp: covered_def)
qed

lemma recover_all_ok:
  assumes "json_ok enc dec" and "journal_ok dec db" and "head db \<le> n" and "covered dec b raws db"
    and "recover_all fault enc dec b now raws n db = (Ok n', db')"
  shows "journal_ok dec db' \<and> head db' \<le> n' \<and> covered dec b [] db' \<and> identity db' = identity db
     \<and> user_version db' = user_version db"
  using assms
proof (induction raws arbitrary: n db)
  case (Cons raw raws)
  obtain v where v: "dec raw = Ok v" using Cons.prems(5) by (auto split: sum.splits)
  show ?case
  proof (cases "boot_id v = b")
    case True
    then have "covered dec b raws db" using Cons.prems(4) v by (fastforce simp: covered_def)
    with Cons True v show ?thesis by auto
  next
    case False
    then obtain db1 where s: "save (fault (n + 1)) enc (recovered (n + 1) now v) db = Ok db1"
      and r: "recover_all fault enc dec b now raws (n + 1) db1 = (Ok n', db')"
      using Cons.prems(5) v by (auto split: sum.splits)
    have "journal_ok dec db1" using save_ok[OF Cons.prems(1,2) s] .
    moreover have "head db1 \<le> n + 1" "identity db1 = identity db" "user_version db1 = user_version db"
      using s Cons.prems(3) by (auto elim!: saveE)
    moreover have "covered dec b raws db1" using covered_save[OF Cons.prems(2,4) v Cons.prems(3) s] .
    ultimately show ?thesis using Cons.IH[OF Cons.prems(1) _ _ _ r] by simp
  qed
qed simp

text \<open>
  After a successful opening no unfinished command of an earlier process is left, and the revision
  the process continues from is not below any revision in the journal.
\<close>

lemma open_database_ok:
  assumes json: "json_ok enc dec" and ok: "journal_ok dec db"
    and o: "open_database fault save_fault enc dec b fresh_id now expected db = (Ok (g, n), db')"
  shows "journal_ok dec db'" and "head db' \<le> n" and "covered dec b [] db'" and "identity db' = Some g"
    and "identity db = Some g' \<Longrightarrow> g = g'" and "expected = Some x \<Longrightarrow> g = x"
proof -
  let ?db = "db\<lparr>identity := Some g, user_version := 1\<rparr>"
  have r: "recover_all save_fault enc dec b now (unfinished ?db) (max (head ?db) (max_event ?db)) ?db = (Ok n, db')"
    and g: "identity db = Some g' \<Longrightarrow> g = g'" "expected = Some x \<Longrightarrow> g = x" for g' x
    using o by (auto simp: open_database_def Let_def split: option.splits if_splits sum.splits prod.splits)
  have "journal_ok dec ?db" using ok by (simp add: journal_ok_def row_ok_def event_ok_def)
  moreover have "covered dec b (unfinished ?db) ?db"
    by (force simp: covered_def unfinished_def dest: map_of_SomeD)
  ultimately show "journal_ok dec db'" "head db' \<le> n" "covered dec b [] db'" "identity db' = Some g"
    using recover_all_ok[OF json _ _ _ r] by auto
  show "identity db = Some g' \<Longrightarrow> g = g'" "expected = Some x \<Longrightarrow> g = x" using g by auto
qed

section \<open>Retention\<close>

lemma map_of_filter_keys:
  "distinct (map fst xs) \<Longrightarrow>
     map_of (filter P xs) k = (case map_of xs k of None \<Rightarrow> None | Some v \<Rightarrow> if P (k, v) then Some v else None)"
  by (induction xs) (auto simp: map_of_eq_None_iff split: option.splits)

lemma prune_ok:
  assumes ok: "journal_ok dec db" and p: "prune_journal fault cutoff keep db = Ok db'"
  shows "journal_ok dec db'" and "head db' = head db"
    and "map_of (commands db) k = Some r \<Longrightarrow> \<not> row_finished r \<Longrightarrow> map_of (commands db') k = Some r"
    and "map_of (events db) n = Some e \<Longrightarrow> map_of (commands db') (ev_manager e, ev_id e) \<noteq> None \<Longrightarrow>
      map_of (events db') n = Some e"
proof -
  have d: "distinct (map fst (commands db))" "distinct (map fst (events db))"
    using ok by (simp_all add: journal_ok_def bt.entries_distinct)
  obtain Q where q: "db' = db\<lparr>commands := filter Q (commands db),
      events := filter (\<lambda>(n, e). (ev_manager e, ev_id e) \<in> set (map fst (filter Q (commands db)))) (events db)\<rparr>"
    and keep: "\<And>k r. \<not> row_finished r \<Longrightarrow> Q (k, r)"
    using p by (auto simp: prune_journal_def Let_def split: option.splits)
  show "journal_ok dec db'"
    using ok d by (auto simp: q journal_ok_def row_ok_def event_ok_def map_of_filter_keys distinct_map_filter
        btree_ok_filter split: option.splits if_splits)
  show "head db' = head db" by (simp add: q)
  show "map_of (commands db) k = Some r \<Longrightarrow> \<not> row_finished r \<Longrightarrow> map_of (commands db') k = Some r"
    using d keep by (simp add: q map_of_filter_keys)
  show "map_of (events db) n = Some e \<Longrightarrow> map_of (commands db') (ev_manager e, ev_id e) \<noteq> None \<Longrightarrow>
      map_of (events db') n = Some e"
    using d(2) by (auto simp: q map_of_filter_keys dest!: map_of_SomeD) force
qed

section \<open>The event feed\<close>

lemma collect_events_prefix:
  assumes "collect_events dec cursor items used raws = Ok (items', cursor')"
  shows "\<exists>vs. map dec (take (length vs) raws) = map Ok vs \<and> length vs \<le> length raws \<and> items' = items @ vs
     \<and> cursor' = (if vs = [] then cursor else snap_revision (last vs))"
  using assms
proof (induction raws arbitrary: cursor items used)
  case (Cons raw raws)
  show ?case
  proof (cases "items \<noteq> [] \<and> used + length raw > 1024 * 1024")
    case True
    with Cons.prems show ?thesis by (intro exI[of _ "[]"]) auto
  next
    case False
    then obtain v where v: "dec raw = Ok v"
      and r: "collect_events dec (snap_revision v) (items @ [v]) (used + length raw) raws = Ok (items', cursor')"
      using Cons.prems by (auto split: sum.splits if_splits)
    from Cons.IH[OF r] obtain vs where "map dec (take (length vs) raws) = map Ok vs" "length vs \<le> length raws"
      "items' = (items @ [v]) @ vs" "cursor' = (if vs = [] then snap_revision v else snap_revision (last vs))" by blast
    with v show ?thesis by (intro exI[of _ "v # vs"]) auto
  qed
qed simp

lemma le_last_sorted: "sorted xs \<Longrightarrow> x \<in> set xs \<Longrightarrow> x \<le> last xs" for xs :: "nat list"
  by (induction xs) auto

lemma sorted_prefix_filter:
  fixes L :: "(nat \<times> 'a) list"
  assumes srt: "sorted_wrt (<) (map fst L)" and low: "\<And>x. x \<in> set L \<Longrightarrow> c < fst x"
    and cur: "cursor = (if take m L = [] then c else fst (last (take m L)))"
  shows "filter (\<lambda>x. fst x \<le> cursor) L = take m L"
proof -
  have le: "fst x \<le> cursor" if "x \<in> set (take m L)" for x
  proof -
    have "sorted (map fst (take m L))"
      using strict_sorted_imp_sorted[OF sorted_wrt_take[OF srt, of m]] by (simp add: take_map)
    from le_last_sorted[OF this, of "fst x"] that cur show ?thesis by (auto simp: last_map)
  qed
  have gt: "\<not> fst x \<le> cursor" if x: "x \<in> set (drop m L)" for x
  proof (cases "take m L = []")
    case True
    with low[of x] x cur show ?thesis by (auto dest: in_set_dropD)
  next
    case False
    have "sorted_wrt (<) (map fst (take m L) @ map fst (drop m L))"
      using srt by (metis append_take_drop_id map_append)
    then have "\<forall>y\<in>set (take m L). fst y < fst x" using x by (simp add: sorted_wrt_append)
    then have "fst (last (take m L)) < fst x" using False by (meson last_in_set)
    with False cur show ?thesis by simp
  qed
  have "filter (\<lambda>x. fst x \<le> cursor) L = filter (\<lambda>x. fst x \<le> cursor) (take m L @ drop m L)" by simp
  also have "\<dots> = take m L" using le gt by (simp add: filter_id_conv filter_empty_conv del: append_take_drop_id)
  finally show ?thesis .
qed

text \<open>
  A page of events holds only events after the cursor and below the ceiling, in order, and every
  event up to the new cursor: following the cursor skips nothing.
\<close>

lemma events_query_complete:
  assumes ok: "journal_ok dec db" and q: "events_query dec s manager after limit db = Ok page"
  shows "map snap_revision (page_items page) = filter (\<lambda>n. n \<le> page_cursor page) (map fst
      (filter (\<lambda>(n, e). ev_manager e = manager \<and> after < n \<and> n \<le> events_ceiling s) (events db)))"
    and "page_items page \<noteq> [] \<Longrightarrow> page_cursor page \<le> events_ceiling s"
    and "\<forall>v\<in>set (page_items page). manager_instance_id v = manager"
proof -
  let ?L = "filter (\<lambda>(n, e). ev_manager e = manager \<and> after < n \<and> n \<le> events_ceiling s) (events db)"
  let ?m = "max 1 (min limit 200)"
  obtain vs where vs: "map dec (take (length vs) (map (\<lambda>(n, e). ev_data e) (take ?m ?L))) = map Ok vs"
      "length vs \<le> length (take ?m ?L)" "page_items page = vs"
      "page_cursor page = (if vs = [] then after else snap_revision (last vs))"
    using q by (auto simp: events_query_def Let_def select_events_def dest!: collect_events_prefix)
  define T where "T = take (length vs) ?L"
  have T: "map (\<lambda>x. dec (ev_data (snd x))) T = map Ok vs" "length T = length vs"
    using vs(1,2) by (simp_all add: T_def take_map o_def split_beta)
  have srt: "sorted_wrt (<) (map fst ?L)"
    using btree_ok_filter[OF journal_okD(4)[OF ok]] by (simp add: btree_ok_def)
  have TL: "set T \<subseteq> set ?L" unfolding T_def by (rule set_take_subset)
  have ev: "event_ok dec db n e" if "(n, e) \<in> set T" for n e
    using that TL journal_okD(2)[OF ok, of n e] bt.entries_distinct[OF journal_okD(4)[OF ok]] by auto
  have dec: "snap_revision (vs ! i) = fst (T ! i) \<and> manager_instance_id (vs ! i) = manager" if i: "i < length vs" for i
  proof -
    obtain n e where ne: "T ! i = (n, e)" "(n, e) \<in> set T" using i T(2) by (metis nth_mem surj_pair)
    have "dec (ev_data e) = Ok (vs ! i)" using arg_cong[OF T(1), of "\<lambda>xs. xs ! i"] i ne(1) T(2) by simp
    with ev[OF ne(2)] ne TL show ?thesis by (auto simp: event_ok_def)
  qed
  have revs: "map snap_revision vs = map fst T" using dec T(2) by (intro nth_equalityI) simp_all
  have cur: "page_cursor page = (if T = [] then after else fst (last T))"
    using vs(4) T(2) revs by (metis last_map length_0_conv)
  show "page_cursor page \<le> events_ceiling s" if "page_items page \<noteq> []"
  proof -
    have "T \<noteq> []" using that T(2) vs(3) by auto
    then have "last T \<in> set ?L" using TL by (meson last_in_set subsetD)
    with \<open>T \<noteq> []\<close> cur show ?thesis by (simp add: split_beta)
  qed
  show "\<forall>v\<in>set (page_items page). manager_instance_id v = manager"
    using dec vs(3) by (auto simp: in_set_conv_nth)
  have "filter (\<lambda>x. fst x \<le> page_cursor page) ?L = T"
    unfolding T_def by (rule sorted_prefix_filter[OF srt, of after]) (use cur in \<open>auto simp: T_def\<close>)
  then show "map snap_revision (page_items page) = filter (\<lambda>n. n \<le> page_cursor page) (map fst ?L)"
    by (simp add: revs vs(3) filter_map o_def)
qed

section \<open>The writer\<close>

lemma save_batch_run: "tracker_run sha ctx s [] (fst (save_batch fault enc vs s db))"
proof (induction vs arbitrary: s db)
  case Nil
  then show ?case by (simp add: run_nil)
next
  case (Cons v vs)
  have "tracker_run sha ctx s [] (fst (save_batch fault enc vs (saved v s) db'))" for db'
    using run_append[OF Cons.IH run_silent[OF run_nil st_saved]] by fastforce
  then show ?case
    by (auto split: sum.split intro: run_silent[OF run_nil st_save_failed])
qed

lemma writer_round_run: "tracker_run sha ctx s [] (fst (writer_round fault enc s db))"
proof -
  have "tracker_run sha ctx s [] (fst (sync_gap s db))"
    by (auto simp: sync_gap_def intro: run_nil run_silent[OF run_nil st_gap])
  from run_append[OF save_batch_run this] show ?thesis
    by (simp add: writer_round_def Let_def split_beta)
qed

text \<open>Without faults a round of the writer empties what it took from the dirty table.\<close>

lemma save_batch_drains:
  assumes "dirty s = ds @ rest" and "distinct (map fst (dirty s))"
    and "\<And>k v. (k, v) \<in> set ds \<Longrightarrow> snapshot_key v = k"
    and "\<And>v. \<exists>raw. enc v = Ok raw"
  shows "dirty (fst (save_batch (\<lambda>_. None) enc (map snd ds) s db)) = rest"
  using assms(1-3)
proof (induction ds arbitrary: s db)
  case (Cons kv ds)
  obtain k v where kv: "kv = (k, v)" by fastforce
  obtain db' where s: "save None enc v db = Ok db'" using assms(4)[of v] by (auto simp: save_def)
  have "snapshot_key v = k" "map_of (dirty s) k = Some v"
    using Cons.prems kv by auto
  moreover have "btree_remove k (dirty s) = ds @ rest"
    using Cons.prems(1,2) btree_remove_absent[of k "ds @ rest"] by (auto simp: kv btree_remove_def)
  ultimately have "dirty (saved v s) = ds @ rest"
    by (auto simp: saved_def Let_def)
  with Cons.prems have "dirty (fst (save_batch (\<lambda>_. None) enc (map snd ds) (saved v s) db')) = rest"
    by (intro Cons.IH) auto
  with s kv show ?case by simp
qed simp

lemma writer_round_drains:
  assumes "tracker_ok s" and "\<And>v. \<exists>raw. enc v = Ok raw"
  shows "dirty (fst (writer_round (\<lambda>_. None) enc s db)) = drop 256 (dirty s)"
proof -
  have d: "dirty (fst (sync_gap s db)) = dirty s" by (simp add: sync_gap_def gap_restored_def)
  have keys: "snapshot_key v = k" if "(k, v) \<in> set (take 256 (dirty s))" for k v
  proof -
    have "map_of (dirty s) k = Some v"
      using that assms(1) by (auto simp: tracker_ok_def bt.entries_distinct dest: in_set_takeD)
    then have "map_of (entries s) k = Some v" using assms(1) by (auto simp: tracker_ok_def map_le_def dom_def)
    with assms(1) show ?thesis by (simp add: tracker_ok_def entry_ok_def)
  qed
  have "distinct (map fst (dirty s))" using assms(1) by (simp add: tracker_ok_def bt.entries_distinct)
  then show ?thesis
    using save_batch_drains[of "fst (sync_gap s db)" "take 256 (dirty s)" "drop 256 (dirty s)" enc "snd (sync_gap s db)"]
      keys assms(2) d
    by (simp add: writer_round_def writer_batch_def Let_def split_beta take_map)
qed

section \<open>No replay after a restart\<close>

lemma recover_all_keeps_rows:
  "recover_all fault enc dec b now raws n db = (r, db') \<Longrightarrow>
     fst ` set (commands db) \<subseteq> fst ` set (commands db') \<and> identity db' = identity db"
proof (induction raws arbitrary: n db)
  case (Cons raw raws)
  show ?case
  proof (cases "dec raw")
    case (Inr v)
    show ?thesis
    proof (cases "boot_id v = b")
      case False
      show ?thesis
      proof (cases "save (fault (n + 1)) enc (recovered (n + 1) now v) db")
        case (Inr db1)
        with \<open>dec raw = Inr v\<close> False Cons.prems
        have "recover_all fault enc dec b now raws (n + 1) db1 = (r, db')" by simp
        moreover have "fst ` set (commands db) \<subseteq> fst ` set (commands db1)" "identity db1 = identity db"
          by (rule saveE[OF Inr], simp add: keys_upsert subset_insertI)+
        ultimately show ?thesis using Cons.IH[of "n + 1" db1] by (simp add: subset_trans)
      qed (use \<open>dec raw = Inr v\<close> False Cons.prems in simp)
    next
      case True
      with Inr Cons.prems have "recover_all fault enc dec b now raws n db = (r, db')" by simp
      then show ?thesis by (rule Cons.IH)
    qed
  qed (use Cons.prems in simp)
qed simp

lemma open_database_keeps_rows:
  assumes "open_database fault save_fault enc dec b fresh_id now expected db = (r, db')"
  shows "fst ` set (commands db) \<subseteq> fst ` set (commands db')"
proof -
  define g where "g = (case identity db of Some g \<Rightarrow> g
    | None \<Rightarrow> (case expected of Some g \<Rightarrow> g | None \<Rightarrow> ''gateway-'' @ fresh_id))"
  define db1 where "db1 = db\<lparr>identity := Some g, user_version := 1\<rparr>"
  obtain r1 db2 where rec: "recover_all save_fault enc dec b now (unfinished db1) (max (head db1) (max_event db1)) db1 = (r1, db2)"
    by fastforce
  have "db' = db \<or> db' = db2"
    using assms rec unfolding open_database_def Let_def g_def[symmetric] db1_def[symmetric]
    by (auto split: option.splits if_splits sum.splits)
  moreover have "fst ` set (commands db) \<subseteq> fst ` set (commands db2)"
    using recover_all_keeps_rows[OF rec] by (simp add: db1_def)
  ultimately show ?thesis by auto
qed

lemma collect_ids_complete:
  "collect_ids sha limit rows ids = Ok ids' \<Longrightarrow>
     set ids \<subseteq> set ids' \<and> (\<lambda>(m, c). sha (tracking_key m c)) ` set rows \<subseteq> set ids'"
  by (induction sha limit rows ids rule: collect_ids.induct) (auto split: if_splits)

lemma opened_history:
  assumes "tracker_open sha enc dec env db = (ctx, s, conn, db')" and "history_known ctx"
    and "(m, c) \<in> fst ` set (commands db)"
  shows "sha (tracking_key m c) \<in> set (historical_ids ctx)"
proof -
  obtain r where o: "open_database (oe_fault env) (oe_save_fault env) enc dec (oe_boot env)
      (oe_fresh env) (oe_now env) None db = (r, db')"
    using assms(1) by (auto simp: tracker_open_def Let_def split: prod.splits)
  obtain ids where h: "historical_command_ids sha (oe_history_fault env) (gateway ctx) (Some db') = Ok ids"
    and ctx: "historical_ids ctx = ids"
    using assms(1,2) by (auto simp: tracker_open_def Let_def o is_ok_iff split: prod.splits)
  have "collect_ids sha (KEEP_COUNT + CACHE_LIMIT) (map fst (commands db')) [] = Ok ids"
    using h by (auto simp: historical_command_ids_def split: option.splits if_splits)
  from collect_ids_complete[OF this] open_database_keeps_rows[OF o] assms(3) show ?thesis
    by (force simp: ctx)
qed

text \<open>Whatever the journal answers to a lookup of a stored command, it is not that the command is unknown.\<close>

lemma lookup_stored: "(m, c) \<in> fst ` set (commands db) \<Longrightarrow> lookup_journal fault dec g m c db \<noteq> Ok None"
  by (auto simp: lookup_journal_def map_of_eq_None_iff split: option.splits)

lemma begin_not_new:
  assumes "be_lookup env \<noteq> Ok None" and "history_known ctx \<Longrightarrow> sha (tracking_key m c) \<in> set (historical_ids ctx)"
  shows "fst (begin_command sha ctx env m c port ack payload s) \<noteq> Ok (w, True)"
proof -
  have "begin_lookup sha ctx (be_lookup env) show_error m c hash s \<noteq> (Ok None, s')" for show_error hash s'
    using assms by (auto simp: begin_lookup_def get_def Let_def split: sum.splits option.splits if_splits)
  then show ?thesis
    by (auto simp: begin_command_def Let_def split: prod.splits sum.splits option.splits)
qed

end
