(* ===== verification/Command_Transaction.thy ===== *)
theory Command_Transaction
  imports Command_Tracking
begin

text \<open>
  The control transaction of a serial worker: \<open>src/src/serial/command_transaction.rs\<close> with its
  bounded audit record (\<open>command_audit.rs\<close>) and the spacing between transactions
  (\<open>command_pacing.rs\<close>). The clock and the serial line are parameters: \<open>te_expired i\<close> says whether
  the deadline has passed at check \<open>i\<close> (0 before the transaction, then one per attempt), \<open>te_send i\<close>
  whether the write of attempt \<open>i\<close> succeeds, \<open>te_reply i\<close> what waiting for its acknowledgement
  returns. Log output is left out.
\<close>

section \<open>The audit record (command_audit.rs)\<close>

record command_audit =
  au_port :: string
  au_device_id :: string
  au_ack_id :: "string option"
  au_request :: string
  au_request_bytes :: nat
  au_request_truncated :: bool
  au_max_attempts :: nat
  au_attempt_count :: nat
  au_sent_count :: nat
  au_result :: string
  au_last_error :: string
  au_failure_count :: u32
  au_failures :: "(nat \<times> string) list"

definition audit_new :: "string \<Rightarrow> send_data \<Rightarrow> u64 option \<Rightarrow> nat \<Rightarrow> command_audit" where
  "audit_new port cmd ack max_attempts =
     \<lparr>au_port = port, au_device_id = show_nat (unat (sd_device_id cmd)),
      au_ack_id = map_option (\<lambda>a. show_nat (unat a)) ack,
      au_request = concat (map format_02X (take 256 (sd_command cmd))),
      au_request_bytes = length (sd_command cmd),
      au_request_truncated = (length (sd_command cmd) > 256),
      au_max_attempts = max_attempts, au_attempt_count = 0, au_sent_count = 0,
      au_result = ''interrupted'', au_last_error = [], au_failure_count = 0, au_failures = []\<rparr>"

definition audit_failure :: "string \<Rightarrow> command_audit \<Rightarrow> command_audit" where
  "audit_failure reason a =
     a\<lparr>au_last_error := reason, au_failure_count := saturating_inc (au_failure_count a),
       au_failures := (if length (au_failures a) = 8 then tl (au_failures a) else au_failures a)
                      @ [(au_attempt_count a, reason)]\<rparr>"

section \<open>Pacing (command_pacing.rs)\<close>

text \<open>Instants and durations are counted in nanoseconds.\<close>

record command_pacing =
  cp_interval :: nat
  cp_ready_at :: "nat option"

definition pacing_new :: "nat \<Rightarrow> command_pacing" where
  "pacing_new interval = \<lparr>cp_interval = interval, cp_ready_at = None\<rparr>"

definition pacing_ready :: "nat \<Rightarrow> command_pacing \<Rightarrow> bool" where
  "pacing_ready now p = (case cp_ready_at p of None \<Rightarrow> True | Some d \<Rightarrow> d \<le> now)"

definition pacing_completed :: "nat \<Rightarrow> command_pacing \<Rightarrow> command_pacing" where
  "pacing_completed now p =
     p\<lparr>cp_ready_at := (if cp_interval p = 0 then None else Some (now + cp_interval p))\<rparr>"

section \<open>The transaction (command_transaction.rs)\<close>

record tx_env =
  te_tracked :: bool
  te_port :: string
  te_port_name :: string
  te_ack :: "u64 option"
  te_now :: string
  te_expired :: "nat \<Rightarrow> bool"
  te_send :: "nat \<Rightarrow> bool"
  te_reply :: "nat \<Rightarrow> string + unit"

record tx_state =
  tx_tracker :: tracker_state
  tx_updates :: "command_ack_update list"
  tx_permit :: bool
  tx_sent :: nat
  tx_audit :: command_audit

text \<open>\<open>operations.command_tracker().update(port, ack, change)\<close>, when there is an operations service.\<close>

definition track :: "tx_env \<Rightarrow> (snapshot \<Rightarrow> snapshot) \<Rightarrow> tx_state \<Rightarrow> tx_state" where
  "track env change st =
     (if te_tracked env
      then st\<lparr>tx_tracker := update (te_now env) (te_port env) (te_ack env) change (tx_tracker st)\<rparr>
      else st)"

definition map_last_attempt :: "(attempt \<Rightarrow> attempt) \<Rightarrow> snapshot \<Rightarrow> snapshot" where
  "map_last_attempt f v =
     (if attempts v = [] then v
      else v\<lparr>attempts := butlast (attempts v) @ [f (last (attempts v))]\<rparr>)"

text \<open>\<open>ExecutionGuard::drop\<close>.\<close>

definition guard_change :: "snapshot \<Rightarrow> snapshot" where
  "guard_change v =
     (if terminal v then v
      else v\<lparr>phase := ''Unknown'',
             snap_error := ''serial transaction interrupted; device outcome unknown'',
             audit_incomplete := True\<rparr>)"

definition guard_drop :: "tx_env \<Rightarrow> tx_state \<Rightarrow> tx_state" where
  "guard_drop env = track env guard_change"

fun ack_change :: "command_ack_status \<Rightarrow> snapshot \<Rightarrow> snapshot" where
  "ack_change Ack_Waiting v = v"
| "ack_change Ack_Received v =
     map_last_attempt (\<lambda>a. a\<lparr>at_result := ''AckReceived''\<rparr>)
       (v\<lparr>phase := ''AckReceived'', snap_error := []\<rparr>)"
| "ack_change Ack_Failed v =
     (if terminal v then v
      else map_last_attempt (\<lambda>a. if at_result a = ''Sending'' then a\<lparr>at_result := ''write_failed''\<rparr> else a)
        (v\<lparr>phase := ''Failed'',
           snap_error := (if snap_error v = [] then ''serial command rejected or write failed''
                          else snap_error v)\<rparr>))"

definition send_ack_status :: "tx_env \<Rightarrow> command_ack_status \<Rightarrow> tx_state \<Rightarrow> tx_state" where
  "send_ack_status env status st =
     (let st = track env (ack_change status) st
      in st\<lparr>tx_updates := tx_updates st @
           [\<lparr>cau_com = te_port env, cau_ack_id = te_ack env, cau_status = status\<rparr>]\<rparr>)"

definition drop_permit :: "tx_state \<Rightarrow> tx_state" where
  "drop_permit st = st\<lparr>tx_permit := False\<rparr>"

definition audit :: "(command_audit \<Rightarrow> command_audit) \<Rightarrow> tx_state \<Rightarrow> tx_state" where
  "audit f st = st\<lparr>tx_audit := f (tx_audit st)\<rparr>"

definition expire_change :: "string \<Rightarrow> snapshot \<Rightarrow> snapshot" where
  "expire_change reason v = v\<lparr>phase := ''Expired'', snap_error := reason\<rparr>"

definition attempt_change :: "tx_env \<Rightarrow> nat \<Rightarrow> snapshot \<Rightarrow> snapshot" where
  "attempt_change env i v =
     v\<lparr>phase := ''Executing'', attempt_count := of_nat i,
       attempts := attempts v @ [\<lparr>at_attempt = of_nat i, at_sent = False, at_result = ''Sending'',
                                  at_at = te_now env\<rparr>]\<rparr>"

definition sent_change :: "snapshot \<Rightarrow> snapshot" where
  "sent_change v =
     map_last_attempt (\<lambda>a. a\<lparr>at_sent := True, at_result := ''WaitingForAck''\<rparr>)
       (v\<lparr>sent_count := sent_count v + 1\<rparr>)"

definition reason_change :: "string \<Rightarrow> snapshot \<Rightarrow> snapshot" where
  "reason_change reason v =
     map_last_attempt (\<lambda>a. a\<lparr>at_result := reason\<rparr>) (v\<lparr>snap_error := reason\<rparr>)"

text \<open>The physical write of an attempt.\<close>

definition send_command :: "tx_env \<Rightarrow> nat \<Rightarrow> tx_state \<Rightarrow> bool \<times> tx_state" where
  "send_command env i st =
     (te_send env i, if te_send env i then st\<lparr>tx_sent := tx_sent st + 1\<rparr> else st)"

text \<open>The loop over the attempts \<open>i, ..., i + left - 1\<close>.\<close>

fun attempt_loop :: "tx_env \<Rightarrow> nat \<Rightarrow> nat \<Rightarrow> tx_state \<Rightarrow> bool \<times> tx_state" where
  "attempt_loop env i 0 st =
     (let st = drop_permit st;
          st = send_ack_status env Ack_Failed st
      in (False, audit (\<lambda>a. a\<lparr>au_result := ''failed''\<rparr>) st))"
| "attempt_loop env i (Suc left) st =
     (if te_expired env i then
        (let st = drop_permit st;
             st = audit (\<lambda>a. a\<lparr>au_result := ''expired''\<rparr>) st;
             st = track env (expire_change ''deadline_expired'') st;
             st = send_ack_status env Ack_Failed st
         in (False, audit (audit_failure ''deadline_expired'') st))
      else
        let st = audit (\<lambda>a. a\<lparr>au_attempt_count := i\<rparr>) st;
            st = track env (attempt_change env i) st;
            (ok, st) = send_command env i st
        in if \<not> ok then
             (let st = drop_permit st;
                  st = track env (\<lambda>v. v\<lparr>snap_error := ''write_failed''\<rparr>) st;
                  st = send_ack_status env Ack_Failed st;
                  st = audit (\<lambda>a. a\<lparr>au_result := ''failed''\<rparr>) st
              in (False, audit (audit_failure ''write_failed'') st))
           else
             let st = audit (\<lambda>a. a\<lparr>au_sent_count := au_sent_count a + 1\<rparr>) st;
                 st = track env sent_change st;
                 st = send_ack_status env Ack_Waiting st
             in case te_reply env i of
                  Inr u \<Rightarrow>
                    (let st = drop_permit st;
                         st = send_ack_status env Ack_Received st
                     in (True, audit (\<lambda>a. a\<lparr>au_result := ''received'', au_last_error := []\<rparr>) st))
                | Inl reason \<Rightarrow>
                    (let st = audit (audit_failure reason) st;
                         st = track env (reason_change reason) st
                     in attempt_loop env (i + 1) left st))"

definition execute_command_with_ack :: "tx_env \<Rightarrow> send_data \<Rightarrow> nat \<Rightarrow> tx_state \<Rightarrow> bool \<times> tx_state" where
  "execute_command_with_ack env cmd retry_count st =
     (let n = max retry_count 1
      in attempt_loop env 1 n (st\<lparr>tx_audit := audit_new (te_port_name env) cmd (te_ack env) n\<rparr>))"

definition unconfirmed_change :: "bool \<Rightarrow> snapshot \<Rightarrow> snapshot" where
  "unconfirmed_change sent v =
     map_last_attempt (\<lambda>a. a\<lparr>at_sent := sent,
         at_result := (if sent then ''SentUnconfirmed'' else ''write_failed'')\<rparr>)
       (v\<lparr>phase := (if sent then ''SentUnconfirmed'' else ''Failed''),
          sent_count := (if sent then 1 else 0),
          snap_error := (if sent then snap_error v else ''write_failed'')\<rparr>)"

text \<open>The body of \<open>execute_queued_command\<close>, and the guard that runs when it ends or is interrupted.\<close>

definition execute_body :: "tx_env \<Rightarrow> send_data \<Rightarrow> bool \<Rightarrow> nat \<Rightarrow> tx_state \<Rightarrow> bool \<times> tx_state" where
  "execute_body env cmd report_ack retry_count st =
     (if te_expired env 0 then
        (let st = drop_permit st;
             st = track env (expire_change ''deadline_expired_before_send'') st
         in (False, if report_ack then send_ack_status env Ack_Failed st else st))
      else if \<not> report_ack then
        (let st = track env (attempt_change env 1) st;
             (sent, st) = send_command env 1 st;
             st = drop_permit st
         in (sent, track env (unconfirmed_change sent) st))
      else execute_command_with_ack env cmd retry_count st)"

definition execute_queued_command :: "tx_env \<Rightarrow> send_data \<Rightarrow> bool \<Rightarrow> nat \<Rightarrow> tx_state \<Rightarrow> bool \<times> tx_state" where
  "execute_queued_command env cmd report_ack retry_count st =
     apsnd (guard_drop env) (execute_body env cmd report_ack retry_count st)"

section \<open>Messages, sends and the permit\<close>

lemma track_fields [simp]:
  "tx_updates (track env f st) = tx_updates st" "tx_permit (track env f st) = tx_permit st"
  "tx_sent (track env f st) = tx_sent st" "tx_audit (track env f st) = tx_audit st"
  by (simp_all add: track_def)

lemma send_ack_fields [simp]:
  "map cau_status (tx_updates (send_ack_status env a st)) = map cau_status (tx_updates st) @ [a]"
  "tx_permit (send_ack_status env a st) = tx_permit st" "tx_sent (send_ack_status env a st) = tx_sent st"
  "tx_audit (send_ack_status env a st) = tx_audit st"
  by (simp_all add: send_ack_status_def Let_def)

lemma audit_fields [simp]:
  "tx_updates (audit f st) = tx_updates st" "tx_permit (audit f st) = tx_permit st"
  "tx_sent (audit f st) = tx_sent st" "tx_tracker (audit f st) = tx_tracker st"
  by (simp_all add: audit_def)

lemma drop_permit_fields [simp]:
  "tx_updates (drop_permit st) = tx_updates st" "\<not> tx_permit (drop_permit st)"
  "tx_sent (drop_permit st) = tx_sent st" "tx_tracker (drop_permit st) = tx_tracker st"
  by (simp_all add: drop_permit_def)

lemma send_command_fields:
  "send_command env i st = (ok, st') \<Longrightarrow> ok = te_send env i \<and> tx_updates st' = tx_updates st
     \<and> tx_permit st' = tx_permit st \<and> tx_tracker st' = tx_tracker st
     \<and> tx_sent st' = tx_sent st + (if ok then 1 else 0)"
  by (auto simp: send_command_def)

text \<open>
  The loop sends at most once per attempt, reports one waiting state per send and one final state,
  gives the permit back, and stops at the first acknowledgement.
\<close>

lemma attempt_loop_trace:
  assumes "attempt_loop env i left st = (r, st')"
  obtains k where "k \<le> left" and "tx_sent st' = tx_sent st + k" and "\<not> tx_permit st'"
    and "map cau_status (tx_updates st') = map cau_status (tx_updates st) @ replicate k Ack_Waiting
           @ [if r then Ack_Received else Ack_Failed]"
    and "r \<longleftrightarrow> 0 < k \<and> is_ok (te_reply env (i + k - 1))"
    and "\<forall>j < k - 1. \<not> is_ok (te_reply env (i + j))"
  using assms
proof (induction env i left st arbitrary: thesis rule: attempt_loop.induct)
  case (1 env i st)
  show ?case by (rule 1(1)[of 0]) (use 1(2) in \<open>auto simp: Let_def\<close>)
next
  case (2 env i left st)
  let ?st1 = "track env (attempt_change env i) (audit (\<lambda>a. a\<lparr>au_attempt_count := i\<rparr>) st)"
  obtain ok st2 where s: "send_command env i ?st1 = (ok, st2)" by fastforce
  note s' = send_command_fields[OF s]
  show ?case
  proof (cases "te_expired env i \<or> \<not> ok")
    case True
    show ?thesis by (rule 2(2)[of 0]) (use 2(3) True s s' in \<open>auto simp: Let_def split: if_splits\<close>)
  next
    case False
    show ?thesis
    proof (cases "te_reply env i")
      case (Inr u)
      show ?thesis
        by (rule 2(2)[of 1]) (use 2(3) False s s' Inr in \<open>auto simp: Let_def split: if_splits\<close>)
    next
      case (Inl reason)
      let ?st3 = "track env (reason_change reason) (audit (audit_failure reason)
          (send_ack_status env Ack_Waiting (track env sent_change
            (audit (\<lambda>a. a\<lparr>au_sent_count := au_sent_count a + 1\<rparr>) st2))))"
      have loop: "attempt_loop env (i + 1) left ?st3 = (r, st')"
        using 2(3) False s Inl by (simp add: Let_def)
      have "\<not> te_expired env i" using False by simp
      note IH = 2(1)[OF this refl refl s[symmetric] refl _ refl refl refl Inl refl refl _ loop]
      obtain k where k: "k \<le> left" "tx_sent st' = tx_sent ?st3 + k" "\<not> tx_permit st'"
        "map cau_status (tx_updates st') = map cau_status (tx_updates ?st3) @ replicate k Ack_Waiting
           @ [if r then Ack_Received else Ack_Failed]"
        "r \<longleftrightarrow> 0 < k \<and> is_ok (te_reply env (i + 1 + k - 1))"
        "\<forall>j < k - 1. \<not> is_ok (te_reply env (i + 1 + j))"
        using IH False by auto
      have nok: "\<not> is_ok (te_reply env i)" using Inl by simp
      show ?thesis
      proof (rule 2(2)[of "Suc k"])
        show "\<forall>j < Suc k - 1. \<not> is_ok (te_reply env (i + j))"
        proof (intro allI impI)
          fix j assume "j < Suc k - 1"
          then show "\<not> is_ok (te_reply env (i + j))"
            using nok k(6)[rule_format, of "j - 1"] by (cases j) auto
        qed
        show "r \<longleftrightarrow> 0 < Suc k \<and> is_ok (te_reply env (i + Suc k - 1))"
          using k(5) nok by (cases k) auto
      qed (use k s' False in \<open>auto\<close>)
    qed
  qed
qed

section \<open>The recorded outcome\<close>

text \<open>The snapshot that the transaction's port and acknowledgement number stand for.\<close>

definition tracked :: "tx_env \<Rightarrow> tx_state \<Rightarrow> snapshot option" where
  "tracked env st =
     (if \<not> te_tracked env then None
      else case te_ack env of
             None \<Rightarrow> None
           | Some a \<Rightarrow> (case acks (tx_tracker st) (te_port env, a) of
                          None \<Rightarrow> None
                        | Some k \<Rightarrow> map_of (entries (tx_tracker st)) k))"

definition keeps_key :: "(snapshot \<Rightarrow> snapshot) \<Rightarrow> bool" where
  "keeps_key f \<longleftrightarrow> (\<forall>v. snapshot_key (f v) = snapshot_key v)"

lemma map_last_attempt_fields [simp]:
  "snapshot_key (map_last_attempt f v) = snapshot_key v" "phase (map_last_attempt f v) = phase v"
  by (simp_all add: map_last_attempt_def snapshot_key_def)

lemma keeps_key_changes [simp]:
  "keeps_key guard_change" "keeps_key (ack_change a)" "keeps_key (expire_change r)"
  "keeps_key (attempt_change env i)" "keeps_key sent_change" "keeps_key (reason_change r)"
  "keeps_key (unconfirmed_change b)" "keeps_key (\<lambda>v. v\<lparr>snap_error := r\<rparr>)"
proof -
  show "keeps_key (ack_change a)" by (cases a) (simp_all add: keeps_key_def, simp_all add: snapshot_key_def)
qed (simp_all add: keeps_key_def guard_change_def expire_change_def attempt_change_def sent_change_def
      reason_change_def unconfirmed_change_def, simp_all add: snapshot_key_def)

lemma track_ok [simp]:
  "tracker_ok (tx_tracker st) \<Longrightarrow> keeps_key f \<Longrightarrow> tracker_ok (tx_tracker (track env f st))"
  by (simp add: track_def update_ok keeps_key_def)

lemma send_ack_ok [simp]:
  "tracker_ok (tx_tracker st) \<Longrightarrow> tracker_ok (tx_tracker (send_ack_status env a st))"
  by (simp add: send_ack_status_def Let_def)

lemma tracked_track:
  assumes "tracker_ok (tx_tracker st)" and "tracked env st = Some v"
  shows "\<exists>w. tracked env (track env f st) = Some w \<and> phase w = phase (f v)"
  using assms
  by (auto simp: tracked_def track_def update_def Let_def tracker_ok_def map_of_btree_insert split: option.splits if_splits)

lemma tracked_cong: "tx_tracker st = tx_tracker st' \<Longrightarrow> tracked env st = tracked env st'"
  unfolding tracked_def by (erule ssubst) (rule refl)

lemma tracked_simps [simp]:
  "tracked env (audit f st) = tracked env st" "tracked env (drop_permit st) = tracked env st"
  "tracked env (st\<lparr>tx_updates := u\<rparr>) = tracked env st" "tracked env (st\<lparr>tx_audit := a\<rparr>) = tracked env st"
  by (rule tracked_cong, simp)+

lemma tracked_send_ack:
  assumes "tracker_ok (tx_tracker st)" and "tracked env st = Some v"
  shows "\<exists>w. tracked env (send_ack_status env a st) = Some w \<and> phase w = phase (ack_change a v)"
  using tracked_track[OF assms, of "ack_change a"] by (simp add: send_ack_status_def Let_def)

lemma tracked_send: "send_command env i st = (ok, st') \<Longrightarrow> tracked env st' = tracked env st"
  by (rule tracked_cong) (auto simp: send_command_def)

lemma phase_changes [simp]:
  "phase (expire_change r v) = ''Expired''" "phase (attempt_change env i v) = ''Executing''"
  "phase (sent_change v) = phase v" "phase (reason_change r v) = phase v"
  "phase (ack_change Ack_Received v) = ''AckReceived''"
  "phase (unconfirmed_change b v) = (if b then ''SentUnconfirmed'' else ''Failed'')"
  "phase (ack_change Ack_Failed v) = (if terminal_phase (phase v) then phase v else ''Failed'')"
  by (simp_all add: expire_change_def attempt_change_def sent_change_def reason_change_def
      unconfirmed_change_def terminal_def)

lemma terminal_phases [simp]:
  "terminal_phase ''Expired''" "\<not> terminal_phase ''Executing''" "terminal_phase ''Failed''"
  "terminal_phase ''AckReceived''" "terminal_phase ''SentUnconfirmed''" "terminal_phase ''Unknown''"
  by (simp_all add: terminal_phase_def)

lemma attempt_loop_phase:
  assumes "attempt_loop env i left st = (r, st')" and "tracker_ok (tx_tracker st)"
    and "tracked env st = Some v" and "left = 0 \<Longrightarrow> \<not> terminal_phase (phase v)"
  shows "tracker_ok (tx_tracker st') \<and> (\<exists>w. tracked env st' = Some w \<and>
    phase w \<in> (if r then {''AckReceived''} else {''Expired'', ''Failed''}))"
  using assms
proof (induction env i left st arbitrary: v rule: attempt_loop.induct)
  case (1 env i st)
  then show ?case
    using tracked_send_ack[of "drop_permit st" env v Ack_Failed] by (auto simp: Let_def terminal_def)
next
  case (2 env i left st)
  let ?st1 = "track env (attempt_change env i) (audit (\<lambda>a. a\<lparr>au_attempt_count := i\<rparr>) st)"
  obtain ok st2 where s: "send_command env i ?st1 = (ok, st2)" by fastforce
  have ok2: "tracker_ok (tx_tracker st2)" using send_command_fields[OF s] 2(3) by simp
  obtain v2 where v2: "tracked env st2 = Some v2" "phase v2 = ''Executing''"
    using tracked_track[of "audit (\<lambda>a. a\<lparr>au_attempt_count := i\<rparr>) st" env v "attempt_change env i"] 2(3,4)
    by (auto simp: tracked_send[OF s])
  show ?case
  proof (cases "te_expired env i")
    case True
    let ?e = "track env (expire_change ''deadline_expired'') (audit (\<lambda>a. a\<lparr>au_result := ''expired''\<rparr>) (drop_permit st))"
    obtain e where "tracked env ?e = Some e" "phase e = ''Expired''" 
      using tracked_track[of "audit (\<lambda>a. a\<lparr>au_result := ''expired''\<rparr>) (drop_permit st)" env v
          "expire_change ''deadline_expired''"] 2(3,4) by auto
    with tracked_send_ack[of ?e env e Ack_Failed] True 2(2,3) show ?thesis by (auto simp: Let_def terminal_def)
  next
    case not_expired: False
    show ?thesis
    proof (cases ok)
      case False
      let ?e = "track env (\<lambda>v. v\<lparr>snap_error := ''write_failed''\<rparr>) (drop_permit st2)"
      obtain e where "tracked env ?e = Some e" "phase e = ''Executing''"
        using tracked_track[of "drop_permit st2" env v2 "\<lambda>v. v\<lparr>snap_error := ''write_failed''\<rparr>"] ok2 v2 by auto
      with tracked_send_ack[of ?e env e Ack_Failed] False not_expired 2(2) s ok2 show ?thesis
        by (auto simp: Let_def terminal_def)
    next
      case True
      let ?e = "track env sent_change (audit (\<lambda>a. a\<lparr>au_sent_count := au_sent_count a + 1\<rparr>) st2)"
      let ?w = "send_ack_status env Ack_Waiting ?e"
      obtain e where e: "tracked env ?e = Some e" "phase e = ''Executing''"
        using tracked_track[of "audit (\<lambda>a. a\<lparr>au_sent_count := au_sent_count a + 1\<rparr>) st2" env v2 sent_change]
          ok2 v2 by auto
      obtain w where w: "tracked env ?w = Some w" "phase w = ''Executing''" "tracker_ok (tx_tracker ?w)"
        using tracked_send_ack[of ?e env e Ack_Waiting] ok2 e by auto
      show ?thesis
      proof (cases "te_reply env i")
        case (Inr u)
        with tracked_send_ack[of "drop_permit ?w" env w Ack_Received] True not_expired 2(2) s w
        show ?thesis by (auto simp: Let_def)
      next
        case (Inl reason)
        let ?st3 = "track env (reason_change reason) (audit (audit_failure reason) ?w)"
        have loop: "attempt_loop env (i + 1) left ?st3 = (r, st')"
          using 2(2) True not_expired s Inl by (simp add: Let_def)
        obtain x where x: "tracked env ?st3 = Some x" "phase x = ''Executing''"
          using tracked_track[of "audit (audit_failure reason) ?w" env w "reason_change reason"] w by auto
        show ?thesis
          using 2(1)[OF not_expired refl refl s[symmetric] refl _ refl refl refl Inl refl refl loop _ x(1)] True x(2) w(3)
          by simp
      qed
    qed
  qed
qed

text \<open>
  After a transaction, finished or interrupted, the command is on record with a final phase: never
  acknowledged unless the acknowledgement arrived.
\<close>

lemma execute_body_phase:
  assumes "execute_body env cmd report n st = (r, st')" and "tracker_ok (tx_tracker st)"
    and "tracked env st = Some v"
  shows "tracker_ok (tx_tracker st') \<and> (\<exists>w. tracked env st' = Some w \<and>
    phase w \<in> (if r then {if report then ''AckReceived'' else ''SentUnconfirmed''} else {''Expired'', ''Failed''})
    \<and> (te_expired env 0 \<longrightarrow> phase w = ''Expired'' \<and> tx_sent st' = tx_sent st))"
proof (cases "te_expired env 0")
  case True
  let ?e = "track env (expire_change ''deadline_expired_before_send'') (drop_permit st)"
  obtain e where "tracked env ?e = Some e" "phase e = ''Expired''" 
    using tracked_track[of "drop_permit st" env v "expire_change ''deadline_expired_before_send''"] assms by auto
  with tracked_send_ack[of ?e env e Ack_Failed] True assms show ?thesis
    by (auto simp: execute_body_def Let_def terminal_def)
next
  case False
  show ?thesis
  proof (cases report)
    case True
    have "attempt_loop env 1 (max n 1) (st\<lparr>tx_audit := audit_new (te_port_name env) cmd (te_ack env) (max n 1)\<rparr>) = (r, st')"
      using assms(1) True False by (simp add: execute_body_def execute_command_with_ack_def Let_def)
    from attempt_loop_phase[OF this, of v] assms(2,3) True False show ?thesis
      by (auto split: if_splits)
  next
    case not_report: False
    obtain st2 where s: "send_command env 1 (track env (attempt_change env 1) st) = (r, st2)"
      and st': "st' = track env (unconfirmed_change r) (drop_permit st2)"
      using assms(1) False not_report by (auto simp: execute_body_def Let_def split: prod.splits)
    obtain v2 where "tracked env st2 = Some v2"
      using tracked_track[OF assms(2,3), of "attempt_change env 1"] tracked_send[OF s] by auto
    moreover have "tracker_ok (tx_tracker st2)" using send_command_fields[OF s] assms(2) by simp
    ultimately show ?thesis
      using tracked_track[of "drop_permit st2" env v2 "unconfirmed_change r"] False not_report st' by auto
  qed
qed

lemma execute_final_phase:
  assumes "execute_queued_command env cmd report n st = (r, st')" and "tracker_ok (tx_tracker st)"
    and "tracked env st = Some v"
  obtains w where "tracked env st' = Some w" and "terminal w"
    and "phase w \<in> (if r then {if report then ''AckReceived'' else ''SentUnconfirmed''} else {''Expired'', ''Failed''})"
    and "te_expired env 0 \<Longrightarrow> phase w = ''Expired'' \<and> tx_sent st' = tx_sent st"
proof -
  obtain st1 where b: "execute_body env cmd report n st = (r, st1)" and st': "st' = guard_drop env st1"
    using assms(1) by (auto simp: execute_queued_command_def apsnd_def map_prod_def split: prod.splits)
  obtain v1 where v1: "tracker_ok (tx_tracker st1)" "tracked env st1 = Some v1"
    "phase v1 \<in> (if r then {if report then ''AckReceived'' else ''SentUnconfirmed''} else {''Expired'', ''Failed''})"
    "te_expired env 0 \<longrightarrow> phase v1 = ''Expired'' \<and> tx_sent st1 = tx_sent st"
    using execute_body_phase[OF b assms(2,3)] by blast
  then have t: "terminal v1" by (auto simp: terminal_def split: if_splits)
  obtain w where w: "tracked env st' = Some w" "phase w = phase (guard_change v1)"
    using tracked_track[OF v1(1,2), of guard_change] by (auto simp: st' guard_drop_def)
  have p: "phase w = phase v1" using t w(2) by (simp add: guard_change_def)
  then have "terminal w" using t by (simp add: terminal_def)
  then show thesis
    using that[of w] w(1) v1(3,4) p by (simp add: st' guard_drop_def)
qed

text \<open>An interrupted transaction, whatever its state, leaves a final phase behind.\<close>

lemma guard_final:
  assumes "tracker_ok (tx_tracker st)" and "tracked env st = Some v"
  obtains w where "tracked env (guard_drop env st) = Some w" and "terminal w"
    and "phase w = (if terminal v then phase v else ''Unknown'')"
proof -
  obtain w where "tracked env (guard_drop env st) = Some w" "phase w = phase (guard_change v)"
    using tracked_track[OF assms, of guard_change] by (auto simp: guard_drop_def)
  then show thesis using that[of w] by (auto simp: guard_change_def terminal_def)
qed

section \<open>Audit and pacing\<close>

lemma audit_failure_bounded:
  "length (au_failures a) \<le> 8 \<Longrightarrow> length (au_failures (audit_failure r a)) \<le> 8"
  by (auto simp: audit_failure_def)

lemma audit_failure_last: "last (au_failures (audit_failure r a)) = (au_attempt_count a, r)"
  by (simp add: audit_failure_def)

lemma pacing_spacing:
  "pacing_ready now' (pacing_completed now p) \<longleftrightarrow> cp_interval p = 0 \<or> now + cp_interval p \<le> now'"
  by (simp add: pacing_ready_def pacing_completed_def)

end
