(* ===== verification/Worked_Examples.thy ===== *)
theory Worked_Examples
  imports Calc_Cycle Protocol Command_Journal Command_Transaction
begin

text \<open>
  Concrete inputs on which the components are run: a two-formula engine given in the wrong order, a
  tracker with one admitted command, a journal that holds it. They show that the hypotheses of the
  properties in the root theory can be met, and what the definitions compute there.
\<close>

section \<open>An engine with two formulas\<close>

definition demo_rule :: "string \<Rightarrow> string \<Rightarrow> calc_rule" where
  "demo_rule out e = \<lparr>cr_kks_calc = out, cr_data_type = ''uint'', cr_expression = e,
     cr_max_limit = FNum 100, cr_min_limit = FNum 0, cr_default_value = FNum 0\<rparr>"

definition demo_rules :: "calc_rule list" where
  "demo_rules = [demo_rule ''B'' ''A+1'', demo_rule ''A'' ''X*2'']"

definition demo_compiled :: "string \<Rightarrow> string \<Rightarrow> expr \<Rightarrow> string \<Rightarrow> compiled_rule" where
  "demo_compiled out e a v = \<lparr>kks_calc = out, data_type = CD_UInt, expression = e, ast = a,
     rule_variables = [v], max_limit = FNum 100, min_limit = FNum 0, default_value = FNum 0\<rparr>"

definition demo_A :: compiled_rule where
  "demo_A = demo_compiled ''A'' ''X*2'' (E_Binary B_Mul (E_Variable ''X'') (E_Literal (L_Int 2))) ''X''"

definition demo_B :: compiled_rule where
  "demo_B = demo_compiled ''B'' ''A+1'' (E_Binary B_Add (E_Variable ''A'') (E_Literal (L_Int 1))) ''A''"

definition demo_status :: "rcd_value \<Rightarrow> device_status" where
  "demo_status v = \<lparr>ds_id = 0, ds_device_id = 1, ds_com = ''COM1'', ds_com_status = True,
     ds_device_status = True, ds_value = [''X'' \<mapsto> v], ds_raw_data = []\<rparr>"

lemmas lex_simps = lex_step_def lex_ident_def lex_operator_def lex_number_def is_ident_start_def
  is_ident_char_def ascii_defs code_of_def parse_i64_def parse_unsigned_def digits_val_def digit_val_def

lemma demo_tokens:
  "tokenize ''A+1'' = Ok [T_Ident ''A'', T_Plus, T_Int 1, T_Eof]"
  "tokenize ''X*2'' = Ok [T_Ident ''X'', T_Star, T_Int 2, T_Eof]"
  by (simp_all add: lex_simps)

lemma demo_names:
  "\<not> eq_ignore_ascii_case ''A'' ''true''" "\<not> eq_ignore_ascii_case ''A'' ''false''"
  "\<not> eq_ignore_ascii_case ''X'' ''true''" "\<not> eq_ignore_ascii_case ''X'' ''false''"
  by code_simp+

lemma demo_parse:
  "parse [T_Ident ''A'', T_Plus, T_Int 1, T_Eof] = Ok (E_Binary B_Add (E_Variable ''A'') (E_Literal (L_Int 1)))"
  "parse [T_Ident ''X'', T_Star, T_Int 2, T_Eof] = Ok (E_Binary B_Mul (E_Variable ''X'') (E_Literal (L_Int 2)))"
  using parse_printed[of "E_Binary B_Add (E_Variable ''A'') (E_Literal (L_Int 1))"]
    parse_printed[of "E_Binary B_Mul (E_Variable ''X'') (E_Literal (L_Int 2))"]
  by (simp_all add: demo_names)

lemma demo_type: "normalize_data_type ''uint'' = Some CD_UInt"
  by code_simp

lemmas demo_defs = demo_A_def demo_B_def demo_compiled_def

lemma demo_compile:
  "compile_rule (demo_rule ''B'' ''A+1'') = Ok demo_B" "compile_rule (demo_rule ''A'' ''X*2'') = Ok demo_A"
  by (simp_all add: compile_rule_def demo_rule_def demo_type demo_tokens demo_parse demo_defs
      extract_variables_def Let_def del: tokenize.simps and_then_Ok)

lemma demo_kks: "kks_calc demo_B = ''B''" "kks_calc demo_A = ''A''"
  by (simp_all add: demo_defs)

lemma demo_index: "name_to_idx [demo_B, demo_A] = [''B'' \<mapsto> 0, ''A'' \<mapsto> 1]"
  by (simp add: name_to_idx_def demo_kks upt_conv_Cons)

lemma demo_vars: "rule_variables demo_B = [''A'']" "rule_variables demo_A = [''X'']"
  by (simp_all add: demo_defs)

lemma demo_sort: "topological_sort [demo_B, demo_A] = Some [demo_A, demo_B]"
  by (simp add: topological_sort_def demo_index demo_vars upt_conv_Cons numeral_2_eq_2)

lemma demo_new: "engine_new demo_rules = Some [demo_A, demo_B]"
  by (simp add: engine_new_def demo_rules_def demo_compile demo_kks Let_def demo_sort)

lemma small_checked: "0 \<le> n \<Longrightarrow> n < 2 ^ 31 \<Longrightarrow> checked_i64 n = Some (word_of_int n)"
  by (simp add: checked_i64_def)

lemmas demo_eval = rule_result_eq evaluate_with_validity_binary strict_op_def eval_mul_def eval_add_def
  int_op_def checked_mul_def checked_add_def small_checked

lemmas demo_clamp = clamped_output_def typed_output_def fp_clamp_def i64_as_f64_def fp_of_int_exact
  fp_le_def fp_as_u32_def fp_max_def rat_trunc_def

lemma demo_rule_A:
  "vars ''X'' = Some (EV_Int 3) \<Longrightarrow> val ''X'' = Some True \<Longrightarrow> rule_result demo_A vars val = Some (V_UInt 6, True)"
  by (simp add: demo_defs demo_eval del: and_then_Ok map_ok_Ok checked_i64_Some) (simp add: demo_clamp)

lemma demo_rule_B:
  "vars ''A'' = Some (EV_Int 6) \<Longrightarrow> val ''A'' = Some True \<Longrightarrow> rule_result demo_B vars val = Some (V_UInt 7, True)"
  by (simp add: demo_defs demo_eval del: and_then_Ok map_ok_Ok checked_i64_Some) (simp add: demo_clamp)

lemma demo_run:
  "run_cycle_with_quality [demo_A, demo_B] [''X'' \<mapsto> EV_Int 3] [''X'' \<mapsto> True]
     = Some [(''A'', V_UInt 6, True), (''B'', V_UInt 7, True)]"
  by (simp add: demo_rule_A demo_rule_B demo_kks)

section \<open>A device file and a frame\<close>

definition demo_deser :: "string list \<Rightarrow> unit + csv_record" where
  "demo_deser row = (if row ! 3 = ''1''
     then Ok \<lparr>rec_kks = row ! 0, rec_type = row ! 1, rec_f_type = row ! 2, rec_byte_index = 1,
       rec_bit_index = BI_Single 0, rec_def = 0, rec_max = 1, rec_min = 0, rec_byte_order = 0\<rparr>
     else Err ())"

definition demo_csv :: "unit csv_row list" where
  "demo_csv = map Inr [[''com'', ''COM1''], [''baud_rate'', ''9600''], [''is_special'', ''false''],
     [''com_index'', ''1''], [''device_id'', ''2''], [''data_len'', ''0''], [''kks_prefix'', ''P''],
     [''kks'', ''type_'', ''f_type'', ''byte_index'', ''bit_index'', ''def'', ''max'', ''min'', ''lh''],
     [''K'', ''bool'', [], ''1'', ''0'', ''0'', ''1'', ''0'', ''0'']]"

definition demo_cfg :: csv_config where
  "demo_cfg = \<lparr>cfg_com = ''COM1'', cfg_baud_rate = 9600, cfg_is_special = False, cfg_com_index = 1,
     cfg_device_id = 2, cfg_data_len = 0, cfg_kks_prefix = ''P''\<rparr>"

definition demo_point :: csv_record where
  "demo_point = \<lparr>rec_kks = ''PK'', rec_type = ''bool'', rec_f_type = [], rec_byte_index = 1,
     rec_bit_index = BI_Single 0, rec_def = 0, rec_max = 1, rec_min = 0, rec_byte_order = 0\<rparr>"

definition demo_frame :: bytes where "demo_frame = [2, 3, 0, 1, 6]"

definition demo_packet :: data_packet where
  "demo_packet = \<lparr>dp_addr = 2, dp_cmd = 3, dp_len = 0, dp_status = [1], dp_crc = 6\<rparr>"

lemmas demo_text = csv_label_matches_def trim_visible visible_def remove_underscores_def
  to_ascii_lowercase_def to_ascii_lowercase_char_def ascii_defs header_fields_def record_csv_header_def
  second_field_def

lemmas demo_numbers = parse_required_def parse_bool_def parse_u32_def parse_u8_def parse_unsigned_def
  digits_val_def digit_val_def eq_ignore_ascii_case_def

lemma demo_headers:
  "read_headers 0 header_fields demo_csv =
     Ok ([''COM1'', ''9600'', ''false'', ''1'', ''2'', ''0'', ''P''], drop 7 demo_csv)"
  by (simp add: demo_csv_def demo_text del: map_ok_Ok)

lemma demo_config: "validate_config [''COM1'', ''9600'', ''false'', ''1'', ''2'', ''0'', ''P''] = Ok demo_cfg"
  by (simp add: validate_config_def lift_header_def Let_def demo_text demo_numbers demo_cfg_def
      del: and_then_Ok lift_header_Ok)

lemma demo_columns: "validate_columns (drop 7 demo_csv) = Ok (drop 8 demo_csv)"
  by (simp add: validate_columns_def demo_csv_def demo_text)

lemma demo_records: "validate_records demo_deser False demo_cfg 9 {} (drop 8 demo_csv) = Ok ([demo_point], [])"
  by (simp add: demo_csv_def demo_deser_def demo_cfg_def demo_point_def record_bounds_error_def demo_text
      del: map_ok_Ok)

lemma demo_validated: "validate_csv_content demo_deser demo_csv = Ok (demo_cfg, [demo_point])"
  by (simp add: validate_csv_content_def validate_csv_content_inner_def demo_headers demo_config
      demo_columns demo_records del: and_then_Ok)

lemma demo_frame_parsed: "parse_data_packet demo_frame = Ok demo_packet"
  by code_simp

section \<open>A tracker with one command\<close>

definition demo_sha :: "string \<Rightarrow> bytes" where
  "demo_sha s = replicate 32 1"

definition demo_ctx :: tracker_ctx where
  "demo_ctx = \<lparr>gateway = ''g'', boot = ''b'', historical_ids = [], history_known = True\<rparr>"

definition demo_admission :: admission where
  "demo_admission = \<lparr>adm_manager = ''m'', adm_command = ''c'', adm_port = ''COM1'', adm_ack = 7,
     adm_hash = ''h'', adm_normalized = ''1108'', adm_time = ''t''\<rparr>"

definition demo_snapshot :: snapshot where
  "demo_snapshot = new_snapshot demo_ctx demo_admission ((open_state 0 [])\<lparr>revision := 1\<rparr>)"

definition demo_begin_env :: begin_env where
  "demo_begin_env = \<lparr>be_lookup = Ok None, be_show_error = (\<lambda>e. []), be_before_admit = (\<lambda>t. t),
     be_while_waiting = (\<lambda>t. t), be_time = ''t'', be_now = ''n''\<rparr>"

definition demo_key :: string where "demo_key = tracking_key ''m'' ''c''"

definition demo_tracker :: tracker_state where
  "demo_tracker = store demo_key demo_snapshot
     ((open_state 0 [])\<lparr>seen := mark_seen (seen_indexes (demo_sha demo_key)) (\<lambda>_. 0), revision := 1,
        acks := [(''COM1'', 7) \<mapsto> demo_key]\<rparr>)"

lemma demo_snapshot_key: "snapshot_key demo_snapshot = demo_key"
  by (simp add: demo_snapshot_def new_snapshot_def snapshot_key_def demo_key_def demo_admission_def)

lemma demo_chunks: "chunks4 4 (replicate 32 b) = replicate 4 (replicate 4 b)"
  by (simp add: numeral_eq_Suc)

lemma demo_four: "replicate 4 x = [x, x, x, x]"
  by (simp add: numeral_eq_Suc)

lemma demo_indexes: "seen_indexes (demo_sha s) = replicate 4 65793"
  unfolding seen_indexes_def demo_sha_def demo_chunks
  by (simp add: u32_from_le_bytes_def SEEN_BYTES_def demo_four)

lemma demo_admit: "admit demo_sha demo_ctx demo_admission (open_state 0 []) = Ok (demo_snapshot, demo_tracker)"
proof -
  have k: "tracking_key (adm_manager demo_admission) (adm_command demo_admission) = demo_key"
    by (simp add: demo_admission_def demo_key_def)
  have r: "make_room (open_state 0 []) = Ok (open_state 0 [])"
    by (simp add: make_room_def open_state_def CACHE_LIMIT_def)
  have n: "\<not> list_all (seen_bit (seen (open_state 0 []))) (seen_indexes (demo_sha demo_key))"
    by (simp add: demo_indexes open_state_def seen_bit_def list_all_iff)
  have v: "new_snapshot demo_ctx demo_admission s = demo_snapshot" if "error s = []" "revision s = 1" for s
    using that by (simp add: demo_snapshot_def new_snapshot_def open_state_def)
  have p: "adm_port demo_admission = ''COM1''" "adm_ack demo_admission = 7" by (simp_all add: demo_admission_def)
  have f: "error (open_state 0 []) = []" "revision (open_state 0 []) = 0" "acks (open_state 0 []) = Map.empty"
    "seen (open_state 0 []) = (\<lambda>_. 0)" by (simp_all add: open_state_def)
  show ?thesis
    using n by (simp add: admit_def k r Let_def v p f demo_snapshot_key demo_tracker_def)
qed

lemma demo_step: "tracker_step demo_sha demo_ctx (open_state 0 []) (Some demo_key) demo_tracker"
  using st_admit[OF demo_admit] by (simp add: demo_snapshot_key)

lemma demo_run_tracker: "tracker_run demo_sha demo_ctx (open_state 0 []) [demo_key] demo_tracker"
  using run_admit[OF run_nil demo_step] by simp

lemma demo_tracker_ok: "tracker_ok demo_tracker"
  using run_ok[OF demo_run_tracker tracker_ok_open] .

lemma demo_entry: "map_of (entries demo_tracker) demo_key = Some demo_snapshot"
  by (simp add: demo_tracker_def open_state_def)

section \<open>A journal that holds the command\<close>

definition demo_recovered :: snapshot where "demo_recovered = recovered 2 ''u'' demo_snapshot"

definition demo_enc :: encoder where
  "demo_enc v = (if v = demo_snapshot then Ok ''0'' else if v = demo_recovered then Ok ''1'' else Err ''e'')"

definition demo_dec :: decoder where
  "demo_dec raw = (if raw = ''0'' then Ok demo_snapshot else if raw = ''1'' then Ok demo_recovered else Err ''d'')"

definition demo_row :: command_row where
  "demo_row = \<lparr>row_revision = 1, row_finished = False, row_updated = ''t'', row_data = ''0''\<rparr>"

definition demo_event :: event_row where
  "demo_event = \<lparr>ev_manager = ''m'', ev_id = ''c'', ev_data = ''0''\<rparr>"

definition demo_opened :: journal_db where
  "demo_opened = empty_db\<lparr>identity := Some ''g'', user_version := 1\<rparr>"

definition demo_db :: journal_db where
  "demo_db = demo_opened\<lparr>commands := [((''m'', ''c''), demo_row)], events := [(1, demo_event)], head := 1\<rparr>"

definition demo_tx_env :: tx_env where
  "demo_tx_env = \<lparr>te_tracked = True, te_port = ''COM1'', te_port_name = ''COM1'', te_ack = Some 7,
     te_now = ''n'', te_expired = (\<lambda>i. False), te_send = (\<lambda>i. True),
     te_reply = (\<lambda>i. if i = 1 then Err ''timeout'' else Ok ())\<rparr>"

definition demo_tx :: tx_state where
  "demo_tx = \<lparr>tx_tracker = demo_tracker, tx_updates = [], tx_permit = True, tx_sent = 0,
     tx_audit = audit_new [] \<lparr>sd_device_id = 0, sd_command = []\<rparr> None 0\<rparr>"

lemma demo_snapshot_fields:
  "manager_instance_id demo_snapshot = ''m''" "command_id demo_snapshot = ''c''" "snap_revision demo_snapshot = 1"
  "updated_at demo_snapshot = ''t''" "boot_id demo_snapshot = ''b''" "terminal demo_snapshot = False"
  by (simp_all add: demo_snapshot_def new_snapshot_def demo_admission_def open_state_def demo_ctx_def
      terminal_def terminal_phase_def)

lemma demo_distinct: "demo_recovered \<noteq> demo_snapshot"
proof
  assume "demo_recovered = demo_snapshot"
  then have "snap_revision demo_recovered = 1" using demo_snapshot_fields(3) by simp
  then show False by (simp add: demo_recovered_def)
qed

lemma demo_json: "json_ok demo_enc demo_dec"
  using demo_distinct by (auto simp: json_ok_def demo_enc_def demo_dec_def split: if_splits)

lemma demo_save: "save None demo_enc demo_snapshot demo_opened = Ok demo_db"
  by (simp add: save_def demo_enc_def demo_opened_def demo_db_def empty_db_def demo_row_def demo_event_def
      demo_snapshot_fields insert_or_ignore_def del: and_then_Ok)

lemma demo_opened_ok: "journal_ok dec demo_opened"
  by (simp add: demo_opened_def journal_ok_def empty_db_def bt.invar_empty)

lemma demo_db_ok: "journal_ok demo_dec demo_db"
  by (rule save_ok[OF demo_json demo_opened_ok demo_save])

lemma demo_tracked: "tracked demo_tx_env demo_tx = Some demo_snapshot"
  using demo_entry by (simp add: tracked_def demo_tx_env_def demo_tx_def demo_tracker_def open_state_def)

end
