(* ===== verification/Calc_Properties.thy ===== *)
theory Calc_Properties
  imports Worked_Examples
begin

text \<open>
  The properties of the calculation engine (\<open>src/src/calc_engine\<close>): lexer, parser, evaluator, dependency
  order, calculation cycle and runner, each with a witness on the two-formula engine of
  \<open>Worked_Examples\<close>.
\<close>

section \<open>Building the engine\<close>

text \<open>C23 Building the engine (\<open>CalcEngine::new\<close>) never panics. The engine holds exactly the compiled
  rules that do not depend, directly or not, on a dependency cycle; their output names are distinct,
  each has finite limits in order, and no rule reads its own output or that of a later rule.\<close>

theorem engine_built:
  "\<exists>eng. engine_new cfg = Some eng \<and> engine_ok eng \<and>
     set eng = {r. r \<in> set (compile_all cfg []) \<and> \<not> reaches_cycle (compile_all cfg []) (kks_calc r)}"
  by (rule engine_new_spec[of cfg]) auto

section \<open>One calculation cycle\<close>

text \<open>C25 A cycle of an engine that \<open>CalcEngine::new\<close> built always ends with one result per rule, in
  rule order, whatever the variables and their validity are: a finite value within the limits of the
  rule, converted to its declared type. The limits hold before the conversion: a \<open>Double\<close> lies within
  them, a \<open>Bool\<close>, a \<open>UInt\<close> or a \<open>Float\<close> is what the conversion makes of a value that does; a \<open>UInt\<close> with
  limits 0.3 and 0.7 is 0.\<close>

theorem cycle_total:
  assumes "engine_new cfg = Some eng"
  shows "\<exists>res. run_cycle_with_quality eng vars val = Some res
     \<and> list_all2 (\<lambda>r (kks, v, ok). kks = kks_calc r \<and> output_ok r v) eng res"
proof -
  have "list_all rule_ok eng"
    using engine_new_spec[of cfg] assms by (auto simp: engine_ok_def)
  then show ?thesis by (rule run_cycle_ok)
qed

theorem cycle_total_witness:
  "\<exists>res. run_cycle_with_quality [demo_A, demo_B] [''X'' \<mapsto> EV_Int 3] [''X'' \<mapsto> True] = Some res
     \<and> list_all2 (\<lambda>r (kks, v, ok). kks = kks_calc r \<and> output_ok r v) [demo_A, demo_B] res"
  by (rule cycle_total[OF demo_new])

text \<open>C24 The results of a cycle solve the system of formulas: each rule's value and quality are those
  of its formula on the tables that hold the base variables and every other rule's result of the
  same cycle. No rule reads a value of the previous cycle.\<close>

theorem cycle_solves:
  assumes "engine_new cfg = Some eng" and "run_cycle_with_quality eng vars val = Some res"
    and "r \<in> set eng"
  shows "\<exists>v ok. (kks_calc r, v, ok) \<in> set res
     \<and> rule_result r (final_vars vars res) (final_validity val res) = Some (v, ok)"
proof -
  have "engine_ok eng"
    using engine_new_spec[of cfg] assms(1) by auto
  then show ?thesis using assms(2,3) by (rule run_cycle_solves)
qed

theorem cycle_solves_witness:
  "\<exists>v ok. (''B'', v, ok) \<in> set [(''A'', V_UInt 6, True), (''B'', V_UInt 7, True)]
     \<and> rule_result demo_B (final_vars [''X'' \<mapsto> EV_Int 3] [(''A'', V_UInt 6, True), (''B'', V_UInt 7, True)])
         (final_validity [''X'' \<mapsto> True] [(''A'', V_UInt 6, True), (''B'', V_UInt 7, True)]) = Some (v, ok)"
  using cycle_solves[OF demo_new demo_run, of demo_B] by (simp add: demo_kks)

text \<open>C26 A result marked valid depends on valid inputs only: two cycles whose variables agree wherever
  the validity table says valid give results that are marked alike, and equal where they are marked
  valid.\<close>

theorem cycle_quality:
  assumes "\<And>x. val x = Some True \<Longrightarrow> vars' x = vars x"
    and "run_cycle_with_quality eng vars val = Some res"
    and "run_cycle_with_quality eng vars' val = Some res'"
  shows "list_all2 (\<lambda>(k, v, ok) (k', v', ok'). k = k' \<and> ok = ok' \<and> (ok \<longrightarrow> v = v')) res res'"
  using assms by (rule run_cycle_valid)

lemma demo_run_extra:
  "run_cycle_with_quality [demo_A, demo_B] [''X'' \<mapsto> EV_Int 3, ''Y'' \<mapsto> EV_Int 5] [''X'' \<mapsto> True]
     = Some [(''A'', V_UInt 6, True), (''B'', V_UInt 7, True)]"
  by (simp add: demo_rule_A demo_rule_B demo_kks)

theorem cycle_quality_witness:
  "list_all2 (\<lambda>(k, v, ok) (k', v', ok'). k = k' \<and> ok = ok' \<and> (ok \<longrightarrow> v = v'))
     [(''A'', V_UInt 6, True), (''B'', V_UInt 7, True)] [(''A'', V_UInt 6, True), (''B'', V_UInt 7, True)]
   \<and> run_cycle_with_quality [demo_A, demo_B] [''X'' \<mapsto> EV_Int 3] [''X'' \<mapsto> True]
     = Some [(''A'', V_UInt 6, True), (''B'', V_UInt 7, True)]"
  using cycle_quality[OF _ demo_run demo_run_extra] demo_run by simp

text \<open>Rebuilding the runner from the cached device statuses gives the same runner and the same
  results as a fresh runner that received the statuses one by one in that order.\<close>

theorem rebuild_replays_updates:
  assumes "engine run = eng" and "statuses \<noteq> []"
  shows "rebuild_from_statuses_with_quality statuses run =
    on_update_with_quality (last statuses)
      (foldl (\<lambda>run st. snd (on_update_with_quality st run)) (runner_new eng) (butlast statuses))"
  using assms by (rule rebuild_is_updates)

section \<open>The evaluator\<close>

text \<open>The evaluator with quality and the plain evaluator agree: forgetting the quality of a result,
  or its error, is the plain result.\<close>

theorem evaluators_agree:
  "evaluate e vars = map_ok fst (evaluate_with_validity e vars val)"
  by (rule evaluate_erases)

text \<open>An expression reports a missing variable only when it names that variable and the table has no
  value for it.\<close>

theorem missing_variable_real:
  assumes "evaluate e vars = Err (MissingVariable x)"
  shows "x \<in> set (extract_variables e) \<and> vars x = None"
  using evaluate_missing[OF assms] by simp

text \<open>No expression makes either evaluator panic: overflow, division by zero, out-of-range integers
  and negative shifts are errors (\<open>unreachable!\<close> is not reached).\<close>

theorem evaluators_never_panic:
  "evaluate e vars \<noteq> Err EvalPanic \<and> evaluate_with_validity e vars val \<noteq> Err EvalPanic"
proof -
  have "evaluate_with_validity e vars val = Err EvalPanic \<Longrightarrow> evaluate e vars = Err EvalPanic"
    by (simp add: evaluate_erases[of e vars val])
  then show ?thesis using evaluate_no_panic[of e vars] by auto
qed

text \<open>C40 Sum, difference and product of two 64-bit integers are the exact integer result when it fits
  64 bits, and an error otherwise; they never wrap around.\<close>

theorem integer_arithmetic_exact:
  assumes "int_arith op = Some f"
  shows "eval_binary op (EV_Int a) (EV_Int b) = Ok v \<longleftrightarrow> (\<exists>c. v = EV_Int c \<and> sint c = f (sint a) (sint b))"
  using assms by (rule eval_binary_int_exact)

theorem integer_arithmetic_exact_witness:
  "eval_binary B_Mul (EV_Int 3) (EV_Int 4) = Ok (EV_Int 12)
   \<and> \<not> is_ok (eval_binary B_Add (EV_Int i64_MAX) (EV_Int 1))"
proof -
  have "sint c < 2 ^ 63" for c :: i64
    using sint_less[of c] by simp
  then have "\<nexists>c :: i64. sint c = 2 ^ 63" by (metis less_irrefl)
  moreover have "sint i64_MAX + 1 = 2 ^ 63" by (simp add: i64_MAX_def)
  ultimately have "eval_binary B_Add (EV_Int i64_MAX) (EV_Int 1) \<noteq> Ok v" for v
    using integer_arithmetic_exact[of B_Add "(+)" i64_MAX 1 v] by simp
  moreover have "eval_binary B_Mul (EV_Int 3) (EV_Int 4) = Ok (EV_Int 12)"
    using integer_arithmetic_exact[of B_Mul "(*)" 3 4 "EV_Int 12"] by simp
  ultimately show ?thesis by (auto simp: is_ok_iff)
qed

section \<open>The formula language\<close>

text \<open>C38 Printing an expression, then lexing and parsing the text, gives the expression back, with every
  operator at its precedence and associativity. (Variables are identifiers of the lexer other than
  \<open>true\<close> and \<open>false\<close>; integer literals are not negative, and float literals are finite and not negative:
  they are printed with all their decimal digits.)\<close>

theorem formula_round_trip:
  assumes "plain_names e" and "list_all printable (print_expr 0 e)"
  shows "and_then (map_err LexFailed (tokenize (print_tokens (print_expr 0 e)))) (\<lambda>ts. map_err ParseFailed (parse ts)) = Ok e"
  using assms by (simp add: tokenize_print parse_printed)

theorem formula_round_trip_witness:
  "and_then (map_err LexFailed (tokenize ''( A + 1 ) * 2.5 '')) (\<lambda>ts. map_err ParseFailed (parse ts))
     = Ok (E_Binary B_Mul (E_Binary B_Add (E_Variable ''A'') (E_Literal (L_Int 1))) (E_Literal (L_Float (FNum (5 / 2)))))"
proof -
  let ?e = "E_Binary B_Mul (E_Binary B_Add (E_Variable ''A'') (E_Literal (L_Int 1))) (E_Literal (L_Float (FNum (5 / 2))))"
  have n: "plain_names ?e" by (simp add: demo_names)
  have "representable binary64 (of_int 5 * 2 powi (- 1))" by (rule representableI) (simp_all add: binary64_def)
  then have "representable binary64 (5 / 2)" by simp
  then have p: "list_all printable (print_expr 0 ?e)" by (simp add: valid_ident_def is_ident_char_def ascii_defs)
  have "show_float (5 / 2) = ''2.5''" by code_simp
  then have t: "print_tokens (print_expr 0 ?e) = ''( A + 1 ) * 2.5 ''" by (simp add: print_tokens_def show_nat.simps) code_simp
  from formula_round_trip[OF n p] show ?thesis by (simp only: t)
qed

text \<open>C39 The parser ends on every token list: the fuel of the model, one more than the number of tokens,
  never runs out, and neither does any nested call.\<close>

theorem parser_terminates: "parse ts \<noteq> Err OutOfFuel"
proof -
  have "parse_expr 0 ts \<noteq> Err OutOfFuel"
    using good_parserD(1)[OF good_parse_expr lessI] .
  then show ?thesis
    by (cases "parse_expr 0 ts") (auto simp: parse_eq split: if_splits)
qed

text \<open>The variables of an expression are listed once each, in ascending order, and the value of the
  expression depends on no other variable.\<close>

theorem extracted_variables:
  assumes "\<And>x. x \<in> set (extract_variables e) \<Longrightarrow> vars x = vars' x"
  shows "sorted (extract_variables e) \<and> distinct (extract_variables e) \<and> evaluate e vars = evaluate e vars'"
  using extract_variables_sorted[of e] evaluate_cong_vars[of e vars vars'] assms by simp

end
