(* ===== verification/Frame_Properties.thy ===== *)
theory Frame_Properties
  imports Worked_Examples
begin

text \<open>
  The properties of the device configuration files (\<open>src/src/csv_parser.rs\<close>), of the serial frames
  and the point decoding (\<open>src/src/protocol.rs\<close>), and of the runtime state (\<open>src/src/model\<close>).
\<close>

section \<open>Frames\<close>

text \<open>A frame built from an address, a command and 1 to 256 status bytes is accepted, and parsing it
  gives these back.\<close>

theorem frame_round_trip:
  assumes "1 \<le> length status" and "length status \<le> 256"
  shows "parse_data_packet (encode_data_packet addr cmd status) =
           Ok \<lparr>dp_addr = addr, dp_cmd = cmd, dp_len = of_nat (length status - 1),
               dp_status = status, dp_crc = get_sum ([addr, cmd, of_nat (length status - 1)] @ status)\<rparr>"
  using assms by (rule parse_data_packet_encoded)

text \<open>C36 Conversely, every accepted frame is the encoding of what was parsed: its length byte is the
  number of status bytes minus one, its last byte is their checksum, and nothing is left over.\<close>

theorem accepted_frame_is_encoding:
  assumes "parse_data_packet data = Ok p"
  shows "1 \<le> length (dp_status p) \<and> length (dp_status p) \<le> 256
    \<and> dp_len p = of_nat (length (dp_status p) - 1)
    \<and> data = encode_data_packet (dp_addr p) (dp_cmd p) (dp_status p)"
  using assms by (rule parse_data_packet_Ok)

theorem accepted_frame_is_encoding_witness:
  "demo_frame = encode_data_packet 2 3 [1]"
  using accepted_frame_is_encoding[OF demo_frame_parsed] by (simp add: demo_packet_def)

text \<open>The checksum detects every change of one byte, of the checksum byte too.\<close>

theorem one_byte_change_detected:
  assumes "verify_checksum data" and "i < length data" and "b \<noteq> data ! i"
  shows "\<not> verify_checksum (data[i := b])"
  using assms by (rule checksum_detects_change)

section \<open>Points\<close>

text \<open>C37 The two readings of a device file agree: a file that the validation before saving accepts is
  parsed at startup into the same configuration and the same points.\<close>

theorem validator_agrees_with_parser:
  assumes "validate_csv_content deser rows = Ok (cfg, rs)"
  shows "parse_csv deser rows = Ok (cfg, rs)"
  using assms validated_parses[of deser False rows cfg rs] by (auto simp: validate_csv_content_def)

theorem validator_agrees_with_parser_witness:
  "parse_csv demo_deser demo_csv = Ok (demo_cfg, [demo_point])"
  by (rule validator_agrees_with_parser[OF demo_validated])

text \<open>A file accepted by the strict validation is accepted by the validation that reports point errors
  as warnings, with the same result and no warning.\<close>

theorem strict_accepts_less:
  assumes "validate_csv_content deser rows = Ok (cfg, rs)"
  shows "validate_csv_content_with_point_warnings deser rows = Ok (cfg, rs, [])"
  using assms by (rule strict_implies_warning_mode)

text \<open>C35 Every point of a validated device file has a value of its declared type in every accepted frame
  whose length byte is the configured one: the bounds of the validation are those of the decoder.\<close>

theorem validated_points_decode:
  assumes "validate_csv_content deser rows = Ok (cfg, rs)" and "r \<in> set rs"
    and "parse_data_packet frame = Ok p" and "dp_len p = cfg_data_len cfg"
  shows "\<exists>v. parse_status (dp_status p) rs (rec_kks r) = Some v \<and> value_has_type (rec_type r) v"
proof -
  obtain ws where inner: "validate_csv_content_inner deser False rows = Ok (cfg, rs, ws)"
    using assms(1) by (auto simp: validate_csv_content_def)
  have "length (dp_status p) = unat (cfg_data_len cfg) + 1"
    using parsed_status_length[OF assms(3)] assms(4) by simp
  with validated_points[OF inner] assms(2) show ?thesis by (intro accepted_point_value)
qed

theorem validated_points_decode_witness:
  "\<exists>v. parse_status [1] [demo_point] ''PK'' = Some v \<and> value_has_type ''bool'' v"
  using validated_points_decode[OF demo_validated _ demo_frame_parsed, of demo_point]
  by (simp add: demo_packet_def demo_cfg_def demo_point_def)

text \<open>A bit range read in little-endian byte order is the slice of the status bits: bit \<open>j\<close> of the value
  is bit \<open>start + j\<close> counted from the point's first byte, for the bits of the range, and nothing else.\<close>

theorem little_endian_range:
  assumes "range_raw_value data bi s e bo = Some v" and "bo \<noteq> 1"
  shows "bit v j \<longleftrightarrow> j \<le> unat e - unat s
           \<and> bit (data ! (bi + (unat s + j) div 8)) ((unat s + j) mod 8)"
  using assms by (rule range_bits_le)

section \<open>Command text\<close>

text \<open>The hexadecimal text of a command, as it is logged and compared, converts back to the bytes of
  the command.\<close>

theorem command_text_round_trip:
  "hex_str_to_bytes (command_as_string d) = Ok (sd_command d)"
proof -
  have "is_ascii (command_as_string d)"
    by (auto simp: command_as_string_def is_ascii_concat list_all_iff format_02X_ascii)
  then show ?thesis
    using collect_results_map_Ok[of "\<lambda>x. x" "sd_command d"] even_length_format[of "sd_command d"]
    by (simp add: hex_str_to_bytes_def command_as_string_def hex_pairs_format)
qed

section \<open>Runtime state\<close>

text \<open>After any sequence of status reports the latest-status cache holds, for each device of each
  port, the last report of the sequence, and lists the devices in ascending order.\<close>

theorem cache_keeps_last_report:
  "map_of (foldl (\<lambda>c st. cache_update st c) [] sts) =
     map_of (rev (map (\<lambda>st. ((ds_com st, ds_device_id st), st)) sts))
   \<and> sorted_wrt (<) (map fst (foldl (\<lambda>c st. cache_update st c) [] sts))"
proof -
  have f: "foldl (\<lambda>c st. cache_update st c) m sts =
      bt.insert_all (map (\<lambda>st. ((ds_com st, ds_device_id st), st)) sts) m" for m
    unfolding bt.insert_all_def by (induction sts arbitrary: m) (simp_all add: cache_update_def)
  show ?thesis
    unfolding f
    by (simp add: bt.lookup_insert_all[OF bt.invar_empty] bt.entries_sorted[OF bt.invar_insert_all[OF bt.invar_empty]])
qed

text \<open>Setting a device's status succeeds exactly when the port exists and knows the device; it then
  changes that device of that port only, and otherwise reports which of the two is missing.\<close>

theorem device_status_set:
  "case set_device_status n d st s of
     Inr s' \<Rightarrow> (\<exists>p. find_port n s = Some p \<and> prs_device_status p d \<noteq> None) \<and>
       (\<forall>m. find_port m s' =
         (if m = n
          then map_option (\<lambda>p. p\<lparr>prs_device_status := (prs_device_status p)(d \<mapsto> st)\<rparr>) (find_port m s)
          else find_port m s))
   | Inl (PortNotFound n') \<Rightarrow> n' = n \<and> find_port n s = None
   | Inl (DeviceNotFound d' n') \<Rightarrow> n' = n \<and> d' = d \<and>
       (\<exists>p. find_port n s = Some p \<and> prs_device_status p d = None)"
  using set_device_status_find[of n d st s] set_device_status_result[of n d st s]
    set_device_status_is_ok[of n s _ d st]
  by (auto split: sum.splits option.splits state_error.splits if_splits)

end
