(* ===== verification/Command_Properties.thy ===== *)
theory Command_Properties
  imports Worked_Examples
begin

text \<open>
  The properties of command tracking (\<open>src/src/command_tracking.rs\<close>), of its durable journal, and of the
  serial transaction of one command (\<open>src/src/serial/command_transaction.rs\<close>).
\<close>

section \<open>The tracker in memory\<close>

text \<open>C1 No command identity is admitted twice in the life of a process: whatever the threads do between,
  in whatever order, and even after its record was evicted from the cache, the admissions of a run
  have pairwise different identities.\<close>

theorem admitted_once:
  assumes "tracker_run sha ctx s ks s'"
  shows "distinct ks"
  using assms by (rule run_admits_once)

theorem admitted_once_witness:
  "tracker_run demo_sha demo_ctx (open_state 0 []) [demo_key] demo_tracker \<and> distinct [demo_key]"
  using admitted_once[OF demo_run_tracker] demo_run_tracker by simp

text \<open>C27 In every state a tracker reaches, the cache holds at most 10000 commands under their own
  identities with pairwise different revisions, none above the tracker's; no command has more than
  256 attempts; what waits for the writer is what the cache holds; every acknowledgement number
  names a cached command.\<close>

theorem tracker_invariant:
  assumes "tracker_run sha ctx (open_state n e) ks s"
  shows "tracker_ok s"
  using run_ok[OF assms tracker_ok_open] .

theorem tracker_invariant_witness: "tracker_ok demo_tracker \<and> length (entries demo_tracker) = 1"
  using tracker_invariant[OF demo_run_tracker] by (simp add: demo_tracker_def open_state_def)

text \<open>A step loses a command from the cache only when the cache is full and the command is finished,
  and if its last state was not yet written, the gap in the history is recorded.\<close>

theorem only_finished_commands_evicted:
  assumes "tracker_step sha ctx s l s'" and "tracker_ok s" and "map_of (entries s) k = Some v"
  shows "map_of (entries s') k \<noteq> None
    \<or> terminal v \<and> length (entries s) = CACHE_LIMIT \<and> (map_of (dirty s) k = None \<or> gap s')"
  using step_loss[OF assms] by auto

text \<open>C28 A call of \<open>begin\<close>, with the steps of other threads before the state lock and during the wait (none of
  them an admission, since the call holds the admission lock), is a run of the tracker. It admits the requested identity when it answers that the command is new, and it admits
  nothing when it answers with an earlier command or with an error: an error never hides a command that has
  been admitted, because no other command is admitted until it has answered.\<close>

theorem begin_refines_run:
  assumes "\<And>t. tracker_run sha ctx t [] (be_before_admit env t)"
      "\<And>t. tracker_run sha ctx t [] (be_while_waiting env t)"
    and "begin_command sha ctx env manager command port ack payload s = (r, s')"
  shows "tracker_run sha ctx s
    (case r of Inl e \<Rightarrow> [] | Inr (w, new) \<Rightarrow> if new then [tracking_key manager command] else []) s'"
  using begin_is_run[OF assms] by (simp add: begin_admits_def)

theorem begin_refines_run_witness:
  "tracker_run demo_sha demo_ctx (open_state 0 [])
     (case fst (begin_command demo_sha demo_ctx demo_begin_env ''m'' ''c'' ''COM1'' 7 ''1108'' (open_state 0 [])) of
        Inl e \<Rightarrow> [] | Inr (w, new) \<Rightarrow> if new then [tracking_key ''m'' ''c''] else [])
     (snd (begin_command demo_sha demo_ctx demo_begin_env ''m'' ''c'' ''COM1'' 7 ''1108'' (open_state 0 [])))"
  by (rule begin_refines_run[where env = demo_begin_env, OF _ _ surjective_pairing]) (auto intro: run_nil simp: demo_begin_env_def)

text \<open>A request with a known identity changes nothing: it is answered from the record, and accepted as
  a repetition only if port and payload are the same; it is never reported as new.\<close>

theorem repeated_request_unchanged:
  assumes "map_of (entries s) (tracking_key manager command) = Some v"
  shows "snd (begin_command sha ctx env manager command port ack payload s) = s
    \<and> (\<forall>w new. fst (begin_command sha ctx env manager command port ack payload s) = Ok (w, new) \<longrightarrow>
        \<not> new \<and> request_hash v = request_digest sha port (normalize_payload payload))"
  using begin_repeated[OF assms] by blast

section \<open>The journal\<close>

text \<open>Saving a snapshot keeps the journal well formed (one row per command, of its own identity and
  newest revision, events in revision order below the head), and a snapshot newer than what is
  stored is what a lookup returns afterwards.\<close>

theorem saved_snapshot_found:
  assumes "json_ok enc dec" and "journal_ok dec db" and "save fault enc v db = Ok db'"
    and "user_version db = 1" and "identity db = Some g"
    and "\<And>r. map_of (commands db) (manager_instance_id v, command_id v) = Some r \<Longrightarrow> row_revision r < snap_revision v"
  shows "journal_ok dec db' \<and>
    lookup_journal None dec g (manager_instance_id v) (command_id v) db' = Ok (Some v)"
  using save_ok[OF assms(1-3)] save_lookup[OF assms] by blast

text \<open>Opening the journal after a restart keeps it well formed and marks every unfinished command of an
  earlier process as finished with unknown outcome; the next revision is above everything stored, and
  the identity of the gateway stays the stored one.\<close>

theorem journal_recovery:
  assumes "json_ok enc dec" and "journal_ok dec db"
    and "open_database fault save_fault enc dec b fresh_id now expected db = (Ok (g, n), db')"
  shows "journal_ok dec db' \<and> head db' \<le> n \<and> identity db' = Some g \<and> (identity db = None \<or> identity db = Some g)
    \<and> (\<forall>k r v. map_of (commands db') k = Some r \<longrightarrow> dec (row_data r) = Ok v \<longrightarrow> boot_id v \<noteq> b \<longrightarrow> row_finished r)"
  using open_database_ok[OF assms] by (cases "identity db") (auto simp: covered_def)

text \<open>Pruning the journal keeps it well formed and keeps its revision counter, removes no unfinished
  command, and removes events only of commands that it removes.\<close>

theorem prune_keeps_unfinished:
  assumes "journal_ok dec db" and "prune_journal fault cutoff keep db = Ok db'"
  shows "journal_ok dec db' \<and> head db' = head db
    \<and> (\<forall>k r. map_of (commands db) k = Some r \<longrightarrow> \<not> row_finished r \<longrightarrow> map_of (commands db') k = Some r)
    \<and> (\<forall>n e. map_of (events db) n = Some e \<longrightarrow> map_of (commands db') (ev_manager e, ev_id e) \<noteq> None \<longrightarrow>
         map_of (events db') n = Some e)"
  using prune_ok[OF assms] by blast

text \<open>A page of the event feed misses nothing: its items are all events of the manager after the
  requested cursor up to the returned cursor, in order, and the cursor stays below every state that
  is still waiting to be written.\<close>

theorem event_page_complete:
  assumes "journal_ok dec db" and "events_query dec s manager after limit db = Ok page"
  shows "map snap_revision (page_items page) = filter (\<lambda>n. n \<le> page_cursor page) (map fst
      (filter (\<lambda>(n, e). ev_manager e = manager \<and> after < n \<and> n \<le> events_ceiling s) (events db)))
    \<and> (page_items page = [] \<or> page_cursor page \<le> events_ceiling s)
    \<and> list_all (\<lambda>v. manager_instance_id v = manager) (page_items page)"
  using events_query_complete[OF assms] by (auto simp: list_all_iff)

text \<open>While the database accepts writes, the writer thread empties the queue: after \<open>n\<close> rounds at most
  the states beyond the first \<open>256 * n\<close> are still waiting.\<close>

theorem writer_drains:
  assumes "tracker_ok s" and "\<And>v. is_ok (enc v)"
  shows "dirty (fst (((\<lambda>(s, db). writer_round (\<lambda>_. None) enc s db) ^^ n) (s, db))) = drop (256 * n) (dirty s)"
proof -
  let ?f = "\<lambda>(s, db). writer_round (\<lambda>_. None) enc s db"
  have "tracker_ok (fst ((?f ^^ n) (s, db))) \<and> dirty (fst ((?f ^^ n) (s, db))) = drop (256 * n) (dirty s)"
  proof (induction n)
    case (Suc n)
    obtain t d where t: "(?f ^^ n) (s, db) = (t, d)" by fastforce
    have "tracker_ok (fst (writer_round (\<lambda>_. None) enc t d))"
      using run_ok[OF writer_round_run] Suc t by simp
    moreover have "dirty (fst (writer_round (\<lambda>_. None) enc t d)) = drop 256 (dirty t)"
      using Suc t assms(2) by (intro writer_round_drains) (simp_all add: is_ok_iff)
    ultimately show ?case using Suc t by (simp add: add.commute)
  qed (use assms in simp)
  then show ?thesis ..
qed

section \<open>The serial transaction\<close>

text \<open>C29 A command that is to be acknowledged is written at most once per allowed attempt; each write is
  reported as waiting, and the transaction reports exactly one final state, received when the last
  write was acknowledged and failed otherwise; it retries only after a failed wait, and it always
  gives the send permit back.\<close>

theorem transaction_trace:
  assumes "execute_queued_command env cmd True retries st = (r, st')" and "\<not> te_expired env 0"
  shows "\<exists>k \<le> max retries 1. tx_sent st' = tx_sent st + k \<and> \<not> tx_permit st'
    \<and> map cau_status (tx_updates st') = map cau_status (tx_updates st) @ replicate k Ack_Waiting
           @ [if r then Ack_Received else Ack_Failed]
    \<and> r = (0 < k \<and> is_ok (te_reply env k)) \<and> (\<forall>j. 1 \<le> j \<and> j < k \<longrightarrow> \<not> is_ok (te_reply env j))"
proof -
  obtain st1 where loop: "attempt_loop env 1 (max retries 1)
      (st\<lparr>tx_audit := audit_new (te_port_name env) cmd (te_ack env) (max retries 1)\<rparr>) = (r, st1)"
    and st': "st' = guard_drop env st1"
    using assms by (auto simp: execute_queued_command_def execute_body_def execute_command_with_ack_def Let_def
        apsnd_def map_prod_def split: prod.splits)
  from loop show ?thesis
  proof (rule attempt_loop_trace)
    fix k assume k: "k \<le> max retries 1" and t: "\<not> tx_permit st1"
      "tx_sent st1 = tx_sent (st\<lparr>tx_audit := audit_new (te_port_name env) cmd (te_ack env) (max retries 1)\<rparr>) + k"
      "map cau_status (tx_updates st1) =
        map cau_status (tx_updates (st\<lparr>tx_audit := audit_new (te_port_name env) cmd (te_ack env) (max retries 1)\<rparr>))
          @ replicate k Ack_Waiting @ [if r then Ack_Received else Ack_Failed]"
      "r \<longleftrightarrow> 0 < k \<and> is_ok (te_reply env (1 + k - 1))" and j: "\<forall>j<k - 1. \<not> is_ok (te_reply env (1 + j))"
    have "\<not> is_ok (te_reply env i)" if "1 \<le> i" "i < k" for i
      using j that by (metis Suc_leI diff_less_mono le_add_diff_inverse less_eq_Suc_le)
    with k t show ?thesis by (intro exI[of _ k]) (auto simp: st' guard_drop_def)
  qed
qed

theorem transaction_trace_witness:
  "\<exists>k \<le> 3. tx_sent (snd (execute_queued_command demo_tx_env \<lparr>sd_device_id = 1, sd_command = [1, 8]\<rparr> True 3 demo_tx)) = k"
  using transaction_trace[where env = demo_tx_env and cmd = "\<lparr>sd_device_id = 1, sd_command = [1, 8]\<rparr>"
      and retries = 3 and st = demo_tx, OF surjective_pairing]
  by (auto simp: demo_tx_env_def demo_tx_def)

text \<open>C30 A tracked command ends in a final phase that tells what happened: acknowledged, sent without
  confirmation, expired or failed. A command that expired while queued is never written to the
  port.\<close>

theorem transaction_outcome:
  assumes "execute_queued_command env cmd report retries st = (r, st')" and "tracker_ok (tx_tracker st)"
    and "tracked env st = Some v"
  shows "\<exists>w. tracked env st' = Some w \<and> terminal w
    \<and> phase w \<in> (if r then {if report then ''AckReceived'' else ''SentUnconfirmed''} else {''Expired'', ''Failed''})
    \<and> (te_expired env 0 \<longrightarrow> phase w = ''Expired'' \<and> tx_sent st' = tx_sent st)"
  using execute_final_phase[OF assms] by metis

theorem transaction_outcome_witness:
  "\<exists>w. tracked demo_tx_env (snd (execute_queued_command demo_tx_env \<lparr>sd_device_id = 1, sd_command = [1, 8]\<rparr> True 3 demo_tx)) = Some w
     \<and> terminal w"
  using transaction_outcome[OF prod.collapse[symmetric] _ demo_tracked] demo_tracker_ok
  by (fastforce simp: demo_tx_def)

text \<open>If the transaction is interrupted at any point, the guard leaves the command in a final phase: the
  one already recorded, or unknown.\<close>

theorem interrupted_outcome:
  assumes "tracker_ok (tx_tracker st)" and "tracked env st = Some v"
  shows "\<exists>w. tracked env (guard_drop env st) = Some w \<and> terminal w
    \<and> phase w = (if terminal v then phase v else ''Unknown'')"
  using guard_final[OF assms] by metis

lemma audit_failure_fields:
  "map snd (au_failures (audit_failure x a)) =
     drop (if length (au_failures a) = 8 then 1 else 0) (map snd (au_failures a)) @ [x]"
  "au_failure_count (audit_failure x a) = saturating_inc (au_failure_count a)"
  by (simp_all add: audit_failure_def drop_Suc map_tl)

text \<open>The audit record of a transaction keeps the reasons of the last eight failures, in order, and
  counts the failures.\<close>

theorem audit_keeps_last_failures:
  "map snd (au_failures (fold audit_failure reasons (audit_new port cmd ack n))) =
     drop (length reasons - 8) reasons
   \<and> unat (au_failure_count (fold audit_failure reasons (audit_new port cmd ack n))) = min (length reasons) (2 ^ 32 - 1)"
proof (induction reasons rule: rev_induct)
  case (snoc x xs)
  let ?a = "fold audit_failure xs (audit_new port cmd ack n)"
  have f: "map snd (au_failures ?a) = drop (length xs - 8) xs"
    and c: "unat (au_failure_count ?a) = min (length xs) (2 ^ 32 - 1)" using snoc by blast+
  have l: "length (au_failures ?a) = min (length xs) 8"
    using arg_cong[OF f, of length] by simp
  show ?case
  proof (cases "8 \<le> length xs")
    case True
    then have "Suc (length xs - 8) = length xs - 7" by simp
    then have "drop 1 (drop (length xs - 8) xs) = drop (length xs - 7) xs" by (simp del: Suc_diff_le)
    with True f c l show ?thesis by (simp add: audit_failure_fields unat_saturating_inc)
  next
    case False
    with f c l show ?thesis by (simp add: audit_failure_fields unat_saturating_inc)
  qed
qed (simp add: audit_new_def)

end
