(* ===== verification/Serial_Transport.thy ===== *)
theory Serial_Transport
  imports Protocol
begin

text \<open>
  The bounded transport of a serial worker: \<open>src/src/serial/transport.rs\<close>, the version transaction
  (\<open>version_transaction.rs\<close>) and the port configuration (\<open>port_config.rs\<close>). Durations and instants
  are nanoseconds. The driver is a parameter: what it answers to each call in turn, and the time at
  which the call is made.
\<close>

section \<open>Durations\<close>

definition DURATION_MAX :: nat where "DURATION_MAX = 2 ^ 64 * 10 ^ 9 - 1"

text \<open>\<open>Duration::saturating_add\<close> and \<open>Duration::from_millis\<close>.\<close>

definition dur_add :: "nat \<Rightarrow> nat \<Rightarrow> nat" where
  "dur_add a b = min (a + b) DURATION_MAX"

definition millis :: "nat \<Rightarrow> nat" where
  "millis n = n * 10 ^ 6"

definition MIN_TRANSMIT_IO_SLACK :: nat where "MIN_TRANSMIT_IO_SLACK = millis 50"
definition MAX_TRANSMIT_TIMEOUT :: nat where "MAX_TRANSMIT_TIMEOUT = millis 5000"

definition sat_mul128 :: "nat \<Rightarrow> nat \<Rightarrow> nat" where
  "sat_mul128 a b = min (a * b) (2 ^ 128 - 1)"

definition div_ceil :: "nat \<Rightarrow> nat \<Rightarrow> nat" where
  "div_ceil a b = (a + b - 1) div b"

definition wire_duration :: "nat \<Rightarrow> u32 \<Rightarrow> nat" where
  "wire_duration byte_count baud_rate =
     (if byte_count = 0 \<or> baud_rate = 0 then 0
      else let bit_count = sat_mul128 byte_count 12
           in min (div_ceil (sat_mul128 bit_count (10 ^ 9)) (unat baud_rate)) (2 ^ 64 - 1))"

definition transmit_wire_budget :: "nat \<Rightarrow> u32 \<Rightarrow> nat" where
  "transmit_wire_budget byte_count baud_rate =
     dur_add (wire_duration byte_count baud_rate) (wire_duration (min byte_count 16) baud_rate)"

definition minimum_transmit_timeout :: "nat \<Rightarrow> u32 \<Rightarrow> nat" where
  "minimum_transmit_timeout byte_count baud_rate =
     dur_add (transmit_wire_budget byte_count baud_rate) MIN_TRANSMIT_IO_SLACK"

definition transmit_timeout :: "nat \<Rightarrow> u32 \<Rightarrow> nat \<Rightarrow> nat" where
  "transmit_timeout byte_count baud_rate configured =
     (let wire_budget = transmit_wire_budget byte_count baud_rate;
          remaining_budget = MAX_TRANSMIT_TIMEOUT - wire_budget;
          io_slack = min (max configured MIN_TRANSMIT_IO_SLACK) remaining_budget
      in dur_add wire_budget io_slack)"

section \<open>Calls with a deadline\<close>

datatype io_kind = TimedOut | NotConnected | WriteZero | OtherIo

type_synonym io_error = "io_kind \<times> string"

text \<open>One call of the driver: the time before it, and the answers of its three steps.\<close>

record 'r port_call =
  call_now :: nat
  call_set :: "string option"
  call_io :: "io_error + 'r"
  call_restore :: "string option"

text \<open>
  The read or write sets the port's timeout to what is left, and restores it afterwards. The second
  component of the result is the timeout the port is left with.
\<close>

definition deadline_call :: "string \<Rightarrow> nat \<Rightarrow> 'r port_call \<Rightarrow> nat \<Rightarrow> (io_error + 'r) \<times> nat" where
  "deadline_call elapsed deadline c timeout =
     (let remaining = deadline - call_now c
      in if remaining = 0 then (Err (TimedOut, elapsed), timeout)
         else case call_set c of
           Some e \<Rightarrow> (Err (OtherIo, e), timeout)
         | None \<Rightarrow> (case call_restore c of
             Some e \<Rightarrow> (Err (OtherIo, e), remaining)
           | None \<Rightarrow> (call_io c, timeout)))"

definition read_before_deadline :: "nat \<Rightarrow> bytes port_call \<Rightarrow> nat \<Rightarrow> (io_error + bytes) \<times> nat" where
  "read_before_deadline deadline c timeout = deadline_call ''frame read deadline elapsed'' deadline c timeout"

text \<open>
  The write loop. Each call reports how many bytes the driver took, never more than it was given.
  The second component of the result is what the driver took in all.
\<close>

function write_all_before_deadline ::
  "nat \<Rightarrow> (nat \<Rightarrow> nat port_call) \<Rightarrow> nat \<Rightarrow> bytes \<Rightarrow> nat \<Rightarrow> (io_error + unit) \<times> bytes \<times> nat" where
  "write_all_before_deadline deadline port i data timeout =
     (if data = [] then (Ok (), [], timeout)
      else case deadline_call ''serial write deadline elapsed'' deadline (port i) timeout of
        (Inl e, timeout) \<Rightarrow> (Err e, [], timeout)
      | (Inr written, timeout) \<Rightarrow>
          if written = 0 then (Err (WriteZero, ''serial write returned zero bytes''), [], timeout)
          else let (r, taken, timeout) =
                     write_all_before_deadline deadline port (i + 1) (drop written data) timeout
               in (r, take written data @ taken, timeout))"
  by pat_completeness auto
termination
  by (relation "measure (\<lambda>(d, p, i, data, t). length data)") auto

declare write_all_before_deadline.simps [simp del]

text \<open>
  Waiting for the output queue: \<open>polls\<close> are the answers of the driver (bytes in the queue, or an
  error when it cannot tell) and the times after them.
\<close>

fun drain_output :: "nat \<Rightarrow> ((string + nat) \<times> nat) list \<Rightarrow> io_error + unit" where
  "drain_output deadline [] = Ok ()"
| "drain_output deadline ((Inl e, now) # polls) = Ok ()"
| "drain_output deadline ((Inr queued, now) # polls) =
     (if queued = 0 then Ok ()
      else if deadline - now = 0 then Err (TimedOut, ''serial output queue drain deadline elapsed'')
      else drain_output deadline polls)"

definition wait_for_output_settle ::
  "((string + nat) \<times> nat) list \<Rightarrow> nat \<Rightarrow> nat \<Rightarrow> u32 \<Rightarrow> nat \<Rightarrow> nat \<Rightarrow> io_error + unit" where
  "wait_for_output_settle polls now byte_count baud_rate settle_guard deadline =
     and_then (drain_output deadline polls) (\<lambda>_.
       if dur_add (wire_duration byte_count baud_rate) settle_guard > deadline - now
       then Err (TimedOut, ''serial output settle deadline elapsed'') else Ok ())"

section \<open>The version transaction\<close>

definition RESPONSE_LEN :: nat where "RESPONSE_LEN = 9"
definition COMPLETION_GUARD :: nat where "COMPLETION_GUARD = millis 5"

type_synonym version_queries = "u8 list"

definition schedule_version :: "u8 \<Rightarrow> version_queries \<Rightarrow> version_queries" where
  "schedule_version device q = (if device \<in> set q then q else q @ [device])"

definition cancel_version :: "u8 \<Rightarrow> version_queries \<Rightarrow> version_queries" where
  "cancel_version device q = filter (\<lambda>d. d \<noteq> device) q"

fun next_version :: "version_queries \<Rightarrow> u8 option \<times> version_queries" where
  "next_version [] = (None, [])"
| "next_version (d # q) = (Some d, q)"

datatype version_reject = WrongLength nat | BadResponse protocol_error | NoResponse nat

datatype version_read_error = Rejected version_reject | Transport io_error

text \<open>\<open>rd i d\<close> is the answer to the \<open>i\<close>-th read with deadline \<open>d\<close>, \<open>now i\<close> the time after it.\<close>

function version_read ::
  "(nat \<Rightarrow> nat \<Rightarrow> io_error + bytes) \<Rightarrow> (nat \<Rightarrow> nat) \<Rightarrow> u32 \<Rightarrow> nat \<Rightarrow> bytes \<Rightarrow> nat \<Rightarrow> bool \<Rightarrow>
   io_error + bytes" where
  "version_read rd now baud_rate i received deadline extended =
     (if RESPONSE_LEN \<le> length received then Ok received
      else case rd i deadline of
        Inl e \<Rightarrow> Err e
      | Inr chunk \<Rightarrow>
          if chunk = [] then Err (TimedOut, ''empty version response'')
          else version_read rd now baud_rate (i + 1) (received @ chunk)
                 (if extended then deadline
                  else now i + dur_add (wire_duration RESPONSE_LEN baud_rate) COMPLETION_GUARD) True)"
  by pat_completeness auto
termination
  by (relation "measure (\<lambda>(rd, now, b, i, received, d, e). RESPONSE_LEN - length received)")
    (auto simp: length_greater_0_conv[symmetric] simp del: length_greater_0_conv)

declare version_read.simps [simp del]

text \<open>The second component tells whether the input was quarantined: a late frame must not be read as
  the answer to the next query.\<close>

definition version_receive ::
  "(nat \<Rightarrow> nat \<Rightarrow> io_error + bytes) \<Rightarrow> (nat \<Rightarrow> nat) \<Rightarrow> nat \<Rightarrow> nat \<Rightarrow> u32 \<Rightarrow>
   (version_read_error + station_version_response) \<times> bool" where
  "version_receive rd now start first_byte_timeout baud_rate =
     (case version_read rd now baud_rate 0 [] (start + first_byte_timeout) False of
        Inr received \<Rightarrow>
          (let result =
             (if length received \<noteq> RESPONSE_LEN
              then Err (WrongLength (length received))
              else map_err BadResponse (parse_station_version_response received))
           in (map_err Rejected result, \<not> is_ok result))
      | Inl (kind, text) \<Rightarrow>
          if kind = TimedOut
          then (Err (Rejected (NoResponse (first_byte_timeout div 10 ^ 6))), True)
          else (Err (Transport (kind, text)), False))"

section \<open>Port configuration\<close>

record serial_port_config =
  spc_port_number :: string
  spc_baud_rate :: u32
  spc_is_special :: bool
  spc_devices :: "device_config list"
  spc_status :: bool

definition port_config_new :: "string \<Rightarrow> u32 \<Rightarrow> bool \<Rightarrow> device_config list \<Rightarrow> serial_port_config" where
  "port_config_new port baud special devices =
     \<lparr>spc_port_number = port, spc_baud_rate = baud, spc_is_special = special, spc_devices = devices,
      spc_status = True\<rparr>"

definition from_csv_config :: "csv_config \<Rightarrow> serial_port_config" where
  "from_csv_config conf = port_config_new (cfg_com conf) (cfg_baud_rate conf) (cfg_is_special conf) []"

definition to_runtime_state :: "serial_port_config \<Rightarrow> port_runtime_state" where
  "to_runtime_state spc =
     \<lparr>prs_port_number = spc_port_number spc, prs_status = True,
      prs_device_status = map_of (map (\<lambda>d. (cfg_device_id (dc_config d), True)) (spc_devices spc))\<rparr>"

section \<open>Timeouts\<close>

lemma div_ceil_bounds:
  assumes "0 < b"
  shows "a \<le> div_ceil a b * b" and "div_ceil a b * b < a + b"
proof -
  have "(a + b - 1) mod b < b" using assms by simp
  moreover have "(a + b - 1) div b * b + (a + b - 1) mod b = a + b - 1" by simp
  ultimately show "a \<le> div_ceil a b * b" "div_ceil a b * b < a + b"
    using assms unfolding div_ceil_def by linarith+
qed

lemma div_ceil_le: "0 < b \<Longrightarrow> div_ceil a b \<le> a"
proof (rule ccontr)
  assume b: "0 < b" and "\<not> div_ceil a b \<le> a"
  then have "Suc a * b \<le> div_ceil a b * b" by (intro mult_le_mono1) simp
  with div_ceil_bounds(2)[OF b, of a] have "a * b < a" by (simp only: mult_Suc)
  moreover have "a * 1 \<le> a * b" using b by (intro mult_le_mono2) simp
  ultimately show False by simp
qed

text \<open>The wire time is that of twelve bits per byte at the given rate, rounded up.\<close>

lemma wire_duration_bounds:
  assumes "n < 2 ^ 30" and "baud \<noteq> 0"
  shows "12 * 10 ^ 9 * n \<le> wire_duration n baud * unat baud"
    and "wire_duration n baud * unat baud < 12 * 10 ^ 9 * n + unat baud"
proof -
  have b: "0 < unat baud" using assms(2) by (simp add: unat_gt_0)
  have m: "sat_mul128 (sat_mul128 n 12) (10 ^ 9) = 12 * 10 ^ 9 * n"
    using assms(1) by (simp add: sat_mul128_def)
  have "div_ceil (12 * 10 ^ 9 * n) (unat baud) \<le> 2 ^ 64 - 1"
    by (rule order_trans[OF div_ceil_le[OF b]]) (use assms(1) in simp)
  then have w: "n \<noteq> 0 \<Longrightarrow> wire_duration n baud = div_ceil (12 * 10 ^ 9 * n) (unat baud)"
    using m assms(2) by (simp add: wire_duration_def)
  show "12 * 10 ^ 9 * n \<le> wire_duration n baud * unat baud"
    "wire_duration n baud * unat baud < 12 * 10 ^ 9 * n + unat baud"
    using div_ceil_bounds[OF b, of "12 * 10 ^ 9 * n"] w b by (cases "n = 0"; simp add: wire_duration_def)+
qed

text \<open>A frame that the length check admits is written under a deadline between its minimum and five seconds.\<close>

lemma transmit_timeout_bounds:
  assumes "minimum_transmit_timeout n baud \<le> MAX_TRANSMIT_TIMEOUT"
  shows "minimum_transmit_timeout n baud \<le> transmit_timeout n baud configured"
    and "transmit_timeout n baud configured \<le> MAX_TRANSMIT_TIMEOUT"
proof -
  have "MAX_TRANSMIT_TIMEOUT < DURATION_MAX" by (simp add: MAX_TRANSMIT_TIMEOUT_def DURATION_MAX_def millis_def)
  with assms have "transmit_wire_budget n baud + MIN_TRANSMIT_IO_SLACK \<le> MAX_TRANSMIT_TIMEOUT"
    by (simp add: minimum_transmit_timeout_def dur_add_def min_def split: if_splits)
  with \<open>MAX_TRANSMIT_TIMEOUT < DURATION_MAX\<close>
  show "minimum_transmit_timeout n baud \<le> transmit_timeout n baud configured"
    and "transmit_timeout n baud configured \<le> MAX_TRANSMIT_TIMEOUT"
    by (auto simp: transmit_timeout_def minimum_transmit_timeout_def dur_add_def Let_def)
qed

section \<open>Reads and writes\<close>

text \<open>A call leaves the timeout as it was, unless restoring it failed, which is an error of the call.\<close>

lemma deadline_call_restores:
  "deadline_call msg deadline c timeout = (Ok r, timeout') \<Longrightarrow>
     timeout' = timeout \<and> call_io c = Ok r \<and> call_now c < deadline"
  by (auto simp: deadline_call_def Let_def split: if_splits option.splits)

lemma write_all_prefix:
  "write_all_before_deadline deadline port i data timeout = (r, taken, timeout') \<Longrightarrow>
     (\<exists>rest. data = taken @ rest) \<and> (r = Ok () \<longleftrightarrow> taken = data) \<and> (r = Ok () \<longrightarrow> timeout' = timeout)"
proof (induction deadline port i data timeout arbitrary: r taken timeout' rule: write_all_before_deadline.induct)
  case (1 deadline port i data timeout)
  show ?case
  proof (cases "data = []")
    case True
    with 1(2) show ?thesis by (simp add: write_all_before_deadline.simps)
  next
    case False
    obtain q t where q: "deadline_call ''serial write deadline elapsed'' deadline (port i) timeout = (q, t)"
      by fastforce
    show ?thesis
    proof (cases q)
      case (Inl e)
      with 1(2) False q show ?thesis by (subst (asm) write_all_before_deadline.simps) auto
    next
      case (Inr n)
      show ?thesis
      proof (cases "n = 0")
        case True
        with 1(2) False q Inr show ?thesis by (subst (asm) write_all_before_deadline.simps) auto
      next
        case n: False
        obtain taken' where rec: "write_all_before_deadline deadline port (i + 1) (drop n data) t = (r, taken', timeout')"
          and t: "taken = take n data @ taken'"
          using 1(2) False q Inr n by (subst (asm) write_all_before_deadline.simps) (auto split: prod.splits)
        have ih: "(\<exists>rest. drop n data = taken' @ rest) \<and> (r = Ok () \<longleftrightarrow> taken' = drop n data) \<and> (r = Ok () \<longrightarrow> timeout' = t)"
          using 1(1)[OF False q[symmetric] Inr n rec] .
        have "data = take n data @ drop n data" by simp
        with ih t have "(\<exists>rest. data = taken @ rest)" by (metis append_assoc)
        moreover have "taken = data \<longleftrightarrow> taken' = drop n data"
          using t by (metis append_take_drop_id same_append_eq)
        ultimately show ?thesis using ih deadline_call_restores[of _ _ _ _ n t] q Inr by metis
      qed
    qed
  qed
qed

section \<open>Version responses\<close>

lemma distinct_schedule: "distinct q \<Longrightarrow> distinct (schedule_version d q)"
  by (simp add: schedule_version_def)

text \<open>A response of nine bytes is assembled whatever pieces it arrives in.\<close>

lemma version_read_chunks:
  assumes "\<And>k d. k < length chunks \<Longrightarrow> rd (i + k) d = Ok (chunks ! k)" and "[] \<notin> set chunks"
    and "length (received @ concat chunks) = RESPONSE_LEN"
  shows "version_read rd now baud i received deadline extended = Ok (received @ concat chunks)"
  using assms
proof (induction chunks arbitrary: i received deadline extended)
  case Nil
  then show ?case by (simp add: version_read.simps)
next
  case (Cons c cs)
  have "rd i deadline = Ok c" using Cons.prems(1)[of 0 deadline] by simp
  moreover have "version_read rd now baud (i + 1) (received @ c) d True = Ok ((received @ c) @ concat cs)" for d
    using Cons.prems Cons.prems(1)[of "Suc k" for k] by (intro Cons.IH) auto
  moreover have c: "c \<noteq> []" using Cons.prems(2) by auto
  moreover have "length received < RESPONSE_LEN"
    using Cons.prems(3) c by (cases c) auto
  ultimately show ?case by (subst version_read.simps) auto
qed

end
