(* ===== verification/Serial_Logs.thy ===== *)
theory Serial_Logs
  imports Serial_Transport
begin

text \<open>
  The rate-limited logs of a serial worker (\<open>src/src/serial/manager.rs\<close>): failures of a device,
  queries that needed a second attempt, failed reconnections. Each state machine decides per event
  whether it is logged at once, in a summary, or only counted. Counters are \<open>u32\<close> and saturate.
\<close>

section \<open>Common parts\<close>

datatype device_failure_kind = ReadTimeout | BadFrame

fun device_failure_kind_name :: "device_failure_kind \<Rightarrow> string" where
  "device_failure_kind_name ReadTimeout = ''read_timeout''"
| "device_failure_kind_name BadFrame = ''bad_frame''"

definition FAILURE_LOG_SUMMARY_INTERVAL :: nat where "FAILURE_LOG_SUMMARY_INTERVAL = millis 60000"

definition sat_add :: "u32 \<Rightarrow> u32 \<Rightarrow> u32" where
  "sat_add a b = (if unat a + unat b < 2 ^ 32 then a + b else 2 ^ 32 - 1)"

datatype 's log_action = Immediate 's | Summary 's | Suppressed

text \<open>\<open>is_some_and(|last| now.saturating_duration_since(last) >= FAILURE_LOG_SUMMARY_INTERVAL)\<close>.\<close>

definition interval_passed :: "nat option \<Rightarrow> nat \<Rightarrow> bool" where
  "interval_passed line now =
     (case line of None \<Rightarrow> False | Some t \<Rightarrow> FAILURE_LOG_SUMMARY_INTERVAL \<le> now - t)"

definition since :: "nat option \<Rightarrow> nat \<Rightarrow> nat" where
  "since started now = (case started of None \<Rightarrow> 0 | Some t \<Rightarrow> now - t)"

section \<open>Device failures\<close>

record failure_episode =
  fs_duration :: nat
  fs_timeouts :: u32
  fs_bad_frames :: u32
  fs_suppressed :: u32

definition total_failures :: "failure_episode \<Rightarrow> u32" where
  "total_failures s = sat_add (fs_timeouts s) (fs_bad_frames s)"

record device_failure_log =
  dfl_started_at :: "nat option"
  dfl_last_log_at :: "nat option"
  dfl_timeouts :: u32
  dfl_bad_frames :: u32
  dfl_suppressed :: u32
  dfl_timeout_logged :: bool
  dfl_bad_frame_logged :: bool

definition failure_log_default :: device_failure_log where
  "failure_log_default =
     \<lparr>dfl_started_at = None, dfl_last_log_at = None, dfl_timeouts = 0, dfl_bad_frames = 0,
      dfl_suppressed = 0, dfl_timeout_logged = False, dfl_bad_frame_logged = False\<rparr>"

definition failure_stats :: "nat \<Rightarrow> device_failure_log \<Rightarrow> failure_episode" where
  "failure_stats now s =
     \<lparr>fs_duration = since (dfl_started_at s) now, fs_timeouts = dfl_timeouts s,
      fs_bad_frames = dfl_bad_frames s, fs_suppressed = dfl_suppressed s\<rparr>"

definition record_failure ::
  "device_failure_kind \<Rightarrow> nat \<Rightarrow> device_failure_log \<Rightarrow> failure_episode log_action \<times> device_failure_log" where
  "record_failure kind now s =
     (let s = (if dfl_started_at s = None then s\<lparr>dfl_started_at := Some now, dfl_last_log_at := Some now\<rparr> else s);
          (first, s) =
            (case kind of
               ReadTimeout \<Rightarrow> (\<not> dfl_timeout_logged s,
                 s\<lparr>dfl_timeouts := saturating_inc (dfl_timeouts s), dfl_timeout_logged := True\<rparr>)
             | BadFrame \<Rightarrow> (\<not> dfl_bad_frame_logged s,
                 s\<lparr>dfl_bad_frames := saturating_inc (dfl_bad_frames s), dfl_bad_frame_logged := True\<rparr>))
      in if first then
           (let s = s\<lparr>dfl_last_log_at := Some now\<rparr> in (Immediate (failure_stats now s), s))
         else if interval_passed (dfl_last_log_at s) now then
           (Summary (failure_stats now s), s\<lparr>dfl_last_log_at := Some now, dfl_suppressed := 0\<rparr>)
         else (Suppressed, s\<lparr>dfl_suppressed := saturating_inc (dfl_suppressed s)\<rparr>))"

definition failure_recover :: "nat \<Rightarrow> device_failure_log \<Rightarrow> failure_episode option \<times> device_failure_log" where
  "failure_recover now s =
     (if dfl_started_at s = None then (None, s)
      else (Some (failure_stats now s), failure_log_default))"

section \<open>Queries that succeeded on the second attempt\<close>

record retry_episode =
  rs_duration :: nat
  rs_retries_succeeded :: u32
  rs_first_timeouts :: u32
  rs_first_bad_frames :: u32
  rs_suppressed :: u32

record query_retry_log =
  qrl_started_at :: "nat option"
  qrl_last_log_at :: "nat option"
  qrl_last_retry_at :: "nat option"
  qrl_retries_succeeded :: u32
  qrl_first_timeouts :: u32
  qrl_first_bad_frames :: u32
  qrl_suppressed :: u32
  qrl_timeout_logged :: bool
  qrl_bad_frame_logged :: bool

definition retry_log_default :: query_retry_log where
  "retry_log_default =
     \<lparr>qrl_started_at = None, qrl_last_log_at = None, qrl_last_retry_at = None, qrl_retries_succeeded = 0,
      qrl_first_timeouts = 0, qrl_first_bad_frames = 0, qrl_suppressed = 0, qrl_timeout_logged = False,
      qrl_bad_frame_logged = False\<rparr>"

definition retry_stats :: "nat \<Rightarrow> query_retry_log \<Rightarrow> retry_episode" where
  "retry_stats now s =
     \<lparr>rs_duration = since (qrl_started_at s) now, rs_retries_succeeded = qrl_retries_succeeded s,
      rs_first_timeouts = qrl_first_timeouts s, rs_first_bad_frames = qrl_first_bad_frames s,
      rs_suppressed = qrl_suppressed s\<rparr>"

definition record_retry_success ::
  "device_failure_kind \<Rightarrow> nat \<Rightarrow> query_retry_log \<Rightarrow> retry_episode log_action \<times> query_retry_log" where
  "record_retry_success kind now s =
     (let s = (if interval_passed (qrl_last_retry_at s) now then retry_log_default else s);
          s = (if qrl_started_at s = None then s\<lparr>qrl_started_at := Some now, qrl_last_log_at := Some now\<rparr> else s);
          s = s\<lparr>qrl_last_retry_at := Some now, qrl_retries_succeeded := saturating_inc (qrl_retries_succeeded s)\<rparr>;
          (first, s) =
            (case kind of
               ReadTimeout \<Rightarrow> (\<not> qrl_timeout_logged s,
                 s\<lparr>qrl_first_timeouts := saturating_inc (qrl_first_timeouts s), qrl_timeout_logged := True\<rparr>)
             | BadFrame \<Rightarrow> (\<not> qrl_bad_frame_logged s,
                 s\<lparr>qrl_first_bad_frames := saturating_inc (qrl_first_bad_frames s), qrl_bad_frame_logged := True\<rparr>))
      in if first then
           (let s = s\<lparr>qrl_last_log_at := Some now\<rparr> in (Immediate (retry_stats now s), s))
         else if interval_passed (qrl_last_log_at s) now then
           (Summary (retry_stats now s), s\<lparr>qrl_last_log_at := Some now, qrl_suppressed := 0\<rparr>)
         else (Suppressed, s\<lparr>qrl_suppressed := saturating_inc (qrl_suppressed s)\<rparr>))"

section \<open>Failed reconnections\<close>

record reconnect_episode =
  rc_duration :: nat
  rc_attempts :: u32
  rc_suppressed :: u32
  rc_last_error :: string

record reconnect_failure_log =
  rfl_started_at :: "nat option"
  rfl_last_log_at :: "nat option"
  rfl_attempts :: u32
  rfl_suppressed :: u32
  rfl_last_error :: string

definition reconnect_log_default :: reconnect_failure_log where
  "reconnect_log_default =
     \<lparr>rfl_started_at = None, rfl_last_log_at = None, rfl_attempts = 0, rfl_suppressed = 0, rfl_last_error = []\<rparr>"

definition reconnect_stats :: "nat \<Rightarrow> reconnect_failure_log \<Rightarrow> reconnect_episode" where
  "reconnect_stats now s =
     \<lparr>rc_duration = since (rfl_started_at s) now, rc_attempts = rfl_attempts s,
      rc_suppressed = rfl_suppressed s, rc_last_error = rfl_last_error s\<rparr>"

definition record_reconnect_failure ::
  "string \<Rightarrow> nat \<Rightarrow> reconnect_failure_log \<Rightarrow> reconnect_episode log_action \<times> reconnect_failure_log" where
  "record_reconnect_failure e now s =
     (let first_failure = (rfl_started_at s = None);
          s = (if first_failure then s\<lparr>rfl_started_at := Some now, rfl_last_log_at := Some now\<rparr> else s);
          s = s\<lparr>rfl_attempts := saturating_inc (rfl_attempts s)\<rparr>;
          error_changed = (\<not> first_failure \<and> rfl_last_error s \<noteq> e);
          s = s\<lparr>rfl_last_error := e\<rparr>
      in if first_failure \<or> error_changed then
           (let s = s\<lparr>rfl_last_log_at := Some now\<rparr> in (Immediate (reconnect_stats now s), s))
         else if interval_passed (rfl_last_log_at s) now then
           (Summary (reconnect_stats now s), s\<lparr>rfl_last_log_at := Some now, rfl_suppressed := 0\<rparr>)
         else (Suppressed, s\<lparr>rfl_suppressed := saturating_inc (rfl_suppressed s)\<rparr>))"

definition reconnect_recover ::
  "nat \<Rightarrow> reconnect_failure_log \<Rightarrow> reconnect_episode option \<times> reconnect_failure_log" where
  "reconnect_recover now s =
     (if rfl_started_at s = None then (None, s)
      else (Some (reconnect_stats now s), reconnect_log_default))"

section \<open>What the three logs have in common\<close>

text \<open>
  The specification of a rate-limited log, on the sequence of events and what was done for each:
  \<open>line\<close> is the time of the last line. An event is left out only within a minute of a line, and a
  summary is written only when a minute has passed since the last line.
\<close>

fun lines_ok :: "nat option \<Rightarrow> (nat \<times> 'a log_action) list \<Rightarrow> bool" where
  "lines_ok line [] = True"
| "lines_ok line ((now, Suppressed) # xs) = (line \<noteq> None \<and> \<not> interval_passed line now \<and> lines_ok line xs)"
| "lines_ok line ((now, Summary x) # xs) = (interval_passed line now \<and> lines_ok (Some now) xs)"
| "lines_ok line ((now, Immediate x) # xs) = lines_ok (Some now) xs"

fun immediate :: "'a log_action \<Rightarrow> bool" where
  "immediate (Immediate x) = True"
| "immediate _ = False"

text \<open>A log: \<open>rec\<close> records an event at a time, \<open>line\<close> is the time of the last line in a state.\<close>

locale rate_limited_log =
  fixes rec :: "'e \<Rightarrow> nat \<Rightarrow> 's \<Rightarrow> 'a log_action \<times> 's"
    and line :: "'s \<Rightarrow> nat option"
    and ok :: "'s \<Rightarrow> bool"
  assumes ok_rec: "ok s \<Longrightarrow> rec e now s = (a, s') \<Longrightarrow> ok s'"
    and logged: "ok s \<Longrightarrow> rec e now s = (a, s') \<Longrightarrow> a \<noteq> Suppressed \<Longrightarrow> line s' = Some now"
    and suppressed: "ok s \<Longrightarrow> rec e now s = (Suppressed, s') \<Longrightarrow>
      line s' = line s \<and> line s \<noteq> None \<and> \<not> interval_passed (line s) now"
    and summary: "ok s \<Longrightarrow> rec e now s = (Summary x, s') \<Longrightarrow> interval_passed (line s) now"
begin

fun run :: "('e \<times> nat) list \<Rightarrow> 's \<Rightarrow> (nat \<times> 'a log_action) list" where
  "run [] s = []"
| "run ((e, now) # es) s = (let (a, s) = rec e now s in (now, a) # run es s)"

lemma run_lines_ok: "ok s \<Longrightarrow> lines_ok (line s) (run es s)"
proof (induction es arbitrary: s)
  case (Cons x es)
  obtain e now where x: "x = (e, now)" by fastforce
  obtain a s' where r: "rec e now s = (a, s')" by fastforce
  have "lines_ok (line s') (run es s')" using ok_rec[OF Cons.prems r] by (rule Cons.IH)
  with Cons.prems r x logged[OF Cons.prems r] show ?case
    by (cases a) (auto dest: suppressed summary)
qed simp

end

lemma interval_passed_simps [simp]:
  "interval_passed (Some t) now \<longleftrightarrow> FAILURE_LOG_SUMMARY_INTERVAL \<le> now - t" "\<not> interval_passed None now"
  by (simp_all add: interval_passed_def)

definition failure_log_ok :: "device_failure_log \<Rightarrow> bool" where
  "failure_log_ok s \<longleftrightarrow> (if dfl_started_at s = None then \<not> dfl_timeout_logged s \<and> \<not> dfl_bad_frame_logged s
     else dfl_last_log_at s \<noteq> None)"

definition retry_log_ok :: "query_retry_log \<Rightarrow> bool" where
  "retry_log_ok s \<longleftrightarrow> (if qrl_started_at s = None then \<not> qrl_timeout_logged s \<and> \<not> qrl_bad_frame_logged s
     else qrl_last_log_at s \<noteq> None)"

definition reconnect_log_ok :: "reconnect_failure_log \<Rightarrow> bool" where
  "reconnect_log_ok s \<longleftrightarrow> rfl_started_at s = None \<or> rfl_last_log_at s \<noteq> None"

lemmas log_splits = device_failure_kind.splits if_splits option.splits

interpretation flog: rate_limited_log record_failure dfl_last_log_at failure_log_ok
  by unfold_locales (auto simp: record_failure_def failure_log_ok_def Let_def split: log_splits)

interpretation qlog: rate_limited_log record_retry_success qrl_last_log_at retry_log_ok
  by unfold_locales (auto simp: record_retry_success_def retry_log_ok_def retry_log_default_def Let_def split: log_splits)

interpretation rlog: rate_limited_log record_reconnect_failure rfl_last_log_at reconnect_log_ok
  by unfold_locales (auto simp: record_reconnect_failure_def reconnect_log_ok_def Let_def split: log_splits)

lemma log_defaults_ok:
  "failure_log_ok failure_log_default" "retry_log_ok retry_log_default" "reconnect_log_ok reconnect_log_default"
  by (simp_all add: failure_log_ok_def retry_log_ok_def reconnect_log_ok_def failure_log_default_def
      retry_log_default_def reconnect_log_default_def)

text \<open>In one failure episode at most one line per kind of failure is written at once.\<close>

definition unlogged :: "device_failure_log \<Rightarrow> nat" where
  "unlogged s = (if dfl_timeout_logged s then 0 else 1) + (if dfl_bad_frame_logged s then 0 else 1)"

lemma record_failure_unlogged:
  "record_failure k now s = (a, s') \<Longrightarrow> unlogged s' + (if immediate a then 1 else 0) = unlogged s"
  by (auto simp: record_failure_def unlogged_def Let_def split: log_splits)

lemma episode_immediate: "length (filter (\<lambda>(t, a). immediate a) (flog.run es s)) \<le> unlogged s"
proof (induction es arbitrary: s)
  case (Cons x es)
  obtain e now where x: "x = (e, now)" by fastforce
  obtain a s' where r: "record_failure e now s = (a, s')" by fastforce
  show ?case using Cons.IH[of s'] record_failure_unlogged[OF r] r x by auto
qed simp

end
