(* ===== verification/Frame_Assembly.thy ===== *)
theory Frame_Assembly
  imports Serial_Transport
begin

text \<open>
  How a serial worker cuts frames out of the bytes it reads (\<open>src/src/serial/manager.rs\<close>): the
  length of a frame, the prefix of forwarded frames that a standby gateway listens to, the read loop
  of a query and that of a command acknowledgement. The driver is a parameter: \<open>re_read i d\<close> is its
  answer to the \<open>i\<close>-th read with deadline \<open>d\<close>, \<open>re_now i\<close> the time after it, \<open>re_idle i\<close> whether it
  reports an empty input queue before it.
\<close>

datatype run_location = Primary | Secondary

definition COMMAND_ACK_BYTES :: bytes where "COMMAND_ACK_BYTES = [0x00, 0x50, 0x50]"
definition FORWARD_HEADER_LEN :: nat where "FORWARD_HEADER_LEN = 7"
definition FORWARD_PREFIX_LEN :: nat where "FORWARD_PREFIX_LEN = 9"
definition RESPONSE_FRAME_OVERHEAD :: nat where "RESPONSE_FRAME_OVERHEAD = 5"
definition RESPONSE_FRAME_OVERHEAD_WITH_STATUS_LEN :: nat where "RESPONSE_FRAME_OVERHEAD_WITH_STATUS_LEN = 4"
definition RESPONSE_COMPLETION_GUARD :: nat where "RESPONSE_COMPLETION_GUARD = millis 5"
definition READ_BUF_LEN :: nat where "READ_BUF_LEN = 1024"

section \<open>Lengths\<close>

definition get_byte :: "bytes \<Rightarrow> nat \<Rightarrow> u8 option" where
  "get_byte buf i = (if i < length buf then Some (buf ! i) else None)"

definition get_device :: "device_config list \<Rightarrow> nat \<Rightarrow> device_config option" where
  "get_device devices i = (if i < length devices then Some (devices ! i) else None)"

definition device_addr :: "device_config \<Rightarrow> u8" where
  "device_addr d = cfg_device_id (dc_config d)"

definition device_data_len :: "device_config \<Rightarrow> nat" where
  "device_data_len d = unat (cfg_data_len (dc_config d))"

definition validated_forward_data_start :: "bytes \<Rightarrow> nat option" where
  "validated_forward_data_start buf =
     (if length buf < FORWARD_PREFIX_LEN
         \<or> drop FORWARD_HEADER_LEN (take FORWARD_PREFIX_LEN buf) \<noteq> [0, 0]
         \<or> \<not> verify_checksum (take FORWARD_HEADER_LEN buf)
      then None else Some FORWARD_PREFIX_LEN)"

definition configured_protocol_frame_len :: "bytes \<Rightarrow> nat \<Rightarrow> nat \<Rightarrow> nat" where
  "configured_protocol_frame_len buf data_start data_len =
     data_len + (case get_byte buf (data_start + 2) of
        Some declared \<Rightarrow> if unat declared + 1 = data_len then RESPONSE_FRAME_OVERHEAD_WITH_STATUS_LEN
                         else RESPONSE_FRAME_OVERHEAD
      | None \<Rightarrow> RESPONSE_FRAME_OVERHEAD)"

definition accepts_forwarded :: "run_location \<Rightarrow> run_location \<Rightarrow> bool" where
  "accepts_forwarded current_run run_on \<longleftrightarrow> current_run = Secondary \<or> run_on = Secondary"

definition direct_frame_len :: "bytes \<Rightarrow> device_config list \<Rightarrow> nat \<Rightarrow> run_location \<Rightarrow> nat option" where
  "direct_frame_len buf devices index current_run =
     (if current_run = Primary
      then map_option (\<lambda>d. configured_protocol_frame_len buf 0 (device_data_len d)) (get_device devices index)
      else None)"

definition configured_response_frame_len ::
  "bytes \<Rightarrow> device_config list \<Rightarrow> nat \<Rightarrow> run_location \<Rightarrow> run_location \<Rightarrow> nat option" where
  "configured_response_frame_len buf devices index current_run run_on =
     (if accepts_forwarded current_run run_on then
        (case validated_forward_data_start buf of
           None \<Rightarrow> direct_frame_len buf devices index current_run
         | Some data_start \<Rightarrow>
             Option.bind (get_byte buf 0) (\<lambda>device_id.
               map_option (\<lambda>d. data_start + configured_protocol_frame_len buf data_start (device_data_len d))
                 (List.find (\<lambda>d. device_addr d = device_id) devices)))
      else direct_frame_len buf devices index current_run)"

text \<open>The slice index \<open>buf[2]\<close> is only reached with three bytes.\<close>

definition expected_frame_len :: "bytes \<Rightarrow> run_location \<Rightarrow> run_location \<Rightarrow> nat" where
  "expected_frame_len buf current_run run_on =
     (let total = length buf; direct = unat (buf ! 2) + 5
      in if accepts_forwarded current_run run_on then
           (case validated_forward_data_start buf of
              Some data_start \<Rightarrow>
                if data_start + 3 \<le> total then data_start + unat (buf ! (data_start + 2)) + 5
                else total + 1
            | None \<Rightarrow> if total < FORWARD_PREFIX_LEN then FORWARD_PREFIX_LEN else direct)
         else direct)"

definition complete_frame_len ::
  "bytes \<Rightarrow> run_location \<Rightarrow> run_location \<Rightarrow> nat option \<Rightarrow> nat option" where
  "complete_frame_len buf current_run run_on configured_minimum =
     (if length buf < 3 then None
      else let expected = (case configured_minimum of
             Some m \<Rightarrow> max (expected_frame_len buf current_run run_on) m
           | None \<Rightarrow> expected_frame_len buf current_run run_on)
      in if expected \<le> length buf then Some expected else None)"

definition is_complete_short_direct_candidate :: "bytes \<Rightarrow> run_location \<Rightarrow> run_location \<Rightarrow> bool" where
  "is_complete_short_direct_candidate buf current_run run_on \<longleftrightarrow>
     \<not> (current_run \<noteq> Primary \<or> run_on \<noteq> Secondary \<or> length buf < 3) \<and>
     (let expected = unat (buf ! 2) + 5
      in expected < FORWARD_PREFIX_LEN \<and> length buf = expected \<and> verify_checksum (take expected buf))"

definition response_completion_budget :: "device_config list \<Rightarrow> nat \<Rightarrow> u32 \<Rightarrow> nat" where
  "response_completion_budget devices index baud_rate =
     (let maximum_frame_len = (case get_device devices index of
            Some d \<Rightarrow> device_data_len d + RESPONSE_FRAME_OVERHEAD + FORWARD_PREFIX_LEN
          | None \<Rightarrow> RESPONSE_FRAME_OVERHEAD + FORWARD_PREFIX_LEN)
      in dur_add (wire_duration maximum_frame_len baud_rate) RESPONSE_COMPLETION_GUARD)"

definition contains_command_ack :: "bytes \<Rightarrow> bool" where
  "contains_command_ack data \<longleftrightarrow>
     list_ex (\<lambda>i. take (length COMMAND_ACK_BYTES) (drop i data) = COMMAND_ACK_BYTES)
       [0..<length data + 1 - length COMMAND_ACK_BYTES]"

section \<open>The read loops\<close>

record read_env =
  re_read :: "nat \<Rightarrow> nat \<Rightarrow> io_error + bytes"
  re_now :: "nat \<Rightarrow> nat"
  re_idle :: "nat \<Rightarrow> bool"

record frame_ctx =
  fc_devices :: "device_config list"
  fc_index :: nat
  fc_current_run :: run_location
  fc_run_on :: run_location
  fc_budget :: nat

definition frame_complete :: "frame_ctx \<Rightarrow> bytes \<Rightarrow> nat option" where
  "frame_complete fc pending =
     complete_frame_len pending (fc_current_run fc) (fc_run_on fc)
       (configured_response_frame_len pending (fc_devices fc) (fc_index fc) (fc_current_run fc) (fc_run_on fc))"

datatype frame_read = GotFrame bytes | ReadTimedOut | ReadFailed io_error

text \<open>The loop of \<open>receive_data_attempt\<close>; the second component of the result is what stays pending.\<close>

function assemble_frame ::
  "read_env \<Rightarrow> frame_ctx \<Rightarrow> nat \<Rightarrow> bytes \<Rightarrow> nat \<Rightarrow> bool \<Rightarrow> frame_read \<times> bytes" where
  "assemble_frame env fc i pending deadline extended =
     (case frame_complete fc pending of
        Some n \<Rightarrow> (GotFrame (take n pending), drop n pending)
      | None \<Rightarrow>
          if is_complete_short_direct_candidate pending (fc_current_run fc) (fc_run_on fc) \<and> re_idle env i
          then (let n = unat (pending ! 2) + 5 in (GotFrame (take n pending), drop n pending))
          else if READ_BUF_LEN \<le> length pending then (GotFrame pending, [])
          else (case re_read env i deadline of
             Inr chunk \<Rightarrow>
               if chunk = [] then (if pending = [] then (ReadTimedOut, []) else (GotFrame pending, []))
               else assemble_frame env fc (i + 1) (pending @ chunk)
                      (if extended then deadline else max deadline (re_now env i + fc_budget fc)) True
           | Inl (kind, text) \<Rightarrow>
               if kind = TimedOut then (if pending = [] then (ReadTimedOut, []) else (GotFrame pending, []))
               else (ReadFailed (kind, text), pending)))"
  by pat_completeness auto
termination
  by (relation "measure (\<lambda>(env, fc, i, pending, d, e). READ_BUF_LEN - length pending)")
    (auto simp: length_greater_0_conv[symmetric] simp del: length_greater_0_conv)

declare assemble_frame.simps [simp del]

text \<open>The loop of \<open>receive_command_ack_result\<close>: whether the reply was seen, and what was read.\<close>

function read_ack :: "(nat \<Rightarrow> io_error + bytes) \<Rightarrow> nat \<Rightarrow> bytes \<Rightarrow> io_error + (bool \<times> bytes)" where
  "read_ack rd i received =
     (case rd i of
        Inr chunk \<Rightarrow>
          if chunk = [] then Ok (False, received)
          else if contains_command_ack (received @ chunk) then Ok (True, received @ chunk)
          else if READ_BUF_LEN \<le> length (received @ chunk) then Ok (False, received @ chunk)
          else read_ack rd (i + 1) (received @ chunk)
      | Inl (kind, text) \<Rightarrow> if kind = TimedOut then Ok (False, received) else Err (kind, text))"
  by pat_completeness auto
termination
  by (relation "measure (\<lambda>(rd, i, received). READ_BUF_LEN - length received)")
    (auto simp: length_greater_0_conv[symmetric] simp del: length_greater_0_conv)

declare read_ack.simps [simp del]

section \<open>Forwarded frames\<close>

text \<open>A standby gateway hears the address header of the query, two zero bytes, and the device's frame.\<close>

definition forward_frame :: "bytes \<Rightarrow> bytes \<Rightarrow> bytes" where
  "forward_frame header frame = header @ [0, 0] @ frame"

lemma forward_start:
  assumes "length header = 7" and "verify_checksum header"
  shows "validated_forward_data_start (header @ 0 # 0 # rest) = Some 9"
  using assms by (simp add: validated_forward_data_start_def FORWARD_PREFIX_LEN_def FORWARD_HEADER_LEN_def)

lemma contains_ack_iff: "contains_command_ack data \<longleftrightarrow> (\<exists>pre post. data = pre @ COMMAND_ACK_BYTES @ post)"
proof
  assume "contains_command_ack data"
  then obtain i where "take (length COMMAND_ACK_BYTES) (drop i data) = COMMAND_ACK_BYTES"
    by (auto simp: contains_command_ack_def list_ex_iff)
  then have "drop i data = COMMAND_ACK_BYTES @ drop (length COMMAND_ACK_BYTES) (drop i data)"
    by (metis append_take_drop_id)
  then show "\<exists>pre post. data = pre @ COMMAND_ACK_BYTES @ post" by (metis append_take_drop_id)
next
  assume "\<exists>pre post. data = pre @ COMMAND_ACK_BYTES @ post"
  then obtain pre post where "data = pre @ COMMAND_ACK_BYTES @ post" by blast
  then show "contains_command_ack data"
    unfolding contains_command_ack_def list_ex_iff by (intro bexI[of _ "length pre"]) auto
qed

section \<open>Pieces\<close>

text \<open>
  A frame arrives in pieces of any size. If no proper prefix of it looks complete and it does itself,
  the loop returns exactly the frame.
\<close>

lemma assemble_chunks:
  assumes "\<And>k d. k < length chunks \<Longrightarrow> re_read env (i + k) d = Ok (chunks ! k)" and "[] \<notin> set chunks"
    and whole: "frame_complete fc raw = Some (length raw)" and "length raw \<le> READ_BUF_LEN"
    and parts: "\<And>p q. raw = p @ q \<Longrightarrow> q \<noteq> [] \<Longrightarrow> frame_complete fc p = None
        \<and> \<not> is_complete_short_direct_candidate p (fc_current_run fc) (fc_run_on fc)"
    and "raw = pending @ concat chunks"
  shows "assemble_frame env fc i pending deadline extended = (GotFrame raw, [])"
  using assms(1,2,6)
proof (induction chunks arbitrary: i pending deadline extended)
  case Nil
  with whole show ?case by (simp add: assemble_frame.simps)
next
  case (Cons c cs)
  have c: "c \<noteq> []" "re_read env i deadline = Ok c" using Cons.prems(2) Cons.prems(1)[of 0 deadline] by auto
  have p: "frame_complete fc pending = None"
    "\<not> is_complete_short_direct_candidate pending (fc_current_run fc) (fc_run_on fc)"
    using parts[of pending "c @ concat cs"] Cons.prems(3) c(1) by auto
  have l: "length pending < READ_BUF_LEN"
    using assms(4) Cons.prems(3) c(1) by (cases c) auto
  have "assemble_frame env fc (i + 1) (pending @ c) d True = (GotFrame raw, [])" for d
    using Cons.prems Cons.prems(1)[of "Suc k" for k] by (intro Cons.IH) auto
  then show ?case using p l c by (subst assemble_frame.simps) simp
qed

lemma configured_len_declared:
  assumes "data_start + 2 < length buf" and "buf ! (data_start + 2) = n"
    and "data_len = unat n \<or> data_len = unat n + 1"
  shows "configured_protocol_frame_len buf data_start data_len = unat n + 5"
  using assms by (auto simp: configured_protocol_frame_len_def get_byte_def RESPONSE_FRAME_OVERHEAD_def
      RESPONSE_FRAME_OVERHEAD_WITH_STATUS_LEN_def)

text \<open>A direct answer on a primary gateway.\<close>

lemma direct_complete:
  assumes "fc_current_run fc = Primary" and "fc_run_on fc = Primary"
    and "get_device (fc_devices fc) (fc_index fc) = Some d"
    and "device_data_len d = unat (buf ! 2) \<or> device_data_len d = unat (buf ! 2) + 1" and "3 \<le> length buf"
  shows "frame_complete fc buf = (if unat (buf ! 2) + 5 \<le> length buf then Some (unat (buf ! 2) + 5) else None)"
proof -
  have "configured_protocol_frame_len buf 0 (device_data_len d) = unat (buf ! 2) + 5"
    using assms(4,5) by (intro configured_len_declared) (auto simp: numeral_2_eq_2)
  with assms show ?thesis
    by (simp add: frame_complete_def complete_frame_len_def configured_response_frame_len_def accepts_forwarded_def
        direct_frame_len_def expected_frame_len_def)
qed

lemma direct_frame_assembled:
  assumes "fc_current_run fc = Primary" and "fc_run_on fc = Primary"
    and "get_device (fc_devices fc) (fc_index fc) = Some d"
    and "device_data_len d = length status - 1 \<or> device_data_len d = length status"
    and "1 \<le> length status" and "length status \<le> 256"
    and "\<And>k dl. k < length chunks \<Longrightarrow> re_read env k dl = Ok (chunks ! k)" and "[] \<notin> set chunks"
    and "concat chunks = encode_data_packet addr cmd status"
  shows "assemble_frame env fc 0 [] deadline extended = (GotFrame (encode_data_packet addr cmd status), [])"
proof -
  let ?raw = "encode_data_packet addr cmd status"
  have u: "unat (of_nat (length status - 1) :: u8) = length status - 1"
    using assms(5,6) by (intro unat_of_nat_small) simp
  have raw: "length ?raw = length status + 4" "?raw ! 2 = of_nat (length status - 1)"
    using assms(5) by (auto simp: encode_data_packet_def Let_def)
  have d: "device_data_len d = unat (?raw ! 2) \<or> device_data_len d = unat (?raw ! 2) + 1"
    using assms(4,5) u raw by auto
  have "frame_complete fc ?raw = Some (length ?raw)"
    using direct_complete[OF assms(1-3) d] raw u assms(5) by simp
  moreover have "frame_complete fc p = None" if "?raw = p @ q" "q \<noteq> []" for p q
  proof (cases "3 \<le> length p")
    case True
    then have "p ! 2 = ?raw ! 2" using that by (simp add: nth_append)
    moreover have "length p < length ?raw" using that by simp
    ultimately show ?thesis using direct_complete[OF assms(1-3), of p] d True raw u assms(5) by auto
  qed (simp add: frame_complete_def complete_frame_len_def)
  ultimately show ?thesis
    using assms(1,2,6-9) raw
    by (intro assemble_chunks[where chunks = chunks]) (auto simp: is_complete_short_direct_candidate_def READ_BUF_LEN_def)
qed

text \<open>A frame of the primary gateway heard by a standby gateway.\<close>

lemma find_distinct_device:
  assumes "distinct (map device_addr devices)" and "d \<in> set devices"
  shows "List.find (\<lambda>x. device_addr x = device_addr d) devices = Some d"
  using assms by (induction devices) auto

lemma forwarded_complete:
  assumes "fc_current_run fc = Secondary" and "length header = 7" and "verify_checksum header"
    and "List.find (\<lambda>x. device_addr x = header ! 0) (fc_devices fc) = Some d"
    and buf: "buf = header @ 0 # 0 # rest" and "3 \<le> length rest"
    and "device_data_len d = unat (rest ! 2) \<or> device_data_len d = unat (rest ! 2) + 1"
  shows "frame_complete fc buf = (if unat (rest ! 2) + 5 \<le> length rest then Some (length header + 2 + (unat (rest ! 2) + 5)) else None)"
proof -
  have v: "validated_forward_data_start buf = Some 9" using forward_start[OF assms(2,3)] buf by simp
  have b: "buf ! 11 = rest ! 2" "length buf = length rest + 9" "buf ! 0 = header ! 0"
    using assms(2) by (simp_all add: buf nth_append)
  have c: "configured_protocol_frame_len buf 9 (device_data_len d) = unat (rest ! 2) + 5"
    using assms(6,7) b by (intro configured_len_declared) auto
  show ?thesis
    using assms(1,2,4,6) v b c
    by (simp add: frame_complete_def complete_frame_len_def configured_response_frame_len_def accepts_forwarded_def
        expected_frame_len_def get_byte_def)
qed

lemma forwarded_incomplete:
  assumes "fc_current_run fc = Secondary" and "length header = 7" and "verify_checksum header"
    and "header @ 0 # 0 # rest = p @ q" and "length p < 12"
  shows "frame_complete fc p = None"
proof (cases "length p < 9")
  case True
  then show ?thesis
    using assms(1) by (auto simp: frame_complete_def complete_frame_len_def configured_response_frame_len_def
        accepts_forwarded_def expected_frame_len_def validated_forward_data_start_def FORWARD_PREFIX_LEN_def
        direct_frame_len_def)
next
  case False
  then have "p = header @ 0 # 0 # take (length p - 9) rest"
    using arg_cong[OF assms(4), of "take (length p)"] assms(2) by (simp add: take_Cons')
  then have "validated_forward_data_start p = Some 9" using forward_start[OF assms(2,3)] by metis
  then show ?thesis
    using assms(1,5) False
    by (auto simp: frame_complete_def complete_frame_len_def configured_response_frame_len_def accepts_forwarded_def
        expected_frame_len_def split: option.splits)
qed

lemma forwarded_frame_assembled:
  assumes "fc_current_run fc = Secondary" and "length header = 7" and "verify_checksum header"
    and "List.find (\<lambda>x. device_addr x = header ! 0) (fc_devices fc) = Some d"
    and "device_data_len d = length status - 1 \<or> device_data_len d = length status"
    and "1 \<le> length status" and "length status \<le> 256"
    and "\<And>k dl. k < length chunks \<Longrightarrow> re_read env k dl = Ok (chunks ! k)" and "[] \<notin> set chunks"
    and "concat chunks = forward_frame header (encode_data_packet addr cmd status)"
  shows "assemble_frame env fc 0 [] deadline extended =
    (GotFrame (forward_frame header (encode_data_packet addr cmd status)), [])"
proof -
  let ?f = "encode_data_packet addr cmd status" and ?raw = "forward_frame header (encode_data_packet addr cmd status)"
  have u: "unat (of_nat (length status - 1) :: u8) = length status - 1"
    using assms(6,7) by (intro unat_of_nat_small) simp
  have f: "length ?f = length status + 4" "?f ! 2 = of_nat (length status - 1)"
    using assms(6) by (auto simp: encode_data_packet_def Let_def)
  have d: "device_data_len d = unat (?f ! 2) \<or> device_data_len d = unat (?f ! 2) + 1" using assms(5,6) u f by auto
  have raw: "?raw = header @ 0 # 0 # ?f" by (simp add: forward_frame_def)
  have whole: "frame_complete fc ?raw = Some (length ?raw)"
    using forwarded_complete[OF assms(1-4) raw _ d] f u assms(6) raw by simp
  have parts: "frame_complete fc p = None" if pq: "?raw = p @ q" "q \<noteq> []" for p q
  proof (cases "length p < 12")
    case True
    with forwarded_incomplete[OF assms(1-3)] pq raw show ?thesis by metis
  next
    case False
    then have p: "p = header @ 0 # 0 # take (length p - 9) ?f"
      using arg_cong[OF pq(1), of "take (length p)"] assms(2) by (simp add: raw take_Cons')
    have r2: "take (length p - 9) ?f ! 2 = ?f ! 2" using False by simp
    have l: "length (take (length p - 9) ?f) < length ?f"
      using arg_cong[OF pq(1), of length] pq(2) False assms(2) by (cases q) (auto simp: raw)
    have "3 \<le> length (take (length p - 9) ?f)" using False f assms(6) by simp
    from forwarded_complete[OF assms(1-4) p this] d show ?thesis using r2 l f u assms(6) by auto
  qed
  have short: "\<not> is_complete_short_direct_candidate p (fc_current_run fc) (fc_run_on fc)" for p
    using assms(1) by (simp add: is_complete_short_direct_candidate_def)
  have len: "length ?raw \<le> READ_BUF_LEN" using f raw assms(2,7) by (simp add: READ_BUF_LEN_def)
  show ?thesis
  proof (rule assemble_chunks[where chunks = chunks, OF _ assms(9) whole len])
    show "re_read env (0 + k) dl = Ok (chunks ! k)" if "k < length chunks" for k dl using assms(8) that by simp
  qed (use parts short assms(10) in simp_all)
qed

section \<open>Acknowledgements\<close>

text \<open>The reply is recognised in whatever pieces it arrives; otherwise the loop waits for the timeout.\<close>

lemma contains_ack_append: "contains_command_ack a \<Longrightarrow> contains_command_ack (a @ b)"
  by (metis append_assoc contains_ack_iff)

lemma read_ack_chunks:
  assumes "\<And>k. k < length chunks \<Longrightarrow> rd (i + k) = Ok (chunks ! k)" and "[] \<notin> set chunks"
    and "rd (i + length chunks) = Err (TimedOut, e)" and "length (received @ concat chunks) < READ_BUF_LEN"
    and "\<not> contains_command_ack received"
  shows "\<exists>seen. read_ack rd i received = Ok (contains_command_ack (received @ concat chunks), seen)"
  using assms
proof (induction chunks arbitrary: i received)
  case Nil
  then show ?case by (simp add: read_ack.simps)
next
  case (Cons c cs)
  have c: "rd i = Ok c" "c \<noteq> []" using Cons.prems(1)[of 0] Cons.prems(2) by auto
  show ?case
  proof (cases "contains_command_ack (received @ c)")
    case True
    with contains_ack_append[OF this, of "concat cs"] c show ?thesis by (subst read_ack.simps) simp
  next
    case False
    have "\<exists>seen. read_ack rd (i + 1) (received @ c) = Ok (contains_command_ack ((received @ c) @ concat cs), seen)"
      using Cons.prems Cons.prems(1)[of "Suc k" for k] False by (intro Cons.IH) auto
    with False c Cons.prems(4) show ?thesis by (subst read_ack.simps) auto
  qed
qed

end
