(* ===== verification/Serial_Manager.thy ===== *)
theory Serial_Manager
  imports Serial_Logs Frame_Assembly Command_Transaction
begin

text \<open>
  The manager of one serial port (\<open>src/src/serial/manager.rs\<close>): connection, publication of device
  states to the cache and to the subscribers, sending, receiving, role switching between a primary
  and a standby gateway, and the version query. The driver and the clock are parameters, collected in
  one environment record per operation. A handle is represented by its presence; while it is open its
  read timeout is the configured one, since a failed restoration is a transport error that closes it.
  A slice index out of range is the result \<open>None\<close>. The failure counters are \<open>u32\<close> and wrap, as in a
  release build. Log output is left out, except the entries pushed to the bounded system record, which
  are kept as data in the order in which they are pushed.
\<close>

section \<open>Device states\<close>

definition SAME_DATA_BROADCAST :: u32 where "SAME_DATA_BROADCAST = 10"
definition PORT_FAILOVER_TIMEOUT :: u32 where "PORT_FAILOVER_TIMEOUT = 20"
definition PARSE_FAIL_FAILOVER :: u32 where "PARSE_FAIL_FAILOVER = 100"
definition RECONNECT_COOLDOWN :: nat where "RECONNECT_COOLDOWN = millis 2000"

record device_runtime =
  dr_timeout_count :: u32
  dr_current_round :: u32
  dr_parse_fail_count :: u32
  dr_last_data :: bytes
  dr_last_com_status :: "bool option"
  dr_last_device_status :: "bool option"
  dr_same_count :: u32
  dr_is_enabled :: bool
  dr_read_enabled :: bool
  dr_last_data_at :: "string option"
  dr_failure_log :: device_failure_log
  dr_query_retry_log :: query_retry_log

definition device_runtime_new :: device_runtime where
  "device_runtime_new =
     \<lparr>dr_timeout_count = 0, dr_current_round = 0, dr_parse_fail_count = 0, dr_last_data = [],
      dr_last_com_status = None, dr_last_device_status = None, dr_same_count = 0, dr_is_enabled = True,
      dr_read_enabled = True, dr_last_data_at = None, dr_failure_log = failure_log_default,
      dr_query_retry_log = retry_log_default\<rparr>"

definition should_broadcast :: "bytes \<Rightarrow> bool \<Rightarrow> bool \<Rightarrow> device_runtime \<Rightarrow> bool \<times> device_runtime" where
  "should_broadcast data com_status device_status s =
     (let status_changed = (dr_last_com_status s \<noteq> Some com_status
            \<or> dr_last_device_status s \<noteq> Some device_status)
      in if data = dr_last_data s \<and> \<not> status_changed then
           (let same_count = dr_same_count s + 1
            in if SAME_DATA_BROADCAST \<le> same_count then (True, s\<lparr>dr_same_count := 0\<rparr>)
               else (False, s\<lparr>dr_same_count := same_count\<rparr>))
         else (True, s\<lparr>dr_same_count := 0, dr_last_data := data, dr_last_com_status := Some com_status,
                       dr_last_device_status := Some device_status\<rparr>))"

section \<open>State\<close>

record serial_config =
  sc_port_name :: string
  sc_baud_rate :: u32
  sc_read_timeout :: nat
  sc_parity_switch_delay :: nat
  sc_transmit_settle_guard :: nat

definition serial_config_new :: "string \<Rightarrow> u32 \<Rightarrow> nat \<Rightarrow> serial_config" where
  "serial_config_new port baud timeout =
     \<lparr>sc_port_name = port, sc_baud_rate = baud, sc_read_timeout = timeout,
      sc_parity_switch_delay = millis 1, sc_transmit_settle_guard = millis 1\<rparr>"

definition with_transmit_timing :: "nat \<Rightarrow> nat \<Rightarrow> serial_config \<Rightarrow> serial_config" where
  "with_transmit_timing parity_switch_delay settle_guard c =
     c\<lparr>sc_parity_switch_delay := parity_switch_delay, sc_transmit_settle_guard := settle_guard\<rparr>"

datatype query_failure = QF_ReadTimeout | QF_BadFrame protocol_error bytes

fun failure_kind :: "query_failure \<Rightarrow> device_failure_kind" where
  "failure_kind QF_ReadTimeout = ReadTimeout"
| "failure_kind (QF_BadFrame reason frame) = BadFrame"

definition cause_name :: "query_failure \<Rightarrow> string" where
  "cause_name f = device_failure_kind_name (failure_kind f)"

text \<open>The stage of a write at which it failed, and the phase of a send.\<close>

datatype write_stage = NotOpen | SetParity | WriteBytes | WaitOutputSettle

datatype send_phase = WriteSpecialFrame | WriteAddressMark | WritePayloadSpace

text \<open>The reasons of a role switch; the source gives each as a fixed text.\<close>

datatype switch_reason = ForwardedFrameSeen | TooManyUnattributed | TooManyParseFailures | TooManyTimeouts

datatype log_entry =
    OpenFailed string
  | Reconnected nat u32 string
  | ReconnectFailed string
  | PortDisabled nat
  | PortEnabled
  | DeviceReadSet u8 bool
  | DeviceDisabled u8 nat
  | DeviceEnabled u8 nat
  | SendFailed u32 send_phase write_stage io_error
  | AckPortClosed
  | AckReadError io_error
  | ReadError nat io_error
  | UnattributedFrame nat
  | DeviceFailure u8 nat string string
  | DeviceRecovered u8 nat u32 u32
  | ForwardRecovered nat u32
  | RoleSwitched run_location run_location switch_reason
  | WorkerPanicked u32

record serial_manager =
  sm_port :: bool
  sm_pacing :: command_pacing
  sm_versions :: version_queries
  sm_serial_config :: serial_config
  sm_port_config :: serial_port_config
  sm_broadcasts :: "device_status list"
  sm_cache :: latest_status_cache
  sm_states :: "device_runtime list"
  sm_index :: nat
  sm_run_on :: run_location
  sm_current_run :: run_location
  sm_time_out_count :: u32
  sm_parse_fail_count :: u32
  sm_records :: "log_entry list"
  sm_rx_pending :: bytes
  sm_last_reconnect :: nat
  sm_port_offline_published :: bool
  sm_reconnect_failure_log :: reconnect_failure_log
  sm_unattributed_failure_log :: device_failure_log
  sm_receive_sequence :: u64

abbreviation sm_devices :: "serial_manager \<Rightarrow> device_config list" where
  "sm_devices m \<equiv> spc_devices (sm_port_config m)"

abbreviation sm_enabled :: "serial_manager \<Rightarrow> bool" where
  "sm_enabled m \<equiv> spc_status (sm_port_config m)"

definition log_record :: "log_entry \<Rightarrow> serial_manager \<Rightarrow> serial_manager" where
  "log_record e m = m\<lparr>sm_records := sm_records m @ [e]\<rparr>"

text \<open>\<open>update_state i f m\<close> is an assignment to \<open>device_states[i]\<close>.\<close>

definition update_state :: "nat \<Rightarrow> (device_runtime \<Rightarrow> device_runtime) \<Rightarrow> serial_manager \<Rightarrow> serial_manager" where
  "update_state i f m = m\<lparr>sm_states := (sm_states m)[i := f (sm_states m ! i)]\<rparr>"

definition device_position :: "u8 \<Rightarrow> device_config list \<Rightarrow> nat option" where
  "device_position device devices =
     List.find (\<lambda>i. device_addr (devices ! i) = device) [0..<length devices]"

section \<open>Publication\<close>

definition device_report ::
  "string \<Rightarrow> device_config \<Rightarrow> bool \<Rightarrow> bool \<Rightarrow> bytes \<Rightarrow> bytes \<Rightarrow> device_status" where
  "device_report port d com_status device_status data raw =
     \<lparr>ds_id = ucast (cfg_com_index (dc_config d)), ds_device_id = device_addr d, ds_com = port,
      ds_com_status = com_status, ds_device_status = device_status,
      ds_value = parse_status data (dc_records d), ds_raw_data = raw\<rparr>"

text \<open>The cache is always written; subscribers are told when the device's state says so.\<close>

definition publish_status ::
  "nat \<Rightarrow> device_config \<Rightarrow> bool \<Rightarrow> bool \<Rightarrow> bytes \<Rightarrow> bytes \<Rightarrow> serial_manager \<Rightarrow> serial_manager" where
  "publish_status i d com_status device_status data raw m =
     (let status = device_report (spc_port_number (sm_port_config m)) d com_status device_status data raw;
          m = m\<lparr>sm_cache := cache_update status (sm_cache m)\<rparr>
      in if i < length (sm_states m) then
           (let (send, s) = should_broadcast data com_status device_status (sm_states m ! i);
                m = m\<lparr>sm_states := (sm_states m)[i := s]\<rparr>
            in if send then m\<lparr>sm_broadcasts := sm_broadcasts m @ [status]\<rparr> else m)
         else m)"

definition zero_data :: "device_config \<Rightarrow> bytes" where
  "zero_data d = replicate (device_data_len d) 0"

definition send_zero_status_for_index :: "nat \<Rightarrow> bool \<Rightarrow> bool \<Rightarrow> serial_manager \<Rightarrow> serial_manager" where
  "send_zero_status_for_index i com_status device_status m =
     (case get_device (sm_devices m) i of
        None \<Rightarrow> m
      | Some d \<Rightarrow> publish_status i d com_status device_status (zero_data d) (zero_data d) m)"

definition send_zero_status :: "bool \<Rightarrow> bool \<Rightarrow> serial_manager \<Rightarrow> serial_manager" where
  "send_zero_status com_status device_status m =
     send_zero_status_for_index (sm_index m) com_status device_status m"

definition publish_all_offline :: "serial_manager \<Rightarrow> serial_manager" where
  "publish_all_offline m =
     fold (\<lambda>i. send_zero_status_for_index i False False) [0..<length (sm_devices m)] m"

definition publish_port_offline_once :: "serial_manager \<Rightarrow> serial_manager" where
  "publish_port_offline_once m =
     (if sm_port_offline_published m then m
      else publish_all_offline (m\<lparr>sm_port_offline_published := True\<rparr>))"

definition publish_port_disabled :: "serial_manager \<Rightarrow> serial_manager" where
  "publish_port_disabled m =
     log_record (PortDisabled (length (sm_devices m))) (publish_all_offline m)"

section \<open>Connection\<close>

text \<open>
  \<open>oe_checked\<close> is the time at which the cooldown is checked, \<open>oe_now\<close> the time of the attempt,
  \<open>oe_failure\<close> the error of the driver, if it cannot open the port.
\<close>

record open_env =
  oe_checked :: nat
  oe_now :: nat
  oe_failure :: "string option"

definition reconnect :: "open_env \<Rightarrow> serial_manager \<Rightarrow> serial_manager" where
  "reconnect env m =
     (if \<not> sm_enabled m then m\<lparr>sm_port := False, sm_rx_pending := []\<rparr>
      else let m = publish_port_offline_once m
      in if oe_checked env - sm_last_reconnect m < RECONNECT_COOLDOWN then m
         else let m = m\<lparr>sm_last_reconnect := oe_now env\<rparr>
         in case oe_failure env of
              None \<Rightarrow>
                (let (recovered, l) = reconnect_recover (oe_now env) (sm_reconnect_failure_log m);
                     m = m\<lparr>sm_port := True, sm_port_offline_published := False, sm_reconnect_failure_log := l\<rparr>
                 in case recovered of
                      Some stats \<Rightarrow> log_record (Reconnected (rc_duration stats) (rc_attempts stats) (rc_last_error stats)) m
                    | None \<Rightarrow> m)
            | Some e \<Rightarrow>
                (let (action, l) = record_reconnect_failure e (oe_now env) (sm_reconnect_failure_log m);
                     m = m\<lparr>sm_reconnect_failure_log := l\<rparr>;
                     m = (case action of
                            Immediate stats \<Rightarrow>
                              if rc_attempts stats = 1 then log_record (ReconnectFailed (rc_last_error stats)) m else m
                          | _ \<Rightarrow> m)
                 in m\<lparr>sm_port := False\<rparr>))"

text \<open>The constructor: a port that is disabled is not opened.\<close>

definition manager_new ::
  "open_env \<Rightarrow> serial_config \<Rightarrow> serial_port_config \<Rightarrow> latest_status_cache \<Rightarrow> run_location \<Rightarrow> run_location \<Rightarrow>
   serial_manager" where
  "manager_new env conf pc cache run_on current_run =
     (let m = \<lparr>sm_port = (spc_status pc \<and> oe_failure env = None), sm_pacing = pacing_new 0, sm_versions = [],
               sm_serial_config = conf, sm_port_config = pc, sm_broadcasts = [], sm_cache = cache,
               sm_states = map (\<lambda>_. device_runtime_new) (spc_devices pc), sm_index = 0, sm_run_on = run_on,
               sm_current_run = current_run, sm_time_out_count = 0, sm_parse_fail_count = 0, sm_records = [],
               sm_rx_pending = [], sm_last_reconnect = oe_now env, sm_port_offline_published = False,
               sm_reconnect_failure_log = reconnect_log_default,
               sm_unattributed_failure_log = failure_log_default, sm_receive_sequence = 0\<rparr>
      in if \<not> spc_status pc then publish_port_disabled m
         else case oe_failure env of
           None \<Rightarrow> m
         | Some e \<Rightarrow>
             publish_port_offline_once (log_record (OpenFailed e)
               (m\<lparr>sm_reconnect_failure_log :=
                    snd (record_reconnect_failure e (oe_checked env) reconnect_log_default)\<rparr>)))"

definition set_port_enabled :: "open_env \<Rightarrow> nat \<Rightarrow> bool \<Rightarrow> serial_manager \<Rightarrow> (string + unit) \<times> serial_manager" where
  "set_port_enabled env now enabled m =
     (let m = m\<lparr>sm_port_config := (sm_port_config m)\<lparr>spc_status := enabled\<rparr>\<rparr>
      in if \<not> enabled then (Ok (), publish_port_disabled (m\<lparr>sm_port := False, sm_rx_pending := []\<rparr>))
         else let m = (if sm_port m then m
                       else reconnect env (m\<lparr>sm_last_reconnect := now - RECONNECT_COOLDOWN\<rparr>))
         in (if sm_port m then Ok ()
             else Err ''port enable is applied, but opening the serial device failed; automatic connection recovery remains active'', m))"

definition set_device_read_enabled ::
  "u8 \<Rightarrow> bool \<Rightarrow> serial_manager \<Rightarrow> ((string + unit) \<times> serial_manager) option" where
  "set_device_read_enabled device enabled m =
     (case device_position device (sm_devices m) of
        None \<Rightarrow> Some (Err ''unknown device'', m)
      | Some i \<Rightarrow>
          if length (sm_states m) \<le> i then None
          else let m = update_state i (\<lambda>s. s\<lparr>dr_read_enabled := enabled\<rparr>) m;
                   m = send_zero_status_for_index i (sm_port m) False m;
                   m = (if enabled then update_state i (\<lambda>s. s\<lparr>dr_timeout_count := 0, dr_current_round := 0\<rparr>) m else m)
               in Some (Ok (), log_record (DeviceReadSet device enabled) m))"

definition publish_device_disabled :: "nat \<Rightarrow> serial_manager \<Rightarrow> serial_manager" where
  "publish_device_disabled i m =
     (case get_device (sm_devices m) i of
        None \<Rightarrow> m
      | Some d \<Rightarrow> log_record (DeviceDisabled (device_addr d) i) (send_zero_status_for_index i (sm_port m) False m))"

definition prepare_worker_restart :: "nat \<Rightarrow> serial_manager \<Rightarrow> serial_manager" where
  "prepare_worker_restart now m =
     publish_port_offline_once
       (m\<lparr>sm_pacing := pacing_completed now (sm_pacing m), sm_port := False, sm_rx_pending := []\<rparr>)"

definition prepare_automatic_query :: "serial_manager \<Rightarrow> serial_manager" where
  "prepare_automatic_query m = m\<lparr>sm_rx_pending := []\<rparr>"

text \<open>What the operations service is told of the port: its state and that of each device.\<close>

record device_runtime_report =
  rr_device_id :: u8
  rr_read_enabled :: bool
  rr_online :: bool
  rr_last_data_at :: "string option"

definition refresh_operations_state :: "serial_manager \<Rightarrow> string \<times> bool \<times> bool \<times> device_runtime_report list" where
  "refresh_operations_state m =
     (spc_port_number (sm_port_config m), sm_enabled m, sm_port m,
      map (\<lambda>(d, s). \<lparr>rr_device_id = device_addr d, rr_read_enabled = dr_read_enabled s,
             rr_online = (sm_enabled m \<and> sm_port m \<and> dr_is_enabled s \<and> dr_read_enabled s
               \<and> dr_last_com_status s = Some True \<and> dr_last_device_status s = Some True),
             rr_last_data_at = dr_last_data_at s\<rparr>)
        (zip (sm_devices m) (sm_states m)))"

section \<open>Sending\<close>

datatype parity = MarkParity | SpaceParity

text \<open>
  The driver during one segment: the time at its start, the answer to the change of parity, the write
  calls, the polls of the output queue and the time after them.
\<close>

record segment_env =
  sg_now :: nat
  sg_parity :: "string option"
  sg_write :: "nat \<Rightarrow> nat port_call"
  sg_polls :: "((string + nat) \<times> nat) list"
  sg_drained :: nat

text \<open>The second component of the result is what the driver took.\<close>

definition write_segment ::
  "segment_env \<Rightarrow> parity option \<Rightarrow> bytes \<Rightarrow> bool \<Rightarrow> serial_manager \<Rightarrow> (write_stage \<times> io_error + unit) \<times> bytes" where
  "write_segment env parity data wait_for_settle m =
     (let conf = sm_serial_config m;
          deadline = sg_now env + transmit_timeout (length data) (sc_baud_rate conf) (sc_read_timeout conf)
      in if \<not> sm_port m then (Err (NotOpen, NotConnected, ''serial port is not open''), [])
         else case (if parity = None then None else sg_parity env) of
           Some e \<Rightarrow> (Err (SetParity, OtherIo, e), [])
         | None \<Rightarrow>
             (case write_all_before_deadline deadline (sg_write env) 0 data (sc_read_timeout conf) of
                (Inl e, taken, _) \<Rightarrow> (Err (WriteBytes, e), taken)
              | (Inr _, taken, _) \<Rightarrow>
                  (if wait_for_settle
                   then map_err (Pair WaitOutputSettle)
                     (wait_for_output_settle (sg_polls env) (sg_drained env) (length data) (sc_baud_rate conf)
                       (sc_transmit_settle_guard conf) deadline)
                   else Ok (), taken)))"

definition handle_send_transport_error ::
  "open_env \<Rightarrow> u32 \<Rightarrow> send_phase \<Rightarrow> write_stage \<times> io_error \<Rightarrow> serial_manager \<Rightarrow> serial_manager" where
  "handle_send_transport_error env device ph err m =
     (if fst (snd err) = NotConnected then reconnect env m
      else let m = log_record (SendFailed device ph (fst err) (snd err)) m;
               m = m\<lparr>sm_port := False, sm_rx_pending := []\<rparr>
           in reconnect env m)"

record send_env =
  se_first :: segment_env
  se_second :: segment_env
  se_open :: open_env

text \<open>The result, the segments with the parity and the bytes the driver took, and the manager.\<close>

definition manager_send_command ::
  "send_env \<Rightarrow> send_data \<Rightarrow> serial_manager \<Rightarrow> bool \<times> (parity option \<times> bytes) list \<times> serial_manager" where
  "manager_send_command env cmd m =
     (let data = sd_command cmd
      in if data = [] then (False, [], m)
         else if MAX_TRANSMIT_TIMEOUT < minimum_transmit_timeout (length data) (sc_baud_rate (sm_serial_config m))
         then (False, [], m)
         else if spc_is_special (sm_port_config m) then
           (case write_segment (se_first env) None data False m of
              (Inl e, taken) \<Rightarrow> (False, [(None, taken)],
                handle_send_transport_error (se_open env) (sd_device_id cmd) WriteSpecialFrame e m)
            | (Inr _, taken) \<Rightarrow> (True, [(None, taken)], m))
         else
           (case write_segment (se_first env) (Some MarkParity) [hd data] True m of
              (Inl e, taken) \<Rightarrow> (False, [(Some MarkParity, taken)],
                handle_send_transport_error (se_open env) (sd_device_id cmd) WriteAddressMark e m)
            | (Inr _, taken) \<Rightarrow>
                (case write_segment (se_second env) (Some SpaceParity) (tl data) True m of
                   (Inl e, taken2) \<Rightarrow> (False, [(Some MarkParity, taken), (Some SpaceParity, taken2)],
                     handle_send_transport_error (se_open env) (sd_device_id cmd) WritePayloadSpace e m)
                 | (Inr _, taken2) \<Rightarrow> (True, [(Some MarkParity, taken), (Some SpaceParity, taken2)], m))))"

section \<open>Acknowledgements\<close>

record ack_env =
  ae_read :: "nat \<Rightarrow> io_error + bytes"
  ae_open :: open_env

definition receive_command_ack_result :: "ack_env \<Rightarrow> serial_manager \<Rightarrow> (string + unit) \<times> serial_manager" where
  "receive_command_ack_result env m =
     (if \<not> sm_port m then (Err ''port_not_open'', reconnect (ae_open env) (log_record AckPortClosed m))
      else case read_ack (ae_read env) 0 [] of
        Inr (True, received) \<Rightarrow> (Ok (), m)
      | Inr (False, received) \<Rightarrow> (Err (if received = [] then ''ack_timeout'' else ''ack_mismatch''), m)
      | Inl e \<Rightarrow>
          (Err ''ack_io_error'',
           reconnect (ae_open env) ((log_record (AckReadError e) m)\<lparr>sm_port := False, sm_rx_pending := []\<rparr>)))"

section \<open>Roles and failures\<close>

definition switch_role :: "run_location \<Rightarrow> switch_reason \<Rightarrow> serial_manager \<Rightarrow> serial_manager" where
  "switch_role new_role reason m =
     (let m = log_record (RoleSwitched (sm_current_run m) new_role reason) m
      in m\<lparr>sm_current_run := new_role, sm_time_out_count := 0, sm_parse_fail_count := 0,
           sm_states := map (\<lambda>s. s\<lparr>dr_timeout_count := 0, dr_parse_fail_count := 0\<rparr>) (sm_states m)\<rparr>)"

definition promote_if_silent :: "switch_reason \<Rightarrow> serial_manager \<Rightarrow> serial_manager" where
  "promote_if_silent reason m =
     (if PORT_FAILOVER_TIMEOUT < sm_time_out_count m \<and> sm_current_run m = Secondary \<and> sm_run_on m = Secondary
      then switch_role Primary reason m else m)"

definition handle_unattributed_frame :: "nat \<Rightarrow> bytes \<Rightarrow> serial_manager \<Rightarrow> serial_manager" where
  "handle_unattributed_frame now frame m =
     (let m = m\<lparr>sm_parse_fail_count := sm_parse_fail_count m + 1, sm_time_out_count := sm_time_out_count m + 1\<rparr>;
          (action, l) = record_failure BadFrame now (sm_unattributed_failure_log m);
          m = m\<lparr>sm_unattributed_failure_log := l\<rparr>;
          m = (case action of
                 Immediate stats \<Rightarrow>
                   if total_failures stats = 1 then log_record (UnattributedFrame (length frame)) m else m
               | _ \<Rightarrow> m)
      in promote_if_silent TooManyUnattributed m)"

record failure_context =
  fx_attempts :: u8
  fx_first_failure :: query_failure

definition log_device_failure ::
  "device_failure_kind \<Rightarrow> nat \<Rightarrow> failure_context option \<Rightarrow> serial_manager \<Rightarrow> serial_manager option" where
  "log_device_failure kind now context m =
     (let i = sm_index m
      in if length (sm_devices m) \<le> i \<or> length (sm_states m) \<le> i then None
         else let attempts = (case context of Some c \<Rightarrow> unat (fx_attempts c) | None \<Rightarrow> 1);
                  first_cause = (case context of Some c \<Rightarrow> cause_name (fx_first_failure c) | None \<Rightarrow> ''-'');
                  (action, l) = record_failure kind now (dr_failure_log (sm_states m ! i));
                  m = update_state i (\<lambda>s. s\<lparr>dr_failure_log := l\<rparr>) m
              in case action of
                   Immediate stats \<Rightarrow>
                     if total_failures stats = 1
                     then Some (log_record (DeviceFailure (device_addr (sm_devices m ! i)) attempts first_cause
                            (device_failure_kind_name kind)) m)
                     else Some m
                 | _ \<Rightarrow> Some m)"

definition handle_device_failure ::
  "device_failure_kind \<Rightarrow> nat \<Rightarrow> failure_context option \<Rightarrow> bool \<Rightarrow> serial_manager \<Rightarrow> serial_manager option" where
  "handle_device_failure kind now context com_status m =
     (if length (sm_states m) \<le> sm_index m then None
      else let m = update_state (sm_index m) (\<lambda>s. s\<lparr>dr_timeout_count := dr_timeout_count s + 1\<rparr>) m;
               m = m\<lparr>sm_time_out_count := sm_time_out_count m + 1\<rparr>
           in map_option (\<lambda>m. promote_if_silent TooManyTimeouts (send_zero_status com_status False m))
                (log_device_failure kind now context m))"

definition demote_if_garbled :: "serial_manager \<Rightarrow> serial_manager" where
  "demote_if_garbled m =
     (if PARSE_FAIL_FAILOVER < sm_parse_fail_count m \<and> sm_current_run m = Primary \<and> sm_run_on m = Secondary
      then switch_role Secondary TooManyParseFailures m else m)"

definition handle_invalid_frame ::
  "nat \<Rightarrow> failure_context option \<Rightarrow> bool \<Rightarrow> serial_manager \<Rightarrow> serial_manager option" where
  "handle_invalid_frame now context com_status m =
     (if length (sm_states m) \<le> sm_index m then None
      else let m = update_state (sm_index m) (\<lambda>s. s\<lparr>dr_parse_fail_count := dr_parse_fail_count s + 1\<rparr>) m;
               m = m\<lparr>sm_parse_fail_count := sm_parse_fail_count m + 1\<rparr>
           in map_option demote_if_garbled (handle_device_failure BadFrame now context com_status m))"

fun commit_query_failure ::
  "query_failure \<Rightarrow> nat \<Rightarrow> failure_context option \<Rightarrow> bool \<Rightarrow> serial_manager \<Rightarrow> serial_manager option" where
  "commit_query_failure QF_ReadTimeout now context com_status m =
     handle_device_failure ReadTimeout now context com_status m"
| "commit_query_failure (QF_BadFrame reason frame) now context com_status m =
     handle_invalid_frame now context com_status m"

section \<open>Receiving\<close>

definition log_device_recovery :: "nat \<Rightarrow> serial_manager \<Rightarrow> serial_manager option" where
  "log_device_recovery now m =
     (let i = sm_index m
      in if length (sm_devices m) \<le> i \<or> length (sm_states m) \<le> i then None
         else let (recovered, l) = failure_recover now (dr_failure_log (sm_states m ! i));
                  m = update_state i (\<lambda>s. s\<lparr>dr_failure_log := l\<rparr>) m
              in case recovered of
                   None \<Rightarrow> Some m
                 | Some stats \<Rightarrow> Some (log_record (DeviceRecovered (device_addr (sm_devices m ! i))
                     (fs_duration stats) (fs_timeouts stats) (fs_bad_frames stats)) m))"

definition log_unattributed_recovery :: "nat \<Rightarrow> serial_manager \<Rightarrow> serial_manager" where
  "log_unattributed_recovery now m =
     (let (recovered, l) = failure_recover now (sm_unattributed_failure_log m);
          m = m\<lparr>sm_unattributed_failure_log := l\<rparr>
      in case recovered of
           None \<Rightarrow> m
         | Some stats \<Rightarrow> log_record (ForwardRecovered (fs_duration stats) (fs_bad_frames stats)) m)"

definition log_query_retry_success ::
  "nat \<Rightarrow> query_failure \<Rightarrow> nat \<Rightarrow> serial_manager \<Rightarrow> serial_manager option" where
  "log_query_retry_success i first_failure now m =
     (if length (sm_states m) \<le> i \<or> length (sm_devices m) \<le> i then None
      else Some (update_state i (\<lambda>s. s\<lparr>dr_query_retry_log :=
             snd (record_retry_success (failure_kind first_failure) now (dr_query_retry_log s))\<rparr>) m))"

definition acquisition_open :: "serial_manager \<Rightarrow> device_runtime \<Rightarrow> bool" where
  "acquisition_open m s \<longleftrightarrow> sm_enabled m \<and> dr_is_enabled s \<and> dr_read_enabled s"

definition handle_valid_packet ::
  "nat \<Rightarrow> string \<Rightarrow> data_packet \<Rightarrow> bytes \<Rightarrow> serial_manager \<Rightarrow> serial_manager option" where
  "handle_valid_packet now utc packet frame m =
     (let i = sm_index m
      in if sm_enabled m \<and> length (sm_states m) \<le> i then None
         else if \<not> sm_enabled m \<or> \<not> acquisition_open m (sm_states m ! i)
         then Some (send_zero_status_for_index i (sm_enabled m \<and> sm_port m) False m)
         else map_option (\<lambda>m.
             let m = log_unattributed_recovery now m;
                 m = update_state i (\<lambda>s. s\<lparr>dr_timeout_count := 0, dr_parse_fail_count := 0,
                       dr_last_data_at := Some utc\<rparr>) m;
                 m = m\<lparr>sm_time_out_count := 0, sm_parse_fail_count := 0\<rparr>
             in publish_status i (sm_devices m ! i) True True (dp_status packet) frame m)
           (log_device_recovery now m))"

definition extract_frame :: "bytes \<Rightarrow> serial_manager \<Rightarrow> (bytes \<times> bool) \<times> serial_manager" where
  "extract_frame raw m =
     (let forwarded =
            (if accepts_forwarded (sm_current_run m) (sm_run_on m)
             then Option.bind (validated_forward_data_start raw) (\<lambda>data_start.
                    map_option (Pair data_start) (device_position (raw ! 0) (sm_devices m)))
             else None);
          m = (if sm_current_run m = Primary \<and> sm_run_on m = Secondary \<and> forwarded \<noteq> None
               then switch_role Secondary ForwardedFrameSeen m else m)
      in if sm_current_run m = Secondary
         then case forwarded of
             Some (data_start, i) \<Rightarrow>
               (let data = drop data_start raw;
                    effective_len = (if 4 \<le> length data then min (unat (data ! 2) + 5) (length data) else length data)
                in ((take effective_len data, True), m\<lparr>sm_index := i\<rparr>))
           | None \<Rightarrow> ((raw, False), m)
         else ((raw, True), m))"

datatype receive_outcome = Success | Retryable query_failure | TransportHandled | UnattributedHandled

text \<open>
  One attempt: the time at its start and when the read loop begins, the reads, a reconnection if one
  is made, and the time and its text when the frame is handled.
\<close>

record attempt_env =
  av_start :: nat
  av_started :: nat
  av_read :: read_env
  av_open :: open_env
  av_now :: nat
  av_utc :: string

definition read_frame :: "attempt_env \<Rightarrow> serial_manager \<Rightarrow> frame_read \<times> bytes" where
  "read_frame env m =
     (let budget = response_completion_budget (sm_devices m) (sm_index m) (sc_baud_rate (sm_serial_config m));
          fc = \<lparr>fc_devices = sm_devices m, fc_index = sm_index m, fc_current_run = sm_current_run m,
                fc_run_on = sm_run_on m, fc_budget = budget\<rparr>;
          deadline = av_start env + sc_read_timeout (sm_serial_config m);
          pending = sm_rx_pending m
      in if pending = [] then assemble_frame (av_read env) fc 0 [] deadline False
         else assemble_frame (av_read env) fc 0 pending (max deadline (av_started env + budget)) True)"

definition handle_frame :: "attempt_env \<Rightarrow> bytes \<Rightarrow> serial_manager \<Rightarrow> (receive_outcome \<times> serial_manager) option" where
  "handle_frame env raw m =
     (if raw = [] then Some (Retryable QF_ReadTimeout, m)
      else let ((frame, attributed), m) = extract_frame raw m;
               m = (if sm_current_run m = Primary then m\<lparr>sm_rx_pending := []\<rparr> else m)
      in if \<not> attributed then Some (UnattributedHandled, handle_unattributed_frame (av_now env) frame m)
         else case parse_data_packet frame of
           Inr packet \<Rightarrow> map_option (Pair Success) (handle_valid_packet (av_now env) (av_utc env) packet frame m)
         | Inl reason \<Rightarrow> Some (Retryable (QF_BadFrame reason frame), m))"

definition receive_data_attempt ::
  "attempt_env \<Rightarrow> serial_manager \<Rightarrow> (receive_outcome \<times> serial_manager) option" where
  "receive_data_attempt env m =
     (let m = m\<lparr>sm_receive_sequence := sm_receive_sequence m + 1\<rparr>
      in if \<not> sm_port m then Some (TransportHandled, reconnect (av_open env) m)
         else case read_frame env m of
           (GotFrame raw, pending) \<Rightarrow> handle_frame env raw (m\<lparr>sm_rx_pending := pending\<rparr>)
         | (ReadTimedOut, pending) \<Rightarrow> Some (Retryable QF_ReadTimeout, m\<lparr>sm_rx_pending := pending\<rparr>)
         | (ReadFailed e, pending) \<Rightarrow>
             Some (TransportHandled,
               reconnect (av_open env)
                 ((log_record (ReadError (sm_index m) e) m)\<lparr>sm_port := False, sm_rx_pending := []\<rparr>)))"

definition receive_data :: "attempt_env \<Rightarrow> nat \<Rightarrow> serial_manager \<Rightarrow> serial_manager option" where
  "receive_data env now m =
     (case receive_data_attempt env m of
        None \<Rightarrow> None
      | Some (Retryable failure, m) \<Rightarrow> commit_query_failure failure now None True m
      | Some (_, m) \<Rightarrow> Some m)"

record query_env =
  qe_first :: attempt_env
  qe_send :: send_env
  qe_second :: attempt_env
  qe_now :: nat

definition resend_query ::
  "query_env \<Rightarrow> send_data \<Rightarrow> nat \<Rightarrow> query_failure \<Rightarrow> serial_manager \<Rightarrow> serial_manager option" where
  "resend_query env query query_index first_failure m =
     (let m = m\<lparr>sm_rx_pending := []\<rparr>;
          context = Some \<lparr>fx_attempts = 2, fx_first_failure = first_failure\<rparr>;
          (sent, taken, m) = manager_send_command (qe_send env) query m
      in if \<not> sent then commit_query_failure first_failure (qe_now env) context (sm_port m) m
         else case receive_data_attempt (qe_second env) m of
           None \<Rightarrow> None
         | Some (Success, m) \<Rightarrow>
             if sm_current_run m = Primary \<and> sm_index m = query_index
             then log_query_retry_success query_index first_failure (qe_now env) m else Some m
         | Some (Retryable final_failure, m) \<Rightarrow> commit_query_failure final_failure (qe_now env) context True m
         | Some (_, m) \<Rightarrow> Some m)"

definition receive_query_with_retry ::
  "query_env \<Rightarrow> send_data \<Rightarrow> u32 \<Rightarrow> serial_manager \<Rightarrow> serial_manager option" where
  "receive_query_with_retry env query retry_count m =
     (let query_index = sm_index m
      in if length (sm_devices m) \<le> query_index then Some m
         else case receive_data_attempt (qe_first env) m of
           None \<Rightarrow> None
         | Some (Retryable failure, m) \<Rightarrow>
             if retry_count = 0 \<or> sm_current_run m \<noteq> Primary \<or> sm_index m \<noteq> query_index
             then commit_query_failure failure (qe_now env) None True m
             else resend_query env query query_index failure m
         | Some (_, m) \<Rightarrow> Some m)"

section \<open>Version queries\<close>

definition schedule_station_version_query :: "u8 \<Rightarrow> serial_manager \<Rightarrow> serial_manager" where
  "schedule_station_version_query device m = m\<lparr>sm_versions := schedule_version device (sm_versions m)\<rparr>"

definition cancel_scheduled_station_version_query :: "u8 \<Rightarrow> serial_manager \<Rightarrow> serial_manager" where
  "cancel_scheduled_station_version_query device m = m\<lparr>sm_versions := cancel_version device (sm_versions m)\<rparr>"

definition schedule_configured_domestic_version_queries :: "u8 list \<Rightarrow> serial_manager \<Rightarrow> serial_manager" where
  "schedule_configured_domestic_version_queries devices m = fold schedule_station_version_query devices m"

datatype version_query_error =
    UnknownDevice | AcquisitionDisabled | StandbyGateway | PortNotOpen | QueryNotSent
  | VersionRejected version_reject | VersionReadFailed io_error

record version_env =
  ve_open :: open_env
  ve_send :: send_env
  ve_read :: "nat \<Rightarrow> nat \<Rightarrow> io_error + bytes"
  ve_now :: "nat \<Rightarrow> nat"
  ve_start :: nat
  ve_reopen :: open_env

definition quarantine_late_station_version_response :: "serial_manager \<Rightarrow> serial_manager" where
  "quarantine_late_station_version_response m = m\<lparr>sm_rx_pending := []\<rparr>"

definition version_exchange ::
  "version_env \<Rightarrow> u8 \<Rightarrow> serial_manager \<Rightarrow> (version_query_error + station_version_response) \<times> serial_manager" where
  "version_exchange env device m =
     (let m = prepare_automatic_query m;
          (sent, taken, m) = manager_send_command (ve_send env)
            \<lparr>sd_device_id = ucast device, sd_command = build_station_version_query device\<rparr> m
      in if \<not> sent then (Err QueryNotSent, if sm_port m then quarantine_late_station_version_response m else m)
         else let (result, quarantined) = version_receive (ve_read env) (ve_now env) (ve_start env)
                    (sc_read_timeout (sm_serial_config m)) (sc_baud_rate (sm_serial_config m));
                  m = m\<lparr>sm_rx_pending := []\<rparr>
         in case result of
              Inr r \<Rightarrow> (Ok r, m)
            | Inl (Rejected e) \<Rightarrow> (Err (VersionRejected e), m)
            | Inl (Transport e) \<Rightarrow>
                (let m = reconnect (ve_reopen env) (m\<lparr>sm_port := False\<rparr>)
                 in (Err (VersionReadFailed e), if sm_port m then quarantine_late_station_version_response m else m)))"

definition perform_station_version_query ::
  "version_env \<Rightarrow> u8 \<Rightarrow> serial_manager \<Rightarrow>
   ((version_query_error + station_version_response) \<times> serial_manager) option" where
  "perform_station_version_query env device m =
     (case device_position device (sm_devices m) of
        None \<Rightarrow> Some (Err UnknownDevice, m)
      | Some i \<Rightarrow>
          if sm_enabled m \<and> length (sm_states m) \<le> i then None
          else if \<not> sm_enabled m \<or> \<not> acquisition_open m (sm_states m ! i) then Some (Err AcquisitionDisabled, m)
          else if sm_current_run m \<noteq> Primary then Some (Err StandbyGateway, m)
          else let m = (if sm_port m then m else reconnect (ve_open env) m)
          in if \<not> sm_port m then Some (Err PortNotOpen, m)
             else Some (version_exchange env device m))"

end
