(* ===== verification/Serial_Invariant.thy ===== *)
theory Serial_Invariant
  imports Serial_Manager
begin

text \<open>
  What the manager of a port guarantees about the device states it shows: the cache and the
  subscribers agree, a device is shown as good only while it may be read and the port is open, and a
  closed or disabled port shows every device offline with zero values.
\<close>

section \<open>What is shown\<close>

text \<open>What a reader of a report sees; the raw frame differs between frames with the same data.\<close>

definition shown :: "device_status \<Rightarrow> u64 \<times> u8 \<times> string \<times> bool \<times> bool \<times> (string \<rightharpoonup> rcd_value)" where
  "shown st = (ds_id st, ds_device_id st, ds_com st, ds_com_status st, ds_device_status st, ds_value st)"

definition device_key :: "serial_manager \<Rightarrow> nat \<Rightarrow> string \<times> u8" where
  "device_key m i = (spc_port_number (sm_port_config m), device_addr (sm_devices m ! i))"

definition cached :: "serial_manager \<Rightarrow> nat \<Rightarrow> device_status option" where
  "cached m i = map_of (sm_cache m) (device_key m i)"

text \<open>The last report of a device that the subscribers were sent.\<close>

definition published :: "serial_manager \<Rightarrow> nat \<Rightarrow> device_status option" where
  "published m i = List.find (\<lambda>st. (ds_com st, ds_device_id st) = device_key m i) (rev (sm_broadcasts m))"

definition report_shown ::
  "serial_manager \<Rightarrow> nat \<Rightarrow> bool \<Rightarrow> bool \<Rightarrow> bytes \<Rightarrow> u64 \<times> u8 \<times> string \<times> bool \<times> bool \<times> (string \<rightharpoonup> rcd_value)" where
  "report_shown m i com_status device_status data =
     shown (device_report (spc_port_number (sm_port_config m)) (sm_devices m ! i) com_status device_status data [])"

text \<open>The part of a device's state that publication depends on.\<close>

definition pub :: "device_runtime \<Rightarrow> bytes \<times> bool option \<times> bool option \<times> bool \<times> bool" where
  "pub s = (dr_last_data s, dr_last_com_status s, dr_last_device_status s, dr_is_enabled s, dr_read_enabled s)"

text \<open>What a device's state remembers is what the cache and the subscribers have last been given.\<close>

definition device_seen :: "serial_manager \<Rightarrow> nat \<Rightarrow> bool" where
  "device_seen m i =
     (let s = sm_states m ! i
      in case dr_last_com_status s of
           None \<Rightarrow> dr_last_device_status s = None \<and> cached m i = None \<and> published m i = None
         | Some c \<Rightarrow> (case dr_last_device_status s of
             None \<Rightarrow> False
           | Some v \<Rightarrow> map_option shown (cached m i) = Some (report_shown m i c v (dr_last_data s))
               \<and> map_option shown (published m i) = Some (report_shown m i c v (dr_last_data s))))"

text \<open>A device is shown as good only while it may be read; otherwise it is shown with zero values.\<close>

definition device_gate :: "serial_manager \<Rightarrow> nat \<Rightarrow> bool" where
  "device_gate m i =
     (let s = sm_states m ! i
      in (dr_last_device_status s = Some True \<longrightarrow> dr_last_com_status s = Some True \<and> acquisition_open m s)
       \<and> (dr_last_device_status s = Some False \<longrightarrow> dr_last_data s = zero_data (sm_devices m ! i)))"

definition offline :: "serial_manager \<Rightarrow> bool" where
  "offline m \<longleftrightarrow> (\<forall>s \<in> set (sm_states m). dr_last_com_status s = Some False \<and> dr_last_device_status s = Some False)"

text \<open>The invariant, without and with the connection.\<close>

definition seen_ok :: "serial_manager \<Rightarrow> bool" where
  "seen_ok m \<longleftrightarrow> btree_ok (sm_cache m) \<and> distinct (map device_addr (sm_devices m))
     \<and> length (sm_states m) = length (sm_devices m) \<and> (\<forall>i < length (sm_devices m). device_seen m i)"

definition shown_ok :: "serial_manager \<Rightarrow> bool" where
  "shown_ok m \<longleftrightarrow> seen_ok m \<and> (\<forall>i < length (sm_devices m). device_gate m i)"

definition manager_ok :: "serial_manager \<Rightarrow> bool" where
  "manager_ok m \<longleftrightarrow> shown_ok m \<and> (\<not> sm_port m \<longrightarrow> offline m) \<and> (sm_port_offline_published m \<longrightarrow> \<not> sm_port m)
     \<and> (\<not> sm_enabled m \<longrightarrow> \<not> sm_port m) \<and> (sm_devices m = [] \<or> sm_index m < length (sm_devices m))"

text \<open>The state of a manager whose handle has just been dropped.\<close>

definition dropped_ok :: "serial_manager \<Rightarrow> bool" where
  "dropped_ok m \<longleftrightarrow> shown_ok m \<and> \<not> sm_port m \<and> (sm_port_offline_published m \<or> \<not> sm_enabled m \<longrightarrow> offline m)
     \<and> (sm_devices m = [] \<or> sm_index m < length (sm_devices m))"

text \<open>What the three views of a device depend on.\<close>

lemma views_cong:
  assumes "sm_devices m = sm_devices m'"
    and "spc_port_number (sm_port_config m) = spc_port_number (sm_port_config m')"
  shows "report_shown m = report_shown m'" and "sm_cache m = sm_cache m' \<Longrightarrow> cached m = cached m'"
    and "sm_broadcasts m = sm_broadcasts m' \<Longrightarrow> published m = published m'"
  by (intro ext, simp only: cached_def published_def device_key_def report_shown_def assms)+

section \<open>Changes that are not shown\<close>

type_synonym publication = "bytes \<times> bool option \<times> bool option \<times> bool \<times> bool"

definition view_part ::
  "serial_manager \<Rightarrow> publication list \<times> latest_status_cache \<times> device_status list \<times> serial_port_config" where
  "view_part m = (map pub (sm_states m), sm_cache m, sm_broadcasts m, sm_port_config m)"

definition visible_part :: "serial_manager \<Rightarrow> (publication list \<times> latest_status_cache \<times> device_status list
     \<times> serial_port_config) \<times> bool \<times> bool \<times> nat" where
  "visible_part m = (view_part m, sm_port m, sm_port_offline_published m, sm_index m)"

lemma map_pub_nth: "map pub xs = map pub ys \<Longrightarrow> i < length xs \<Longrightarrow> pub (xs ! i) = pub (ys ! i)"
  by (metis length_map nth_map)

lemma offline_pub: "offline m \<longleftrightarrow> (\<forall>(data, c, v, e, r) \<in> set (map pub (sm_states m)). c = Some False \<and> v = Some False)"
  by (auto simp: offline_def pub_def)

lemma device_seen_cong:
  assumes "dr_last_data (sm_states m ! i) = dr_last_data (sm_states m' ! i)"
    and "dr_last_com_status (sm_states m ! i) = dr_last_com_status (sm_states m' ! i)"
    and "dr_last_device_status (sm_states m ! i) = dr_last_device_status (sm_states m' ! i)"
    and "cached m i = cached m' i"
    and "published m i = published m' i" and "report_shown m i = report_shown m' i"
  shows "device_seen m i = device_seen m' i"
  using assms unfolding device_seen_def Let_def by (auto split: option.splits)

lemma view_part_cong:
  assumes "view_part m = view_part m'"
  shows "shown_ok m = shown_ok m'" and "seen_ok m = seen_ok m'" and "offline m = offline m'"
proof -
  have p: "map pub (sm_states m) = map pub (sm_states m')" "sm_cache m = sm_cache m'"
    "sm_broadcasts m = sm_broadcasts m'" "sm_port_config m = sm_port_config m'"
    using assms by (simp_all add: view_part_def)
  have l: "length (sm_states m) = length (sm_states m')" by (rule map_eq_imp_length_eq[OF p(1)])
  have k: "cached m = cached m'" "published m = published m'" "report_shown m = report_shown m'"
    using views_cong[of m m'] p by simp_all
  have "device_seen m i = device_seen m' i \<and> device_gate m i = device_gate m' i" if "i < length (sm_states m)" for i
    using map_pub_nth[OF p(1) that] device_seen_cong[of m i m'] k p(4)
    by (simp add: device_gate_def acquisition_open_def pub_def Let_def)
  with p l show "shown_ok m = shown_ok m'" "seen_ok m = seen_ok m'" by (auto simp: shown_ok_def seen_ok_def)
  show "offline m = offline m'" by (simp add: offline_pub p(1))
qed

lemma visible_part_cong:
  assumes "visible_part m = visible_part m'"
  shows "manager_ok m = manager_ok m'" and "dropped_ok m = dropped_ok m'"
proof -
  have v: "view_part m = view_part m'" "sm_port m = sm_port m'" "sm_index m = sm_index m'"
    "sm_port_offline_published m = sm_port_offline_published m'" "sm_port_config m = sm_port_config m'"
    using assms by (simp_all add: visible_part_def view_part_def)
  show "manager_ok m = manager_ok m'" "dropped_ok m = dropped_ok m'"
    using view_part_cong[OF v(1)] v(2-) by (simp_all add: manager_ok_def dropped_ok_def)
qed

lemma visible_log [simp]: "visible_part (log_record e m) = visible_part m"
  by (simp add: visible_part_def view_part_def log_record_def)

lemma visible_update_state:
  "(\<And>s. pub (f s) = pub s) \<Longrightarrow> visible_part (update_state i f m) = visible_part m"
  by (cases "i < length (sm_states m)") (simp_all add: visible_part_def view_part_def update_state_def map_update list_update_same_conv list_update_beyond)

section \<open>Publication\<close>

lemma shown_report [simp]: "shown (device_report port (sm_devices m ! i) c v data raw) = report_shown m i c v data"
  if "port = spc_port_number (sm_port_config m)"
  using that by (simp add: report_shown_def shown_def device_report_def)

lemma report_key [simp]: "ds_com (device_report p d c v data raw) = p"
  "ds_device_id (device_report p d c v data raw) = device_addr d"
  by (simp_all add: device_report_def)

lemma publish_fields [simp]:
  "sm_port_config (publish_status i d c v data raw m) = sm_port_config m"
  "sm_port (publish_status i d c v data raw m) = sm_port m"
  "sm_port_offline_published (publish_status i d c v data raw m) = sm_port_offline_published m"
  "sm_index (publish_status i d c v data raw m) = sm_index m"
  "sm_run_on (publish_status i d c v data raw m) = sm_run_on m"
  "sm_current_run (publish_status i d c v data raw m) = sm_current_run m"
  "length (sm_states (publish_status i d c v data raw m)) = length (sm_states m)"
  by (simp_all add: publish_status_def Let_def split: prod.splits)

lemma should_broadcast_pub:
  "should_broadcast data c v s = (b, s') \<Longrightarrow>
     pub s' = (data, Some c, Some v, dr_is_enabled s, dr_read_enabled s)
     \<and> (\<not> b \<longrightarrow> pub s' = pub s)"
  by (auto simp: should_broadcast_def pub_def Let_def split: if_splits)

lemma publish_pub:
  assumes "i < length (sm_states m)"
  shows "map pub (sm_states (publish_status i d c v data raw m)) = (map pub (sm_states m))
    [i := (data, Some c, Some v, dr_is_enabled (sm_states m ! i), dr_read_enabled (sm_states m ! i))]"
proof -
  obtain b s' where sb: "should_broadcast data c v (sm_states m ! i) = (b, s')" by fastforce
  with should_broadcast_pub[OF sb] assms show ?thesis
    by (simp add: publish_status_def Let_def map_update)
qed

lemma publish_nth_other:
  "j \<noteq> i \<Longrightarrow> sm_states (publish_status i d c v data raw m) ! j = sm_states m ! j"
  by (cases "should_broadcast data c v (sm_states m ! i)") (simp add: publish_status_def Let_def)

lemma device_key_inj:
  assumes "distinct (map device_addr (sm_devices m))" and "i < length (sm_devices m)" "j < length (sm_devices m)"
  shows "device_key m i = device_key m j \<longleftrightarrow> i = j"
  using assms by (auto simp: device_key_def distinct_conv_nth)

lemma device_key_publish [simp]: "device_key (publish_status i d c v data raw m) = device_key m"
  by (simp add: fun_eq_iff device_key_def)

lemma report_shown_publish [simp]: "report_shown (publish_status i d c v data raw m) = report_shown m"
  by (rule views_cong) simp_all

lemma publish_cached:
  assumes "btree_ok (sm_cache m)" and "distinct (map device_addr (sm_devices m))"
    and "i < length (sm_devices m)" and "j < length (sm_devices m)" and "d = sm_devices m ! i"
  shows "cached (publish_status i d c v data raw m) j =
    (if j = i then Some (device_report (spc_port_number (sm_port_config m)) d c v data raw) else cached m j)"
proof -
  have "sm_cache (publish_status i d c v data raw m) =
      cache_update (device_report (spc_port_number (sm_port_config m)) d c v data raw) (sm_cache m)"
    by (simp add: publish_status_def Let_def split: prod.splits)
  moreover have "(spc_port_number (sm_port_config m), device_addr d) = device_key m i"
    by (simp add: device_key_def assms(5))
  ultimately show ?thesis
    using device_key_inj[OF assms(2,4,3)] assms(1) by (simp add: cached_def map_of_cache_update)
qed

lemma publish_published:
  assumes "distinct (map device_addr (sm_devices m))" and "length (sm_states m) = length (sm_devices m)"
    and "i < length (sm_devices m)" and "j < length (sm_devices m)" and "d = sm_devices m ! i"
  shows "published (publish_status i d c v data raw m) j =
    (if j = i \<and> fst (should_broadcast data c v (sm_states m ! i))
     then Some (device_report (spc_port_number (sm_port_config m)) d c v data raw) else published m j)"
proof -
  have "(spc_port_number (sm_port_config m), device_addr d) = device_key m i"
    by (simp add: device_key_def assms(5))
  then show ?thesis
    using device_key_inj[OF assms(1,3,4)] assms(2,3)
    by (auto simp: published_def publish_status_def Let_def device_key_def split: prod.splits)
qed

lemma publish_seen:
  assumes "seen_ok m" and "i < length (sm_devices m)" and "d = sm_devices m ! i"
  shows "seen_ok (publish_status i d c v data raw m)" (is "seen_ok ?m")
proof -
  have ok: "btree_ok (sm_cache m)" "distinct (map device_addr (sm_devices m))"
    "length (sm_states m) = length (sm_devices m)" "\<forall>j < length (sm_devices m). device_seen m j"
    using assms(1) by (auto simp: seen_ok_def)
  obtain b s' where sb: "should_broadcast data c v (sm_states m ! i) = (b, s')" by fastforce
  note p = should_broadcast_pub[OF sb]
  have i: "pub (sm_states ?m ! i) = (data, Some c, Some v, dr_is_enabled (sm_states m ! i), dr_read_enabled (sm_states m ! i))"
    using publish_pub[of i m d c v data raw] assms(2) ok(3) by (metis length_map nth_list_update_eq nth_map publish_fields(7))
  have "device_seen ?m j" if j: "j < length (sm_devices m)" for j
  proof (cases "j = i")
    case False
    then have "device_seen ?m j = device_seen m j"
      by (intro device_seen_cong) (simp_all add: publish_nth_other publish_cached[OF ok(1,2) assms(2) j assms(3)]
          publish_published[OF ok(2,3) assms(2) j assms(3)])
    with ok(4) j show ?thesis by simp
  next
    case True
    have old: "map_option shown (published m i) = Some (report_shown m i c v data)" if "\<not> b"
    proof -
      have "device_seen m i" using ok(4) assms(2) by simp
      then show ?thesis using p that by (auto simp: device_seen_def pub_def Let_def split: option.splits)
    qed
    have "map_option shown (published ?m i) = Some (report_shown m i c v data)"
      using publish_published[OF ok(2,3) assms(2) assms(2) assms(3)] sb old assms(3) by auto
    moreover have "map_option shown (cached ?m i) = Some (report_shown m i c v data)"
      using publish_cached[OF ok(1,2) assms(2) assms(2) assms(3)] assms(3) by simp
    ultimately show ?thesis using i True by (simp add: device_seen_def pub_def Let_def)
  qed
  moreover have "btree_ok (sm_cache ?m)"
    using ok(1) by (simp add: publish_status_def Let_def cache_ok_update split: prod.splits)
  ultimately show ?thesis using ok(2,3) by (simp add: seen_ok_def)
qed

text \<open>The gate of the other devices does not change.\<close>

lemma publish_gate:
  assumes "length (sm_states m) = length (sm_devices m)" and "i < length (sm_devices m)"
  shows "j \<noteq> i \<Longrightarrow> device_gate (publish_status i d c v data raw m) j = device_gate m j"
    and "device_gate (publish_status i d c v data raw m) i \<longleftrightarrow>
      (if v then c \<and> acquisition_open m (sm_states m ! i) else data = zero_data (sm_devices m ! i))"
proof -
  let ?m = "publish_status i d c v data raw m"
  show "device_gate ?m j = device_gate m j" if "j \<noteq> i"
    by (simp add: device_gate_def publish_nth_other[OF that] acquisition_open_def)
  have "pub (sm_states ?m ! i) = (data, Some c, Some v, dr_is_enabled (sm_states m ! i), dr_read_enabled (sm_states m ! i))"
    using publish_pub[of i m d c v data raw] assms by (metis length_map nth_list_update_eq nth_map publish_fields(7))
  then show "device_gate ?m i \<longleftrightarrow>
      (if v then c \<and> acquisition_open m (sm_states m ! i) else data = zero_data (sm_devices m ! i))"
    by (auto simp: device_gate_def acquisition_open_def pub_def Let_def)
qed

section \<open>Zero reports\<close>

lemma zero_fields [simp]:
  "sm_port_config (send_zero_status_for_index i c v m) = sm_port_config m"
  "sm_port (send_zero_status_for_index i c v m) = sm_port m"
  "sm_port_offline_published (send_zero_status_for_index i c v m) = sm_port_offline_published m"
  "sm_index (send_zero_status_for_index i c v m) = sm_index m"
  "sm_run_on (send_zero_status_for_index i c v m) = sm_run_on m"
  "sm_current_run (send_zero_status_for_index i c v m) = sm_current_run m"
  "length (sm_states (send_zero_status_for_index i c v m)) = length (sm_states m)"
  by (simp_all add: send_zero_status_for_index_def split: option.splits)

lemma zero_seen: "seen_ok m \<Longrightarrow> seen_ok (send_zero_status_for_index i c v m)"
  by (auto simp: send_zero_status_for_index_def get_device_def publish_seen)

lemma zero_gate:
  assumes "length (sm_states m) = length (sm_devices m)"
  shows "j \<noteq> i \<Longrightarrow> device_gate (send_zero_status_for_index i c False m) j = device_gate m j"
    and "i < length (sm_devices m) \<Longrightarrow> device_gate (send_zero_status_for_index i c False m) i"
  using assms publish_gate[OF assms] by (auto simp: send_zero_status_for_index_def get_device_def)

lemma zero_pub:
  assumes "length (sm_states m) = length (sm_devices m)" and "i < length (sm_devices m)"
  shows "map pub (sm_states (send_zero_status_for_index i c v m)) = (map pub (sm_states m))
    [i := (zero_data (sm_devices m ! i), Some c, Some v, dr_is_enabled (sm_states m ! i), dr_read_enabled (sm_states m ! i))]"
  using assms by (simp add: send_zero_status_for_index_def get_device_def publish_pub)

text \<open>A zero report keeps the invariant, and closes an open gate.\<close>

lemma zero_shown:
  assumes "seen_ok m" and "\<And>j. j < length (sm_devices m) \<Longrightarrow> j \<noteq> i \<Longrightarrow> device_gate m j"
  shows "shown_ok (send_zero_status_for_index i c False m)"
proof -
  have l: "length (sm_states m) = length (sm_devices m)" using assms(1) by (simp add: seen_ok_def)
  have "device_gate (send_zero_status_for_index i c False m) j" if "j < length (sm_devices m)" for j
    using that assms(2) zero_gate(1)[OF l, of j i c] zero_gate(2)[OF l, of i c] by (cases "j = i") auto
  with zero_seen[OF assms(1)] show ?thesis by (simp add: shown_ok_def)
qed

definition is_offline :: "bytes \<times> bool option \<times> bool option \<times> bool \<times> bool \<Rightarrow> bool" where
  "is_offline p = (case p of (data, c, v, e, r) \<Rightarrow> c = Some False \<and> v = Some False)"

lemma offline_alt: "offline m \<longleftrightarrow> (\<forall>p \<in> set (map pub (sm_states m)). is_offline p)"
  by (auto simp: offline_pub is_offline_def)

lemma zero_offline: "offline m \<Longrightarrow> offline (send_zero_status_for_index i False False m)"
  by (auto simp: offline_def send_zero_status_for_index_def publish_status_def should_broadcast_def Let_def
      split: option.splits dest!: set_update_subset_insert[THEN subsetD])

lemma publish_all_fields [simp]:
  "sm_port_config (publish_all_offline m) = sm_port_config m" "sm_port (publish_all_offline m) = sm_port m"
  "sm_port_offline_published (publish_all_offline m) = sm_port_offline_published m"
  "sm_index (publish_all_offline m) = sm_index m" "sm_run_on (publish_all_offline m) = sm_run_on m"
  "sm_current_run (publish_all_offline m) = sm_current_run m"
proof -
  define P where "P x \<longleftrightarrow> sm_port_config x = sm_port_config m \<and> sm_port x = sm_port m
    \<and> sm_port_offline_published x = sm_port_offline_published m \<and> sm_index x = sm_index m
    \<and> sm_run_on x = sm_run_on m \<and> sm_current_run x = sm_current_run m" for x :: serial_manager
  have "P x \<Longrightarrow> P (fold (\<lambda>i. send_zero_status_for_index i False False) is x)" for "is" x
    by (induction "is" arbitrary: x) (auto simp: P_def)
  then have "P (publish_all_offline m)" by (simp add: publish_all_offline_def P_def)
  then show "sm_port_config (publish_all_offline m) = sm_port_config m" "sm_port (publish_all_offline m) = sm_port m"
    "sm_port_offline_published (publish_all_offline m) = sm_port_offline_published m"
    "sm_index (publish_all_offline m) = sm_index m" "sm_run_on (publish_all_offline m) = sm_run_on m"
    "sm_current_run (publish_all_offline m) = sm_current_run m"
    by (auto simp: P_def)
qed

text \<open>Whatever the gates were, afterwards every device is offline.\<close>

lemma publish_all_ok:
  assumes "seen_ok m"
  shows "shown_ok (publish_all_offline m)" and "offline (publish_all_offline m)"
proof -
  have "seen_ok (fold (\<lambda>i. send_zero_status_for_index i False False) [0..<n] m)
      \<and> sm_port_config (fold (\<lambda>i. send_zero_status_for_index i False False) [0..<n] m) = sm_port_config m
      \<and> (\<forall>j < n. device_gate (fold (\<lambda>i. send_zero_status_for_index i False False) [0..<n] m) j
           \<and> is_offline (pub (sm_states (fold (\<lambda>i. send_zero_status_for_index i False False) [0..<n] m) ! j)))"
    if "n \<le> length (sm_devices m)" for n
    using that
  proof (induction n)
    case (Suc n)
    let ?x = "fold (\<lambda>i. send_zero_status_for_index i False False) [0..<n] m"
    have x: "seen_ok ?x" "sm_port_config ?x = sm_port_config m" "length (sm_states ?x) = length (sm_devices ?x)"
      "n < length (sm_devices ?x)" and IH: "\<forall>j < n. device_gate ?x j \<and> is_offline (pub (sm_states ?x ! j))"
      using Suc by (auto simp: seen_ok_def)
    have p: "pub (sm_states (send_zero_status_for_index n False False ?x) ! j) =
        (if j = n then (zero_data (sm_devices ?x ! n), Some False, Some False, dr_is_enabled (sm_states ?x ! n),
           dr_read_enabled (sm_states ?x ! n)) else pub (sm_states ?x ! j))" if "j \<le> n" for j
      using arg_cong[OF zero_pub[OF x(3,4), of False False], of "\<lambda>xs. xs ! j"] x(3,4) that by auto
    have "device_gate (send_zero_status_for_index n False False ?x) j
        \<and> is_offline (pub (sm_states (send_zero_status_for_index n False False ?x) ! j))" if "j < Suc n" for j
      using zero_gate(1)[OF x(3), of j n False] zero_gate(2)[OF x(3,4), of False] x(4) IH p[of j] that
      by (cases "j = n") (auto simp: is_offline_def)
    with zero_seen[OF x(1), of n False False] x(2) show ?case by simp
  qed (use assms in simp)
  from this[OF order.refl] have r: "seen_ok (publish_all_offline m)"
    "\<forall>j < length (sm_devices m). device_gate (publish_all_offline m) j \<and> is_offline (pub (sm_states (publish_all_offline m) ! j))"
    by (simp_all add: publish_all_offline_def)
  then show "shown_ok (publish_all_offline m)" by (simp add: shown_ok_def)
  show "offline (publish_all_offline m)"
    using r by (auto simp: offline_alt in_set_conv_nth seen_ok_def)
qed

end
