(* ===== verification/Serial_Worker.thy ===== *)
theory Serial_Worker
  imports Serial_Manager
begin

text \<open>
  The worker of a serial port (\<open>src/src/serial/worker.rs\<close>): the commands it takes from its channel, the
  queue of control commands, the primary and standby polling cycles, and one pass of its loop. What
  the operations service answers and what the driver does are parameters, one record per operation.
  A transaction runs on the manager through the lines of \<open>Command_Transaction\<close>: the answers of the line
  are computed by the manager's own send and acknowledgement operations.
\<close>

section \<open>State\<close>

definition MAX_COMMANDS_PER_CYCLE :: nat where "MAX_COMMANDS_PER_CYCLE = 1024"
definition DEVICE_TIMEOUT_SKIP :: u32 where "DEVICE_TIMEOUT_SKIP = 3"
definition DEVICE_SKIP_ROUNDS :: u32 where "DEVICE_SKIP_ROUNDS = 10"

record queued_command =
  qc_data :: send_data
  qc_report_ack :: bool
  qc_ack_id :: "u64 option"
  qc_expires_at :: "nat option"
  qc_permit :: bool

text \<open>The manager, its command queue, the tracker, the acknowledgement updates sent, the system state,
  the replies to control requests and the permits given back.\<close>

record worker =
  wk_manager :: serial_manager
  wk_queue :: "queued_command list"
  wk_tracker :: tracker_state
  wk_updates :: "command_ack_update list"
  wk_system :: system_state
  wk_replies :: "(u64 \<times> (string + unit)) list"
  wk_completed :: "(u64 \<times> (string + unit)) list"

text \<open>Whether there is an operations service, and the text of the current time.\<close>

record worker_ctx =
  wx_operations :: bool
  wx_utc :: string

abbreviation wk_port :: "worker \<Rightarrow> string" where
  "wk_port w \<equiv> spc_port_number (sm_port_config (wk_manager w))"

definition on_manager :: "(serial_manager \<Rightarrow> serial_manager) \<Rightarrow> worker \<Rightarrow> worker" where
  "on_manager f w = w\<lparr>wk_manager := f (wk_manager w)\<rparr>"

text \<open>\<open>operations.command_tracker().update(port, ack, change)\<close>, and the acknowledgement state of a command
  (\<open>send_ack_status\<close>).\<close>

definition track_command :: "worker_ctx \<Rightarrow> u64 option \<Rightarrow> (snapshot \<Rightarrow> snapshot) \<Rightarrow> worker \<Rightarrow> worker" where
  "track_command cx ack change w =
     (if wx_operations cx then w\<lparr>wk_tracker := update (wx_utc cx) (wk_port w) ack change (wk_tracker w)\<rparr> else w)"

definition report_ack_status :: "worker_ctx \<Rightarrow> u64 option \<Rightarrow> command_ack_status \<Rightarrow> worker \<Rightarrow> worker" where
  "report_ack_status cx ack status w =
     (let w = track_command cx ack (ack_change status) w
      in w\<lparr>wk_updates := wk_updates w @ [\<lparr>cau_com = wk_port w, cau_ack_id = ack, cau_status = status\<rparr>]\<rparr>)"

section \<open>Rejection\<close>

definition fail_change :: "string \<Rightarrow> snapshot \<Rightarrow> snapshot" where
  "fail_change reason v = v\<lparr>phase := ''Failed'', snap_error := reason\<rparr>"

definition shutdown_change :: "snapshot \<Rightarrow> snapshot" where
  "shutdown_change v = (if terminal v then v else fail_change ''worker_shutdown_before_send'' v)"

definition reject_command :: "worker_ctx \<Rightarrow> string \<Rightarrow> u64 option \<Rightarrow> bool \<Rightarrow> worker \<Rightarrow> worker" where
  "reject_command cx reason ack report_ack w =
     (let w = track_command cx ack (fail_change reason) w
      in if report_ack then report_ack_status cx ack Ack_Failed w else w)"

definition reject_reason :: "serial_manager \<Rightarrow> u32 \<Rightarrow> string option option" where
  "reject_reason m device =
     (case List.find (\<lambda>i. ucast (device_addr (sm_devices m ! i)) = device) [0..<length (sm_devices m)] of
        None \<Rightarrow> Some (if sm_enabled m then None else Some ''port_disabled'')
      | Some i \<Rightarrow>
          if length (sm_states m) \<le> i then None
          else Some (if \<not> sm_enabled m then Some ''port_disabled''
                     else if \<not> dr_is_enabled (sm_states m ! i) then Some ''device_disabled'' else None))"

definition enqueue_or_reject_command ::
  "worker_ctx \<Rightarrow> send_data \<Rightarrow> bool \<Rightarrow> u64 option \<Rightarrow> nat option \<Rightarrow> bool \<Rightarrow> worker \<Rightarrow> worker option" where
  "enqueue_or_reject_command cx data report_ack ack expires_at permit w =
     (case reject_reason (wk_manager w) (sd_device_id data) of
        None \<Rightarrow> None
      | Some (Some reason) \<Rightarrow> Some (reject_command cx reason ack report_ack w)
      | Some None \<Rightarrow> Some (w\<lparr>wk_queue := wk_queue w @
          [\<lparr>qc_data = data, qc_report_ack = report_ack, qc_ack_id = ack, qc_expires_at = expires_at, qc_permit = permit\<rparr>]\<rparr>))"

definition targets :: "u32 option \<Rightarrow> queued_command \<Rightarrow> bool" where
  "targets target c = (case target of None \<Rightarrow> True | Some d \<Rightarrow> sd_device_id (qc_data c) = d)"

definition reject_queued_commands :: "worker_ctx \<Rightarrow> u32 option \<Rightarrow> string \<Rightarrow> worker \<Rightarrow> worker" where
  "reject_queued_commands cx target reason w =
     (let rejected = filter (targets target) (wk_queue w);
          w = w\<lparr>wk_queue := filter (\<lambda>c. \<not> targets target c) (wk_queue w)\<rparr>
      in fold (\<lambda>c. reject_command cx reason (qc_ack_id c) (qc_report_ack c)) rejected w)"

definition reply_control :: "u64 option \<Rightarrow> string + unit \<Rightarrow> worker \<Rightarrow> worker" where
  "reply_control receipt outcome w =
     (case receipt of None \<Rightarrow> w | Some number \<Rightarrow> w\<lparr>wk_replies := wk_replies w @ [(number, outcome)]\<rparr>)"

definition complete_control :: "worker_ctx \<Rightarrow> u64 option \<Rightarrow> string + unit \<Rightarrow> worker \<Rightarrow> worker" where
  "complete_control cx receipt outcome w =
     (case receipt of
        None \<Rightarrow> w
      | Some number \<Rightarrow>
          reply_control receipt outcome
            (if wx_operations cx then w\<lparr>wk_completed := wk_completed w @ [(number, outcome)]\<rparr> else w))"

definition reject_incoming_command :: "worker_ctx \<Rightarrow> command \<Rightarrow> worker \<Rightarrow> worker" where
  "reject_incoming_command cx c w =
     (let w = (case cmd_command c of
            SendData _ \<Rightarrow> track_command cx (cmd_ack_id c) shutdown_change w
          | SendDataWithAck _ \<Rightarrow>
              report_ack_status cx (cmd_ack_id c) Ack_Failed (track_command cx (cmd_ack_id c) shutdown_change w)
          | _ \<Rightarrow> w)
      in complete_control cx (cmd_control_receipt c) (Err ''serial worker shut down before applying control'') w)"

definition reject_incoming_commands :: "worker_ctx \<Rightarrow> command list \<Rightarrow> worker \<Rightarrow> worker" where
  "reject_incoming_commands cx cs w = fold (reject_incoming_command cx) cs w"

section \<open>Incoming commands\<close>

text \<open>
  What the operations service and the driver answer while one command is processed: whether the control
  request is still current, which devices are domestic, which are queried at start-up, the result of
  storing a version, the reconnection of a port that is switched on, the version query.
\<close>

record incoming_env =
  ie_current :: bool
  ie_domestic :: "u8 \<Rightarrow> bool"
  ie_startup :: "u8 list"
  ie_report :: "version_query_error + station_version_response \<Rightarrow> string + unit"
  ie_open :: open_env
  ie_now :: nat
  ie_version :: version_env

definition apply_port_status :: "worker_ctx \<Rightarrow> incoming_env \<Rightarrow> bool \<Rightarrow> worker \<Rightarrow> (string + unit) \<times> worker" where
  "apply_port_status cx env on w =
     (let previous = sm_enabled (wk_manager w);
          (outcome, m) = set_port_enabled (ie_open env) (ie_now env) on (wk_manager w);
          w = w\<lparr>wk_manager := m\<rparr>;
          w = (if previous = on then w
               else if on then on_manager (\<lambda>m. log_record PortEnabled
                 (if wx_operations cx then schedule_configured_domestic_version_queries (ie_startup env) m else m)) w
               else reject_queued_commands cx None ''port_disabled'' w);
          w = (case set_port_status (wk_port w) on (wk_system w) of Inr s \<Rightarrow> w\<lparr>wk_system := s\<rparr> | Inl e \<Rightarrow> w)
      in (outcome, w))"

definition set_device_enabled :: "bool \<Rightarrow> u8 \<Rightarrow> bool \<Rightarrow> nat \<Rightarrow> serial_manager \<Rightarrow> serial_manager" where
  "set_device_enabled domestic device on i m =
     (let previous = dr_is_enabled (sm_states m ! i);
          m = update_state i (\<lambda>s. s\<lparr>dr_is_enabled := on\<rparr>) m
      in if previous = on then m
         else if on then log_record (DeviceEnabled device i)
           (if domestic then schedule_station_version_query device m else m)
         else publish_device_disabled i m)"

definition matching_indexes :: "u8 \<Rightarrow> serial_manager \<Rightarrow> nat list" where
  "matching_indexes device m = filter (\<lambda>i. device_addr (sm_devices m ! i) = device) [0..<length (sm_devices m)]"

definition apply_device_setting :: "worker_ctx \<Rightarrow> incoming_env \<Rightarrow> u8 \<Rightarrow> bool \<Rightarrow> worker \<Rightarrow> worker option" where
  "apply_device_setting cx env device on w =
     (let m = wk_manager w; is = matching_indexes device m
      in if \<exists>i \<in> set is. length (sm_states m) \<le> i then None
         else let w = on_manager (fold (set_device_enabled (wx_operations cx \<and> ie_domestic env device) device on) is) w;
                  w = (if on then w else reject_queued_commands cx (Some (ucast device)) ''device_disabled'' w)
              in Some (case set_device_status (wk_port w) device on (wk_system w) of
                         Inr s \<Rightarrow> w\<lparr>wk_system := s\<rparr> | Inl e \<Rightarrow> w))"

definition apply_command :: "worker_ctx \<Rightarrow> incoming_env \<Rightarrow> command \<Rightarrow> worker \<Rightarrow> ((string + unit) \<times> worker) option" where
  "apply_command cx env c w =
     (case cmd_command c of
        SendData data \<Rightarrow>
          map_option (Pair (Ok ())) (enqueue_or_reject_command cx data False (cmd_ack_id c) (cmd_expires_at c) (cmd_permit c) w)
      | SendDataWithAck data \<Rightarrow>
          map_option (Pair (Ok ())) (enqueue_or_reject_command cx data True (cmd_ack_id c) (cmd_expires_at c) (cmd_permit c) w)
      | PortStatus on \<Rightarrow> Some (apply_port_status cx env on w)
      | DeviceSetting device on \<Rightarrow> map_option (Pair (Ok ())) (apply_device_setting cx env device on w)
      | DeviceReadSetting device on \<Rightarrow>
          map_option (\<lambda>(outcome, m). (outcome, w\<lparr>wk_manager :=
            (if on \<and> wx_operations cx \<and> ie_domestic env device then schedule_station_version_query device m else m)\<rparr>))
            (set_device_read_enabled device on (wk_manager w))
      | StationModuleTypeSetting device type \<Rightarrow>
          Some (Ok (), on_manager (if type = MT_Domestic then schedule_station_version_query device
                                   else cancel_scheduled_station_version_query device) w)
      | QueryStationVersion device \<Rightarrow>
          map_option (\<lambda>(result, m). (if wx_operations cx then ie_report env result
              else Err ''operations state is unavailable'', w\<lparr>wk_manager := m\<rparr>))
            (perform_station_version_query (ie_version env) device (wk_manager w)))"

definition process_command :: "worker_ctx \<Rightarrow> incoming_env \<Rightarrow> command \<Rightarrow> worker \<Rightarrow> worker option" where
  "process_command cx env c w =
     (if cmd_control_receipt c \<noteq> None \<and> \<not> (wx_operations cx \<and> ie_current env)
      then Some (reply_control (cmd_control_receipt c)
             (Err ''control request was superseded or invalidated; refresh status'') w)
      else map_option (\<lambda>(outcome, w). complete_control cx (cmd_control_receipt c) outcome w) (apply_command cx env c w))"

fun process_commands :: "worker_ctx \<Rightarrow> (incoming_env \<times> command) list \<Rightarrow> worker \<Rightarrow> worker option" where
  "process_commands cx [] w = Some w"
| "process_commands cx ((env, c) # cs) w = Option.bind (process_command cx env c w) (process_commands cx cs)"

text \<open>One pass takes at most \<open>MAX_COMMANDS_PER_CYCLE\<close> commands; the rest stays in the channel.\<close>

definition process_incoming_commands ::
  "worker_ctx \<Rightarrow> (incoming_env \<times> command) list \<Rightarrow> worker \<Rightarrow> ((incoming_env \<times> command) list \<times> worker) option" where
  "process_incoming_commands cx channel w =
     map_option (Pair (drop MAX_COMMANDS_PER_CYCLE channel))
       (process_commands cx (take MAX_COMMANDS_PER_CYCLE channel) w)"

section \<open>Execution of a queued command\<close>

text \<open>The line during the attempts of a transaction, and the clock at its checks.\<close>

record line_env =
  le_now :: nat
  le_popped :: nat
  le_completed :: nat
  le_clock :: "nat \<Rightarrow> nat"
  le_send :: "nat \<Rightarrow> send_env"
  le_ack :: "nat \<Rightarrow> ack_env"

definition passed :: "nat option \<Rightarrow> nat \<Rightarrow> bool" where
  "passed expires_at now = (case expires_at of None \<Rightarrow> False | Some d \<Rightarrow> d \<le> now)"

text \<open>Attempt \<open>i\<close>: what is sent, what comes back, and the manager afterwards.\<close>

definition line_attempt ::
  "line_env \<Rightarrow> send_data \<Rightarrow> nat \<Rightarrow> serial_manager \<Rightarrow> (bool \<times> (string + unit)) \<times> serial_manager" where
  "line_attempt le cmd i m =
     (let (sent, taken, m) = manager_send_command (le_send le i) cmd m
      in if sent then (let (r, m) = receive_command_ack_result (le_ack le i) m in ((True, r), m))
         else ((False, Err ''write_failed''), m))"

fun after_attempts :: "line_env \<Rightarrow> send_data \<Rightarrow> nat \<Rightarrow> serial_manager \<Rightarrow> serial_manager" where
  "after_attempts le cmd 0 m = m"
| "after_attempts le cmd (Suc i) m = snd (line_attempt le cmd (Suc i) (after_attempts le cmd i m))"

definition line_answer :: "line_env \<Rightarrow> send_data \<Rightarrow> serial_manager \<Rightarrow> nat \<Rightarrow> bool \<times> (string + unit)" where
  "line_answer le cmd m i = fst (line_attempt le cmd i (after_attempts le cmd (i - 1) m))"

definition transaction_env :: "worker_ctx \<Rightarrow> line_env \<Rightarrow> queued_command \<Rightarrow> worker \<Rightarrow> tx_env" where
  "transaction_env cx le c w =
     \<lparr>te_tracked = wx_operations cx, te_port = wk_port w,
      te_port_name = sc_port_name (sm_serial_config (wk_manager w)), te_ack = qc_ack_id c, te_now = wx_utc cx,
      te_expired = (\<lambda>i. passed (qc_expires_at c) (le_clock le i)),
      te_send = (\<lambda>i. fst (line_answer le (qc_data c) (wk_manager w) i)),
      te_reply = (\<lambda>i. snd (line_answer le (qc_data c) (wk_manager w) i))\<rparr>"

definition transaction_state :: "queued_command \<Rightarrow> worker \<Rightarrow> tx_state" where
  "transaction_state c w =
     \<lparr>tx_tracker = wk_tracker w, tx_updates = wk_updates w, tx_permit = qc_permit c, tx_sent = 0,
      tx_audit = audit_new (sc_port_name (sm_serial_config (wk_manager w))) (qc_data c) (qc_ack_id c) 0\<rparr>"

text \<open>The manager after the transaction: nothing was sent when it was expired, one frame without an
  acknowledgement, otherwise as many attempts as the transaction made.\<close>

definition manager_after :: "line_env \<Rightarrow> queued_command \<Rightarrow> bool \<Rightarrow> nat \<Rightarrow> serial_manager \<Rightarrow> serial_manager" where
  "manager_after le c expired attempts_made m =
     (if expired then m
      else if qc_report_ack c then after_attempts le (qc_data c) attempts_made m
      else snd (snd (manager_send_command (le_send le 1) (qc_data c) m)))"

definition run_transaction :: "worker_ctx \<Rightarrow> line_env \<Rightarrow> nat \<Rightarrow> queued_command \<Rightarrow> worker \<Rightarrow> worker" where
  "run_transaction cx le retry_count c w =
     (let env = transaction_env cx le c w;
          (done, st) = execute_queued_command env (qc_data c) (qc_report_ack c) retry_count (transaction_state c w)
      in w\<lparr>wk_manager := manager_after le c (te_expired env 0) (au_attempt_count (tx_audit st)) (wk_manager w),
           wk_tracker := tx_tracker st, wk_updates := tx_updates st\<rparr>)"

text \<open>\<open>None\<close>: no command is ready.\<close>

definition execute_next_ready_command ::
  "worker_ctx \<Rightarrow> line_env \<Rightarrow> nat \<Rightarrow> worker \<Rightarrow> bool option \<times> worker" where
  "execute_next_ready_command cx le retry_count w =
     (case wk_queue w of
        [] \<Rightarrow> (None, w)
      | c # rest \<Rightarrow>
          if \<not> passed (qc_expires_at c) (le_now le) \<and> \<not> pacing_ready (le_now le) (sm_pacing (wk_manager w))
          then (None, w)
          else let already_expired = passed (qc_expires_at c) (le_popped le);
                   w = run_transaction cx le retry_count c (w\<lparr>wk_queue := rest\<rparr>);
                   w = (if already_expired then w
                        else on_manager (\<lambda>m. m\<lparr>sm_pacing := pacing_completed (le_completed le) (sm_pacing m)\<rparr>) w)
               in (Some (qc_report_ack c), w))"

section \<open>Cycles\<close>

datatype cycle_result = Idle | QuerySent send_data | PassiveReceive | CommandHandled

definition poll_frame :: "device_config \<Rightarrow> bytes" where
  "poll_frame d =
     (let frame = [device_addr d, READ_STATUS, READ_SUBCMD, STATUS_PAGE, STATUS_OFFSET, cfg_data_len (dc_config d)]
      in frame @ [get_sum frame])"

definition poll_query :: "device_config \<Rightarrow> send_data" where
  "poll_query d = \<lparr>sd_device_id = ucast (device_addr d), sd_command = poll_frame d\<rparr>"

text \<open>The back-off of a silent device: \<open>None\<close> to skip its turn.\<close>

definition skip_turn :: "device_runtime \<Rightarrow> bool \<times> device_runtime" where
  "skip_turn s =
     (if DEVICE_TIMEOUT_SKIP < dr_timeout_count s then
        if DEVICE_SKIP_ROUNDS < dr_current_round s then (False, s\<lparr>dr_current_round := 0\<rparr>)
        else (True, s\<lparr>dr_current_round := dr_current_round s + 1\<rparr>)
      else (False, s))"

definition poll_device :: "send_env \<Rightarrow> serial_manager \<Rightarrow> (cycle_result \<times> serial_manager) option" where
  "poll_device env m =
     (let i = sm_index m
      in if sm_devices m = [] then Some (Idle, m)
         else if length (sm_states m) \<le> i then None
         else let (skip, s) = skip_turn (sm_states m ! i);
                  m = m\<lparr>sm_states := (sm_states m)[i := s]\<rparr>
         in if skip then Some (Idle, m)
            else if \<not> dr_is_enabled s \<or> \<not> dr_read_enabled s then Some (Idle, m)
            else if length (sm_devices m) \<le> i then None
            else let query = poll_query (sm_devices m ! i);
                     (sent, taken, m) = manager_send_command env query (prepare_automatic_query m)
                 in Some (if sent then QuerySent query else Idle, m))"

definition run_primary_cycle ::
  "worker_ctx \<Rightarrow> line_env \<Rightarrow> send_env \<Rightarrow> nat \<Rightarrow> worker \<Rightarrow> (cycle_result \<times> worker) option" where
  "run_primary_cycle cx le env retry_count w =
     (case execute_next_ready_command cx le retry_count w of
        (Some _, w) \<Rightarrow> Some (CommandHandled, w)
      | (None, w) \<Rightarrow> map_option (\<lambda>(r, m). (r, w\<lparr>wk_manager := m\<rparr>)) (poll_device env (wk_manager w)))"

definition run_secondary_cycle :: "worker_ctx \<Rightarrow> line_env \<Rightarrow> nat \<Rightarrow> worker \<Rightarrow> cycle_result \<times> worker" where
  "run_secondary_cycle cx le retry_count w =
     (case execute_next_ready_command cx le retry_count w of
        (Some True, w) \<Rightarrow> (CommandHandled, w)
      | (_, w) \<Rightarrow> (PassiveReceive, w))"

text \<open>The version query after a full scan; the operations service admits it or not.\<close>

datatype admission_answer = Admitted | NotNeeded | MaintenanceBusy | AdmissionFailed

definition execute_one_scheduled_station_version_query ::
  "bool \<Rightarrow> (u8 \<Rightarrow> admission_answer) \<Rightarrow> version_env \<Rightarrow> serial_manager \<Rightarrow>
   ((u8 \<times> (version_query_error + station_version_response)) option \<times> serial_manager) option" where
  "execute_one_scheduled_station_version_query operations admission env m =
     (case next_version (sm_versions m) of
        (None, q) \<Rightarrow> Some (None, m)
      | (Some device, q) \<Rightarrow>
          let m = m\<lparr>sm_versions := q\<rparr>
          in if \<not> operations then Some (None, m)
             else case admission device of
               Admitted \<Rightarrow> map_option (\<lambda>(result, m). (Some (device, result), m)) (perform_station_version_query env device m)
             | NotNeeded \<Rightarrow> Some (None, m)
             | MaintenanceBusy \<Rightarrow> Some (None, schedule_station_version_query device m)
             | AdmissionFailed \<Rightarrow> Some (None, m))"

record cycle_env =
  cy_line :: line_env
  cy_send :: send_env
  cy_query :: query_env
  cy_listen :: attempt_env
  cy_listened :: nat
  cy_admission :: "u8 \<Rightarrow> admission_answer"
  cy_version :: version_env

definition receive_after_cycle ::
  "cycle_env \<Rightarrow> u32 \<Rightarrow> cycle_result \<Rightarrow> serial_manager \<Rightarrow> serial_manager option" where
  "receive_after_cycle env query_retry_count r m =
     (case r of
        QuerySent query \<Rightarrow> receive_query_with_retry (cy_query env) query query_retry_count m
      | PassiveReceive \<Rightarrow> receive_data (cy_listen env) (cy_listened env) m
      | _ \<Rightarrow> Some m)"

definition advance_index :: "worker_ctx \<Rightarrow> cycle_env \<Rightarrow> cycle_result \<Rightarrow> serial_manager \<Rightarrow> serial_manager option" where
  "advance_index cx env r m =
     (if sm_current_run m = Primary \<and> r \<noteq> CommandHandled then
        if sm_devices m = [] then None
        else let m = m\<lparr>sm_index := (sm_index m + 1) mod length (sm_devices m)\<rparr>
             in if (case r of QuerySent _ \<Rightarrow> True | Idle \<Rightarrow> True | _ \<Rightarrow> False) \<and> sm_index m = 0
                then map_option snd (execute_one_scheduled_station_version_query (wx_operations cx) (cy_admission env) (cy_version env) m)
                else Some m
      else Some m)"

text \<open>One pass of the loop, after the incoming commands.\<close>

definition worker_cycle :: "worker_ctx \<Rightarrow> cycle_env \<Rightarrow> nat \<Rightarrow> u32 \<Rightarrow> worker \<Rightarrow> worker option" where
  "worker_cycle cx env command_retry_count query_retry_count w =
     (if \<not> sm_enabled (wk_manager w) \<or> sm_devices (wk_manager w) = [] then Some w
      else Option.bind
        (case sm_current_run (wk_manager w) of
           Primary \<Rightarrow> run_primary_cycle cx (cy_line env) (cy_send env) command_retry_count w
         | Secondary \<Rightarrow> Some (run_secondary_cycle cx (cy_line env) command_retry_count w))
        (\<lambda>(r, w). Option.bind (receive_after_cycle env query_retry_count r (wk_manager w)) (\<lambda>m.
          map_option (\<lambda>m. w\<lparr>wk_manager := m\<rparr>) (advance_index cx env r m))))"

definition worker_pass ::
  "worker_ctx \<Rightarrow> cycle_env \<Rightarrow> nat \<Rightarrow> u32 \<Rightarrow> (incoming_env \<times> command) list \<Rightarrow> worker \<Rightarrow> worker option" where
  "worker_pass cx env command_retry_count query_retry_count channel w =
     Option.bind (process_incoming_commands cx channel w)
       (\<lambda>(rest, w). worker_cycle cx env command_retry_count query_retry_count w)"

text \<open>What the supervisor does after a panic, before it runs the loop again.\<close>

definition restart_after_panic :: "worker_ctx \<Rightarrow> nat \<Rightarrow> u32 \<Rightarrow> open_env \<Rightarrow> u8 list \<Rightarrow> worker \<Rightarrow> worker" where
  "restart_after_panic cx now restart_count env startup w =
     (let w = on_manager (\<lambda>m. prepare_worker_restart now (log_record (WorkerPanicked restart_count) m)) w;
          w = reject_queued_commands cx None ''worker_panic'' w
      in on_manager (\<lambda>m. schedule_configured_domestic_version_queries (if wx_operations cx then startup else []) (reconnect env m)) w)"

text \<open>
  The start of a worker: the port's stored state and the control interval are set, the devices that are
  not to be read are switched off, and the version queries of the domestic devices are scheduled.
\<close>

fun switch_off_unread :: "(u8 \<Rightarrow> bool) \<Rightarrow> u8 list \<Rightarrow> serial_manager \<Rightarrow> serial_manager option" where
  "switch_off_unread readable [] m = Some m"
| "switch_off_unread readable (d # ds) m =
     (if readable d then switch_off_unread readable ds m
      else Option.bind (set_device_read_enabled d False m) (\<lambda>(r, m). switch_off_unread readable ds m))"

definition start_manager ::
  "open_env \<Rightarrow> serial_config \<Rightarrow> serial_port_config \<Rightarrow> latest_status_cache \<Rightarrow> run_location \<Rightarrow> run_location \<Rightarrow>
   bool \<Rightarrow> nat \<Rightarrow> (u8 \<Rightarrow> bool) \<Rightarrow> u8 list \<Rightarrow> serial_manager option" where
  "start_manager env conf pc cache run_on current_run port_on interval_ms readable startup =
     (let m = manager_new env conf (pc\<lparr>spc_status := port_on\<rparr>) cache run_on current_run;
          m = m\<lparr>sm_pacing := pacing_new (millis interval_ms)\<rparr>
      in map_option (schedule_configured_domestic_version_queries startup)
           (switch_off_unread readable (map device_addr (sm_devices m)) m))"

end
