(* ===== verification/Serial_Runs.thy ===== *)
theory Serial_Runs
  imports Serial_Invariant Serial_Worker
begin

text \<open>
  The operations of a port manager, and those of its worker that change devices, keep the invariant of
  \<open>Serial_Invariant\<close>, never index out of range, and change neither the configuration nor, on a gateway
  configured as primary, the role.
\<close>

section \<open>Configuration and role\<close>

text \<open>
  What no operation changes: the devices, the port, the configured role. The role in force changes only
  on a gateway configured as standby. On a gateway configured and acting as primary, only the worker's
  own scan moves the index.
\<close>

definition keeps_config :: "serial_manager \<Rightarrow> serial_manager \<Rightarrow> bool" where
  "keeps_config m m' \<longleftrightarrow> sm_devices m' = sm_devices m \<and> sm_run_on m' = sm_run_on m
     \<and> spc_port_number (sm_port_config m') = spc_port_number (sm_port_config m)
     \<and> (sm_current_run m' \<noteq> sm_current_run m \<longrightarrow> sm_run_on m = Secondary)"

definition keeps :: "serial_manager \<Rightarrow> serial_manager \<Rightarrow> bool" where
  "keeps m m' \<longleftrightarrow> sm_devices m' = sm_devices m \<and> sm_run_on m' = sm_run_on m
     \<and> spc_port_number (sm_port_config m') = spc_port_number (sm_port_config m)
     \<and> (sm_current_run m' \<noteq> sm_current_run m \<longrightarrow> sm_run_on m = Secondary)
     \<and> (sm_run_on m = Primary \<longrightarrow> sm_current_run m = Primary \<longrightarrow> sm_index m' = sm_index m)"

lemma keeps_refl [simp]: "keeps m m" "keeps_config m m"
  by (simp_all add: keeps_def keeps_config_def)

lemma keeps_trans: "keeps a b \<Longrightarrow> keeps b c \<Longrightarrow> keeps a c"
  by (auto simp: keeps_def)

lemma keeps_config_trans: "keeps_config a b \<Longrightarrow> keeps_config b c \<Longrightarrow> keeps_config a c"
  by (auto simp: keeps_config_def)

lemma keeps_config: "keeps a b \<Longrightarrow> keeps_config a b"
  by (simp add: keeps_def keeps_config_def)

lemma keeps_devices: "keeps m m' \<Longrightarrow> sm_devices m' = sm_devices m"
  by (simp add: keeps_def)

lemma log_fields [simp]:
  "sm_port_config (log_record e m) = sm_port_config m" "sm_port (log_record e m) = sm_port m"
  "sm_port_offline_published (log_record e m) = sm_port_offline_published m"
  "sm_index (log_record e m) = sm_index m" "sm_run_on (log_record e m) = sm_run_on m"
  "sm_current_run (log_record e m) = sm_current_run m" "sm_states (log_record e m) = sm_states m"
  "sm_cache (log_record e m) = sm_cache m" "sm_broadcasts (log_record e m) = sm_broadcasts m"
  by (simp_all add: log_record_def)

lemma update_state_fields [simp]:
  "sm_port_config (update_state i f m) = sm_port_config m" "sm_port (update_state i f m) = sm_port m"
  "sm_port_offline_published (update_state i f m) = sm_port_offline_published m"
  "sm_index (update_state i f m) = sm_index m" "sm_run_on (update_state i f m) = sm_run_on m"
  "sm_current_run (update_state i f m) = sm_current_run m"
  "length (sm_states (update_state i f m)) = length (sm_states m)"
  "sm_time_out_count (update_state i f m) = sm_time_out_count m"
  "sm_parse_fail_count (update_state i f m) = sm_parse_fail_count m"
  "sm_cache (update_state i f m) = sm_cache m" "sm_broadcasts (update_state i f m) = sm_broadcasts m"
  by (simp_all add: update_state_def)

lemma manager_okD:
  assumes "manager_ok m"
  shows "shown_ok m" "seen_ok m" "length (sm_states m) = length (sm_devices m)"
    "\<not> sm_port m \<Longrightarrow> offline m" "sm_port_offline_published m \<Longrightarrow> \<not> sm_port m" "\<not> sm_enabled m \<Longrightarrow> \<not> sm_port m"
    "sm_devices m = [] \<or> sm_index m < length (sm_devices m)"
  using assms by (auto simp: manager_ok_def shown_ok_def seen_ok_def)

lemma ok_log [simp]: "manager_ok (log_record e m) = manager_ok m"
  by (rule visible_part_cong) simp

lemma ok_update_state: "(\<And>s. pub (f s) = pub s) \<Longrightarrow> manager_ok (update_state i f m) = manager_ok m"
  by (rule visible_part_cong) (rule visible_update_state)

text \<open>The other fields that the invariant does not read.\<close>

lemma ok_hidden [simp]:
  "manager_ok (m\<lparr>sm_rx_pending := x\<rparr>) = manager_ok m"
  "manager_ok (m\<lparr>sm_time_out_count := t\<rparr>) = manager_ok m"
  "manager_ok (m\<lparr>sm_parse_fail_count := t\<rparr>) = manager_ok m"
  "manager_ok (m\<lparr>sm_unattributed_failure_log := l\<rparr>) = manager_ok m"
  "manager_ok (m\<lparr>sm_receive_sequence := w\<rparr>) = manager_ok m"
  "manager_ok (m\<lparr>sm_pacing := c\<rparr>) = manager_ok m"
  "manager_ok (m\<lparr>sm_versions := q\<rparr>) = manager_ok m"
  by (rule visible_part_cong, simp add: visible_part_def view_part_def)+

section \<open>Connection\<close>

lemma offline_once_fields [simp]:
  "sm_port_config (publish_port_offline_once m) = sm_port_config m"
  "sm_port (publish_port_offline_once m) = sm_port m" "sm_port_offline_published (publish_port_offline_once m)"
  "sm_index (publish_port_offline_once m) = sm_index m" "sm_run_on (publish_port_offline_once m) = sm_run_on m"
  "sm_current_run (publish_port_offline_once m) = sm_current_run m"
  by (simp_all add: publish_port_offline_once_def)

lemma offline_once_ok:
  assumes "shown_ok m" and "sm_port_offline_published m \<Longrightarrow> offline m"
  shows "shown_ok (publish_port_offline_once m)" and "offline (publish_port_offline_once m)"
proof -
  have "seen_ok (m\<lparr>sm_port_offline_published := True\<rparr>) = seen_ok m"
    by (rule view_part_cong) (simp add: view_part_def)
  then show "shown_ok (publish_port_offline_once m)" "offline (publish_port_offline_once m)"
    using assms publish_all_ok by (auto simp: publish_port_offline_once_def shown_ok_def)
qed

lemma reconnect_keeps: "keeps m (reconnect env m)"
  by (auto simp: reconnect_def keeps_def Let_def split: prod.splits option.splits log_action.splits)

lemma keeps_reconnect: "keeps a m \<Longrightarrow> keeps a (reconnect env m)"
  by (rule keeps_trans[OF _ reconnect_keeps])

lemma reconnect_index [simp]: "sm_index (reconnect env m) = sm_index m"
  by (auto simp: reconnect_def Let_def split: prod.splits option.splits log_action.splits)

lemma reconnect_config [simp]: "sm_port_config (reconnect env m) = sm_port_config m"
  by (auto simp: reconnect_def Let_def split: prod.splits option.splits log_action.splits)

text \<open>A reconnection of an enabled port starts with publishing it offline, and then only touches the
  handle, the logs and the flag.\<close>

lemma reconnect_enabled:
  assumes "sm_enabled m"
  shows "view_part (reconnect env m) = view_part (publish_port_offline_once m)"
    and "sm_port_offline_published (reconnect env m) \<Longrightarrow> sm_port (reconnect env m) \<Longrightarrow> sm_port m"
  using assms
  by (auto simp: reconnect_def Let_def view_part_def split: prod.splits option.splits log_action.splits if_splits)

lemma reconnect_ok:
  assumes "dropped_ok m"
  shows "manager_ok (reconnect env m)"
proof (cases "sm_enabled m")
  case False
  then have "visible_part (reconnect env m) = visible_part m"
    using assms by (simp add: reconnect_def dropped_ok_def visible_part_def view_part_def)
  then have "manager_ok (reconnect env m) = manager_ok m" by (rule visible_part_cong)
  with assms False show ?thesis by (auto simp: manager_ok_def dropped_ok_def)
next
  case True
  have p: "shown_ok (publish_port_offline_once m)" "offline (publish_port_offline_once m)"
    using assms offline_once_ok[of m] by (auto simp: dropped_ok_def)
  have "shown_ok (reconnect env m)" "offline (reconnect env m)"
    using p view_part_cong[OF reconnect_enabled(1)[OF True]] by simp_all
  with True assms reconnect_enabled(2)[OF True, of env] show ?thesis by (auto simp: manager_ok_def dropped_ok_def)
qed

lemma dropped_okI:
  assumes "manager_ok m"
  shows "dropped_ok (m\<lparr>sm_port := False, sm_rx_pending := x\<rparr>)" and "dropped_ok (m\<lparr>sm_port := False\<rparr>)"
proof -
  note v = view_part_cong[of "m\<lparr>sm_port := False, sm_rx_pending := x\<rparr>" m] view_part_cong[of "m\<lparr>sm_port := False\<rparr>" m]
  show "dropped_ok (m\<lparr>sm_port := False, sm_rx_pending := x\<rparr>)" "dropped_ok (m\<lparr>sm_port := False\<rparr>)"
    using assms v by (auto simp: dropped_ok_def manager_ok_def view_part_def)
qed

lemma dropped_ok_closed: "manager_ok m \<Longrightarrow> \<not> sm_port m \<Longrightarrow> dropped_ok m"
  by (auto simp: dropped_ok_def manager_ok_def)

lemma closed_reconnect_ok: "manager_ok m \<Longrightarrow> \<not> sm_port m \<Longrightarrow> manager_ok (reconnect env m)"
  by (intro reconnect_ok dropped_ok_closed)

lemma restart_ok: "manager_ok m \<Longrightarrow> manager_ok (prepare_worker_restart now m)"
proof -
  assume m: "manager_ok m"
  let ?m = "m\<lparr>sm_pacing := pacing_completed now (sm_pacing m), sm_port := False, sm_rx_pending := []\<rparr>"
  have v: "shown_ok ?m = shown_ok m" "offline ?m = offline m"
    by (rule view_part_cong, simp add: view_part_def)+
  have "shown_ok (publish_port_offline_once ?m)" "offline (publish_port_offline_once ?m)"
    using offline_once_ok[of ?m] m v by (simp_all add: manager_ok_def)
  then show ?thesis
    using m by (simp add: prepare_worker_restart_def manager_ok_def)
qed

text \<open>A port that is switched off is published offline; one that is switched on is reconnected.\<close>

lemma set_port_enabled_ok:
  assumes "manager_ok m"
  shows "manager_ok (snd (set_port_enabled env now enabled m))"
    and "keeps m (snd (set_port_enabled env now enabled m))"
proof -
  let ?m = "m\<lparr>sm_port_config := (sm_port_config m)\<lparr>spc_status := enabled\<rparr>\<rparr>"
  have seen: "seen_ok (?m\<lparr>sm_port := p, sm_rx_pending := x\<rparr>)" for p x
  proof -
    have "device_seen (?m\<lparr>sm_port := p, sm_rx_pending := x\<rparr>) i = device_seen m i" for i
      using views_cong[of "?m\<lparr>sm_port := p, sm_rx_pending := x\<rparr>" m] by (intro device_seen_cong) simp_all
    with manager_okD(2)[OF assms] show ?thesis by (simp add: seen_ok_def)
  qed
  have gate: "device_gate ?m i" if "i < length (sm_devices m)" enabled for i
    using manager_okD(1)[OF assms] that by (auto simp: shown_ok_def device_gate_def acquisition_open_def Let_def)
  have shown: "shown_ok ?m" if enabled using gate[OF _ that] seen[where p = "sm_port m" and x = "sm_rx_pending m"] by (simp add: shown_ok_def)
  show "keeps m (snd (set_port_enabled env now enabled m))"
    using reconnect_keeps[of "?m\<lparr>sm_last_reconnect := now - RECONNECT_COOLDOWN\<rparr>" env]
    by (auto simp: set_port_enabled_def Let_def keeps_def publish_port_disabled_def)
  show "manager_ok (snd (set_port_enabled env now enabled m))"
  proof (cases enabled)
    case False
    let ?x = "?m\<lparr>sm_port := False, sm_rx_pending := []\<rparr>"
    have "manager_ok (publish_all_offline ?x)"
      using publish_all_ok[OF seen[where p = False and x = "[]"]] manager_okD(7)[OF assms] by (simp add: manager_ok_def)
    with False show ?thesis by (simp add: set_port_enabled_def Let_def publish_port_disabled_def)
  next
    case True
    let ?x = "?m\<lparr>sm_last_reconnect := now - RECONNECT_COOLDOWN\<rparr>"
    have x: "view_part ?x = view_part ?m" by (simp add: view_part_def)
    have o: "offline ?m = offline m" by (simp add: offline_def)
    have "dropped_ok ?x" if "\<not> sm_port m"
      using that shown[OF True] view_part_cong[OF x] o manager_okD(4,7)[OF assms] by (simp add: dropped_ok_def)
    moreover have "manager_ok ?m" if "sm_port m"
      using that shown[OF True] True manager_okD(5,7)[OF assms] by (auto simp: manager_ok_def)
    ultimately show ?thesis using True reconnect_ok by (auto simp: set_port_enabled_def Let_def)
  qed
qed

text \<open>A change of a device's permission to be read, followed by a zero report.\<close>

lemma seen_update_state:
  assumes "\<And>s. dr_last_data (f s) = dr_last_data s" "\<And>s. dr_last_com_status (f s) = dr_last_com_status s"
    "\<And>s. dr_last_device_status (f s) = dr_last_device_status s"
  shows "seen_ok (update_state i f m) = seen_ok m" and "offline (update_state i f m) = offline m"
    and "j \<noteq> i \<Longrightarrow> device_gate (update_state i f m) j = device_gate m j"
proof -
  have st: "dr_last_data (sm_states (update_state i f m) ! j) = dr_last_data (sm_states m ! j)
     \<and> dr_last_com_status (sm_states (update_state i f m) ! j) = dr_last_com_status (sm_states m ! j)
     \<and> dr_last_device_status (sm_states (update_state i f m) ! j) = dr_last_device_status (sm_states m ! j)" for j
    by (cases "i < length (sm_states m)"; cases "j = i")
      (simp_all add: update_state_def assms list_update_beyond)
  have "device_seen (update_state i f m) j = device_seen m j" for j
    using st[of j] views_cong[of "update_state i f m" m] by (intro device_seen_cong) simp_all
  then show "seen_ok (update_state i f m) = seen_ok m" by (simp add: seen_ok_def)
  show "offline (update_state i f m) = offline m"
    using st by (simp add: offline_def all_set_conv_all_nth)
  show "device_gate (update_state i f m) j = device_gate m j" if "j \<noteq> i"
    using that by (simp add: device_gate_def update_state_def acquisition_open_def)
qed

lemma change_and_zero_ok:
  assumes "manager_ok m" and "\<And>s. dr_last_data (f s) = dr_last_data s"
    "\<And>s. dr_last_com_status (f s) = dr_last_com_status s"
    "\<And>s. dr_last_device_status (f s) = dr_last_device_status s" and "c \<Longrightarrow> sm_port m"
  shows "manager_ok (send_zero_status_for_index i c False (update_state i f m))"
proof -
  note u = seen_update_state[where f = f, OF assms(2-4)]
  have "shown_ok (send_zero_status_for_index i c False (update_state i f m))"
    using manager_okD(1)[OF assms(1)] u by (intro zero_shown) (auto simp: shown_ok_def)
  moreover have "offline (send_zero_status_for_index i c False (update_state i f m))" if "\<not> sm_port m"
    using zero_offline[of "update_state i f m" i] u(2) manager_okD(4)[OF assms(1) that] assms(5) that by (cases c) auto
  ultimately show ?thesis using assms(1) by (auto simp: manager_ok_def)
qed

lemma zero_ok: "manager_ok m \<Longrightarrow> (c \<Longrightarrow> sm_port m) \<Longrightarrow> manager_ok (send_zero_status_for_index i c False m)"
  using change_and_zero_ok[of m id c i] by (simp add: update_state_def)

lemma position_less: "device_position d devices = Some i \<Longrightarrow> i < length devices \<and> device_addr (devices ! i) = d"
  by (auto simp: device_position_def find_Some_iff)

lemma zero_keeps [simp]: "keeps m (send_zero_status_for_index i c v m)"
  by (simp add: keeps_def)

lemma set_device_read_ok:
  assumes "manager_ok m"
  obtains r m' where "set_device_read_enabled d b m = Some (r, m')" and "manager_ok m'" and "keeps m m'"
proof (cases "device_position d (sm_devices m)")
  case None
  with assms that show thesis by (simp add: set_device_read_enabled_def)
next
  case (Some i)
  have l: "i < length (sm_states m)" using position_less[OF Some] manager_okD(3)[OF assms] by simp
  let ?m = "send_zero_status_for_index i (sm_port m) False (update_state i (\<lambda>s. s\<lparr>dr_read_enabled := b\<rparr>) m)"
  have "manager_ok ?m" using assms by (intro change_and_zero_ok) auto
  then have "manager_ok (update_state i (\<lambda>s. s\<lparr>dr_timeout_count := 0, dr_current_round := 0\<rparr>) ?m)"
    by (subst ok_update_state) (simp_all add: pub_def)
  with \<open>manager_ok ?m\<close> Some l that show thesis
    by (cases b) (simp_all add: set_device_read_enabled_def Let_def keeps_def)
qed

lemma publish_device_disabled_ok:
  "manager_ok m \<Longrightarrow> manager_ok (publish_device_disabled i m)" "keeps m (publish_device_disabled i m)"
  by (auto simp: publish_device_disabled_def keeps_def zero_ok split: option.splits)

section \<open>Sending\<close>

text \<open>A write on an open port does not fail as not connected.\<close>

definition segment_driver_ok :: "segment_env \<Rightarrow> bool" where
  "segment_driver_ok env \<longleftrightarrow> (\<forall>i e. call_io (sg_write env i) \<noteq> Err (NotConnected, e))"

definition send_driver_ok :: "send_env \<Rightarrow> bool" where
  "send_driver_ok env \<longleftrightarrow> segment_driver_ok (se_first env) \<and> segment_driver_ok (se_second env)"

lemma deadline_call_kind:
  "call_io c \<noteq> Err (NotConnected, t) \<Longrightarrow> fst (deadline_call e deadline c timeout) \<noteq> Err (NotConnected, t)"
  by (auto simp: deadline_call_def Let_def split: option.splits)

lemma write_all_kind:
  assumes "\<And>i t. call_io (port i) \<noteq> Err (NotConnected, t)"
  shows "fst (write_all_before_deadline deadline port i data timeout) \<noteq> Err (NotConnected, t)"
  using assms
proof (induction deadline port i data timeout rule: write_all_before_deadline.induct)
  case (1 deadline port i data timeout)
  have d: "fst (deadline_call ''serial write deadline elapsed'' deadline (port i) timeout) \<noteq> Err (NotConnected, t)"
    using deadline_call_kind 1(2) by blast
  show ?case
    using 1 d by (subst write_all_before_deadline.simps) (auto split: prod.splits sum.splits simp: Let_def)
qed

lemma settle_kind: "wait_for_output_settle polls now n baud g deadline \<noteq> Err (NotConnected, t)"
proof -
  have "drain_output deadline polls \<noteq> Err (NotConnected, t)"
    by (induction deadline polls rule: drain_output.induct) auto
  then show ?thesis by (cases "drain_output deadline polls") (auto simp: wait_for_output_settle_def)
qed

lemma write_segment_kind:
  assumes "segment_driver_ok env" and "sm_port m" and "write_segment env par data w m = (Err (stage, kind, t), taken)"
  shows "kind \<noteq> NotConnected"
proof
  assume k: "kind = NotConnected"
  have "fst (write_all_before_deadline deadline (sg_write env) 0 data timeout) \<noteq> Err (NotConnected, t)" for deadline timeout
    by (rule write_all_kind) (use assms(1) in \<open>simp add: segment_driver_ok_def\<close>)
  moreover have "map_err (Pair WaitOutputSettle) (wait_for_output_settle polls now n baud g deadline) \<noteq> Err (stage, NotConnected, t)"
    for polls now n baud g deadline
    using settle_kind[of polls now n baud g deadline t]
    by (cases "wait_for_output_settle polls now n baud g deadline") auto
  ultimately show False
    using assms(2,3) k
    by (auto simp: write_segment_def Let_def split: if_splits option.splits prod.splits sum.splits) (metis fst_conv)+
qed

lemma write_segment_closed: "\<not> sm_port m \<Longrightarrow> write_segment env par data w m = (Err (NotOpen, NotConnected, ''serial port is not open''), [])"
  by (simp add: write_segment_def)

lemma transport_error_ok:
  assumes "manager_ok m" and "fst (snd err) = NotConnected \<Longrightarrow> \<not> sm_port m"
  shows "manager_ok (handle_send_transport_error env d ph err m)" and "keeps m (handle_send_transport_error env d ph err m)"
proof -
  let ?m = "(log_record (SendFailed d ph (fst err) (snd err)) m)\<lparr>sm_port := False, sm_rx_pending := []\<rparr>"
  have "dropped_ok ?m" using assms(1) by (intro dropped_okI) simp
  then show "manager_ok (handle_send_transport_error env d ph err m)"
    using reconnect_ok closed_reconnect_ok assms by (auto simp: handle_send_transport_error_def Let_def)
  have "keeps m ?m" by (simp add: keeps_def)
  then show "keeps m (handle_send_transport_error env d ph err m)"
    using reconnect_keeps keeps_trans by (auto simp: handle_send_transport_error_def Let_def)
qed

lemma transport_error_index [simp]: "sm_index (handle_send_transport_error env d ph err m) = sm_index m"
  by (simp add: handle_send_transport_error_def Let_def)

lemma send_command_ok:
  assumes "manager_ok m" and "send_driver_ok env" and "manager_send_command env cmd m = (ok, taken, m')"
  shows "manager_ok m'" and "keeps m m'" and "sm_index m' = sm_index m" and "ok \<Longrightarrow> m' = m \<and> sm_port m"
proof -
  have e: "fst (snd err) = NotConnected \<Longrightarrow> \<not> sm_port m"
    if "write_segment s par data w m = (Err err, t)" "s \<in> {se_first env, se_second env}" for err s par data w t
    using write_segment_kind[of s m par data w "fst err" "fst (snd err)" "snd (snd err)" t] that assms(2)
    by (cases err) (auto simp: send_driver_ok_def)
  have o: "sm_port m" if "write_segment s par data w m = (Ok u, t)" for s par data w u t
    using that write_segment_closed by fastforce
  have t: "manager_ok (handle_send_transport_error (se_open env) d ph err m)"
    "keeps m (handle_send_transport_error (se_open env) d ph err m)"
    if "write_segment s par data w m = (Err err, t)" "s \<in> {se_first env, se_second env}" for d ph err s par data w t
    by (rule transport_error_ok[OF assms(1)], rule e[OF that], assumption)+
  have "manager_ok m' \<and> keeps m m' \<and> sm_index m' = sm_index m \<and> (ok \<longrightarrow> m' = m \<and> sm_port m)"
    using assms(1,3) o t(1)[of "se_first env"] t(1)[of "se_second env"] t(2)[of "se_first env"] t(2)[of "se_second env"]
    unfolding manager_send_command_def Let_def
    by (fastforce split: if_splits prod.splits sum.splits)
  then show "manager_ok m'" "keeps m m'" "sm_index m' = sm_index m" "ok \<Longrightarrow> m' = m \<and> sm_port m" by auto
qed

lemma ack_ok:
  assumes "manager_ok m"
  shows "manager_ok (snd (receive_command_ack_result env m))" and "keeps m (snd (receive_command_ack_result env m))"
proof -
  let ?m = "\<lambda>e. (log_record (AckReadError e) m)\<lparr>sm_port := False, sm_rx_pending := []\<rparr>"
  have d: "dropped_ok (?m e)" for e using assms by (intro dropped_okI) simp
  have "keeps m (?m e)" "keeps m (log_record AckPortClosed m)" for e by (simp_all add: keeps_def)
  then show "keeps m (snd (receive_command_ack_result env m))"
    by (auto simp: receive_command_ack_result_def intro: keeps_reconnect split: sum.splits prod.splits bool.splits)
  show "manager_ok (snd (receive_command_ack_result env m))"
    using assms reconnect_ok[OF d] closed_reconnect_ok[of "log_record AckPortClosed m"]
    by (auto simp: receive_command_ack_result_def split: sum.splits prod.splits bool.splits)
qed

section \<open>Failures\<close>

lemma switch_role_ok: "manager_ok (switch_role r reason m) = manager_ok m"
  by (rule visible_part_cong) (simp add: visible_part_def view_part_def switch_role_def Let_def pub_def)

lemma switch_role_fields [simp]:
  "sm_port_config (switch_role r reason m) = sm_port_config m" "sm_run_on (switch_role r reason m) = sm_run_on m"
  "sm_current_run (switch_role r reason m) = r" "sm_port (switch_role r reason m) = sm_port m"
  "sm_index (switch_role r reason m) = sm_index m" "sm_rx_pending (switch_role r reason m) = sm_rx_pending m"
  by (simp_all add: switch_role_def Let_def log_record_def)

lemma role_rules [simp]:
  "manager_ok (promote_if_silent reason m) = manager_ok m" "keeps m (promote_if_silent reason m)"
  "manager_ok (demote_if_garbled m) = manager_ok m" "keeps m (demote_if_garbled m)"
  by (auto simp: promote_if_silent_def demote_if_garbled_def switch_role_ok keeps_def)

lemma role_index [simp]:
  "sm_index (promote_if_silent reason m) = sm_index m" "sm_port (promote_if_silent reason m) = sm_port m"
  "sm_index (demote_if_garbled m) = sm_index m" "sm_port (demote_if_garbled m) = sm_port m"
  by (auto simp: promote_if_silent_def demote_if_garbled_def)

lemma unattributed_ok:
  assumes "manager_ok m"
  shows "manager_ok (handle_unattributed_frame now frame m)" and "keeps m (handle_unattributed_frame now frame m)"
proof -
  show "manager_ok (handle_unattributed_frame now frame m)"
    using assms by (auto simp: handle_unattributed_frame_def Let_def split: prod.splits log_action.splits)
  show "keeps m (handle_unattributed_frame now frame m)"
    by (auto simp: handle_unattributed_frame_def Let_def promote_if_silent_def keeps_def
        split: prod.splits log_action.splits)
qed

text \<open>A failed query never indexes out of range, and is reported with the port's state.\<close>

definition in_range :: "serial_manager \<Rightarrow> bool" where
  "in_range m \<longleftrightarrow> manager_ok m \<and> sm_index m < length (sm_devices m)"

lemma in_rangeD: "in_range m \<Longrightarrow> manager_ok m" "in_range m \<Longrightarrow> sm_index m < length (sm_devices m)"
  "in_range m \<Longrightarrow> sm_index m < length (sm_states m)"
  by (auto simp: in_range_def dest: manager_okD(3))

lemma ok_in_range: "manager_ok m \<Longrightarrow> sm_devices m \<noteq> [] \<Longrightarrow> in_range m"
  by (auto simp: in_range_def dest: manager_okD(7))

lemma in_range_keeps: "in_range m \<Longrightarrow> keeps m m' \<Longrightarrow> manager_ok m' \<Longrightarrow> in_range m'"
  by (rule ok_in_range) (auto simp: keeps_def dest: in_rangeD(2))

lemma log_failure_ok:
  assumes "in_range m"
  obtains m' where "log_device_failure kind now ctx m = Some m'" and "manager_ok m'" and "keeps m m'"
    and "sm_index m' = sm_index m" and "sm_port m' = sm_port m"
proof -
  obtain a l where r: "record_failure kind now (dr_failure_log (sm_states m ! sm_index m)) = (a, l)" by fastforce
  let ?m = "update_state (sm_index m) (\<lambda>s. s\<lparr>dr_failure_log := l\<rparr>) m"
  have "manager_ok ?m" using in_rangeD(1)[OF assms] by (subst ok_update_state) (simp_all add: pub_def)
  with r in_rangeD(2,3)[OF assms] have "\<exists>m'. log_device_failure kind now ctx m = Some m' \<and> manager_ok m' \<and> keeps m m'
      \<and> sm_index m' = sm_index m \<and> sm_port m' = sm_port m"
    by (cases a) (auto simp: log_device_failure_def Let_def keeps_def)
  with that show thesis by blast
qed

lemma device_failure_ok:
  assumes "in_range m" and "com \<Longrightarrow> sm_port m"
  obtains m' where "handle_device_failure kind now ctx com m = Some m'" and "manager_ok m'" and "keeps m m'"
    and "sm_index m' = sm_index m"
proof -
  let ?m = "(update_state (sm_index m) (\<lambda>s. s\<lparr>dr_timeout_count := dr_timeout_count s + 1\<rparr>) m)
    \<lparr>sm_time_out_count := sm_time_out_count m + 1\<rparr>"
  have "manager_ok ?m" using in_rangeD(1)[OF assms(1)] by (simp add: ok_update_state pub_def)
  then have "in_range ?m" using assms(1) by (simp add: in_range_def)
  then obtain m1 where m1: "log_device_failure kind now ctx ?m = Some m1" "manager_ok m1" "keeps ?m m1"
    "sm_index m1 = sm_index ?m" "sm_port m1 = sm_port ?m"
    by (rule log_failure_ok)
  let ?r = "promote_if_silent TooManyTimeouts (send_zero_status com False m1)"
  have "manager_ok ?r" using zero_ok[OF m1(2), of com "sm_index m1"] assms(2) m1(5) by (auto simp: send_zero_status_def)
  moreover have "keeps m1 ?r"
    by (rule keeps_trans[of _ "send_zero_status com False m1"]) (simp_all add: send_zero_status_def)
  moreover have "keeps m m1" using m1(3) by (simp add: keeps_def)
  moreover have "handle_device_failure kind now ctx com m = Some ?r"
    using m1(1) in_rangeD(3)[OF assms(1)] by (simp add: handle_device_failure_def Let_def)
  moreover have "sm_index ?r = sm_index m" using m1(4) by (simp add: send_zero_status_def)
  ultimately show thesis using that keeps_trans by blast
qed

lemma commit_failure_ok:
  assumes "in_range m" and "com \<Longrightarrow> sm_port m"
  obtains m' where "commit_query_failure f now ctx com m = Some m'" and "manager_ok m'" and "keeps m m'"
proof (cases f)
  case QF_ReadTimeout
  moreover obtain m' where "handle_device_failure ReadTimeout now ctx com m = Some m'" "manager_ok m'" "keeps m m'"
    using device_failure_ok[where m = m and com = com and kind = ReadTimeout and now = now and ctx = ctx] assms by blast
  ultimately show thesis using that by simp
next
  case (QF_BadFrame reason frame)
  let ?m = "(update_state (sm_index m) (\<lambda>s. s\<lparr>dr_parse_fail_count := dr_parse_fail_count s + 1\<rparr>) m)
    \<lparr>sm_parse_fail_count := sm_parse_fail_count m + 1\<rparr>"
  have "manager_ok ?m" using in_rangeD(1)[OF assms(1)] by (simp add: ok_update_state pub_def)
  then have "in_range ?m" using assms(1) by (simp add: in_range_def)
  then obtain m1 where m1: "handle_device_failure BadFrame now ctx com ?m = Some m1" "manager_ok m1" "keeps ?m m1"
    using device_failure_ok[where m = ?m and com = com and kind = BadFrame and now = now and ctx = ctx] assms(2) by auto
  have "keeps m m1" using m1(3) by (simp add: keeps_def)
  then have "keeps m (demote_if_garbled m1)" by (rule keeps_trans) simp
  with m1 in_rangeD(3)[OF assms(1)] QF_BadFrame that show thesis
    by (simp add: handle_invalid_frame_def Let_def)
qed

section \<open>Receiving\<close>

lemma recovery_ok:
  assumes "in_range m"
  obtains m' where "log_device_recovery now m = Some m'" and "visible_part m' = visible_part m" and "keeps m m'"
proof -
  obtain a l where r: "failure_recover now (dr_failure_log (sm_states m ! sm_index m)) = (a, l)" by fastforce
  let ?m = "update_state (sm_index m) (\<lambda>s. s\<lparr>dr_failure_log := l\<rparr>) m"
  have "visible_part ?m = visible_part m" by (rule visible_update_state) (simp add: pub_def)
  with r in_rangeD(2,3)[OF assms] that show thesis
    by (cases a) (auto simp: log_device_recovery_def Let_def keeps_def)
qed

lemma visible_hidden [simp]:
  "visible_part (m\<lparr>sm_time_out_count := t, sm_parse_fail_count := u\<rparr>) = visible_part m"
  "visible_part (m\<lparr>sm_unattributed_failure_log := l\<rparr>) = visible_part m"
  by (simp_all add: visible_part_def view_part_def)

lemma visible_unattributed_recovery [simp]: "visible_part (log_unattributed_recovery now m) = visible_part m"
  by (auto simp: log_unattributed_recovery_def Let_def split: prod.splits option.splits)

lemma unattributed_recovery_keeps: "keeps m (log_unattributed_recovery now m)"
  by (auto simp: log_unattributed_recovery_def Let_def keeps_def split: prod.splits option.splits)

text \<open>A report of a good frame.\<close>

lemma good_report_ok:
  assumes "in_range m" and "sm_port m" and "acquisition_open m (sm_states m ! sm_index m)"
  shows "manager_ok (publish_status (sm_index m) (sm_devices m ! sm_index m) True True data raw m)" (is "manager_ok ?m")
proof -
  have ok: "manager_ok m" "shown_ok m" "seen_ok m" "length (sm_states m) = length (sm_devices m)"
    "sm_index m < length (sm_devices m)"
    using in_rangeD[OF assms(1)] manager_okD by auto
  have "device_gate ?m j" if "j < length (sm_devices m)" for j
    using publish_gate[OF ok(4,5)] assms(3) ok(2) that by (cases "j = sm_index m") (auto simp: shown_ok_def)
  with publish_seen[OF ok(3,5) refl] have "shown_ok ?m" by (simp add: shown_ok_def)
  with ok(1) assms(2) show ?thesis by (simp add: manager_ok_def)
qed

lemma visible_partD:
  assumes "visible_part m' = visible_part m"
  shows "sm_port m' = sm_port m" "sm_index m' = sm_index m" "sm_port_config m' = sm_port_config m"
    "in_range m' = in_range m"
    "i < length (sm_states m) \<Longrightarrow> acquisition_open m' (sm_states m' ! i) = acquisition_open m (sm_states m ! i)"
proof -
  show v: "sm_port m' = sm_port m" "sm_index m' = sm_index m" "sm_port_config m' = sm_port_config m"
    using assms by (auto simp: visible_part_def view_part_def)
  show "in_range m' = in_range m" using visible_part_cong(1)[OF assms] v by (simp add: in_range_def)
  have "map pub (sm_states m') = map pub (sm_states m)" using assms by (simp add: visible_part_def view_part_def)
  then show "i < length (sm_states m) \<Longrightarrow> acquisition_open m' (sm_states m' ! i) = acquisition_open m (sm_states m ! i)"
    using map_pub_nth[of "sm_states m'" "sm_states m" i] map_eq_imp_length_eq[of pub "sm_states m'" pub "sm_states m"] v
    by (auto simp: acquisition_open_def pub_def)
qed

lemma valid_packet_ok:
  assumes "in_range m" and "sm_port m"
  obtains m' where "handle_valid_packet now utc packet frame m = Some m'" and "manager_ok m'" and "keeps m m'"
    and "acquisition_open m (sm_states m ! sm_index m) \<Longrightarrow> cached m' (sm_index m) = Some (device_report
      (spc_port_number (sm_port_config m)) (sm_devices m ! sm_index m) True True (dp_status packet) frame)"
proof (cases "sm_enabled m \<and> acquisition_open m (sm_states m ! sm_index m)")
  case False
  then have "handle_valid_packet now utc packet frame m = Some (send_zero_status_for_index (sm_index m) (sm_enabled m \<and> sm_port m) False m)"
    using in_rangeD(3)[OF assms(1)] by (auto simp: handle_valid_packet_def Let_def)
  moreover have "manager_ok (send_zero_status_for_index (sm_index m) (sm_enabled m \<and> sm_port m) False m)"
    using in_rangeD(1)[OF assms(1)] by (rule zero_ok) simp
  moreover have "\<not> acquisition_open m (sm_states m ! sm_index m)" using False by (auto simp: acquisition_open_def)
  ultimately show thesis using that by simp
next
  case True
  obtain m1 where m1: "log_device_recovery now m = Some m1" "visible_part m1 = visible_part m" "keeps m m1"
    using recovery_ok[OF assms(1)] by blast
  let ?m2 = "update_state (sm_index m) (\<lambda>s. s\<lparr>dr_timeout_count := 0, dr_parse_fail_count := 0,
    dr_last_data_at := Some utc\<rparr>) (log_unattributed_recovery now m1)"
  let ?m3 = "?m2\<lparr>sm_time_out_count := 0, sm_parse_fail_count := 0\<rparr>"
  have v: "visible_part ?m3 = visible_part m"
    using m1(2) visible_update_state[of "\<lambda>s. s\<lparr>dr_timeout_count := 0, dr_parse_fail_count := 0, dr_last_data_at := Some utc\<rparr>"]
    by (simp add: pub_def)
  note d = visible_partD[OF v]
  let ?r = "publish_status (sm_index m) (sm_devices ?m3 ! sm_index m) True True (dp_status packet) frame ?m3"
  have "in_range ?m3" "sm_port ?m3" "acquisition_open ?m3 (sm_states ?m3 ! sm_index ?m3)"
    using assms d(1,2,4) d(5)[OF in_rangeD(3)[OF assms(1)]] True by simp_all
  from good_report_ok[OF this] have ok: "manager_ok ?r" using d(2) by simp
  have k: "keeps m ?r" using m1(3) unattributed_recovery_keeps[of m1 now] d(3) by (auto simp: keeps_def)
  have h: "handle_valid_packet now utc packet frame m = Some ?r"
    using True m1(1) in_rangeD(3)[OF assms(1)] d(3) by (simp add: handle_valid_packet_def Let_def not_le)
  have s: "seen_ok ?m3" using visible_part_cong(1)[OF v] in_rangeD(1)[OF assms(1)] manager_okD(2) by blast
  then have "cached ?r (sm_index m) = Some (device_report (spc_port_number (sm_port_config ?m3))
      (sm_devices ?m3 ! sm_index m) True True (dp_status packet) frame)"
    using publish_cached[of ?m3 "sm_index m" "sm_index m"] in_rangeD(2)[OF assms(1)] d(3) by (simp add: seen_ok_def)
  with that[OF h ok k] d(3) show thesis by simp
qed

text \<open>Cutting the frame out may move the index, to a device of the port, and may end a temporary
  primary role.\<close>

lemma extract_frame_ok:
  assumes "in_range m" and "extract_frame raw m = ((frame, attributed), m')"
  shows "in_range m'" and "keeps m m'" and "sm_port m' = sm_port m"
proof -
  define forwarded where "forwarded = (if accepts_forwarded (sm_current_run m) (sm_run_on m)
     then Option.bind (validated_forward_data_start raw) (\<lambda>data_start.
       map_option (Pair data_start) (device_position (raw ! 0) (sm_devices m))) else None)"
  define m1 where "m1 = (if sm_current_run m = Primary \<and> sm_run_on m = Secondary \<and> forwarded \<noteq> None
     then switch_role Secondary ForwardedFrameSeen m else m)"
  have m1: "in_range m1" "keeps m m1" "sm_port m1 = sm_port m" "sm_devices m1 = sm_devices m"
    using assms(1) by (auto simp: m1_def in_range_def switch_role_ok keeps_def)
  have i: "i < length (sm_devices m)" if "forwarded = Some (n, i)" for n i
    using that position_less by (auto simp: forwarded_def bind_eq_Some_conv split: if_splits)
  have idx: "in_range (m1\<lparr>sm_index := i\<rparr>)" if "i < length (sm_devices m)" for i
  proof -
    have "view_part (m1\<lparr>sm_index := i\<rparr>) = view_part m1" by (simp add: view_part_def)
    from view_part_cong[OF this] m1 that show ?thesis by (auto simp: in_range_def manager_ok_def)
  qed
  have "m' = m1 \<or> (\<exists>n i. forwarded = Some (n, i) \<and> m' = m1\<lparr>sm_index := i\<rparr>)"
    using assms(2) unfolding extract_frame_def forwarded_def[symmetric] m1_def[symmetric] Let_def
    by (auto split: if_splits option.splits prod.splits)
  moreover have "forwarded = None" if "sm_current_run m = Primary" "sm_run_on m = Primary"
    using that by (simp add: forwarded_def accepts_forwarded_def)
  ultimately show "in_range m'" "keeps m m'" "sm_port m' = sm_port m" using m1 idx i by (auto simp: keeps_def)
qed

lemma in_range_pending [simp]: "in_range (m\<lparr>sm_rx_pending := x\<rparr>) = in_range m"
  "in_range (m\<lparr>sm_receive_sequence := w\<rparr>) = in_range m"
  by (simp_all add: in_range_def)

definition outcome_ok :: "receive_outcome \<Rightarrow> serial_manager \<Rightarrow> bool" where
  "outcome_ok r m = (case r of Retryable f \<Rightarrow> sm_port m | _ \<Rightarrow> True)"

lemma handle_frame_ok:
  assumes "in_range m" and "sm_port m"
  obtains r m' where "handle_frame env raw m = Some (r, m')" and "in_range m'" and "keeps m m'" and "outcome_ok r m'"
proof (cases "raw = []")
  case True
  with assms that show thesis by (simp add: handle_frame_def outcome_ok_def)
next
  case False
  obtain frame attributed m1 where e: "extract_frame raw m = ((frame, attributed), m1)" by (metis surj_pair)
  define m2 where "m2 = (if sm_current_run m1 = Primary then m1\<lparr>sm_rx_pending := []\<rparr> else m1)"
  have x: "in_range m2" "keeps m m2" "sm_port m2"
    using extract_frame_ok[OF assms(1) e] assms(2) by (auto simp: keeps_def m2_def)
  have h: "handle_frame env raw m = (if \<not> attributed then Some (UnattributedHandled, handle_unattributed_frame (av_now env) frame m2)
      else case parse_data_packet frame of
        Inr packet \<Rightarrow> map_option (Pair Success) (handle_valid_packet (av_now env) (av_utc env) packet frame m2)
      | Inl reason \<Rightarrow> Some (Retryable (QF_BadFrame reason frame), m2))"
    unfolding handle_frame_def e Let_def m2_def using False by simp
  show thesis
  proof (cases "attributed \<and> is_ok (parse_data_packet frame)")
    case True
    then obtain packet where p: "parse_data_packet frame = Ok packet" by (cases "parse_data_packet frame") auto
    obtain m3 where m3: "handle_valid_packet (av_now env) (av_utc env) packet frame m2 = Some m3" "manager_ok m3" "keeps m2 m3"
      using valid_packet_ok[OF x(1,3)] by blast
    have "in_range m3" "keeps m m3" using in_range_keeps[OF x(1) m3(3,2)] keeps_trans[OF x(2) m3(3)] by simp_all
    then show thesis using that h True p m3(1) by (simp add: outcome_ok_def)
  next
    case False
    note u = unattributed_ok[OF in_rangeD(1)[OF x(1)], of "av_now env" frame]
    have "in_range (handle_unattributed_frame (av_now env) frame m2)" "keeps m (handle_unattributed_frame (av_now env) frame m2)"
      using in_range_keeps[OF x(1) u(2,1)] keeps_trans[OF x(2) u(2)] by simp_all
    then show thesis using False that h x by (cases "parse_data_packet frame") (auto simp: outcome_ok_def split: if_splits)
  qed
qed

lemma attempt_ok:
  assumes "in_range m"
  obtains r m' where "receive_data_attempt env m = Some (r, m')" and "in_range m'" and "keeps m m'" and "outcome_ok r m'"
proof -
  define m1 where "m1 = m\<lparr>sm_receive_sequence := sm_receive_sequence m + 1\<rparr>"
  have m1: "in_range m1" "keeps m m1" using assms by (simp_all add: m1_def keeps_def)
  note def = receive_data_attempt_def[of env m, folded m1_def, unfolded Let_def]
  have k: "in_range m'" "keeps m m'" if "manager_ok m'" "keeps m1 m'" for m'
    using in_range_keeps[OF m1(1) that(2,1)] keeps_trans[OF m1(2) that(2)] by simp_all
  show thesis
  proof (cases "sm_port m1")
    case False
    with def have "receive_data_attempt env m = Some (TransportHandled, reconnect (av_open env) m1)"
      by (simp add: m1_def)
    with k[OF closed_reconnect_ok[OF in_rangeD(1)[OF m1(1)] False] reconnect_keeps] that show thesis
      by (simp add: outcome_ok_def)
  next
    case True
    obtain f pending where f: "read_frame env m1 = (f, pending)" by fastforce
    show thesis
    proof (cases f)
      case (GotFrame raw)
      have p: "in_range (m1\<lparr>sm_rx_pending := pending\<rparr>)" "keeps m (m1\<lparr>sm_rx_pending := pending\<rparr>)"
        using m1 by (simp_all add: keeps_def)
      obtain r m' where "handle_frame env raw (m1\<lparr>sm_rx_pending := pending\<rparr>) = Some (r, m')" "in_range m'"
        "keeps (m1\<lparr>sm_rx_pending := pending\<rparr>) m'" "outcome_ok r m'"
        by (rule handle_frame_ok[OF p(1)]) (use True in simp, blast)
      then show thesis using that[of r m'] keeps_trans[OF p(2)] def f GotFrame True by (simp add: m1_def)
    next
      case ReadTimedOut
      then show thesis using that[of "Retryable QF_ReadTimeout"] m1 def f True by (simp add: m1_def outcome_ok_def keeps_def)
    next
      case (ReadFailed e)
      let ?d = "(log_record (ReadError (sm_index m1) e) m1)\<lparr>sm_port := False, sm_rx_pending := []\<rparr>"
      have "dropped_ok ?d" using in_rangeD(1)[OF m1(1)] by (intro dropped_okI) simp
      then have "manager_ok (reconnect (av_open env) ?d)" by (rule reconnect_ok)
      moreover have "keeps m1 (reconnect (av_open env) ?d)" by (rule keeps_reconnect) (simp add: keeps_def)
      ultimately show thesis using that[of TransportHandled] k def f ReadFailed True by (simp add: m1_def outcome_ok_def)
    qed
  qed
qed

lemma receive_data_ok:
  assumes "in_range m"
  obtains m' where "receive_data env now m = Some m'" and "manager_ok m'" and "keeps m m'"
proof -
  obtain r m1 where r: "receive_data_attempt env m = Some (r, m1)" "in_range m1" "keeps m m1" "outcome_ok r m1"
    using attempt_ok[OF assms] by blast
  show thesis
  proof (cases "\<exists>f. r = Retryable f")
    case True
    then obtain f where f: "r = Retryable f" by blast
    obtain m2 where m2: "commit_query_failure f now None True m1 = Some m2" "manager_ok m2" "keeps m1 m2"
      using commit_failure_ok[where m = m1 and com = True and f = f and now = now and ctx = None] r f
      by (auto simp: outcome_ok_def)
    with that[OF _ m2(2) keeps_trans[OF r(3) m2(3)]] r(1) f show thesis by (simp add: receive_data_def)
  next
    case False
    then show thesis using that[OF _ in_rangeD(1)[OF r(2)] r(3)] r(1) by (cases r) (auto simp: receive_data_def)
  qed
qed

lemma resend_ok:
  assumes "in_range m" and "send_driver_ok (qe_send env)"
  obtains m' where "resend_query env query i f m = Some m'" and "manager_ok m'" and "keeps m m'"
proof -
  obtain sent taken m1 where s: "manager_send_command (qe_send env) query (m\<lparr>sm_rx_pending := []\<rparr>) = (sent, taken, m1)"
    by (metis surj_pair)
  have ok: "manager_ok (m\<lparr>sm_rx_pending := []\<rparr>)" using in_rangeD(1)[OF assms(1)] by simp
  note so = send_command_ok[OF ok assms(2) s]
  have k: "keeps m m1" using so(2) by (simp add: keeps_def)
  have m1: "in_range m1" by (rule in_range_keeps[OF assms(1) k so(1)])
  let ?c = "Some \<lparr>fx_attempts = 2, fx_first_failure = f\<rparr>"
  have "\<exists>m'. resend_query env query i f m = Some m' \<and> manager_ok m' \<and> keeps m m'"
  proof (cases sent)
    case False
    obtain m2 where "commit_query_failure f (qe_now env) ?c (sm_port m1) m1 = Some m2" "manager_ok m2" "keeps m1 m2"
      by (rule commit_failure_ok[OF m1]) simp_all
    with False s keeps_trans[OF k] show ?thesis by (auto simp: resend_query_def Let_def)
  next
    case True
    obtain r m2 where r: "receive_data_attempt (qe_second env) m1 = Some (r, m2)" "in_range m2" "keeps m1 m2" "outcome_ok r m2"
      using attempt_ok[OF m1] by blast
    have k2: "keeps m m2" by (rule keeps_trans[OF k r(3)])
    note def = resend_query_def[of env query i f m, unfolded Let_def s prod.case] True r(1)
    show ?thesis
    proof (cases r)
      case Success
      have "manager_ok (update_state i (\<lambda>s. s\<lparr>dr_query_retry_log := snd (record_retry_success (failure_kind f) (qe_now env)
          (dr_query_retry_log s))\<rparr>) m2)" using in_rangeD(1)[OF r(2)] by (subst ok_update_state) (simp_all add: pub_def)
      then show ?thesis using Success def k2 in_rangeD[OF r(2)]
        by (auto simp: log_query_retry_success_def keeps_def)
    next
      case (Retryable f2)
      obtain m3 where "commit_query_failure f2 (qe_now env) ?c True m2 = Some m3" "manager_ok m3" "keeps m2 m3"
        using commit_failure_ok[where m = m2 and com = True and f = f2 and now = "qe_now env" and ctx = ?c] r Retryable
        by (auto simp: outcome_ok_def)
      with Retryable def keeps_trans[OF k2] show ?thesis by auto
    qed (use def k2 in_rangeD(1)[OF r(2)] in auto)
  qed
  with that show thesis by blast
qed

lemma query_ok:
  assumes "in_range m" and "send_driver_ok (qe_send env)"
  obtains m' where "receive_query_with_retry env query n m = Some m'" and "manager_ok m'" and "keeps m m'"
proof -
  obtain r m1 where r: "receive_data_attempt (qe_first env) m = Some (r, m1)" "in_range m1" "keeps m m1" "outcome_ok r m1"
    using attempt_ok[OF assms(1)] by blast
  note def = receive_query_with_retry_def[of env query n m, unfolded Let_def] r(1) in_rangeD(2)[OF assms(1)]
  have "\<exists>m'. receive_query_with_retry env query n m = Some m' \<and> manager_ok m' \<and> keeps m m'"
  proof (cases "\<exists>f. r = Retryable f")
    case True
    then obtain f where f: "r = Retryable f" by blast
    obtain m2 where "commit_query_failure f (qe_now env) None True m1 = Some m2" "manager_ok m2" "keeps m1 m2"
      using commit_failure_ok[where m = m1 and com = True and f = f and now = "qe_now env" and ctx = None] r f
      by (auto simp: outcome_ok_def)
    moreover obtain m3 where "resend_query env query (sm_index m) f m1 = Some m3" "manager_ok m3" "keeps m1 m3"
      using resend_ok[OF r(2) assms(2)] by blast
    ultimately show ?thesis using def f keeps_trans[OF r(3)] by auto
  next
    case False
    then show ?thesis using def in_rangeD(1)[OF r(2)] r(3) by (cases r) auto
  qed
  with that show thesis by blast
qed

section \<open>Version queries\<close>

lemma version_exchange_ok:
  assumes "manager_ok m" and "send_driver_ok (ve_send env)" and "version_exchange env d m = (r, m')"
  shows "manager_ok m'" and "keeps m m'" and "sm_index m' = sm_index m"
proof -
  let ?q = "\<lparr>sd_device_id = ucast d, sd_command = build_station_version_query d\<rparr>"
  obtain sent taken m1 where s: "manager_send_command (ve_send env) ?q (prepare_automatic_query m) = (sent, taken, m1)"
    by (metis surj_pair)
  have p: "manager_ok (prepare_automatic_query m)" "keeps m (prepare_automatic_query m)"
    "sm_index (prepare_automatic_query m) = sm_index m"
    using assms(1) by (simp_all add: prepare_automatic_query_def keeps_def)
  note so = send_command_ok[OF p(1) assms(2) s]
  have k: "keeps m m1" "sm_index m1 = sm_index m" using keeps_trans[OF p(2) so(2)] so(3) p(3) by auto
  obtain result q where v: "version_receive (ve_read env) (ve_now env) (ve_start env)
      (sc_read_timeout (sm_serial_config m1)) (sc_baud_rate (sm_serial_config m1)) = (result, q)" by fastforce
  let ?d = "m1\<lparr>sm_rx_pending := [], sm_port := False\<rparr>"
  have "dropped_ok ?d" using dropped_okI(2)[of "m1\<lparr>sm_rx_pending := []\<rparr>"] so(1) by simp
  then have d: "manager_ok (reconnect (ve_reopen env) ?d)" by (rule reconnect_ok)
  have kd: "keeps m (reconnect (ve_reopen env) ?d)" by (rule keeps_reconnect) (use k in \<open>simp add: keeps_def\<close>)
  have "manager_ok m' \<and> keeps m m' \<and> sm_index m' = sm_index m"
    using assms(3) so(1) k d kd s v
    by (auto simp: version_exchange_def Let_def quarantine_late_station_version_response_def keeps_def
        split: if_splits sum.splits version_read_error.splits)
  then show "manager_ok m'" "keeps m m'" "sm_index m' = sm_index m" by auto
qed

lemma version_query_ok:
  assumes "manager_ok m" and "send_driver_ok (ve_send env)"
  obtains r m' where "perform_station_version_query env d m = Some (r, m')" and "manager_ok m'" and "keeps m m'"
    and "sm_index m' = sm_index m"
proof -
  let ?m = "if sm_port m then m else reconnect (ve_open env) m"
  have m: "manager_ok ?m" "keeps m ?m" "sm_index ?m = sm_index m"
    using assms(1) closed_reconnect_ok reconnect_keeps by auto
  obtain r m1 where e: "version_exchange env d ?m = (r, m1)" by fastforce
  note x = version_exchange_ok[OF m(1) assms(2) e]
  have "\<exists>r m'. perform_station_version_query env d m = Some (r, m') \<and> manager_ok m' \<and> keeps m m' \<and> sm_index m' = sm_index m"
    using assms(1) m x e keeps_trans[OF m(2) x(2)] manager_okD(3)[OF assms(1)] position_less[of d "sm_devices m"]
    by (auto simp: perform_station_version_query_def Let_def split: option.splits if_splits)
  with that show thesis by blast
qed

section \<open>Start\<close>

lemma manager_new_ok:
  assumes "distinct (map device_addr (spc_devices pc))" and "btree_ok cache"
    and "\<And>d. d \<in> set (spc_devices pc) \<Longrightarrow> map_of cache (spc_port_number pc, device_addr d) = None"
  shows "manager_ok (manager_new env conf pc cache run_on current_run)"
proof -
  define m where "m = \<lparr>sm_port = (spc_status pc \<and> oe_failure env = None), sm_pacing = pacing_new 0, sm_versions = [],
     sm_serial_config = conf, sm_port_config = pc, sm_broadcasts = [], sm_cache = cache,
     sm_states = map (\<lambda>_. device_runtime_new) (spc_devices pc), sm_index = 0, sm_run_on = run_on,
     sm_current_run = current_run, sm_time_out_count = 0, sm_parse_fail_count = 0, sm_records = [],
     sm_rx_pending = [], sm_last_reconnect = oe_now env, sm_port_offline_published = False,
     sm_reconnect_failure_log = reconnect_log_default,
     sm_unattributed_failure_log = failure_log_default, sm_receive_sequence = 0\<rparr>"
  have "device_seen m i \<and> device_gate m i" if "i < length (sm_devices m)" for i
    using assms(3) that
    by (simp add: m_def device_seen_def device_gate_def cached_def published_def device_key_def device_runtime_new_def)
  then have s: "shown_ok m" "seen_ok m" using assms(1,2) by (auto simp: shown_ok_def seen_ok_def m_def)
  define m1 where "m1 e = log_record (OpenFailed e)
    (m\<lparr>sm_reconnect_failure_log := snd (record_reconnect_failure e (oe_checked env) reconnect_log_default)\<rparr>)" for e
  have s1: "shown_ok (m1 e)" for e
  proof -
    have "view_part (m1 e) = view_part m" by (simp add: view_part_def m1_def)
    from view_part_cong(1)[OF this] s show ?thesis by simp
  qed
  have f: "sm_port_config m = pc" "sm_index m = 0" "\<not> sm_port_offline_published m" "sm_port m = (spc_status pc \<and> oe_failure env = None)"
    "sm_index (m1 e) = 0" "sm_port_config (m1 e) = pc" "\<not> sm_port_offline_published (m1 e)" "sm_port (m1 e) = sm_port m" for e
    by (simp_all add: m_def m1_def)
  have "manager_ok (publish_all_offline m)" if "\<not> spc_status pc"
    using publish_all_ok[OF s(2)] f that by (auto simp: manager_ok_def)
  then have a: "manager_ok (publish_port_disabled m)" if "\<not> spc_status pc"
    using that by (simp add: publish_port_disabled_def)
  have b: "manager_ok (publish_port_offline_once (m1 e))" if "spc_status pc" "oe_failure env = Some e" for e
    using offline_once_ok[of "m1 e"] s1 f that by (auto simp: manager_ok_def)
  have c: "manager_ok m" if "spc_status pc" "oe_failure env = None" using s f that by (auto simp: manager_ok_def)
  show ?thesis
    using a b c unfolding manager_new_def Let_def m_def[symmetric] m1_def[symmetric] by (auto split: option.splits)
qed

section \<open>The worker\<close>

lemma reject_manager [simp]:
  "wk_manager (track_command cx a f w) = wk_manager w" "wk_manager (report_ack_status cx a st w) = wk_manager w"
  "wk_manager (reject_command cx reason a b w) = wk_manager w"
  "wk_manager (reply_control r o' w) = wk_manager w" "wk_manager (complete_control cx r o' w) = wk_manager w"
  by (auto simp: track_command_def report_ack_status_def reject_command_def reply_control_def complete_control_def
      Let_def split: option.splits)

lemma reject_queue_manager [simp]: "wk_manager (reject_queued_commands cx t reason w) = wk_manager w"
proof -
  have "wk_manager (fold (\<lambda>c. reject_command cx reason (qc_ack_id c) (qc_report_ack c)) cs w) = wk_manager w" for cs :: "queued_command list" and w
    by (induction cs arbitrary: w) simp_all
  then show ?thesis by (simp add: reject_queued_commands_def Let_def)
qed

lemma schedule_ok [simp]:
  "manager_ok (schedule_station_version_query d m) = manager_ok m"
  "manager_ok (cancel_scheduled_station_version_query d m) = manager_ok m"
  "manager_ok (schedule_configured_domestic_version_queries ds m) = manager_ok m"
proof -
  show a: "manager_ok (schedule_station_version_query d m) = manager_ok m" for d m
    by (simp add: schedule_station_version_query_def)
  show "manager_ok (cancel_scheduled_station_version_query d m) = manager_ok m"
    by (simp add: cancel_scheduled_station_version_query_def)
  show "manager_ok (schedule_configured_domestic_version_queries ds m) = manager_ok m"
    unfolding schedule_configured_domestic_version_queries_def using a by (induction ds arbitrary: m) auto
qed

lemma schedule_keeps [simp]:
  "keeps a (schedule_station_version_query d m) = keeps a m"
  "keeps a (cancel_scheduled_station_version_query d m) = keeps a m"
  "keeps a (schedule_configured_domestic_version_queries ds m) = keeps a m"
proof -
  show a: "keeps a (schedule_station_version_query d m) = keeps a m" for d m
    by (simp add: schedule_station_version_query_def keeps_def)
  show "keeps a (cancel_scheduled_station_version_query d m) = keeps a m"
    by (simp add: cancel_scheduled_station_version_query_def keeps_def)
  show "keeps a (schedule_configured_domestic_version_queries ds m) = keeps a m"
    unfolding schedule_configured_domestic_version_queries_def using a by (induction ds arbitrary: m) auto
qed

text \<open>Switching a device on or off.\<close>

lemma device_enabled_ok:
  assumes "manager_ok m"
  shows "manager_ok (set_device_enabled q d on i m)" and "keeps m (set_device_enabled q d on i m)"
proof -
  let ?u = "update_state i (\<lambda>s. s\<lparr>dr_is_enabled := on\<rparr>)"
  have off: "manager_ok (publish_device_disabled i (?u m))" if "\<not> on" "i < length (sm_devices m)"
    using change_and_zero_ok[OF assms, of "\<lambda>s. s\<lparr>dr_is_enabled := on\<rparr>" "sm_port m" i] that
    by (simp add: publish_device_disabled_def get_device_def)
  have "device_gate (?u m) j" if j: "j < length (sm_devices m)" "on \<or> dr_is_enabled (sm_states m ! i) = on" for j
  proof -
    have "device_gate m j" using manager_okD(1)[OF assms] j by (simp add: shown_ok_def)
    then show ?thesis using j manager_okD(3)[OF assms]
      by (cases "j = i") (auto simp: device_gate_def update_state_def acquisition_open_def Let_def)
  qed
  then have same: "manager_ok (?u m)" if "on \<or> dr_is_enabled (sm_states m ! i) = on"
    using that assms seen_update_state(1,2)[of "\<lambda>s. s\<lparr>dr_is_enabled := on\<rparr>" i m]
    by (auto simp: manager_ok_def shown_ok_def)
  have beyond: "publish_device_disabled i (?u m) = m" if "length (sm_devices m) \<le> i"
    using that manager_okD(3)[OF assms] by (simp add: publish_device_disabled_def get_device_def update_state_def list_update_beyond)
  show "manager_ok (set_device_enabled q d on i m)"
    using off same beyond assms by (cases "i < length (sm_devices m)") (auto simp: set_device_enabled_def Let_def)
  show "keeps m (set_device_enabled q d on i m)"
    using publish_device_disabled_ok(2)[of "?u m" i]
    by (auto simp: set_device_enabled_def Let_def keeps_def schedule_station_version_query_def)
qed

lemma device_settings_ok:
  assumes "manager_ok m"
  shows "manager_ok (fold (set_device_enabled q d on) is m) \<and> keeps m (fold (set_device_enabled q d on) is m)"
  using assms
proof (induction "is" arbitrary: m)
  case (Cons i xs)
  note e = device_enabled_ok[OF Cons.prems, of q d on i]
  with Cons.IH[OF e(1)] keeps_trans[OF e(2)] show ?case by auto
qed simp

end
