(* ===== verification/Worker_Runs.thy ===== *)
theory Worker_Runs
  imports Serial_Runs
begin

text \<open>
  The passes of a serial worker never panic and keep the invariant, whatever commands arrive, whatever
  the devices answer and however often the worker is restarted. What follows for the readers of the
  cache and for the subscribers is stated at the end.
\<close>

section \<open>Incoming commands\<close>

definition incoming_driver_ok :: "(incoming_env \<times> command) list \<Rightarrow> bool" where
  "incoming_driver_ok channel \<longleftrightarrow> (\<forall>(env, c) \<in> set channel. send_driver_ok (ve_send (ie_version env)))"

definition goes_on :: "worker \<Rightarrow> worker option \<Rightarrow> bool" where
  "goes_on w r \<longleftrightarrow> (\<exists>w'. r = Some w' \<and> manager_ok (wk_manager w') \<and> keeps_config (wk_manager w) (wk_manager w'))"

lemma goes_onI [intro]: "manager_ok (wk_manager w') \<Longrightarrow> keeps (wk_manager w) (wk_manager w') \<Longrightarrow> goes_on w (Some w')"
  by (simp add: goes_on_def keeps_config)

lemma goes_onE:
  assumes "goes_on w r"
  obtains w' where "r = Some w'" and "manager_ok (wk_manager w')" and "keeps_config (wk_manager w) (wk_manager w')"
  using assms by (auto simp: goes_on_def)

lemma goes_on_bind:
  assumes "goes_on w r" and "\<And>w'. r = Some w' \<Longrightarrow> manager_ok (wk_manager w') \<Longrightarrow> goes_on w' (f w')"
  shows "goes_on w (Option.bind r f)"
  using assms by (force simp: goes_on_def dest: keeps_config_trans)

lemma enqueue_ok: "manager_ok (wk_manager w) \<Longrightarrow> goes_on w (enqueue_or_reject_command cx data b a e p w)"
  using manager_okD(3)[of "wk_manager w"]
  by (fastforce simp: enqueue_or_reject_command_def reject_reason_def find_Some_iff split: option.splits if_splits)

lemma port_status_ok:
  assumes "manager_ok (wk_manager w)"
  shows "manager_ok (wk_manager (snd (apply_port_status cx env on w)))"
    and "keeps (wk_manager w) (wk_manager (snd (apply_port_status cx env on w)))"
proof -
  obtain r m where r: "set_port_enabled (ie_open env) (ie_now env) on (wk_manager w) = (r, m)" by fastforce
  note m = set_port_enabled_ok[OF assms, of "ie_open env" "ie_now env" on, unfolded r snd_conv]
  have "keeps (wk_manager w) (log_record PortEnabled (schedule_configured_domestic_version_queries ds m))"
    "keeps (wk_manager w) (log_record PortEnabled m)" for ds
    using m(2) schedule_keeps(3)[of "wk_manager w" ds m] by (simp_all add: keeps_def)
  with m r show "manager_ok (wk_manager (snd (apply_port_status cx env on w)))"
    "keeps (wk_manager w) (wk_manager (snd (apply_port_status cx env on w)))"
    by (auto simp: apply_port_status_def Let_def on_manager_def split: sum.splits)
qed

lemma device_setting_ok:
  assumes "manager_ok (wk_manager w)"
  shows "goes_on w (apply_device_setting cx env d on w)"
proof -
  have "\<not> (\<exists>i \<in> set (matching_indexes d (wk_manager w)). length (sm_states (wk_manager w)) \<le> i)"
    using manager_okD(3)[OF assms] by (auto simp: matching_indexes_def)
  moreover note device_settings_ok[OF assms, of "wx_operations cx \<and> ie_domestic env d" d on "matching_indexes d (wk_manager w)"]
  ultimately show ?thesis
    by (auto simp: apply_device_setting_def Let_def on_manager_def split: sum.splits)
qed

lemma apply_command_ok:
  assumes "manager_ok (wk_manager w)" and "send_driver_ok (ve_send (ie_version env))"
  shows "goes_on w (map_option snd (apply_command cx env c w))"
proof (cases "cmd_command c")
  case (DeviceReadSetting d on)
  obtain r m where "set_device_read_enabled d on (wk_manager w) = Some (r, m)" "manager_ok m" "keeps (wk_manager w) m"
    using set_device_read_ok[OF assms(1)] by blast
  with DeviceReadSetting show ?thesis by (auto simp: apply_command_def)
next
  case (StationModuleTypeSetting d t)
  then show ?thesis using assms(1) by (auto simp: apply_command_def on_manager_def)
next
  case (QueryStationVersion d)
  obtain r m where "perform_station_version_query (ie_version env) d (wk_manager w) = Some (r, m)" "manager_ok m"
    "keeps (wk_manager w) m"
    using version_query_ok[OF assms] by blast
  with QueryStationVersion show ?thesis by (auto simp: apply_command_def)
next
  case (PortStatus on)
  then show ?thesis using port_status_ok[OF assms(1)] by (auto simp: apply_command_def)
qed (use enqueue_ok[OF assms(1)] device_setting_ok[OF assms(1)] in
    \<open>auto simp: apply_command_def option.map_comp comp_def option.map_ident\<close>)

lemma process_command_ok:
  assumes "manager_ok (wk_manager w)" and "send_driver_ok (ve_send (ie_version env))"
  shows "goes_on w (process_command cx env c w)"
  using apply_command_ok[OF assms, of cx c] assms(1) by (fastforce simp: process_command_def goes_on_def)

lemma process_commands_ok:
  "manager_ok (wk_manager w) \<Longrightarrow> incoming_driver_ok cs \<Longrightarrow> goes_on w (process_commands cx cs w)"
proof (induction cx cs w rule: process_commands.induct)
  case (2 cx env c cs w)
  then show ?case
    by (auto simp: incoming_driver_ok_def intro!: goes_on_bind process_command_ok)
qed auto

section \<open>Transactions\<close>

lemma line_attempt_ok:
  assumes "manager_ok m" and "send_driver_ok (le_send le i)"
  shows "manager_ok (snd (line_attempt le cmd i m)) \<and> keeps m (snd (line_attempt le cmd i m))"
proof -
  obtain sent taken m1 where s: "manager_send_command (le_send le i) cmd m = (sent, taken, m1)" by (metis surj_pair)
  note so = send_command_ok[OF assms s]
  obtain r m2 where r: "receive_command_ack_result (le_ack le i) m1 = (r, m2)" by fastforce
  have "manager_ok m2" "keeps m1 m2" using ack_ok[OF so(1), of "le_ack le i"] r by auto
  with so s r keeps_trans[OF so(2)] show ?thesis by (auto simp: line_attempt_def Let_def)
qed

lemma after_attempts_ok:
  assumes "manager_ok m" and "\<And>i. send_driver_ok (le_send le i)"
  shows "manager_ok (after_attempts le cmd n m) \<and> keeps m (after_attempts le cmd n m)"
proof (induction n)
  case (Suc n)
  with line_attempt_ok[OF _ assms(2), where m = "after_attempts le cmd n m" and i = "Suc n" and cmd = cmd] show ?case by (auto dest: keeps_trans)
qed (use assms(1) in simp)

lemma transaction_ok:
  assumes "manager_ok (wk_manager w)" and "\<And>i. send_driver_ok (le_send le i)"
  shows "manager_ok (wk_manager (run_transaction cx le n c w))"
    and "keeps (wk_manager w) (wk_manager (run_transaction cx le n c w))"
proof -
  obtain sent taken m1 where s: "manager_send_command (le_send le 1) (qc_data c) (wk_manager w) = (sent, taken, m1)"
    by (metis surj_pair)
  note a = after_attempts_ok[OF assms] and b = send_command_ok[OF assms(1) assms(2) s]
  have "manager_ok (manager_after le c e k (wk_manager w)) \<and> keeps (wk_manager w) (manager_after le c e k (wk_manager w))" for e k
    using a b s assms(1) by (simp add: manager_after_def)
  then show "manager_ok (wk_manager (run_transaction cx le n c w))"
    "keeps (wk_manager w) (wk_manager (run_transaction cx le n c w))"
    by (auto simp: run_transaction_def Let_def split: prod.splits)
qed

lemma next_command_ok:
  assumes "manager_ok (wk_manager w)" and "\<And>i. send_driver_ok (le_send le i)"
  shows "manager_ok (wk_manager (snd (execute_next_ready_command cx le n w)))"
    and "keeps (wk_manager w) (wk_manager (snd (execute_next_ready_command cx le n w)))"
proof -
  note t = transaction_ok[OF _ assms(2), of "w\<lparr>wk_queue := rest\<rparr>" cx n c for rest c]
  show "manager_ok (wk_manager (snd (execute_next_ready_command cx le n w)))"
    using t(1) assms(1) by (auto simp: execute_next_ready_command_def Let_def on_manager_def split: list.splits)
  have k: "keeps a (m\<lparr>sm_pacing := p\<rparr>) = keeps a m" for a m p by (simp add: keeps_def)
  show "keeps (wk_manager w) (wk_manager (snd (execute_next_ready_command cx le n w)))"
    using t(2) assms(1) by (auto simp: execute_next_ready_command_def Let_def on_manager_def k split: list.splits)
qed

section \<open>Cycles\<close>

definition cycle_driver_ok :: "cycle_env \<Rightarrow> bool" where
  "cycle_driver_ok env \<longleftrightarrow> (\<forall>i. send_driver_ok (le_send (cy_line env) i)) \<and> send_driver_ok (cy_send env)
     \<and> send_driver_ok (qe_send (cy_query env)) \<and> send_driver_ok (ve_send (cy_version env))"

lemma skip_turn_pub: "pub (snd (skip_turn s)) = pub s"
  by (simp add: skip_turn_def pub_def)

lemma poll_ok:
  assumes "in_range m" and "send_driver_ok env"
  obtains r m' where "poll_device env m = Some (r, m')" and "in_range m'" and "keeps m m'"
proof -
  obtain b s where s: "skip_turn (sm_states m ! sm_index m) = (b, s)" by fastforce
  define m1 where "m1 = m\<lparr>sm_states := (sm_states m)[sm_index m := s]\<rparr>"
  have "m1 = update_state (sm_index m) (\<lambda>s. snd (skip_turn s)) m" by (simp add: m1_def update_state_def s)
  then have v: "visible_part m1 = visible_part m" using visible_update_state[OF skip_turn_pub] by simp
  have m1: "in_range m1" "keeps m m1" using visible_partD(4)[OF v] assms(1) by (simp_all add: m1_def keeps_def)
  define m2 where "m2 = prepare_automatic_query m1"
  have m2: "manager_ok m2" "keeps m m2"
    using m1 in_rangeD(1) by (simp_all add: m2_def prepare_automatic_query_def keeps_def)
  obtain sent taken m3 where c: "manager_send_command env (poll_query (sm_devices m1 ! sm_index m)) m2 = (sent, taken, m3)"
    by (metis surj_pair)
  note so = send_command_ok[OF m2(1) assms(2) c]
  have m3: "keeps m m3" by (rule keeps_trans[OF m2(2) so(2)])
  have "in_range m3" by (rule in_range_keeps[OF assms(1) m3 so(1)])
  then have "\<exists>r m'. poll_device env m = Some (r, m') \<and> in_range m' \<and> keeps m m'"
    using s c m1 m3 in_rangeD(2,3)[OF assms(1)]
    by (auto simp: poll_device_def Let_def m1_def[symmetric] m2_def[symmetric] keeps_devices[OF m1(2)])
  with that show thesis by blast
qed

lemma primary_cycle_ok:
  assumes "manager_ok (wk_manager w)" and "sm_devices (wk_manager w) \<noteq> []" and "cycle_driver_ok env"
  shows "\<exists>r w'. run_primary_cycle cx (cy_line env) (cy_send env) n w = Some (r, w') \<and> in_range (wk_manager w')
    \<and> keeps (wk_manager w) (wk_manager w')"
proof -
  have d: "\<And>i. send_driver_ok (le_send (cy_line env) i)" "send_driver_ok (cy_send env)"
    using assms(3) by (auto simp: cycle_driver_ok_def)
  obtain r w1 where w1: "execute_next_ready_command cx (cy_line env) n w = (r, w1)" by fastforce
  have k: "keeps (wk_manager w) (wk_manager w1)" and m: "manager_ok (wk_manager w1)"
    using next_command_ok[OF assms(1) d(1), of cx n] w1 by auto
  have i: "in_range (wk_manager w1)" by (rule in_range_keeps[OF ok_in_range[OF assms(1,2)] k m])
  obtain c m2 where "poll_device (cy_send env) (wk_manager w1) = Some (c, m2)" "in_range m2" "keeps (wk_manager w1) m2"
    using poll_ok[OF i d(2)] by blast
  then show ?thesis using w1 i k keeps_trans[OF k] by (cases r) (auto simp: run_primary_cycle_def)
qed

lemma secondary_cycle_ok:
  assumes "manager_ok (wk_manager w)" and "cycle_driver_ok env"
  shows "manager_ok (wk_manager (snd (run_secondary_cycle cx (cy_line env) n w)))"
    and "keeps (wk_manager w) (wk_manager (snd (run_secondary_cycle cx (cy_line env) n w)))"
proof -
  have "\<And>i. send_driver_ok (le_send (cy_line env) i)" using assms(2) by (auto simp: cycle_driver_ok_def)
  from next_command_ok[OF assms(1) this, of cx n]
  show "manager_ok (wk_manager (snd (run_secondary_cycle cx (cy_line env) n w)))"
    "keeps (wk_manager w) (wk_manager (snd (run_secondary_cycle cx (cy_line env) n w)))"
    by (auto simp: run_secondary_cycle_def split: prod.splits option.splits bool.splits)
qed

lemma receive_ok:
  assumes "in_range m" and "cycle_driver_ok env"
  obtains m' where "receive_after_cycle env q r m = Some m'" and "manager_ok m'" and "keeps m m'"
proof -
  have d: "send_driver_ok (qe_send (cy_query env))" using assms(2) by (simp add: cycle_driver_ok_def)
  have "\<exists>m'. receive_after_cycle env q r m = Some m' \<and> manager_ok m' \<and> keeps m m'"
  proof (cases r)
    case (QuerySent query)
    obtain m' where "receive_query_with_retry (cy_query env) query q m = Some m'" "manager_ok m'" "keeps m m'"
      using query_ok[OF assms(1) d] by blast
    with QuerySent show ?thesis by (simp add: receive_after_cycle_def)
  next
    case PassiveReceive
    obtain m' where "receive_data (cy_listen env) (cy_listened env) m = Some m'" "manager_ok m'" "keeps m m'"
      using receive_data_ok[OF assms(1)] by blast
    with PassiveReceive show ?thesis by (simp add: receive_after_cycle_def)
  qed (use in_rangeD(1)[OF assms(1)] in \<open>simp_all add: receive_after_cycle_def\<close>)
  with that show thesis by blast
qed

lemma scheduled_version_ok:
  assumes "manager_ok m" and "send_driver_ok (ve_send env)"
  obtains r m' where "execute_one_scheduled_station_version_query b adm env m = Some (r, m')" and "manager_ok m'" and "keeps m m'"
proof -
  obtain v q where n: "next_version (sm_versions m) = (v, q)" by fastforce
  let ?m = "m\<lparr>sm_versions := q\<rparr>"
  have m: "manager_ok ?m" "keeps m ?m" using assms(1) by (simp_all add: keeps_def)
  have "\<exists>r m'. perform_station_version_query env d ?m = Some (r, m') \<and> manager_ok m' \<and> keeps m m'" for d
    using version_query_ok[OF m(1) assms(2), of d] keeps_trans[OF m(2)] by metis
  then have "\<exists>r m'. execute_one_scheduled_station_version_query b adm env m = Some (r, m') \<and> manager_ok m' \<and> keeps m m'"
    using n m assms(1)
    by (fastforce simp: execute_one_scheduled_station_version_query_def Let_def split: option.splits admission_answer.splits)
  with that show thesis by blast
qed

lemma advance_ok:
  assumes "in_range m" and "cycle_driver_ok env"
  obtains m' where "advance_index cx env r m = Some m'" and "manager_ok m'" and "keeps_config m m'"
    and "sm_run_on m = Primary \<Longrightarrow> sm_current_run m = Primary \<Longrightarrow>
      sm_index m' = (if r = CommandHandled then sm_index m else (sm_index m + 1) mod length (sm_devices m))"
proof -
  let ?i = "(sm_index m + 1) mod length (sm_devices m)"
  have n: "sm_devices m \<noteq> []" using in_rangeD(2)[OF assms(1)] by auto
  have "view_part (m\<lparr>sm_index := ?i\<rparr>) = view_part m" by (simp add: view_part_def)
  from view_part_cong[OF this] in_rangeD(1)[OF assms(1)] n
  have m: "manager_ok (m\<lparr>sm_index := ?i\<rparr>)" "keeps_config m (m\<lparr>sm_index := ?i\<rparr>)"
    by (auto simp: manager_ok_def keeps_config_def)
  have d: "send_driver_ok (ve_send (cy_version env))" using assms(2) by (simp add: cycle_driver_ok_def)
  obtain v m2 where "execute_one_scheduled_station_version_query (wx_operations cx) (cy_admission env) (cy_version env)
      (m\<lparr>sm_index := ?i\<rparr>) = Some (v, m2)" "manager_ok m2" "keeps (m\<lparr>sm_index := ?i\<rparr>) m2"
    using scheduled_version_ok[OF m(1) d] by blast
  then have "\<exists>m'. advance_index cx env r m = Some m' \<and> manager_ok m' \<and> keeps_config m m'
      \<and> (sm_run_on m = Primary \<longrightarrow> sm_current_run m = Primary \<longrightarrow>
           sm_index m' = (if r = CommandHandled then sm_index m else ?i))"
    using n m in_rangeD(1)[OF assms(1)] keeps_config_trans[OF m(2) keeps_config]
    by (auto simp: advance_index_def Let_def keeps_def)
  with that show thesis by blast
qed

lemma cycle_ok:
  assumes "manager_ok (wk_manager w)" and "cycle_driver_ok env"
  shows "goes_on w (worker_cycle cx env n q w)"
proof (cases "\<not> sm_enabled (wk_manager w) \<or> sm_devices (wk_manager w) = []")
  case True
  with assms(1) show ?thesis by (auto simp: worker_cycle_def)
next
  case False
  then have ne: "sm_devices (wk_manager w) \<noteq> []" by simp
  let ?c = "case sm_current_run (wk_manager w) of
      Primary \<Rightarrow> run_primary_cycle cx (cy_line env) (cy_send env) n w
    | Secondary \<Rightarrow> Some (run_secondary_cycle cx (cy_line env) n w)"
  have "\<exists>r w1. ?c = Some (r, w1) \<and> in_range (wk_manager w1) \<and> keeps (wk_manager w) (wk_manager w1)"
  proof (cases "sm_current_run (wk_manager w)")
    case Primary
    with primary_cycle_ok[OF assms(1) ne assms(2), of cx n] show ?thesis by simp
  next
    case Secondary
    note s = secondary_cycle_ok[OF assms, of cx n]
    show ?thesis using Secondary in_range_keeps[OF ok_in_range[OF assms(1) ne] s(2,1)] s(2)
      by (cases "run_secondary_cycle cx (cy_line env) n w") auto
  qed
  then obtain r w1 where c: "?c = Some (r, w1)" "in_range (wk_manager w1)" "keeps (wk_manager w) (wk_manager w1)" by blast
  obtain m2 where m2: "receive_after_cycle env q r (wk_manager w1) = Some m2" "manager_ok m2" "keeps (wk_manager w1) m2"
    using receive_ok[OF c(2) assms(2)] by blast
  have i: "in_range m2" by (rule in_range_keeps[OF c(2) m2(3,2)])
  obtain m3 where m3: "advance_index cx env r m2 = Some m3" "manager_ok m3" "keeps_config m2 m3"
    using advance_ok[OF i assms(2)] by blast
  have "worker_cycle cx env n q w = Some (w1\<lparr>wk_manager := m3\<rparr>)"
    using False c(1) m2(1) m3(1) by (simp add: worker_cycle_def)
  with m3(2) keeps_config_trans[OF keeps_config[OF keeps_trans[OF c(3) m2(3)]] m3(3)] show ?thesis
    by (simp add: goes_on_def)
qed

lemma pass_ok:
  assumes "manager_ok (wk_manager w)" and "cycle_driver_ok env" and "incoming_driver_ok channel"
  shows "goes_on w (worker_pass cx env n q channel w)"
proof -
  have "incoming_driver_ok (take MAX_COMMANDS_PER_CYCLE channel)"
    using assms(3) by (auto simp: incoming_driver_ok_def dest: in_set_takeD)
  from process_commands_ok[OF assms(1) this, of cx] obtain w1 where
    w1: "process_commands cx (take MAX_COMMANDS_PER_CYCLE channel) w = Some w1" "manager_ok (wk_manager w1)"
    "keeps_config (wk_manager w) (wk_manager w1)" by (rule goes_onE)
  from cycle_ok[OF w1(2) assms(2), of cx n q] obtain w2 where
    "worker_cycle cx env n q w1 = Some w2" "manager_ok (wk_manager w2)" "keeps_config (wk_manager w1) (wk_manager w2)"
    by (rule goes_onE)
  with w1 keeps_config_trans[OF w1(3)] show ?thesis by (simp add: worker_pass_def process_incoming_commands_def goes_on_def)
qed

section \<open>Runs\<close>

text \<open>
  A run of the worker: passes, restarts after a panic, and updates of the shared cache by the workers of
  other ports. In a pass the driver answers as it likes, except that a write to an open port does not fail
  as not connected (\<open>cycle_driver_ok\<close>, \<open>incoming_driver_ok\<close>).
\<close>

inductive worker_run :: "worker_ctx \<Rightarrow> worker \<Rightarrow> worker \<Rightarrow> bool" for cx where
  start: "worker_run cx w w"
| pass: "worker_run cx w w1 \<Longrightarrow> cycle_driver_ok env \<Longrightarrow> incoming_driver_ok channel \<Longrightarrow>
    worker_pass cx env n q channel w1 = Some w2 \<Longrightarrow> worker_run cx w w2"
| restart: "worker_run cx w w1 \<Longrightarrow> worker_run cx w (restart_after_panic cx now count env startup w1)"
| other_port: "worker_run cx w w1 \<Longrightarrow> ds_com st \<noteq> wk_port w1 \<Longrightarrow>
    worker_run cx w (on_manager (\<lambda>m. m\<lparr>sm_cache := cache_update st (sm_cache m)\<rparr>) w1)"

lemma restart_after_panic_ok:
  assumes "manager_ok (wk_manager w)"
  shows "manager_ok (wk_manager (restart_after_panic cx now count env startup w))"
    and "keeps (wk_manager w) (wk_manager (restart_after_panic cx now count env startup w))"
proof -
  let ?m = "prepare_worker_restart now (log_record (WorkerPanicked count) (wk_manager w))"
  have m: "manager_ok ?m" "\<not> sm_port ?m" "keeps (wk_manager w) ?m"
    using restart_ok[of "log_record (WorkerPanicked count) (wk_manager w)" now] assms
    by (simp_all add: prepare_worker_restart_def keeps_def)
  show "manager_ok (wk_manager (restart_after_panic cx now count env startup w))"
    "keeps (wk_manager w) (wk_manager (restart_after_panic cx now count env startup w))"
    using closed_reconnect_ok[OF m(1,2)] keeps_reconnect[OF m(3)]
    by (simp_all add: restart_after_panic_def Let_def on_manager_def)
qed

lemma other_port_ok:
  assumes "manager_ok m" and "ds_com st \<noteq> spc_port_number (sm_port_config m)"
  shows "manager_ok (m\<lparr>sm_cache := cache_update st (sm_cache m)\<rparr>)" (is "manager_ok ?m")
proof -
  have b: "btree_ok (sm_cache m)" using manager_okD(2)[OF assms(1)] by (simp add: seen_ok_def)
  have "cached ?m = cached m"
    using assms(2) map_of_cache_update[OF b, of st] by (auto simp: fun_eq_iff cached_def device_key_def)
  then have "device_seen ?m i = device_seen m i" for i
    using views_cong[of ?m m] by (intro device_seen_cong) auto
  moreover have "device_gate ?m i = device_gate m i" for i by (simp add: device_gate_def acquisition_open_def)
  moreover have "offline ?m = offline m" by (simp add: offline_def)
  ultimately show ?thesis
    using assms(1) b by (auto simp: manager_ok_def shown_ok_def seen_ok_def cache_ok_update)
qed

lemma worker_run_ok:
  assumes "worker_run cx w w'" and "manager_ok (wk_manager w)"
  shows "manager_ok (wk_manager w') \<and> keeps_config (wk_manager w) (wk_manager w')"
  using assms
proof (induction rule: worker_run.induct)
  case (pass w w1 env channel n q w2)
  then have w1: "manager_ok (wk_manager w1)" "keeps_config (wk_manager w) (wk_manager w1)" by auto
  from pass_ok[OF w1(1) pass.hyps(2,3), of cx n q] pass.hyps(4) keeps_config_trans[OF w1(2)] show ?case
    by (auto simp: goes_on_def)
next
  case (restart w w1 now count env startup)
  then have w1: "manager_ok (wk_manager w1)" "keeps_config (wk_manager w) (wk_manager w1)" by auto
  with restart_after_panic_ok(1)[OF w1(1)] keeps_config_trans[OF w1(2) keeps_config[OF restart_after_panic_ok(2)[OF w1(1)]]]
  show ?case by blast
next
  case (other_port w w1 st)
  then have w1: "manager_ok (wk_manager w1)" "keeps_config (wk_manager w) (wk_manager w1)" by auto
  with other_port_ok[OF w1(1) other_port.hyps(2)] show ?case by (simp add: on_manager_def keeps_config_def)
qed simp

lemma switch_off_ok:
  assumes "manager_ok m"
  obtains m' where "switch_off_unread readable ds m = Some m'" and "manager_ok m'" and "keeps m m'"
proof -
  have "\<exists>m'. switch_off_unread readable ds m = Some m' \<and> manager_ok m' \<and> keeps m m'"
    using assms
  proof (induction ds arbitrary: m)
    case (Cons d ds)
    obtain r m1 where m1: "set_device_read_enabled d False m = Some (r, m1)" "manager_ok m1" "keeps m m1"
      using set_device_read_ok[OF Cons.prems] by blast
    from Cons.IH[OF Cons.prems] Cons.IH[OF m1(2)] m1 keeps_trans[OF m1(3)] show ?case by auto
  qed simp
  with that show thesis by blast
qed

text \<open>A worker starts with the invariant when its devices have distinct addresses and the cache has no
  report of them yet.\<close>

definition fresh_port :: "serial_port_config \<Rightarrow> latest_status_cache \<Rightarrow> bool" where
  "fresh_port pc cache \<longleftrightarrow> distinct (map device_addr (spc_devices pc)) \<and> btree_ok cache
     \<and> (\<forall>d \<in> set (spc_devices pc). map_of cache (spc_port_number pc, device_addr d) = None)"

lemma manager_new_fields:
  "sm_port_config (manager_new env conf pc cache run_on current_run) = pc"
  "sm_run_on (manager_new env conf pc cache run_on current_run) = run_on"
  "sm_current_run (manager_new env conf pc cache run_on current_run) = current_run"
  by (simp_all add: manager_new_def Let_def publish_port_disabled_def split: option.splits)

lemma start_ok:
  assumes "fresh_port pc cache"
  obtains m where "start_manager env conf pc cache run_on current_run on interval readable startup = Some m"
    and "manager_ok m" and "sm_devices m = spc_devices pc" and "sm_run_on m = run_on"
    and "sm_current_run m \<noteq> current_run \<Longrightarrow> run_on = Secondary"
    and "spc_port_number (sm_port_config m) = spc_port_number pc"
proof -
  let ?n = "manager_new env conf (pc\<lparr>spc_status := on\<rparr>) cache run_on current_run"
  let ?m = "?n\<lparr>sm_pacing := pacing_new (millis interval)\<rparr>"
  have "manager_ok ?m"
    using manager_new_ok[of "pc\<lparr>spc_status := on\<rparr>" cache env conf run_on current_run] assms
    by (simp add: fresh_port_def)
  then obtain m1 where m1: "switch_off_unread readable (map device_addr (sm_devices ?m)) ?m = Some m1"
    "manager_ok m1" "keeps ?m m1"
    by (rule switch_off_ok)
  let ?r = "schedule_configured_domestic_version_queries startup m1"
  have "keeps ?m ?r" using m1(3) by simp
  then have k: "sm_devices ?r = spc_devices pc" "sm_run_on ?r = run_on"
    "sm_current_run ?r \<noteq> current_run \<Longrightarrow> run_on = Secondary"
    "spc_port_number (sm_port_config ?r) = spc_port_number pc"
    by (auto simp: keeps_def manager_new_fields)
  from m1(1) have "start_manager env conf pc cache run_on current_run on interval readable startup = Some ?r"
    by (simp add: start_manager_def)
  from that[OF this _ k] m1(2) show thesis by simp
qed

section \<open>What readers see\<close>

lemma cache_agrees:
  assumes "manager_ok m" and "i < length (sm_devices m)"
  shows "map_option shown (cached m i) = map_option shown (published m i)"
proof -
  have "device_seen m i" using manager_okD(2)[OF assms(1)] assms(2) by (simp add: seen_ok_def)
  then show ?thesis by (auto simp: device_seen_def Let_def split: option.splits)
qed

text \<open>A device state that remembers a report describes the cached one.\<close>

lemma cached_status:
  assumes "manager_ok m" and "i < length (sm_devices m)" and "cached m i = Some st"
  shows "dr_last_com_status (sm_states m ! i) = Some (ds_com_status st)"
    and "dr_last_device_status (sm_states m ! i) = Some (ds_device_status st)"
    and "ds_value st = parse_status (dr_last_data (sm_states m ! i)) (dc_records (sm_devices m ! i))"
proof -
  have "device_seen m i" using manager_okD(2)[OF assms(1)] assms(2) by (simp add: seen_ok_def)
  then show "dr_last_com_status (sm_states m ! i) = Some (ds_com_status st)"
    "dr_last_device_status (sm_states m ! i) = Some (ds_device_status st)"
    "ds_value st = parse_status (dr_last_data (sm_states m ! i)) (dc_records (sm_devices m ! i))"
    using assms(3)
    by (auto simp: device_seen_def Let_def report_shown_def shown_def device_report_def split: option.splits
        simp del: shown_report)
qed

lemma good_is_readable:
  assumes "manager_ok m" and "i < length (sm_devices m)" and "cached m i = Some st" and "ds_device_status st"
  shows "ds_com_status st" and "sm_port m" and "acquisition_open m (sm_states m ! i)"
proof -
  note c = cached_status[OF assms(1-3)]
  have "device_gate m i" using manager_okD(1)[OF assms(1)] assms(2) by (simp add: shown_ok_def)
  then show "ds_com_status st" "acquisition_open m (sm_states m ! i)"
    using c assms(4) by (auto simp: device_gate_def Let_def)
  have "sm_states m ! i \<in> set (sm_states m)" using assms(2) manager_okD(3)[OF assms(1)] by simp
  with manager_okD(4)[OF assms(1)] c(2) assms(4) show "sm_port m" unfolding offline_def by fastforce
qed

lemma not_good_is_zero:
  assumes "manager_ok m" and "i < length (sm_devices m)" and "cached m i = Some st" and "\<not> ds_device_status st"
  shows "ds_value st = parse_status (zero_data (sm_devices m ! i)) (dc_records (sm_devices m ! i))"
proof -
  have "device_gate m i" using manager_okD(1)[OF assms(1)] assms(2) by (simp add: shown_ok_def)
  with cached_status[OF assms(1-3)] assms(4) show ?thesis by (auto simp: device_gate_def Let_def)
qed

lemma closed_is_offline:
  assumes "manager_ok m" and "i < length (sm_devices m)" and "\<not> sm_port m"
  obtains st where "cached m i = Some st" and "\<not> ds_com_status st" and "\<not> ds_device_status st"
proof -
  have "sm_states m ! i \<in> set (sm_states m)" using assms(2) manager_okD(3)[OF assms(1)] by simp
  then have o: "dr_last_com_status (sm_states m ! i) = Some False" "dr_last_device_status (sm_states m ! i) = Some False"
    using manager_okD(4)[OF assms(1,3)] by (auto simp: offline_def)
  have "device_seen m i" using manager_okD(2)[OF assms(1)] assms(2) by (simp add: seen_ok_def)
  with o obtain st where "cached m i = Some st" by (auto simp: device_seen_def Let_def)
  with cached_status[OF assms(1,2) this] o that show thesis by auto
qed

text \<open>The report to the operations service is the cache's view.\<close>

lemma online_report:
  assumes "manager_ok m" and "refresh_operations_state m = (port, on, opened, reports)" and "i < length (sm_devices m)"
  shows "rr_online (reports ! i) \<longleftrightarrow> (\<exists>st. cached m i = Some st \<and> ds_device_status st)"
proof -
  let ?s = "sm_states m ! i"
  have r: "rr_online (reports ! i) \<longleftrightarrow> sm_enabled m \<and> sm_port m \<and> dr_is_enabled ?s \<and> dr_read_enabled ?s
      \<and> dr_last_com_status ?s = Some True \<and> dr_last_device_status ?s = Some True"
    using assms(2,3) manager_okD(3)[OF assms(1)] by (auto simp: refresh_operations_state_def)
  show ?thesis
  proof
    assume "rr_online (reports ! i)"
    moreover have "device_seen m i" using manager_okD(2)[OF assms(1)] assms(3) by (simp add: seen_ok_def)
    ultimately obtain st where "cached m i = Some st" using r by (auto simp: device_seen_def Let_def)
    with cached_status[OF assms(1,3) this] r \<open>rr_online (reports ! i)\<close>
    show "\<exists>st. cached m i = Some st \<and> ds_device_status st" by simp
  next
    assume "\<exists>st. cached m i = Some st \<and> ds_device_status st"
    then obtain st where st: "cached m i = Some st" "ds_device_status st" by blast
    from good_is_readable[OF assms(1,3) st] cached_status[OF assms(1,3) st(1)] st(2) r show "rr_online (reports ! i)"
      by (auto simp: acquisition_open_def)
  qed
qed

end
