(* ===== verification/Frame_Delivery.thy ===== *)
theory Frame_Delivery
  imports Worker_Runs
begin

text \<open>
  From bytes on the line to reports, and from commands to bytes on the line: what a device answers in
  pieces is reported, what a standby gateway overhears is reported for the device it belongs to, a sent
  command is on the line in full, and the devices are polled in turn.
\<close>

section \<open>Answers\<close>

text \<open>The reads of an attempt deliver the given pieces.\<close>

definition delivers :: "attempt_env \<Rightarrow> bytes list \<Rightarrow> bool" where
  "delivers env chunks \<longleftrightarrow> [] \<notin> set chunks
     \<and> (\<forall>k < length chunks. \<forall>deadline. re_read (av_read env) k deadline = Ok (chunks ! k))"

lemma frame_then_packet:
  assumes "in_range m" and "sm_port m" and "raw \<noteq> []" and "extract_frame raw m = ((frame, True), m1)"
    and "parse_data_packet frame = Ok packet" and "acquisition_open m1 (sm_states m1 ! sm_index m1)"
  shows "\<exists>m'. handle_frame env raw m = Some (Success, m') \<and> cached m' (sm_index m1) = Some (device_report
      (spc_port_number (sm_port_config m)) (sm_devices m ! sm_index m1) True True (dp_status packet) frame)"
proof -
  note e = extract_frame_ok[OF assms(1,4)]
  define m2 where "m2 = (if sm_current_run m1 = Primary then m1\<lparr>sm_rx_pending := []\<rparr> else m1)"
  have m2: "in_range m2" "sm_port m2" "sm_index m2 = sm_index m1" "sm_port_config m2 = sm_port_config m1"
    "acquisition_open m2 (sm_states m2 ! sm_index m2)"
    using e assms(2,6) by (auto simp: m2_def acquisition_open_def)
  obtain m3 where m3: "handle_valid_packet (av_now env) (av_utc env) packet frame m2 = Some m3"
    "acquisition_open m2 (sm_states m2 ! sm_index m2) \<Longrightarrow> cached m3 (sm_index m2) = Some (device_report
      (spc_port_number (sm_port_config m2)) (sm_devices m2 ! sm_index m2) True True (dp_status packet) frame)"
    using valid_packet_ok[OF m2(1,2)] by metis
  have "handle_frame env raw m = Some (Success, m3)"
    unfolding handle_frame_def assms(4) Let_def using assms(3,5) m3(1) by (simp add: m2_def)
  with m3(2)[OF m2(5)] m2(3,4) e(2) show ?thesis by (auto simp: keeps_def)
qed

lemma attempt_frame:
  assumes "sm_port m" and "sm_rx_pending m = []" and "read_frame env m = (GotFrame raw, [])"
  shows "receive_data_attempt env m = handle_frame env raw (m\<lparr>sm_receive_sequence := sm_receive_sequence m + 1\<rparr>)"
proof -
  have r: "read_frame env (m\<lparr>sm_receive_sequence := sm_receive_sequence m + 1\<rparr>) = read_frame env m"
    by (simp add: read_frame_def)
  have i: "m\<lparr>sm_receive_sequence := sm_receive_sequence m + 1, sm_rx_pending := []\<rparr> =
      m\<lparr>sm_receive_sequence := sm_receive_sequence m + 1\<rparr>"
    using assms(2) by (cases m) simp
  show ?thesis unfolding receive_data_attempt_def Let_def r assms(3) by (simp add: assms(1)) (simp only: i)
qed

lemma direct_answer_reported:
  assumes "manager_ok m" and "sm_port m" and "sm_index m < length (sm_devices m)"
    and "sm_run_on m = Primary" and "sm_current_run m = Primary" and "sm_rx_pending m = []"
    and "acquisition_open m (sm_states m ! sm_index m)"
    and "device_data_len (sm_devices m ! sm_index m) \<in> {length status - 1, length status}"
    and "1 \<le> length status" and "length status \<le> 256"
    and "delivers env chunks" and "concat chunks = encode_data_packet addr cmd status"
  shows "\<exists>m'. receive_data_attempt env m = Some (Success, m') \<and> cached m' (sm_index m) = Some (device_report
      (spc_port_number (sm_port_config m)) (sm_devices m ! sm_index m) True True status (encode_data_packet addr cmd status))"
proof -
  let ?raw = "encode_data_packet addr cmd status"
  let ?m = "m\<lparr>sm_receive_sequence := sm_receive_sequence m + 1\<rparr>"
  have "read_frame env m = (GotFrame ?raw, [])"
    unfolding read_frame_def Let_def assms(6) using assms(3-5,8-12)
    by (simp, intro direct_frame_assembled[where chunks = chunks and d = "sm_devices m ! sm_index m"])
      (auto simp: get_device_def delivers_def)
  then have a: "receive_data_attempt env m = handle_frame env ?raw ?m" by (rule attempt_frame[OF assms(2,6)])
  have i: "in_range ?m" using assms(1,3) by (simp add: in_range_def)
  have e: "extract_frame ?raw ?m = ((?raw, True), ?m)"
    using assms(4,5) by (simp add: extract_frame_def accepts_forwarded_def)
  have n: "?raw \<noteq> []" by (simp add: encode_data_packet_def Let_def)
  have o: "acquisition_open ?m (sm_states ?m ! sm_index ?m)" using assms(7) by (simp add: acquisition_open_def)
  from frame_then_packet[OF i _ n e parse_data_packet_encoded[OF assms(9,10)] o] assms(2) a show ?thesis by simp
qed

lemma position_unique:
  assumes "distinct (map device_addr devices)" and "i < length devices"
  shows "device_position (device_addr (devices ! i)) devices = Some i"
    and "List.find (\<lambda>x. device_addr x = device_addr (devices ! i)) devices = Some (devices ! i)"
  using assms by (auto simp: device_position_def find_Some_iff distinct_conv_nth intro: exI[of _ i])

lemma forwarded_frame_reported:
  assumes "manager_ok m" and "sm_port m" and "sm_current_run m = Secondary" and "sm_rx_pending m = []"
    and "i < length (sm_devices m)" and "acquisition_open m (sm_states m ! i)"
    and "length header = 7" and "verify_checksum header" and "header ! 0 = device_addr (sm_devices m ! i)"
    and "device_data_len (sm_devices m ! i) \<in> {length status - 1, length status}"
    and "1 \<le> length status" and "length status \<le> 256"
    and "delivers env chunks" and "concat chunks = forward_frame header (encode_data_packet addr cmd status)"
  shows "\<exists>m'. receive_data_attempt env m = Some (Success, m') \<and> cached m' i = Some (device_report
      (spc_port_number (sm_port_config m)) (sm_devices m ! i) True True status (encode_data_packet addr cmd status))"
proof -
  let ?f = "encode_data_packet addr cmd status"
  let ?raw = "forward_frame header ?f"
  let ?m = "m\<lparr>sm_receive_sequence := sm_receive_sequence m + 1\<rparr>"
  have dist: "distinct (map device_addr (sm_devices m))" using manager_okD(2)[OF assms(1)] by (simp add: seen_ok_def)
  note pos = position_unique[OF dist assms(5)]
  have r: "read_frame env m = (GotFrame ?raw, [])"
    unfolding read_frame_def Let_def assms(4) using assms(3,7-14) pos(2)
    by (simp, intro forwarded_frame_assembled[where chunks = chunks and d = "sm_devices m ! i"]) (auto simp: delivers_def)
  have u: "unat (of_nat (length status - 1) :: u8) = length status - 1"
    using assms(11,12) by (intro unat_of_nat_small) simp
  have f: "length ?f = length status + 4" "unat (?f ! 2) + 5 = length status + 4"
    using assms(11) u by (auto simp: encode_data_packet_def Let_def)
  have raw: "?raw = header @ 0 # 0 # ?f" by (simp add: forward_frame_def)
  have v: "validated_forward_data_start ?raw = Some 9" using forward_start[OF assms(7,8)] raw by simp
  have dr: "drop 9 ?raw = ?f" "?raw ! 0 = header ! 0" using assms(7) by (simp_all add: raw nth_append)
  have e: "extract_frame ?raw ?m = ((?f, True), ?m\<lparr>sm_index := i\<rparr>)"
    using assms(3) v dr pos(1) assms(9) f by (simp add: extract_frame_def accepts_forwarded_def Let_def)
  have "sm_devices m \<noteq> []" using assms(5) by auto
  then have ir: "in_range ?m" using assms(1) by (intro ok_in_range) auto
  have o: "acquisition_open (?m\<lparr>sm_index := i\<rparr>) (sm_states (?m\<lparr>sm_index := i\<rparr>) ! sm_index (?m\<lparr>sm_index := i\<rparr>))"
    using assms(6) by (simp add: acquisition_open_def)
  have n: "?raw \<noteq> []" using assms(7) by (auto simp: raw)
  from frame_then_packet[OF ir _ n e parse_data_packet_encoded[OF assms(11,12)] o] assms(2) attempt_frame[OF assms(2,4) r]
  show ?thesis by simp
qed

section \<open>Sends\<close>

lemma write_segment_taken:
  assumes "write_segment env par data w m = (r, taken)"
  shows "\<exists>rest. data = taken @ rest" and "r = Ok () \<Longrightarrow> taken = data"
proof -
  have "(\<exists>rest. data = taken @ rest) \<and> (r = Ok () \<longrightarrow> taken = data)"
    using assms write_all_prefix
    by (auto simp: write_segment_def Let_def split: if_splits option.splits prod.splits sum.splits) (metis)+
  then show "\<exists>rest. data = taken @ rest" "r = Ok () \<Longrightarrow> taken = data" by auto
qed

text \<open>A sent command is on the line in full; a command that was not sent is there up to some byte.\<close>

lemma send_command_taken:
  assumes "manager_send_command env cmd m = (ok, taken, m')"
  shows "\<exists>rest. sd_command cmd = concat (map snd taken) @ rest"
    and "ok \<Longrightarrow> concat (map snd taken) = sd_command cmd"
    and "ok \<Longrightarrow> taken = (if spc_is_special (sm_port_config m) then [(None, sd_command cmd)]
      else [(Some MarkParity, [hd (sd_command cmd)]), (Some SpaceParity, tl (sd_command cmd))])"
proof -
  let ?d = "sd_command cmd"
  have "(\<exists>rest. ?d = concat (map snd taken) @ rest) \<and> (ok \<longrightarrow> concat (map snd taken) = ?d \<and>
      taken = (if spc_is_special (sm_port_config m) then [(None, ?d)]
        else [(Some MarkParity, [hd ?d]), (Some SpaceParity, tl ?d)]))"
  proof (cases "spc_is_special (sm_port_config m)")
    case True
    obtain r t where w: "write_segment (se_first env) None ?d False m = (r, t)" by fastforce
    note p = write_segment_taken[OF w]
    with True assms w show ?thesis
      by (cases r) (auto simp: manager_send_command_def Let_def split: if_splits)
  next
    case False
    obtain r t where w: "write_segment (se_first env) (Some MarkParity) [hd ?d] True m = (r, t)" by fastforce
    obtain r2 t2 where w2: "write_segment (se_second env) (Some SpaceParity) (tl ?d) True m = (r2, t2)" by fastforce
    note p = write_segment_taken[OF w] and p2 = write_segment_taken[OF w2]
    have d: "?d \<noteq> [] \<Longrightarrow> ?d = [hd ?d] @ tl ?d" by simp
    have "?d = t @ rest @ tl ?d" if "?d \<noteq> []" "[hd ?d] = t @ rest" for rest
      using d[OF that(1)] that(2) by (metis append.assoc)
    moreover have "?d = [hd ?d] @ t2 @ rest" if "?d \<noteq> []" "tl ?d = t2 @ rest" for rest
      using d[OF that(1)] that(2) by metis
    ultimately show ?thesis
      using False assms w w2 p p2 d
      by (cases r; cases r2) (auto simp: manager_send_command_def Let_def split: if_splits)
  qed
  then show "\<exists>rest. ?d = concat (map snd taken) @ rest" "ok \<Longrightarrow> concat (map snd taken) = ?d"
    "ok \<Longrightarrow> taken = (if spc_is_special (sm_port_config m) then [(None, ?d)]
      else [(Some MarkParity, [hd ?d]), (Some SpaceParity, tl ?d)])" by auto
qed

section \<open>Turns\<close>

text \<open>On a primary gateway a cycle that executes a command leaves the turn where it was; any other cycle
  passes it on.\<close>

lemma cycle_turn:
  assumes "manager_ok (wk_manager w)" and "cycle_driver_ok env" and "sm_enabled (wk_manager w)"
    and "sm_run_on (wk_manager w) = Primary" and "sm_current_run (wk_manager w) = Primary"
    and "sm_devices (wk_manager w) \<noteq> []" and "worker_cycle cx env n q w = Some w'"
  shows "sm_index (wk_manager w') =
    (if fst (execute_next_ready_command cx (cy_line env) n w) = None
     then (sm_index (wk_manager w) + 1) mod length (sm_devices (wk_manager w)) else sm_index (wk_manager w))"
proof -
  obtain r w1 where c: "run_primary_cycle cx (cy_line env) (cy_send env) n w = Some (r, w1)" "in_range (wk_manager w1)"
    "keeps (wk_manager w) (wk_manager w1)"
    using primary_cycle_ok[OF assms(1,6,2), of cx n] by blast
  obtain m2 where m2: "receive_after_cycle env q r (wk_manager w1) = Some m2" "manager_ok m2" "keeps (wk_manager w1) m2"
    using receive_ok[OF c(2) assms(2)] by blast
  have i: "in_range m2" by (rule in_range_keeps[OF c(2) m2(3,2)])
  obtain m3 where m3: "advance_index cx env r m2 = Some m3" "manager_ok m3"
    "sm_run_on m2 = Primary \<Longrightarrow> sm_current_run m2 = Primary \<Longrightarrow>
      sm_index m3 = (if r = CommandHandled then sm_index m2 else (sm_index m2 + 1) mod length (sm_devices m2))"
    using advance_ok[OF i assms(2), of cx r] by metis
  have k: "keeps (wk_manager w) m2" by (rule keeps_trans[OF c(3) m2(3)])
  have "wk_manager w' = m3" using assms(3,5-7) c(1) m2(1) m3(1) by (auto simp: worker_cycle_def)
  moreover have "r = CommandHandled \<longleftrightarrow> fst (execute_next_ready_command cx (cy_line env) n w) \<noteq> None"
    using c(1) by (auto simp: run_primary_cycle_def poll_device_def Let_def split: prod.splits option.splits if_splits)
  ultimately show ?thesis using m3(3) k assms(4,5) by (auto simp: keeps_def)
qed

section \<open>Silence\<close>

text \<open>A standby gateway that hears nothing counts its timeouts, and takes over when there are more than
  \<open>PORT_FAILOVER_TIMEOUT\<close> of them.\<close>

fun listen :: "(attempt_env \<times> nat) list \<Rightarrow> serial_manager \<Rightarrow> serial_manager option" where
  "listen [] m = Some m"
| "listen ((env, now) # envs) m = Option.bind (receive_data env now m) (listen envs)"

definition silent :: "attempt_env \<Rightarrow> bool" where
  "silent env \<longleftrightarrow> (\<forall>d. \<exists>t. re_read (av_read env) 0 d = Err (TimedOut, t))"

definition waiting :: "serial_manager \<Rightarrow> bool" where
  "waiting m \<longleftrightarrow> in_range m \<and> sm_port m \<and> sm_run_on m = Secondary \<and> sm_current_run m = Secondary \<and> sm_rx_pending m = []"

lemma silent_attempt:
  assumes "silent env" and "sm_port m" and "sm_rx_pending m = []"
  shows "receive_data_attempt env m =
    Some (Retryable QF_ReadTimeout, m\<lparr>sm_receive_sequence := sm_receive_sequence m + 1, sm_rx_pending := []\<rparr>)"
proof -
  have "assemble_frame (av_read env) fc 0 [] d False = (ReadTimedOut, [])" for fc d
    using assms(1)
    by (subst assemble_frame.simps)
      (auto simp: silent_def frame_complete_def complete_frame_len_def is_complete_short_direct_candidate_def READ_BUF_LEN_def
        split: sum.splits dest: spec[of _ d])
  then show ?thesis using assms(2,3) by (simp add: receive_data_attempt_def read_frame_def Let_def)
qed

lemma zero_counters [simp]:
  "sm_time_out_count (send_zero_status_for_index i c v m) = sm_time_out_count m"
  "sm_rx_pending (send_zero_status_for_index i c v m) = sm_rx_pending m"
  by (simp_all add: send_zero_status_for_index_def publish_status_def Let_def split: option.splits prod.splits)

lemma failure_log_counters:
  "log_device_failure kind now ctx m = Some m' \<Longrightarrow>
     sm_time_out_count m' = sm_time_out_count m \<and> sm_rx_pending m' = sm_rx_pending m \<and> sm_port m' = sm_port m
     \<and> sm_run_on m' = sm_run_on m \<and> sm_current_run m' = sm_current_run m"
  by (auto simp: log_device_failure_def Let_def log_record_def update_state_def
      split: if_splits prod.splits log_action.splits)

lemma silent_step:
  assumes "waiting m" and "silent env"
  obtains m' where "receive_data env now m = Some m'"
    and "if PORT_FAILOVER_TIMEOUT < sm_time_out_count m + 1 then sm_current_run m' = Primary
      else waiting m' \<and> sm_time_out_count m' = sm_time_out_count m + 1"
proof -
  have w: "in_range m" "sm_port m" "sm_run_on m = Secondary" "sm_current_run m = Secondary" "sm_rx_pending m = []"
    using assms(1) by (auto simp: waiting_def)
  let ?a = "m\<lparr>sm_receive_sequence := sm_receive_sequence m + 1, sm_rx_pending := []\<rparr>"
  obtain m' where m': "receive_data env now m = Some m'" "manager_ok m'" "keeps m m'"
    using receive_data_ok[OF w(1)] by blast
  then have c: "handle_device_failure ReadTimeout now None True ?a = Some m'"
    using silent_attempt[OF assms(2) w(2,5)] by (simp add: receive_data_def)
  let ?b = "(update_state (sm_index ?a) (\<lambda>s. s\<lparr>dr_timeout_count := dr_timeout_count s + 1\<rparr>) ?a)
    \<lparr>sm_time_out_count := sm_time_out_count m + 1\<rparr>"
  obtain m1 where m1: "log_device_failure ReadTimeout now None ?b = Some m1"
    "m' = promote_if_silent TooManyTimeouts (send_zero_status True False m1)"
    using c by (auto simp: handle_device_failure_def Let_def split: if_splits)
  have f: "sm_time_out_count m1 = sm_time_out_count m + 1" "sm_rx_pending m1 = []" "sm_port m1" "sm_run_on m1 = Secondary"
    "sm_current_run m1 = Secondary"
    using failure_log_counters[OF m1(1)] w by (simp_all add: update_state_def)
  have r: "in_range m'" by (rule in_range_keeps[OF w(1) m'(3,2)])
  show thesis
  proof (cases "PORT_FAILOVER_TIMEOUT < sm_time_out_count m + 1")
    case True
    with f m1(2) have "sm_current_run m' = Primary" by (simp add: promote_if_silent_def send_zero_status_def)
    with True that m'(1) show thesis by simp
  next
    case False
    with f m1(2) have "sm_port m' \<and> sm_run_on m' = Secondary \<and> sm_current_run m' = Secondary \<and> sm_rx_pending m' = []
        \<and> sm_time_out_count m' = sm_time_out_count m + 1"
      by (simp add: promote_if_silent_def send_zero_status_def)
    with False that m'(1) r show thesis by (simp add: waiting_def)
  qed
qed

lemma listen_silence:
  assumes "\<forall>(env, now) \<in> set envs. silent env" and "waiting m" and "unat (sm_time_out_count m) + length envs \<le> 21"
  shows "\<exists>m'. listen envs m = Some m' \<and>
    (if unat (sm_time_out_count m) + length envs \<le> 20 then waiting m' \<and> unat (sm_time_out_count m') = unat (sm_time_out_count m) + length envs
     else envs \<noteq> [] \<longrightarrow> sm_current_run m' = Primary)"
  using assms
proof (induction envs arbitrary: m)
  case (Cons x envs)
  obtain env now where x: "x = (env, now)" by fastforce
  have s: "silent env" using Cons.prems(1) x by auto
  have u: "unat (sm_time_out_count m + 1) = unat (sm_time_out_count m) + 1"
    using Cons.prems(3) by (simp add: unat_word_ariths)
  obtain m1 where m1: "receive_data env now m = Some m1"
    "if PORT_FAILOVER_TIMEOUT < sm_time_out_count m + 1 then sm_current_run m1 = Primary
      else waiting m1 \<and> sm_time_out_count m1 = sm_time_out_count m + 1"
    using silent_step[OF Cons.prems(2) s] by blast
  have t: "PORT_FAILOVER_TIMEOUT < sm_time_out_count m + 1 \<longleftrightarrow> 20 < unat (sm_time_out_count m) + 1"
    by (simp add: PORT_FAILOVER_TIMEOUT_def word_less_nat_alt u)
  show ?case
  proof (cases "20 < unat (sm_time_out_count m) + 1")
    case True
    with Cons.prems(3) have "envs = []" by (cases envs) auto
    with True t m1 x show ?thesis by simp
  next
    case False
    with t m1(2) have w: "waiting m1" "sm_time_out_count m1 = sm_time_out_count m + 1" by simp_all
    have "\<forall>(env, now) \<in> set envs. silent env" using Cons.prems(1) by auto
    from Cons.IH[OF this w(1)] w(2) u Cons.prems(3) False m1(1) x show ?thesis by (auto split: if_splits)
  qed
qed (simp)

section \<open>Repeated values\<close>

text \<open>The decisions for \<open>n\<close> reports in a row with the same content.\<close>

fun repeat_reports :: "nat \<Rightarrow> bytes \<Rightarrow> bool \<Rightarrow> bool \<Rightarrow> device_runtime \<Rightarrow> bool list" where
  "repeat_reports 0 data c v s = []"
| "repeat_reports (Suc n) data c v s = (let (b, s) = should_broadcast data c v s in b # repeat_reports n data c v s)"

definition remembers :: "bytes \<Rightarrow> bool \<Rightarrow> bool \<Rightarrow> device_runtime \<Rightarrow> bool" where
  "remembers data c v s \<longleftrightarrow> dr_last_data s = data \<and> dr_last_com_status s = Some c \<and> dr_last_device_status s = Some v"

lemma repeated_reports:
  assumes "remembers data c v s" and "unat (dr_same_count s) < 10"
  shows "length (filter id (repeat_reports n data c v s)) = (unat (dr_same_count s) + n) div 10"
  using assms
proof (induction n arbitrary: s)
  case (Suc n)
  have u: "unat (dr_same_count s + 1) = unat (dr_same_count s) + 1"
    using Suc.prems(2) by (simp add: unat_word_ariths)
  have r: "should_broadcast data c v s =
      (if 10 \<le> unat (dr_same_count s) + 1 then (True, s\<lparr>dr_same_count := 0\<rparr>)
       else (False, s\<lparr>dr_same_count := dr_same_count s + 1\<rparr>))"
    using Suc.prems(1) by (simp add: should_broadcast_def remembers_def SAME_DATA_BROADCAST_def word_le_nat_alt u)
  show ?case
  proof (cases "10 \<le> unat (dr_same_count s) + 1")
    case True
    have "remembers data c v (s\<lparr>dr_same_count := 0\<rparr>)" using Suc.prems(1) by (simp add: remembers_def)
    from Suc.IH[OF this] True Suc.prems(2) r show ?thesis by simp
  next
    case False
    have "remembers data c v (s\<lparr>dr_same_count := dr_same_count s + 1\<rparr>)" using Suc.prems(1) by (simp add: remembers_def)
    from Suc.IH[OF this] False u r show ?thesis by simp
  qed
qed simp

end
