(* ===== verification/Serial_Examples.thy ===== *)
theory Serial_Examples
  imports Worked_Examples Frame_Delivery "HOL-Library.Code_Target_Nat"
begin

text \<open>A serial port with one device, its driver, and one pass of its worker.\<close>

definition demo_device :: device_config where
  "demo_device = \<lparr>dc_config = demo_cfg, dc_records = [demo_point]\<rparr>"

definition demo_port :: serial_port_config where
  "demo_port = port_config_new ''COM1'' 9600 False [demo_device]"

definition demo_conf :: serial_config where
  "demo_conf = serial_config_new ''COM1'' 9600 (millis 50)"

definition demo_open :: open_env where
  "demo_open = \<lparr>oe_checked = 0, oe_now = 0, oe_failure = None\<rparr>"

definition demo_cut :: open_env where
  "demo_cut = \<lparr>oe_checked = 0, oe_now = 0, oe_failure = Some ''unplugged''\<rparr>"

definition demo_manager :: "open_env \<Rightarrow> run_location \<Rightarrow> serial_manager" where
  "demo_manager env role = manager_new env demo_conf demo_port [] role role"

text \<open>The driver takes what it is given, and delivers the given pieces.\<close>

definition demo_segment :: "nat \<Rightarrow> segment_env" where
  "demo_segment n = \<lparr>sg_now = 0, sg_parity = None,
     sg_write = (\<lambda>i. \<lparr>call_now = 0, call_set = None, call_io = Ok n, call_restore = None\<rparr>),
     sg_polls = [], sg_drained = 0\<rparr>"

definition demo_send :: send_env where
  "demo_send = \<lparr>se_first = demo_segment 1, se_second = demo_segment 6, se_open = demo_open\<rparr>"

definition demo_reads :: "bytes list \<Rightarrow> nat \<Rightarrow> nat \<Rightarrow> io_error + bytes" where
  "demo_reads chunks k deadline = (if k < length chunks then Ok (chunks ! k) else Err (TimedOut, []))"

definition demo_attempt :: "bytes list \<Rightarrow> attempt_env" where
  "demo_attempt chunks = \<lparr>av_start = 0, av_started = 0,
     av_read = \<lparr>re_read = demo_reads chunks, re_now = (\<lambda>i. 0), re_idle = (\<lambda>i. False)\<rparr>,
     av_open = demo_open, av_now = 0, av_utc = ''t''\<rparr>"

definition demo_chunks2 :: "bytes list" where "demo_chunks2 = [[2, 3], [0, 1, 6]]"

definition demo_header :: bytes where "demo_header = [2, 8, 2, 0x30, 0x10, 0, 0x4C]"

definition demo_forwarded :: "bytes list" where "demo_forwarded = [demo_header, [0, 0, 2], [3, 0, 1, 6]]"

definition demo_query :: query_env where
  "demo_query = \<lparr>qe_first = demo_attempt demo_chunks2, qe_send = demo_send, qe_second = demo_attempt demo_chunks2,
     qe_now = 0\<rparr>"

definition demo_version :: version_env where
  "demo_version = \<lparr>ve_open = demo_open, ve_send = demo_send, ve_read = demo_reads [], ve_now = (\<lambda>i. 0),
     ve_start = 0, ve_reopen = demo_open\<rparr>"

definition demo_line :: line_env where
  "demo_line = \<lparr>le_now = 0, le_popped = 0, le_completed = 0, le_clock = (\<lambda>i. 0), le_send = (\<lambda>i. demo_send),
     le_ack = (\<lambda>i. \<lparr>ae_read = (\<lambda>k. demo_reads [[0x00, 0x50, 0x50]] k 0), ae_open = demo_open\<rparr>)\<rparr>"

definition demo_cycle :: cycle_env where
  "demo_cycle = \<lparr>cy_line = demo_line, cy_send = demo_send, cy_query = demo_query,
     cy_listen = demo_attempt demo_forwarded, cy_listened = 0, cy_admission = (\<lambda>d. NotNeeded), cy_version = demo_version\<rparr>"

definition demo_cx :: worker_ctx where
  "demo_cx = \<lparr>wx_operations = True, wx_utc = ''t''\<rparr>"

definition demo_worker :: "serial_manager \<Rightarrow> worker" where
  "demo_worker m = \<lparr>wk_manager = m, wk_queue = [], wk_tracker = open_state 0 [], wk_updates = [],
     wk_system = [], wk_replies = [], wk_completed = []\<rparr>"

definition demo_incoming :: incoming_env where
  "demo_incoming = \<lparr>ie_current = True, ie_domestic = (\<lambda>d. False), ie_startup = [], ie_report = (\<lambda>r. Ok ()),
     ie_open = demo_open, ie_now = 0, ie_version = demo_version\<rparr>"

definition demo_off :: command where
  "demo_off = \<lparr>cmd_com = ''COM1'', cmd_command = PortStatus False, cmd_ack_id = None, cmd_expires_at = None,
     cmd_control_receipt = None, cmd_permit = False\<rparr>"

lemma demo_fresh: "fresh_port demo_port []"
  by (simp add: fresh_port_def demo_port_def port_config_new_def btree_ok_def)

lemma demo_drivers: "send_driver_ok demo_send" "cycle_driver_ok demo_cycle" "incoming_driver_ok [(demo_incoming, demo_off)]"
  "incoming_driver_ok []"
  by (simp_all add: send_driver_ok_def segment_driver_ok_def cycle_driver_ok_def incoming_driver_ok_def demo_send_def
      demo_segment_def demo_cycle_def demo_line_def demo_query_def demo_version_def demo_incoming_def)

lemma demo_manager_ok: "manager_ok (demo_manager env role)"
  using demo_fresh by (auto simp: demo_manager_def fresh_port_def intro: manager_new_ok)

text \<open>The start of a worker, one pass of it, and one after the port was switched off.\<close>

definition demo_start_on :: "open_env \<Rightarrow> run_location \<Rightarrow> serial_manager" where
  "demo_start_on env role = the (start_manager env demo_conf demo_port [] role role True 0 (\<lambda>d. True) [])"

abbreviation demo_start :: "run_location \<Rightarrow> serial_manager" where
  "demo_start role \<equiv> demo_start_on demo_open role"

definition demo_first_pass :: "run_location \<Rightarrow> worker" where
  "demo_first_pass role = the (worker_pass demo_cx demo_cycle 1 0 [] (demo_worker (demo_start role)))"

definition demo_switched_off :: worker where
  "demo_switched_off =
     the (worker_pass demo_cx demo_cycle 1 0 [(demo_incoming, demo_off)] (demo_first_pass Primary))"

lemma demo_worker_manager [simp]: "wk_manager (demo_worker m) = m"
  by (simp add: demo_worker_def)

lemma demo_started:
  "start_manager env demo_conf demo_port [] role role True 0 (\<lambda>d. True) [] =
     Some (wk_manager (demo_worker (demo_start_on env role)))"
  "manager_ok (demo_start_on env role)"
proof -
  obtain m where "start_manager env demo_conf demo_port [] role role True 0 (\<lambda>d. True) [] = Some m" "manager_ok m"
    using start_ok[OF demo_fresh] by metis
  then show "start_manager env demo_conf demo_port [] role role True 0 (\<lambda>d. True) [] =
     Some (wk_manager (demo_worker (demo_start_on env role)))"
    "manager_ok (demo_start_on env role)" by (simp_all add: demo_start_on_def)
qed

lemma demo_run_pass: "worker_run demo_cx (demo_worker (demo_start role)) (demo_first_pass role)"
proof -
  have "goes_on (demo_worker (demo_start role)) (worker_pass demo_cx demo_cycle 1 0 [] (demo_worker (demo_start role)))"
    using demo_started(2) demo_drivers by (intro pass_ok) auto
  then have "worker_pass demo_cx demo_cycle 1 0 [] (demo_worker (demo_start role)) = Some (demo_first_pass role)"
    by (auto simp: goes_on_def demo_first_pass_def)
  from worker_run.pass[OF worker_run.start demo_drivers(2,4) this] show ?thesis .
qed

lemma demo_run_off: "worker_run demo_cx (demo_worker (demo_start Primary)) demo_switched_off"
proof -
  have "manager_ok (wk_manager (demo_first_pass Primary))"
    using worker_run_ok[OF demo_run_pass, of Primary] demo_started(2) by auto
  then have "goes_on (demo_first_pass Primary)
      (worker_pass demo_cx demo_cycle 1 0 [(demo_incoming, demo_off)] (demo_first_pass Primary))"
    using demo_drivers by (intro pass_ok)
  then have "worker_pass demo_cx demo_cycle 1 0 [(demo_incoming, demo_off)] (demo_first_pass Primary) = Some demo_switched_off"
    by (auto simp: goes_on_def demo_switched_off_def)
  from worker_run.pass[OF demo_run_pass demo_drivers(2,3) this] show ?thesis .
qed

lemma demo_good: "map_option (\<lambda>st. (ds_device_status st, ds_value st ''PK'')) (cached (wk_manager (demo_first_pass Primary)) 0) =
    Some (True, Some (V_Bool True))"
  by code_simp

lemma demo_port_fields: "length (spc_devices demo_port) = 1" "spc_port_number demo_port = ''COM1''"
  by (simp_all add: demo_port_def port_config_new_def)

end
