(* ===== verification/Serial_Properties.thy ===== *)
theory Serial_Properties
  imports Serial_Examples
begin

text \<open>
  The properties of the serial workers (\<open>src/src/serial\<close>): what they show to readers, how they react to
  failures, what they put on the line and take from it.
\<close>

section \<open>What readers see\<close>

lemma run_from_start:
  assumes "fresh_port pc cache"
    and "start_manager env conf pc cache run_on role on interval readable startup = Some (wk_manager w)"
    and "worker_run cx w w'"
  shows "manager_ok (wk_manager w')" and "sm_devices (wk_manager w') = spc_devices pc"
    and "run_on = Primary \<Longrightarrow> sm_current_run (wk_manager w') = role"
proof -
  obtain m where m: "start_manager env conf pc cache run_on role on interval readable startup = Some m" "manager_ok m"
    "sm_devices m = spc_devices pc" "sm_run_on m = run_on" "sm_current_run m \<noteq> role \<Longrightarrow> run_on = Secondary"
    using start_ok[OF assms(1), of env conf run_on role on interval readable startup] by metis
  with assms(2) have w: "wk_manager w = m" by simp
  note r = worker_run_ok[OF assms(3), unfolded w, OF m(2)]
  then show "manager_ok (wk_manager w')" "sm_devices (wk_manager w') = spc_devices pc"
    "run_on = Primary \<Longrightarrow> sm_current_run (wk_manager w') = role"
    using m(3-5) by (auto simp: keeps_config_def)
qed

lemmas demo_from_start = demo_fresh demo_started(1)

text \<open>C3 The subscribers are never behind the cache: at every point of a worker's run, whatever the devices
  answered, whatever commands came and however often the worker was restarted, the last report of a
  device that the subscribers were sent shows the same identity, states and values as the cached one. (In a
  run the driver does not call an open port not connected when it is written to.)\<close>

theorem subscribers_agree_with_cache:
  assumes "fresh_port pc cache"
    and "start_manager env conf pc cache run_on role on interval readable startup = Some (wk_manager w)"
    and "worker_run cx w w'" and "i < length (spc_devices pc)"
  shows "map_option shown (cached (wk_manager w') i) = map_option shown (published (wk_manager w') i)"
  using run_from_start[OF assms(1-3)] assms(4) by (intro cache_agrees) auto

theorem subscribers_agree_with_cache_witness:
  "cached (wk_manager (demo_first_pass Primary)) 0 \<noteq> None
   \<and> map_option shown (cached (wk_manager (demo_first_pass Primary)) 0) =
       map_option shown (published (wk_manager (demo_first_pass Primary)) 0)"
  using subscribers_agree_with_cache[OF demo_from_start demo_run_pass, of 0] demo_good
  by (auto simp: demo_port_fields)

text \<open>C4 A device is shown as good only while its port is enabled and open and the device is enabled for
  reading, also when its peer gateway still polls it. (In a run the driver does not call an open port not
  connected when it is written to.)\<close>

theorem good_only_while_readable:
  assumes "fresh_port pc cache"
    and "start_manager env conf pc cache run_on role on interval readable startup = Some (wk_manager w)"
    and "worker_run cx w w'" and "i < length (spc_devices pc)"
    and "cached (wk_manager w') i = Some st" and "ds_device_status st"
  shows "ds_com_status st \<and> sm_port (wk_manager w') \<and> sm_enabled (wk_manager w')
    \<and> dr_is_enabled (sm_states (wk_manager w') ! i) \<and> dr_read_enabled (sm_states (wk_manager w') ! i)"
  using good_is_readable[of "wk_manager w'" i st] run_from_start[OF assms(1-3)] assms(4-6)
  by (auto simp: acquisition_open_def)

theorem good_only_while_readable_witness:
  "sm_port (wk_manager (demo_first_pass Primary)) \<and> dr_read_enabled (sm_states (wk_manager (demo_first_pass Primary)) ! 0)"
proof -
  obtain st where "cached (wk_manager (demo_first_pass Primary)) 0 = Some st" "ds_device_status st"
    using demo_good by auto
  from good_only_while_readable[OF demo_from_start demo_run_pass _ this] show ?thesis by (simp add: demo_port_fields)
qed

text \<open>C10 While a port is closed, because it cannot be opened, was lost or was switched off, every device
  of it is shown offline, with the values of an all-zero frame. (In a run the driver does not call an open
  port not connected when it is written to.)\<close>

theorem closed_port_shows_offline:
  assumes "fresh_port pc cache"
    and "start_manager env conf pc cache run_on role on interval readable startup = Some (wk_manager w)"
    and "worker_run cx w w'" and "i < length (spc_devices pc)"
    and "\<not> sm_port (wk_manager w') \<or> \<not> sm_enabled (wk_manager w')"
  shows "\<exists>st. cached (wk_manager w') i = Some st \<and> \<not> ds_com_status st \<and> \<not> ds_device_status st
    \<and> ds_value st = parse_status (zero_data (spc_devices pc ! i)) (dc_records (spc_devices pc ! i))"
proof -
  note r = run_from_start[OF assms(1-3)]
  have i: "i < length (sm_devices (wk_manager w'))" using r(2) assms(4) by simp
  have "\<not> sm_port (wk_manager w')" using assms(5) manager_okD(6)[OF r(1)] by blast
  from closed_is_offline[OF r(1) i this] obtain st where
    st: "cached (wk_manager w') i = Some st" "\<not> ds_com_status st" "\<not> ds_device_status st" by metis
  with not_good_is_zero[OF r(1) i st(1,3)] r(2) show ?thesis by auto
qed

theorem closed_port_shows_offline_witness:
  "\<exists>st. cached (demo_start_on demo_cut Primary) 0 = Some st \<and> \<not> ds_com_status st \<and> \<not> ds_device_status st"
proof -
  have "\<not> sm_port (demo_start_on demo_cut Primary)" by code_simp
  with closed_port_shows_offline[OF demo_from_start worker_run.start, of 0 demo_cut Primary] show ?thesis
    by (auto simp: demo_port_fields)
qed

text \<open>What a port reports to the operations service is the cache's view: a device is reported online
  exactly when its cached report is good.\<close>

theorem online_report_is_cache:
  assumes "fresh_port pc cache"
    and "start_manager env conf pc cache run_on role on interval readable startup = Some (wk_manager w)"
    and "worker_run cx w w'" and "i < length (spc_devices pc)"
    and "refresh_operations_state (wk_manager w') = (port, enabled, opened, reports)"
  shows "rr_online (reports ! i) \<longleftrightarrow> (\<exists>st. cached (wk_manager w') i = Some st \<and> ds_device_status st)"
  using online_report[of "wk_manager w'" port enabled opened reports i] run_from_start[OF assms(1-3)] assms(4,5) by auto

section \<open>Progress and roles\<close>

text \<open>C32 A pass of a worker never panics: every index into the device tables is in range, whatever commands
  it takes and whatever the devices and the driver answer, given that the driver does not call an open
  port not connected when it is written to.\<close>

theorem worker_never_panics:
  assumes "fresh_port pc cache"
    and "start_manager env conf pc cache run_on role on interval readable startup = Some (wk_manager w)"
    and "worker_run cx w w'" and "cycle_driver_ok cenv" and "incoming_driver_ok channel"
  shows "\<exists>w''. worker_pass cx cenv n q channel w' = Some w''"
  using pass_ok[OF run_from_start(1)[OF assms(1-3)] assms(4,5), of cx n q] by (auto simp: goes_on_def)

theorem worker_never_panics_witness:
  "\<exists>w''. worker_pass demo_cx demo_cycle 1 0 [(demo_incoming, demo_off)] (demo_first_pass Primary) = Some w''"
  using worker_never_panics[OF demo_from_start demo_run_pass demo_drivers(2,3)] .

text \<open>A gateway configured as primary keeps its role for ever; only a gateway configured as standby
  takes over and steps back.\<close>

theorem configured_primary_keeps_role:
  assumes "fresh_port pc cache"
    and "start_manager env conf pc cache Primary role on interval readable startup = Some (wk_manager w)"
    and "worker_run cx w w'"
  shows "sm_current_run (wk_manager w') = role"
  using run_from_start(3)[OF assms] by simp

section \<open>Frames and commands on the line\<close>

text \<open>C31 On a primary gateway the answer of the polled device is reported, in whatever pieces it arrives and
  in both readings of the configured data length: the cached report is good and has the values of the
  status bytes. The address in the frame is not compared with the polled device's.\<close>

theorem polled_answer_reported:
  assumes "manager_ok m" and "sm_port m" and "sm_index m < length (sm_devices m)"
    and "sm_run_on m = Primary" and "sm_current_run m = Primary" and "sm_rx_pending m = []"
    and "acquisition_open m (sm_states m ! sm_index m)"
    and "device_data_len (sm_devices m ! sm_index m) \<in> {length status - 1, length status}"
    and "1 \<le> length status" and "length status \<le> 256"
    and "delivers env chunks" and "concat chunks = encode_data_packet addr cmd status"
  shows "\<exists>m'. receive_data_attempt env m = Some (Success, m') \<and> cached m' (sm_index m) = Some (device_report
      (spc_port_number (sm_port_config m)) (sm_devices m ! sm_index m) True True status (encode_data_packet addr cmd status))"
  using assms by (rule direct_answer_reported)

lemma demo_manager_fields:
  "sm_port (demo_manager demo_open role)" "sm_index (demo_manager demo_open role) = 0"
  "sm_devices (demo_manager demo_open role) = [demo_device]" "sm_run_on (demo_manager demo_open role) = role"
  "sm_current_run (demo_manager demo_open role) = role" "sm_rx_pending (demo_manager demo_open role) = []"
  "spc_port_number (sm_port_config (demo_manager demo_open role)) = ''COM1''"
  "acquisition_open (demo_manager demo_open role) (sm_states (demo_manager demo_open role) ! 0)"
  by (simp_all add: demo_manager_def manager_new_def demo_open_def demo_port_def port_config_new_def acquisition_open_def
      device_runtime_new_def)

lemma demo_delivers: "[] \<notin> set chunks \<Longrightarrow> delivers (demo_attempt chunks) chunks"
  by (simp add: delivers_def demo_attempt_def demo_reads_def)

lemma demo_device_len: "device_data_len demo_device = 0"
  by (simp add: device_data_len_def demo_device_def demo_cfg_def)

theorem polled_answer_reported_witness:
  "\<exists>m'. receive_data_attempt (demo_attempt demo_chunks2) (demo_manager demo_open Primary) = Some (Success, m')
     \<and> cached m' 0 = Some (device_report ''COM1'' demo_device True True [1] demo_frame)"
proof -
  have e: "encode_data_packet 2 3 [1] = demo_frame" by (simp add: encode_data_packet_def get_sum_def demo_frame_def)
  have c: "concat demo_chunks2 = encode_data_packet 2 3 [1]" unfolding e by (simp add: demo_chunks2_def demo_frame_def)
  have "delivers (demo_attempt demo_chunks2) demo_chunks2" by (rule demo_delivers) (simp add: demo_chunks2_def)
  from polled_answer_reported[OF demo_manager_ok demo_manager_fields(1) _ _ _ demo_manager_fields(6) _ _ _ _ this c]
  show ?thesis by (simp add: demo_manager_fields demo_device_len e)
qed

text \<open>A standby gateway reports the frames it overhears for the device named in the forwarding header,
  whatever device it attended to before and in whatever pieces header and frame arrive.\<close>

theorem overheard_frame_reported:
  assumes "manager_ok m" and "sm_port m" and "sm_current_run m = Secondary" and "sm_rx_pending m = []"
    and "i < length (sm_devices m)" and "acquisition_open m (sm_states m ! i)"
    and "length header = 7" and "verify_checksum header" and "header ! 0 = device_addr (sm_devices m ! i)"
    and "device_data_len (sm_devices m ! i) \<in> {length status - 1, length status}"
    and "1 \<le> length status" and "length status \<le> 256"
    and "delivers env chunks" and "concat chunks = forward_frame header (encode_data_packet addr cmd status)"
  shows "\<exists>m'. receive_data_attempt env m = Some (Success, m') \<and> cached m' i = Some (device_report
      (spc_port_number (sm_port_config m)) (sm_devices m ! i) True True status (encode_data_packet addr cmd status))"
  using assms by (rule forwarded_frame_reported)

text \<open>A command that was sent is on the line in full and once, on an ordinary port the address byte with
  mark parity and the rest with space parity; of a command that could not be sent, the line has at most
  a beginning.\<close>

theorem sent_command_on_line:
  assumes "manager_send_command env cmd m = (ok, taken, m')"
  shows "(\<exists>rest. sd_command cmd = concat (map snd taken) @ rest)
    \<and> (if ok then taken = (if spc_is_special (sm_port_config m) then [(None, sd_command cmd)]
         else [(Some MarkParity, [hd (sd_command cmd)]), (Some SpaceParity, tl (sd_command cmd))]) else True)"
  using send_command_taken[OF assms] by auto

text \<open>C33 On a primary gateway a control command takes precedence over the scan but does not cost the device
  its turn: a cycle that executes a command leaves the index, any other cycle passes the turn to the next
  device, round the list.\<close>

theorem commands_cost_no_turn:
  assumes "manager_ok (wk_manager w)" and "cycle_driver_ok env" and "sm_enabled (wk_manager w)"
    and "sm_run_on (wk_manager w) = Primary" and "sm_current_run (wk_manager w) = Primary"
    and "sm_devices (wk_manager w) \<noteq> []" and "worker_cycle cx env n q w = Some w'"
  shows "sm_index (wk_manager w') =
    (if fst (execute_next_ready_command cx (cy_line env) n w) = None
     then (sm_index (wk_manager w) + 1) mod length (sm_devices (wk_manager w)) else sm_index (wk_manager w))"
  using assms by (rule cycle_turn)

theorem commands_cost_no_turn_witness:
  "sm_index (wk_manager (the (worker_cycle demo_cx demo_cycle 1 0 (demo_worker (demo_manager demo_open Primary))))) = 0"
proof -
  let ?w = "demo_worker (demo_manager demo_open Primary)"
  have "goes_on ?w (worker_cycle demo_cx demo_cycle 1 0 ?w)" using demo_manager_ok demo_drivers by (intro cycle_ok) auto
  then obtain w' where w': "worker_cycle demo_cx demo_cycle 1 0 ?w = Some w'" by (auto simp: goes_on_def)
  have "sm_enabled (demo_manager demo_open Primary)"
    using demo_manager_fields(8)[of Primary] by (simp add: acquisition_open_def)
  then show ?thesis
    using commands_cost_no_turn[OF _ demo_drivers(2) _ _ _ _ w'] w' by (simp add: demo_manager_ok demo_manager_fields)
qed

section \<open>Silence, repetition and diagnostics\<close>

text \<open>C34 A standby gateway takes over after 21 reads in a row without an answer, and not before: the code
  switches when the count of timeouts is above the threshold of 20. (The guide of the gateway and the
  comment on the threshold say that it takes over after 20.)\<close>

theorem standby_takes_over:
  assumes "waiting m" and "sm_time_out_count m = 0" and "\<forall>(env, now) \<in> set envs. silent env" and "length envs \<le> 21"
  shows "\<exists>m'. listen envs m = Some m' \<and> sm_current_run m' = (if length envs = 21 then Primary else Secondary)"
  using listen_silence[OF assms(3,1)] assms(2,4) by (auto simp: waiting_def split: if_splits)

theorem standby_takes_over_witness:
  "\<exists>m'. listen (replicate 21 (demo_attempt [], 0)) (demo_manager demo_open Secondary) = Some m' \<and> sm_current_run m' = Primary"
proof -
  have "waiting (demo_manager demo_open Secondary)"
    using demo_manager_ok by (simp add: waiting_def in_range_def demo_manager_fields)
  moreover have "sm_time_out_count (demo_manager demo_open Secondary) = 0" by code_simp
  moreover have "silent (demo_attempt [])" by (simp add: silent_def demo_attempt_def demo_reads_def)
  ultimately show ?thesis
    using standby_takes_over[of "demo_manager demo_open Secondary" "replicate 21 (demo_attempt [], 0)"] by simp
qed

text \<open>A value that does not change is sent to the subscribers again with every tenth report, counted
  from the last one that was sent.\<close>

theorem every_tenth_report_sent:
  assumes "remembers data c v s" and "unat (dr_same_count s) < 10"
  shows "length (filter id (repeat_reports n data c v s)) = (unat (dr_same_count s) + n) div 10"
  using assms by (rule repeated_reports)

text \<open>The acknowledgement \<open>00 50 50\<close> is recognised anywhere in what a device sends and across the
  pieces in which it arrives, and an attempt succeeds only with it; reading it changes nothing of the
  port's state.\<close>

theorem acknowledgement_recognised:
  assumes "sm_port m" and "\<And>k. k < length chunks \<Longrightarrow> ae_read env k = Ok (chunks ! k)" and "[] \<notin> set chunks"
    and "ae_read env (length chunks) = Err (TimedOut, e)" and "length (concat chunks) < READ_BUF_LEN"
  shows "snd (receive_command_ack_result env m) = m
    \<and> (fst (receive_command_ack_result env m) = Ok () \<longleftrightarrow> (\<exists>pre post. concat chunks = pre @ [0x00, 0x50, 0x50] @ post))"
proof -
  have "\<exists>seen. read_ack (ae_read env) 0 [] = Ok (contains_command_ack ([] @ concat chunks), seen)"
    using assms by (intro read_ack_chunks) (auto simp: contains_command_ack_def COMMAND_ACK_BYTES_def)
  then obtain seen where "read_ack (ae_read env) 0 [] = Ok (contains_command_ack (concat chunks), seen)" by auto
  then show ?thesis
    using assms(1) contains_ack_iff[of "concat chunks"]
    by (auto simp: receive_command_ack_result_def COMMAND_ACK_BYTES_def split: bool.splits)
qed

text \<open>The failures of a device do not flood the log: in an episode at most two lines are written at
  once, one per kind of failure, any other failure is logged only in a summary a minute after the last
  line, and left out otherwise.\<close>

theorem failure_lines_limited:
  "lines_ok (dfl_last_log_at failure_log_default) (flog.run es failure_log_default)
   \<and> length (filter (\<lambda>(t, a). immediate a) (flog.run es failure_log_default)) \<le> 2"
  using flog.run_lines_ok[OF log_defaults_ok(1), of es] episode_immediate[of es failure_log_default]
  by (simp add: unlogged_def failure_log_default_def)

text \<open>A frame is written within a bounded time: every frame that is accepted for sending gets at least
  the time its bits need on the line, twelve for a byte, and never more than five seconds.\<close>

theorem transmit_time_bounded:
  assumes "minimum_transmit_timeout n baud \<le> MAX_TRANSMIT_TIMEOUT" and "n < 2 ^ 30" and "baud \<noteq> 0"
  shows "12 * 10 ^ 9 * n \<le> transmit_timeout n baud configured * unat baud
    \<and> transmit_timeout n baud configured \<le> 5 * 10 ^ 9"
proof -
  note b = transmit_timeout_bounds[OF assms(1), of configured]
  have "wire_duration n baud \<le> minimum_transmit_timeout n baud"
    using assms(1) by (auto simp: minimum_transmit_timeout_def transmit_wire_budget_def dur_add_def
        MAX_TRANSMIT_TIMEOUT_def DURATION_MAX_def millis_def min_def split: if_splits)
  then have w: "wire_duration n baud * unat baud \<le> transmit_timeout n baud configured * unat baud"
    using b(1) by (intro mult_le_mono1) simp
  show ?thesis using order_trans[OF wire_duration_bounds(1)[OF assms(2,3)] w] b(2)
    by (simp add: MAX_TRANSMIT_TIMEOUT_def millis_def del: mult_le_cancel2)
qed

end
