(* ===== verification/Link_Frame.thy ===== *)
theory Link_Frame
  imports Prelude
begin

text \<open>
  The envelope of the link between two units (\<open>src/communicate/src/frame.rs\<close>): three lengths, the
  payload, raw or compressed, and a CRC. \<open>encode\<close>, \<open>decode\<close> and the decoder of the byte stream. The zlib
  and CRC libraries are the parameter \<open>codec\<close>; what is relied upon of them is \<open>codec_ok\<close>.

  A decoder's counters are 64 bits wide; one call adds at most the length of its buffer, so they are
  natural numbers here.
\<close>

section \<open>Lengths and limits\<close>

record limits =
  lim_frame :: nat
  lim_payload :: nat

datatype frame_error =
  BadLength | Checksum | CompressionError string | Decompression string | PayloadLength | BufferLimit

definition limits_validate :: "limits \<Rightarrow> frame_error + unit" where
  "limits_validate l =
     (if \<not> (10 \<le> lim_frame l \<and> lim_frame l \<le> 65535) \<or> \<not> (1 \<le> lim_payload l \<and> lim_payload l \<le> 65535)
      then Err BadLength else Ok ())"

text \<open>\<open>u16::from_le_bytes\<close> and the two \<open>to_le_bytes\<close>.\<close>

definition u16_at :: "bytes \<Rightarrow> nat \<Rightarrow> nat" where
  "u16_at bs offset = unat (bs ! offset) + 256 * unat (bs ! (offset + 1))"

definition u16_to_le_bytes :: "u16 \<Rightarrow> bytes" where
  "u16_to_le_bytes w = [ucast w, ucast (drop_bit 8 w)]"

definition u32_to_le_bytes :: "u32 \<Rightarrow> bytes" where
  "u32_to_le_bytes w = [ucast w, ucast (drop_bit 8 w), ucast (drop_bit 16 w), ucast (drop_bit 24 w)]"

definition u32_of_le_bytes :: "bytes \<Rightarrow> u32" where
  "u32_of_le_bytes bs = ucast (bs ! 0) OR push_bit 8 (ucast (bs ! 1)) OR push_bit 16 (ucast (bs ! 2)) OR push_bit 24 (ucast (bs ! 3))"

definition valid_header :: "bytes \<Rightarrow> limits \<Rightarrow> bool" where
  "valid_header bs l =
     (let total = u16_at bs 0; plain = u16_at bs 2; compressed = u16_at bs 4
      in 10 \<le> total \<and> total \<le> lim_frame l \<and> plain \<le> lim_payload l \<and> compressed + 10 = total)"

section \<open>Encoding and decoding\<close>

text \<open>
  \<open>cd_compress\<close> is the zlib encoder; \<open>cd_decompress input size\<close> what the decoder does with an output
  buffer of \<open>size\<close> bytes: whether the stream ended, the bytes written and the number of bytes read.
\<close>

record codec =
  cd_crc :: "bytes \<Rightarrow> u32"
  cd_compress :: "bytes \<Rightarrow> string + bytes"
  cd_decompress :: "bytes \<Rightarrow> nat \<Rightarrow> string + (bool \<times> bytes \<times> nat)"

definition encode :: "codec \<Rightarrow> bytes \<Rightarrow> limits \<Rightarrow> frame_error + bytes" where
  "encode c payload l =
     and_then (limits_validate l) (\<lambda>_.
       if lim_payload l < length payload then Err BadLength
       else and_then (map_err CompressionError (cd_compress c payload)) (\<lambda>compressed.
         let compressed = (if length payload \<le> length compressed then payload else compressed);
             total = length compressed + 10
         in if lim_frame l < total then Err BadLength
            else let frame = u16_to_le_bytes (of_nat total) @ u16_to_le_bytes (of_nat (length payload))
                               @ u16_to_le_bytes (of_nat (length compressed)) @ compressed
                 in Ok (frame @ u32_to_le_bytes (cd_crc c frame))))"

definition inflate :: "codec \<Rightarrow> bytes \<Rightarrow> nat \<Rightarrow> frame_error + bytes" where
  "inflate c body declared =
     and_then (map_err Decompression (cd_decompress c body (declared + 1))) (\<lambda>(ended, out, consumed).
       if \<not> ended \<or> length out \<noteq> declared \<or> consumed \<noteq> length body then Err PayloadLength
       else Ok (take declared (out @ replicate (declared + 1 - length out) 0)))"

definition decode :: "codec \<Rightarrow> bytes \<Rightarrow> limits \<Rightarrow> frame_error + bytes" where
  "decode c frame l =
     and_then (limits_validate l) (\<lambda>_.
       if length frame < 10 \<or> \<not> valid_header frame l \<or> u16_at frame 0 \<noteq> length frame then Err BadLength
       else let end = length frame - 4
         in if cd_crc c (take end frame) \<noteq> u32_of_le_bytes (drop end frame) then Err Checksum
            else let declared = u16_at frame 2; body = drop 6 (take end frame)
                 in if declared = end - 6 then Ok body else inflate c body declared)"

section \<open>The stream decoder\<close>

record feed_result =
  fr_payloads :: "bytes list"
  fr_rejected :: nat
  fr_discarded :: nat

definition feed_default :: feed_result where
  "feed_default = \<lparr>fr_payloads = [], fr_rejected = 0, fr_discarded = 0\<rparr>"

definition got :: "bytes \<Rightarrow> feed_result \<Rightarrow> feed_result" where
  "got p r = r\<lparr>fr_payloads := fr_payloads r @ [p]\<rparr>"

definition discard :: "nat \<Rightarrow> feed_result \<Rightarrow> feed_result" where
  "discard n r = r\<lparr>fr_discarded := fr_discarded r + n\<rparr>"

definition reject :: "feed_result \<Rightarrow> feed_result" where
  "reject r = r\<lparr>fr_rejected := fr_rejected r + 1\<rparr>"

record frame_decoder =
  fd_limits :: limits
  fd_buffer :: bytes

definition decoder_new :: "limits \<Rightarrow> frame_error + frame_decoder" where
  "decoder_new l = map_ok (\<lambda>_. \<lparr>fd_limits = l, fd_buffer = []\<rparr>) (limits_validate l)"

definition decoder_reset :: "frame_decoder \<Rightarrow> frame_decoder" where
  "decoder_reset d = d\<lparr>fd_buffer := []\<rparr>"

definition has_partial_frame :: "frame_decoder \<Rightarrow> bool" where
  "has_partial_frame d \<longleftrightarrow> fd_buffer d \<noteq> []"

text \<open>The loops of \<open>recover_expired\<close> and \<open>feed\<close>; \<open>tail\<close> is the buffer from \<open>start\<close> on.\<close>

lemma valid_header_total: "valid_header bs l \<Longrightarrow> 10 \<le> u16_at bs 0"
  by (simp add: valid_header_def Let_def)

function recover_loop :: "codec \<Rightarrow> limits \<Rightarrow> bytes \<Rightarrow> feed_result \<Rightarrow> feed_result" where
  "recover_loop c l tail r =
     (if length tail < 10 then discard (length tail) r
      else let total = u16_at tail 0
        in if valid_header tail l \<and> total \<le> length tail
           then case decode c (take total tail) l of
                  Inr payload \<Rightarrow> recover_loop c l (drop total tail) (got payload r)
                | Inl e \<Rightarrow> recover_loop c l (drop 1 tail) (discard 1 (reject r))
           else recover_loop c l (drop 1 tail) (discard 1 r))"
  by pat_completeness auto
termination
  by (relation "measure (\<lambda>(c, l, tail, r). length tail)") (auto dest!: valid_header_total)

definition recover_expired :: "codec \<Rightarrow> frame_decoder \<Rightarrow> feed_result \<times> frame_decoder" where
  "recover_expired c d = (recover_loop c (fd_limits d) (fd_buffer d) feed_default, d\<lparr>fd_buffer := []\<rparr>)"

function feed_loop :: "codec \<Rightarrow> limits \<Rightarrow> bytes \<Rightarrow> feed_result \<Rightarrow> bytes \<times> feed_result" where
  "feed_loop c l tail r =
     (if length tail < 6 then (tail, r)
      else if \<not> valid_header tail l then feed_loop c l (drop 1 tail) (discard 1 r)
      else let total = u16_at tail 0
        in if length tail < total then (tail, r)
           else case decode c (take total tail) l of
                  Inr payload \<Rightarrow> feed_loop c l (drop total tail) (got payload r)
                | Inl e \<Rightarrow> feed_loop c l (drop 1 tail) (discard 1 (reject r)))"
  by pat_completeness auto
termination
  by (relation "measure (\<lambda>(c, l, tail, r). length tail)") (auto dest!: valid_header_total)

declare recover_loop.simps [simp del] feed_loop.simps [simp del]

definition feed :: "codec \<Rightarrow> bytes \<Rightarrow> frame_decoder \<Rightarrow> (frame_error + feed_result) \<times> frame_decoder" where
  "feed c chunk d =
     (if lim_frame (fd_limits d) < length chunk
         \<or> lim_frame (fd_limits d) * 2 < length (fd_buffer d) + length chunk
      then (Err BufferLimit, decoder_reset d)
      else let (rest, r) = feed_loop c (fd_limits d) (fd_buffer d @ chunk) feed_default
        in (Ok r, d\<lparr>fd_buffer := rest\<rparr>))"


section \<open>Encoded frames\<close>

definition codec_ok :: "codec \<Rightarrow> bool" where
  "codec_ok c \<longleftrightarrow> (\<forall>p z n. cd_compress c p = Ok z \<and> length p < n \<longrightarrow> cd_decompress c z n = Ok (True, p, length z))"

lemma u16_at_le:
  assumes "n < 65536"
  shows "u16_at (pre @ u16_to_le_bytes (of_nat n) @ post) (length pre) = n"
proof -
  have "unat (ucast (of_nat n :: u16) :: u8) = n mod 256"
    using assms by (simp add: unsigned_ucast_eq take_bit_eq_mod unat_of_nat)
  moreover have "unat (drop_bit 8 (of_nat n :: u16)) = n div 256"
    using assms by (simp only: unsigned_drop_bit_eq) (simp add: drop_bit_eq_div take_bit_eq_mod unat_of_nat)
  then have "unat (ucast (drop_bit 8 (of_nat n :: u16)) :: u8) = n div 256"
    using assms by (simp add: unsigned_ucast_eq take_bit_eq_mod)
  ultimately show ?thesis by (simp add: u16_at_def u16_to_le_bytes_def nth_append)
qed

lemma u32_le_round_trip: "u32_of_le_bytes (u32_to_le_bytes w) = w"
proof (rule bit_word_eqI)
  fix n assume "n < LENGTH(32)"
  then have "n < 8 \<or> (8 \<le> n \<and> n < 16) \<or> (16 \<le> n \<and> n < 24) \<or> (24 \<le> n \<and> n < 32)" by auto
  then show "bit (u32_of_le_bytes (u32_to_le_bytes w)) n = bit w n"
    by (elim disjE) (auto simp: u32_of_le_bytes_def u32_to_le_bytes_def bit_simps)
qed

lemma lengths_le [simp]: "length (u16_to_le_bytes w) = 2" "length (u32_to_le_bytes v) = 4"
  by (simp_all add: u16_to_le_bytes_def u32_to_le_bytes_def)

text \<open>What an encoded frame looks like, whatever follows it on the line.\<close>

definition framed :: "codec \<Rightarrow> nat \<Rightarrow> bytes \<Rightarrow> bytes" where
  "framed c plain body =
     (let head = u16_to_le_bytes (of_nat (length body + 10)) @ u16_to_le_bytes (of_nat plain)
                   @ u16_to_le_bytes (of_nat (length body)) @ body
      in head @ u32_to_le_bytes (cd_crc c head))"

lemma framed_fields:
  assumes "length body + 10 < 65536" and "plain < 65536"
  shows "length (framed c plain body) = length body + 10"
    and "u16_at (framed c plain body @ rest) 0 = length body + 10"
    and "u16_at (framed c plain body @ rest) 2 = plain"
    and "u16_at (framed c plain body @ rest) 4 = length body"
proof -
  let ?t = "u16_to_le_bytes (of_nat (length body + 10))" and ?p = "u16_to_le_bytes (of_nat plain)"
  show "length (framed c plain body) = length body + 10" by (simp add: framed_def Let_def)
  show "u16_at (framed c plain body @ rest) 0 = length body + 10"
    using u16_at_le[OF assms(1), of "[]"] by (simp add: framed_def Let_def)
  show "u16_at (framed c plain body @ rest) 2 = plain"
    using u16_at_le[OF assms(2), of ?t] by (simp add: framed_def Let_def)
  show "u16_at (framed c plain body @ rest) 4 = length body"
    using u16_at_le[of "length body" "?t @ ?p"] assms(1) by (simp add: framed_def Let_def)
qed

lemma decode_framed:
  assumes "limits_validate l = Ok ()" and "length body + 10 \<le> lim_frame l" and "plain \<le> lim_payload l"
  shows "decode c (framed c plain body) l = (if plain = length body then Ok body else inflate c body plain)"
proof -
  have b: "length body + 10 < 65536" "plain < 65536"
    using assms by (auto simp: limits_validate_def split: if_splits)
  define f where "f = framed c plain body"
  note h = framed_fields(1)[OF b, of c] framed_fields(2-4)[OF b, of c "[]", simplified]
  note h = h[folded f_def]
  define head where "head = u16_to_le_bytes (of_nat (length body + 10)) @ u16_to_le_bytes (of_nat plain)
      @ u16_to_le_bytes (of_nat (length body)) @ body"
  have "f = head @ u32_to_le_bytes (cd_crc c head)" by (simp add: f_def framed_def head_def)
  moreover have "length head = length f - 4" using h(1) by (simp add: head_def)
  ultimately have "take (length f - 4) f = head" "drop (length f - 4) f = u32_to_le_bytes (cd_crc c head)" by simp_all
  moreover have "drop 6 head = body" by (simp add: head_def)
  moreover have "valid_header f l" using assms(2,3) h by (simp add: valid_header_def)
  ultimately have "decode c f l = (if plain = length body then Ok body else inflate c body plain)"
    using assms(1) h by (simp add: decode_def Let_def u32_le_round_trip)
  then show ?thesis by (simp only: f_def)
qed

lemma decode_checked:
  assumes "decode c f l = Ok p"
  shows "10 \<le> length f" and "length f \<le> lim_frame l"
    and "u32_of_le_bytes (drop (length f - 4) f) = cd_crc c (take (length f - 4) f)" and "length p = u16_at f 2"
proof -
  have h: "10 \<le> length f" "valid_header f l" "u16_at f 0 = length f"
    "u32_of_le_bytes (drop (length f - 4) f) = cd_crc c (take (length f - 4) f)"
    using assms by (auto simp: decode_def Let_def not_less split: if_splits)
  then show "10 \<le> length f" "length f \<le> lim_frame l"
    "u32_of_le_bytes (drop (length f - 4) f) = cd_crc c (take (length f - 4) f)" by (simp_all add: valid_header_def Let_def)
  show "length p = u16_at f 2"
    using assms h by (auto simp: decode_def inflate_def Let_def split: if_splits)
qed

lemma encodeE:
  assumes "encode c payload l = Ok f"
  obtains body where "f = framed c (length payload) body" and "limits_validate l = Ok ()"
    and "length body + 10 \<le> lim_frame l" and "length payload \<le> lim_payload l"
    and "body = payload \<or> cd_compress c payload = Ok body \<and> length body < length payload"
  using assms by (auto simp: encode_def framed_def Let_def split: if_splits)

lemma decode_encode:
  assumes "codec_ok c" and "encode c payload l = Ok f"
  shows "decode c f l = Ok payload"
  using assms(2)
proof (cases rule: encodeE)
  case (1 body)
  from 1(5) have "length payload \<noteq> length body \<Longrightarrow> inflate c body (length payload) = Ok payload"
    using assms(1) by (auto simp: inflate_def codec_ok_def)
  moreover from 1(5) have "length payload = length body \<Longrightarrow> body = payload" by auto
  ultimately show ?thesis using decode_framed[OF 1(2-4), of c] 1(1) by auto
qed

lemma encode_header:
  assumes "encode c payload l = Ok f"
  shows "10 \<le> length f" and "length f \<le> lim_frame l" and "valid_header (f @ rest) l" and "u16_at (f @ rest) 0 = length f"
proof -
  obtain body where b: "f = framed c (length payload) body" "limits_validate l = Ok ()"
    "length body + 10 \<le> lim_frame l" "length payload \<le> lim_payload l"
    using assms by (rule encodeE)
  then have "length body + 10 < 65536" "length payload < 65536" by (auto simp: limits_validate_def split: if_splits)
  note f = framed_fields[OF this, of c]
  show "10 \<le> length f" "length f \<le> lim_frame l" "valid_header (f @ rest) l" "u16_at (f @ rest) 0 = length f"
    using b f by (simp_all add: valid_header_def)
qed

section \<open>Loops over a buffer\<close>

definition add_result :: "feed_result \<Rightarrow> feed_result \<Rightarrow> feed_result" where
  "add_result r s = \<lparr>fr_payloads = fr_payloads r @ fr_payloads s, fr_rejected = fr_rejected r + fr_rejected s,
     fr_discarded = fr_discarded r + fr_discarded s\<rparr>"

lemma add_result_simps [simp]:
  "add_result feed_default r = r" "add_result r feed_default = r"
  "add_result (add_result r s) t = add_result r (add_result s t)"
  by (simp_all add: add_result_def feed_default_def)

lemma add_one [simp]:
  "add_result r (got p feed_default) = got p r" "add_result r (discard n feed_default) = discard n r"
  "add_result r (discard n (reject feed_default)) = discard n (reject r)"
  by (simp_all add: got_def discard_def reject_def add_result_def feed_default_def)

text \<open>
  The bytes a loop has gone through are divided into pieces: frames that decode, whose payloads it passes
  on in that order, and others, whose bytes it counts.
\<close>

definition accounts :: "(bytes \<Rightarrow> frame_error + bytes) \<Rightarrow> (bool \<times> bytes) list \<Rightarrow> feed_result \<Rightarrow> bool" where
  "accounts dec pieces r \<longleftrightarrow>
     map Ok (fr_payloads r) = map (\<lambda>(_, f). dec f) (filter fst pieces)
     \<and> fr_discarded r = length (concat (map snd (filter (\<lambda>p. \<not> fst p) pieces)))"

text \<open>
  What the loops of \<open>feed\<close> and \<open>recover_expired\<close> have in common: a turn takes a number of bytes from the
  front, either a frame that decodes or bytes that are counted as discarded, or the loop ends.
\<close>

locale byte_loop =
  fixes dec :: "bytes \<Rightarrow> frame_error + bytes"
    and turn :: "bytes \<Rightarrow> (nat \<times> feed_result) option"
    and loop :: "bytes \<Rightarrow> feed_result \<Rightarrow> bytes \<times> feed_result"
  assumes turn_takes: "turn tail = Some (n, s) \<Longrightarrow> 0 < n \<and> n \<le> length tail"
    and turn_counts: "turn tail = Some (n, s) \<Longrightarrow>
      (\<exists>p. dec (take n tail) = Ok p \<and> s = got p feed_default) \<or> fr_payloads s = [] \<and> fr_discarded s = n"
    and loop_turn: "loop tail r = (case turn tail of None \<Rightarrow> (tail, r)
      | Some (n, s) \<Rightarrow> loop (drop n tail) (add_result r s))"
begin

lemma loop_induct [case_names stop turn]:
  assumes "\<And>tail r. turn tail = None \<Longrightarrow> P tail r"
    and "\<And>tail r n s. turn tail = Some (n, s) \<Longrightarrow> P (drop n tail) (add_result r s) \<Longrightarrow> P tail r"
  shows "P tail r"
proof (induction "length tail" arbitrary: tail r rule: less_induct)
  case less
  show ?case
  proof (cases "turn tail")
    case None
    then show ?thesis by (rule assms(1))
  next
    case (Some x)
    obtain n s where x: "x = (n, s)" by fastforce
    with Some turn_takes[of tail n s] less[of "drop n tail"] show ?thesis
      by (intro assms(2)[of tail n s]) auto
  qed
qed

lemma loop_add: "loop tail (add_result q r) = (fst (loop tail r), add_result q (snd (loop tail r)))"
  by (induction tail r rule: loop_induct) (simp_all add: loop_turn)

lemma loop_waits: "turn (fst (loop tail r)) = None"
  by (induction tail r rule: loop_induct) (simp_all add: loop_turn)

lemma loop_accounts:
  assumes "accounts dec pieces r"
  shows "\<exists>more. accounts dec (pieces @ more) (snd (loop tail r)) \<and> concat (map snd more) @ fst (loop tail r) = tail"
  using assms
proof (induction tail r arbitrary: pieces rule: loop_induct)
  case (stop tail r)
  then show ?case by (intro exI[of _ "[]"]) (simp add: loop_turn)
next
  case (turn tail r n s)
  let ?x = "(\<exists>p. dec (take n tail) = Ok p \<and> s = got p feed_default, take n tail)"
  have "accounts dec (pieces @ [?x]) (add_result r s)"
    using turn_counts[OF turn(1)] turn_takes[OF turn(1)] turn(3)
    by (auto simp: accounts_def add_result_def got_def feed_default_def)
  from turn(2)[OF this] obtain more where
    "accounts dec ((pieces @ [?x]) @ more) (snd (loop (drop n tail) (add_result r s)))"
    "concat (map snd more) @ fst (loop (drop n tail) (add_result r s)) = drop n tail" by blast
  then show ?case using turn(1) by (intro exI[of _ "?x # more"]) (simp add: loop_turn[of tail])
qed

lemma loop_from_default:
  "\<exists>pieces. accounts dec pieces (snd (loop tail feed_default)) \<and> concat (map snd pieces) @ fst (loop tail feed_default) = tail"
  using loop_accounts[of "[]" feed_default tail] by (simp add: accounts_def feed_default_def)

end

text \<open>A loop that reads only bytes it takes: it does not matter in which pieces they come.\<close>

locale prefix_loop = byte_loop +
  assumes turn_append: "turn tail = Some x \<Longrightarrow> turn (tail @ later) = Some x"
begin

lemma loop_append: "loop (tail @ later) r = (case loop tail r of (rest, r') \<Rightarrow> loop (rest @ later) r')"
proof (induction tail r rule: loop_induct)
  case (stop tail r)
  then show ?case by (simp add: loop_turn[of tail])
next
  case (turn tail r n s)
  then show ?case
    using turn_append[OF turn(1), of later] turn_takes[OF turn(1)]
    by (simp add: loop_turn[of tail] loop_turn[of "tail @ later"])
qed

end

definition feed_turn :: "codec \<Rightarrow> limits \<Rightarrow> bytes \<Rightarrow> (nat \<times> feed_result) option" where
  "feed_turn c l tail =
     (if length tail < 6 then None
      else if \<not> valid_header tail l then Some (1, discard 1 feed_default)
      else if length tail < u16_at tail 0 then None
      else case decode c (take (u16_at tail 0) tail) l of
             Inr payload \<Rightarrow> Some (u16_at tail 0, got payload feed_default)
           | Inl e \<Rightarrow> Some (1, discard 1 (reject feed_default)))"

definition recover_turn :: "codec \<Rightarrow> limits \<Rightarrow> bytes \<Rightarrow> (nat \<times> feed_result) option" where
  "recover_turn c l tail =
     (if tail = [] then None
      else if length tail < 10 then Some (length tail, discard (length tail) feed_default)
      else if valid_header tail l \<and> u16_at tail 0 \<le> length tail
      then case decode c (take (u16_at tail 0) tail) l of
             Inr payload \<Rightarrow> Some (u16_at tail 0, got payload feed_default)
           | Inl e \<Rightarrow> Some (1, discard 1 (reject feed_default))
      else Some (1, discard 1 feed_default))"

lemma u16_at_append: "i + 1 < length a \<Longrightarrow> u16_at (a @ b) i = u16_at a i"
  by (simp add: u16_at_def nth_append)

lemma result_fields [simp]:
  "fr_payloads (discard n r) = fr_payloads r" "fr_discarded (discard n r) = fr_discarded r + n"
  "fr_payloads (reject r) = fr_payloads r" "fr_discarded (reject r) = fr_discarded r"
  "fr_payloads (got p r) = fr_payloads r @ [p]" "fr_discarded (got p r) = fr_discarded r"
  "fr_payloads feed_default = []" "fr_discarded feed_default = 0" "fr_rejected feed_default = 0"
  by (simp_all add: discard_def reject_def got_def feed_default_def)

interpretation feeding: prefix_loop "\<lambda>f. decode c f l" "feed_turn c l" "feed_loop c l" for c l
proof unfold_locales
  fix tail n s r later x
  show "0 < n \<and> n \<le> length tail" if "feed_turn c l tail = Some (n, s)"
    using that by (auto simp: feed_turn_def dest: valid_header_total split: if_splits sum.splits)
  show "(\<exists>p. decode c (take n tail) l = Ok p \<and> s = got p feed_default) \<or> fr_payloads s = [] \<and> fr_discarded s = n"
    if "feed_turn c l tail = Some (n, s)"
    using that by (auto simp: feed_turn_def split: if_splits sum.splits)
  show "feed_loop c l tail r = (case feed_turn c l tail of None \<Rightarrow> (tail, r)
      | Some (n, s) \<Rightarrow> feed_loop c l (drop n tail) (add_result r s))"
    by (subst feed_loop.simps) (simp add: feed_turn_def Let_def split: sum.split)
  show "feed_turn c l (tail @ later) = Some x" if "feed_turn c l tail = Some x"
    using that by (auto simp: feed_turn_def valid_header_def Let_def u16_at_append split: if_splits sum.splits)
qed

lemma recover_loop_Nil [simp]: "recover_loop c l [] r = r"
  by (subst recover_loop.simps) (simp add: discard_def)

interpretation recovering: byte_loop "\<lambda>f. decode c f l" "recover_turn c l" "\<lambda>tail r. ([], recover_loop c l tail r)" for c l
proof unfold_locales
  fix tail n s r
  show "0 < n \<and> n \<le> length tail" if "recover_turn c l tail = Some (n, s)"
    using that by (auto simp: recover_turn_def dest: valid_header_total split: if_splits sum.splits)
  show "(\<exists>p. decode c (take n tail) l = Ok p \<and> s = got p feed_default) \<or> fr_payloads s = [] \<and> fr_discarded s = n"
    if "recover_turn c l tail = Some (n, s)"
    using that by (auto simp: recover_turn_def split: if_splits sum.splits)
  show "([], recover_loop c l tail r) = (case recover_turn c l tail of None \<Rightarrow> (tail, r)
      | Some (n, s) \<Rightarrow> ([], recover_loop c l (drop n tail) (add_result r s)))"
    by (cases "tail = []", simp add: recover_turn_def, subst recover_loop.simps)
      (simp add: recover_turn_def Let_def split: sum.split)
qed

section \<open>Decoders\<close>

text \<open>Between calls a decoder waits for the rest of a frame that fits.\<close>

definition decoder_ok :: "codec \<Rightarrow> frame_decoder \<Rightarrow> bool" where
  "decoder_ok c d \<longleftrightarrow> limits_validate (fd_limits d) = Ok () \<and> feed_turn c (fd_limits d) (fd_buffer d) = None"

lemma limits_bounds: "limits_validate l = Ok u \<Longrightarrow> 10 \<le> lim_frame l \<and> lim_frame l \<le> 65535"
  by (auto simp: limits_validate_def split: if_splits)

lemma waiting_length: "feed_turn c l tail = None \<Longrightarrow> limits_validate l = Ok () \<Longrightarrow> length tail < lim_frame l"
  by (auto simp: feed_turn_def valid_header_def Let_def dest: limits_bounds split: if_splits sum.splits)

lemma decoder_new_ok: "decoder_new l = Ok d \<Longrightarrow> decoder_ok c d \<and> fd_buffer d = [] \<and> fd_limits d = l"
  by (auto simp: decoder_new_def decoder_ok_def feed_turn_def)

lemma feed_ok:
  assumes "decoder_ok c d" and "length chunk \<le> lim_frame (fd_limits d)"
  obtains r d' where "feed c chunk d = (Ok r, d')" and "decoder_ok c d'" and "fd_limits d' = fd_limits d"
    and "feed_loop c (fd_limits d) (fd_buffer d @ chunk) feed_default = (fd_buffer d', r)"
proof -
  obtain rest r where f: "feed_loop c (fd_limits d) (fd_buffer d @ chunk) feed_default = (rest, r)" by fastforce
  have "length (fd_buffer d) < lim_frame (fd_limits d)" using assms(1) by (auto simp: decoder_ok_def intro: waiting_length)
  moreover have "feed_turn c (fd_limits d) rest = None"
    using feeding.loop_waits[of c "fd_limits d" "fd_buffer d @ chunk" feed_default] f by simp
  ultimately show thesis
    using that[of r "d\<lparr>fd_buffer := rest\<rparr>"] f assms by (simp add: feed_def decoder_ok_def)
qed

text \<open>A sequence of calls, with the results of each.\<close>

primrec feed_all :: "codec \<Rightarrow> bytes list \<Rightarrow> frame_decoder \<Rightarrow> (frame_error + feed_result) list \<times> frame_decoder" where
  "feed_all c [] d = ([], d)"
| "feed_all c (chunk # chunks) d =
     (let (r, d) = feed c chunk d; (rs, d) = feed_all c chunks d in (r # rs, d))"

lemma feed_all_loop:
  assumes "decoder_ok c d" and "\<forall>chunk \<in> set chunks. length chunk \<le> lim_frame (fd_limits d)"
  shows "\<exists>rs d'. feed_all c chunks d = (map Ok rs, d') \<and> decoder_ok c d' \<and>
    feed_loop c (fd_limits d) (fd_buffer d @ concat chunks) feed_default = (fd_buffer d', foldr add_result rs feed_default)"
  using assms
proof (induction chunks arbitrary: d)
  case Nil
  then show ?case by (simp add: feeding.loop_turn decoder_ok_def)
next
  case (Cons chunk chunks)
  then obtain r d1 where f: "feed c chunk d = (Ok r, d1)" "decoder_ok c d1" "fd_limits d1 = fd_limits d"
    "feed_loop c (fd_limits d) (fd_buffer d @ chunk) feed_default = (fd_buffer d1, r)"
    by (auto elim: feed_ok)
  from Cons.IH[OF f(2)] Cons.prems(2) f(3) obtain rs d2 where
    g: "feed_all c chunks d1 = (map Ok rs, d2)" "decoder_ok c d2"
    "feed_loop c (fd_limits d) (fd_buffer d1 @ concat chunks) feed_default = (fd_buffer d2, foldr add_result rs feed_default)"
    by auto
  have "feed_loop c (fd_limits d) (fd_buffer d @ concat (chunk # chunks)) feed_default =
      feed_loop c (fd_limits d) (fd_buffer d1 @ concat chunks) (add_result r feed_default)"
    using feeding.loop_append[of c "fd_limits d" "fd_buffer d @ chunk" "concat chunks"] f(4) by simp
  also have "\<dots> = (fd_buffer d2, add_result r (foldr add_result rs feed_default))"
    using g(3) by (simp only: feeding.loop_add) simp
  finally show ?case using f(1) g(1,2) by (intro exI[of _ "r # rs"] exI[of _ d2]) simp
qed

text \<open>Frames on the line, one behind the other.\<close>

lemma feed_loop_frame:
  assumes "codec_ok c" and "encode c payload l = Ok f"
  shows "feed_loop c l (f @ rest) r = feed_loop c l rest (got payload r)"
proof -
  have "feed_turn c l (f @ rest) = Some (length f, got payload feed_default)"
    using encode_header(1)[OF assms(2)] encode_header(3,4)[OF assms(2), of rest] decode_encode[OF assms]
    by (simp add: feed_turn_def)
  then show ?thesis by (subst feeding.loop_turn) simp
qed

lemma feed_loop_frames:
  assumes "codec_ok c" and "list_all2 (\<lambda>p f. encode c p l = Ok f) payloads frames"
  shows "feed_loop c l (concat frames) r = ([], add_result r \<lparr>fr_payloads = payloads, fr_rejected = 0, fr_discarded = 0\<rparr>)"
  using assms(2)
proof (induction arbitrary: r rule: list_all2_induct)
  case Nil
  have "feed_turn c l [] = None" by (simp add: feed_turn_def)
  then show ?case by (subst feeding.loop_turn) (simp add: add_result_def)
next
  case (Cons p ps f fs)
  then show ?case by (simp add: feed_loop_frame[OF assms(1)]) (simp add: add_result_def got_def)
qed

text \<open>A frame behind bytes that only look like the beginning of one is recovered.\<close>

definition frame_at :: "codec \<Rightarrow> limits \<Rightarrow> bytes \<Rightarrow> bool" where
  "frame_at c l tail \<longleftrightarrow> 10 \<le> length tail \<and> valid_header tail l \<and> u16_at tail 0 \<le> length tail
     \<and> is_ok (decode c (take (u16_at tail 0) tail) l)"

lemma recover_loop_grows: "\<exists>ps. fr_payloads (recover_loop c l tail r) = fr_payloads r @ ps"
proof -
  have "recover_loop c l tail r = add_result r (recover_loop c l tail feed_default)"
    using recovering.loop_add[of c l tail r feed_default] by simp
  then have "fr_payloads (recover_loop c l tail r) = fr_payloads r @ fr_payloads (recover_loop c l tail feed_default)"
    by (simp add: add_result_def)
  then show ?thesis ..
qed

lemma recover_hidden:
  assumes "codec_ok c" and "encode c payload l = Ok f"
    and "\<And>k. k < length noise \<Longrightarrow> \<not> frame_at c l (drop k (noise @ f @ rest))"
  shows "payload \<in> set (fr_payloads (recover_loop c l (noise @ f @ rest) r))"
  using assms(3)
proof (induction noise arbitrary: r)
  case Nil
  have "recover_turn c l (f @ rest) = Some (length f, got payload feed_default)"
    using encode_header(1)[OF assms(2)] encode_header(3,4)[OF assms(2), of rest] decode_encode[OF assms(1,2)]
    by (auto simp: recover_turn_def)
  then have "recover_loop c l (f @ rest) r = recover_loop c l rest (got payload r)"
    using recovering.loop_turn[of c l "f @ rest" r] by simp
  then show ?case using recover_loop_grows[of c l rest "got payload r"] by auto
next
  case (Cons x noise)
  let ?tail = "x # noise @ f @ rest"
  have "\<not> frame_at c l ?tail" using Cons.prems[of 0] by simp
  then have "\<exists>s. recover_turn c l ?tail = Some (1, s)"
    using encode_header(1)[OF assms(2)] by (auto simp: recover_turn_def frame_at_def is_ok_iff split: sum.splits)
  then obtain s where "recover_turn c l ?tail = Some (1, s)" ..
  then have "recover_loop c l ?tail r = recover_loop c l (noise @ f @ rest) (add_result r s)"
    using recovering.loop_turn[of c l ?tail r] by simp
  then show ?case using Cons.IH[of "add_result r s"] Cons.prems[of "Suc _"] by simp
qed

end
