(* ===== verification/Link_Serial.thy ===== *)
theory Link_Serial
  imports Link_Frame
begin

text \<open>
  The serial handle of the unit link (\<open>src/communicate/src/serial.rs\<close>): a write that is never repeated
  from its first byte, and the quarantine that discards late bytes. The driver is a parameter: what it
  answers to each call in turn, with the time and the cancellation flag before the call. A loop that is
  given fewer answers than it asks for has no result (\<open>None\<close>); the deadline bounds the number of calls.
  Times are nanoseconds.
\<close>

definition from_millis :: "u64 \<Rightarrow> nat" where
  "from_millis ms = unat ms * 10 ^ 6"

datatype link_io = IO_Interrupted | IO_WouldBlock | IO_TimedOut | IO_UnexpectedEof | IO_WriteZero | IO_Other string

definition transient :: "link_io \<Rightarrow> bool" where
  "transient e \<longleftrightarrow> e = IO_TimedOut \<or> e = IO_WouldBlock \<or> e = IO_Interrupted"

section \<open>Writing once\<close>

datatype write_error = Write_Cancelled nat | Write_Timeout nat | Write_Io nat link_io

record 'r link_call =
  lk_cancelled :: bool
  lk_now :: nat
  lk_io :: "link_io + 'r"

text \<open>The second component is what the driver has taken.\<close>

fun write_loop :: "nat \<Rightarrow> nat link_call list \<Rightarrow> nat \<Rightarrow> bytes \<Rightarrow> ((write_error + unit) \<times> bytes) option" where
  "write_loop deadline calls written [] = Some (Ok (), [])"
| "write_loop deadline [] written (b # bs) = None"
| "write_loop deadline (c # calls) written (b # bs) =
     (if lk_cancelled c then Some (Err (Write_Cancelled written), [])
      else if deadline - lk_now c = 0 then Some (Err (Write_Timeout written), [])
      else case lk_io c of
        Inr n \<Rightarrow>
          if n = 0 then Some (Err (Write_Io written IO_WriteZero), [])
          else if n \<le> length (b # bs)
          then map_option (\<lambda>(r, taken). (r, take n (b # bs) @ taken))
                 (write_loop deadline calls (written + n) (drop n (b # bs)))
          else Some (Err (Write_Io written (IO_Other ''invalid transport write count'')), [])
      | Inl e \<Rightarrow>
          if transient e then write_loop deadline calls written (b # bs)
          else Some (Err (Write_Io written e), []))"

definition write_once :: "nat \<Rightarrow> nat link_call list \<Rightarrow> bytes \<Rightarrow> ((write_error + unit) \<times> bytes) option" where
  "write_once deadline calls bs = write_loop deadline calls 0 bs"

fun write_error_count :: "write_error \<Rightarrow> nat" where
  "write_error_count (Write_Cancelled n) = n"
| "write_error_count (Write_Timeout n) = n"
| "write_error_count (Write_Io n e) = n"

lemma write_loop_taken:
  "write_loop deadline calls written bs = Some (r, taken) \<Longrightarrow>
   (\<exists>rest. bs = taken @ rest \<and> (r = Ok () \<longrightarrow> rest = [])) \<and> (\<forall>e. r = Err e \<longrightarrow> write_error_count e = written + length taken)"
proof (induction deadline calls written bs arbitrary: r taken rule: write_loop.induct)
  case (3 deadline c calls written b bs)
  let ?more = "\<exists>n r' taken'. lk_io c = Inr n \<and> 0 < n \<and> n \<le> length (b # bs)
    \<and> write_loop deadline calls (written + n) (drop n (b # bs)) = Some (r', taken')"
  consider (stop) e where "r = Err e" "taken = []" "write_error_count e = written"
    | (again) "write_loop deadline calls written (b # bs) = Some (r, taken)" "\<not> lk_cancelled c" "deadline - lk_now c \<noteq> 0"
        "\<exists>e. lk_io c = Inl e \<and> transient e"
    | (more) n t where "write_loop deadline calls (written + n) (drop n (b # bs)) = Some (r, t)" "taken = take n (b # bs) @ t"
        "\<not> lk_cancelled c" "deadline - lk_now c \<noteq> 0" "lk_io c = Inr n" "n \<noteq> 0" "n \<le> length (b # bs)"
    using 3(3) by (auto split: if_splits sum.splits)
  then show ?case
  proof cases
    case stop
    then show ?thesis by auto
  next
    case again
    then show ?thesis using 3(1) by blast
  next
    case more
    from 3(2)[OF more(3,4,5,6,7,1)] obtain rest where
      t: "drop n (b # bs) = t @ rest" "r = Ok () \<longrightarrow> rest = []" "\<forall>e. r = Err e \<longrightarrow> write_error_count e = written + n + length t"
      by blast
    have "b # bs = taken @ rest" using append_take_drop_id[of n "b # bs"] t(1) more(2) by simp
    moreover have "length taken = n + length t" using more(2,7) by simp
    ultimately show ?thesis using t(2,3) by auto
  qed
qed auto

text \<open>A cancellation or the deadline ends it.\<close>

lemma write_loop_ends:
  "\<exists>c \<in> set calls. lk_cancelled c \<or> deadline \<le> lk_now c \<Longrightarrow> \<exists>r. write_loop deadline calls written bs = Some r"
  by (induction deadline calls written bs rule: write_loop.induct) (auto split: sum.split, blast+)

section \<open>Quarantine\<close>

fun quarantine_loop :: "nat \<Rightarrow> bytes link_call list \<Rightarrow> (link_io + unit) option" where
  "quarantine_loop stop [] = None"
| "quarantine_loop stop (c # calls) =
     (if lk_cancelled c \<or> stop \<le> lk_now c then Some (Ok ())
      else case lk_io c of
        Inr bs \<Rightarrow> if bs = [] then Some (Err IO_UnexpectedEof) else quarantine_loop stop calls
      | Inl e \<Rightarrow> if transient e then quarantine_loop stop calls else Some (Err e))"

text \<open>\<open>clear1\<close> and \<open>clear2\<close> are the answers to the two calls that clear the driver's input.\<close>

definition quarantine :: "link_io + unit \<Rightarrow> link_io + unit \<Rightarrow> nat \<Rightarrow> nat \<Rightarrow> bytes link_call list \<Rightarrow> (link_io + unit) option" where
  "quarantine clear1 clear2 now duration calls =
     (case clear1 of Inl e \<Rightarrow> Some (Err e)
      | Inr _ \<Rightarrow> map_option (\<lambda>r. and_then r (\<lambda>_. clear2)) (quarantine_loop (now + duration) calls))"

lemma quarantine_ends:
  "\<exists>c \<in> set calls. lk_cancelled c \<or> now + duration \<le> lk_now c \<Longrightarrow> \<exists>r. quarantine clear1 clear2 now duration calls = Some r"
proof -
  assume "\<exists>c \<in> set calls. lk_cancelled c \<or> now + duration \<le> lk_now c"
  then have "\<exists>r. quarantine_loop (now + duration) calls = Some r"
    by (induction "now + duration" calls rule: quarantine_loop.induct) (auto split: sum.split)
  then show ?thesis by (auto simp: quarantine_def split: sum.split)
qed

end
