(* ===== verification/Link_Points.thy ===== *)
theory Link_Points
  imports Float64 Ordered_Map
begin

text \<open>
  The configuration records of the unit link (\<open>src/communicate/src/config.rs\<close>, the settings of
  \<open>synchronization.rs\<close>) and its point store (\<open>src/communicate/src/points.rs\<close>): the samples that OPC
  readers see and the state of the ports, behind one lock. A poisoned lock needs a panic inside the
  store, which has none, and is left out. Times are natural numbers, text is UTF-8 bytes.
\<close>

section \<open>Values\<close>

datatype data_type = DT_Boolean | DT_UInt32 | DT_Float | DT_Double | DT_String

datatype link_value = LV_Boolean bool | LV_UInt32 u32 | LV_Float f32 | LV_Double f64 | LV_String string

fun zero_value :: "data_type \<Rightarrow> link_value" where
  "zero_value DT_Boolean = LV_Boolean False"
| "zero_value DT_UInt32 = LV_UInt32 0"
| "zero_value DT_Float = LV_Float (FNum 0)"
| "zero_value DT_Double = LV_Double (FNum 0)"
| "zero_value DT_String = LV_String []"

fun data_type_of :: "link_value \<Rightarrow> data_type" where
  "data_type_of (LV_Boolean _) = DT_Boolean"
| "data_type_of (LV_UInt32 _) = DT_UInt32"
| "data_type_of (LV_Float _) = DT_Float"
| "data_type_of (LV_Double _) = DT_Double"
| "data_type_of (LV_String _) = DT_String"

fun value_valid :: "link_value \<Rightarrow> bool" where
  "value_valid (LV_Float v) = is_finite v"
| "value_valid (LV_Double v) = is_finite v"
| "value_valid (LV_String v) \<longleftrightarrow> length v \<le> 16 * 1024"
| "value_valid _ = True"

datatype quality = Good | Waiting | NoCommunication | Configuration | OutOfService

record sample =
  sa_value :: link_value
  sa_quality :: quality
  sa_source_timestamp :: "nat option"
  sa_error :: string

record point_update =
  pu_name :: string
  pu_value :: link_value
  pu_quality :: quality
  pu_error :: string

section \<open>Configuration\<close>

record settings =
  st_transmit_enabled :: bool
  st_transmit_protocol :: string
  st_send_interval_ms :: u64
  st_initial_delay_ms :: u64
  st_idle_gap_ms :: u64
  st_receive_timeout_ms :: u64
  st_input_refresh_interval_ms :: u64
  st_snapshot_max_age_ms :: u64

record task_config =
  tc_id :: string
  tc_enabled :: bool
  tc_protocol :: string
  tc_interval_ms :: u64

datatype link_parity = Parity_None | Parity_Even | Parity_Odd

record port_config =
  pc_id :: string
  pc_device :: string
  pc_enabled :: bool
  pc_baud_rate :: u32
  pc_data_bits :: u8
  pc_parity :: link_parity
  pc_stop_bits :: u8
  pc_first_byte_timeout_ms :: u64
  pc_frame_timeout_ms :: u64
  pc_write_timeout_ms :: u64
  pc_late_frame_guard_ms :: u64
  pc_reconnect_min_ms :: u64
  pc_reconnect_max_ms :: u64
  pc_max_frame_bytes :: nat
  pc_max_payload_bytes :: nat
  pc_tasks :: "task_config list"
  pc_synchronization :: "settings option"

record opc_config =
  oc_bind_ip :: string
  oc_advertised_host :: string
  oc_port :: u16
  oc_allow_anonymous_none :: bool
  oc_allow_anonymous_secure :: bool
  oc_trust_client_certificates :: bool

record link_config =
  lc_schema_version :: u32
  lc_instance_id :: string
  lc_points_file :: string
  lc_opc :: opc_config
  lc_ports :: "port_config list"

record point_definition =
  pd_name :: string
  pd_task_id :: string
  pd_data_type :: data_type
  pd_description :: string

section \<open>The store\<close>

record port_snapshot =
  ps_state :: string
  ps_last_error :: string
  ps_last_attempt_at :: "nat option"
  ps_last_success_at :: "nat option"
  ps_attempts :: u32
  ps_successes :: u32
  ps_failures :: u32
  ps_reconnects :: u32
  ps_rejected_frames :: u32
  ps_discarded_bytes :: u32
  ps_partial_timeouts :: u32

definition port_snapshot_default :: port_snapshot where
  "port_snapshot_default = \<lparr>ps_state = [], ps_last_error = [], ps_last_attempt_at = None, ps_last_success_at = None,
     ps_attempts = 0, ps_successes = 0, ps_failures = 0, ps_reconnects = 0, ps_rejected_frames = 0,
     ps_discarded_bytes = 0, ps_partial_timeouts = 0\<rparr>"

datatype store_error = UnknownId string | InvalidBatch string

record point_store =
  ps_definitions :: "string \<rightharpoonup> point_definition"
  ps_tasks :: "string \<rightharpoonup> string list"
  ps_task_ports :: "string \<rightharpoonup> string"
  ps_samples :: "string \<rightharpoonup> sample"
  ps_ports :: "string \<rightharpoonup> port_snapshot"

text \<open>\<open>chars().take(n)\<close> on UTF-8 bytes: a continuation byte belongs to the character before it.\<close>

fun take_chars :: "nat \<Rightarrow> string \<Rightarrow> string" where
  "take_chars n [] = []"
| "take_chars n (c # s) =
     (if 128 \<le> code_of c \<and> code_of c < 192 then c # take_chars n s
      else if n = 0 then [] else c # take_chars (n - 1) s)"

definition short_error :: "string \<Rightarrow> string" where
  "short_error s = take_chars 1024 s"

definition saturating_add32 :: "u32 \<Rightarrow> u32 \<Rightarrow> u32" where
  "saturating_add32 a b = (if 2 ^ 32 - 1 < unat a + unat b then - 1 else a + b)"

definition initial_quality :: "port_config \<Rightarrow> task_config \<Rightarrow> quality" where
  "initial_quality port task =
     (if \<not> pc_enabled port \<or> \<not> tc_enabled task then OutOfService
      else if tc_protocol task = ''pending'' then Configuration
      else Waiting)"

definition port_initial :: "port_config \<Rightarrow> port_snapshot" where
  "port_initial port = port_snapshot_default\<lparr>ps_state :=
     (if pc_enabled port \<and> list_ex tc_enabled (pc_tasks port) then ''Waiting'' else ''Disabled'')\<rparr>"

text \<open>The loop over the configured ports: tasks, their ports and their initial qualities.\<close>

fun index_tasks :: "port_config \<Rightarrow> task_config list \<Rightarrow>
    (string \<rightharpoonup> string list) \<times> (string \<rightharpoonup> string) \<times> (string \<rightharpoonup> quality) \<Rightarrow>
    (string \<rightharpoonup> string list) \<times> (string \<rightharpoonup> string) \<times> (string \<rightharpoonup> quality)" where
  "index_tasks port [] maps = maps"
| "index_tasks port (task # tasks) (names, task_ports, initial) =
     index_tasks port tasks (names(tc_id task \<mapsto> []), task_ports(tc_id task \<mapsto> pc_id port),
       initial(tc_id task \<mapsto> initial_quality port task))"

definition initial_sample :: "(string \<rightharpoonup> quality) \<Rightarrow> point_definition \<Rightarrow> sample" where
  "initial_sample initial d =
     (let q = (case initial (pd_task_id d) of Some q \<Rightarrow> q | None \<Rightarrow> Configuration)
      in \<lparr>sa_value = zero_value (pd_data_type d), sa_quality = q, sa_source_timestamp = None,
          sa_error = (if q = OutOfService then ''acquisition disabled'' else [])\<rparr>)"

definition add_name :: "point_definition \<Rightarrow> (string \<rightharpoonup> string list) \<Rightarrow> (string \<rightharpoonup> string list)" where
  "add_name d names =
     (case names (pd_task_id d) of None \<Rightarrow> names | Some ns \<Rightarrow> names(pd_task_id d \<mapsto> ns @ [pd_name d]))"

definition store_new :: "link_config \<Rightarrow> point_definition list \<Rightarrow> point_store" where
  "store_new config definitions =
     (let (names, task_ports, initial) =
            fold (\<lambda>port. index_tasks port (pc_tasks port)) (lc_ports config) (Map.empty, Map.empty, Map.empty)
      in \<lparr>ps_definitions = fold (\<lambda>d m. m(pd_name d \<mapsto> d)) definitions Map.empty,
          ps_tasks = fold add_name definitions names,
          ps_task_ports = task_ports,
          ps_samples = fold (\<lambda>d m. m(pd_name d \<mapsto> initial_sample initial d)) definitions Map.empty,
          ps_ports = fold (\<lambda>port m. m(pc_id port \<mapsto> port_initial port)) (lc_ports config) Map.empty\<rparr>)"

definition store_sample :: "string \<Rightarrow> point_store \<Rightarrow> store_error + sample" where
  "store_sample name s = ok_or (UnknownId name) (ps_samples s name)"

definition store_port :: "string \<Rightarrow> point_store \<Rightarrow> store_error + port_snapshot" where
  "store_port pid s = ok_or (UnknownId pid) (ps_ports s pid)"

definition update_port :: "string \<Rightarrow> (port_snapshot \<Rightarrow> port_snapshot) \<Rightarrow> point_store \<Rightarrow> store_error + point_store" where
  "update_port pid f s =
     (case ps_ports s pid of None \<Rightarrow> Err (UnknownId pid)
      | Some p \<Rightarrow> Ok (s\<lparr>ps_ports := (ps_ports s)(pid \<mapsto> f p)\<rparr>))"

definition port_state :: "string \<Rightarrow> string \<Rightarrow> string \<Rightarrow> bool \<Rightarrow> point_store \<Rightarrow> store_error + point_store" where
  "port_state pid status error reconnected =
     update_port pid (\<lambda>p. p\<lparr>ps_state := status, ps_last_error := short_error error,
       ps_reconnects := (if reconnected then saturating_inc (ps_reconnects p) else ps_reconnects p)\<rparr>)"

definition store_attempt :: "nat \<Rightarrow> string \<Rightarrow> point_store \<Rightarrow> store_error + point_store" where
  "store_attempt utc task s =
     (case ps_task_ports s task of None \<Rightarrow> Err (UnknownId task)
      | Some pid \<Rightarrow> update_port pid (\<lambda>p. p\<lparr>ps_attempts := saturating_inc (ps_attempts p),
          ps_last_attempt_at := Some utc\<rparr>) s)"

definition record_frame_errors :: "string \<Rightarrow> nat \<Rightarrow> nat \<Rightarrow> bool \<Rightarrow> point_store \<Rightarrow> store_error + point_store" where
  "record_frame_errors pid rejected discarded expired =
     update_port pid (\<lambda>p. p\<lparr>
       ps_rejected_frames := saturating_add32 (ps_rejected_frames p) (of_nat (min rejected (2 ^ 32 - 1))),
       ps_discarded_bytes := saturating_add32 (ps_discarded_bytes p) (of_nat (min discarded (2 ^ 32 - 1))),
       ps_partial_timeouts := saturating_add32 (ps_partial_timeouts p) (of_bool expired)\<rparr>)"

text \<open>The port's counters after a task has ended; a task without a port leaves them.\<close>

definition touch_port :: "string \<Rightarrow> (port_snapshot \<Rightarrow> port_snapshot) \<Rightarrow> point_store \<Rightarrow> point_store" where
  "touch_port task f s =
     (case Option.bind (ps_task_ports s task) (\<lambda>pid. map_option (Pair pid) (ps_ports s pid)) of
        None \<Rightarrow> s
      | Some (pid, p) \<Rightarrow> s\<lparr>ps_ports := (ps_ports s)(pid \<mapsto> f p)\<rparr>)"

fun check_updates :: "(string \<rightharpoonup> point_definition) \<Rightarrow> string \<Rightarrow> string list \<Rightarrow> point_update list \<Rightarrow> store_error + unit" where
  "check_updates defs task seen [] = Ok ()"
| "check_updates defs task seen (u # us) =
     (case defs (pu_name u) of None \<Rightarrow> Err (InvalidBatch (pu_name u))
      | Some d \<Rightarrow>
          if pd_task_id d \<noteq> task \<or> pd_data_type d \<noteq> data_type_of (pu_value u) \<or> \<not> value_valid (pu_value u)
             \<or> pu_name u \<in> set seen
          then Err (InvalidBatch (pu_name u))
          else check_updates defs task (pu_name u # seen) us)"

definition published_sample :: "nat \<Rightarrow> point_update \<Rightarrow> sample" where
  "published_sample source_time u =
     \<lparr>sa_value = (if pu_quality u = Good then pu_value u else zero_value (data_type_of (pu_value u))),
      sa_quality = pu_quality u, sa_source_timestamp = Some source_time, sa_error = short_error (pu_error u)\<rparr>"

definition publish :: "nat \<Rightarrow> string \<Rightarrow> point_update list \<Rightarrow> nat \<Rightarrow> point_store \<Rightarrow> store_error + point_store" where
  "publish utc task updates source_time s =
     (case ps_tasks s task of None \<Rightarrow> Err (UnknownId task)
      | Some names \<Rightarrow>
          if length names \<noteq> length updates then Err (InvalidBatch task)
          else map_ok (\<lambda>_.
              touch_port task (\<lambda>p. p\<lparr>ps_successes := saturating_inc (ps_successes p), ps_last_success_at := Some utc\<rparr>)
                (s\<lparr>ps_samples := fold (\<lambda>u m. m(pu_name u \<mapsto> published_sample source_time u)) updates (ps_samples s)\<rparr>))
            (check_updates (ps_definitions s) task [] updates))"

definition fail_sample :: "quality \<Rightarrow> string \<Rightarrow> sample \<Rightarrow> sample" where
  "fail_sample q error sa =
     sa\<lparr>sa_value := zero_value (data_type_of (sa_value sa)), sa_quality := q, sa_error := short_error error\<rparr>"

definition fail_task :: "string \<Rightarrow> quality \<Rightarrow> string \<Rightarrow> point_store \<Rightarrow> store_error + point_store" where
  "fail_task task q error s =
     (if q = Good then Err (InvalidBatch ''failure cannot be Good'')
      else case ps_tasks s task of None \<Rightarrow> Err (UnknownId task)
      | Some names \<Rightarrow> Ok (touch_port task (\<lambda>p. p\<lparr>ps_failures := saturating_inc (ps_failures p), ps_last_error := short_error error\<rparr>)
          (s\<lparr>ps_samples := fold (\<lambda>n m. case m n of None \<Rightarrow> m | Some sa \<Rightarrow> m(n \<mapsto> fail_sample q error sa)) names (ps_samples s)\<rparr>)))"


section \<open>Well-typed samples\<close>

definition sample_ok :: "point_definition \<Rightarrow> sample \<Rightarrow> bool" where
  "sample_ok d sa \<longleftrightarrow> data_type_of (sa_value sa) = pd_data_type d \<and> value_valid (sa_value sa)
     \<and> (if sa_quality sa = Good then sa_source_timestamp sa \<noteq> None else sa_value sa = zero_value (pd_data_type d))"

text \<open>Every defined point has a well-typed sample, and a task owns the points that are defined for it.\<close>

definition store_ok :: "point_store \<Rightarrow> bool" where
  "store_ok s \<longleftrightarrow> dom (ps_samples s) = dom (ps_definitions s)
     \<and> (\<forall>n d sa. ps_definitions s n = Some d \<longrightarrow> ps_samples s n = Some sa \<longrightarrow> sample_ok d sa)
     \<and> (\<forall>t ns. ps_tasks s t = Some ns \<longrightarrow> set ns \<subseteq> dom (ps_definitions s)
          \<and> (\<forall>n d. ps_definitions s n = Some d \<longrightarrow> pd_task_id d = t \<longrightarrow> n \<in> set ns))"

lemma zero_typed [simp]: "data_type_of (zero_value t) = t" "value_valid (zero_value t)"
  by (cases t; simp)+

lemma fold_upd_map:
  "fold (\<lambda>x m. m(k x \<mapsto> f x)) xs (\<lambda>n. map_option f (m n)) = (\<lambda>n. map_option f (fold (\<lambda>x m. m(k x \<mapsto> x)) xs m n))"
proof (induction xs arbitrary: m)
  case (Cons x xs)
  have "(\<lambda>n. map_option f (m n))(k x \<mapsto> f x) = (\<lambda>n. map_option f ((m(k x \<mapsto> x)) n))" by auto
  then show ?case using Cons[of "m(k x \<mapsto> x)"] by (simp only: fold.simps comp_apply)
qed simp

lemma fold_upd_key: "fold (\<lambda>x m. m(k x \<mapsto> x)) xs m n = Some x \<Longrightarrow> m n = Some x \<or> x \<in> set xs \<and> k x = n"
  by (induction xs arbitrary: m) (fastforce split: if_splits)+

lemma fold_upd_dom: "fold (\<lambda>x m. m(k x \<mapsto> v x)) xs m n = None \<longleftrightarrow> m n = None \<and> n \<notin> k ` set xs"
  by (induction xs arbitrary: m) auto

lemma fold_upd_other: "n \<notin> k ` set xs \<Longrightarrow> fold (\<lambda>x m. m(k x \<mapsto> v x)) xs m n = m n"
  by (induction xs arbitrary: m) auto

lemma fold_upd_distinct: "distinct (map k xs) \<Longrightarrow> x \<in> set xs \<Longrightarrow> fold (\<lambda>x m. m(k x \<mapsto> v x)) xs m (k x) = Some (v x)"
  by (induction xs arbitrary: m) (auto simp: fold_upd_other)

lemma store_frame [simp]:
  "ps_definitions (touch_port t f s) = ps_definitions s" "ps_tasks (touch_port t f s) = ps_tasks s"
  "ps_samples (touch_port t f s) = ps_samples s" "ps_task_ports (touch_port t f s) = ps_task_ports s"
  by (simp_all add: touch_port_def split: option.split)

lemma update_port_frame:
  assumes "update_port pid f s = Ok s'"
  shows "ps_definitions s' = ps_definitions s" "ps_tasks s' = ps_tasks s" "ps_samples s' = ps_samples s"
    "ps_task_ports s' = ps_task_ports s"
  using assms by (auto simp: update_port_def split: option.splits)

lemmas port_updates = port_state_def record_frame_errors_def store_attempt_def

lemma check_updates_Ok:
  assumes "check_updates defs task seen us = Ok ()"
  shows "distinct (map pu_name us)" and "set (map pu_name us) \<inter> set seen = {}"
    and "u \<in> set us \<Longrightarrow> \<exists>d. defs (pu_name u) = Some d \<and> pd_task_id d = task
      \<and> pd_data_type d = data_type_of (pu_value u) \<and> value_valid (pu_value u)"
  using assms by (induction us arbitrary: seen) (fastforce split: option.splits if_splits)+

lemma publishE:
  assumes "publish utc task us time s = Ok s'"
  obtains names where "ps_tasks s task = Some names" and "length names = length us"
    and "check_updates (ps_definitions s) task [] us = Ok ()"
    and "ps_samples s' = fold (\<lambda>u m. m(pu_name u \<mapsto> published_sample time u)) us (ps_samples s)"
    and "ps_definitions s' = ps_definitions s" and "ps_tasks s' = ps_tasks s" and "ps_task_ports s' = ps_task_ports s"
  using assms by (auto simp: publish_def split: option.splits if_splits)

text \<open>An accepted batch names every point of its task exactly once.\<close>

lemma batch_complete:
  assumes "store_ok s" and "ps_tasks s task = Some names" and "length names = length us"
    and "check_updates (ps_definitions s) task [] us = Ok ()"
  shows "pu_name ` set us = set names" and "distinct (map pu_name us)"
    and "n \<in> pu_name ` set us \<longleftrightarrow> (\<exists>d. ps_definitions s n = Some d \<and> pd_task_id d = task)"
proof -
  note u = check_updates_Ok[OF assms(4)]
  show d: "distinct (map pu_name us)" by (rule u(1))
  have sub: "pu_name ` set us \<subseteq> set names"
    using u(3) assms(1,2) by (fastforce simp: store_ok_def)
  have "card (set names) \<le> card (pu_name ` set us)"
    using distinct_card[OF d] assms(3) card_length[of names] by simp
  with sub show e: "pu_name ` set us = set names" by (simp add: card_seteq)
  show "n \<in> pu_name ` set us \<longleftrightarrow> (\<exists>d. ps_definitions s n = Some d \<and> pd_task_id d = task)"
    using u(3) assms(1,2) by (fastforce simp: store_ok_def simp flip: e)
qed

lemma publish_samples:
  assumes "store_ok s" and "publish utc task us time s = Ok s'"
  shows "u \<in> set us \<Longrightarrow> ps_samples s' (pu_name u) = Some (published_sample time u)"
    and "n \<notin> pu_name ` set us \<Longrightarrow> ps_samples s' n = ps_samples s n"
    and "n \<in> pu_name ` set us \<longleftrightarrow> (\<exists>d. ps_definitions s n = Some d \<and> pd_task_id d = task)"
proof -
  obtain names where p: "ps_tasks s task = Some names" "length names = length us"
    "check_updates (ps_definitions s) task [] us = Ok ()"
    "ps_samples s' = fold (\<lambda>u m. m(pu_name u \<mapsto> published_sample time u)) us (ps_samples s)"
    using assms(2) by (auto elim: publishE)
  note b = batch_complete[OF assms(1) p(1-3)]
  show "u \<in> set us \<Longrightarrow> ps_samples s' (pu_name u) = Some (published_sample time u)"
    using fold_upd_distinct[OF b(2), of u] p(4) by simp
  show "n \<notin> pu_name ` set us \<Longrightarrow> ps_samples s' n = ps_samples s n" using p(4) by (simp add: fold_upd_other)
  show "n \<in> pu_name ` set us \<longleftrightarrow> (\<exists>d. ps_definitions s n = Some d \<and> pd_task_id d = task)" by (rule b(3))
qed

lemma store_okI:
  assumes "store_ok s" and "ps_definitions s' = ps_definitions s" and "ps_tasks s' = ps_tasks s"
    and "dom (ps_samples s') = dom (ps_samples s)"
    and "\<And>n d sa sa'. ps_definitions s n = Some d \<Longrightarrow> ps_samples s n = Some sa \<Longrightarrow> sample_ok d sa \<Longrightarrow>
      ps_samples s' n = Some sa' \<Longrightarrow> sample_ok d sa'"
  shows "store_ok s'"
proof -
  have "sample_ok d sa'" if n: "ps_definitions s n = Some d" "ps_samples s' n = Some sa'" for n d sa'
  proof -
    obtain sa where "ps_samples s n = Some sa" using n(2) assms(4) by blast
    from assms(5)[OF n(1) this _ n(2)] assms(1) n(1) this show ?thesis unfolding store_ok_def by blast
  qed
  with assms(1-4) show ?thesis by (simp add: store_ok_def)
qed

lemma publish_ok:
  assumes "store_ok s" and "publish utc task us time s = Ok s'"
  shows "store_ok s'"
proof (rule store_okI[OF assms(1)])
  show "ps_definitions s' = ps_definitions s" "ps_tasks s' = ps_tasks s" using assms(2) by (auto elim: publishE)
  have "pu_name ` set us \<subseteq> dom (ps_definitions s)"
    using publish_samples(3)[OF assms] by blast
  then have "pu_name ` set us \<subseteq> dom (ps_samples s)" using assms(1) by (simp add: store_ok_def)
  moreover have "ps_samples s' n = None \<longleftrightarrow> n \<notin> pu_name ` set us \<and> ps_samples s n = None" for n
    using assms(2) by (auto elim!: publishE simp: fold_upd_dom)
  ultimately show "dom (ps_samples s') = dom (ps_samples s)" by (auto simp: set_eq_iff dom_def)
  fix n d sa sa' assume n: "ps_definitions s n = Some d" "ps_samples s n = Some sa" "sample_ok d sa" "ps_samples s' n = Some sa'"
  show "sample_ok d sa'"
  proof (cases "n \<in> pu_name ` set us")
    case True
    then obtain u where u: "u \<in> set us" "n = pu_name u" by auto
    have "check_updates (ps_definitions s) task [] us = Ok ()" using assms(2) by (auto elim: publishE)
    from check_updates_Ok(3)[OF this u(1)] n(1) u have "sample_ok d (published_sample time u)"
      by (auto simp: sample_ok_def published_sample_def)
    with publish_samples(1)[OF assms u(1)] u n(4) show ?thesis by simp
  next
    case False
    with publish_samples(2)[OF assms] n show ?thesis by simp
  qed
qed

lemma fold_fail:
  "fold (\<lambda>n m. case m n of None \<Rightarrow> m | Some sa \<Rightarrow> m(n \<mapsto> fail_sample q e sa)) ns m n =
     (if n \<in> set ns then map_option (fail_sample q e) (m n) else m n)"
proof (induction ns arbitrary: m)
  case (Cons k ns)
  have "fail_sample q e (fail_sample q e sa) = fail_sample q e sa" for sa by (simp add: fail_sample_def)
  with Cons show ?case by (auto split: option.split simp: option.map_comp comp_def)
qed simp

lemma failE:
  assumes "fail_task task q e s = Ok s'"
  obtains names where "q \<noteq> Good" and "ps_tasks s task = Some names"
    and "\<And>n. ps_samples s' n = (if n \<in> set names then map_option (fail_sample q e) (ps_samples s n) else ps_samples s n)"
    and "ps_definitions s' = ps_definitions s" and "ps_tasks s' = ps_tasks s" and "ps_task_ports s' = ps_task_ports s"
  using assms by (auto simp: fail_task_def fold_fail split: option.splits if_splits)

lemma fail_ok: "store_ok s \<Longrightarrow> fail_task task q e s = Ok s' \<Longrightarrow> store_ok s'"
  by (erule failE, rule store_okI)
     (auto simp: sample_ok_def fail_sample_def dom_def split: if_splits)

lemma update_port_ok: "store_ok s \<Longrightarrow> update_port pid f s = Ok s' \<Longrightarrow> store_ok s'"
  by (simp add: store_ok_def update_port_frame)

definition tasks_fresh :: "(string \<rightharpoonup> string list) \<times> (string \<rightharpoonup> string) \<times> (string \<rightharpoonup> quality) \<Rightarrow> bool" where
  "tasks_fresh maps \<longleftrightarrow> (\<forall>t ns. fst maps t = Some ns \<longrightarrow> ns = []) \<and> (\<forall>t. snd (snd maps) t \<noteq> Some Good)"

lemma index_tasks_fresh: "tasks_fresh maps \<Longrightarrow> tasks_fresh (index_tasks port ts maps)"
proof (induction port ts maps rule: index_tasks.induct)
  case (2 port task tasks names tp ini)
  from 2(2) have "tasks_fresh (names(tc_id task \<mapsto> []), tp(tc_id task \<mapsto> pc_id port), ini(tc_id task \<mapsto> initial_quality port task))"
    by (simp add: tasks_fresh_def initial_quality_def)
  from 2(1)[OF this] show ?case by simp
qed simp

lemma index_ports_fresh:
  "tasks_fresh maps \<Longrightarrow> tasks_fresh (fold (\<lambda>port. index_tasks port (pc_tasks port)) ports maps)"
  by (induction ports arbitrary: maps) (simp_all add: index_tasks_fresh)

lemma fold_add_name:
  "fold add_name ds names t = map_option (\<lambda>ns. ns @ map pd_name (filter (\<lambda>d. pd_task_id d = t) ds)) (names t)"
proof (induction ds arbitrary: names)
  case (Cons d ds)
  then show ?case by (auto simp: add_name_def option.map_comp comp_def split: option.split)
qed (simp add: option.map_ident)

lemma initial_sample_ok: "sample_ok d (initial_sample ini d)" if "\<And>t. ini t \<noteq> Some Good"
  using that[of "pd_task_id d"] by (auto simp: sample_ok_def initial_sample_def Let_def split: option.splits)

lemma store_new_ok: "store_ok (store_new config defs)"
proof -
  obtain names tp ini where i: "fold (\<lambda>port. index_tasks port (pc_tasks port)) (lc_ports config)
      (Map.empty, Map.empty, Map.empty) = (names, tp, ini)" by (rule prod_cases3)
  then have f: "tasks_fresh (names, tp, ini)"
    using index_ports_fresh[of "(Map.empty, Map.empty, Map.empty)" "lc_ports config"] by (simp add: tasks_fresh_def)
  let ?s = "store_new config defs" and ?defs = "fold (\<lambda>d m. m(pd_name d \<mapsto> d)) defs Map.empty"
  have d: "ps_definitions ?s = ?defs" using i by (simp add: store_new_def)
  have sa: "ps_samples ?s = (\<lambda>n. map_option (initial_sample ini) (?defs n))"
    using i fold_upd_map[of pd_name "initial_sample ini" defs Map.empty] by (simp add: store_new_def)
  have t: "ps_tasks ?s t = map_option (\<lambda>ns. map pd_name (filter (\<lambda>d. pd_task_id d = t) defs)) (names t)" for t
    using i f by (cases "names t") (auto simp: store_new_def fold_add_name tasks_fresh_def)
  have q: "ini t \<noteq> Some Good" for t using f by (simp add: tasks_fresh_def)
  have "set (map pd_name (filter (\<lambda>d. pd_task_id d = t) defs)) \<subseteq> dom ?defs" for t
    using fold_upd_dom[of pd_name "\<lambda>x. x" defs Map.empty] by auto
  moreover have "n \<in> set (map pd_name (filter (\<lambda>d. pd_task_id d = pd_task_id x) defs))" if "?defs n = Some x" for n x
    using fold_upd_key[OF that] by auto
  ultimately show ?thesis
    by (auto simp: store_ok_def d sa t initial_sample_ok[OF q])
qed

text \<open>The tables of a new store: the points of a configured task, and the points by name.\<close>

lemma index_tasks_keys: "fst (index_tasks port ts maps) t \<noteq> None \<longleftrightarrow> fst maps t \<noteq> None \<or> t \<in> tc_id ` set ts"
  by (induction port ts maps rule: index_tasks.induct) auto

lemma index_ports_keys:
  "fst (fold (\<lambda>port. index_tasks port (pc_tasks port)) ports maps) t \<noteq> None \<longleftrightarrow>
   fst maps t \<noteq> None \<or> (\<exists>p \<in> set ports. t \<in> tc_id ` set (pc_tasks p))"
proof (induction ports arbitrary: maps)
  case (Cons p ports)
  show ?case
    using Cons[of "index_tasks p (pc_tasks p) maps"] index_tasks_keys[of p "pc_tasks p" maps t]
    by (simp del: not_None_eq)
qed simp

lemma store_new_tasks:
  assumes "port \<in> set (lc_ports config)" and "task \<in> set (pc_tasks port)"
  shows "ps_tasks (store_new config defs) (tc_id task) = Some (map pd_name (filter (\<lambda>d. pd_task_id d = tc_id task) defs))"
proof -
  obtain names tp ini where i: "fold (\<lambda>port. index_tasks port (pc_tasks port)) (lc_ports config)
      (Map.empty, Map.empty, Map.empty) = (names, tp, ini)" by (rule prod_cases3)
  have "tasks_fresh (names, tp, ini)"
    using index_ports_fresh[of "(Map.empty, Map.empty, Map.empty)" "lc_ports config"] i by (simp add: tasks_fresh_def)
  moreover have "names (tc_id task) \<noteq> None"
    using index_ports_keys[of "lc_ports config" "(Map.empty, Map.empty, Map.empty)" "tc_id task"] i assms by auto
  ultimately have "names (tc_id task) = Some []" by (auto simp: tasks_fresh_def)
  with i show ?thesis by (simp add: store_new_def fold_add_name)
qed

lemma store_new_definitions:
  assumes "distinct (map pd_name defs)" and "d \<in> set defs"
  shows "ps_definitions (store_new config defs) (pd_name d) = Some d"
  using fold_upd_distinct[OF assms, of "\<lambda>d. d"] by (simp add: store_new_def split: prod.split)

lemma check_updates_accepts:
  assumes "distinct (map pu_name us)" and "set (map pu_name us) \<inter> set seen = {}"
    and "\<And>u. u \<in> set us \<Longrightarrow> \<exists>d. defs (pu_name u) = Some d \<and> pd_task_id d = task
      \<and> pd_data_type d = data_type_of (pu_value u) \<and> value_valid (pu_value u)"
  shows "check_updates defs task seen us = Ok ()"
  using assms
proof (induction us arbitrary: seen)
  case (Cons u us)
  have "\<exists>d. defs (pu_name u) = Some d \<and> pd_task_id d = task \<and> pd_data_type d = data_type_of (pu_value u) \<and> value_valid (pu_value u)"
    by (rule Cons.prems(3)) simp
  moreover have "check_updates defs task (pu_name u # seen) us = Ok ()"
    by (rule Cons.IH) (use Cons.prems in auto)
  ultimately show ?case using Cons.prems(2) by auto
qed simp

text \<open>The operations of a link program on its store, one after the other.\<close>

inductive store_run :: "point_store \<Rightarrow> point_store \<Rightarrow> bool" where
  start: "store_run s s"
| publish: "store_run s t \<Longrightarrow> publish utc task us time t = Ok t' \<Longrightarrow> store_run s t'"
| fail: "store_run s t \<Longrightarrow> fail_task task q e t = Ok t' \<Longrightarrow> store_run s t'"
| port_state: "store_run s t \<Longrightarrow> port_state pid status e re t = Ok t' \<Longrightarrow> store_run s t'"
| attempt: "store_run s t \<Longrightarrow> store_attempt utc task t = Ok t' \<Longrightarrow> store_run s t'"
| frame_errors: "store_run s t \<Longrightarrow> record_frame_errors pid rejected discarded expired t = Ok t' \<Longrightarrow> store_run s t'"

lemma store_attempt_ok: "store_ok s \<Longrightarrow> store_attempt utc task s = Ok s' \<Longrightarrow> store_ok s'"
  by (auto simp: store_attempt_def intro: update_port_ok split: option.splits)

lemma store_run_ok: "store_run s t \<Longrightarrow> store_ok s \<Longrightarrow> store_ok t"
  by (induction rule: store_run.induct)
     (auto intro: publish_ok fail_ok store_attempt_ok update_port_ok simp: port_state_def record_frame_errors_def)

lemma store_attempt_frame:
  assumes "store_attempt utc task s = Ok s'"
  shows "ps_definitions s' = ps_definitions s" "ps_tasks s' = ps_tasks s" "ps_task_ports s' = ps_task_ports s"
  using assms by (auto simp: store_attempt_def update_port_frame split: option.splits)

lemma store_run_frame:
  assumes "store_run s t"
  shows "ps_definitions t = ps_definitions s" "ps_tasks t = ps_tasks s" "ps_task_ports t = ps_task_ports s"
  using assms
  by (induction rule: store_run.induct)
     (auto simp: store_attempt_frame port_state_def record_frame_errors_def update_port_frame elim: publishE failE)

text \<open>Every configured task has a port with counters, and keeps it.\<close>

lemma index_tasks_ports:
  "(\<And>t. fst maps t \<noteq> None \<Longrightarrow> \<exists>p \<in> P. fst (snd maps) t = Some (pc_id p)) \<Longrightarrow> port \<in> P \<Longrightarrow>
   fst (index_tasks port ts maps) t \<noteq> None \<Longrightarrow> \<exists>p \<in> P. fst (snd (index_tasks port ts maps)) t = Some (pc_id p)"
proof (induction port ts maps rule: index_tasks.induct)
  case (2 port task tasks names tp ini)
  show ?case unfolding index_tasks.simps
  proof (rule 2(1))
    show "\<exists>p \<in> P. fst (snd (names(tc_id task \<mapsto> []), tp(tc_id task \<mapsto> pc_id port), ini(tc_id task \<mapsto> initial_quality port task))) u = Some (pc_id p)"
      if "fst (names(tc_id task \<mapsto> []), tp(tc_id task \<mapsto> pc_id port), ini(tc_id task \<mapsto> initial_quality port task)) u \<noteq> None" for u
      using that 2(2)[of u] 2(3) by (auto split: if_splits)
  qed (use 2(3,4) in simp_all)
qed simp

lemma index_ports_ports:
  "(\<And>t. fst maps t \<noteq> None \<Longrightarrow> \<exists>p \<in> P. fst (snd maps) t = Some (pc_id p)) \<Longrightarrow> set ports \<subseteq> P \<Longrightarrow>
   fst (fold (\<lambda>port. index_tasks port (pc_tasks port)) ports maps) t \<noteq> None \<Longrightarrow>
   \<exists>p \<in> P. fst (snd (fold (\<lambda>port. index_tasks port (pc_tasks port)) ports maps)) t = Some (pc_id p)"
proof (induction ports arbitrary: maps)
  case (Cons q ports)
  show ?case unfolding fold_simps
  proof (rule Cons.IH)
    show "\<exists>p \<in> P. fst (snd (index_tasks q (pc_tasks q) maps)) u = Some (pc_id p)"
      if "fst (index_tasks q (pc_tasks q) maps) u \<noteq> None" for u
      by (rule index_tasks_ports[OF Cons.prems(1) _ that]) (use Cons.prems(2) in auto)
  qed (use Cons.prems(2,3) in simp_all)
qed simp

lemma store_new_ports:
  assumes "port \<in> set (lc_ports config)" and "task \<in> set (pc_tasks port)"
  shows "\<exists>pid. ps_task_ports (store_new config defs) (tc_id task) = Some pid \<and> ps_ports (store_new config defs) pid \<noteq> None"
proof -
  obtain names tp ini where i: "fold (\<lambda>port. index_tasks port (pc_tasks port)) (lc_ports config)
      (Map.empty, Map.empty, Map.empty) = (names, tp, ini)" by (rule prod_cases3)
  have "names (tc_id task) \<noteq> None"
    using index_ports_keys[of "lc_ports config" "(Map.empty, Map.empty, Map.empty)" "tc_id task"] i assms by auto
  then have "\<exists>p \<in> set (lc_ports config). tp (tc_id task) = Some (pc_id p)"
    using index_ports_ports[of "(Map.empty, Map.empty, Map.empty)" "set (lc_ports config)" "lc_ports config" "tc_id task"] i by simp
  then obtain p where "p \<in> set (lc_ports config)" "tp (tc_id task) = Some (pc_id p)" by blast
  moreover have "fold (\<lambda>port m. m(pc_id port \<mapsto> port_initial port)) (lc_ports config) Map.empty (pc_id p) \<noteq> None"
    using calculation(1) by (simp add: fold_upd_dom del: not_None_eq)
  ultimately show ?thesis using i by (auto simp: store_new_def)
qed

lemma store_run_ports: "store_run s t \<Longrightarrow> ps_ports s pid \<noteq> None \<Longrightarrow> ps_ports t pid \<noteq> None"
  by (induction rule: store_run.induct)
     (auto simp: publish_def fail_task_def port_state_def store_attempt_def record_frame_errors_def update_port_def touch_port_def
       split: option.splits if_splits bind_splits)

lemma attempt_accepted:
  assumes "port \<in> set (lc_ports config)" and "task \<in> set (pc_tasks port)" and "store_run (store_new config defs) s"
  shows "\<exists>s'. store_attempt utc (tc_id task) s = Ok s'"
proof -
  obtain pid where "ps_task_ports (store_new config defs) (tc_id task) = Some pid" "ps_ports (store_new config defs) pid \<noteq> None"
    using store_new_ports[OF assms(1,2)] by blast
  with store_run_frame(3)[OF assms(3)] store_run_ports[OF assms(3)] show ?thesis
    by (fastforce simp: store_attempt_def update_port_def)
qed

end
