(* ===== verification/Unit_Report.thy ===== *)
theory Unit_Report
  imports Link_Frame Link_Points Protocol
begin

text \<open>
  The snapshots two units exchange (\<open>src/communicate/src/unit_report.rs\<close>): the two layouts, their fields,
  writing and reading them. Descriptions of points, for people only, are a parameter; an error stands for
  its message.
\<close>

section \<open>Layouts\<close>

datatype layout = Unit1To9 | Unit9To1

datatype report_error =
    PayloadBytes nat nat | UnexpectedBlock | UnknownInput | FireRange | BadHexField | InputMismatch
  | NoQuery | MissingIdentity | EmptyRequest | FrameFailed frame_error

datatype kind = Unsigned | Hex | Fire

record field =
  fl_name :: string
  fl_offset :: nat
  fl_len :: nat
  fl_kind :: kind

definition UNIT1_BUILDINGS :: "string list" where
  "UNIT1_BUILDINGS = [
    ''11UBE'', ''11UBF'', ''11UBN'', ''11UBR'', ''11UBS'', ''11UBT'', ''11UBU'', ''11UBZ'', ''11UCB'', ''11UJA'',
    ''11UJE'', ''11UJG'', ''11UJZ'', ''11UKA'', ''11UKC'', ''11UKD'', ''11UKT'', ''11UMA'', ''11UMZ'', ''11UQA'',
    ''11UQB'', ''11USG'', ''11USP'', ''11USZ'', ''11UYZ'', ''12UBE'', ''12UBF'', ''12UBT'', ''12UBZ'', ''13UBF'',
    ''13UBZ'', ''14UBZ'', ''1JME34'', ''1JMF10'', ''1JMF34'']"

definition UNIT9_BUILDINGS :: "string list" where
  "UNIT9_BUILDINGS = [
    ''91UBH'', ''91UGM'', ''91UGQ'', ''91UKT'', ''91UKZ'', ''91UYA'', ''91UZD'', ''11UGS'', ''12UGS'', ''13UGS'',
    ''91UYZ'']"

definition from_protocol :: "string \<Rightarrow> layout option" where
  "from_protocol name =
     (if name = ''unit1-to9-v1'' then Some Unit1To9
      else if name = ''unit9-to1-v1'' then Some Unit9To1 else None)"

fun payload_len :: "layout \<Rightarrow> nat" where
  "payload_len Unit1To9 = 1156"
| "payload_len Unit9To1 = 105"

fun layout_block :: "layout \<Rightarrow> u16" where
  "layout_block Unit1To9 = 1"
| "layout_block Unit9To1 = 9"

definition field_new :: "string \<Rightarrow> nat \<Rightarrow> nat \<Rightarrow> kind \<Rightarrow> field" where
  "field_new name offset len k = \<lparr>fl_name = name, fl_offset = offset, fl_len = len, fl_kind = k\<rparr>"

definition fire_field :: "nat \<Rightarrow> nat \<times> string \<Rightarrow> field" where
  "fire_field offset = (\<lambda>(i, building). field_new (''Buildings.'' @ building @ ''.Fire'') (offset + i * 5) 5 Fire)"

fun layout_head :: "layout \<Rightarrow> field list" where
  "layout_head Unit1To9 =
     [field_new ''Header.detectorTemp3'' 2 1 Unsigned, field_new ''Header.detectorTemp6'' 3 1 Unsigned,
      field_new ''AKONs.1CYE18GH204.HW'' 4 969 Hex, field_new ''PumpStationCtrl'' 973 8 Hex]"
| "layout_head Unit9To1 =
     [field_new ''AES.SGC85.State'' 2 5 Hex, field_new ''AES.GMM1'' 7 35 Hex, field_new ''PumpStationCtrl[0]'' 42 8 Hex]"

fun layout_buildings :: "layout \<Rightarrow> string list \<times> nat" where
  "layout_buildings Unit1To9 = (UNIT1_BUILDINGS, 981)"
| "layout_buildings Unit9To1 = (UNIT9_BUILDINGS, 50)"

definition layout_fields :: "layout \<Rightarrow> field list" where
  "layout_fields l = field_new ''Header.nBlock.z'' 0 2 Unsigned # layout_head l @
     (let (buildings, offset) = layout_buildings l in map (fire_field offset) (enumerate 0 buildings))"

definition transmit_fields :: "layout \<Rightarrow> field list" where
  "transmit_fields l = filter (\<lambda>f. fl_name f \<noteq> ''Header.nBlock.z'') (layout_fields l)"

definition data_name :: "field \<Rightarrow> string" where
  "data_name f = ''DATA.'' @ fl_name f"

definition definition_of :: "(field \<Rightarrow> string) \<Rightarrow> string \<Rightarrow> field \<Rightarrow> point_definition" where
  "definition_of describe task f =
     \<lparr>pd_name = data_name f, pd_task_id = task,
      pd_data_type = (if fl_kind f = Unsigned \<or> fl_kind f = Fire then DT_UInt32 else DT_String),
      pd_description = describe f\<rparr>"

definition transmit_definitions :: "(field \<Rightarrow> string) \<Rightarrow> string \<Rightarrow> layout \<Rightarrow> point_definition list" where
  "transmit_definitions describe port l = map (definition_of describe port) (transmit_fields l)"

definition unit_definitions :: "(field \<Rightarrow> string) \<Rightarrow> string \<Rightarrow> layout \<Rightarrow> point_definition list" where
  "unit_definitions describe task l = map (definition_of describe task) (layout_fields l)"

section \<open>Fire states\<close>

definition FIRE_STATES :: "(u32 \<times> bytes) list" where
  "FIRE_STATES = [
     (1, [0x0a, 0x85, 0, 6, 0]), (2, [1, 0x88, 0, 7, 0]), (3, [1, 0xc8, 0, 7, 0]), (4, [5, 0x86, 0, 0x0c, 0]),
     (5, [5, 0xa6, 0, 0x0c, 0]), (6, [6, 0x82, 0, 0x12, 0]), (7, [6, 0xc2, 0, 0x12, 0]), (8, [9, 0x85, 0, 4, 0])]"

definition fire_code :: "bytes \<Rightarrow> u32" where
  "fire_code bs = (case find (\<lambda>(_, raw). raw = bs) FIRE_STATES of Some (code, _) \<Rightarrow> code | None \<Rightarrow> 0)"

definition fire_bytes :: "u32 \<Rightarrow> bytes option" where
  "fire_bytes code = map_option snd (find (\<lambda>(v, _). v = code) FIRE_STATES)"

section \<open>Payloads\<close>

definition validate_payload :: "layout \<Rightarrow> bytes \<Rightarrow> report_error + unit" where
  "validate_payload l payload =
     (if length payload \<noteq> payload_len l then Err (PayloadBytes (payload_len l) (length payload))
      else if u16_at payload 0 \<noteq> unat (layout_block l) then Err UnexpectedBlock
      else Ok ())"

definition empty_transmit_payload :: "layout \<Rightarrow> bytes" where
  "empty_transmit_payload l = u16_to_le_bytes (layout_block l) @ replicate (payload_len l - 2) 0"

definition hex_text :: "bytes \<Rightarrow> string" where
  "hex_text bs = concat (map format_02X bs)"

text \<open>The bytes of an input, by the kind of its field.\<close>

definition field_bytes :: "field \<Rightarrow> link_value \<Rightarrow> report_error + bytes" where
  "field_bytes f v =
     (case (fl_kind f, v) of
        (Unsigned, LV_UInt32 n) \<Rightarrow> if n \<le> 255 then Ok [ucast n] else Err InputMismatch
      | (Fire, LV_UInt32 n) \<Rightarrow> ok_or FireRange (fire_bytes n)
      | (Hex, LV_String s) \<Rightarrow>
          if length s = fl_len f * 2 \<and> is_ascii s then map_err (\<lambda>_. BadHexField) (collect_results (hex_pairs s))
          else Err InputMismatch
      | _ \<Rightarrow> Err InputMismatch)"

definition write_at :: "nat \<Rightarrow> bytes \<Rightarrow> bytes \<Rightarrow> bytes" where
  "write_at offset bs payload = take offset payload @ bs @ drop (offset + length bs) payload"

definition write_transmit_field :: "layout \<Rightarrow> string \<Rightarrow> link_value \<Rightarrow> bytes \<Rightarrow> report_error + bytes" where
  "write_transmit_field l name v payload =
     and_then (validate_payload l payload) (\<lambda>_.
       case find (\<lambda>f. name = data_name f) (transmit_fields l) of
         None \<Rightarrow> Err UnknownInput
       | Some f \<Rightarrow> map_ok (\<lambda>bs. write_at (fl_offset f) bs payload) (field_bytes f v))"

definition unit_encode :: "codec \<Rightarrow> layout \<Rightarrow> bytes \<Rightarrow> limits \<Rightarrow> report_error + bytes" where
  "unit_encode c l payload lims =
     and_then (validate_payload l payload) (\<lambda>_. map_err FrameFailed (encode c payload lims))"

definition slice :: "field \<Rightarrow> bytes \<Rightarrow> bytes" where
  "slice f payload = take (fl_len f) (drop (fl_offset f) payload)"

definition field_value :: "field \<Rightarrow> bytes \<Rightarrow> link_value" where
  "field_value f bs =
     (case fl_kind f of
        Unsigned \<Rightarrow> LV_UInt32 (if length bs = 2 then of_nat (u16_at bs 0) else ucast (bs ! 0))
      | Hex \<Rightarrow> LV_String (hex_text bs)
      | Fire \<Rightarrow> LV_UInt32 (fire_code bs))"

definition field_update :: "bytes \<Rightarrow> field \<Rightarrow> point_update" where
  "field_update payload f = \<lparr>pu_name = data_name f, pu_value = field_value f (slice f payload), pu_quality = Good, pu_error = []\<rparr>"

definition unit_decode :: "layout \<Rightarrow> bytes \<Rightarrow> report_error + point_update list" where
  "unit_decode l payload = map_ok (\<lambda>_. map (field_update payload) (layout_fields l)) (validate_payload l payload)"

section \<open>The protocol of a report\<close>

datatype response = Ignore | Matched "point_update list"

definition report_request :: "report_error + bytes" where
  "report_request = Err NoQuery"

definition report_response :: "layout \<Rightarrow> bytes \<Rightarrow> report_error + response" where
  "report_response l payload =
     (if length payload < 2 then Err MissingIdentity
      else if u16_at payload 0 \<noteq> unat (layout_block l) then Ok Ignore
      else map_ok Matched (unit_decode l payload))"

section \<open>Fields do not overlap\<close>

fun tiles :: "nat \<Rightarrow> field list \<Rightarrow> nat \<Rightarrow> bool" where
  "tiles start [] stop \<longleftrightarrow> start = stop"
| "tiles start (f # fs) stop \<longleftrightarrow> fl_offset f = start \<and> 0 < fl_len f \<and> tiles (start + fl_len f) fs stop"

lemma layout_tiles: "tiles 0 (layout_fields l) (payload_len l)"
proof -
  have "tiles 0 (layout_fields Unit1To9) (payload_len Unit1To9)" "tiles 0 (layout_fields Unit9To1) (payload_len Unit9To1)"
    by code_simp+
  then show ?thesis by (cases l) (simp_all only:)
qed

lemma layout_names: "distinct (map data_name (layout_fields l))"
proof -
  have "distinct (map data_name (layout_fields Unit1To9))" "distinct (map data_name (layout_fields Unit9To1))" by code_simp+
  then show ?thesis by (cases l) (simp_all only:)
qed

definition written_len :: "field \<Rightarrow> bool" where
  "written_len f \<longleftrightarrow> 2 \<le> fl_offset f \<and> (case fl_kind f of Unsigned \<Rightarrow> fl_len f = 1 | Fire \<Rightarrow> fl_len f = 5 | Hex \<Rightarrow> True)"

lemma transmit_field_lengths: "f \<in> set (transmit_fields l) \<Longrightarrow> written_len f"
proof -
  have "list_all written_len (transmit_fields Unit1To9)" "list_all written_len (transmit_fields Unit9To1)" by code_simp+
  then show "f \<in> set (transmit_fields l) \<Longrightarrow> written_len f" by (cases l) (simp_all add: list_all_iff)
qed

lemma transmit_field: "f \<in> set (transmit_fields l) \<Longrightarrow> f \<in> set (layout_fields l)"
  by (simp add: transmit_fields_def)

lemma tiles_le: "tiles start fs stop \<Longrightarrow> start \<le> stop"
  by (induction fs arbitrary: start) fastforce+

lemma tiles_bounds: "tiles start fs stop \<Longrightarrow> f \<in> set fs \<Longrightarrow> start \<le> fl_offset f \<and> fl_offset f + fl_len f \<le> stop"
proof (induction fs arbitrary: start)
  case (Cons g fs)
  have "tiles (start + fl_len g) fs stop" "fl_offset g = start" using Cons.prems(1) by simp_all
  then show ?case
    using Cons.IH[of "start + fl_len g"] tiles_le[of "start + fl_len g" fs stop] Cons.prems(2) by auto
qed simp

lemma tiles_disjoint:
  "tiles start fs stop \<Longrightarrow> f \<in> set fs \<Longrightarrow> g \<in> set fs \<Longrightarrow> f \<noteq> g \<Longrightarrow>
   fl_offset f + fl_len f \<le> fl_offset g \<or> fl_offset g + fl_len g \<le> fl_offset f"
proof (induction fs arbitrary: start)
  case (Cons h fs)
  then show ?case using tiles_bounds[of "start + fl_len h" fs stop] by (auto dest: Cons.IH)
qed simp

lemma length_write_at [simp]: "offset + length bs \<le> length p \<Longrightarrow> length (write_at offset bs p) = length p"
  by (simp add: write_at_def)

lemma slice_written:
  "length bs = fl_len f \<Longrightarrow> fl_offset f + fl_len f \<le> length p \<Longrightarrow> slice f (write_at (fl_offset f) bs p) = bs"
  by (simp add: slice_def write_at_def)

lemma nth_write_at:
  "offset + length bs \<le> length p \<Longrightarrow> i < length p \<Longrightarrow> i < offset \<or> offset + length bs \<le> i \<Longrightarrow> write_at offset bs p ! i = p ! i"
  by (auto simp: write_at_def nth_append)

lemma slice_other:
  assumes "fl_offset g + fl_len g \<le> offset \<or> offset + length bs \<le> fl_offset g"
    and "offset + length bs \<le> length p" and "fl_offset g + fl_len g \<le> length p"
  shows "slice g (write_at offset bs p) = slice g p"
  using assms by (intro nth_equalityI) (auto simp: slice_def nth_write_at)

section \<open>Inputs arrive as they were written\<close>

text \<open>Hexadecimal text stands for its bytes; what arrives is in capital letters.\<close>

definition same_input :: "link_value \<Rightarrow> link_value \<Rightarrow> bool" where
  "same_input v w = (case (v, w) of (LV_String s, LV_String t) \<Rightarrow> hex_pairs s = hex_pairs t | _ \<Rightarrow> v = w)"

lemma fire_round_trip: "fire_bytes n = Some bs \<Longrightarrow> fire_code bs = n \<and> length bs = 5"
proof -
  assume "fire_bytes n = Some bs"
  then have "(n, bs) \<in> set FIRE_STATES" by (auto simp: fire_bytes_def find_Some_iff in_set_conv_nth)
  moreover have "list_all (\<lambda>(n, bs). fire_code bs = n \<and> length bs = 5) FIRE_STATES" by code_simp
  ultimately show "fire_code bs = n \<and> length bs = 5" by (auto simp: list_all_iff)
qed

lemma collect_results_Ok: "collect_results rs = Ok xs \<longleftrightarrow> rs = map Ok xs"
  by (induction rs arbitrary: xs) (auto simp: Cons_eq_map_conv)

lemma length_hex_pairs: "length (hex_pairs s) = length s div 2"
  by (induction s rule: hex_pairs.induct) auto

lemma field_bytes_value:
  assumes "field_bytes f v = Ok bs" and "written_len f"
  shows "length bs = fl_len f" and "same_input v (field_value f bs)"
proof -
  have "length bs = fl_len f \<and> same_input v (field_value f bs)"
  proof (cases "fl_kind f")
    case Unsigned
    with assms obtain n where n: "v = LV_UInt32 n" "n \<le> 255" "bs = [ucast n]" "fl_len f = 1"
      by (auto simp: field_bytes_def written_len_def split: link_value.splits if_splits)
    have "unat n < 2 ^ 8" using n(2) by (simp add: word_le_nat_alt)
    then have "take_bit 8 (unat n) = unat n" "take_bit 32 (unat n) = unat n" by (simp_all add: take_bit_nat_eq_self)
    then have "ucast (ucast n :: u8) = n" by (simp add: word_unat_eq_iff unsigned_ucast_eq unsigned_take_bit_eq)
    with n Unsigned show ?thesis by (simp add: field_value_def same_input_def)
  next
    case Hex
    with assms obtain t where t: "v = LV_String t" "length t = fl_len f * 2" "hex_pairs t = map Ok bs"
      by (auto simp: field_bytes_def collect_results_Ok split: link_value.splits if_splits)
    then have "length bs = fl_len f" using length_hex_pairs[of t] by simp
    with t Hex show ?thesis by (simp add: field_value_def same_input_def hex_text_def hex_pairs_format)
  next
    case Fire
    with assms obtain n where "v = LV_UInt32 n" "fire_bytes n = Some bs" "fl_len f = 5"
      by (auto simp: field_bytes_def written_len_def split: link_value.splits option.splits)
        (metis Inr_inject Inr_not_Inl ok_or.elims)
    with Fire fire_round_trip[of n bs] show ?thesis by (simp add: field_value_def same_input_def)
  qed
  then show "length bs = fl_len f" "same_input v (field_value f bs)" by simp_all
qed

lemma writeE:
  assumes "write_transmit_field l name v p = Ok p'"
  obtains f bs where "f \<in> set (transmit_fields l)" and "name = data_name f" and "field_bytes f v = Ok bs"
    and "p' = write_at (fl_offset f) bs p" and "validate_payload l p = Ok ()" and "length bs = fl_len f"
    and "fl_offset f + fl_len f \<le> length p"
proof -
  obtain f bs where w: "find (\<lambda>f. name = data_name f) (transmit_fields l) = Some f" "field_bytes f v = Ok bs"
    "p' = write_at (fl_offset f) bs p" "validate_payload l p = Ok ()"
    using assms by (auto simp: write_transmit_field_def split: option.splits)
  from w(1) have f: "f \<in> set (transmit_fields l)" "name = data_name f" by (auto simp: find_Some_iff)
  have "fl_offset f + fl_len f \<le> length p"
    using tiles_bounds[OF layout_tiles transmit_field[OF f(1)]] w(4) by (simp add: validate_payload_def split: if_splits)
  with that[OF f w(2-4) field_bytes_value(1)[OF w(2) transmit_field_lengths[OF f(1)]]] show thesis by simp
qed

lemma write_valid:
  assumes "write_transmit_field l name v p = Ok p'"
  shows "validate_payload l p' = Ok ()"
  using assms
proof (rule writeE)
  fix f bs
  assume f: "f \<in> set (transmit_fields l)" "p' = write_at (fl_offset f) bs p" "validate_payload l p = Ok ()" "length bs = fl_len f"
    "fl_offset f + fl_len f \<le> length p"
  have "2 \<le> fl_offset f" using transmit_field_lengths[OF f(1)] by (simp add: written_len_def)
  with f have "p' ! 0 = p ! 0" "p' ! 1 = p ! 1" by (auto intro!: nth_write_at)
  with f show ?thesis by (simp add: validate_payload_def u16_at_def split: if_splits)
qed

lemma data_name_inj: "f \<in> set (layout_fields l) \<Longrightarrow> g \<in> set (layout_fields l) \<Longrightarrow> data_name f = data_name g \<Longrightarrow> f = g"
  using layout_names[of l] by (auto simp: distinct_map dest: inj_onD)

lemma write_field_values:
  assumes "write_transmit_field l name v p = Ok p'" and "g \<in> set (layout_fields l)"
  shows "if data_name g = name then same_input v (field_value g (slice g p'))
    else slice g p' = slice g p"
  using assms(1)
proof (rule writeE)
  fix f bs
  assume f: "f \<in> set (transmit_fields l)" "name = data_name f" "field_bytes f v = Ok bs" "p' = write_at (fl_offset f) bs p"
    "validate_payload l p = Ok ()" "length bs = fl_len f" "fl_offset f + fl_len f \<le> length p"
  note ff = transmit_field[OF f(1)]
  have len: "length p = payload_len l" using f(5) by (simp add: validate_payload_def split: if_splits)
  show ?thesis
  proof (cases "g = f")
    case True
    then show ?thesis
      using f slice_written[of bs f p] field_bytes_value(2)[OF f(3) transmit_field_lengths[OF f(1)]] by simp
  next
    case False
    then have "data_name g \<noteq> name" using data_name_inj[OF assms(2) ff] f(2) by auto
    with f slice_other[of g "fl_offset f" bs p] tiles_disjoint[OF layout_tiles ff assms(2)] False
      tiles_bounds[OF layout_tiles assms(2)] len show ?thesis by auto
  qed
qed

end
