(* ===== verification/Link_Config.thy ===== *)
theory Link_Config
  imports Unit_Report
begin

text \<open>
  The validation of a link configuration (\<open>src/communicate/src/config.rs\<close>, \<open>validate_port\<close> of
  \<open>synchronization.rs\<close>, \<open>validate_points\<close> of \<open>unit_report.rs\<close>, the registry of \<open>protocol.rs\<close>). The TOML and
  CSV readers, the paths of the operating system and IP addresses are parameters. A rejection stands for
  its message.
\<close>

section \<open>Parameters and errors\<close>

record config_env =
  ce_is_absolute :: "string \<Rightarrow> bool"
  ce_canonicalize :: "string \<Rightarrow> string option"
  ce_unspecified_ip :: "string \<Rightarrow> bool"
  ce_toml :: "string \<Rightarrow> string + link_config"
  ce_headers :: "string \<Rightarrow> string + string list"
  ce_rows :: "string \<Rightarrow> (string + point_definition) list"
  ce_describe :: "field \<Rightarrow> string"

datatype rejection =
    SchemaVersion | OpcEndpoint | AdvertisedHost | Counts | PortId | DeviceTwice | SerialFormat | Timeouts | FrameLimits
  | TaskId | PointName | ReportTask string | SyncPortId string | SyncLayouts string | SyncDeadlines string | SyncCapacity string
  | PointMap string | VariableTwice | AuxiliaryTwice | UnsupportedProtocol string | PendingProtocol string | OneLayout
  | TooLarge | CsvHeader | TooManyPoints | InvalidToml string | InvalidCsv string

section \<open>Identifiers\<close>

definition name_chars :: "string \<Rightarrow> string \<Rightarrow> bool" where
  "name_chars extra value \<longleftrightarrow> value \<noteq> [] \<and> length value \<le> 128 \<and> list_all (\<lambda>c. is_ascii_alphanumeric c \<or> c \<in> set extra) value"

definition valid_id :: "string \<Rightarrow> bool" where
  "valid_id value = name_chars ''-_.'' value"

definition valid_point_name :: "string \<Rightarrow> bool" where
  "valid_point_name value = name_chars ''-_.[]'' value"

definition ends_with :: "string \<Rightarrow> string \<Rightarrow> bool" where
  "ends_with p s \<longleftrightarrow> length p \<le> length s \<and> drop (length s - length p) s = p"

text \<open>\<open>char::is_control\<close> on UTF-8: U+0000 to U+001F, U+007F, and U+0080 to U+009F as two bytes.\<close>

fun has_control :: "string \<Rightarrow> bool" where
  "has_control [] = False"
| "has_control (c # s) \<longleftrightarrow> code_of c < 32 \<or> code_of c = 127
     \<or> code_of c = 194 \<and> (case s of d # _ \<Rightarrow> 128 \<le> code_of d \<and> code_of d < 160 | [] \<Rightarrow> False) \<or> has_control s"

section \<open>Ports\<close>

definition layout_of_first :: "port_config \<Rightarrow> layout option" where
  "layout_of_first port = (case pc_tasks port of [] \<Rightarrow> None | t # _ \<Rightarrow> from_protocol (tc_protocol t))"

definition in_ms :: "u64 \<Rightarrow> u64 \<Rightarrow> u64 \<Rightarrow> bool" where
  "in_ms lo hi v \<longleftrightarrow> lo \<le> v \<and> v \<le> hi"

definition sync_deadlines_bad :: "port_config \<Rightarrow> settings \<Rightarrow> nat \<Rightarrow> bool" where
  "sync_deadlines_bad port s capacity \<longleftrightarrow>
     \<not> in_ms 100 3600000 (st_send_interval_ms s)
     \<or> st_initial_delay_ms s \<ge> st_send_interval_ms s
     \<or> \<not> in_ms 1 60000 (st_idle_gap_ms s)
     \<or> st_idle_gap_ms s \<ge> st_send_interval_ms s
     \<or> \<not> in_ms 100 3600000 (st_receive_timeout_ms s)
     \<or> st_receive_timeout_ms s < pc_frame_timeout_ms port
     \<or> \<not> in_ms 100 3600000 (st_snapshot_max_age_ms s)
     \<or> \<not> in_ms 100 3600000 (st_input_refresh_interval_ms s)
     \<or> st_snapshot_max_age_ms s \<le> st_input_refresh_interval_ms s
     \<or> pc_max_payload_bytes port < capacity"

definition validate_port :: "port_config \<Rightarrow> rejection + unit" where
  "validate_port port =
     (let known = length (filter (\<lambda>t. from_protocol (tc_protocol t) \<noteq> None) (pc_tasks port))
      in if 0 < known \<and> (known \<noteq> 1 \<or> length (pc_tasks port) \<noteq> 1 \<or> pc_synchronization port = None)
         then Err (ReportTask (pc_id port))
         else case pc_synchronization port of
           None \<Rightarrow> Ok ()
         | Some s \<Rightarrow>
             if CHR ''.'' \<in> set (pc_id port) then Err (SyncPortId (pc_id port))
             else (case (known = 1, layout_of_first port, from_protocol (st_transmit_protocol s)) of
               (True, Some receive, Some transmit) \<Rightarrow>
                 if receive = transmit then Err (SyncLayouts (pc_id port))
                 else if sync_deadlines_bad port s (max (payload_len receive) (payload_len transmit))
                 then Err (SyncDeadlines (pc_id port))
                 else if pc_max_frame_bytes port < payload_len transmit + 10 \<or> pc_max_frame_bytes port < payload_len receive + 10
                 then Err (SyncCapacity (pc_id port)) else Ok ()
             | _ \<Rightarrow> Err (SyncLayouts (pc_id port))))"

fun validate_tasks :: "task_config list \<Rightarrow> string list \<Rightarrow> rejection + string list" where
  "validate_tasks [] seen = Ok seen"
| "validate_tasks (t # ts) seen =
     (if \<not> valid_id (tc_id t) \<or> tc_id t \<in> set seen \<or> \<not> valid_id (tc_protocol t) \<or> \<not> in_ms 10 3600000 (tc_interval_ms t)
      then Err TaskId else validate_tasks ts (tc_id t # seen))"

definition timeouts_bad :: "port_config \<Rightarrow> bool" where
  "timeouts_bad port \<longleftrightarrow>
     list_ex (\<lambda>v. \<not> in_ms 1 60000 v) [pc_first_byte_timeout_ms port, pc_frame_timeout_ms port, pc_write_timeout_ms port,
       pc_late_frame_guard_ms port]
     \<or> pc_frame_timeout_ms port < pc_first_byte_timeout_ms port
     \<or> pc_reconnect_min_ms port < 100 \<or> pc_reconnect_max_ms port > 60000 \<or> pc_reconnect_min_ms port > pc_reconnect_max_ms port"

text \<open>The sets \<open>ports\<close>, \<open>devices\<close> and \<open>tasks\<close> of the loop.\<close>

fun validate_ports :: "config_env \<Rightarrow> port_config list \<Rightarrow> string list \<Rightarrow> string list \<Rightarrow> string list \<Rightarrow> rejection + string list" where
  "validate_ports env [] ports devices tasks = Ok tasks"
| "validate_ports env (p # ps) ports devices tasks =
     (let physical = (case ce_canonicalize env (pc_device p) of Some d \<Rightarrow> d | None \<Rightarrow> pc_device p)
      in if \<not> valid_id (pc_id p) \<or> pc_id p \<in> set ports \<or> \<not> ce_is_absolute env (pc_device p) then Err PortId
         else if physical \<in> set devices then Err DeviceTwice
         else if \<not> (300 \<le> pc_baud_rate p \<and> pc_baud_rate p \<le> 4000000) \<or> \<not> (5 \<le> pc_data_bits p \<and> pc_data_bits p \<le> 8)
              \<or> \<not> (1 \<le> pc_stop_bits p \<and> pc_stop_bits p \<le> 2) then Err SerialFormat
         else if timeouts_bad p then Err Timeouts
         else if \<not> (18 \<le> pc_max_frame_bytes p \<and> pc_max_frame_bytes p \<le> 65535)
              \<or> \<not> (1 \<le> pc_max_payload_bytes p \<and> pc_max_payload_bytes p \<le> 65535) \<or> 256 < length (pc_tasks p) then Err FrameLimits
         else and_then (validate_tasks (pc_tasks p) tasks) (\<lambda>tasks.
           and_then (validate_port p) (\<lambda>_. validate_ports env ps (pc_id p # ports) (physical # devices) tasks)))"

section \<open>Points and the whole configuration\<close>

definition MAX_CONFIG_BYTES :: nat where "MAX_CONFIG_BYTES = 1024 * 1024"
definition MAX_POINTS_BYTES :: nat where "MAX_POINTS_BYTES = 8 * 1024 * 1024"
definition MAX_POINTS :: nat where "MAX_POINTS = 25000"

fun validate_point_list :: "point_definition list \<Rightarrow> string list \<Rightarrow> string list \<Rightarrow> rejection + unit" where
  "validate_point_list [] tasks names = Ok ()"
| "validate_point_list (p # ps) tasks names =
     (if \<not> valid_point_name (pd_name p) \<or> pd_name p = ''Devices'' \<or> pd_name p = ''Methods''
         \<or> starts_with (pd_name p) ''RcdSync.'' \<or> ends_with ''_Send'' (pd_name p) \<or> ends_with ''_SendCommand'' (pd_name p)
         \<or> pd_name p \<in> set names \<or> pd_task_id p \<notin> set tasks
         \<or> 1024 < length (pd_description p) \<or> has_control (pd_description p)
      then Err PointName else validate_point_list ps tasks (pd_name p # names))"

definition link_validate :: "config_env \<Rightarrow> link_config \<Rightarrow> point_definition list \<Rightarrow> rejection + unit" where
  "link_validate env config points =
     (let opc = lc_opc config
      in if lc_schema_version config \<noteq> 1 \<or> \<not> valid_id (lc_instance_id config) \<or> lc_points_file config = [] then Err SchemaVersion
         else if oc_port opc = 0 \<or> \<not> oc_allow_anonymous_none opc \<and> \<not> oc_allow_anonymous_secure opc then Err OpcEndpoint
         else if oc_advertised_host opc = [] \<or> 253 < length (oc_advertised_host opc)
              \<or> \<not> list_all (\<lambda>c. is_ascii_alphanumeric c \<or> c \<in> set ''.-'') (oc_advertised_host opc)
              \<or> ce_unspecified_ip env (oc_advertised_host opc) then Err AdvertisedHost
         else if 32 < length (lc_ports config) \<or> MAX_POINTS < length points then Err Counts
         else and_then (validate_ports env (lc_ports config) [] [] []) (\<lambda>tasks. validate_point_list points tasks []))"

text \<open>The documented points of a report, for every task that receives one, and the names of the inputs.\<close>

definition point_map_ok :: "config_env \<Rightarrow> point_definition list \<Rightarrow> task_config \<Rightarrow> bool" where
  "point_map_ok env points task =
     (case from_protocol (tc_protocol task) of
        None \<Rightarrow> True
      | Some l \<Rightarrow>
          (let expected = unit_definitions (ce_describe env) (tc_id task) l;
               actual = filter (\<lambda>p. pd_task_id p = tc_id task) points
           in length expected = length actual
              \<and> list_all (\<lambda>e. list_ex (\<lambda>a. pd_name a = pd_name e \<and> pd_data_type a = pd_data_type e) actual) expected))"

fun insert_names :: "rejection \<Rightarrow> string list \<Rightarrow> string list \<Rightarrow> rejection + string list" where
  "insert_names e [] names = Ok names"
| "insert_names e (n # ns) names = (if n \<in> set names then Err e else insert_names e ns (n # names))"

fun validate_points_ports :: "config_env \<Rightarrow> point_definition list \<Rightarrow> port_config list \<Rightarrow> string list \<Rightarrow> rejection + unit" where
  "validate_points_ports env points [] names = Ok ()"
| "validate_points_ports env points (p # ps) names =
     (case find (\<lambda>t. \<not> point_map_ok env points t) (pc_tasks p) of
        Some t \<Rightarrow> Err (PointMap (tc_id t))
      | None \<Rightarrow>
          (case Option.bind (pc_synchronization p) (\<lambda>s. from_protocol (st_transmit_protocol s)) of
             None \<Rightarrow> validate_points_ports env points ps names
           | Some l \<Rightarrow>
               and_then (insert_names VariableTwice (map pd_name (transmit_definitions (ce_describe env) (pc_id p) l)) names) (\<lambda>names.
               and_then (insert_names AuxiliaryTwice [''TransmitSnapshot'', ''TransmitStatus'', ''InputRefreshIntervalMs'', ''InputTimeoutMs''] names)
                 (validate_points_ports env points ps))))"

definition validate_points :: "config_env \<Rightarrow> link_config \<Rightarrow> point_definition list \<Rightarrow> rejection + unit" where
  "validate_points env config points = validate_points_ports env points (lc_ports config) (map pd_name points)"

fun read_rows :: "(string + point_definition) list \<Rightarrow> point_definition list \<Rightarrow> rejection + point_definition list" where
  "read_rows [] points = Ok points"
| "read_rows (row # rows) points =
     (if length points = MAX_POINTS then Err TooManyPoints
      else case row of Inl e \<Rightarrow> Err (InvalidCsv e) | Inr p \<Rightarrow> read_rows rows (points @ [p]))"

definition link_parse :: "config_env \<Rightarrow> string \<Rightarrow> string \<Rightarrow> rejection + (link_config \<times> point_definition list)" where
  "link_parse env text points_text =
     (if MAX_CONFIG_BYTES < length text \<or> MAX_POINTS_BYTES < length points_text then Err TooLarge
      else and_then (map_err InvalidToml (ce_toml env text)) (\<lambda>config.
        and_then (map_err InvalidCsv (ce_headers env points_text)) (\<lambda>headers.
          if headers \<noteq> [''name'', ''task_id'', ''data_type'', ''description'']
             \<and> headers \<noteq> [''kks'', ''task_id'', ''data_type'', ''description''] then Err CsvHeader
          else and_then (read_rows (ce_rows env points_text) []) (\<lambda>points.
            and_then (link_validate env config points) (\<lambda>_.
            and_then (validate_points env config points) (\<lambda>_. Ok (config, points)))))))"

section \<open>Adapters\<close>

text \<open>The production registry knows the two report layouts.\<close>

fun prepare_tasks :: "bool \<Rightarrow> task_config list \<Rightarrow> rejection + (task_config \<times> layout) list" where
  "prepare_tasks enabled [] = Ok []"
| "prepare_tasks enabled (t # ts) =
     (if tc_protocol t \<noteq> ''pending'' \<and> from_protocol (tc_protocol t) = None then Err (UnsupportedProtocol (tc_id t))
      else if enabled \<and> tc_enabled t then
        (case from_protocol (tc_protocol t) of
           None \<Rightarrow> Err (PendingProtocol (tc_id t))
         | Some l \<Rightarrow> map_ok ((#) (t, l)) (prepare_tasks enabled ts))
      else prepare_tasks enabled ts)"

fun prepare :: "port_config list \<Rightarrow> rejection + (task_config \<times> layout) list list" where
  "prepare [] = Ok []"
| "prepare (p # ps) =
     and_then (prepare_tasks (pc_enabled p) (pc_tasks p)) (\<lambda>tasks.
       if tasks \<noteq> [] \<and> length tasks \<noteq> 1 then Err OneLayout
       else map_ok ((#) tasks) (prepare ps))"

section \<open>An accepted configuration takes every valid report\<close>

lemma validate_point_names:
  "validate_point_list ps tasks names = Ok () \<Longrightarrow> distinct (map pd_name ps) \<and> set (map pd_name ps) \<inter> set names = {}"
  by (induction ps arbitrary: names) (force split: if_splits)+

lemma point_map_found:
  assumes "validate_points_ports env points ports names = Ok ()" and "p \<in> set ports" and "t \<in> set (pc_tasks p)"
  shows "point_map_ok env points t"
  using assms(1,2)
proof (induction ports arbitrary: names)
  case (Cons q ports)
  then have q: "find (\<lambda>t. \<not> point_map_ok env points t) (pc_tasks q) = None" by (auto split: option.splits)
  obtain names' where "validate_points_ports env points ports names' = Ok ()"
    using Cons.prems(1) q by (auto split: option.splits)
  with Cons q assms(3) show ?case by (auto simp: find_None_iff)
qed simp

lemma link_parse_parts:
  assumes "link_parse env text points_text = Ok (config, points)"
  shows "link_validate env config points = Ok ()" and "validate_points env config points = Ok ()"
  using assms by (simp_all add: link_parse_def split: if_splits) blast+

lemma link_parseE:
  assumes "link_parse env text points_text = Ok (config, points)"
  shows "distinct (map pd_name points)"
    and "p \<in> set (lc_ports config) \<Longrightarrow> t \<in> set (pc_tasks p) \<Longrightarrow> point_map_ok env points t"
proof -
  note v = link_parse_parts[OF assms]
  from v(1) obtain tasks where "validate_point_list points tasks [] = Ok ()"
    by (auto simp: link_validate_def Let_def split: if_splits)
  then show "distinct (map pd_name points)" using validate_point_names by blast
  show "p \<in> set (lc_ports config) \<Longrightarrow> t \<in> set (pc_tasks p) \<Longrightarrow> point_map_ok env points t"
    using point_map_found v(2) unfolding validate_points_def by blast
qed

lemma field_update_typed:
  assumes "f \<in> set (layout_fields l)" and "length payload = payload_len l"
  shows "data_type_of (pu_value (field_update payload f)) = pd_data_type (definition_of describe task f)"
    and "value_valid (pu_value (field_update payload f))"
proof -
  show "data_type_of (pu_value (field_update payload f)) = pd_data_type (definition_of describe task f)"
    by (cases "fl_kind f") (simp_all add: field_update_def field_value_def definition_of_def)
  have "length (hex_text bs) = 2 * length bs" for bs by (induction bs) (simp_all add: hex_text_def)
  moreover have "fl_len f \<le> 1156" using tiles_bounds[OF layout_tiles assms(1)] by (cases l) auto
  ultimately show "value_valid (pu_value (field_update payload f))"
    by (cases "fl_kind f") (simp_all add: field_update_def field_value_def slice_def)
qed

lemma report_definitions:
  assumes "distinct (map pd_name points)" and "point_map_ok env points task" and "from_protocol (tc_protocol task) = Some l"
  shows "length (filter (\<lambda>d. pd_task_id d = tc_id task) points) = length (layout_fields l)"
    and "f \<in> set (layout_fields l) \<Longrightarrow> \<exists>d \<in> set points. pd_name d = data_name f \<and> pd_task_id d = tc_id task
      \<and> pd_data_type d = pd_data_type (definition_of (ce_describe env) (tc_id task) f)"
proof -
  note m = assms(2)[unfolded point_map_ok_def assms(3) Let_def unit_definitions_def, simplified]
  show "length (filter (\<lambda>d. pd_task_id d = tc_id task) points) = length (layout_fields l)" using m by simp
  show "\<exists>d \<in> set points. pd_name d = data_name f \<and> pd_task_id d = tc_id task
      \<and> pd_data_type d = pd_data_type (definition_of (ce_describe env) (tc_id task) f)" if "f \<in> set (layout_fields l)"
    using m that by (fastforce simp: list_all_iff list_ex_iff definition_of_def)
qed

lemma report_published:
  assumes "link_parse env text points_text = Ok (config, points)" and "port \<in> set (lc_ports config)" and "task \<in> set (pc_tasks port)"
    and "from_protocol (tc_protocol task) = Some l" and "validate_payload l payload = Ok ()"
    and "store_run (store_new config points) s"
  shows "\<exists>s'. publish utc (tc_id task) (map (field_update payload) (layout_fields l)) time s = Ok s'"
proof -
  let ?us = "map (field_update payload) (layout_fields l)"
  note p = link_parseE[OF assms(1)] and fr = store_run_frame[OF assms(6)]
  note r = report_definitions[OF p(1) p(2)[OF assms(2,3)] assms(4)]
  have len: "length payload = payload_len l" using assms(5) by (simp add: validate_payload_def split: if_splits)
  have "ps_tasks s (tc_id task) = Some (map pd_name (filter (\<lambda>d. pd_task_id d = tc_id task) points))"
    using fr(2) store_new_tasks[OF assms(2,3)] by simp
  moreover have "check_updates (ps_definitions s) (tc_id task) [] ?us = Ok ()"
  proof (rule check_updates_accepts)
    have "map pu_name ?us = map data_name (layout_fields l)" by (simp add: field_update_def comp_def)
    then show "distinct (map pu_name ?us)" by (simp only: layout_names)
    fix u assume "u \<in> set ?us"
    then obtain f where f: "f \<in> set (layout_fields l)" "u = field_update payload f" by auto
    from r(2)[OF f(1)] obtain d where d: "d \<in> set points" "pd_name d = data_name f" "pd_task_id d = tc_id task"
      "pd_data_type d = pd_data_type (definition_of (ce_describe env) (tc_id task) f)" by blast
    have "ps_definitions s (pu_name u) = Some d"
      using fr(1) store_new_definitions[OF p(1) d(1)] d(2) f(2) by (simp add: field_update_def)
    then show "\<exists>d. ps_definitions s (pu_name u) = Some d \<and> pd_task_id d = tc_id task
        \<and> pd_data_type d = data_type_of (pu_value u) \<and> value_valid (pu_value u)"
      using d(3,4) f field_update_typed[OF f(1) len] by simp
  qed simp
  ultimately show ?thesis using r(1) by (simp add: publish_def)
qed

end
