(* ===== verification/Link_Mailbox.thy ===== *)
theory Link_Mailbox
  imports Link_Serial Link_Config
begin

text \<open>
  The mailboxes of the link program (\<open>Mailboxes\<close> of \<open>src/communicate/src/synchronization.rs\<close>): per
  synchronised port, the snapshot it is to send, supplied whole or input by input. The JSON reader is a
  parameter. Each operation is one critical section; it returns its result and the mailboxes it leaves.
\<close>

section \<open>State\<close>

record slot =
  sl_settings :: settings
  sl_enabled :: bool
  sl_revision :: u64
  sl_snapshot :: "(bytes \<times> nat) option"
  sl_sent :: u64
  sl_error :: string
  sl_fields :: "(string \<times> link_value \<times> nat \<times> nat) list"
  sl_field_payload :: bytes
  sl_atomic_mode :: bool

type_synonym mailboxes = "string \<rightharpoonup> slot"

datatype sync_error =
    RequestTooLarge | BadRequest string | BadHexPayload | UnknownPort | TransmissionDisabled | RevisionConflict
  | UnsupportedLayout | BadPayload report_error | RevisionExhausted | EveryInputOnce | MissingInput | MustBeUInt32
  | MustBeString | UnsupportedInput | AtomicActive

definition slot_new :: "settings \<Rightarrow> bool \<Rightarrow> slot" where
  "slot_new settings enabled = \<lparr>sl_settings = settings, sl_enabled = enabled, sl_revision = 0, sl_snapshot = None,
     sl_sent = 0, sl_error = [], sl_fields = [], sl_field_payload = [], sl_atomic_mode = False\<rparr>"

definition mailboxes_new :: "link_config \<Rightarrow> mailboxes" where
  "mailboxes_new config =
     fold (\<lambda>p m. case pc_synchronization p of None \<Rightarrow> m
            | Some settings \<Rightarrow> m(pc_id p \<mapsto> slot_new settings (pc_enabled p \<and> list_ex tc_enabled (pc_tasks p))))
       (lc_ports config) Map.empty"

definition checked_inc :: "u64 \<Rightarrow> u64 option" where
  "checked_inc n = (if n = - 1 then None else Some (n + 1))"

definition slot_layout :: "slot \<Rightarrow> layout option" where
  "slot_layout s = from_protocol (st_transmit_protocol (sl_settings s))"

definition transmitting :: "slot \<Rightarrow> bool" where
  "transmitting s \<longleftrightarrow> sl_enabled s \<and> st_transmit_enabled (sl_settings s)"

text \<open>The lookup and the checks every submission starts with.\<close>

definition on_slot :: "string \<Rightarrow> (slot \<Rightarrow> (sync_error + 'r) \<times> slot) \<Rightarrow> mailboxes \<Rightarrow> (sync_error + 'r) \<times> mailboxes" where
  "on_slot port f m =
     (case m port of None \<Rightarrow> (Err UnknownPort, m)
      | Some s \<Rightarrow> if \<not> transmitting s then (Err TransmissionDisabled, m)
                 else let (r, s) = f s in (r, m(port \<mapsto> s)))"

section \<open>Whole snapshots\<close>

definition submit_slot :: "nat \<Rightarrow> u64 \<Rightarrow> bytes \<Rightarrow> slot \<Rightarrow> (sync_error + u64) \<times> slot" where
  "submit_slot now revision payload s =
     (if revision \<noteq> sl_revision s then (Err RevisionConflict, s)
      else case slot_layout s of None \<Rightarrow> (Err UnsupportedLayout, s)
      | Some l \<Rightarrow> (case validate_payload l payload of
          Inl e \<Rightarrow> (Err (BadPayload e), s)
        | Inr _ \<Rightarrow> (case checked_inc (sl_revision s) of
            None \<Rightarrow> (Err RevisionExhausted, s)
          | Some n \<Rightarrow> (Ok n, s\<lparr>sl_revision := n, sl_snapshot := Some (payload, now), sl_fields := [], sl_atomic_mode := True\<rparr>))))"

definition submit :: "nat \<Rightarrow> string \<Rightarrow> u64 \<Rightarrow> bytes \<Rightarrow> mailboxes \<Rightarrow> (sync_error + u64) \<times> mailboxes" where
  "submit now port revision payload = on_slot port (submit_slot now revision payload)"

definition submit_json ::
  "(string \<Rightarrow> string + u64 \<times> string) \<Rightarrow> nat \<Rightarrow> string \<Rightarrow> string \<Rightarrow> mailboxes \<Rightarrow> (sync_error + u64) \<times> mailboxes" where
  "submit_json json now port input m =
     (if 8192 < length input then (Err RequestTooLarge, m)
      else case json input of Inl e \<Rightarrow> (Err (BadRequest e), m)
      | Inr (revision, payload_hex) \<Rightarrow>
          (let hex = filter (\<lambda>c. \<not> is_ascii_whitespace c) payload_hex
           in if length hex mod 2 \<noteq> 0 \<or> \<not> is_ascii hex then (Err BadHexPayload, m)
              else case collect_results (hex_pairs hex) of Inl e \<Rightarrow> (Err BadHexPayload, m)
              | Inr bs \<Rightarrow> submit now port revision bs m))"

datatype json_value = JUnsigned u64 | JString string | JOther

definition input_value :: "data_type \<Rightarrow> json_value \<Rightarrow> sync_error + link_value" where
  "input_value t raw =
     (case t of
        DT_UInt32 \<Rightarrow> (case raw of JUnsigned n \<Rightarrow> if unat n < 2 ^ 32 then Ok (LV_UInt32 (ucast n)) else Err MustBeUInt32
                                | _ \<Rightarrow> Err MustBeUInt32)
      | DT_String \<Rightarrow> (case raw of JString s \<Rightarrow> Ok (LV_String s) | _ \<Rightarrow> Err MustBeString)
      | _ \<Rightarrow> Err UnsupportedInput)"

text \<open>The loop over the inputs of the layout: the payload and the table of inputs grow together.\<close>

fun write_inputs :: "layout \<Rightarrow> (string \<rightharpoonup> json_value) \<Rightarrow> nat \<Rightarrow> nat \<Rightarrow> point_definition list \<Rightarrow> bytes \<Rightarrow>
    (string \<times> link_value \<times> nat \<times> nat) list \<Rightarrow> sync_error + (bytes \<times> (string \<times> link_value \<times> nat \<times> nat) list)" where
  "write_inputs l given now utc [] payload inputs = Ok (payload, inputs)"
| "write_inputs l given now utc (d # ds) payload inputs =
     and_then (ok_or MissingInput (given (pd_name d))) (\<lambda>raw.
     and_then (input_value (pd_data_type d) raw) (\<lambda>v.
     and_then (map_err BadPayload (write_transmit_field l (pd_name d) v payload)) (\<lambda>payload.
       write_inputs l given now utc ds payload (btree_insert (pd_name d) (v, now, utc) inputs))))"

definition submit_fields_slot ::
  "(field \<Rightarrow> string) \<Rightarrow> string \<Rightarrow> nat \<Rightarrow> nat \<Rightarrow> u64 \<Rightarrow> (string \<times> json_value) list \<Rightarrow> slot \<Rightarrow> (sync_error + u64) \<times> slot" where
  "submit_fields_slot describe port now utc revision given s =
     (if revision \<noteq> sl_revision s then (Err RevisionConflict, s)
      else case slot_layout s of None \<Rightarrow> (Err UnsupportedLayout, s)
      | Some l \<Rightarrow>
          (let defs = transmit_definitions describe port l
           in if length given \<noteq> length defs then (Err EveryInputOnce, s)
              else case write_inputs l (map_of given) now utc defs (empty_transmit_payload l) [] of
                Inl e \<Rightarrow> (Err e, s)
              | Inr (payload, inputs) \<Rightarrow> (case checked_inc (sl_revision s) of
                  None \<Rightarrow> (Err RevisionExhausted, s)
                | Some n \<Rightarrow> (Ok n, s\<lparr>sl_fields := inputs, sl_field_payload := payload, sl_snapshot := None,
                                      sl_atomic_mode := True, sl_revision := n\<rparr>))))"

text \<open>The reader yields the inputs with distinct names; a repeated name is an error of the reader.\<close>

definition submit_fields_json ::
  "(string \<Rightarrow> string + u64 \<times> (string \<times> json_value) list) \<Rightarrow> (field \<Rightarrow> string) \<Rightarrow> nat \<Rightarrow> nat \<Rightarrow> string \<Rightarrow> string \<Rightarrow> mailboxes \<Rightarrow>
   (sync_error + u64) \<times> mailboxes" where
  "submit_fields_json json describe now utc port input m =
     (if 64 * 1024 < length input then (Err RequestTooLarge, m)
      else case json input of Inl e \<Rightarrow> (Err (BadRequest e), m)
      | Inr (revision, given) \<Rightarrow> on_slot port (submit_fields_slot describe port now utc revision given) m)"

section \<open>Single inputs\<close>

definition write_field_slot :: "nat \<Rightarrow> nat \<Rightarrow> string \<Rightarrow> link_value \<Rightarrow> slot \<Rightarrow> (sync_error + unit) \<times> slot" where
  "write_field_slot now utc name v s =
     (if sl_atomic_mode s then (Err AtomicActive, s)
      else case slot_layout s of None \<Rightarrow> (Err UnsupportedLayout, s)
      | Some l \<Rightarrow>
          (let s = (if sl_field_payload s = [] then s\<lparr>sl_field_payload := empty_transmit_payload l\<rparr> else s)
           in case checked_inc (sl_revision s) of None \<Rightarrow> (Err RevisionExhausted, s)
              | Some n \<Rightarrow> (case write_transmit_field l name v (sl_field_payload s) of
                  Inl e \<Rightarrow> (Err (BadPayload e), s)
                | Inr payload \<Rightarrow> (Ok (), s\<lparr>sl_field_payload := payload, sl_snapshot := None,
                    sl_fields := btree_insert name (v, now, utc) (sl_fields s), sl_revision := n\<rparr>))))"

definition write_field :: "nat \<Rightarrow> nat \<Rightarrow> string \<Rightarrow> string \<Rightarrow> link_value \<Rightarrow> mailboxes \<Rightarrow> (sync_error + unit) \<times> mailboxes" where
  "write_field now utc port name v = on_slot port (write_field_slot now utc name v)"

definition max_age :: "slot \<Rightarrow> nat" where
  "max_age s = from_millis (st_snapshot_max_age_ms (sl_settings s))"

definition field_sample :: "nat \<Rightarrow> string \<Rightarrow> string \<Rightarrow> data_type \<Rightarrow> mailboxes \<Rightarrow> sync_error + sample" where
  "field_sample now port name t m =
     (case m port of None \<Rightarrow> Err UnknownPort
      | Some s \<Rightarrow>
          (let found = map_of (sl_fields s) name;
               q = (if \<not> transmitting s then OutOfService
                    else case found of None \<Rightarrow> Waiting
                    | Some (_, t0, _) \<Rightarrow> if max_age s \<le> now - t0 then NoCommunication else Good)
           in Ok \<lparr>sa_value = (case found of Some (v, _, _) \<Rightarrow> v | None \<Rightarrow> zero_value t), sa_quality = q,
                  sa_source_timestamp = map_option (\<lambda>(_, _, utc). utc) found, sa_error = []\<rparr>))"

section \<open>What is sent\<close>

definition current :: "string \<Rightarrow> nat \<Rightarrow> mailboxes \<Rightarrow> bytes option" where
  "current port now m =
     Option.bind (m port) (\<lambda>s.
       if \<not> transmitting s then None
       else if sl_fields s \<noteq> [] then
         Option.bind (slot_layout s) (\<lambda>l.
           if length (sl_fields s) \<noteq> length (transmit_fields l)
              \<or> list_ex (\<lambda>(_, _, t0, _). max_age s \<le> now - t0) (sl_fields s) then None
           else Some (sl_field_payload s))
       else case sl_snapshot s of None \<Rightarrow> None
         | Some (bs, supplied) \<Rightarrow> if now - supplied < max_age s then Some bs else None)"

record sync_status =
  ss_revision :: u64
  ss_atomic :: bool
  ss_transmit_enabled :: bool
  ss_snapshot_age_ms :: "nat option"
  ss_snapshot_fresh :: bool
  ss_required_inputs :: nat
  ss_received_inputs :: nat
  ss_stale_inputs :: nat
  ss_input_refresh_interval_ms :: u64
  ss_input_timeout_ms :: u64
  ss_complete_writes :: u64
  ss_last_send_error :: string

definition sync_status_of :: "nat \<Rightarrow> string \<Rightarrow> mailboxes \<Rightarrow> sync_error + sync_status" where
  "sync_status_of now port m =
     (case m port of None \<Rightarrow> Err UnknownPort
      | Some s \<Rightarrow>
          (let age = map_option (\<lambda>(_, t0). (now - t0) div 10 ^ 6) (sl_snapshot s);
               required = (case slot_layout s of Some l \<Rightarrow> length (transmit_fields l) | None \<Rightarrow> 0);
               stale = length (filter (\<lambda>(_, _, t0, _). max_age s \<le> now - t0) (sl_fields s));
               fresh = (if sl_fields s = []
                        then (case age of Some a \<Rightarrow> a < unat (st_snapshot_max_age_ms (sl_settings s)) | None \<Rightarrow> False)
                        else length (sl_fields s) = required \<and> stale = 0)
           in Ok \<lparr>ss_revision = sl_revision s, ss_atomic = sl_atomic_mode s,
                  ss_transmit_enabled = st_transmit_enabled (sl_settings s), ss_snapshot_age_ms = age,
                  ss_snapshot_fresh = fresh, ss_required_inputs = required, ss_received_inputs = length (sl_fields s),
                  ss_stale_inputs = stale, ss_input_refresh_interval_ms = st_input_refresh_interval_ms (sl_settings s),
                  ss_input_timeout_ms = st_snapshot_max_age_ms (sl_settings s), ss_complete_writes = sl_sent s,
                  ss_last_send_error = sl_error s\<rparr>))"

definition saturating_inc64 :: "u64 \<Rightarrow> u64" where
  "saturating_inc64 n = (if n = - 1 then n else n + 1)"

text \<open>\<open>message\<close> is the text of the write error.\<close>

definition sync_result :: "(write_error \<Rightarrow> string) \<Rightarrow> string \<Rightarrow> write_error + unit \<Rightarrow> mailboxes \<Rightarrow> mailboxes" where
  "sync_result message port r m =
     (case m port of None \<Rightarrow> m
      | Some s \<Rightarrow> m(port \<mapsto> (case r of
          Inr _ \<Rightarrow> s\<lparr>sl_sent := saturating_inc64 (sl_sent s), sl_error := []\<rparr>
        | Inl e \<Rightarrow> s\<lparr>sl_error := message e\<rparr>)))"

section \<open>Only complete, explicit, fresh snapshots\<close>

definition inputs_ok :: "layout \<Rightarrow> bytes \<Rightarrow> (string \<times> link_value \<times> nat \<times> nat) list \<Rightarrow> bool" where
  "inputs_ok l p inputs \<longleftrightarrow> btree_ok inputs \<and> (\<forall>name v t0 utc. map_of inputs name = Some (v, t0, utc) \<longrightarrow>
     (\<exists>f \<in> set (transmit_fields l). name = data_name f \<and> same_input v (field_value f (slice f p))))"

definition slot_ok :: "slot \<Rightarrow> bool" where
  "slot_ok s \<longleftrightarrow>
     (\<forall>bs t0. sl_snapshot s = Some (bs, t0) \<longrightarrow> (\<exists>l. slot_layout s = Some l \<and> validate_payload l bs = Ok ()))
     \<and> (sl_fields s \<noteq> [] \<longrightarrow> (\<exists>l. slot_layout s = Some l \<and> validate_payload l (sl_field_payload s) = Ok ()
          \<and> inputs_ok l (sl_field_payload s) (sl_fields s)))"

definition mailboxes_ok :: "mailboxes \<Rightarrow> bool" where
  "mailboxes_ok m \<longleftrightarrow> (\<forall>port s. m port = Some s \<longrightarrow> slot_ok s)"

lemma inputs_ok_Nil [simp]: "inputs_ok l p []"
  by (simp add: inputs_ok_def btree_ok_def)

lemma inputs_ok_write:
  assumes "inputs_ok l p inputs" and "write_transmit_field l name v p = Ok p'"
  shows "inputs_ok l p' (btree_insert name (v, t0, utc) inputs)"
proof -
  obtain f where f: "f \<in> set (transmit_fields l)" "name = data_name f" using assms(2) by (auto elim: writeE)
  have "\<exists>g \<in> set (transmit_fields l). n = data_name g \<and> same_input w (field_value g (slice g p'))"
    if "map_of (btree_insert name (v, t0, utc) inputs) n = Some (w, t, u)" for n w t u
  proof (cases "n = name")
    case True
    with that assms(1) have "w = v" by (simp add: inputs_ok_def map_of_btree_insert)
    with True f write_field_values[OF assms(2) transmit_field[OF f(1)]] show ?thesis by auto
  next
    case False
    with that assms(1) have "map_of inputs n = Some (w, t, u)" by (simp add: inputs_ok_def map_of_btree_insert)
    with assms(1) obtain g where g: "g \<in> set (transmit_fields l)" "n = data_name g" "same_input w (field_value g (slice g p))"
      unfolding inputs_ok_def by blast
    with False write_field_values[OF assms(2) transmit_field[OF g(1)]] show ?thesis by auto
  qed
  with assms(1) show ?thesis by (auto simp: inputs_ok_def btree_ok_insert)
qed

lemma empty_payload_valid: "validate_payload l (empty_transmit_payload l) = Ok ()"
proof -
  have "validate_payload Unit1To9 (empty_transmit_payload Unit1To9) = Ok ()" "validate_payload Unit9To1 (empty_transmit_payload Unit9To1) = Ok ()"
    by code_simp+
  then show ?thesis by (cases l) (simp_all only:)
qed

lemma write_inputs_ok:
  "write_inputs l given now utc ds p inputs = Ok (p', inputs') \<Longrightarrow> validate_payload l p = Ok () \<Longrightarrow> inputs_ok l p inputs \<Longrightarrow>
   validate_payload l p' = Ok () \<and> inputs_ok l p' inputs'"
  by (induction l given now utc ds p inputs rule: write_inputs.induct) (auto dest: write_valid inputs_ok_write)

lemma slot_layout_cong [simp]:
  "slot_layout (s\<lparr>sl_revision := a\<rparr>) = slot_layout s" "slot_layout (s\<lparr>sl_snapshot := b\<rparr>) = slot_layout s"
  "slot_layout (s\<lparr>sl_fields := c\<rparr>) = slot_layout s" "slot_layout (s\<lparr>sl_field_payload := d\<rparr>) = slot_layout s"
  "slot_layout (s\<lparr>sl_atomic_mode := e\<rparr>) = slot_layout s" "slot_layout (s\<lparr>sl_sent := f\<rparr>) = slot_layout s"
  "slot_layout (s\<lparr>sl_error := g\<rparr>) = slot_layout s"
  by (simp_all add: slot_layout_def)

lemma submit_slot_ok: "slot_ok s \<Longrightarrow> slot_ok (snd (submit_slot now revision payload s))"
  by (auto simp: submit_slot_def slot_ok_def split: option.split sum.split)

lemma submit_fields_slot_ok: "slot_ok s \<Longrightarrow> slot_ok (snd (submit_fields_slot describe port now utc revision given s))"
  using write_inputs_ok[OF _ empty_payload_valid inputs_ok_Nil]
  by (auto simp: submit_fields_slot_def Let_def slot_ok_def split: option.split sum.split)

lemma payload_not_empty: "validate_payload l p = Ok () \<Longrightarrow> p \<noteq> []"
  by (cases l) (auto simp: validate_payload_def split: if_splits)

lemma write_field_slot_ok:
  assumes "slot_ok s"
  shows "slot_ok (snd (write_field_slot now utc name v s))"
proof (cases "sl_atomic_mode s \<or> slot_layout s = None")
  case True
  with assms show ?thesis by (auto simp: write_field_slot_def)
next
  case False
  then obtain l where l: "slot_layout s = Some l" by auto
  define s1 where "s1 = (if sl_field_payload s = [] then s\<lparr>sl_field_payload := empty_transmit_payload l\<rparr> else s)"
  have s1: "slot_ok s1" "slot_layout s1 = Some l"
    using assms l payload_not_empty by (auto simp: s1_def slot_ok_def)
  have "inputs_ok l (sl_field_payload s1) (sl_fields s1)" using s1 by (cases "sl_fields s1 = []") (auto simp: slot_ok_def)
  then have "slot_ok (s1\<lparr>sl_field_payload := p, sl_snapshot := None, sl_fields := btree_insert name (v, now, utc) (sl_fields s1), sl_revision := n\<rparr>)"
    if "write_transmit_field l name v (sl_field_payload s1) = Ok p" for p n
    using that s1(2) inputs_ok_write[OF _ that] write_valid[OF that] by (auto simp: slot_ok_def)
  with s1 False l show ?thesis
    by (auto simp: write_field_slot_def Let_def simp flip: s1_def split: option.split sum.split)
qed

lemma on_slot_ok:
  assumes "mailboxes_ok m" and "\<And>s. slot_ok s \<Longrightarrow> slot_ok (snd (f s))"
  shows "mailboxes_ok (snd (on_slot port f m))"
  using assms by (auto simp: on_slot_def mailboxes_ok_def split: option.split prod.split) (metis snd_conv)

lemmas mailbox_ops_ok = on_slot_ok[OF _ submit_slot_ok] on_slot_ok[OF _ submit_fields_slot_ok] on_slot_ok[OF _ write_field_slot_ok]

lemma sync_result_ok: "mailboxes_ok m \<Longrightarrow> mailboxes_ok (sync_result message port r m)"
  by (auto simp: sync_result_def mailboxes_ok_def slot_ok_def split: option.split sum.split)

lemma mailboxes_new_ok: "mailboxes_ok (mailboxes_new config)"
proof -
  define g where "g = (\<lambda>(p :: port_config) m. case pc_synchronization p of None \<Rightarrow> m
    | Some settings \<Rightarrow> m(pc_id p \<mapsto> slot_new settings (pc_enabled p \<and> list_ex tc_enabled (pc_tasks p))))"
  have "slot_ok (slot_new settings enabled)" for settings enabled by (simp add: slot_ok_def slot_new_def)
  then have "mailboxes_ok (g p m)" if "mailboxes_ok m" for p m
    using that by (cases "pc_synchronization p") (simp_all add: g_def mailboxes_ok_def)
  then have "mailboxes_ok m \<Longrightarrow> mailboxes_ok (fold g ports m)" for ports m
    by (induction ports arbitrary: m) simp_all
  from this[of Map.empty "lc_ports config"] have "mailboxes_ok (fold g (lc_ports config) Map.empty)"
    by (simp add: mailboxes_ok_def)
  then show ?thesis by (simp only: mailboxes_new_def g_def)
qed

text \<open>The critical sections of a running program, in any order.\<close>

inductive mail_run :: "mailboxes \<Rightarrow> mailboxes \<Rightarrow> bool" where
  start: "mail_run m m"
| submit: "mail_run m n \<Longrightarrow> mail_run m (snd (submit_json json now port input n))"
| submit_fields: "mail_run m n \<Longrightarrow> mail_run m (snd (submit_fields_json fjson describe now utc port input n))"
| write_input: "mail_run m n \<Longrightarrow> mail_run m (snd (write_field now utc port name v n))"
| result: "mail_run m n \<Longrightarrow> mail_run m (sync_result message port r n)"

lemma mail_run_ok: "mail_run m n \<Longrightarrow> mailboxes_ok m \<Longrightarrow> mailboxes_ok n"
  by (induction rule: mail_run.induct)
     (auto simp: submit_json_def submit_def submit_fields_json_def write_field_def Let_def sync_result_ok
        intro: mailbox_ops_ok split: sum.split)

text \<open>A table with as many entries as there are inputs has them all.\<close>

lemma all_inputs:
  assumes "inputs_ok l p inputs" and "length inputs = length (transmit_fields l)" and "f \<in> set (transmit_fields l)"
  shows "\<exists>v t0 utc. map_of inputs (data_name f) = Some (v, t0, utc) \<and> same_input v (field_value f (slice f p))"
proof -
  have d: "distinct (map data_name (transmit_fields l))"
    using layout_names[of l] by (simp add: transmit_fields_def distinct_map_filter)
  have k: "distinct (map fst inputs)" using assms(1) by (auto simp: inputs_ok_def btree_ok_def strict_sorted_iff)
  have "fst ` set inputs \<subseteq> data_name ` set (transmit_fields l)"
  proof
    fix n assume "n \<in> fst ` set inputs"
    then have "map_of inputs n \<noteq> None" by (simp add: map_of_eq_None_iff)
    then obtain v t0 utc where "map_of inputs n = Some (v, t0, utc)" by auto
    with assms(1) show "n \<in> data_name ` set (transmit_fields l)" unfolding inputs_ok_def by blast
  qed
  moreover have "card (fst ` set inputs) = card (data_name ` set (transmit_fields l))"
    using distinct_card[OF d] distinct_card[OF k] assms(2) by simp
  ultimately have "fst ` set inputs = data_name ` set (transmit_fields l)" by (simp add: card_subset_eq)
  with assms(3) have "map_of inputs (data_name f) \<noteq> None" by (simp add: map_of_eq_None_iff)
  then obtain v t0 utc where m: "map_of inputs (data_name f) = Some (v, t0, utc)" by auto
  with assms(1) obtain g where g: "g \<in> set (transmit_fields l)" "data_name f = data_name g" "same_input v (field_value g (slice g p))"
    unfolding inputs_ok_def by blast
  then have "g = f" using data_name_inj[of g l f] assms(3) by (simp add: transmit_field)
  with m g show ?thesis by blast
qed

lemma current_explicit:
  assumes "mailboxes_ok m" and "current port now m = Some payload"
  shows "\<exists>s l. m port = Some s \<and> transmitting s \<and> slot_layout s = Some l \<and> validate_payload l payload = Ok ()
    \<and> ((\<exists>t0. sl_snapshot s = Some (payload, t0) \<and> now - t0 < max_age s)
       \<or> (\<forall>f \<in> set (transmit_fields l). \<exists>v t0 utc. map_of (sl_fields s) (data_name f) = Some (v, t0, utc)
            \<and> now - t0 < max_age s \<and> same_input v (field_value f (slice f payload))))"
proof -
  obtain s where s: "m port = Some s" "transmitting s" using assms(2) by (auto simp: current_def split: bind_splits if_splits)
  with assms(1) have ok: "slot_ok s" by (auto simp: mailboxes_ok_def)
  show ?thesis
  proof (cases "sl_fields s = []")
    case True
    with assms(2) s obtain t0 where "sl_snapshot s = Some (payload, t0)" "now - t0 < max_age s"
      by (auto simp: current_def split: option.splits if_splits)
    with s ok show ?thesis by (auto simp: slot_ok_def)
  next
    case False
    with ok obtain l where l: "slot_layout s = Some l" "validate_payload l (sl_field_payload s) = Ok ()"
      "inputs_ok l (sl_field_payload s) (sl_fields s)" by (auto simp: slot_ok_def)
    with False assms(2) s have c: "length (sl_fields s) = length (transmit_fields l)" "payload = sl_field_payload s"
      "\<forall>x \<in> set (sl_fields s). case x of (_, _, t0, _) \<Rightarrow> now - t0 < max_age s"
      by (auto simp: current_def list_ex_iff not_le split: if_splits)
    have "\<exists>v t0 utc. map_of (sl_fields s) (data_name f) = Some (v, t0, utc)
            \<and> now - t0 < max_age s \<and> same_input v (field_value f (slice f payload))" if "f \<in> set (transmit_fields l)" for f
      using all_inputs[OF l(3) c(1) that] c(2,3) by (fastforce dest: map_of_SomeD)
    with s l c(2) show ?thesis by blast
  qed
qed

end
