(* ===== verification/Link_Stream.thy ===== *)
theory Link_Stream
  imports Link_Mailbox
begin

text \<open>
  The synchronisation of a port (\<open>Schedule\<close> and \<open>run_stream\<close> of \<open>src/communicate/src/synchronization.rs\<close>):
  one turn of its loop reads what has arrived, publishes complete peer snapshots, watches the two timeouts
  and sends its own snapshot when the line is free. What the transport and the clocks answer is a
  parameter of each turn; the calendar time is read once per turn. Warnings in the log are left out.
\<close>

section \<open>Schedule\<close>

record sync_schedule =
  sy_due :: nat
  sy_last_rx :: nat
  sy_partial_since :: "nat option"
  sy_period :: nat
  sy_gap :: nat
  sy_frame_timeout :: nat

definition sync_schedule_new :: "settings \<Rightarrow> nat \<Rightarrow> nat \<Rightarrow> sync_schedule" where
  "sync_schedule_new s frame_timeout now =
     \<lparr>sy_due = now + from_millis (st_initial_delay_ms s), sy_last_rx = now, sy_partial_since = None,
      sy_period = from_millis (st_send_interval_ms s), sy_gap = from_millis (st_idle_gap_ms s), sy_frame_timeout = frame_timeout\<rparr>"

definition sync_received :: "nat \<Rightarrow> bool \<Rightarrow> sync_schedule \<Rightarrow> sync_schedule" where
  "sync_received now partial y =
     y\<lparr>sy_last_rx := now,
       sy_partial_since := (if partial then (case sy_partial_since y of None \<Rightarrow> Some now | Some t \<Rightarrow> Some t) else None)\<rparr>"

definition partial_expired :: "nat \<Rightarrow> sync_schedule \<Rightarrow> bool" where
  "partial_expired now y \<longleftrightarrow> (case sy_partial_since y of None \<Rightarrow> False | Some t \<Rightarrow> sy_frame_timeout y \<le> now - t)"

definition discard_partial :: "sync_schedule \<Rightarrow> sync_schedule" where
  "discard_partial y = y\<lparr>sy_partial_since := None\<rparr>"

definition may_send :: "nat \<Rightarrow> sync_schedule \<Rightarrow> bool" where
  "may_send now y \<longleftrightarrow> sy_due y \<le> now \<and> sy_partial_since y = None \<and> sy_gap y \<le> now - sy_last_rx y"

definition sent_or_skipped :: "nat \<Rightarrow> sync_schedule \<Rightarrow> sync_schedule" where
  "sent_or_skipped now y = y\<lparr>sy_due := now + sy_period y\<rparr>"

section \<open>State of a connection\<close>

record stream_cfg =
  sv_codec :: codec
  sv_port :: port_config
  sv_settings :: settings
  sv_task :: task_config
  sv_layout :: layout
  sv_store_text :: "store_error \<Rightarrow> string"
  sv_report_text :: "report_error \<Rightarrow> string"
  sv_frame_text :: "frame_error \<Rightarrow> string"
  sv_write_text :: "write_error \<Rightarrow> string"
  sv_read_text :: "link_io + bytes \<Rightarrow> string"

record stream_state =
  ls_decoder :: frame_decoder
  ls_schedule :: sync_schedule
  ls_last_valid :: nat
  ls_timed_out :: bool
  ls_received_valid :: bool
  ls_store :: point_store
  ls_mail :: mailboxes

record turn_env =
  tn_read :: "link_io + bytes"
  tn_read_at :: nat
  tn_utc :: nat
  tn_now :: nat
  tn_calls :: "nat link_call list"
  tn_sent_at :: nat

definition stream_limits :: "stream_cfg \<Rightarrow> limits" where
  "stream_limits cfg = \<lparr>lim_frame = pc_max_frame_bytes (sv_port cfg), lim_payload = pc_max_payload_bytes (sv_port cfg)\<rparr>"

definition stream_start :: "stream_cfg \<Rightarrow> nat \<Rightarrow> point_store \<Rightarrow> mailboxes \<Rightarrow> frame_error + stream_state" where
  "stream_start cfg now store mail =
     map_ok (\<lambda>d. \<lparr>ls_decoder = d,
         ls_schedule = sync_schedule_new (sv_settings cfg) (from_millis (pc_frame_timeout_ms (sv_port cfg))) now,
         ls_last_valid = now, ls_timed_out = False, ls_received_valid = False, ls_store = store, ls_mail = mail\<rparr>)
       (decoder_new (stream_limits cfg))"

section \<open>Receiving\<close>

definition fail_received :: "stream_cfg \<Rightarrow> string \<Rightarrow> stream_state \<Rightarrow> store_error + stream_state" where
  "fail_received cfg text st =
     map_ok (\<lambda>store. st\<lparr>ls_store := store\<rparr>)
       (fail_task (tc_id (sv_task cfg)) (if ls_timed_out st then NoCommunication else Configuration) text (ls_store st))"

definition take_payload :: "stream_cfg \<Rightarrow> nat \<Rightarrow> nat \<Rightarrow> bytes \<Rightarrow> stream_state \<Rightarrow> store_error + stream_state" where
  "take_payload cfg now utc payload st =
     (case report_response (sv_layout cfg) payload of
        Inr (Matched points) \<Rightarrow>
          and_then (store_attempt utc (tc_id (sv_task cfg)) (ls_store st)) (\<lambda>store.
            case publish utc (tc_id (sv_task cfg)) points utc store of
              Inr store \<Rightarrow> Ok (st\<lparr>ls_store := store, ls_last_valid := now, ls_timed_out := False, ls_received_valid := True\<rparr>)
            | Inl e \<Rightarrow> fail_received cfg (sv_store_text cfg e) (st\<lparr>ls_store := store\<rparr>))
      | Inr Ignore \<Rightarrow> Ok st
      | Inl e \<Rightarrow> fail_received cfg (sv_report_text cfg e) st)"

fun take_payloads :: "stream_cfg \<Rightarrow> nat \<Rightarrow> nat \<Rightarrow> bytes list \<Rightarrow> stream_state \<Rightarrow> store_error + stream_state" where
  "take_payloads cfg now utc [] st = Ok st"
| "take_payloads cfg now utc (p # ps) st = and_then (take_payload cfg now utc p st) (take_payloads cfg now utc ps)"

definition report_frame_errors :: "string \<Rightarrow> feed_result \<Rightarrow> bool \<Rightarrow> point_store \<Rightarrow> store_error + point_store" where
  "report_frame_errors port r expired store =
     (if fr_rejected r = 0 \<and> fr_discarded r = 0 \<and> \<not> expired then Ok store
      else record_frame_errors port (fr_rejected r) (fr_discarded r) expired store)"

definition take_chunk :: "stream_cfg \<Rightarrow> nat \<Rightarrow> nat \<Rightarrow> bytes \<Rightarrow> stream_state \<Rightarrow> store_error + stream_state" where
  "take_chunk cfg now utc chunk st =
     (case feed (sv_codec cfg) chunk (ls_decoder st) of
        (Inr r, d) \<Rightarrow>
          and_then (report_frame_errors (pc_id (sv_port cfg)) r False (ls_store st)) (\<lambda>store.
            let y = (if fr_payloads r \<noteq> [] then discard_partial (ls_schedule st) else ls_schedule st)
            in take_payloads cfg now utc (fr_payloads r)
                 (st\<lparr>ls_decoder := d, ls_store := store, ls_schedule := sync_received now (has_partial_frame d) y\<rparr>))
      | (Inl e, d) \<Rightarrow>
          fail_received cfg (sv_frame_text cfg e)
            (st\<lparr>ls_decoder := d, ls_schedule := sync_received now False (ls_schedule st)\<rparr>))"

text \<open>What a read does: the first component tells whether the loop goes on.\<close>

definition receive_step :: "stream_cfg \<Rightarrow> turn_env \<Rightarrow> stream_state \<Rightarrow> store_error + (bool \<times> stream_state)" where
  "receive_step cfg env st =
     (let lost = map_ok (\<lambda>store. (False, st\<lparr>ls_store := store\<rparr>))
            (port_state (pc_id (sv_port cfg)) ''Disconnected'' (sv_read_text cfg (tn_read env)) False (ls_store st))
      in case tn_read env of
        Inr chunk \<Rightarrow>
          if chunk \<noteq> [] \<and> length chunk \<le> min (pc_max_frame_bytes (sv_port cfg)) 1024
          then map_ok (Pair True) (take_chunk cfg (tn_read_at env) (tn_utc env) chunk st) else lost
      | Inl e \<Rightarrow> if transient e then Ok (True, st) else lost)"

section \<open>Timeouts and sending\<close>

definition expire_step :: "stream_cfg \<Rightarrow> turn_env \<Rightarrow> stream_state \<Rightarrow> store_error + stream_state" where
  "expire_step cfg env st =
     (if partial_expired (tn_now env) (ls_schedule st) then
        (let (r, d) = recover_expired (sv_codec cfg) (ls_decoder st)
         in and_then (report_frame_errors (pc_id (sv_port cfg)) r True (ls_store st)) (\<lambda>store.
            map_ok (\<lambda>st. st\<lparr>ls_schedule := discard_partial (ls_schedule st)\<rparr>)
              (take_payloads cfg (tn_now env) (tn_utc env) (fr_payloads r) (st\<lparr>ls_decoder := d, ls_store := store\<rparr>))))
      else Ok st)"

definition silence_step :: "stream_cfg \<Rightarrow> turn_env \<Rightarrow> stream_state \<Rightarrow> store_error + stream_state" where
  "silence_step cfg env st =
     (if \<not> ls_timed_out st \<and> from_millis (st_receive_timeout_ms (sv_settings cfg)) \<le> tn_now env - ls_last_valid st
      then map_ok (\<lambda>store. st\<lparr>ls_store := store, ls_timed_out := True\<rparr>)
             (fail_task (tc_id (sv_task cfg)) NoCommunication ''peer snapshot timeout'' (ls_store st))
      else Ok st)"

text \<open>Sending; the bytes the driver took are the last component.\<close>

definition send_step :: "stream_cfg \<Rightarrow> turn_env \<Rightarrow> stream_state \<Rightarrow> (store_error + (bool \<times> stream_state \<times> bytes)) option" where
  "send_step cfg env st =
     (let sent = (\<lambda>st taken. Some (Ok (True, st\<lparr>ls_schedule := sent_or_skipped (tn_sent_at env) (ls_schedule st)\<rparr>, taken)))
      in if \<not> may_send (tn_now env) (ls_schedule st) then Some (Ok (True, st, []))
         else case current (pc_id (sv_port cfg)) (tn_now env) (ls_mail st) of
           None \<Rightarrow> sent st []
         | Some payload \<Rightarrow> (case encode (sv_codec cfg) payload (stream_limits cfg) of
             Inl e \<Rightarrow> Some (Err (InvalidBatch (sv_frame_text cfg e)))
           | Inr frame \<Rightarrow> (case write_once (tn_now env + from_millis (pc_write_timeout_ms (sv_port cfg))) (tn_calls env) frame of
               None \<Rightarrow> None
             | Some (r, taken) \<Rightarrow>
                 (let st = st\<lparr>ls_mail := sync_result (sv_write_text cfg) (pc_id (sv_port cfg)) r (ls_mail st)\<rparr>
                  in case r of
                    Inr _ \<Rightarrow> sent st taken
                  | Inl e \<Rightarrow> Some (map_ok (\<lambda>store. (False, st\<lparr>ls_store := store\<rparr>, taken))
                      (port_state (pc_id (sv_port cfg)) ''Disconnected'' (sv_write_text cfg e) False (ls_store st)))))))"

text \<open>A turn. It ends with \<open>None\<close> only while a write is still going on.\<close>

definition stream_turn :: "stream_cfg \<Rightarrow> turn_env \<Rightarrow> stream_state \<Rightarrow> (store_error + (bool \<times> stream_state \<times> bytes)) option" where
  "stream_turn cfg env st =
     (case receive_step cfg env st of
        Inl e \<Rightarrow> Some (Err e)
      | Inr (False, st) \<Rightarrow> Some (Ok (False, st, []))
      | Inr (True, st) \<Rightarrow> (case and_then (expire_step cfg env st) (silence_step cfg env) of
          Inl e \<Rightarrow> Some (Err e)
        | Inr st \<Rightarrow> send_step cfg env st))"

section \<open>Invariant\<close>

definition task_not_good :: "string \<Rightarrow> point_store \<Rightarrow> bool" where
  "task_not_good task s \<longleftrightarrow> (\<forall>names n sa. ps_tasks s task = Some names \<longrightarrow> n \<in> set names \<longrightarrow> ps_samples s n = Some sa \<longrightarrow>
     sa_quality sa \<noteq> Good)"

definition stream_ok :: "stream_cfg \<Rightarrow> stream_state \<Rightarrow> bool" where
  "stream_ok cfg st \<longleftrightarrow> decoder_ok (sv_codec cfg) (ls_decoder st) \<and> fd_limits (ls_decoder st) = stream_limits cfg
     \<and> store_ok (ls_store st) \<and> mailboxes_ok (ls_mail st) \<and> (ls_timed_out st \<longrightarrow> task_not_good (tc_id (sv_task cfg)) (ls_store st))"

lemma fail_not_good: "fail_task task q e s = Ok s' \<Longrightarrow> task_not_good task s'"
  by (erule failE) (auto simp: task_not_good_def fail_sample_def split: if_splits)

lemma update_port_not_good: "update_port pid f s = Ok s' \<Longrightarrow> task_not_good task s' = task_not_good task s"
  by (simp add: task_not_good_def update_port_frame)

lemma attempt_not_good: "store_attempt utc t s = Ok s' \<Longrightarrow> task_not_good task s' = task_not_good task s"
  by (auto simp: store_attempt_def update_port_not_good split: option.splits)

lemma fail_received_ok:
  assumes "stream_ok cfg st" and "fail_received cfg text st = Ok st'"
  shows "stream_ok cfg st'" and "ls_mail st' = ls_mail st" and "ls_last_valid st' = ls_last_valid st"
    and "ls_timed_out st' = ls_timed_out st" and "ls_schedule st' = ls_schedule st"
    and "store_run (ls_store st) (ls_store st')"
  using assms by (auto simp: fail_received_def stream_ok_def intro: fail_ok fail_not_good store_run.start store_run.fail)

lemma take_payload_ok:
  assumes "stream_ok cfg st" and "take_payload cfg now utc p st = Ok st'"
  shows "stream_ok cfg st' \<and> ls_mail st' = ls_mail st \<and> ls_schedule st' = ls_schedule st \<and> store_run (ls_store st) (ls_store st')"
proof (cases "report_response (sv_layout cfg) p")
  case (Inl e)
  with assms fail_received_ok[OF assms(1)] show ?thesis by (auto simp: take_payload_def)
next
  case (Inr r)
  show ?thesis
  proof (cases r)
    case Ignore
    with Inr assms show ?thesis by (auto simp: take_payload_def intro: store_run.start)
  next
    case (Matched points)
    with Inr assms(2) obtain s1 where s1: "store_attempt utc (tc_id (sv_task cfg)) (ls_store st) = Ok s1"
      by (auto simp: take_payload_def)
    let ?st = "st\<lparr>ls_store := s1\<rparr>"
    have ok: "stream_ok cfg ?st" using assms(1) s1 by (auto simp: stream_ok_def store_attempt_ok attempt_not_good)
    have run: "store_run (ls_store st) s1" by (rule store_run.attempt[OF store_run.start s1])
    show ?thesis
    proof (cases "publish utc (tc_id (sv_task cfg)) points utc s1")
      case (Inl e)
      with Matched Inr assms(2) s1 have "fail_received cfg (sv_store_text cfg e) ?st = Ok st'" by (simp add: take_payload_def)
      then have "fail_task (tc_id (sv_task cfg)) (if ls_timed_out st then NoCommunication else Configuration) (sv_store_text cfg e) s1 = Ok (ls_store st')"
        by (auto simp: fail_received_def)
      with fail_received_ok[OF ok \<open>fail_received cfg (sv_store_text cfg e) ?st = Ok st'\<close>] store_run.fail[OF run] show ?thesis by simp
    next
      case (Inr s2)
      with Matched \<open>report_response (sv_layout cfg) p = Inr r\<close> assms(2) s1
      have "st' = st\<lparr>ls_store := s2, ls_last_valid := now, ls_timed_out := False, ls_received_valid := True\<rparr>"
        by (simp add: take_payload_def)
      with ok Inr store_run.publish[OF run Inr] show ?thesis by (auto simp: stream_ok_def intro: publish_ok)
    qed
  qed
qed

lemma store_run_trans: "store_run s t \<Longrightarrow> store_run r s \<Longrightarrow> store_run r t"
  by (induction rule: store_run.induct) (auto intro: store_run.intros)

lemma take_payloads_ok:
  "stream_ok cfg st \<Longrightarrow> take_payloads cfg now utc ps st = Ok st' \<Longrightarrow>
   stream_ok cfg st' \<and> ls_mail st' = ls_mail st \<and> ls_schedule st' = ls_schedule st \<and> store_run (ls_store st) (ls_store st')"
proof (induction ps arbitrary: st)
  case Nil
  then show ?case by (simp add: store_run.start)
next
  case (Cons p ps)
  then obtain st1 where "take_payload cfg now utc p st = Ok st1" "take_payloads cfg now utc ps st1 = Ok st'" by auto
  with Cons.IH[of st1] take_payload_ok[OF Cons.prems(1)] show ?case by (metis store_run_trans)
qed

lemma report_errors_ok:
  assumes "report_frame_errors port r expired s = Ok s'"
  shows "store_run s s'" and "task_not_good task s' = task_not_good task s" and "ps_samples s' = ps_samples s"
  using assms
  by (auto simp: report_frame_errors_def record_frame_errors_def update_port_not_good update_port_frame store_run.start
      intro: store_run.frame_errors[OF store_run.start] split: if_splits)

lemma stream_decoder:
  assumes "stream_ok cfg st" and "length chunk \<le> pc_max_frame_bytes (sv_port cfg)"
  shows "decoder_ok (sv_codec cfg) (ls_decoder st)" and "length chunk \<le> lim_frame (fd_limits (ls_decoder st))"
  using assms by (simp_all add: stream_ok_def stream_limits_def)

lemma take_chunk_ok:
  assumes "stream_ok cfg st" and "length chunk \<le> pc_max_frame_bytes (sv_port cfg)" and "take_chunk cfg now utc chunk st = Ok st'"
  shows "stream_ok cfg st' \<and> ls_mail st' = ls_mail st \<and> store_run (ls_store st) (ls_store st')"
proof -
  obtain r d where f: "feed (sv_codec cfg) chunk (ls_decoder st) = (Ok r, d)" "decoder_ok (sv_codec cfg) d" "fd_limits d = fd_limits (ls_decoder st)"
    using feed_ok[OF stream_decoder[OF assms(1,2)]] by metis
  with assms(3) obtain s1 where s1: "report_frame_errors (pc_id (sv_port cfg)) r False (ls_store st) = Ok s1"
    by (auto simp: take_chunk_def)
  define st1 where "st1 = st\<lparr>ls_decoder := d, ls_store := s1, ls_schedule := sync_received now (has_partial_frame d)
      (if fr_payloads r \<noteq> [] then discard_partial (ls_schedule st) else ls_schedule st)\<rparr>"
  have tp: "take_payloads cfg now utc (fr_payloads r) st1 = Ok st'"
    using assms(3) f(1) s1 by (simp add: take_chunk_def Let_def st1_def)
  have "store_ok s1" using store_run_ok[OF report_errors_ok(1)[OF s1]] assms(1) by (simp add: stream_ok_def)
  then have "stream_ok cfg st1"
    using assms(1) f(2,3) report_errors_ok(2)[OF s1] by (simp add: stream_ok_def st1_def)
  from take_payloads_ok[OF this tp] have "stream_ok cfg st'" "ls_mail st' = ls_mail st" "store_run s1 (ls_store st')"
    by (simp_all add: st1_def)
  then show ?thesis using store_run_trans report_errors_ok(1)[OF s1] by blast
qed

lemma receive_step_ok:
  assumes "stream_ok cfg st" and "receive_step cfg env st = Ok (go, st')"
  shows "stream_ok cfg st' \<and> ls_mail st' = ls_mail st \<and> store_run (ls_store st) (ls_store st')"
proof -
  have lost: "stream_ok cfg (st\<lparr>ls_store := s\<rparr>) \<and> store_run (ls_store st) s"
    if "port_state (pc_id (sv_port cfg)) status e re (ls_store st) = Ok s" for s status e re
    using that assms(1) store_run.port_state[OF store_run.start that]
    by (auto simp: stream_ok_def port_state_def update_port_not_good intro: update_port_ok)
  show ?thesis
  proof (cases "tn_read env")
    case (Inl e)
    with assms lost show ?thesis by (auto simp: receive_step_def Let_def store_run.start split: if_splits)
  next
    case (Inr chunk)
    with assms lost take_chunk_ok[OF assms(1), of chunk "tn_read_at env" "tn_utc env"] show ?thesis
      by (auto simp: receive_step_def Let_def split: if_splits)
  qed
qed

lemma recover_decoder:
  assumes "decoder_ok c d" and "recover_expired c d = (r, d')"
  shows "decoder_ok c d'" and "fd_limits d' = fd_limits d"
  using assms by (auto simp: recover_expired_def decoder_ok_def feed_turn_def)

lemma expire_step_ok:
  assumes "stream_ok cfg st" and "expire_step cfg env st = Ok st'"
  shows "stream_ok cfg st' \<and> ls_mail st' = ls_mail st \<and> store_run (ls_store st) (ls_store st')"
proof (cases "partial_expired (tn_now env) (ls_schedule st)")
  case False
  with assms show ?thesis by (auto simp: expire_step_def store_run.start)
next
  case True
  obtain r d where r: "recover_expired (sv_codec cfg) (ls_decoder st) = (r, d)" by fastforce
  with True assms(2) obtain s1 st1 where s1: "report_frame_errors (pc_id (sv_port cfg)) r True (ls_store st) = Ok s1"
    "take_payloads cfg (tn_now env) (tn_utc env) (fr_payloads r) (st\<lparr>ls_decoder := d, ls_store := s1\<rparr>) = Ok st1"
    "st' = st1\<lparr>ls_schedule := discard_partial (ls_schedule st1)\<rparr>"
    by (auto simp: expire_step_def)
  have "stream_ok cfg (st\<lparr>ls_decoder := d, ls_store := s1\<rparr>)"
    using assms(1) recover_decoder[OF _ r] report_errors_ok[OF s1(1)] store_run_ok by (auto simp: stream_ok_def)
  from take_payloads_ok[OF this s1(2)] s1(3) report_errors_ok(1)[OF s1(1)] show ?thesis
    by (auto simp: stream_ok_def intro: store_run_trans)
qed

lemma silence_step_ok:
  assumes "stream_ok cfg st" and "silence_step cfg env st = Ok st'"
  shows "stream_ok cfg st' \<and> ls_mail st' = ls_mail st \<and> ls_schedule st' = ls_schedule st \<and> store_run (ls_store st) (ls_store st')
    \<and> (tn_now env - ls_last_valid st' < from_millis (st_receive_timeout_ms (sv_settings cfg)) \<or> ls_timed_out st')"
  using assms
  by (auto simp: silence_step_def stream_ok_def store_run.start not_le fail_not_good intro: fail_ok store_run.fail[OF store_run.start] split: if_splits)

lemma port_state_facts:
  assumes "port_state pid status e re s = Ok s'"
  shows "store_run s s'" and "store_ok s \<Longrightarrow> store_ok s'" and "ps_samples s' = ps_samples s"
    and "task_not_good task s' = task_not_good task s"
  using assms update_port_ok store_run.port_state[OF store_run.start assms]
  by (auto simp: port_state_def update_port_frame update_port_not_good)

lemma send_stepE:
  assumes "send_step cfg env st = Some (Ok (go, st', taken))"
  obtains (idle) y where "st' = st\<lparr>ls_schedule := y\<rparr>" and "taken = []"
  | (wrote) payload frame r m y where "may_send (tn_now env) (ls_schedule st)"
    and "current (pc_id (sv_port cfg)) (tn_now env) (ls_mail st) = Some payload"
    and "encode (sv_codec cfg) payload (stream_limits cfg) = Ok frame"
    and "write_once (tn_now env + from_millis (pc_write_timeout_ms (sv_port cfg))) (tn_calls env) frame = Some (r, taken)"
    and "m = sync_result (sv_write_text cfg) (pc_id (sv_port cfg)) r (ls_mail st)"
    and "if go then r = Ok () \<and> st' = st\<lparr>ls_mail := m, ls_schedule := y\<rparr>
         else \<exists>e s. r = Err e \<and> port_state (pc_id (sv_port cfg)) ''Disconnected'' (sv_write_text cfg e) False (ls_store st) = Ok s
           \<and> st' = st\<lparr>ls_mail := m, ls_store := s\<rparr>"
proof (cases "\<not> may_send (tn_now env) (ls_schedule st) \<or> current (pc_id (sv_port cfg)) (tn_now env) (ls_mail st) = None")
  case True
  with assms have "\<exists>y. st' = st\<lparr>ls_schedule := y\<rparr> \<and> taken = []"
    by (auto simp: send_step_def Let_def intro: exI[of _ "ls_schedule st"] split: if_splits)
  then show thesis using idle by blast
next
  case False
  then obtain payload where p: "may_send (tn_now env) (ls_schedule st)"
    "current (pc_id (sv_port cfg)) (tn_now env) (ls_mail st) = Some payload" by auto
  with assms obtain frame where f: "encode (sv_codec cfg) payload (stream_limits cfg) = Ok frame"
    by (auto simp: send_step_def Let_def split: sum.splits)
  with p assms obtain r t where w: "write_once (tn_now env + from_millis (pc_write_timeout_ms (sv_port cfg))) (tn_calls env) frame = Some (r, t)"
    by (auto simp: send_step_def Let_def split: option.splits)
  show thesis
  proof (cases r)
    case (Inl e)
    with assms p f w show thesis
      by (intro wrote[of payload frame r "sync_result (sv_write_text cfg) (pc_id (sv_port cfg)) r (ls_mail st)" "ls_schedule st"])
         (auto simp: send_step_def Let_def)
  next
    case (Inr u)
    with assms p f w show thesis
      by (intro wrote[of payload frame r "sync_result (sv_write_text cfg) (pc_id (sv_port cfg)) r (ls_mail st)"
            "sent_or_skipped (tn_sent_at env) (ls_schedule st)"]) (auto simp: send_step_def Let_def)
  qed
qed

lemma send_step_ok:
  assumes "stream_ok cfg st" and "send_step cfg env st = Some (Ok (go, st', taken))"
  shows "stream_ok cfg st' \<and> ls_last_valid st' = ls_last_valid st \<and> ls_timed_out st' = ls_timed_out st
    \<and> store_run (ls_store st) (ls_store st') \<and> ps_samples (ls_store st') = ps_samples (ls_store st)"
  using assms(2)
proof (cases rule: send_stepE)
  case idle
  with assms(1) show ?thesis by (auto simp: stream_ok_def store_run.start)
next
  case (wrote payload frame r m y)
  have m: "mailboxes_ok m" using assms(1) wrote(5) by (simp add: stream_ok_def sync_result_ok)
  show ?thesis
  proof (cases go)
    case True
    with wrote(6) m assms(1) show ?thesis by (auto simp: stream_ok_def store_run.start)
  next
    case False
    with wrote(6) obtain e s where s: "port_state (pc_id (sv_port cfg)) ''Disconnected'' (sv_write_text cfg e) False (ls_store st) = Ok s"
      "st' = st\<lparr>ls_mail := m, ls_store := s\<rparr>" by auto
    with m assms(1) port_state_facts[OF s(1)] show ?thesis by (auto simp: stream_ok_def)
  qed
qed

lemma stream_turnE:
  assumes "stream_turn cfg env st = Some (Ok (go, st', taken))"
  obtains (lost) "receive_step cfg env st = Ok (False, st')" and "\<not> go" and "taken = []"
  | (on) st1 st2 st3 where "receive_step cfg env st = Ok (True, st1)" and "expire_step cfg env st1 = Ok st2"
    and "silence_step cfg env st2 = Ok st3" and "send_step cfg env st3 = Some (Ok (go, st', taken))"
  using assms unfolding stream_turn_def
  by (auto split: sum.splits prod.splits bool.splits)

lemma stream_turn_ok:
  assumes "stream_ok cfg st" and "stream_turn cfg env st = Some (Ok (go, st', taken))"
  shows "stream_ok cfg st'" and "store_run (ls_store st) (ls_store st')"
    and "go \<Longrightarrow> tn_now env - ls_last_valid st' < from_millis (st_receive_timeout_ms (sv_settings cfg))
      \<or> task_not_good (tc_id (sv_task cfg)) (ls_store st')"
proof -
  from assms(2) have "stream_ok cfg st' \<and> store_run (ls_store st) (ls_store st') \<and>
    (go \<longrightarrow> tn_now env - ls_last_valid st' < from_millis (st_receive_timeout_ms (sv_settings cfg))
      \<or> task_not_good (tc_id (sv_task cfg)) (ls_store st'))"
  proof (cases rule: stream_turnE)
    case lost
    with receive_step_ok[OF assms(1) lost(1)] show ?thesis by simp
  next
    case (on st1 st2 st3)
    note r = receive_step_ok[OF assms(1) on(1)]
    note e = expire_step_ok[OF _ on(2)]
    note s = silence_step_ok[OF _ on(3)]
    note w = send_step_ok[OF _ on(4)]
    have "stream_ok cfg st'" using r e s w by blast
    moreover have "store_run (ls_store st) (ls_store st')" using r e s w store_run_trans by blast
    moreover have "tn_now env - ls_last_valid st' < from_millis (st_receive_timeout_ms (sv_settings cfg)) \<or> ls_timed_out st'"
      using r e s w by metis
    ultimately show ?thesis by (auto simp: stream_ok_def)
  qed
  then show "stream_ok cfg st'" "store_run (ls_store st) (ls_store st')"
    "go \<Longrightarrow> tn_now env - ls_last_valid st' < from_millis (st_receive_timeout_ms (sv_settings cfg))
      \<or> task_not_good (tc_id (sv_task cfg)) (ls_store st')" by blast+
qed

section \<open>Runs\<close>

text \<open>
  Turns of one connection, between which other threads write the mailboxes, and the workers of other
  ports their points of the store.
\<close>

inductive stream_run :: "stream_cfg \<Rightarrow> stream_state \<Rightarrow> stream_state \<Rightarrow> bool" for cfg where
  start: "stream_run cfg st st"
| turn: "stream_run cfg st t \<Longrightarrow> stream_turn cfg env t = Some (Ok (True, t', taken)) \<Longrightarrow> stream_run cfg st t'"
| mail: "stream_run cfg st t \<Longrightarrow> mail_run (ls_mail t) m \<Longrightarrow> stream_run cfg st (t\<lparr>ls_mail := m\<rparr>)"
| other: "stream_run cfg st t \<Longrightarrow> store_run (ls_store t) s \<Longrightarrow>
    (\<And>names n. ps_tasks (ls_store t) (tc_id (sv_task cfg)) = Some names \<Longrightarrow> n \<in> set names \<Longrightarrow> ps_samples s n = ps_samples (ls_store t) n) \<Longrightarrow>
    stream_run cfg st (t\<lparr>ls_store := s\<rparr>)"

lemma stream_run_ok:
  "stream_run cfg st t \<Longrightarrow> stream_ok cfg st \<Longrightarrow> stream_ok cfg t \<and> store_run (ls_store st) (ls_store t)"
proof (induction rule: stream_run.induct)
  case (start st)
  then show ?case by (simp add: store_run.start)
next
  case (turn st t env t' taken)
  with stream_turn_ok[of cfg t env True t' taken] show ?case using store_run_trans by blast
next
  case (mail st t m)
  then show ?case using mail_run_ok by (auto simp: stream_ok_def)
next
  case (other st t s)
  note ok = other(4)[OF other(5)]
  have "task_not_good (tc_id (sv_task cfg)) s" if "task_not_good (tc_id (sv_task cfg)) (ls_store t)"
    using that other(3) store_run_frame(2)[OF other(2)] by (simp add: task_not_good_def)
  moreover have "store_ok s" using store_run_ok[OF other(2)] ok by (simp add: stream_ok_def)
  moreover have "store_run (ls_store st) s" using store_run_trans[OF other(2)] ok by blast
  ultimately show ?case using ok by (auto simp: stream_ok_def)
qed

lemma stream_start_ok:
  assumes "stream_start cfg now store mail = Ok st" and "store_ok store" and "mailboxes_ok mail"
  shows "stream_ok cfg st" and "ls_store st = store" and "ls_mail st = mail"
proof -
  obtain d where d: "decoder_new (stream_limits cfg) = Ok d" using assms(1) by (auto simp: stream_start_def)
  from decoder_new_ok[OF this] have "decoder_ok (sv_codec cfg) d" "fd_limits d = stream_limits cfg" by blast+
  with d assms show "stream_ok cfg st" "ls_store st = store" "ls_mail st = mail"
    by (auto simp: stream_start_def stream_ok_def)
qed

section \<open>A peer snapshot is shown\<close>

definition shows_payload :: "layout \<Rightarrow> bytes \<Rightarrow> nat \<Rightarrow> point_store \<Rightarrow> bool" where
  "shows_payload l payload utc s \<longleftrightarrow> (\<forall>f \<in> set (layout_fields l). ps_samples s (data_name f) =
     Some \<lparr>sa_value = field_value f (slice f payload), sa_quality = Good, sa_source_timestamp = Some utc, sa_error = []\<rparr>)"

lemma report_matched:
  "validate_payload l payload = Ok () \<Longrightarrow> report_response l payload = Ok (Matched (map (field_update payload) (layout_fields l)))"
  by (cases l) (auto simp: report_response_def unit_decode_def validate_payload_def split: if_splits)

lemma payload_shown:
  assumes "store_ok s" and "publish utc task (map (field_update payload) (layout_fields l)) utc s = Ok s'"
  shows "shows_payload l payload utc s'"
  unfolding shows_payload_def
proof
  fix f assume "f \<in> set (layout_fields l)"
  then have "ps_samples s' (pu_name (field_update payload f)) = Some (published_sample utc (field_update payload f))"
    by (intro publish_samples(1)[OF assms]) simp
  then show "ps_samples s' (data_name f) = Some \<lparr>sa_value = field_value f (slice f payload), sa_quality = Good,
      sa_source_timestamp = Some utc, sa_error = []\<rparr>"
    by (simp add: field_update_def published_sample_def short_error_def)
qed

text \<open>The configuration a connection belongs to.\<close>

definition configured :: "config_env \<Rightarrow> stream_cfg \<Rightarrow> stream_state \<Rightarrow> bool" where
  "configured env cfg st \<longleftrightarrow> (\<exists>ctext ptext config points.
     link_parse env ctext ptext = Ok (config, points) \<and> sv_port cfg \<in> set (lc_ports config)
     \<and> sv_task cfg \<in> set (pc_tasks (sv_port cfg)) \<and> from_protocol (tc_protocol (sv_task cfg)) = Some (sv_layout cfg)
     \<and> store_run (store_new config points) (ls_store st))"

lemma take_payload_shown:
  assumes "configured cenv cfg st" and "validate_payload (sv_layout cfg) payload = Ok ()" and "store_ok (ls_store st)"
  shows "\<exists>s. take_payload cfg now utc payload st =
      Ok (st\<lparr>ls_store := s, ls_last_valid := now, ls_timed_out := False, ls_received_valid := True\<rparr>)
    \<and> shows_payload (sv_layout cfg) payload utc s"
proof -
  obtain ctext ptext config points where c: "link_parse cenv ctext ptext = Ok (config, points)"
    "sv_port cfg \<in> set (lc_ports config)" "sv_task cfg \<in> set (pc_tasks (sv_port cfg))"
    "from_protocol (tc_protocol (sv_task cfg)) = Some (sv_layout cfg)" "store_run (store_new config points) (ls_store st)"
    using assms(1) by (auto simp: configured_def)
  obtain s1 where s1: "store_attempt utc (tc_id (sv_task cfg)) (ls_store st) = Ok s1"
    using attempt_accepted[OF c(2,3,5)] by blast
  obtain s2 where s2: "publish utc (tc_id (sv_task cfg)) (map (field_update payload) (layout_fields (sv_layout cfg))) utc s1 = Ok s2"
    using report_published[OF c(1-4) assms(2) store_run.attempt[OF c(5) s1]] by blast
  have "shows_payload (sv_layout cfg) payload utc s2"
    by (rule payload_shown[OF store_attempt_ok[OF assms(3) s1] s2])
  then show ?thesis by (intro exI[of _ s2]) (simp add: take_payload_def report_matched[OF assms(2)] s1 s2)
qed

lemma receive_delivers:
  assumes "stream_ok cfg st" and "codec_ok (sv_codec cfg)" and "configured cenv cfg st"
    and "validate_payload (sv_layout cfg) payload = Ok ()" and "encode (sv_codec cfg) payload (stream_limits cfg) = Ok frame"
    and "fd_buffer (ls_decoder st) @ chunk = frame" and "chunk \<noteq> []" and "length chunk \<le> 1024"
    and "tn_read env = Ok chunk"
  shows "\<exists>st1. receive_step cfg env st = Ok (True, st1) \<and> shows_payload (sv_layout cfg) payload (tn_utc env) (ls_store st1)
    \<and> ls_schedule st1 = sync_received (tn_read_at env) False (discard_partial (ls_schedule st)) \<and> \<not> ls_timed_out st1
    \<and> ls_last_valid st1 = tn_read_at env"
proof -
  have fl: "fd_limits (ls_decoder st) = stream_limits cfg" using assms(1) by (simp add: stream_ok_def)
  have len: "length chunk \<le> pc_max_frame_bytes (sv_port cfg)"
    using encode_header(2)[OF assms(5)] assms(6) by (auto simp: stream_limits_def)
  obtain r d where f: "feed (sv_codec cfg) chunk (ls_decoder st) = (Ok r, d)"
    "feed_loop (sv_codec cfg) (fd_limits (ls_decoder st)) (fd_buffer (ls_decoder st) @ chunk) feed_default = (fd_buffer d, r)"
    using feed_ok[OF stream_decoder[OF assms(1) len]] by metis
  have r: "fd_buffer d = []" "fr_payloads r = [payload]" "fr_rejected r = 0" "fr_discarded r = 0"
    using f(2) feed_loop_frames[OF assms(2), of "stream_limits cfg" "[payload]" "[frame]" feed_default] assms(5,6)
    by (simp_all add: fl)
  define st1 where "st1 = st\<lparr>ls_decoder := d, ls_schedule := sync_received (tn_read_at env) False (discard_partial (ls_schedule st))\<rparr>"
  have "configured cenv cfg st1" "store_ok (ls_store st1)"
    using assms(1,3) by (simp_all add: configured_def stream_ok_def st1_def)
  from take_payload_shown[OF this(1) assms(4) this(2), of "tn_read_at env" "tn_utc env"] obtain s where
    s: "take_payload cfg (tn_read_at env) (tn_utc env) payload st1 =
        Ok (st1\<lparr>ls_store := s, ls_last_valid := tn_read_at env, ls_timed_out := False, ls_received_valid := True\<rparr>)"
      "shows_payload (sv_layout cfg) payload (tn_utc env) s" by blast
  have "take_chunk cfg (tn_read_at env) (tn_utc env) chunk st = take_payload cfg (tn_read_at env) (tn_utc env) payload st1"
    using f(1) r by (simp add: take_chunk_def report_frame_errors_def has_partial_frame_def st1_def Let_def)
      (cases "take_payload cfg (tn_read_at env) (tn_utc env) payload st1"; simp add: st1_def)
  then have "receive_step cfg env st = Ok (True, st1\<lparr>ls_store := s, ls_last_valid := tn_read_at env, ls_timed_out := False, ls_received_valid := True\<rparr>)"
    using assms(7-9) len s(1) by (simp add: receive_step_def)
  then show ?thesis using s(2) by (simp add: st1_def)
qed

text \<open>While the line is not idle for the configured gap, the turn ends there.\<close>

lemma turn_delivers:
  assumes "receive_step cfg env st = Ok (True, st1)"
    and "ls_schedule st1 = sync_received (tn_read_at env) False (discard_partial (ls_schedule st))"
    and "\<not> ls_timed_out st1" and "ls_last_valid st1 = tn_read_at env"
    and "tn_now env - tn_read_at env < from_millis (st_receive_timeout_ms (sv_settings cfg))"
    and "tn_now env - tn_read_at env < sy_gap (ls_schedule st)"
  shows "stream_turn cfg env st = Some (Ok (True, st1, []))"
proof -
  have "expire_step cfg env st1 = Ok st1" using assms(2) by (simp add: expire_step_def partial_expired_def sync_received_def)
  moreover have "silence_step cfg env st1 = Ok st1" using assms(3-5) by (simp add: silence_step_def)
  moreover have "send_step cfg env st1 = Some (Ok (True, st1, []))"
    using assms(2,6) by (simp add: send_step_def may_send_def sync_received_def discard_partial_def)
  ultimately show ?thesis using assms(1) by (simp add: stream_turn_def)
qed

end
