(* ===== verification/Link_Poller.thy ===== *)
theory Link_Poller
  imports Link_Stream
begin

text \<open>
  The workers of the link program (\<open>src/communicate/src/poller.rs\<close>): one request and its answer, the
  schedule of the tasks of a port, and the supervision of a connection with its reconnection delay. What a
  device protocol answers, the transport and the clocks are parameters. Log output is left out.
\<close>

section \<open>One request\<close>

datatype exchange_error =
    Ex_Cancelled | Ex_Timeout nat nat | Ex_Write write_error | Ex_Read link_io | Ex_Protocol report_error | Ex_Frame frame_error

text \<open>The answers of the adapter of a task.\<close>

record adapter =
  ad_unsolicited :: bool
  ad_request :: "report_error + bytes"
  ad_response :: "bytes \<Rightarrow> report_error + response"

fun match_payloads :: "adapter \<Rightarrow> bytes list \<Rightarrow> nat \<Rightarrow> exchange_error + (point_update list option \<times> nat)" where
  "match_payloads a [] ignored = Ok (None, ignored)"
| "match_payloads a (p # ps) ignored =
     (case ad_response a p of
        Inl e \<Rightarrow> Err (Ex_Protocol e)
      | Inr Ignore \<Rightarrow> match_payloads a ps (ignored + 1)
      | Inr (Matched points) \<Rightarrow> Ok (Some points, ignored))"

text \<open>The read loop. Each call carries the time at which its deadline is checked.\<close>

fun exchange_loop :: "codec \<Rightarrow> adapter \<Rightarrow> nat \<Rightarrow> nat \<Rightarrow> nat \<Rightarrow> bytes link_call list \<Rightarrow> frame_decoder \<Rightarrow> bool \<Rightarrow> nat \<Rightarrow> nat \<Rightarrow>
    (exchange_error + point_update list) option" where
  "exchange_loop c a first_deadline frame_deadline cap [] d received rejected ignored = None"
| "exchange_loop c a first_deadline frame_deadline cap (k # calls) d received rejected ignored =
     (if lk_cancelled k then Some (Err Ex_Cancelled)
      else if (if received then frame_deadline else first_deadline) \<le> lk_now k then Some (Err (Ex_Timeout rejected ignored))
      else case lk_io k of
        Inr bs \<Rightarrow>
          if bs = [] then Some (Err (Ex_Read IO_UnexpectedEof))
          else if cap < length bs then Some (Err (Ex_Read (IO_Other ''invalid transport read count'')))
          else (case feed c bs d of
            (Inl e, d) \<Rightarrow> Some (Err (Ex_Frame e))
          | (Inr r, d) \<Rightarrow> (case match_payloads a (fr_payloads r) ignored of
              Inl e \<Rightarrow> Some (Err e)
            | Inr (Some points, _) \<Rightarrow> Some (Ok points)
            | Inr (None, ignored) \<Rightarrow>
                exchange_loop c a first_deadline frame_deadline cap calls d True (rejected + fr_rejected r) ignored))
      | Inl e \<Rightarrow>
          if transient e then exchange_loop c a first_deadline frame_deadline cap calls d received rejected ignored
          else Some (Err (Ex_Read e)))"

record exchange_env =
  ex_cancelled :: bool
  ex_clear :: "link_io + unit"
  ex_write_at :: nat
  ex_writes :: "nat link_call list"
  ex_started :: nat
  ex_reads :: "bytes link_call list"

definition exchange :: "codec \<Rightarrow> port_config \<Rightarrow> adapter \<Rightarrow> exchange_env \<Rightarrow> (exchange_error + point_update list) option" where
  "exchange c port a env =
     (let lims = \<lparr>lim_frame = pc_max_frame_bytes port, lim_payload = pc_max_payload_bytes port\<rparr>
      in if ex_cancelled env then Some (Err Ex_Cancelled)
         else case ad_request a of Inl e \<Rightarrow> Some (Err (Ex_Protocol e))
         | Inr payload \<Rightarrow>
             if payload = [] then Some (Err (Ex_Protocol EmptyRequest))
             else (case and_then (encode c payload lims) (\<lambda>request. map_ok (Pair request) (decoder_new lims)) of
               Inl e \<Rightarrow> Some (Err (Ex_Frame e))
             | Inr (request, d) \<Rightarrow> (case ex_clear env of Inl e \<Rightarrow> Some (Err (Ex_Read e))
               | Inr _ \<Rightarrow> (case write_once (ex_write_at env + from_millis (pc_write_timeout_ms port)) (ex_writes env) request of
                   None \<Rightarrow> None
                 | Some (Inl e, _) \<Rightarrow> Some (Err (Ex_Write e))
                 | Some (Inr _, _) \<Rightarrow>
                     exchange_loop c a (ex_started env + from_millis (pc_first_byte_timeout_ms port))
                       (ex_started env + from_millis (pc_frame_timeout_ms port)) (min (pc_max_frame_bytes port) 1024)
                       (ex_reads env) d False 0 0))))"

section \<open>Schedule\<close>

record poll_schedule =
  po_due :: "nat list"
  po_cursor :: nat

definition poll_schedule_new :: "nat \<Rightarrow> nat \<Rightarrow> poll_schedule" where
  "poll_schedule_new count now = \<lparr>po_due = replicate count now, po_cursor = 0\<rparr>"

fun next_due :: "nat list \<Rightarrow> nat \<Rightarrow> nat \<Rightarrow> nat list \<Rightarrow> nat option" where
  "next_due due cursor now [] = None"
| "next_due due cursor now (offset # offsets) =
     (let index = (cursor + offset) mod length due
      in if due ! index \<le> now then Some index else next_due due cursor now offsets)"

definition schedule_next :: "nat \<Rightarrow> poll_schedule \<Rightarrow> nat option \<times> poll_schedule" where
  "schedule_next now y =
     (case next_due (po_due y) (po_cursor y) now [0..<length (po_due y)] of
        None \<Rightarrow> (None, y)
      | Some index \<Rightarrow> (Some index, y\<lparr>po_cursor := (index + 1) mod length (po_due y)\<rparr>))"

definition schedule_completed :: "nat \<Rightarrow> nat \<Rightarrow> nat \<Rightarrow> poll_schedule \<Rightarrow> poll_schedule" where
  "schedule_completed index now interval y = y\<lparr>po_due := (po_due y)[index := now + interval]\<rparr>"

section \<open>Supervision\<close>

record link_worker =
  lw_store :: point_store
  lw_backoff :: u64
  lw_ever_opened :: bool

definition saturating_double :: "u64 \<Rightarrow> u64" where
  "saturating_double n = (if 2 ^ 64 \<le> 2 * unat n then - 1 else 2 * n)"

definition next_backoff :: "port_config \<Rightarrow> u64 \<Rightarrow> u64" where
  "next_backoff port n = min (saturating_double n) (pc_reconnect_max_ms port)"

fun fail_tasks :: "quality \<Rightarrow> string \<Rightarrow> task_config list \<Rightarrow> point_store \<Rightarrow> store_error + point_store" where
  "fail_tasks q message [] s = Ok s"
| "fail_tasks q message (t # ts) s = and_then (fail_task (tc_id t) q message s) (fail_tasks q message ts)"

definition worker_start :: "port_config \<Rightarrow> point_store \<Rightarrow> link_worker" where
  "worker_start port s = \<lparr>lw_store = s, lw_backoff = pc_reconnect_min_ms port, lw_ever_opened = False\<rparr>"

text \<open>A connection that could not be opened; the worker then waits for the delay it had.\<close>

definition port_open_failed :: "port_config \<Rightarrow> task_config list \<Rightarrow> string \<Rightarrow> link_worker \<Rightarrow> store_error + link_worker" where
  "port_open_failed port tasks message w =
     and_then (port_state (pc_id port) ''OpenFailed'' message False (lw_store w)) (\<lambda>s.
       map_ok (\<lambda>s. w\<lparr>lw_store := s, lw_backoff := next_backoff port (lw_backoff w)\<rparr>)
         (fail_tasks NoCommunication message tasks s))"

definition opened :: "port_config \<Rightarrow> link_worker \<Rightarrow> store_error + link_worker" where
  "opened port w =
     map_ok (\<lambda>s. w\<lparr>lw_store := s, lw_ever_opened := True\<rparr>)
       (port_state (pc_id port) ''Open'' [] (lw_ever_opened w) (lw_store w))"

text \<open>After a stream has ended with a lost connection; \<open>valid\<close> when it had published a peer snapshot.\<close>

definition stream_lost :: "port_config \<Rightarrow> task_config list \<Rightarrow> bool \<Rightarrow> link_worker \<Rightarrow> store_error + link_worker" where
  "stream_lost port tasks valid w =
     (let backoff = (if valid then pc_reconnect_min_ms port else lw_backoff w)
      in and_then (store_port (pc_id port) (lw_store w)) (\<lambda>p.
         let error = (if ps_last_error p = [] then ''serial connection lost'' else ps_last_error p)
         in and_then (fail_tasks NoCommunication error tasks (lw_store w)) (\<lambda>s.
            map_ok (\<lambda>s. w\<lparr>lw_store := s, lw_backoff := next_backoff port backoff\<rparr>)
              (port_state (pc_id port) ''Reconnecting'' error False s))))"

text \<open>One task of a polled port: the outcome of its exchange, and whether the loop over the tasks is left.\<close>

record poll_texts =
  px_store :: "store_error \<Rightarrow> string"
  px_exchange :: "exchange_error \<Rightarrow> string"

definition poll_result :: "poll_texts \<Rightarrow> nat \<Rightarrow> port_config \<Rightarrow> task_config \<Rightarrow> link_io + unit \<Rightarrow>
    exchange_error + point_update list \<Rightarrow> link_worker \<Rightarrow> store_error + (bool \<times> link_worker)" where
  "poll_result texts utc port task quarantined r w =
     (case r of
        Inr points \<Rightarrow> (case publish utc (tc_id task) points utc (lw_store w) of
            Inl e \<Rightarrow> map_ok (\<lambda>s. (False, w\<lparr>lw_store := s\<rparr>)) (fail_task (tc_id task) Configuration (px_store texts e) (lw_store w))
          | Inr s \<Rightarrow> Ok (False, w\<lparr>lw_store := s, lw_backoff := pc_reconnect_min_ms port\<rparr>))
      | Inl Ex_Cancelled \<Rightarrow> Ok (True, w)
      | Inl e \<Rightarrow>
          (let q = (case e of Ex_Protocol _ \<Rightarrow> Configuration | Ex_Frame _ \<Rightarrow> Configuration | _ \<Rightarrow> NoCommunication);
               broken = (case e of Ex_Write _ \<Rightarrow> True | Ex_Read _ \<Rightarrow> True | _ \<Rightarrow> False)
           in map_ok (\<lambda>s. (broken \<or> \<not> is_ok quarantined, w\<lparr>lw_store := s\<rparr>))
                (fail_task (tc_id task) q (px_exchange texts e) (lw_store w))))"

text \<open>One pass over the schedule; nothing to do is \<open>None\<close> in the second component.\<close>

record poll_env =
  pe_now :: nat
  pe_utc :: nat
  pe_exchange :: exchange_env
  pe_quarantined :: "link_io + unit"
  pe_done_at :: nat

definition poll_turn :: "codec \<Rightarrow> poll_texts \<Rightarrow> port_config \<Rightarrow> (task_config \<times> adapter) list \<Rightarrow> poll_env \<Rightarrow> link_worker \<Rightarrow> poll_schedule \<Rightarrow>
    (store_error + (bool \<times> link_worker \<times> poll_schedule)) option" where
  "poll_turn c texts port tasks env w y =
     (case schedule_next (pe_now env) y of
        (None, y) \<Rightarrow> Some (Ok (False, w, y))
      | (Some i, y) \<Rightarrow>
          (let (task, a) = tasks ! i
           in case store_attempt (pe_utc env) (tc_id task) (lw_store w) of
                Inl e \<Rightarrow> Some (Err e)
              | Inr s \<Rightarrow> (case exchange c port a (pe_exchange env) of
                  None \<Rightarrow> None
                | Some r \<Rightarrow> Some (map_ok (\<lambda>(leave, w). (leave, w, schedule_completed i (pe_done_at env) (from_millis (tc_interval_ms task)) y))
                    (poll_result texts (pe_utc env) port task (pe_quarantined env) r (w\<lparr>lw_store := s\<rparr>))))))"

definition poll_lost :: "port_config \<Rightarrow> task_config list \<Rightarrow> link_worker \<Rightarrow> store_error + link_worker" where
  "poll_lost port tasks w =
     and_then (fail_tasks NoCommunication ''serial connection lost'' tasks (lw_store w)) (\<lambda>s.
       map_ok (\<lambda>s. w\<lparr>lw_store := s, lw_backoff := next_backoff port (lw_backoff w)\<rparr>)
         (port_state (pc_id port) ''Reconnecting'' ''serial connection lost'' False s))"

definition worker_stopped :: "port_config \<Rightarrow> task_config list \<Rightarrow> link_worker \<Rightarrow> store_error + link_worker" where
  "worker_stopped port tasks w =
     and_then (fail_tasks OutOfService ''acquisition stopped'' tasks (lw_store w)) (\<lambda>s.
       map_ok (\<lambda>s. w\<lparr>lw_store := s\<rparr>) (port_state (pc_id port) ''Stopped'' [] False s))"

section \<open>No task is starved\<close>

text \<open>A sequence of turns, each with the time of the choice and the next due time of the chosen task.\<close>

fun serve :: "(nat \<times> nat \<times> nat) list \<Rightarrow> poll_schedule \<Rightarrow> nat option list" where
  "serve [] y = []"
| "serve ((now, finished, interval) # turns) y =
     (case schedule_next now y of
        (None, y) \<Rightarrow> None # serve turns y
      | (Some i, y) \<Rightarrow> Some i # serve turns (schedule_completed i finished interval y))"

definition distance :: "nat \<Rightarrow> poll_schedule \<Rightarrow> nat" where
  "distance i y = (if po_cursor y \<le> i then i - po_cursor y else i + length (po_due y) - po_cursor y)"

lemma next_due_found:
  assumes "\<exists>k \<in> set offsets. due ! ((cursor + k) mod length due) \<le> now"
  shows "\<exists>pre k post. offsets = pre @ k # post \<and> next_due due cursor now offsets = Some ((cursor + k) mod length due)
    \<and> due ! ((cursor + k) mod length due) \<le> now \<and> (\<forall>m \<in> set pre. now < due ! ((cursor + m) mod length due))"
  using assms
proof (induction offsets)
  case (Cons m offsets)
  show ?case
  proof (cases "due ! ((cursor + m) mod length due) \<le> now")
    case True
    then show ?thesis by (intro exI[of _ "[]"]) (simp add: Let_def)
  next
    case False
    with Cons obtain pre k post where "offsets = pre @ k # post" "next_due due cursor now offsets = Some ((cursor + k) mod length due)"
      "due ! ((cursor + k) mod length due) \<le> now" "\<forall>m \<in> set pre. now < due ! ((cursor + m) mod length due)" by auto
    with False show ?thesis by (intro exI[of _ "m # pre"]) (simp add: Let_def)
  qed
qed simp

lemma distance_step:
  assumes "i < length (po_due y)" and "po_cursor y < length (po_due y)" and "k < distance i y"
  shows "distance i (y\<lparr>po_cursor := Suc (po_cursor y + k) mod length (po_due y)\<rparr>) = distance i y - Suc k"
proof -
  let ?n = "length (po_due y)" and ?c = "po_cursor y"
  consider "Suc (?c + k) < ?n" | "Suc (?c + k) = ?n" | "?n \<le> ?c + k" by linarith
  then show ?thesis
  proof cases
    case 3
    moreover have "Suc (?c + k) - ?n < ?n" using assms by (cases "po_due y") (simp_all add: distance_def split: if_splits)
    ultimately have "Suc (?c + k) mod ?n = Suc (?c + k) - ?n" by (simp add: le_mod_geq)
    with 3 show ?thesis using assms by (auto simp: distance_def split: if_splits)
  qed (use assms in \<open>auto simp: distance_def split: if_splits\<close>)
qed

lemma schedule_closer:
  assumes "i < length (po_due y)" and "po_cursor y < length (po_due y)" and "po_due y ! i \<le> now"
  obtains j y' where "schedule_next now y = (Some j, y')" and "j < length (po_due y)" and "po_due y' = po_due y"
    and "po_cursor y' < length (po_due y)" and "j = i \<or> distance i y' < distance i y"
proof -
  let ?n = "length (po_due y)" and ?c = "po_cursor y"
  have d: "distance i y < ?n" "(?c + distance i y) mod ?n = i"
    using assms(1,2) by (auto simp: distance_def mod_if)
  then have "\<exists>k \<in> set [0..<?n]. po_due y ! ((?c + k) mod ?n) \<le> now" using assms(3) by (intro bexI[of _ "distance i y"]) auto
  from next_due_found[OF this] obtain pre k post where k: "[0..<?n] = pre @ k # post"
    "next_due (po_due y) ?c now [0..<?n] = Some ((?c + k) mod ?n)" "\<forall>m \<in> set pre. now < po_due y ! ((?c + m) mod ?n)" by blast
  have lp: "length pre < ?n" using arg_cong[OF k(1), of length] by simp
  have "k = length pre" using arg_cong[OF k(1), of "\<lambda>xs. xs ! length pre"] lp by simp
  moreover have "pre = [0..<length pre]" using arg_cong[OF k(1), of "take (length pre)"] lp by simp
  ultimately have kn: "k < ?n" "pre = [0..<k]" using lp by simp_all
  have "k \<le> distance i y"
  proof (rule ccontr)
    assume "\<not> k \<le> distance i y"
    then have "distance i y \<in> set pre" using kn by simp
    with k(3) d(2) assms(3) show False by fastforce
  qed
  moreover define j where "j = (?c + k) mod ?n"
  define y' where "y' = y\<lparr>po_cursor := (j + 1) mod ?n\<rparr>"
  have "j = i" if "k = distance i y" using that d(2) by (simp add: j_def)
  moreover have "distance i y' < distance i y" if "k < distance i y"
    using distance_step[OF assms(1,2) that] that by (simp add: y'_def j_def mod_Suc_eq)
  ultimately have "j = i \<or> distance i y' < distance i y" by linarith
  moreover have "schedule_next now y = (Some j, y')" using k(2) by (simp add: schedule_next_def j_def y'_def)
  moreover have "j < ?n" "po_due y' = po_due y" "po_cursor y' < ?n"
    using assms(2) by (auto simp: j_def y'_def intro!: mod_less_divisor)
  ultimately show thesis using that by blast
qed

lemma serve_reaches:
  assumes "i < length (po_due y)" and "po_cursor y < length (po_due y)" and "\<forall>(now, _, _) \<in> set turns. po_due y ! i \<le> now"
    and "distance i y < length turns"
  shows "Some i \<in> set (serve turns y)"
  using assms
proof (induction turns arbitrary: y)
  case (Cons t turns)
  obtain now finished interval where t: "t = (now, finished, interval)" by (metis prod_cases3)
  have "po_due y ! i \<le> now" using Cons.prems(3) t by simp
  from schedule_closer[OF Cons.prems(1,2) this] obtain j y' where y': "schedule_next now y = (Some j, y')" "j < length (po_due y)"
    "po_due y' = po_due y" "po_cursor y' < length (po_due y)" "j = i \<or> distance i y' < distance i y" by metis
  show ?case
  proof (cases "j = i")
    case True
    with t y' show ?thesis by simp
  next
    case False
    let ?y = "schedule_completed j finished interval y'"
    have "Some i \<in> set (serve turns ?y)"
      using False y' Cons.prems t by (intro Cons.IH) (auto simp: schedule_completed_def distance_def)
    with t y' show ?thesis by simp
  qed
qed simp

section \<open>Delays and stopping\<close>

lemma unat_double: "unat (saturating_double n) = min (2 * unat n) (2 ^ 64 - 1)"
proof (cases "2 ^ 64 \<le> 2 * unat n")
  case False
  then have "unat (2 * n) = 2 * unat n" by (simp add: unat_word_ariths)
  with False show ?thesis by (simp add: saturating_double_def)
qed (simp add: saturating_double_def unsigned_minus_1_eq_mask mask_eq_exp_minus_1)

lemma backoff_bounds:
  assumes "pc_reconnect_min_ms port \<le> n" and "n \<le> pc_reconnect_max_ms port"
  shows "pc_reconnect_min_ms port \<le> next_backoff port n" and "next_backoff port n \<le> pc_reconnect_max_ms port"
proof -
  have "n \<le> saturating_double n" using unsigned_less[of n, where ?'a = nat] by (simp add: word_le_nat_alt unat_double)
  then show "pc_reconnect_min_ms port \<le> next_backoff port n" using assms by (auto simp: next_backoff_def)
  show "next_backoff port n \<le> pc_reconnect_max_ms port" by (simp add: next_backoff_def)
qed

lemma fail_tasks_quality:
  assumes "fail_tasks q message ts s = Ok s'" and "t \<in> set ts" and "ps_tasks s (tc_id t) = Some names" and "n \<in> set names"
    and "ps_samples s' n = Some sa"
  shows "sa_quality sa = q"
proof -
  have keep: "(\<forall>sa. ps_samples s n = Some sa \<longrightarrow> sa_quality sa = q) \<Longrightarrow> fail_tasks q message ts s = Ok s' \<Longrightarrow> ps_samples s' n = Some sa \<Longrightarrow> sa_quality sa = q"
    for ts s s' sa
  proof (induction ts arbitrary: s)
    case (Cons u ts)
    from Cons.prems(2) obtain s1 where s1: "fail_task (tc_id u) q message s = Ok s1" "fail_tasks q message ts s1 = Ok s'" by auto
    from s1(1) obtain names where "ps_samples s1 n = (if n \<in> set names then map_option (fail_sample q message) (ps_samples s n)
      else ps_samples s n)" by (elim failE) blast
    then have "\<forall>sa. ps_samples s1 n = Some sa \<longrightarrow> sa_quality sa = q"
      using Cons.prems(1) by (cases "n \<in> set names") (auto simp: fail_sample_def)
    from Cons.IH[OF this s1(2) Cons.prems(3)] show ?case .
  qed simp
  show ?thesis using assms
  proof (induction ts arbitrary: s)
    case (Cons u ts)
    from Cons.prems(1) obtain s1 where s1: "fail_task (tc_id u) q message s = Ok s1" "fail_tasks q message ts s1 = Ok s'" by auto
    show ?case
    proof (cases "tc_id u = tc_id t")
      case True
      with s1(1) Cons.prems(3,4) have "\<forall>sa. ps_samples s1 n = Some sa \<longrightarrow> sa_quality sa = q"
        by (auto elim!: failE simp: fail_sample_def)
      from keep[OF this s1(2) Cons.prems(5)] show ?thesis .
    next
      case False
      moreover have "ps_tasks s1 (tc_id t) = Some names" using s1(1) Cons.prems(3) by (auto elim!: failE)
      ultimately show ?thesis using Cons.IH[OF s1(2)] Cons.prems by auto
    qed
  qed simp
qed

end
