(* ===== verification/Link_Runs.thy ===== *)
theory Link_Runs
  imports Link_Poller
begin

text \<open>
  Runs of a link program: the connection of a synchronised port of an accepted configuration, with the
  invariant that a frame is coming in only while the schedule knows it, and the life of a worker over
  all its connections.
\<close>

section \<open>Accepted ports\<close>

lemma accepted_ports:
  "validate_ports env ps ports devices tasks = Ok ts \<Longrightarrow> p \<in> set ps \<Longrightarrow> validate_port p = Ok () \<and> \<not> timeouts_bad p
   \<and> limits_validate \<lparr>lim_frame = pc_max_frame_bytes p, lim_payload = pc_max_payload_bytes p\<rparr> = Ok ()"
proof (induction ps arbitrary: ports devices tasks)
  case (Cons q ps)
  from Cons.prems(1) obtain devices' tasks' where "validate_ports env ps (pc_id q # ports) devices' tasks' = Ok ts"
    "validate_port q = Ok ()" "\<not> timeouts_bad q" "18 \<le> pc_max_frame_bytes q" "pc_max_frame_bytes q \<le> 65535"
    "1 \<le> pc_max_payload_bytes q" "pc_max_payload_bytes q \<le> 65535" by (auto simp: Let_def split: if_splits)
  with Cons.IH[OF this(1)] Cons.prems(2) show ?case by (auto simp: limits_validate_def split: if_splits)
qed simp

lemma parsed_port:
  assumes "link_parse env ctext ptext = Ok (config, points)" and "p \<in> set (lc_ports config)"
  shows "validate_port p = Ok ()" and "\<not> timeouts_bad p"
    and "limits_validate \<lparr>lim_frame = pc_max_frame_bytes p, lim_payload = pc_max_payload_bytes p\<rparr> = Ok ()"
proof -
  from link_parse_parts(1)[OF assms(1)] obtain ts where "validate_ports env (lc_ports config) [] [] [] = Ok ts"
    by (auto simp: link_validate_def Let_def split: if_splits)
  from accepted_ports[OF this assms(2)] show "validate_port p = Ok ()" "\<not> timeouts_bad p"
    "limits_validate \<lparr>lim_frame = pc_max_frame_bytes p, lim_payload = pc_max_payload_bytes p\<rparr> = Ok ()" by simp_all
qed

text \<open>The frames of the report a port receives fit its limits.\<close>

lemma report_capacity:
  assumes "validate_port p = Ok ()" and "t \<in> set (pc_tasks p)" and "from_protocol (tc_protocol t) = Some l"
  shows "payload_len l \<le> pc_max_payload_bytes p" and "payload_len l + 10 \<le> pc_max_frame_bytes p"
proof -
  have "filter (\<lambda>t. from_protocol (tc_protocol t) \<noteq> None) (pc_tasks p) \<noteq> []" using assms(2,3) by (auto simp: filter_empty_conv)
  with assms(1) have one: "length (pc_tasks p) = 1" "length (filter (\<lambda>t. from_protocol (tc_protocol t) \<noteq> None) (pc_tasks p)) = 1"
    by (auto simp: validate_port_def Let_def split: if_splits)
  with assms(2) have "pc_tasks p = [t]" by (cases "pc_tasks p") auto
  with assms one have "payload_len l \<le> pc_max_payload_bytes p \<and> payload_len l + 10 \<le> pc_max_frame_bytes p"
    by (auto simp: validate_port_def layout_of_first_def sync_deadlines_bad_def Let_def split: if_splits option.splits)
  then show "payload_len l \<le> pc_max_payload_bytes p" "payload_len l + 10 \<le> pc_max_frame_bytes p" by simp_all
qed

text \<open>Limits do not change a frame that fits.\<close>

lemma encode_limits:
  assumes "encode c p l = Ok f" and "limits_validate l' = Ok ()" and "length p \<le> lim_payload l'" and "length p + 10 \<le> lim_frame l'"
  shows "encode c p l' = Ok f"
  using assms by (auto simp: encode_def Let_def split: if_splits)

section \<open>A connection\<close>

definition line_ok :: "stream_state \<Rightarrow> bool" where
  "line_ok st \<longleftrightarrow> (has_partial_frame (ls_decoder st) \<longrightarrow> sy_partial_since (ls_schedule st) \<noteq> None)"

lemma take_payloads_keeps:
  "take_payloads cfg now utc ps st = Ok st' \<Longrightarrow> ls_decoder st' = ls_decoder st \<and> ls_schedule st' = ls_schedule st"
proof (induction ps arbitrary: st)
  case (Cons p ps)
  then obtain st1 where s: "take_payload cfg now utc p st = Ok st1" "take_payloads cfg now utc ps st1 = Ok st'" by auto
  have "ls_decoder st1 = ls_decoder st \<and> ls_schedule st1 = ls_schedule st"
  proof (cases "\<exists>us. report_response (sv_layout cfg) p = Ok (Matched us)")
    case True
    with s(1) obtain us store where "report_response (sv_layout cfg) p = Ok (Matched us)" "(case publish utc (tc_id (sv_task cfg)) us utc store of
        Inr store \<Rightarrow> Ok (st\<lparr>ls_store := store, ls_last_valid := now, ls_timed_out := False, ls_received_valid := True\<rparr>)
      | Inl e \<Rightarrow> fail_received cfg (sv_store_text cfg e) (st\<lparr>ls_store := store\<rparr>)) = Ok st1" by (auto simp: take_payload_def)
    then show ?thesis by (auto simp: fail_received_def split: sum.splits)
  next
    case False
    with s(1) show ?thesis by (auto simp: take_payload_def fail_received_def split: sum.splits response.splits)
  qed
  with Cons.IH[OF s(2)] show ?case by simp
qed simp

lemma feed_error_resets: "feed c chunk d = (Err e, d') \<Longrightarrow> \<not> has_partial_frame d'"
  by (auto simp: feed_def decoder_reset_def has_partial_frame_def Let_def split: if_splits prod.splits)

lemma receive_line: "line_ok st \<Longrightarrow> receive_step cfg env st = Ok (go, st') \<Longrightarrow> line_ok st'"
  by (auto simp: receive_step_def take_chunk_def fail_received_def line_ok_def sync_received_def discard_partial_def Let_def
    split: sum.splits prod.splits if_splits option.splits dest!: take_payloads_keeps feed_error_resets)

lemma expire_line: "line_ok st \<Longrightarrow> expire_step cfg env st = Ok st' \<Longrightarrow> line_ok st'"
  by (auto simp: expire_step_def recover_expired_def line_ok_def has_partial_frame_def split: if_splits dest!: take_payloads_keeps)

lemma silence_line: "line_ok st \<Longrightarrow> silence_step cfg env st = Ok st' \<Longrightarrow> line_ok st'"
  by (auto simp: silence_step_def line_ok_def split: if_splits)

lemma send_line: "line_ok st \<Longrightarrow> send_step cfg env st = Some (Ok (go, st', taken)) \<Longrightarrow> line_ok st'"
  by (auto simp: send_step_def line_ok_def sent_or_skipped_def Let_def split: if_splits option.splits sum.splits)

lemma turn_line: "line_ok st \<Longrightarrow> stream_turn cfg env st = Some (Ok (go, st', taken)) \<Longrightarrow> line_ok st'"
  by (erule stream_turnE) (blast intro: receive_line, metis receive_line expire_line silence_line send_line)

lemma stream_run_line: "stream_run cfg st t \<Longrightarrow> line_ok st \<Longrightarrow> line_ok t"
proof (induction rule: stream_run.induct)
  case (turn st t env t' taken)
  then show ?case using turn_line by blast
qed (simp_all add: line_ok_def)

text \<open>A state of a connection of a port of an accepted configuration.\<close>

definition connection :: "config_env \<Rightarrow> stream_cfg \<Rightarrow> stream_state \<Rightarrow> bool" where
  "connection env cfg st \<longleftrightarrow> (\<exists>ctext ptext config points now s0 m0 st0.
     link_parse env ctext ptext = Ok (config, points) \<and> sv_port cfg \<in> set (lc_ports config)
     \<and> sv_task cfg \<in> set (pc_tasks (sv_port cfg)) \<and> from_protocol (tc_protocol (sv_task cfg)) = Some (sv_layout cfg)
     \<and> store_run (store_new config points) s0 \<and> mail_run (mailboxes_new config) m0
     \<and> stream_start cfg now s0 m0 = Ok st0 \<and> stream_run cfg st0 st)"

lemma connection_ok:
  assumes "connection env cfg st"
  shows "stream_ok cfg st" and "configured env cfg st" and "line_ok st" and "limits_validate (stream_limits cfg) = Ok ()"
    and "payload_len (sv_layout cfg) \<le> lim_payload (stream_limits cfg)" and "payload_len (sv_layout cfg) + 10 \<le> lim_frame (stream_limits cfg)"
proof -
  obtain ctext ptext config points now s0 m0 st0 where c: "link_parse env ctext ptext = Ok (config, points)"
    "sv_port cfg \<in> set (lc_ports config)" "sv_task cfg \<in> set (pc_tasks (sv_port cfg))"
    "from_protocol (tc_protocol (sv_task cfg)) = Some (sv_layout cfg)"
    "store_run (store_new config points) s0" "mail_run (mailboxes_new config) m0"
    "stream_start cfg now s0 m0 = Ok st0" "stream_run cfg st0 st" using assms by (auto simp: connection_def)
  note st0 = stream_start_ok[OF c(7) store_run_ok[OF c(5) store_new_ok] mail_run_ok[OF c(6) mailboxes_new_ok]]
  note run = stream_run_ok[OF c(8) st0(1)]
  show "stream_ok cfg st" using run by blast
  have "store_run (store_new config points) (ls_store st)" using run st0(2) store_run_trans[OF _ c(5)] by auto
  with c(1-4) show "configured env cfg st" unfolding configured_def by blast
  have "line_ok st0" using c(7) by (auto simp: stream_start_def decoder_new_def line_ok_def has_partial_frame_def)
  with c(8) show "line_ok st" by (rule stream_run_line)
  note p = parsed_port[OF c(1,2)]
  show "limits_validate (stream_limits cfg) = Ok ()" using p(3) by (simp add: stream_limits_def)
  show "payload_len (sv_layout cfg) \<le> lim_payload (stream_limits cfg)" "payload_len (sv_layout cfg) + 10 \<le> lim_frame (stream_limits cfg)"
    using report_capacity[OF p(1) c(3,4)] by (simp_all add: stream_limits_def)
qed

text \<open>The last piece of a frame of the peer: the turn shows its payload, whatever limits the peer has.\<close>

lemma peer_frame_shown:
  assumes "codec_ok (sv_codec cfg)" and "connection cenv cfg st" and "validate_payload (sv_layout cfg) payload = Ok ()"
    and "encode (sv_codec cfg) payload plimits = Ok frame" and "fd_buffer (ls_decoder st) @ chunk = frame" and "chunk \<noteq> []"
    and "length chunk \<le> 1024" and "tn_read env = Ok chunk"
    and "tn_now env - tn_read_at env < from_millis (st_receive_timeout_ms (sv_settings cfg))"
    and "tn_now env - tn_read_at env < sy_gap (ls_schedule st)"
  shows "\<exists>st'. stream_turn cfg env st = Some (Ok (True, st', [])) \<and> shows_payload (sv_layout cfg) payload (tn_utc env) (ls_store st')"
proof -
  note c = connection_ok[OF assms(2)]
  have "encode (sv_codec cfg) payload (stream_limits cfg) = Ok frame"
    using assms(3) c(5,6) by (intro encode_limits[OF assms(4) c(4)]) (auto simp: validate_payload_def split: if_splits)
  from receive_delivers[OF c(1) assms(1) c(2) assms(3) this assms(5-8)] obtain st1 where st1:
    "receive_step cfg env st = Ok (True, st1)" "shows_payload (sv_layout cfg) payload (tn_utc env) (ls_store st1)"
    "ls_schedule st1 = sync_received (tn_read_at env) False (discard_partial (ls_schedule st))"
    "\<not> ls_timed_out st1" "ls_last_valid st1 = tn_read_at env" by blast
  from turn_delivers[OF st1(1,3-5) assms(9,10)] st1(2) show ?thesis by blast
qed

text \<open>A snapshot that is supplied as text.\<close>

lemma hex_text_plain: "filter (\<lambda>c. \<not> is_ascii_whitespace c) (hex_text bs) = hex_text bs"
proof -
  have "\<not> is_ascii_whitespace (hex_char n)" if "n < 16" for n
    using that by (auto simp: is_ascii_whitespace_def code_of_hex_char)
  moreover have "unat b div 16 < 16" "unat b mod 16 < 16" for b :: u8
    using unat_u8_less[of b] by (simp_all add: less_mult_imp_div_less)
  ultimately show ?thesis by (auto simp: filter_id_conv hex_text_def format_02X_def)
qed

lemma submit_json_text:
  assumes "json input = Ok (revision, hex_text payload)" and "length input \<le> 8192"
  shows "submit_json json now port input m = submit now port revision payload m"
  using assms even_length_format[of payload]
  by (simp add: submit_json_def hex_text_plain collect_results_map_Ok[of "\<lambda>x. x", simplified] hex_pairs_format is_ascii_concat
    list_all_iff format_02X_ascii flip: hex_text_def) (simp add: hex_text_def is_ascii_concat list_all_iff format_02X_ascii hex_pairs_format
      collect_results_map_Ok[of "\<lambda>x. x", simplified])

section \<open>A worker\<close>

text \<open>The life of a worker: failed and successful attempts to open, what its connections and other workers do to the store,
  lost connections, and the end.\<close>

inductive link_worker_run :: "port_config \<Rightarrow> task_config list \<Rightarrow> point_store \<Rightarrow> link_worker \<Rightarrow> bool" for port tasks s where
  start: "link_worker_run port tasks s (worker_start port s)"
| port_open_failed: "link_worker_run port tasks s w \<Longrightarrow> port_open_failed port tasks message w = Ok w' \<Longrightarrow> link_worker_run port tasks s w'"
| opened: "link_worker_run port tasks s w \<Longrightarrow> opened port w = Ok w' \<Longrightarrow> link_worker_run port tasks s w'"
| store: "link_worker_run port tasks s w \<Longrightarrow> store_run (lw_store w) s' \<Longrightarrow> link_worker_run port tasks s (w\<lparr>lw_store := s'\<rparr>)"
| poll: "link_worker_run port tasks s w \<Longrightarrow> poll_turn c texts port adapters env w y = Some (Ok (leave, w', y')) \<Longrightarrow> link_worker_run port tasks s w'"
| stream_lost: "link_worker_run port tasks s w \<Longrightarrow> stream_lost port tasks valid w = Ok w' \<Longrightarrow> link_worker_run port tasks s w'"
| poll_lost: "link_worker_run port tasks s w \<Longrightarrow> poll_lost port tasks w = Ok w' \<Longrightarrow> link_worker_run port tasks s w'"
| stopped: "link_worker_run port tasks s w \<Longrightarrow> worker_stopped port tasks w = Ok w' \<Longrightarrow> link_worker_run port tasks s w'"

definition backoff_ok :: "port_config \<Rightarrow> link_worker \<Rightarrow> bool" where
  "backoff_ok port w \<longleftrightarrow> pc_reconnect_min_ms port \<le> lw_backoff w \<and> lw_backoff w \<le> pc_reconnect_max_ms port"

lemma poll_result_backoff:
  assumes "poll_result texts utc port task quarantined r w = Ok (leave, w')" and "backoff_ok port w"
    and "pc_reconnect_min_ms port \<le> pc_reconnect_max_ms port"
  shows "backoff_ok port w'"
  using assms by (auto simp: poll_result_def backoff_ok_def Let_def split: sum.splits exchange_error.splits)

lemma poll_turn_backoff:
  assumes "poll_turn c texts port adapters env w y = Some (Ok (leave, w', y'))" and "backoff_ok port w"
    and "pc_reconnect_min_ms port \<le> pc_reconnect_max_ms port"
  shows "backoff_ok port w'"
proof (cases "fst (schedule_next (pe_now env) y)")
  case None
  with assms show ?thesis by (auto simp: poll_turn_def split: prod.splits)
next
  case (Some i)
  obtain task a where t: "adapters ! i = (task, a)" by fastforce
  from assms(1) Some obtain s r where "store_attempt (pe_utc env) (tc_id task) (lw_store w) = Ok s" "exchange c port a (pe_exchange env) = Some r"
    and p: "poll_result texts (pe_utc env) port task (pe_quarantined env) r (w\<lparr>lw_store := s\<rparr>) = Ok (leave, w')"
    by (auto simp: poll_turn_def t split: prod.splits sum.splits option.splits)
  from assms(2) have "backoff_ok port (w\<lparr>lw_store := s\<rparr>)" by (simp add: backoff_ok_def)
  from poll_result_backoff[OF p this assms(3)] show ?thesis .
qed

lemma worker_backoff:
  assumes "link_worker_run port tasks s w" and "pc_reconnect_min_ms port \<le> pc_reconnect_max_ms port"
  shows "backoff_ok port w"
  using assms
proof (induction rule: link_worker_run.induct)
  case (poll w c texts adapters env y leave w' y')
  then show ?case using poll_turn_backoff by blast
qed (auto simp: worker_start_def port_open_failed_def opened_def stream_lost_def poll_lost_def worker_stopped_def backoff_ok_def Let_def
    intro: backoff_bounds split: if_splits)

text \<open>The operations on a configured port succeed.\<close>

lemma port_state_accepted:
  assumes "port \<in> set (lc_ports config)" and "store_run (store_new config points) s"
  shows "\<exists>s'. port_state (pc_id port) status e re s = Ok s'" and "\<exists>p. store_port (pc_id port) s = Ok p"
proof -
  have "fold (\<lambda>port m. m(pc_id port \<mapsto> port_initial port)) (lc_ports config) Map.empty (pc_id port) \<noteq> None"
    using assms(1) by (simp add: fold_upd_dom del: not_None_eq)
  then have "ps_ports (store_new config points) (pc_id port) \<noteq> None" by (simp add: store_new_def split: prod.split)
  from store_run_ports[OF assms(2) this] obtain p where "ps_ports s (pc_id port) = Some p" by auto
  then show "\<exists>s'. port_state (pc_id port) status e re s = Ok s'" "\<exists>p. store_port (pc_id port) s = Ok p"
    by (simp_all add: port_state_def update_port_def store_port_def)
qed

lemma fail_tasks_accepted:
  assumes "port \<in> set (lc_ports config)" and "set ts \<subseteq> set (pc_tasks port)" and "store_run (store_new config points) s" and "q \<noteq> Good"
  shows "\<exists>s'. fail_tasks q message ts s = Ok s' \<and> store_run (store_new config points) s'"
  using assms(2,3)
proof (induction ts arbitrary: s)
  case (Cons t ts)
  have "ps_tasks s (tc_id t) \<noteq> None"
    using store_new_tasks[OF assms(1), of t points] store_run_frame(2)[OF Cons.prems(2)] Cons.prems(1) by simp
  then obtain s1 where s1: "fail_task (tc_id t) q message s = Ok s1" using assms(4) by (auto simp: fail_task_def)
  with Cons.IH[of s1] store_run.fail[OF Cons.prems(2) s1] Cons.prems(1) show ?case by simp
qed simp

text \<open>The points of the tasks of a worker that has nothing to show.\<close>

definition link_down :: "point_definition list \<Rightarrow> task_config list \<Rightarrow> point_store \<Rightarrow> bool" where
  "link_down points tasks s \<longleftrightarrow> (\<forall>d \<in> set points. pd_task_id d \<in> tc_id ` set tasks \<longrightarrow>
     (\<exists>sa. ps_samples s (pd_name d) = Some sa \<and> sa_quality sa \<in> {NoCommunication, OutOfService} \<and> sa_value sa = zero_value (pd_data_type d)))"

lemma fail_tasks_down:
  assumes "distinct (map pd_name points)" and "port \<in> set (lc_ports config)" and "set ts \<subseteq> set (pc_tasks port)"
    and "store_run (store_new config points) s" and "q \<in> {NoCommunication, OutOfService}" and "fail_tasks q message ts s = Ok s'"
  shows "link_down points ts s'"
  unfolding link_down_def
proof (intro ballI impI)
  fix d assume d: "d \<in> set points" "pd_task_id d \<in> tc_id ` set ts"
  then obtain t where t: "t \<in> set ts" "pd_task_id d = tc_id t" by auto
  have q: "q \<noteq> Good" using assms(5) by auto
  have run: "store_run (store_new config points) s'" using fail_tasks_accepted[OF assms(2-4) q, of message] assms(6) by auto
  have names: "ps_tasks s (tc_id t) = Some (map pd_name (filter (\<lambda>d. pd_task_id d = tc_id t) points))"
    using store_new_tasks[OF assms(2), of t points] store_run_frame(2)[OF assms(4)] assms(3) t(1) by auto
  have def: "ps_definitions s' (pd_name d) = Some d"
    using store_run_frame(1)[OF run] store_new_definitions[OF assms(1) d(1)] by simp
  have ok: "store_ok s'" using store_run_ok[OF run store_new_ok] .
  then have "dom (ps_samples s') = dom (ps_definitions s')" by (simp add: store_ok_def)
  with def obtain sa where sa: "ps_samples s' (pd_name d) = Some sa" by blast
  moreover have "sa_quality sa = q" by (rule fail_tasks_quality[OF assms(6) t(1) names _ sa]) (use d t in auto)
  moreover have "sample_ok d sa" using ok def sa by (simp add: store_ok_def)
  ultimately show "\<exists>sa. ps_samples s' (pd_name d) = Some sa \<and> sa_quality sa \<in> {NoCommunication, OutOfService}
      \<and> sa_value sa = zero_value (pd_data_type d)" using assms(5) by (auto simp: sample_ok_def)
qed

text \<open>The two orders in which a worker reports.\<close>

lemma reported:
  assumes "distinct (map pd_name points)" and "port \<in> set (lc_ports config)" and "set ts \<subseteq> set (pc_tasks port)"
    and "store_run (store_new config points) s" and "q \<in> {NoCommunication, OutOfService}"
  shows "\<exists>s1 s2. fail_tasks q e ts s = Ok s1 \<and> port_state (pc_id port) status message re s1 = Ok s2 \<and> link_down points ts s2"
    and "\<exists>s1 s2. port_state (pc_id port) status message re s = Ok s1 \<and> fail_tasks q e ts s1 = Ok s2 \<and> link_down points ts s2"
proof -
  have q: "q \<noteq> Good" using assms(5) by auto
  obtain s1 where s1: "fail_tasks q e ts s = Ok s1" "store_run (store_new config points) s1"
    using fail_tasks_accepted[OF assms(2-4) q] by blast
  moreover obtain s2 where s2: "port_state (pc_id port) status message re s1 = Ok s2" using port_state_accepted(1)[OF assms(2) s1(2)] by blast
  moreover have "link_down points ts s2"
    using fail_tasks_down[OF assms s1(1)] port_state_facts(3)[OF s2] by (simp add: link_down_def)
  ultimately show "\<exists>s1 s2. fail_tasks q e ts s = Ok s1 \<and> port_state (pc_id port) status message re s1 = Ok s2 \<and> link_down points ts s2"
    by blast
  obtain t1 where t1: "port_state (pc_id port) status message re s = Ok t1" using port_state_accepted(1)[OF assms(2,4)] by blast
  have run: "store_run (store_new config points) t1" by (rule store_run.port_state[OF assms(4) t1])
  obtain t2 where "fail_tasks q e ts t1 = Ok t2" using fail_tasks_accepted[OF assms(2,3) run q] by blast
  with t1 fail_tasks_down[OF assms(1-3) run assms(5) this]
  show "\<exists>s1 s2. port_state (pc_id port) status message re s = Ok s1 \<and> fail_tasks q e ts s1 = Ok s2 \<and> link_down points ts s2" by blast
qed

end
