(* ===== verification/Link_Liveness.thy ===== *)
theory Link_Liveness
  imports Link_Runs
begin

text \<open>
  Where the good points of a synchronised port come from: the snapshots of the peer that a turn of its
  connection hears, and the invariant that the time of the last valid snapshot and every good point of the
  task belong to one of them. Noise, frames that are rejected and reports of another kind leave both alone.
\<close>

section \<open>Snapshots of a turn\<close>

text \<open>
  The snapshots a turn hears, with the time it notes for them: payloads of frames that are complete with
  the bytes just read, and payloads that are recovered from a partial frame that has expired.
\<close>

definition peer_snapshots :: "stream_cfg \<Rightarrow> turn_env \<Rightarrow> stream_state \<Rightarrow> (nat \<times> bytes) list" where
  "peer_snapshots cfg env st =
     (let valid = filter (\<lambda>p. validate_payload (sv_layout cfg) p = Ok ());
          received = (case tn_read env of
              Inr chunk \<Rightarrow> (case feed (sv_codec cfg) chunk (ls_decoder st) of
                  (Inr r, d) \<Rightarrow> map (Pair (tn_read_at env)) (valid (fr_payloads r)) | (Inl e, d) \<Rightarrow> [])
            | Inl e \<Rightarrow> []);
          recovered = (case receive_step cfg env st of
              Inr (go, st1) \<Rightarrow>
                if go \<and> partial_expired (tn_now env) (ls_schedule st1)
                then map (Pair (tn_now env)) (valid (fr_payloads (fst (recover_expired (sv_codec cfg) (ls_decoder st1))))) else []
            | Inl e \<Rightarrow> [])
      in received @ recovered)"

text \<open>A sample that shows a point of a snapshot.\<close>

definition shown_by :: "stream_cfg \<Rightarrow> nat \<Rightarrow> bytes \<Rightarrow> string \<Rightarrow> sample \<Rightarrow> bool" where
  "shown_by cfg utc p n sa \<longleftrightarrow> (\<exists>f \<in> set (layout_fields (sv_layout cfg)). n = data_name f \<and>
     sa = \<lparr>sa_value = field_value f (slice f p), sa_quality = Good, sa_source_timestamp = Some utc, sa_error = []\<rparr>)"

section \<open>Steps\<close>

text \<open>A step either brings no new good sample, or it renews all of them from one snapshot.\<close>

definition good_sample :: "stream_cfg \<Rightarrow> stream_state \<Rightarrow> string \<Rightarrow> sample \<Rightarrow> bool" where
  "good_sample cfg st n sa \<longleftrightarrow> (\<exists>names. ps_tasks (ls_store st) (tc_id (sv_task cfg)) = Some names \<and> n \<in> set names)
     \<and> ps_samples (ls_store st) n = Some sa \<and> sa_quality sa = Good"

definition no_news :: "stream_cfg \<Rightarrow> stream_state \<Rightarrow> stream_state \<Rightarrow> bool" where
  "no_news cfg st st' \<longleftrightarrow> ls_last_valid st' = ls_last_valid st \<and> (\<forall>n sa. good_sample cfg st' n sa \<longrightarrow> good_sample cfg st n sa)"

definition renewed :: "stream_cfg \<Rightarrow> nat \<Rightarrow> nat \<Rightarrow> bytes \<Rightarrow> stream_state \<Rightarrow> bool" where
  "renewed cfg now utc p st' \<longleftrightarrow> ls_last_valid st' = now \<and> validate_payload (sv_layout cfg) p = Ok ()
     \<and> (\<forall>n sa. good_sample cfg st' n sa \<longrightarrow> shown_by cfg utc p n sa)"

lemma no_news_refl [simp]: "no_news cfg st st"
  by (simp add: no_news_def)

lemma no_news_trans: "no_news cfg s t \<Longrightarrow> no_news cfg t u \<Longrightarrow> no_news cfg s u"
  by (simp add: no_news_def)

lemma renewed_trans: "renewed cfg now utc p s \<Longrightarrow> no_news cfg s t \<Longrightarrow> renewed cfg now utc p t"
  by (simp add: renewed_def no_news_def)

lemma no_news_store:
  "ls_last_valid st' = ls_last_valid st \<Longrightarrow> ps_samples (ls_store st') = ps_samples (ls_store st) \<Longrightarrow>
   ps_tasks (ls_store st') = ps_tasks (ls_store st) \<Longrightarrow> no_news cfg st st'"
  by (simp add: no_news_def good_sample_def)

lemma not_good_no_news:
  "ls_last_valid st' = ls_last_valid st \<Longrightarrow> task_not_good (tc_id (sv_task cfg)) (ls_store st') \<Longrightarrow> no_news cfg st st'"
  by (auto simp: no_news_def good_sample_def task_not_good_def)

lemma update_port_no_news: "update_port pid f (ls_store st) = Ok s \<Longrightarrow> no_news cfg st (st\<lparr>ls_store := s\<rparr>)"
  by (simp add: no_news_store update_port_frame)

lemma fail_received_no_news: "fail_received cfg text st = Ok st' \<Longrightarrow> no_news cfg st st'"
  by (rule not_good_no_news) (auto simp: fail_received_def dest: fail_not_good)

lemma matched_report:
  assumes "report_response l p = Ok (Matched points)"
  shows "validate_payload l p = Ok ()" and "points = map (field_update p) (layout_fields l)"
proof -
  show v: "validate_payload l p = Ok ()"
    using assms by (cases l) (auto simp: report_response_def unit_decode_def validate_payload_def split: if_splits)
  show "points = map (field_update p) (layout_fields l)" using assms report_matched[OF v] by simp
qed

text \<open>An accepted batch renews every point of its task.\<close>

lemma publish_renews:
  assumes "store_ok s" and "report_response (sv_layout cfg) p = Ok (Matched points)"
    and "publish utc (tc_id (sv_task cfg)) points utc s = Ok s'" and "ls_store st' = s'" and "ls_last_valid st' = now"
  shows "renewed cfg now utc p st'"
proof -
  note m = matched_report[OF assms(2)]
  obtain names where p: "ps_tasks s (tc_id (sv_task cfg)) = Some names" "length names = length points"
    "check_updates (ps_definitions s) (tc_id (sv_task cfg)) [] points = Ok ()" "ps_tasks s' = ps_tasks s"
    using assms(3) by (auto elim: publishE)
  note b = batch_complete(1)[OF assms(1) p(1-3)]
  have "shown_by cfg utc p n sa" if g: "good_sample cfg st' n sa" for n sa
  proof -
    from g b p(1,4) assms(4) have "n \<in> pu_name ` set points" by (simp add: good_sample_def)
    with m(2) obtain f where f: "f \<in> set (layout_fields (sv_layout cfg))" "n = data_name f"
      by (auto simp: field_update_def)
    with g payload_shown[OF assms(1) assms(3)[unfolded m(2)]] assms(4) show ?thesis
      by (auto simp: shown_by_def shows_payload_def good_sample_def)
  qed
  with assms(5) m(1) show ?thesis by (simp add: renewed_def)
qed

lemma take_payload_news:
  assumes "stream_ok cfg st" and "take_payload cfg now utc p st = Ok st'"
  shows "no_news cfg st st' \<or> renewed cfg now utc p st'"
proof (cases "\<exists>points. report_response (sv_layout cfg) p = Ok (Matched points)")
  case False
  with assms(2) show ?thesis
    by (auto simp: take_payload_def intro: fail_received_no_news split: sum.splits response.splits)
next
  case True
  then obtain points where r: "report_response (sv_layout cfg) p = Ok (Matched points)" by blast
  with assms(2) obtain s1 where s1: "store_attempt utc (tc_id (sv_task cfg)) (ls_store st) = Ok s1" by (auto simp: take_payload_def)
  have ok: "store_ok s1" using assms(1) s1 by (auto simp: stream_ok_def store_attempt_ok)
  show ?thesis
  proof (cases "publish utc (tc_id (sv_task cfg)) points utc s1")
    case (Inl e)
    with r s1 assms(2) have "fail_received cfg (sv_store_text cfg e) (st\<lparr>ls_store := s1\<rparr>) = Ok st'" by (simp add: take_payload_def)
    moreover have "no_news cfg st (st\<lparr>ls_store := s1\<rparr>)"
      using s1 by (auto simp: store_attempt_def update_port_no_news split: option.splits)
    ultimately show ?thesis using fail_received_no_news no_news_trans by blast
  next
    case (Inr s2)
    with r s1 assms(2) have "ls_store st' = s2" "ls_last_valid st' = now" by (auto simp: take_payload_def)
    with publish_renews[OF ok r] Inr show ?thesis by blast
  qed
qed

lemma take_payloads_news:
  "stream_ok cfg st \<Longrightarrow> take_payloads cfg now utc ps st = Ok st' \<Longrightarrow>
   no_news cfg st st' \<or> (\<exists>p \<in> set ps. renewed cfg now utc p st')"
proof (induction ps arbitrary: st)
  case (Cons p ps)
  then obtain st1 where t: "take_payload cfg now utc p st = Ok st1" "take_payloads cfg now utc ps st1 = Ok st'" by auto
  have "stream_ok cfg st1" using take_payload_ok[OF Cons.prems(1) t(1)] by blast
  from Cons.IH[OF this t(2)] take_payload_news[OF Cons.prems(1) t(1)] show ?case
    by (auto intro: no_news_trans renewed_trans)
qed simp

lemma report_errors_no_news:
  assumes "report_frame_errors port r expired (ls_store st) = Ok s"
  shows "no_news cfg st (st\<lparr>ls_decoder := d, ls_store := s, ls_schedule := y\<rparr>)"
  using report_errors_ok[OF assms] store_run_frame(2) by (intro no_news_store) simp_all

lemma receive_news:
  assumes "stream_ok cfg st" and "receive_step cfg env st = Ok (True, st')"
  shows "no_news cfg st st' \<or> (\<exists>(tm, p) \<in> set (peer_snapshots cfg env st). renewed cfg tm (tn_utc env) p st')"
proof (cases "tn_read env")
  case (Inl e)
  with assms(2) show ?thesis by (auto simp: receive_step_def Let_def split: if_splits)
next
  case (Inr chunk)
  with assms(2) have len: "length chunk \<le> pc_max_frame_bytes (sv_port cfg)"
    and t: "take_chunk cfg (tn_read_at env) (tn_utc env) chunk st = Ok st'"
    by (auto simp: receive_step_def Let_def split: if_splits)
  obtain r d where f: "feed (sv_codec cfg) chunk (ls_decoder st) = (Ok r, d)" "decoder_ok (sv_codec cfg) d" "fd_limits d = fd_limits (ls_decoder st)"
    using feed_ok[OF stream_decoder[OF assms(1) len]] by metis
  with t obtain s1 where s1: "report_frame_errors (pc_id (sv_port cfg)) r False (ls_store st) = Ok s1" by (auto simp: take_chunk_def)
  define st1 where "st1 = st\<lparr>ls_decoder := d, ls_store := s1, ls_schedule := sync_received (tn_read_at env) (has_partial_frame d)
      (if fr_payloads r \<noteq> [] then discard_partial (ls_schedule st) else ls_schedule st)\<rparr>"
  have tp: "take_payloads cfg (tn_read_at env) (tn_utc env) (fr_payloads r) st1 = Ok st'"
    using t f(1) s1 by (simp add: take_chunk_def Let_def st1_def)
  have "store_ok s1" using store_run_ok[OF report_errors_ok(1)[OF s1]] assms(1) by (simp add: stream_ok_def)
  then have "stream_ok cfg st1" using assms(1) f(2,3) report_errors_ok(2)[OF s1] by (simp add: stream_ok_def st1_def)
  from take_payloads_news[OF this tp] show ?thesis
  proof (elim disjE bexE)
    assume "no_news cfg st1 st'"
    with report_errors_no_news[OF s1] show ?thesis unfolding st1_def using no_news_trans by blast
  next
    fix p assume p: "p \<in> set (fr_payloads r)" "renewed cfg (tn_read_at env) (tn_utc env) p st'"
    then have "(tn_read_at env, p) \<in> set (peer_snapshots cfg env st)"
      using Inr f(1) by (auto simp: peer_snapshots_def renewed_def Let_def)
    with p(2) show ?thesis by blast
  qed
qed

lemma expire_news:
  assumes "stream_ok cfg st1" and "expire_step cfg env st1 = Ok st2" and "receive_step cfg env st = Ok (True, st1)"
  shows "no_news cfg st1 st2 \<or> (\<exists>(tm, p) \<in> set (peer_snapshots cfg env st). renewed cfg tm (tn_utc env) p st2)"
proof (cases "partial_expired (tn_now env) (ls_schedule st1)")
  case False
  with assms(2) show ?thesis by (simp add: expire_step_def)
next
  case True
  obtain r d where r: "recover_expired (sv_codec cfg) (ls_decoder st1) = (r, d)" by fastforce
  with True assms(2) obtain s1 st3 where s1: "report_frame_errors (pc_id (sv_port cfg)) r True (ls_store st1) = Ok s1"
    "take_payloads cfg (tn_now env) (tn_utc env) (fr_payloads r) (st1\<lparr>ls_decoder := d, ls_store := s1\<rparr>) = Ok st3"
    "st2 = st3\<lparr>ls_schedule := discard_partial (ls_schedule st3)\<rparr>"
    by (auto simp: expire_step_def)
  have "stream_ok cfg (st1\<lparr>ls_decoder := d, ls_store := s1\<rparr>)"
    using assms(1) recover_decoder[OF _ r] report_errors_ok[OF s1(1)] store_run_ok by (auto simp: stream_ok_def)
  from take_payloads_news[OF this s1(2)] show ?thesis
  proof (elim disjE bexE)
    assume n: "no_news cfg (st1\<lparr>ls_decoder := d, ls_store := s1\<rparr>) st3"
    have "no_news cfg st1 (st1\<lparr>ls_decoder := d, ls_store := s1\<rparr>)"
      using report_errors_no_news[OF s1(1), where d = d and y = "ls_schedule st1"] by simp
    with n s1(3) show ?thesis by (auto simp: no_news_def good_sample_def)
  next
    fix p assume p: "p \<in> set (fr_payloads r)" "renewed cfg (tn_now env) (tn_utc env) p st3"
    then have "(tn_now env, p) \<in> set (peer_snapshots cfg env st)"
      using True r assms(3) by (auto simp: peer_snapshots_def renewed_def Let_def)
    moreover have "renewed cfg (tn_now env) (tn_utc env) p st2" using p(2) s1(3) by (simp add: renewed_def good_sample_def)
    ultimately show ?thesis by blast
  qed
qed

lemma silence_no_news: "silence_step cfg env st = Ok st' \<Longrightarrow> no_news cfg st st'"
  by (auto simp: silence_step_def split: if_splits intro!: not_good_no_news dest: fail_not_good)

text \<open>A turn brings good samples only from the snapshots it hears.\<close>

lemma turn_news:
  assumes "stream_ok cfg st" and "stream_turn cfg env st = Some (Ok (True, st', taken))"
  shows "no_news cfg st st' \<or> (\<exists>(tm, p) \<in> set (peer_snapshots cfg env st). renewed cfg tm (tn_utc env) p st')"
  using assms(2)
proof (cases rule: stream_turnE)
  case lost
  then show ?thesis by simp
next
  case (on st1 st2 st3)
  have ok: "stream_ok cfg st1" "stream_ok cfg st2" "stream_ok cfg st3"
    using receive_step_ok[OF assms(1) on(1)] expire_step_ok[OF _ on(2)] silence_step_ok[OF _ on(3)] by metis+
  have "no_news cfg st3 st'"
    using send_step_ok[OF ok(3) on(4)] store_run_frame(2) by (intro no_news_store) simp_all
  then have "no_news cfg st2 st'" using silence_no_news[OF on(3)] no_news_trans by blast
  with receive_news[OF assms(1) on(1)] expire_news[OF ok(1) on(2,1)] show ?thesis
    by (blast intro: no_news_trans renewed_trans)
qed

section \<open>Runs\<close>

text \<open>Every good sample belongs to a snapshot that was heard at the noted time.\<close>

definition good_heard :: "stream_cfg \<Rightarrow> stream_state \<Rightarrow> stream_state \<Rightarrow> bool" where
  "good_heard cfg st0 st \<longleftrightarrow> (\<forall>n sa. good_sample cfg st n sa \<longrightarrow> (\<exists>t env u taken p.
     stream_run cfg st0 t \<and> stream_turn cfg env t = Some (Ok (True, u, taken)) \<and> stream_run cfg u st
     \<and> (ls_last_valid st, p) \<in> set (peer_snapshots cfg env t) \<and> shown_by cfg (tn_utc env) p n sa))"

lemma no_news_heard:
  assumes "good_heard cfg st0 st" and "no_news cfg st st'" and "\<And>u. stream_run cfg u st \<Longrightarrow> stream_run cfg u st'"
  shows "good_heard cfg st0 st'"
  unfolding good_heard_def
proof (intro allI impI)
  fix n sa assume "good_sample cfg st' n sa"
  then have "good_sample cfg st n sa" using assms(2) by (simp add: no_news_def)
  with assms(1) obtain t env u taken p where "stream_run cfg st0 t" "stream_turn cfg env t = Some (Ok (True, u, taken))"
    "stream_run cfg u st" "(ls_last_valid st, p) \<in> set (peer_snapshots cfg env t)" "shown_by cfg (tn_utc env) p n sa"
    unfolding good_heard_def by blast
  moreover have "ls_last_valid st' = ls_last_valid st" using assms(2) by (simp add: no_news_def)
  ultimately show "\<exists>t env u taken p. stream_run cfg st0 t \<and> stream_turn cfg env t = Some (Ok (True, u, taken)) \<and> stream_run cfg u st'
      \<and> (ls_last_valid st', p) \<in> set (peer_snapshots cfg env t) \<and> shown_by cfg (tn_utc env) p n sa"
    using assms(3) by metis
qed

lemma stream_run_heard:
  "stream_run cfg st0 st \<Longrightarrow> stream_ok cfg st0 \<Longrightarrow> task_not_good (tc_id (sv_task cfg)) (ls_store st0) \<Longrightarrow> good_heard cfg st0 st"
proof (induction rule: stream_run.induct)
  case (start st)
  then show ?case by (auto simp: good_heard_def good_sample_def task_not_good_def)
next
  case (turn st t env t' taken)
  have "stream_ok cfg t" using stream_run_ok[OF turn.hyps(1)] turn.prems by blast
  from turn_news[OF this turn.hyps(2)] show ?case
  proof (elim disjE bexE)
    assume "no_news cfg t t'"
    then show ?thesis using no_news_heard[OF turn.IH[OF turn.prems]] stream_run.turn[OF _ turn.hyps(2)] by blast
  next
    fix s assume "s \<in> set (peer_snapshots cfg env t)" "case s of (tm, p) \<Rightarrow> renewed cfg tm (tn_utc env) p t'"
    then obtain tm p where p: "(tm, p) \<in> set (peer_snapshots cfg env t)" "renewed cfg tm (tn_utc env) p t'" by (cases s) auto
    then have "(ls_last_valid t', p) \<in> set (peer_snapshots cfg env t)" by (simp add: renewed_def)
    with turn.hyps stream_run.start[of cfg t'] p(2) show ?thesis unfolding good_heard_def renewed_def by metis
  qed
next
  case (mail st t m)
  have "no_news cfg t (t\<lparr>ls_mail := m\<rparr>)" by (simp add: no_news_store)
  then show ?case using no_news_heard[OF mail.IH[OF mail.prems]] stream_run.mail[OF _ mail.hyps(2)] by blast
next
  case (other st t s)
  have "no_news cfg t (t\<lparr>ls_store := s\<rparr>)"
    using other.hyps(3) store_run_frame(2)[OF other.hyps(2)] by (auto simp: no_news_def good_sample_def)
  then show ?case using no_news_heard[OF other.IH[OF other.prems]] stream_run.other[OF _ other.hyps(2), of cfg] other.hyps(3)
    by (metis (no_types))
qed

text \<open>Connections start with points that are not good: at the start of the program, and after every loss.\<close>

lemma fold_upd_range: "fold (\<lambda>x m. m(k x \<mapsto> v x)) xs m n = Some y \<Longrightarrow> m n = Some y \<or> (\<exists>x \<in> set xs. y = v x)"
proof (induction xs arbitrary: m)
  case (Cons x xs)
  from Cons.prems have "fold (\<lambda>x m. m(k x \<mapsto> v x)) xs (m(k x \<mapsto> v x)) n = Some y" by (simp only: fold_simps)
  from Cons.IH[OF this] show ?case by (auto split: if_splits)
qed simp

lemma store_new_not_good: "task_not_good task (store_new config points)"
proof -
  have "sa_quality sa \<noteq> Good" if sa: "ps_samples (store_new config points) n = Some sa" for n sa
  proof -
    have "sa_source_timestamp sa = None"
      using sa by (auto simp: store_new_def initial_sample_def Let_def split: prod.splits dest!: fold_upd_range)
    moreover obtain d where "ps_definitions (store_new config points) n = Some d"
      using store_new_ok[of config points] sa unfolding store_ok_def by blast
    ultimately show ?thesis using store_new_ok[of config points] sa by (auto simp: store_ok_def sample_ok_def)
  qed
  then show ?thesis by (simp add: task_not_good_def)
qed

lemma link_down_not_good:
  assumes "port \<in> set (lc_ports config)" and "t \<in> set ts" and "t \<in> set (pc_tasks port)"
    and "store_run (store_new config points) s" and "link_down points ts s"
  shows "task_not_good (tc_id t) s"
proof -
  have "ps_tasks s (tc_id t) = Some (map pd_name (filter (\<lambda>d. pd_task_id d = tc_id t) points))"
    using store_new_tasks[OF assms(1,3), of points] store_run_frame(2)[OF assms(4)] by simp
  with assms(2,5) show ?thesis by (fastforce simp: task_not_good_def link_down_def)
qed

end
