(* ===== verification/Link_Examples.thy ===== *)
theory Link_Examples
  imports Link_Runs
begin

text \<open>
  Concrete inputs for the unit link: a codec, the configuration of unit 1, which receives the report of
  unit 9, and the snapshot of unit 9 with all its inputs.
\<close>

section \<open>A codec\<close>

definition run_length :: "bytes \<Rightarrow> bytes" where
  "run_length p =
     (if p \<noteq> [] \<and> length p < 65536 \<and> p = replicate (length p) (hd p) then 1 # hd p # u16_to_le_bytes (of_nat (length p)) else 0 # p)"

definition run_expand :: "bytes \<Rightarrow> bytes" where
  "run_expand z =
     (case z of [] \<Rightarrow> [] | m # bs \<Rightarrow> if m = 1 \<and> length bs = 3 then replicate (u16_at bs 1) (bs ! 0) else bs)"

definition demo_codec :: codec where
  "demo_codec = \<lparr>cd_crc = (\<lambda>bs. of_nat (sum_list (map unat bs))), cd_compress = (\<lambda>p. Ok (run_length p)),
     cd_decompress = (\<lambda>z n. Ok (length (run_expand z) < n, take n (run_expand z), length z))\<rparr>"

lemma demo_codec_ok: "codec_ok demo_codec"
proof -
  have "run_expand (run_length p) = p" for p
  proof (cases "p \<noteq> [] \<and> length p < 65536 \<and> p = replicate (length p) (hd p)")
    case True
    have "u16_at (hd p # u16_to_le_bytes (of_nat (length p))) 1 = length p"
      using u16_at_le[of "length p" "[hd p]" "[]"] True by simp
    with True show ?thesis by (simp add: run_length_def run_expand_def)
  next
    case False
    then have "run_length p = 0 # p" by (auto simp: run_length_def)
    then show ?thesis by (simp add: run_expand_def)
  qed
  then show ?thesis by (auto simp: codec_ok_def demo_codec_def)
qed

definition demo_limits :: limits where
  "demo_limits = \<lparr>lim_frame = 64, lim_payload = 64\<rparr>"

definition demo_decoder :: frame_decoder where
  "demo_decoder = \<lparr>fd_limits = demo_limits, fd_buffer = []\<rparr>"

lemma encode_framed:
  assumes "limits_validate l = Ok ()" and "length p \<le> lim_payload l" and "length z + 10 \<le> lim_frame l"
    and "cd_compress c p = Ok y" and "z = (if length p \<le> length y then p else y)"
  shows "encode c p l = Ok (framed c (length p) z)"
  using assms by (simp add: encode_def framed_def Let_def)

text \<open>Three bytes as they are, and twenty equal ones compressed.\<close>

definition frame_a :: bytes where
  "frame_a = [13, 0, 3, 0, 3, 0, 1, 2, 3, 25, 0, 0, 0]"

definition frame_b :: bytes where
  "frame_b = [14, 0, 20, 0, 4, 0, 1, 7, 20, 0, 66, 0, 0, 0]"

lemma demo_frames: "encode demo_codec [1, 2, 3] demo_limits = Ok frame_a" "encode demo_codec (replicate 20 7) demo_limits = Ok frame_b"
proof -
  have f: "framed demo_codec 3 [1, 2, 3] = frame_a" "framed demo_codec 20 [1, 7, 20, 0] = frame_b" by code_simp+
  have z: "cd_compress demo_codec [1, 2, 3] = Ok [0, 1, 2, 3]" "cd_compress demo_codec (replicate 20 7) = Ok [1, 7, 20, 0]"
    by (simp_all add: run_length_def u16_to_le_bytes_def demo_codec_def)
  have l: "limits_validate demo_limits = Ok ()" "lim_payload demo_limits = 64" "lim_frame demo_limits = 64"
    by (simp_all add: limits_validate_def demo_limits_def)
  show "encode demo_codec [1, 2, 3] demo_limits = Ok frame_a"
    using encode_framed[OF l(1) _ _ z(1), of "[1, 2, 3]"] f(1) l by (simp add: eval_nat_numeral)
  show "encode demo_codec (replicate 20 7) demo_limits = Ok frame_b"
    using encode_framed[OF l(1) _ _ z(2), of "[1, 7, 20, 0]"] f(2) l by simp
qed

lemma demo_decoder_new: "decoder_new demo_limits = Ok demo_decoder"
  by (simp add: decoder_new_def limits_validate_def demo_limits_def demo_decoder_def)

section \<open>Two units\<close>

definition demo_task :: task_config where
  "demo_task = \<lparr>tc_id = ''report'', tc_enabled = True, tc_protocol = ''unit9-to1-v1'', tc_interval_ms = 1000\<rparr>"

definition demo_settings :: "string \<Rightarrow> settings" where
  "demo_settings protocol = \<lparr>st_transmit_enabled = True, st_transmit_protocol = protocol, st_send_interval_ms = 1000,
     st_initial_delay_ms = 0, st_idle_gap_ms = 50, st_receive_timeout_ms = 5000, st_input_refresh_interval_ms = 1000,
     st_snapshot_max_age_ms = 5000\<rparr>"

definition demo_link_port :: "task_config \<Rightarrow> string \<Rightarrow> port_config" where
  "demo_link_port task transmit = \<lparr>pc_id = ''link'', pc_device = ''/dev/ttyS1'', pc_enabled = True, pc_baud_rate = 9600, pc_data_bits = 8,
     pc_parity = Parity_None, pc_stop_bits = 1, pc_first_byte_timeout_ms = 500, pc_frame_timeout_ms = 2000,
     pc_write_timeout_ms = 2000, pc_late_frame_guard_ms = 100, pc_reconnect_min_ms = 1000, pc_reconnect_max_ms = 30000,
     pc_max_frame_bytes = 2048, pc_max_payload_bytes = 2048, pc_tasks = [task], pc_synchronization = Some (demo_settings transmit)\<rparr>"

definition demo_link :: "port_config \<Rightarrow> link_config" where
  "demo_link port = \<lparr>lc_schema_version = 1, lc_instance_id = ''unit'', lc_points_file = ''points.csv'',
     lc_opc = \<lparr>oc_bind_ip = ''127.0.0.1'', oc_advertised_host = ''127.0.0.1'', oc_port = 4841, oc_allow_anonymous_none = True,
       oc_allow_anonymous_secure = False, oc_trust_client_certificates = False\<rparr>,
     lc_ports = [port]\<rparr>"

definition port1 :: port_config where
  "port1 = demo_link_port demo_task ''unit1-to9-v1''"

definition points1 :: "point_definition list" where
  "points1 = unit_definitions (\<lambda>_. ''field'') ''report'' Unit9To1"

definition demo_config_env :: config_env where
  "demo_config_env = \<lparr>ce_is_absolute = (\<lambda>d. take 1 d = ''/''), ce_canonicalize = (\<lambda>_. None), ce_unspecified_ip = (\<lambda>h. h = ''0.0.0.0''),
     ce_toml = (\<lambda>_. Ok (demo_link port1)), ce_headers = (\<lambda>_. Ok [''name'', ''task_id'', ''data_type'', ''description'']),
     ce_rows = (\<lambda>_. map Ok points1), ce_describe = (\<lambda>_. ''field'')\<rparr>"

lemma demo_points: "validate_point_list points1 [''report''] [] = Ok ()" "length points1 = 15"
  "validate_points demo_config_env (demo_link port1) points1 = Ok ()"
  by code_simp+

lemma demo_rows: "length ps + length rows \<le> MAX_POINTS \<Longrightarrow> read_rows (map Ok rows) ps = Ok (ps @ rows)"
  by (induction rows arbitrary: ps) simp_all

lemma demo_ids: "valid_id ''unit''" "valid_id ''link''" "valid_id ''report''" "valid_id ''unit9-to1-v1''"
  "is_ascii_alphanumeric CHR ''0''" "is_ascii_alphanumeric CHR ''1''" "is_ascii_alphanumeric CHR ''2''" "is_ascii_alphanumeric CHR ''7''"
  by code_simp+

lemma demo_host: "\<not> ce_unspecified_ip demo_config_env ''127.0.0.1''"
  by (simp add: demo_config_env_def)

lemma demo_fields: "ce_toml demo_config_env t = Ok (demo_link port1)" "ce_rows demo_config_env t = map Ok points1"
  "ce_headers demo_config_env t = Ok [''name'', ''task_id'', ''data_type'', ''description'']"
  by (simp_all add: demo_config_env_def)

lemma demo_link_parse: "link_parse demo_config_env [] [] = Ok (demo_link port1, points1)"
proof -
  have "validate_port port1 = Ok ()"
    by (simp add: validate_port_def port1_def demo_link_port_def demo_settings_def demo_task_def from_protocol_def layout_of_first_def
      sync_deadlines_bad_def in_ms_def)
  then have "validate_ports demo_config_env [port1] [] [] [] = Ok [''report'']"
    by (simp add: port1_def demo_link_port_def demo_task_def demo_ids demo_config_env_def timeouts_bad_def in_ms_def)
  then have "link_validate demo_config_env (demo_link port1) points1 = Ok ()"
    by (simp add: link_validate_def demo_link_def demo_ids demo_points MAX_POINTS_def demo_host Let_def del: validate_ports.simps)
  with demo_points(3) show ?thesis
    using demo_rows[of "[]" points1] demo_points(2)
    by (simp add: link_parse_def MAX_POINTS_def demo_fields)
qed

text \<open>Unit 9 has written all its inputs one after the other, at time 0.\<close>

definition demo_value :: "field \<Rightarrow> link_value" where
  "demo_value f = (case fl_kind f of Hex \<Rightarrow> LV_String (concat (replicate (fl_len f) ''A5'')) | Unsigned \<Rightarrow> LV_UInt32 7 | Fire \<Rightarrow> LV_UInt32 2)"

definition demo_mail_start :: mailboxes where
  "demo_mail_start = mailboxes_new (demo_link (demo_link_port (demo_task\<lparr>tc_protocol := ''unit1-to9-v1''\<rparr>) ''unit9-to1-v1''))"

definition demo_mail :: mailboxes where
  "demo_mail = fold (\<lambda>f m. snd (write_field 0 0 ''link'' (data_name f) (demo_value f) m)) (transmit_fields Unit9To1) demo_mail_start"

definition demo_slot :: slot where
  "demo_slot = (case demo_mail ''link'' of Some s \<Rightarrow> s | None \<Rightarrow> slot_new (demo_settings []) False)"

definition demo_payload :: bytes where
  "demo_payload = sl_field_payload demo_slot"

text \<open>What is evaluated of it, in one go.\<close>

definition demo_complete :: "slot \<Rightarrow> bool" where
  "demo_complete s \<longleftrightarrow> transmitting s \<and> slot_layout s = Some Unit9To1
     \<and> length (sl_fields s) = length (transmit_fields Unit9To1) \<and> list_all (\<lambda>(_, _, t0, _). t0 = 0) (sl_fields s)
     \<and> st_snapshot_max_age_ms (sl_settings s) = 5000 \<and> length (sl_field_payload s) = 105
     \<and> sl_field_payload s ! 0 = 9 \<and> sl_field_payload s ! 1 = 0 \<and> sl_fields s \<noteq> []
     \<and> map_of (sl_fields s) ''DATA.Buildings.91UBH.Fire'' = Some (LV_UInt32 2, 0, 0)"

lemma demo_evaluated: "case demo_mail ''link'' of Some s \<Rightarrow> demo_complete s | None \<Rightarrow> False"
  by code_simp

lemma demo_mail_slot: "demo_mail ''link'' = Some demo_slot" "demo_complete demo_slot"
  using demo_evaluated by (auto simp: demo_slot_def split: option.splits)

lemma demo_mail_run: "mail_run demo_mail_start demo_mail"
proof -
  have "mail_run demo_mail_start m \<Longrightarrow> mail_run demo_mail_start
      (fold (\<lambda>f m. snd (write_field 0 0 ''link'' (data_name f) (demo_value f) m)) fs m)" for fs m
    by (induction fs arbitrary: m) (simp_all add: mail_run.write_input)
  then show ?thesis by (simp add: demo_mail_def mail_run.start)
qed

lemma demo_current: "current ''link'' 1 demo_mail = Some demo_payload"
proof -
  have "\<not> list_ex (\<lambda>(_, _, t0, _). max_age demo_slot \<le> 1 - t0) (sl_fields demo_slot)"
    using demo_mail_slot(2) by (auto simp: demo_complete_def list_all_iff list_ex_iff max_age_def from_millis_def)
  with demo_mail_slot show ?thesis by (simp add: current_def demo_complete_def demo_payload_def)
qed

lemma demo_not_constant: "run_length demo_payload = 0 # demo_payload"
proof -
  have p: "length demo_payload = 105" "demo_payload ! 0 = 9" "demo_payload ! 1 = 0"
    using demo_mail_slot(2) by (simp_all add: demo_complete_def demo_payload_def)
  have "demo_payload \<noteq> replicate (length demo_payload) (hd demo_payload)"
  proof
    assume "demo_payload = replicate (length demo_payload) (hd demo_payload)"
    then have "demo_payload ! 0 = demo_payload ! 1" using p(1) by (metis nth_replicate one_less_numeral_iff semiring_norm(77) zero_less_numeral less_trans numeral_less_iff)
    with p show False by simp
  qed
  then show ?thesis by (auto simp: run_length_def)
qed

section \<open>The receiving side\<close>

definition cfg1 :: stream_cfg where
  "cfg1 = \<lparr>sv_codec = demo_codec, sv_port = port1, sv_settings = demo_settings ''unit1-to9-v1'', sv_task = demo_task,
     sv_layout = Unit9To1, sv_store_text = (\<lambda>_. ''batch''), sv_report_text = (\<lambda>_. ''report''), sv_frame_text = (\<lambda>_. ''frame''),
     sv_write_text = (\<lambda>_. ''write''), sv_read_text = (\<lambda>_. ''read'')\<rparr>"

definition store1 :: point_store where
  "store1 = store_new (demo_link port1) points1"

definition mail1 :: mailboxes where
  "mail1 = mailboxes_new (demo_link port1)"

definition state1 :: stream_state where
  "state1 = \<lparr>ls_decoder = \<lparr>fd_limits = \<lparr>lim_frame = 2048, lim_payload = 2048\<rparr>, fd_buffer = []\<rparr>,
     ls_schedule = \<lparr>sy_due = 0, sy_last_rx = 0, sy_partial_since = None, sy_period = 10 ^ 9, sy_gap = 50 * 10 ^ 6,
       sy_frame_timeout = 2 * 10 ^ 9\<rparr>,
     ls_last_valid = 0, ls_timed_out = False, ls_received_valid = False, ls_store = store1, ls_mail = mail1\<rparr>"

definition demo_wire :: bytes where
  "demo_wire = framed demo_codec 105 demo_payload"

definition turn1 :: turn_env where
  "turn1 = \<lparr>tn_read = Ok demo_wire, tn_read_at = 10, tn_utc = 7, tn_now = 20, tn_calls = [], tn_sent_at = 20\<rparr>"

lemma demo_start: "stream_start cfg1 0 store1 mail1 = Ok state1"
  by (simp add: stream_start_def cfg1_def state1_def decoder_new_def stream_limits_def limits_validate_def port1_def demo_link_port_def
    sync_schedule_new_def demo_settings_def from_millis_def)

lemma demo_encoded: "encode demo_codec demo_payload (stream_limits cfg1) = Ok demo_wire" "length demo_wire = 115"
proof -
  have p: "length demo_payload = 105" using demo_mail_slot(2) by (simp add: demo_complete_def demo_payload_def)
  show "encode demo_codec demo_payload (stream_limits cfg1) = Ok demo_wire"
    using encode_framed[of "stream_limits cfg1" demo_payload demo_payload demo_codec "0 # demo_payload"] p demo_not_constant
    by (simp add: stream_limits_def cfg1_def port1_def demo_link_port_def limits_validate_def demo_codec_def demo_wire_def)
  show "length demo_wire = 115" using p by (simp add: demo_wire_def framed_def Let_def)
qed

lemma demo_members: "port1 \<in> set (lc_ports (demo_link port1))" "demo_task \<in> set (pc_tasks port1)"
  "from_protocol (tc_protocol demo_task) = Some Unit9To1" "tc_id demo_task = ''report''" "pc_id port1 = ''link''"
  by (simp_all add: demo_link_def port1_def demo_link_port_def demo_task_def from_protocol_def)

lemma cfg1_fields: "sv_codec cfg1 = demo_codec" "sv_layout cfg1 = Unit9To1" "pc_id (sv_port cfg1) = ''link''" "sv_task cfg1 = demo_task"
  "from_millis (st_receive_timeout_ms (sv_settings cfg1)) = 5 * 10 ^ 9"
  by (simp_all add: cfg1_def demo_members demo_settings_def from_millis_def)

lemma demo_connection: "connection demo_config_env cfg1 state1"
  unfolding connection_def
  using demo_link_parse demo_members demo_start[unfolded store1_def mail1_def] store_run.start mail_run.start stream_run.start[of cfg1 state1]
  by (intro exI[of _ "[]"] exI[of _ "demo_link port1"] exI[of _ points1] exI[of _ 0] exI[of _ "store_new (demo_link port1) points1"]
    exI[of _ "mailboxes_new (demo_link port1)"] exI[of _ state1]) (simp add: cfg1_def)

lemma demo_turn:
  "\<exists>st'. stream_turn cfg1 turn1 state1 = Some (Ok (True, st', [])) \<and> shows_payload Unit9To1 demo_payload 7 (ls_store st')"
proof -
  have "demo_wire \<noteq> []" "length demo_wire \<le> 1024" using demo_encoded(2) by auto
  moreover have "validate_payload Unit9To1 demo_payload = Ok ()"
    using demo_mail_slot(2) by (simp add: validate_payload_def demo_complete_def demo_payload_def u16_at_def)
  ultimately show ?thesis
    using peer_frame_shown[OF _ demo_connection, of demo_payload "stream_limits cfg1" demo_wire demo_wire turn1] demo_codec_ok demo_encoded(1)
    by (simp add: cfg1_def turn1_def state1_def demo_settings_def from_millis_def)
qed

text \<open>Unit 1 with a whole snapshot of zeros, which it sends when the line has been idle for sixty milliseconds.\<close>

definition zero_payload :: bytes where
  "zero_payload = empty_transmit_payload Unit1To9"

definition mail2 :: mailboxes where
  "mail2 = snd (submit_json (\<lambda>_. Ok (0, hex_text zero_payload)) 0 ''link'' [] mail1)"

definition zero_wire :: bytes where
  "zero_wire = framed demo_codec 1156 zero_payload"

definition state2 :: stream_state where
  "state2 = state1\<lparr>ls_mail := mail2\<rparr>"

definition turn2 :: turn_env where
  "turn2 = \<lparr>tn_read = Err IO_TimedOut, tn_read_at = 60000000, tn_utc = 7, tn_now = 60000000,
     tn_calls = [\<lparr>lk_cancelled = False, lk_now = 60000000, lk_io = Ok (length zero_wire)\<rparr>], tn_sent_at = 61000000\<rparr>"

lemma zero_payload_facts: "length zero_payload = 1156" "validate_payload Unit1To9 zero_payload = Ok ()" "run_length zero_payload = 0 # zero_payload"
proof -
  have z: "zero_payload = 1 # 0 # replicate 1154 0"
    by (simp add: zero_payload_def empty_transmit_payload_def u16_to_le_bytes_def)
  show l: "length zero_payload = 1156" by (simp add: z)
  show "validate_payload Unit1To9 zero_payload = Ok ()" by (simp add: validate_payload_def u16_at_def z)
  have "zero_payload ! 0 \<noteq> zero_payload ! 1" by (simp add: z)
  moreover have "replicate (length zero_payload) (hd zero_payload) ! 0 = replicate (length zero_payload) (hd zero_payload) ! 1"
    by (simp add: l)
  ultimately show "run_length zero_payload = 0 # zero_payload" by (auto simp: run_length_def)
qed

lemma mail2_slot:
  "mail2 ''link'' = Some ((slot_new (demo_settings ''unit1-to9-v1'') True)\<lparr>sl_revision := 1, sl_snapshot := Some (zero_payload, 0), sl_atomic_mode := True\<rparr>)"
proof -
  have "mail1 ''link'' = Some (slot_new (demo_settings ''unit1-to9-v1'') True)"
    by (simp add: mail1_def mailboxes_new_def demo_link_def port1_def demo_link_port_def demo_task_def)
  then show ?thesis
    using zero_payload_facts(2)
    by (simp add: mail2_def submit_json_text submit_def on_slot_def transmitting_def slot_new_def demo_settings_def submit_slot_def
      slot_layout_def from_protocol_def checked_inc_def)
qed

lemma zero_encoded: "encode demo_codec zero_payload (stream_limits cfg1) = Ok zero_wire" "zero_wire \<noteq> []"
  using encode_framed[of "stream_limits cfg1" zero_payload zero_payload demo_codec "0 # zero_payload"] zero_payload_facts
  by (simp_all add: stream_limits_def cfg1_def port1_def demo_link_port_def limits_validate_def demo_codec_def zero_wire_def)
     (simp add: framed_def Let_def u16_to_le_bytes_def)

lemma write_whole:
  "frame \<noteq> [] \<Longrightarrow> now < deadline \<Longrightarrow> write_once deadline [\<lparr>lk_cancelled = False, lk_now = now, lk_io = Ok (length frame)\<rparr>] frame = Some (Ok (), frame)"
  by (cases frame) (simp_all add: write_once_def)

lemma connection2: "connection demo_config_env cfg1 state2"
proof -
  have "mail_run mail1 mail2" unfolding mail2_def by (rule mail_run.submit[OF mail_run.start])
  then have "stream_run cfg1 state1 state2"
    using stream_run.mail[OF stream_run.start, of state1 mail2 cfg1] by (simp add: state2_def state1_def)
  then show ?thesis
    unfolding connection_def
    using demo_link_parse demo_members demo_start[unfolded store1_def mail1_def] store_run.start mail_run.start
    by (intro exI[of _ "[]"] exI[of _ "demo_link port1"] exI[of _ points1] exI[of _ 0] exI[of _ "store_new (demo_link port1) points1"]
      exI[of _ "mailboxes_new (demo_link port1)"] exI[of _ state1]) (simp add: cfg1_def)
qed

lemma turn2_sends: "\<exists>st'. stream_turn cfg1 turn2 state2 = Some (Ok (True, st', zero_wire))"
proof -
  have "current ''link'' 60000000 mail2 = Some zero_payload"
    by (simp add: current_def mail2_slot transmitting_def slot_new_def demo_settings_def max_age_def from_millis_def)
  moreover have "receive_step cfg1 turn2 state2 = Ok (True, state2)" by (simp add: receive_step_def turn2_def transient_def)
  moreover have "expire_step cfg1 turn2 state2 = Ok state2"
    by (simp add: expire_step_def partial_expired_def state2_def state1_def)
  moreover have "silence_step cfg1 turn2 state2 = Ok state2"
    by (simp add: silence_step_def state2_def state1_def turn2_def cfg1_def demo_settings_def from_millis_def)
  moreover have "may_send (tn_now turn2) (ls_schedule state2)" by (simp add: may_send_def turn2_def state2_def state1_def)
  moreover have "write_once (tn_now turn2 + from_millis (pc_write_timeout_ms (sv_port cfg1))) (tn_calls turn2) zero_wire = Some (Ok (), zero_wire)"
    using write_whole[OF zero_encoded(2)] by (simp add: turn2_def cfg1_def port1_def demo_link_port_def from_millis_def)
  moreover have "pc_id (sv_port cfg1) = ''link''" "ls_mail state2 = mail2" "tn_now turn2 = 60000000" "sv_codec cfg1 = demo_codec"
    by (simp_all add: cfg1_def demo_members state2_def turn2_def)
  ultimately show ?thesis using zero_encoded(1) by (simp add: stream_turn_def send_step_def Let_def)
qed

end
