(* ===== verification/Link_Properties.thy ===== *)
theory Link_Properties
  imports Link_Liveness Link_Examples
begin

text \<open>
  The correctness of the unit link: its point store, its frames, its mailboxes, the synchronisation of two
  units and the supervision of a connection.
\<close>

section \<open>Points\<close>

text \<open>C14 Typed samples: whatever the workers of the link program do to the store of an accepted configuration, every configured point
  keeps a sample; its value has the configured type, a floating point value is finite and a text at most 16 KiB long, a sample that
  is not good shows the zero of its type, and a good one has a source time.\<close>

theorem link_samples_typed:
  assumes "link_parse env ctext ptext = Ok (config, points)" and "store_run (store_new config points) s" and "d \<in> set points"
  shows "\<exists>sa. store_sample (pd_name d) s = Ok sa \<and> data_type_of (sa_value sa) = pd_data_type d \<and> value_valid (sa_value sa)
    \<and> (if sa_quality sa = Good then sa_source_timestamp sa \<noteq> None else sa_value sa = zero_value (pd_data_type d))"
proof -
  have d: "ps_definitions s (pd_name d) = Some d"
    using store_run_frame(1)[OF assms(2)] store_new_definitions[OF link_parseE(1)[OF assms(1)] assms(3)] by simp
  have ok: "store_ok s" using store_run_ok[OF assms(2) store_new_ok] .
  then have "dom (ps_samples s) = dom (ps_definitions s)" by (simp add: store_ok_def)
  with d obtain sa where "ps_samples s (pd_name d) = Some sa" by blast
  with ok d show ?thesis by (auto simp: store_ok_def sample_ok_def store_sample_def)
qed

lemma demo_point: "definition_of (\<lambda>_. ''field'') ''report'' (field_new ''AES.GMM1'' 7 35 Hex) \<in> set points1"
  by (simp add: points1_def unit_definitions_def layout_fields_def)

theorem link_samples_typed_witness:
  "store_run store1 store1 \<and> (\<exists>sa. store_sample ''DATA.AES.GMM1'' store1 = Ok sa \<and> data_type_of (sa_value sa) = DT_String)"
  using link_samples_typed[OF demo_link_parse _ demo_point, folded store1_def, of store1]
  by (auto simp: store_run.start definition_of_def data_name_def field_new_def)

text \<open>All or nothing: a batch for a configured task is accepted exactly when it names every point of the task once and nothing
  else, each with a value of its type that is valid; then every point of the task shows its update, and every other point and every
  other task is as it was.\<close>

theorem publish_all_or_nothing:
  assumes "link_parse env ctext ptext = Ok (config, points)" and "store_run (store_new config points) s"
    and "port \<in> set (lc_ports config)" and "task \<in> set (pc_tasks port)"
  shows "case publish utc (tc_id task) us time s of
      Inl e \<Rightarrow> \<not> (distinct (map pu_name us) \<and> pu_name ` set us = pd_name ` {d \<in> set points. pd_task_id d = tc_id task}
        \<and> (\<forall>u \<in> set us. \<exists>d \<in> set points. pd_name d = pu_name u \<and> pd_data_type d = data_type_of (pu_value u) \<and> value_valid (pu_value u)))
    | Inr s' \<Rightarrow> distinct (map pu_name us) \<and> pu_name ` set us = pd_name ` {d \<in> set points. pd_task_id d = tc_id task}
        \<and> (\<forall>u \<in> set us. ps_samples s' (pu_name u) = Some (published_sample time u))
        \<and> (\<forall>n. n \<notin> pu_name ` set us \<longrightarrow> ps_samples s' n = ps_samples s n)"
proof -
  note dist = link_parseE(1)[OF assms(1)] and fr = store_run_frame[OF assms(2)]
  have ok: "store_ok s" using store_run_ok[OF assms(2) store_new_ok] .
  let ?mine = "filter (\<lambda>d. pd_task_id d = tc_id task) points"
  have names: "ps_tasks s (tc_id task) = Some (map pd_name ?mine)" using fr(2) store_new_tasks[OF assms(3,4)] by simp
  have defs: "ps_definitions s (pd_name d) = Some d" if "d \<in> set points" for d
    using fr(1) store_new_definitions[OF dist that] by simp
  have set_mine: "set (map pd_name ?mine) = pd_name ` {d \<in> set points. pd_task_id d = tc_id task}" by simp
  show ?thesis
  proof (cases "publish utc (tc_id task) us time s")
    case (Inr s')
    then have "publish utc (tc_id task) us time s = Ok s'" by simp
    note ps = publish_samples[OF ok this]
    obtain ns where ns: "ps_tasks s (tc_id task) = Some ns" "length ns = length us"
      "check_updates (ps_definitions s) (tc_id task) [] us = Ok ()" using Inr by (auto elim: publishE)
    from batch_complete[OF ok this] names ns(1) set_mine ps Inr show ?thesis by (auto simp del: set_map)
  next
    case (Inl e)
    have False if b: "distinct (map pu_name us)" "pu_name ` set us = pd_name ` {d \<in> set points. pd_task_id d = tc_id task}"
      "\<forall>u \<in> set us. \<exists>d \<in> set points. pd_name d = pu_name u \<and> pd_data_type d = data_type_of (pu_value u) \<and> value_valid (pu_value u)"
    proof -
      have "distinct (map pd_name ?mine)" using dist by (rule distinct_map_filter)
      from distinct_card[OF this] distinct_card[OF b(1)] have "length ?mine = length us" using b(2) by simp
      moreover have "check_updates (ps_definitions s) (tc_id task) [] us = Ok ()"
      proof (rule check_updates_accepts[OF b(1)])
        fix u assume u: "u \<in> set us"
        then have "pu_name u \<in> pd_name ` {d \<in> set points. pd_task_id d = tc_id task}" using b(2) by blast
        then obtain d where d: "d \<in> set points" "pd_name d = pu_name u" "pd_task_id d = tc_id task" by auto
        moreover obtain d' where "d' \<in> set points" "pd_name d' = pu_name u" "pd_data_type d' = data_type_of (pu_value u)"
          "value_valid (pu_value u)" using b(3) u by blast
        moreover from this d have "d' = d" using defs by (metis option.inject)
        ultimately show "\<exists>d. ps_definitions s (pu_name u) = Some d \<and> pd_task_id d = tc_id task
            \<and> pd_data_type d = data_type_of (pu_value u) \<and> value_valid (pu_value u)" using defs[OF d(1)] by metis
      qed simp
      ultimately show False using Inl names by (simp add: publish_def)
    qed
    with Inl show ?thesis by auto
  qed
qed

text \<open>C17 Reports fit: a configuration that has been accepted takes every valid report. For each of its tasks with a report
  layout, every payload of the right length and block number is published, whatever happened to the store before.\<close>

theorem accepted_configuration_takes_reports:
  assumes "link_parse env ctext ptext = Ok (config, points)" and "store_run (store_new config points) s"
    and "port \<in> set (lc_ports config)" and "task \<in> set (pc_tasks port)" and "from_protocol (tc_protocol task) = Some l"
    and "length payload = payload_len l" and "u16_at payload 0 = unat (layout_block l)"
  shows "\<exists>us s'. report_response l payload = Ok (Matched us) \<and> publish utc (tc_id task) us time s = Ok s'"
proof -
  have v: "validate_payload l payload = Ok ()" using assms(6,7) by (simp add: validate_payload_def)
  with report_published[OF assms(1,3,4,5) v assms(2)] report_matched[OF v] show ?thesis by blast
qed

theorem accepted_configuration_takes_reports_witness:
  "length demo_payload = payload_len Unit9To1 \<and>
   (\<exists>us s'. report_response Unit9To1 demo_payload = Ok (Matched us) \<and> publish 5 ''report'' us 5 store1 = Ok s')"
proof -
  have "port1 \<in> set (lc_ports (demo_link port1))" "demo_task \<in> set (pc_tasks port1)" "from_protocol (tc_protocol demo_task) = Some Unit9To1"
    by (simp_all add: demo_link_def port1_def demo_link_port_def demo_task_def from_protocol_def)
  moreover have "length demo_payload = payload_len Unit9To1" "u16_at demo_payload 0 = unat (layout_block Unit9To1)"
    using demo_mail_slot(2) by (simp_all add: demo_complete_def demo_payload_def u16_at_def)
  ultimately show ?thesis
    using accepted_configuration_takes_reports[OF demo_link_parse store_run.start, of port1 demo_task Unit9To1 demo_payload 5 5, folded store1_def]
    by (simp add: demo_task_def)
qed

section \<open>Frames\<close>

lemma fold_results:
  "fr_payloads (foldr add_result rs feed_default) = concat (map fr_payloads rs)"
  "fr_rejected (foldr add_result rs feed_default) = sum_list (map fr_rejected rs)"
  "fr_discarded (foldr add_result rs feed_default) = sum_list (map fr_discarded rs)"
  by (induction rs) (simp_all add: add_result_def)

text \<open>C15 Frames in any pieces: payloads that are encoded and sent one behind the other arrive complete and in order, in whatever
  pieces, empty ones included, the line hands the bytes over, as long as no single piece is longer than the frame limit of the decoder;
  nothing is rejected or discarded, and the decoder is left empty.\<close>

theorem frames_arrive_in_any_pieces:
  assumes "codec_ok c" and "decoder_new l = Ok d" and "list_all2 (\<lambda>p f. encode c p l = Ok f) payloads frames"
    and "concat chunks = concat frames" and "\<forall>chunk \<in> set chunks. length chunk \<le> lim_frame l"
  shows "\<exists>rs d'. feed_all c chunks d = (map Ok rs, d') \<and> concat (map fr_payloads rs) = payloads
    \<and> sum_list (map fr_rejected rs) = 0 \<and> sum_list (map fr_discarded rs) = 0 \<and> \<not> has_partial_frame d'"
proof -
  note d = decoder_new_ok[OF assms(2), of c]
  from feed_all_loop[of c d chunks] d assms(5) obtain rs d' where f: "feed_all c chunks d = (map Ok rs, d')"
    "feed_loop c l (concat chunks) feed_default = (fd_buffer d', foldr add_result rs feed_default)" by auto
  from f(2) feed_loop_frames[OF assms(1,3), of feed_default] assms(4)
  have "fd_buffer d' = []" "foldr add_result rs feed_default = \<lparr>fr_payloads = payloads, fr_rejected = 0, fr_discarded = 0\<rparr>"
    by simp_all
  with f(1) fold_results[of rs] show ?thesis by (auto simp: has_partial_frame_def)
qed

theorem frames_arrive_in_any_pieces_witness:
  "\<exists>rs d'. feed_all demo_codec [take 3 frame_a, [], drop 3 frame_a @ take 5 frame_b, drop 5 frame_b] demo_decoder = (map Ok rs, d')
    \<and> concat (map fr_payloads rs) = [[1, 2, 3], replicate 20 7]"
  using frames_arrive_in_any_pieces[OF demo_codec_ok demo_decoder_new, of "[[1, 2, 3], replicate 20 7]" "[frame_a, frame_b]"
      "[take 3 frame_a, [], drop 3 frame_a @ take 5 frame_b, drop 5 frame_b]"] demo_frames
  by (auto simp: demo_limits_def frame_a_def frame_b_def)

lemma feed_all_limits: "feed_all c chunks d = (rs, d') \<Longrightarrow> fd_limits d' = fd_limits d"
proof (induction chunks arbitrary: d rs)
  case (Cons chunk chunks)
  obtain r d1 where f: "feed c chunk d = (r, d1)" by fastforce
  then have "fd_limits d1 = fd_limits d" by (auto simp: feed_def decoder_reset_def Let_def split: if_splits prod.splits)
  with Cons f show ?case by (auto split: prod.splits)
qed simp

text \<open>C16 Every byte is accounted for: the bytes of any stream, fed in any pieces of which none is longer than the frame limit, are
  divided into frames that passed the checks of their lengths, their checksum and their compression, whose payloads are passed on in
  that order; other bytes, whose number is counted; and a rest that waits in the buffer, shorter than the frame limit. No call on such a
  piece fails, and the same pieces result from the whole stream in one go. A call on a longer piece does fail: it drops the rest with
  the piece and leaves the decoder as it was created.\<close>

theorem stream_bytes_accounted:
  assumes "decoder_new l = Ok d" and "\<forall>chunk \<in> set chunks. length chunk \<le> lim_frame l"
  shows "\<exists>rs d' pieces. feed_all c chunks d = (map Ok rs, d')
    \<and> map Ok (concat (map fr_payloads rs)) = map (\<lambda>(_, f). decode c f l) (filter fst pieces)
    \<and> sum_list (map fr_discarded rs) = length (concat (map snd (filter (\<lambda>p. \<not> fst p) pieces)))
    \<and> (\<forall>(good, f) \<in> set pieces. good \<longrightarrow> u32_of_le_bytes (drop (length f - 4) f) = cd_crc c (take (length f - 4) f))
    \<and> concat (map snd pieces) @ fd_buffer d' = concat chunks \<and> length (fd_buffer d') < lim_frame l
    \<and> feed_loop c l (concat chunks) feed_default = (fd_buffer d', foldr add_result rs feed_default)
    \<and> (\<forall>chunk. lim_frame l < length chunk \<longrightarrow> feed c chunk d' = (Err BufferLimit, d))"
proof -
  note d = decoder_new_ok[OF assms(1), of c]
  from feed_all_loop[of c d chunks] d assms(2) obtain rs d' where f: "feed_all c chunks d = (map Ok rs, d')"
    "feed_loop c l (concat chunks) feed_default = (fd_buffer d', foldr add_result rs feed_default)" by auto
  from feeding.loop_from_default[of c l "concat chunks"] obtain pieces where
    p: "accounts (\<lambda>f. decode c f l) pieces (foldr add_result rs feed_default)" "concat (map snd pieces) @ fd_buffer d' = concat chunks"
    unfolding f(2) by auto
  have "limits_validate l = Ok ()" using assms(1) by (auto simp: decoder_new_def)
  then have "length (fd_buffer d') < lim_frame l"
    using feeding.loop_waits[of c l "concat chunks" feed_default] f(2) by (intro waiting_length) simp_all
  moreover have "u32_of_le_bytes (drop (length f - 4) f) = cd_crc c (take (length f - 4) f)" if "(True, f) \<in> set pieces" for f
  proof -
    have "decode c f l \<in> set (map (\<lambda>(_, f). decode c f l) (filter fst pieces))" using that by force
    then obtain p where "decode c f l = Ok p" unfolding p(1)[unfolded accounts_def, THEN conjunct1, symmetric] by auto
    then show ?thesis by (rule decode_checked(3))
  qed
  moreover have "feed c chunk d' = (Err BufferLimit, d)" if "lim_frame l < length chunk" for chunk
    using that feed_all_limits[OF f(1)] assms(1) by (auto simp: feed_def decoder_reset_def decoder_new_def)
  ultimately show ?thesis using f p
    by (intro exI[of _ rs] exI[of _ d'] exI[of _ pieces]) (auto simp: accounts_def fold_results)
qed

theorem stream_bytes_accounted_witness:
  "\<exists>rs d'. feed_all demo_codec [[1, 2], [3]] demo_decoder = (map Ok rs, d') \<and> length (fd_buffer d') < 64
    \<and> feed demo_codec (replicate 65 0) d' = (Err BufferLimit, demo_decoder)"
  using stream_bytes_accounted[OF demo_decoder_new, of "[[1, 2], [3]]" demo_codec] by (auto simp: demo_limits_def)

text \<open>Recovery: when a partial frame has expired, a complete frame behind the bytes that looked like its beginning is not lost:
  unless a frame that passes all checks starts before it and hides it, its payload is passed on; and here too only payloads of
  checked frames are passed on, every other byte is counted, and the buffer is empty.\<close>

theorem hidden_frame_recovered:
  assumes "codec_ok c" and "encode c payload (fd_limits d) = Ok f" and "fd_buffer d = noise @ f @ rest"
    and "\<forall>k < length noise. \<not> frame_at c (fd_limits d) (drop k (noise @ f @ rest))"
  shows "payload \<in> set (fr_payloads (fst (recover_expired c d))) \<and> \<not> has_partial_frame (snd (recover_expired c d))
    \<and> (\<exists>pieces. accounts (\<lambda>f. decode c f (fd_limits d)) pieces (fst (recover_expired c d)) \<and> concat (map snd pieces) = fd_buffer d)"
  using recover_hidden[OF assms(1,2), of noise rest feed_default] assms(3,4)
    recovering.loop_from_default[of c "fd_limits d" "fd_buffer d"]
  by (auto simp: recover_expired_def has_partial_frame_def)

section \<open>Two units\<close>

text \<open>C11 From unit to unit: an input that has been written at one unit is shown at the other. When the snapshot of a unit is sent,
  and the last piece of its frame arrives at a connection of the peer, whatever the limits of the two on frames and payloads, the turn
  of the peer publishes it: the point of that input is good, has the time of the turn and shows the value that was written, hexadecimal
  text up to the case of its letters. The turn must not be delayed: between the read and the end of its work on the bytes less time
  passes than the receive timeout and than the idle gap of the line. After a longer stall the turn goes on to report the silence or to
  send its own snapshot.\<close>

theorem input_shown_at_peer:
  assumes "codec_ok (sv_codec cfg)" and "mail_run (mailboxes_new peer) m" and "current pport pnow m = Some payload"
    and "m pport = Some s" and "map_of (sl_fields s) name = Some (v, t0, utc0)" and "slot_layout s = Some (sv_layout cfg)"
    and "encode (sv_codec cfg) payload plimits = Ok frame"
    and "connection cenv cfg st" and "fd_buffer (ls_decoder st) @ chunk = frame" and "chunk \<noteq> []" and "length chunk \<le> 1024"
    and "tn_read env = Ok chunk" and "tn_now env - tn_read_at env < from_millis (st_receive_timeout_ms (sv_settings cfg))"
    and "tn_now env - tn_read_at env < sy_gap (ls_schedule st)"
  shows "\<exists>st' w. stream_turn cfg env st = Some (Ok (True, st', [])) \<and> same_input v w
    \<and> store_sample name (ls_store st') = Ok \<lparr>sa_value = w, sa_quality = Good, sa_source_timestamp = Some (tn_utc env), sa_error = []\<rparr>"
proof -
  have mok: "mailboxes_ok m" using mail_run_ok[OF assms(2) mailboxes_new_ok] .
  have v: "validate_payload (sv_layout cfg) payload = Ok ()"
    using current_explicit[OF mok assms(3)] assms(4,6) by auto
  have fields: "sl_fields s \<noteq> []" using assms(5) by auto
  have "slot_ok s" using mok assms(4) by (simp add: mailboxes_ok_def)
  then have io: "inputs_ok (sv_layout cfg) (sl_field_payload s) (sl_fields s)" "payload = sl_field_payload s"
    using assms(3,4,6) fields by (auto simp: slot_ok_def current_def split: if_splits)
  with assms(5) obtain f where f: "f \<in> set (transmit_fields (sv_layout cfg))" "name = data_name f"
    "same_input v (field_value f (slice f payload))" unfolding inputs_ok_def by metis
  from peer_frame_shown[OF assms(1,8) v assms(7,9-14)] f transmit_field[OF f(1)] show ?thesis
    by (auto simp: shows_payload_def store_sample_def)
qed

theorem input_shown_at_peer_witness:
  "\<exists>st' w. stream_turn cfg1 turn1 state1 = Some (Ok (True, st', [])) \<and> same_input (LV_UInt32 2) w
    \<and> store_sample ''DATA.Buildings.91UBH.Fire'' (ls_store st') =
      Ok \<lparr>sa_value = w, sa_quality = Good, sa_source_timestamp = Some 7, sa_error = []\<rparr>"
proof -
  note slot = demo_mail_slot(2)[unfolded demo_complete_def]
  have turn: "tn_read turn1 = Ok demo_wire" "tn_utc turn1 = 7" "tn_now turn1 - tn_read_at turn1 = 10"
    "fd_buffer (ls_decoder state1) = []" "sy_gap (ls_schedule state1) = 50 * 10 ^ 6" by (simp_all add: turn1_def state1_def)
  have "demo_wire \<noteq> []" "length demo_wire \<le> 1024" using demo_encoded(2) by auto
  then show ?thesis
    using input_shown_at_peer[OF _ demo_mail_run[unfolded demo_mail_start_def] demo_current demo_mail_slot(1), where cfg = cfg1
      and name = "''DATA.Buildings.91UBH.Fire''" and v = "LV_UInt32 2" and ?t0.0 = 0 and ?utc0.0 = 0 and plimits = "stream_limits cfg1"
      and frame = demo_wire and chunk = demo_wire and st = state1 and env = turn1 and cenv = demo_config_env, unfolded cfg1_fields turn]
      slot demo_encoded(1) demo_codec_ok demo_connection by simp
qed

text \<open>C12 Only explicit, complete and fresh snapshots are sent: what a turn puts on the line is the beginning of the one frame of a
  snapshot that was supplied whole, or of which every single input was written, less than the configured age ago; no frame of the
  peer is coming in; and when the connection goes on the frame is complete and counted.\<close>

theorem only_fresh_snapshots_sent:
  assumes "connection cenv cfg st" and "stream_turn cfg env st = Some (Ok (go, st', taken))" and "taken \<noteq> []"
  shows "\<exists>s l payload frame rest. ls_mail st (pc_id (sv_port cfg)) = Some s \<and> transmitting s \<and> slot_layout s = Some l
    \<and> ((\<exists>t0. sl_snapshot s = Some (payload, t0) \<and> tn_now env - t0 < max_age s)
       \<or> (\<forall>f \<in> set (transmit_fields l). \<exists>v t0 utc. map_of (sl_fields s) (data_name f) = Some (v, t0, utc)
            \<and> tn_now env - t0 < max_age s \<and> same_input v (field_value f (slice f payload))))
    \<and> validate_payload l payload = Ok () \<and> encode (sv_codec cfg) payload (stream_limits cfg) = Ok frame \<and> frame = taken @ rest
    \<and> \<not> has_partial_frame (ls_decoder st')
    \<and> (go \<longrightarrow> rest = [] \<and> ls_mail st' (pc_id (sv_port cfg)) = Some (s\<lparr>sl_sent := saturating_inc64 (sl_sent s), sl_error := []\<rparr>))"
  using assms(2)
proof (cases rule: stream_turnE)
  case lost
  with assms(3) show ?thesis by simp
next
  case (on st1 st2 st3)
  note c = connection_ok[OF assms(1)]
  have ok: "stream_ok cfg st3" "ls_mail st3 = ls_mail st"
    using receive_step_ok[OF c(1) on(1)] expire_step_ok[OF _ on(2)] silence_step_ok[OF _ on(3)] by metis+
  have line: "line_ok st3" using receive_line[OF c(3) on(1)] expire_line[OF _ on(2)] silence_line[OF _ on(3)] by blast
  from on(4) show ?thesis
  proof (cases rule: send_stepE)
    case idle
    with assms(3) show ?thesis by simp
  next
    case (wrote payload frame r m y)
    have "mailboxes_ok (ls_mail st3)" using ok(1) by (simp add: stream_ok_def)
    from current_explicit[OF this wrote(2)] obtain s l where s: "ls_mail st (pc_id (sv_port cfg)) = Some s" "transmitting s"
      "slot_layout s = Some l" "validate_payload l payload = Ok ()"
      "(\<exists>t0. sl_snapshot s = Some (payload, t0) \<and> tn_now env - t0 < max_age s)
       \<or> (\<forall>f \<in> set (transmit_fields l). \<exists>v t0 utc. map_of (sl_fields s) (data_name f) = Some (v, t0, utc)
            \<and> tn_now env - t0 < max_age s \<and> same_input v (field_value f (slice f payload)))"
      unfolding ok(2) by blast
    from write_loop_taken[OF wrote(4)[unfolded write_once_def]] obtain rest where
      rest: "frame = taken @ rest" "r = Ok () \<longrightarrow> rest = []" by blast
    have "\<not> has_partial_frame (ls_decoder st3)" using line wrote(1) by (auto simp: line_ok_def may_send_def)
    then have "\<not> has_partial_frame (ls_decoder st')" using wrote(6) by (auto split: if_splits)
    moreover have "rest = [] \<and> ls_mail st' (pc_id (sv_port cfg)) = Some (s\<lparr>sl_sent := saturating_inc64 (sl_sent s), sl_error := []\<rparr>)" if go
      using that wrote(5,6) rest(2) s(1) ok(2) by (auto simp: sync_result_def)
    ultimately show ?thesis using s wrote(3) rest(1) by blast
  qed
qed

theorem only_fresh_snapshots_sent_witness:
  "zero_wire \<noteq> [] \<and> (\<exists>s payload frame rest. ls_mail state2 ''link'' = Some s \<and> transmitting s
    \<and> encode demo_codec payload (stream_limits cfg1) = Ok frame \<and> frame = zero_wire @ rest)"
proof -
  obtain st' where "stream_turn cfg1 turn2 state2 = Some (Ok (True, st', zero_wire))" using turn2_sends by blast
  from only_fresh_snapshots_sent[OF connection2 this zero_encoded(2), unfolded cfg1_fields] zero_encoded(2) show ?thesis by metis
qed



section \<open>Workers\<close>

text \<open>C18 A link that is down shows it: when a worker cannot open its port, loses its connection or stops, the store accepts it, and
  every point of its tasks is without communication or out of service and shows the zero of its type.\<close>

theorem lost_link_shown:
  assumes "link_parse env ctext ptext = Ok (config, points)" and "port \<in> set (lc_ports config)" and "set tasks \<subseteq> set (pc_tasks port)"
    and "store_run (store_new config points) (lw_store w)"
    and "r \<in> {port_open_failed port tasks message w, stream_lost port tasks valid w, poll_lost port tasks w, worker_stopped port tasks w}"
  shows "\<exists>w'. r = Ok w' \<and> (\<forall>d \<in> set points. pd_task_id d \<in> tc_id ` set tasks \<longrightarrow>
     (\<exists>sa. ps_samples (lw_store w') (pd_name d) = Some sa \<and> sa_quality sa \<in> {NoCommunication, OutOfService}
       \<and> sa_value sa = zero_value (pd_data_type d)))"
proof -
  note rep = reported[OF link_parseE(1)[OF assms(1)] assms(2-4)]
  have nc: "NoCommunication \<in> {NoCommunication, OutOfService}" "OutOfService \<in> {NoCommunication, OutOfService}" by simp_all
  obtain p where p: "store_port (pc_id port) (lw_store w) = Ok p" using port_state_accepted(2)[OF assms(2,4)] by blast
  have "\<exists>w'. r = Ok w' \<and> link_down points tasks (lw_store w')"
    using assms(5)
  proof (elim insertE emptyE)
    assume "r = port_open_failed port tasks message w"
    with rep(2)[OF nc(1), of "''OpenFailed''" message False message] show ?thesis by (auto simp: port_open_failed_def)
  next
    define e where "e = (if ps_last_error p = [] then ''serial connection lost'' else ps_last_error p)"
    assume "r = stream_lost port tasks valid w"
    with rep(1)[OF nc(1), of e "''Reconnecting''" e False] p show ?thesis by (auto simp: stream_lost_def Let_def simp flip: e_def)
  next
    assume "r = poll_lost port tasks w"
    with rep(1)[OF nc(1), of "''serial connection lost''" "''Reconnecting''" "''serial connection lost''" False] show ?thesis
      by (auto simp: poll_lost_def)
  next
    assume "r = worker_stopped port tasks w"
    with rep(1)[OF nc(2), of "''acquisition stopped''" "''Stopped''" "[]" False] show ?thesis by (auto simp: worker_stopped_def)
  qed
  then show ?thesis by (simp add: link_down_def)
qed

theorem lost_link_shown_witness:
  "\<exists>w'. port_open_failed port1 [demo_task] ''no device'' (worker_start port1 store1) = Ok w' \<and>
    (\<exists>sa. ps_samples (lw_store w') ''DATA.AES.GMM1'' = Some sa \<and> sa_quality sa \<in> {NoCommunication, OutOfService})"
proof -
  let ?w = "worker_start port1 store1"
  have "store_run (store_new (demo_link port1) points1) (lw_store ?w)" by (simp add: worker_start_def store1_def store_run.start)
  from lost_link_shown[OF demo_link_parse demo_members(1) _ this, of "[demo_task]" "port_open_failed port1 [demo_task] ''no device'' ?w" "''no device''"]
    demo_members(2,4) demo_point show ?thesis
    by (fastforce simp: definition_of_def data_name_def field_new_def)
qed

text \<open>C19 Reconnection delay: in the whole life of a worker of an accepted configuration, the delay before its next attempt lies between
  the configured minimum, at least 100 milliseconds, and the configured maximum, at most a minute; and a failed attempt doubles it
  up to the maximum.\<close>

theorem reconnect_delay_bounded:
  assumes "link_parse env ctext ptext = Ok (config, points)" and "port \<in> set (lc_ports config)" and "link_worker_run port tasks s w"
  shows "100 \<le> unat (pc_reconnect_min_ms port) \<and> unat (pc_reconnect_min_ms port) \<le> unat (lw_backoff w)
    \<and> unat (lw_backoff w) \<le> unat (pc_reconnect_max_ms port) \<and> unat (pc_reconnect_max_ms port) \<le> 60000
    \<and> (case port_open_failed port tasks message w of Inl e \<Rightarrow> True
       | Inr w' \<Rightarrow> unat (lw_backoff w') = min (2 * unat (lw_backoff w)) (unat (pc_reconnect_max_ms port)))"
proof -
  have b: "100 \<le> pc_reconnect_min_ms port" "pc_reconnect_max_ms port \<le> 60000" "pc_reconnect_min_ms port \<le> pc_reconnect_max_ms port"
    using parsed_port(2)[OF assms(1,2)] by (auto simp: timeouts_bad_def not_less)
  note w = worker_backoff[OF assms(3) b(3), unfolded backoff_ok_def]
  have u: "100 \<le> unat (pc_reconnect_min_ms port)" "unat (pc_reconnect_max_ms port) \<le> 60000"
    using b(1,2) by (simp_all add: word_le_nat_alt)
  have "unat (next_backoff port (lw_backoff w)) = min (2 * unat (lw_backoff w)) (unat (pc_reconnect_max_ms port))"
    using w u(2) unat_double[of "lw_backoff w"] by (simp add: next_backoff_def word_le_nat_alt min_def split: if_splits)
  then show ?thesis using w u by (auto simp: port_open_failed_def word_le_nat_alt split: sum.split)
qed

theorem reconnect_delay_bounded_witness:
  "unat (pc_reconnect_min_ms port1) \<le> unat (lw_backoff (worker_start port1 store1)) \<and> unat (pc_reconnect_max_ms port1) \<le> 60000"
  using reconnect_delay_bounded[OF demo_link_parse demo_members(1) link_worker_run.start, where tasks = "[demo_task]" and s = store1] by blast

text \<open>No task is starved: of the tasks of a polled port, one that is due is chosen within as many turns as there are tasks,
  whatever the others do and however soon they are due again.\<close>

theorem due_task_served:
  assumes "i < length (po_due y)" and "po_cursor y < length (po_due y)" and "\<forall>(now, finished, interval) \<in> set turns. po_due y ! i \<le> now"
    and "length turns = length (po_due y)"
  shows "Some i \<in> set (serve turns y)"
proof (rule serve_reaches[OF assms(1,2)])
  show "\<forall>(now, _, _) \<in> set turns. po_due y ! i \<le> now" using assms(3) by auto
  show "distance i y < length turns" using assms(1,2,4) by (auto simp: distance_def)
qed

end
