(* ===== verification/Operations_Base.thy ===== *)
theory Operations_Base
  imports Model Ordered_Map
begin

text \<open>
  Vocabulary of the operations service (operations/mod.rs): its error value, the JSON value of a
  request as the handlers read it (\<open>serde_json::Value\<close>), the argument reader, decimal revisions,
  and the access \<open>get_mut\<close> to an entry of an ordered map.
\<close>

section \<open>Errors\<close>

record op_error =
  oe_code :: string
  oe_message :: string
  oe_current_revision :: "string option"

definition op_error_new :: "string \<Rightarrow> string \<Rightarrow> op_error" where
  "op_error_new code message =
     \<lparr>oe_code = code, oe_message = message, oe_current_revision = None\<rparr>"

definition with_revision :: "op_error \<Rightarrow> string \<Rightarrow> op_error" where
  "with_revision e r = e\<lparr>oe_current_revision := Some r\<rparr>"

text \<open>\<open>Display\<close>.\<close>

definition op_error_text :: "op_error \<Rightarrow> string" where
  "op_error_text e = oe_code e @ '': '' @ oe_message e"

section \<open>Requests\<close>

text \<open>
  A number is \<open>J_UInt\<close> when \<open>as_u64\<close> accepts it; every other number keeps its text. An object has
  one entry per key.
\<close>

datatype json =
    J_Null
  | J_Bool bool
  | J_UInt u64
  | J_Number string
  | J_Str string
  | J_Array "json list"
  | J_Object "(string \<times> json) list"

fun json_get :: "json \<Rightarrow> string \<Rightarrow> json option" where
  "json_get (J_Object kvs) k = map_of kvs k"
| "json_get _ k = None"

text \<open>\<open>value[key]\<close>: \<open>Null\<close> where the key is absent.\<close>

definition json_index :: "json \<Rightarrow> string \<Rightarrow> json" where
  "json_index v k = (case json_get v k of Some x \<Rightarrow> x | None \<Rightarrow> J_Null)"

fun json_as_str :: "json \<Rightarrow> string option" where
  "json_as_str (J_Str s) = Some s"
| "json_as_str _ = None"

fun json_as_bool :: "json \<Rightarrow> bool option" where
  "json_as_bool (J_Bool b) = Some b"
| "json_as_bool _ = None"

fun json_as_u64 :: "json \<Rightarrow> u64 option" where
  "json_as_u64 (J_UInt n) = Some n"
| "json_as_u64 _ = None"

fun json_as_object :: "json \<Rightarrow> (string \<times> json) list option" where
  "json_as_object (J_Object kvs) = Some kvs"
| "json_as_object _ = None"

definition string_arg :: "json \<Rightarrow> string \<Rightarrow> op_error + string" where
  "string_arg request key =
     (case Option.bind (json_get request key) json_as_str of
        Some s \<Rightarrow>
          if s \<noteq> [] then Ok s
          else Err (op_error_new ''invalid_request'' (key @ '' must be a non-empty String''))
      | None \<Rightarrow> Err (op_error_new ''invalid_request'' (key @ '' must be a non-empty String'')))"

lemma string_arg_Ok [simp]:
  "string_arg request key = Inr s \<longleftrightarrow> json_get request key = Some (J_Str s) \<and> s \<noteq> []"
proof (cases "json_get request key")
  case (Some v)
  then show ?thesis by (cases v) (auto simp: string_arg_def)
qed (simp add: string_arg_def)

section \<open>Revisions\<close>

definition parse_u64 :: "string \<Rightarrow> u64 option" where
  "parse_u64 s = map_option of_nat (parse_unsigned (2 ^ 64) s)"

definition show_u64 :: "u64 \<Rightarrow> string" where
  "show_u64 n = show_nat (unat n)"

text \<open>\<open>u64::checked_add(1)\<close>.\<close>

definition u64_succ :: "u64 \<Rightarrow> u64 option" where
  "u64_succ n = (if n = 2 ^ 64 - 1 then None else Some (n + 1))"

lemma show_nat_no_plus: "show_nat n = c # cs \<Longrightarrow> c \<noteq> CHR ''+''"
  using show_nat_digits[of n] by (auto simp: is_ascii_digit_def code_of_def)

lemma unat_u64_bound: "unat (n :: u64) < 2 ^ 64"
proof -
  have "unat n < 2 ^ LENGTH(64)" by (rule unsigned_less)
  then show ?thesis by simp
qed

lemma no_plus_prefix: "c \<noteq> CHR ''+'' \<Longrightarrow> (case c # t of CHR ''+'' # u \<Rightarrow> u | _ \<Rightarrow> z) = z"
  by (auto split: char.split bool.split)

lemma parse_unsigned_show: "n < bound \<Longrightarrow> parse_unsigned bound (show_nat n) = Some n"
proof -
  assume n: "n < bound"
  obtain c t where e: "show_nat n = c # t" using show_nat_digits[of n] by (cases "show_nat n") auto
  have "(case show_nat n of CHR ''+'' # u \<Rightarrow> u | _ \<Rightarrow> show_nat n) = show_nat n"
    using show_nat_no_plus[OF e] unfolding e by (rule no_plus_prefix)
  then show ?thesis
    using n show_nat_digits[of n] by (simp only: parse_unsigned_def Let_def digits_val_show_nat) simp
qed

lemma parse_show_u64 [simp]: "parse_u64 (show_u64 n) = Some n"
  using parse_unsigned_show[OF unat_u64_bound[of n]] by (simp add: parse_u64_def show_u64_def)

lemma parse_u64_code [code]:
  "parse_u64 s =
     (let ds = (case s of c # t \<Rightarrow> if c = CHR ''+'' then t else s | [] \<Rightarrow> [])
      in if ds \<noteq> [] \<and> list_all is_ascii_digit ds \<and> int (digits_val ds) < 2 ^ 64
         then Some (of_nat (digits_val ds)) else None)"
proof -
  have p: "(case s of CHR ''+'' # t \<Rightarrow> t | _ \<Rightarrow> s) = (case s of c # t \<Rightarrow> if c = CHR ''+'' then t else s | [] \<Rightarrow> [])"
  proof (cases s)
    case (Cons c t)
    show ?thesis
    proof (cases "c = CHR ''+''")
      case False
      then show ?thesis unfolding Cons by (subst no_plus_prefix) simp_all
    qed (simp add: Cons)
  qed simp
  have "int n < 2 ^ 64 \<longleftrightarrow> n < 2 ^ 64" for n by simp
  then show ?thesis by (simp only: parse_u64_def parse_unsigned_def p Let_def) simp
qed

lemma show_u64_inject [simp]: "show_u64 m = show_u64 n \<longleftrightarrow> m = n"
  by (metis option.inject parse_show_u64)

lemma u64_succ_unat: "u64_succ n = Some m \<Longrightarrow> unat m = Suc (unat n)"
proof -
  assume "u64_succ n = Some m"
  then have m: "m = n + 1" and ne: "n \<noteq> 2 ^ 64 - 1" by (auto simp: u64_succ_def split: if_splits)
  from ne have "unat n \<noteq> 2 ^ 64 - 1" by (simp add: word_unat_eq_iff)
  with unat_u64_bound[of n] show ?thesis by (simp add: m unat_word_ariths)
qed

definition increment_revision :: "string \<Rightarrow> op_error + u64" where
  "increment_revision current =
     ok_or (op_error_new ''operation_failed'' ''revision exhausted'')
       (Option.bind (parse_u64 current) u64_succ)"

definition increment_persisted_revision :: "string \<Rightarrow> string + string" where
  "increment_persisted_revision current =
     ok_or ''station revision exhausted''
       (map_option show_u64 (Option.bind (parse_u64 current) u64_succ))"

text \<open>A revision as \<open>read_state\<close> accepts it: canonical, not zero.\<close>

definition canonical_revision :: "string \<Rightarrow> bool" where
  "canonical_revision s \<longleftrightarrow>
     (case parse_u64 s of Some n \<Rightarrow> n > 0 \<and> show_u64 n = s | None \<Rightarrow> False)"

lemma canonical_revisionE:
  assumes "canonical_revision s"
  obtains n where "parse_u64 s = Some n" and "s = show_u64 n" and "n > 0"
  using assms by (auto simp: canonical_revision_def split: option.splits)

lemma canonical_show [simp]: "canonical_revision (show_u64 n) \<longleftrightarrow> n > 0"
  by (simp add: canonical_revision_def)

lemma increment_revision_Ok:
  "increment_revision s = Inr n \<longleftrightarrow> (\<exists>m. parse_u64 s = Some m \<and> u64_succ m = Some n)"
  by (cases "parse_u64 s"; cases "Option.bind (parse_u64 s) u64_succ") (auto simp: increment_revision_def)

lemma increment_persisted_Ok:
  "increment_persisted_revision s = Inr r \<longleftrightarrow>
     (\<exists>m n. parse_u64 s = Some m \<and> u64_succ m = Some n \<and> r = show_u64 n)"
  by (cases "parse_u64 s"; cases "Option.bind (parse_u64 s) u64_succ")
    (auto simp: increment_persisted_revision_def)

lemma u64_succ_pos: "u64_succ m = Some n \<Longrightarrow> n > 0"
  using u64_succ_unat[of m n] by (metis nat.simps(3) unat_0 word_neq_0_conv)

section \<open>Entries of maps\<close>

text \<open>\<open>get_mut\<close>: the value of a key changes where the key is present.\<close>

definition adjust :: "'k \<Rightarrow> ('v \<Rightarrow> 'v) \<Rightarrow> ('k \<times> 'v) list \<Rightarrow> ('k \<times> 'v) list" where
  "adjust k f m = map (\<lambda>(k', v). (k', if k' = k then f v else v)) m"

text \<open>\<open>entry(k).or_insert_with(d)\<close>, with the reference that the code goes on with as \<open>f\<close>.\<close>

definition entry_or_insert :: "'k::linorder \<Rightarrow> 'v \<Rightarrow> ('v \<Rightarrow> 'v) \<Rightarrow> ('k \<times> 'v) list \<Rightarrow> ('k \<times> 'v) list" where
  "entry_or_insert k d f m = (case map_of m k of Some _ \<Rightarrow> adjust k f m | None \<Rightarrow> btree_insert k (f d) m)"

lemma map_of_adjust [simp]:
  "map_of (adjust k f m) k' = (if k' = k then map_option f (map_of m k) else map_of m k')"
  by (induction m) (auto simp: adjust_def)

lemma keys_adjust [simp]: "map fst (adjust k f m) = map fst m"
  by (auto simp: adjust_def)

lemma btree_ok_adjust [simp]: "btree_ok (adjust k f m) = btree_ok m"
  by (simp add: btree_ok_def)

lemma adjust_absent: "map_of m k = None \<Longrightarrow> adjust k f m = m"
  by (induction m) (auto simp: adjust_def split: if_splits)

lemma btree_ok_entry: "btree_ok m \<Longrightarrow> btree_ok (entry_or_insert k d f m)"
  by (auto simp: entry_or_insert_def btree_ok_insert split: option.split)

lemma map_of_entry:
  "btree_ok m \<Longrightarrow> map_of (entry_or_insert k d f m) k' =
     (if k' = k then Some (f (case map_of m k of Some v \<Rightarrow> v | None \<Rightarrow> d)) else map_of m k')"
  by (auto simp: entry_or_insert_def map_of_btree_insert split: option.split)

end
