(* ===== verification/State_Files.thy ===== *)
theory State_Files
  imports Operations_Base
begin

text \<open>
  The state files of the operations service (operations/mod.rs): how a state is read at start-up
  and how it is replaced. A directory maps the names the code uses (the file, its backup, the
  temporary file of a revision) to what is there; every call to the operating system consumes one
  element of a list of faults and may fail, and the directory after every change is recorded, so
  that a crash between two calls is one of the recorded directories. The text of a state
  (\<open>serde_json\<close>) is an argument.
\<close>

section \<open>Directories\<close>

datatype state_slot = Main | Backup | Temp string

text \<open>A symbolic link or a directory is irregular; the flag says whether \<open>exists()\<close> sees it.\<close>

datatype fs_node = Regular string | Irregular bool

type_synonym nodes = "state_slot \<Rightarrow> fs_node option"

text \<open>A fault is the number of bytes that a failing write has stored; other calls ignore it.\<close>

record state_dir =
  sd_nodes :: nodes
  sd_faults :: "nat option list"
  sd_trace :: "nodes list"

definition path_exists :: "state_slot \<Rightarrow> nodes \<Rightarrow> bool" where
  "path_exists a d \<longleftrightarrow>
     (case d a of None \<Rightarrow> False | Some (Regular _) \<Rightarrow> True | Some (Irregular b) \<Rightarrow> b)"

definition irregular :: "state_slot \<Rightarrow> nodes \<Rightarrow> bool" where
  "irregular a d \<longleftrightarrow> (case d a of Some (Irregular _) \<Rightarrow> True | _ \<Rightarrow> False)"

definition next_fault :: "state_dir \<Rightarrow> nat option \<times> state_dir" where
  "next_fault d =
     (case sd_faults d of [] \<Rightarrow> (None, d) | f # fs \<Rightarrow> (f, d\<lparr>sd_faults := fs\<rparr>))"

definition change_nodes :: "nodes \<Rightarrow> state_dir \<Rightarrow> state_dir" where
  "change_nodes n d = d\<lparr>sd_nodes := n, sd_trace := n # sd_trace d\<rparr>"

text \<open>A file is written with the faults of this call; the directories in between start afresh.\<close>

definition with_faults :: "nat option list \<Rightarrow> state_dir \<Rightarrow> state_dir" where
  "with_faults fs d = d\<lparr>sd_faults := fs, sd_trace := []\<rparr>"

text \<open>\<open>fs::rename\<close> is one change of the directory; \<open>fs::remove_file\<close> likewise.\<close>

definition fs_rename :: "state_slot \<Rightarrow> state_slot \<Rightarrow> state_dir \<Rightarrow> bool \<times> state_dir" where
  "fs_rename a b d0 =
     (let (f, d) = next_fault d0 in
      case (f, sd_nodes d a) of
        (None, Some x) \<Rightarrow> (True, change_nodes ((sd_nodes d)(a := None, b := Some x)) d)
      | _ \<Rightarrow> (False, d))"

definition fs_remove :: "state_slot \<Rightarrow> state_dir \<Rightarrow> bool \<times> state_dir" where
  "fs_remove a d0 =
     (let (f, d) = next_fault d0 in
      case (f, sd_nodes d a) of
        (None, Some x) \<Rightarrow> (True, change_nodes ((sd_nodes d)(a := None)) d)
      | _ \<Rightarrow> (False, d))"

text \<open>Opening with \<open>create_new\<close>: an empty file where nothing was.\<close>

definition fs_create :: "state_slot \<Rightarrow> state_dir \<Rightarrow> bool \<times> state_dir" where
  "fs_create a d0 =
     (let (f, d) = next_fault d0 in
      case (f, sd_nodes d a) of
        (None, None) \<Rightarrow> (True, change_nodes ((sd_nodes d)(a \<mapsto> Regular [])) d)
      | _ \<Rightarrow> (False, d))"

text \<open>\<open>write_all\<close> and \<open>sync_all\<close>.\<close>

definition fs_write :: "state_slot \<Rightarrow> string \<Rightarrow> state_dir \<Rightarrow> bool \<times> state_dir" where
  "fs_write a bs d0 =
     (let (f, d) = next_fault d0 in
      case f of
        None \<Rightarrow> (True, change_nodes ((sd_nodes d)(a \<mapsto> Regular bs)) d)
      | Some n \<Rightarrow> (False, change_nodes ((sd_nodes d)(a \<mapsto> Regular (take n bs))) d))"

section \<open>Replacing a state file\<close>

definition max_state_bytes :: int where
  "max_state_bytes = 2 * 1024 * 1024"

definition max_station_state_bytes :: int where
  "max_station_state_bytes = 8 * 1024 * 1024"

text \<open>
  Both states are written the same way (\<open>persist_state\<close>, \<open>persist_station_state\<close>): a temporary file
  is written and synchronised, then installed; the two differ in how they install it.
\<close>

definition persist_with ::
  "string \<Rightarrow> int \<Rightarrow> (state_slot \<Rightarrow> state_dir \<Rightarrow> bool \<times> state_dir) \<Rightarrow> string \<Rightarrow> string \<Rightarrow> state_dir
     \<Rightarrow> (string + unit) \<times> state_dir" where
  "persist_with what cap install rv bs d =
     (if irregular Main (sd_nodes d) then (Err (what @ '' is not a regular file''), d)
      else if int (length bs) > cap then (Err (what @ '' exceeds size limit''), d)
      else case fs_create (Temp rv) d of
             (False, d1) \<Rightarrow> (Err ''os error'', d1)
           | (True, d1) \<Rightarrow>
               (case fs_write (Temp rv) bs d1 of
                  (False, d2) \<Rightarrow> (Err ''os error'', snd (fs_remove (Temp rv) d2))
                | (True, d2) \<Rightarrow>
                    (case install (Temp rv) d2 of
                       (False, d3) \<Rightarrow> (Err ''os error'', snd (fs_remove (Temp rv) d3))
                     | (True, d3) \<Rightarrow> (Ok (), d3))))"

definition persist_state :: "string \<Rightarrow> string \<Rightarrow> state_dir \<Rightarrow> (string + unit) \<times> state_dir" where
  "persist_state = persist_with ''operations state'' max_state_bytes (\<lambda>temp. fs_rename temp Main)"

definition replace_file_with_backup :: "state_slot \<Rightarrow> state_dir \<Rightarrow> bool \<times> state_dir" where
  "replace_file_with_backup temp d0 =
     (let (prepared, d1) =
        (if path_exists Backup (sd_nodes d0)
         then if path_exists Main (sd_nodes d0) then fs_remove Backup d0
              else fs_rename Backup Main d0
         else (True, d0))
      in if \<not> prepared then (False, d1)
      else let had_previous = path_exists Main (sd_nodes d1);
               (moved, d2) = (if had_previous then fs_rename Main Backup d1 else (True, d1))
           in if \<not> moved then (False, d2)
              else case fs_rename temp Main d2 of
                     (True, d3) \<Rightarrow>
                       (True, if had_previous then snd (fs_remove Backup d3) else d3)
                   | (False, d3) \<Rightarrow>
                       (False,
                        if had_previous \<and> \<not> path_exists Main (sd_nodes d3) \<and> path_exists Backup (sd_nodes d3)
                        then snd (fs_rename Backup Main d3) else d3))"

definition persist_station_state :: "string \<Rightarrow> string \<Rightarrow> state_dir \<Rightarrow> (string + unit) \<times> state_dir" where
  "persist_station_state =
     persist_with ''station version state'' max_station_state_bytes replace_file_with_backup"

section \<open>Reading a state file\<close>

text \<open>The text of a file at start-up; \<open>None\<close> where there is no file.\<close>

definition read_text :: "string \<Rightarrow> int \<Rightarrow> state_dir \<Rightarrow> (string + string option) \<times> state_dir" where
  "read_text what cap d0 =
     (case sd_nodes d0 Main of
        Some (Irregular _) \<Rightarrow> (Err (what @ '' must be a regular file''), d0)
      | None \<Rightarrow> (Ok None, d0)
      | Some (Regular t) \<Rightarrow>
          (let (f, d) = next_fault d0 in
           if f \<noteq> None then (Err ''os error'', d)
           else if int (length t) > cap then (Err (what @ '' exceeds size limit''), d)
           else (Ok (Some t), d)))"

definition restore_backup :: "state_dir \<Rightarrow> (string + unit) \<times> state_dir" where
  "restore_backup d =
     (if \<not> path_exists Main (sd_nodes d) \<and> path_exists Backup (sd_nodes d)
      then case fs_rename Backup Main d of
             (True, d') \<Rightarrow> (Ok (), d') | (False, d') \<Rightarrow> (Err ''os error'', d')
      else if path_exists Main (sd_nodes d) \<and> path_exists Backup (sd_nodes d)
      then if irregular Backup (sd_nodes d)
           then (Err ''station version backup must be a regular file'', d)
           else case fs_remove Backup d of
                  (True, d') \<Rightarrow> (Ok (), d') | (False, d') \<Rightarrow> (Err ''os error'', d')
      else (Ok (), d))"

definition read_state_text :: "state_dir \<Rightarrow> (string + string option) \<times> state_dir" where
  "read_state_text = read_text ''operations state'' max_state_bytes"

definition read_station_state_text :: "state_dir \<Rightarrow> (string + string option) \<times> state_dir" where
  "read_station_state_text d =
     (case restore_backup d of
        (Inl e, d') \<Rightarrow> (Err e, d')
      | (Inr _, d') \<Rightarrow> read_text ''station version state'' max_station_state_bytes d')"

section \<open>What a reader finds\<close>

text \<open>The text a fault-free start-up would load, and directories without irregular files.\<close>

definition current_text :: "nodes \<Rightarrow> string option" where
  "current_text n =
     (case n Main of
        Some (Regular t) \<Rightarrow> Some t
      | Some (Irregular _) \<Rightarrow> None
      | None \<Rightarrow> (case n Backup of Some (Regular t) \<Rightarrow> Some t | _ \<Rightarrow> None))"

definition tidy :: "nodes \<Rightarrow> bool" where
  "tidy n \<longleftrightarrow> \<not> irregular Main n \<and> \<not> irregular Backup n"

text \<open>Every recorded directory, and the present one, shows the old or the new text.\<close>

definition shows_one_of :: "string option \<Rightarrow> string \<Rightarrow> state_dir \<Rightarrow> bool" where
  "shows_one_of old new d \<longleftrightarrow>
     list_all (\<lambda>n. tidy n \<and> (current_text n = old \<or> current_text n = Some new))
       (sd_nodes d # sd_trace d)"

lemma next_fault_same [simp]:
  "next_fault d = (f, d') \<Longrightarrow> sd_nodes d' = sd_nodes d \<and> sd_trace d' = sd_trace d"
  by (auto simp: next_fault_def split: list.splits)

text \<open>A call fails and changes nothing, or takes effect.\<close>

lemma fs_rename_cases:
  obtains (effect) x d' where "fs_rename a b d = (True, d')" "sd_nodes d a = Some x"
      "sd_nodes d' = (sd_nodes d)(a := None, b := Some x)" "sd_trace d' = sd_nodes d' # sd_trace d"
  | (failed) d' where "fs_rename a b d = (False, d')" "sd_nodes d' = sd_nodes d" "sd_trace d' = sd_trace d"
proof -
  obtain f d1 where n: "next_fault d = (f, d1)" by fastforce
  from next_fault_same[OF n] n that show ?thesis
    by (cases f; cases "sd_nodes d a") (auto simp: fs_rename_def change_nodes_def)
qed

lemma fs_remove_cases:
  obtains (effect) d' where "fs_remove a d = (True, d')" "sd_nodes d' = (sd_nodes d)(a := None)"
      "sd_trace d' = sd_nodes d' # sd_trace d"
  | (failed) d' where "fs_remove a d = (False, d')" "sd_nodes d' = sd_nodes d" "sd_trace d' = sd_trace d"
proof -
  obtain f d1 where n: "next_fault d = (f, d1)" by fastforce
  from next_fault_same[OF n] n that show ?thesis
    by (cases f; cases "sd_nodes d a") (auto simp: fs_remove_def change_nodes_def)
qed

lemma fs_create_cases:
  obtains (effect) d' where "fs_create a d = (True, d')" "sd_nodes d' = (sd_nodes d)(a \<mapsto> Regular [])"
      "sd_trace d' = sd_nodes d' # sd_trace d"
  | (failed) d' where "fs_create a d = (False, d')" "sd_nodes d' = sd_nodes d" "sd_trace d' = sd_trace d"
proof -
  obtain f d1 where n: "next_fault d = (f, d1)" by fastforce
  from next_fault_same[OF n] n that show ?thesis
    by (cases f; cases "sd_nodes d a") (auto simp: fs_create_def change_nodes_def)
qed

lemma fs_write_cases:
  obtains ok d' t where "fs_write a bs d = (ok, d')" "sd_nodes d' = (sd_nodes d)(a \<mapsto> Regular t)"
      "sd_trace d' = sd_nodes d' # sd_trace d" "ok \<longrightarrow> t = bs"
proof -
  obtain f d1 where n: "next_fault d = (f, d1)" by fastforce
  from next_fault_same[OF n] n that show ?thesis
    by (cases f) (auto simp: fs_write_def change_nodes_def)
qed

lemma tidy_temp [simp]: "tidy (n(Temp rv := x)) = tidy n"
  by (simp add: tidy_def irregular_def)

lemma current_temp [simp]: "current_text (n(Temp rv := x)) = current_text n"
  by (auto simp: current_text_def split: option.split)

lemmas node_defs = tidy_def irregular_def path_exists_def current_text_def

lemma shows_nodes:
  assumes "shows_one_of old new d" and "sd_trace d' = sd_nodes d' # sd_trace d"
    and "tidy (sd_nodes d')" and "current_text (sd_nodes d') = old \<or> current_text (sd_nodes d') = Some new"
  shows "shows_one_of old new d'"
  using assms by (simp add: shows_one_of_def)

lemma shows_same:
  "shows_one_of old new d \<Longrightarrow> sd_nodes d' = sd_nodes d \<Longrightarrow> sd_trace d' = sd_trace d \<Longrightarrow> shows_one_of old new d'"
  by (simp add: shows_one_of_def)

lemma shows_tidy: "shows_one_of old new d \<Longrightarrow> tidy (sd_nodes d)"
  by (simp add: shows_one_of_def)

text \<open>The first part of the replacement leaves the shown text and removes the backup.\<close>

lemma replace_prepares:
  assumes s: "shows_one_of old new d" and c: "current_text (sd_nodes d) = old"
    and e: "(if path_exists Backup (sd_nodes d)
         then if path_exists Main (sd_nodes d) then fs_remove Backup d
              else fs_rename Backup Main d
         else (True, d)) = (prepared, d1)"
  shows "shows_one_of old new d1 \<and> current_text (sd_nodes d1) = old
    \<and> sd_nodes d1 (Temp rv) = sd_nodes d (Temp rv) \<and> (prepared \<longrightarrow> sd_nodes d1 Backup = None)"
proof (cases "path_exists Backup (sd_nodes d)")
  case False
  with s c e shows_tidy[OF s] show ?thesis by (auto simp: node_defs split: option.splits fs_node.splits)
next
  case b: True
  show ?thesis
  proof (cases "path_exists Main (sd_nodes d)")
    case m: True
    show ?thesis
    proof (rule fs_remove_cases[of Backup d])
      fix d' assume f: "fs_remove Backup d = (True, d')" and n: "sd_nodes d' = (sd_nodes d)(Backup := None)"
        and t: "sd_trace d' = sd_nodes d' # sd_trace d"
      have "current_text (sd_nodes d') = old" "tidy (sd_nodes d')"
        using c m shows_tidy[OF s] by (auto simp: n node_defs split: option.splits fs_node.splits)
      moreover from f b m e have "d1 = d'" and "prepared" by auto
      ultimately show ?thesis using shows_nodes[OF s t] by (simp add: n)
    qed (use b m e s c in \<open>auto intro: shows_same\<close>)
  next
    case m: False
    show ?thesis
    proof (rule fs_rename_cases[of Backup Main d])
      fix x d' assume f: "fs_rename Backup Main d = (True, d')" and x: "sd_nodes d Backup = Some x"
        and n: "sd_nodes d' = (sd_nodes d)(Backup := None, Main := Some x)"
        and t: "sd_trace d' = sd_nodes d' # sd_trace d"
      have "current_text (sd_nodes d') = old" "tidy (sd_nodes d')"
        using c m x shows_tidy[OF s] by (auto simp: n node_defs split: option.splits fs_node.splits)
      moreover from f b m e have "d1 = d'" and "prepared" by auto
      ultimately show ?thesis using shows_nodes[OF s t] by (simp add: n)
    qed (use b m e s c in \<open>auto intro: shows_same\<close>)
  qed
qed

text \<open>The exchange, once there is no backup: the previous file is moved aside if there is one.\<close>

lemma aside_shows:
  assumes s: "shows_one_of old new d" and c: "current_text (sd_nodes d) = old" and b: "sd_nodes d Backup = None"
    and e: "(if path_exists Main (sd_nodes d) then fs_rename Main Backup d else (True, d)) = (moved, d2)"
  shows "shows_one_of old new d2 \<and> current_text (sd_nodes d2) = old
    \<and> sd_nodes d2 (Temp rv) = sd_nodes d (Temp rv) \<and> (moved \<longrightarrow> sd_nodes d2 Main = None)"
proof (cases "path_exists Main (sd_nodes d)")
  case False
  with s c e shows_tidy[OF s] show ?thesis by (auto simp: node_defs split: option.splits fs_node.splits)
next
  case m: True
  show ?thesis
  proof (rule fs_rename_cases[of Main Backup d])
    fix x d' assume f: "fs_rename Main Backup d = (True, d')" and x: "sd_nodes d Main = Some x"
      and n: "sd_nodes d' = (sd_nodes d)(Main := None, Backup := Some x)"
      and t: "sd_trace d' = sd_nodes d' # sd_trace d"
    have "current_text (sd_nodes d') = old" "tidy (sd_nodes d')"
      using c m x b shows_tidy[OF s] by (auto simp: n node_defs split: option.splits fs_node.splits)
    moreover from f m e have "d2 = d'" and "moved" by auto
    ultimately show ?thesis using shows_nodes[OF s t] by (simp add: n)
  qed (use m e s c in \<open>auto intro: shows_same\<close>)
qed

lemma backup_gone_shows:
  assumes s: "shows_one_of old new d" and c: "sd_nodes d Main = Some (Regular new)"
  shows "shows_one_of old new (snd (fs_remove Backup d)) \<and> current_text (sd_nodes (snd (fs_remove Backup d))) = Some new"
proof (rule fs_remove_cases[of Backup d])
  fix d' assume "fs_remove Backup d = (True, d')" and n: "sd_nodes d' = (sd_nodes d)(Backup := None)"
    and t: "sd_trace d' = sd_nodes d' # sd_trace d"
  moreover have "current_text (sd_nodes d') = Some new" "tidy (sd_nodes d')"
    using c by (auto simp: n node_defs)
  ultimately show ?thesis using shows_nodes[OF s t] by auto
qed (use s c in \<open>auto simp: current_text_def intro: shows_same\<close>)

lemma backup_back_shows:
  assumes s: "shows_one_of old new d" and c: "current_text (sd_nodes d) = old" and m: "sd_nodes d Main = None"
  shows "shows_one_of old new (snd (fs_rename Backup Main d)) \<and> current_text (sd_nodes (snd (fs_rename Backup Main d))) = old"
proof (rule fs_rename_cases[of Backup Main d])
  fix x d' assume "fs_rename Backup Main d = (True, d')" and x: "sd_nodes d Backup = Some x"
    and n: "sd_nodes d' = (sd_nodes d)(Backup := None, Main := Some x)"
    and t: "sd_trace d' = sd_nodes d' # sd_trace d"
  moreover have "current_text (sd_nodes d') = old" "tidy (sd_nodes d')"
    using c m x shows_tidy[OF s] by (auto simp: n node_defs split: option.splits fs_node.splits)
  ultimately show ?thesis using shows_nodes[OF s t] by auto
qed (use s c in \<open>auto intro: shows_same\<close>)

text \<open>The replacement: from a directory that shows \<open>old\<close>, with \<open>new\<close> in the temporary file.\<close>

lemma replace_shows:
  assumes s: "shows_one_of old new d" and c: "current_text (sd_nodes d) = old"
    and t: "sd_nodes d (Temp rv) = Some (Regular new)"
    and r: "replace_file_with_backup (Temp rv) d = (ok, d')"
  shows "shows_one_of old new d' \<and> current_text (sd_nodes d') = (if ok then Some new else old)"
proof -
  obtain prepared d1 where e1: "(if path_exists Backup (sd_nodes d)
         then if path_exists Main (sd_nodes d) then fs_remove Backup d
              else fs_rename Backup Main d
         else (True, d)) = (prepared, d1)" by fastforce
  note p = replace_prepares[OF s c e1, of rv]
  show ?thesis
  proof (cases prepared)
    case False
    with p r show ?thesis by (auto simp: replace_file_with_backup_def e1)
  next
    case pr: True
    obtain moved d2 where e2: "(if path_exists Main (sd_nodes d1) then fs_rename Main Backup d1 else (True, d1))
      = (moved, d2)" by fastforce
    from p pr have "shows_one_of old new d1" "current_text (sd_nodes d1) = old" "sd_nodes d1 Backup = None" by auto
    note q = aside_shows[OF this e2, of rv]
    show ?thesis
    proof (cases moved)
      case False
      with q r pr show ?thesis by (auto simp: replace_file_with_backup_def e1 e2)
    next
      case mv: True
      show ?thesis
      proof (rule fs_rename_cases[of "Temp rv" Main d2])
        fix x d3 assume f: "fs_rename (Temp rv) Main d2 = (True, d3)" and x: "sd_nodes d2 (Temp rv) = Some x"
          and n: "sd_nodes d3 = (sd_nodes d2)(Temp rv := None, Main := Some x)"
          and tr: "sd_trace d3 = sd_nodes d3 # sd_trace d2"
        from q p t x have x': "x = Regular new" by simp
        have "tidy (sd_nodes d3)" "current_text (sd_nodes d3) = Some new" "sd_nodes d3 Main = Some (Regular new)"
          using q shows_tidy[of old new d2] by (auto simp: n x' node_defs split: option.splits fs_node.splits)
        then have "shows_one_of old new d3" using q tr shows_nodes[of old new d2 d3] by auto
        with backup_gone_shows[of old new d3] r f pr mv \<open>sd_nodes d3 Main = _\<close> \<open>current_text (sd_nodes d3) = _\<close>
        show ?thesis by (auto simp: replace_file_with_backup_def e1 e2 split: if_splits)
      next
        fix d3 assume f: "fs_rename (Temp rv) Main d2 = (False, d3)" "sd_nodes d3 = sd_nodes d2" "sd_trace d3 = sd_trace d2"
        with q mv have "shows_one_of old new d3" "current_text (sd_nodes d3) = old" "sd_nodes d3 Main = None"
          by (auto intro: shows_same)
        with backup_back_shows[of old new d3] r f pr mv show ?thesis
          by (auto simp: replace_file_with_backup_def e1 e2 split: if_splits)
      qed
    qed
  qed
qed

text \<open>
  A state is replaced all or nothing, whatever fails and wherever the process stops: every
  directory in between, and the final one, shows the previous text or the new one; the answer says
  which of them the final directory shows.
\<close>

lemma temp_removed_shows:
  assumes "shows_one_of old new d" and "current_text (sd_nodes d) = old"
  shows "shows_one_of old new (snd (fs_remove (Temp rv) d))
    \<and> current_text (sd_nodes (snd (fs_remove (Temp rv) d))) = old"
  by (rule fs_remove_cases[of "Temp rv" d]) (use assms in \<open>auto simp: shows_one_of_def\<close>)

lemma persist_shows:
  assumes install: "\<And>d ok d'. \<lbrakk>shows_one_of old bs d; current_text (sd_nodes d) = old; P d;
        sd_nodes d (Temp rv) = Some (Regular bs); install (Temp rv) d = (ok, d')\<rbrakk>
      \<Longrightarrow> shows_one_of old bs d' \<and> current_text (sd_nodes d') = (if ok then Some bs else old)"
    and temp: "\<And>d d' x. P d \<Longrightarrow> sd_nodes d' = (sd_nodes d)(Temp rv := x) \<Longrightarrow> P d'"
    and s: "shows_one_of old bs d" and c: "current_text (sd_nodes d) = old" and P: "P d"
    and r: "persist_with what cap install rv bs d = (res, d')"
  shows "shows_one_of old bs d' \<and> current_text (sd_nodes d') = (if is_ok res then Some bs else old)"
proof (cases "irregular Main (sd_nodes d) \<or> int (length bs) > cap")
  case True
  with s c r show ?thesis by (auto simp: persist_with_def split: if_splits)
next
  case False
  show ?thesis
  proof (rule fs_create_cases[of "Temp rv" d])
    fix d1 assume "fs_create (Temp rv) d = (False, d1)" "sd_nodes d1 = sd_nodes d" "sd_trace d1 = sd_trace d"
    with False s c r shows_same[OF s, of d1] show ?thesis by (auto simp: persist_with_def)
  next
    fix d1 assume f: "fs_create (Temp rv) d = (True, d1)" and n: "sd_nodes d1 = (sd_nodes d)(Temp rv \<mapsto> Regular [])"
      and "sd_trace d1 = sd_nodes d1 # sd_trace d"
    with s c have s1: "shows_one_of old bs d1" "current_text (sd_nodes d1) = old" by (auto simp: shows_one_of_def)
    show ?thesis
    proof (rule fs_write_cases[of "Temp rv" bs d1])
      fix ok d2 x assume w: "fs_write (Temp rv) bs d1 = (ok, d2)" and n2: "sd_nodes d2 = (sd_nodes d1)(Temp rv \<mapsto> Regular x)"
        and "sd_trace d2 = sd_nodes d2 # sd_trace d1" and x: "ok \<longrightarrow> x = bs"
      with s1 have s2: "shows_one_of old bs d2" "current_text (sd_nodes d2) = old" by (auto simp: shows_one_of_def)
      obtain ok3 d3 where e: "install (Temp rv) d2 = (ok3, d3)" by fastforce
      have "P d2" using temp[OF temp[OF P n] n2] .
      then have "ok \<Longrightarrow> shows_one_of old bs d3 \<and> current_text (sd_nodes d3) = (if ok3 then Some bs else old)"
        using install[OF s2 _ _ e] x n2 by auto
      with temp_removed_shows[OF s2, of rv] temp_removed_shows[of old bs d3 rv] r f w e False show ?thesis
        by (cases ok; cases ok3) (auto simp: persist_with_def)
    qed
  qed
qed

lemma persist_station_shows:
  assumes "shows_one_of old bs d" and "current_text (sd_nodes d) = old"
    and "persist_station_state rv bs d = (res, d')"
  shows "shows_one_of old bs d' \<and> current_text (sd_nodes d') = (if is_ok res then Some bs else old)"
  using assms unfolding persist_station_state_def
  by (intro persist_shows[where P = "\<lambda>_. True" and d = d and install = replace_file_with_backup])
    (auto dest: replace_shows)

lemma rename_installs:
  assumes s: "shows_one_of old new d" and c: "current_text (sd_nodes d) = old"
    and t: "sd_nodes d (Temp rv) = Some (Regular new)" and r: "fs_rename (Temp rv) Main d = (ok, d')"
  shows "shows_one_of old new d' \<and> current_text (sd_nodes d') = (if ok then Some new else old)"
proof (rule fs_rename_cases[of "Temp rv" Main d])
  fix x e assume "fs_rename (Temp rv) Main d = (True, e)" and "sd_nodes d (Temp rv) = Some x"
    and n: "sd_nodes e = (sd_nodes d)(Temp rv := None, Main := Some x)" and t': "sd_trace e = sd_nodes e # sd_trace d"
  moreover from this t have x: "x = Regular new" by simp
  moreover have "current_text (sd_nodes e) = Some new" "tidy (sd_nodes e)"
    using shows_tidy[OF s] by (auto simp: n x node_defs split: option.splits fs_node.splits)
  ultimately show ?thesis using shows_nodes[OF s t'] r by auto
qed (use assms in \<open>auto intro: shows_same\<close>)

lemma persist_state_shows:
  assumes "shows_one_of old bs d" and "current_text (sd_nodes d) = old"
    and "persist_state rv bs d = (res, d')"
  shows "shows_one_of old bs d' \<and> current_text (sd_nodes d') = (if is_ok res then Some bs else old)"
  using assms unfolding persist_state_def
  by (intro persist_shows[where P = "\<lambda>_. True" and d = d and install = "\<lambda>temp. fs_rename temp Main"])
    (auto dest: rename_installs)

text \<open>A start-up without faults loads what the directory shows.\<close>

lemma read_text_fine:
  assumes "\<not> irregular Main (sd_nodes d)" and "sd_faults d = []"
    and "\<And>t. sd_nodes d Main = Some (Regular t) \<Longrightarrow> int (length t) \<le> cap"
  shows "fst (read_text what cap d) =
    Ok (case sd_nodes d Main of Some (Regular t) \<Rightarrow> Some t | _ \<Rightarrow> None)"
proof (cases "sd_nodes d Main")
  case (Some x)
  show ?thesis
  proof (cases x)
    case (Regular t)
    with Some assms(2) assms(3)[of t] show ?thesis by (simp add: read_text_def next_fault_def)
  qed (use Some assms(1) in \<open>simp add: irregular_def\<close>)
qed (simp add: read_text_def)

lemma restore_backup_fine:
  assumes "tidy (sd_nodes d)" and "sd_faults d = []"
  obtains d' where "restore_backup d = (Ok (), d')" "\<not> irregular Main (sd_nodes d')" "sd_faults d' = []"
    "(case sd_nodes d' Main of Some (Regular t) \<Rightarrow> Some t | _ \<Rightarrow> None) = current_text (sd_nodes d)"
  using assms that
  by (cases "sd_nodes d Main"; cases "sd_nodes d Backup")
    (simp_all add: restore_backup_def node_defs fs_rename_def fs_remove_def next_fault_def
      change_nodes_def split: fs_node.splits)

lemma read_station_current:
  assumes "tidy (sd_nodes d)" and "sd_faults d = []"
    and small: "\<And>t. current_text (sd_nodes d) = Some t \<Longrightarrow> int (length t) \<le> max_station_state_bytes"
  shows "fst (read_station_state_text d) = Ok (current_text (sd_nodes d))"
proof -
  obtain d' where r: "restore_backup d = (Ok (), d')" "\<not> irregular Main (sd_nodes d')" "sd_faults d' = []"
    and c: "(case sd_nodes d' Main of Some (Regular t) \<Rightarrow> Some t | _ \<Rightarrow> None) = current_text (sd_nodes d)"
    using restore_backup_fine[OF assms(1,2)] .
  have "int (length t) \<le> max_station_state_bytes" if "sd_nodes d' Main = Some (Regular t)" for t
    using that c small[of t] by simp
  from read_text_fine[OF r(2,3) this] r(1) c show ?thesis by (simp add: read_station_state_text_def)
qed

text \<open>The settings have no backup: saving them never makes one, and start-up reads the file itself.\<close>

lemma persist_state_backup:
  assumes "persist_state rv bs d = (res, d')"
  shows "sd_nodes d' Backup = sd_nodes d Backup"
proof -
  have c: "sd_nodes e' Backup = sd_nodes e Backup" if "fs_create (Temp rv) e = (ok, e')" for e ok e'
    by (rule fs_create_cases[of "Temp rv" e]) (use that in auto)
  have w: "sd_nodes e' Backup = sd_nodes e Backup" if "fs_write (Temp rv) bs e = (ok, e')" for e ok e'
    by (rule fs_write_cases[of "Temp rv" bs e]) (use that in auto)
  have n: "sd_nodes e' Backup = sd_nodes e Backup" if "fs_rename (Temp rv) Main e = (ok, e')" for e ok e'
    by (rule fs_rename_cases[of "Temp rv" Main e]) (use that in auto)
  have r: "sd_nodes (snd (fs_remove (Temp rv) e)) Backup = sd_nodes e Backup" for e
    by (rule fs_remove_cases[of "Temp rv" e]) auto
  from assms show ?thesis
    by (auto simp: persist_state_def persist_with_def r dest!: c w n split: if_splits prod.splits bool.splits)
qed

lemma read_state_current:
  assumes t: "tidy (sd_nodes d)" and b: "sd_nodes d Backup = None" and "sd_faults d = []"
    and small: "\<And>t. current_text (sd_nodes d) = Some t \<Longrightarrow> int (length t) \<le> max_state_bytes"
  shows "fst (read_state_text d) = Ok (current_text (sd_nodes d))"
proof -
  have c: "(case sd_nodes d Main of Some (Regular t) \<Rightarrow> Some t | _ \<Rightarrow> None) = current_text (sd_nodes d)"
    using b by (auto simp: current_text_def split: option.split fs_node.split)
  have "int (length t) \<le> max_state_bytes" if "sd_nodes d Main = Some (Regular t)" for t
    using that c small[of t] by simp
  from read_text_fine[OF _ assms(3) this] t c show ?thesis by (simp add: read_state_text_def tidy_def)
qed

end
