(* ===== verification/Maintenance.thy ===== *)
theory Maintenance
  imports Operations_Base
begin

text \<open>
  The persistent maintenance fence (operations/maintenance.rs): the durable record, the admission
  counter, and the two halves of \<open>enter\<close> and \<open>leave\<close>, the one under the state lock and the one
  after the write. SQLite is represented by the single row the code keeps; its failures are an
  argument, including a failed commit that has taken effect all the same. \<open>serde_json\<close>'s text of a
  record is a pair of parameters.
\<close>

section \<open>Records and the database\<close>

record maintenance_record =
  mr_schema_version :: u32
  mr_gateway_instance_id :: string
  mr_fencing_token :: u64
  mr_deployment_id :: string
  mr_active :: bool

record gate_state =
  gt_record :: maintenance_record
  gt_pending :: nat
  gt_durable :: bool
  gt_error :: string

text \<open>\<open>usize\<close> has 64 bits.\<close>

definition usize_max :: int where
  "usize_max = 2 ^ 64 - 1"

datatype maintenance_db = Db_Absent | Db_NotFile | Db_NoTable | Db_NoRow | Db_Row string

datatype db_fault =
    Db_Fine
  | Db_Connect string bool \<comment> \<open>\<open>connect\<close> fails; whether the file was created\<close>
  | Db_Statement string \<comment> \<open>a statement fails, the transaction is rolled back\<close>
  | Db_Commit string bool \<comment> \<open>the commit fails; whether it has taken effect\<close>

definition validate_owner :: "string \<Rightarrow> u64 \<Rightarrow> op_error + unit" where
  "validate_owner deployment token =
     (if token = 0 \<or> deployment = [] \<or> length deployment > 128
         \<or> \<not> list_all (\<lambda>b. is_ascii_alphanumeric b \<or> b \<in> set ''-_.'') deployment
      then Err (op_error_new ''invalid_request'' ''invalid deployment_id or fencing_token'')
      else Ok ())"

text \<open>\<open>connect\<close>: the database once it is open.\<close>

definition connect :: "db_fault \<Rightarrow> maintenance_db \<Rightarrow> (string + unit) \<times> maintenance_db" where
  "connect fault db =
     (if db = Db_NotFile then (Err ''maintenance database is not a regular file'', db)
      else let opened = (if db = Db_Absent then Db_NoTable else db) in
        case fault of
          Db_Connect e created \<Rightarrow> (Err e, if created then opened else db)
        | _ \<Rightarrow> (Ok (), opened))"

definition record_valid :: "maintenance_record \<Rightarrow> maintenance_record \<Rightarrow> bool" where
  "record_valid initial r \<longleftrightarrow>
     \<not> (mr_schema_version r \<noteq> 1
        \<or> mr_gateway_instance_id r \<noteq> mr_gateway_instance_id initial
        \<or> mr_fencing_token r = 0 \<and> (mr_active r \<or> mr_deployment_id r \<noteq> [])
        \<or> mr_fencing_token r \<noteq> 0
           \<and> \<not> is_ok (validate_owner (mr_deployment_id r) (mr_fencing_token r)))"

text \<open>The row that \<open>SELECT\<close> finds.\<close>

fun select_record :: "maintenance_db \<Rightarrow> string + string" where
  "select_record (Db_Row t) = Ok t"
| "select_record Db_NoRow = Err ''Query returned no rows''"
| "select_record _ = Err ''no such table: maintenance_state''"

definition load ::
  "(maintenance_record \<Rightarrow> string) \<Rightarrow> (string \<Rightarrow> string + maintenance_record) \<Rightarrow> maintenance_record
     \<Rightarrow> db_fault \<Rightarrow> maintenance_db \<Rightarrow> (string + maintenance_record) \<times> maintenance_db" where
  "load enc dec initial fault db =
     (let fresh = (db = Db_Absent) in
      case connect fault db of
        (Inl e, opened) \<Rightarrow> (Err e, opened)
      | (Inr _, opened) \<Rightarrow>
          (case fault of
             Db_Statement e \<Rightarrow> (Err e, opened)
           | _ \<Rightarrow>
             (let inside = (if fresh then Db_Row (enc initial) else opened);
                  result = and_then (select_record inside) (\<lambda>t.
                    and_then (dec t) (\<lambda>r.
                      if record_valid initial r then Ok r
                      else Err ''invalid maintenance identity/schema/fencing generation''))
              in case result of
                   Inl e \<Rightarrow> (Err e, opened)
                 | Inr r \<Rightarrow>
                     (case fault of
                        Db_Commit e applied \<Rightarrow> (Err e, if applied then inside else opened)
                      | _ \<Rightarrow> (Ok r, inside)))))"

definition save_record ::
  "(maintenance_record \<Rightarrow> string) \<Rightarrow> maintenance_record \<Rightarrow> db_fault \<Rightarrow> maintenance_db
     \<Rightarrow> (string + unit) \<times> maintenance_db" where
  "save_record enc r fault db =
     (case connect fault db of
        (Inl e, opened) \<Rightarrow> (Err e, opened)
      | (Inr _, opened) \<Rightarrow>
          (case fault of
             Db_Statement e \<Rightarrow> (Err e, opened)
           | _ \<Rightarrow>
             (case opened of
                Db_Row t \<Rightarrow>
                  (case fault of
                     Db_Commit e applied \<Rightarrow> (Err e, if applied then Db_Row (enc r) else opened)
                   | _ \<Rightarrow> (Ok (), Db_Row (enc r)))
              | Db_NoRow \<Rightarrow> (Err ''maintenance record missing'', opened)
              | _ \<Rightarrow> (Err ''no such table: maintenance_state'', opened))))"

section \<open>The gate\<close>

definition initial_record :: "string \<Rightarrow> maintenance_record" where
  "initial_record gateway =
     \<lparr>mr_schema_version = 1, mr_gateway_instance_id = gateway, mr_fencing_token = 0,
      mr_deployment_id = [], mr_active = False\<rparr>"

definition gate_open ::
  "(maintenance_record \<Rightarrow> string) \<Rightarrow> (string \<Rightarrow> string + maintenance_record) \<Rightarrow> string
     \<Rightarrow> db_fault \<Rightarrow> maintenance_db \<Rightarrow> gate_state \<times> maintenance_db" where
  "gate_open enc dec gateway fault db =
     (let initial = initial_record gateway; (loaded, db') = load enc dec initial fault db in
      case loaded of
        Inr r \<Rightarrow> (\<lparr>gt_record = r, gt_pending = 0, gt_durable = True, gt_error = []\<rparr>, db')
      | Inl e \<Rightarrow> (\<lparr>gt_record = initial, gt_pending = 0, gt_durable = False, gt_error = e\<rparr>, db'))"

definition gate_admit :: "gate_state \<Rightarrow> op_error + gate_state" where
  "gate_admit g =
     (if mr_active (gt_record g) \<or> \<not> gt_durable g
      then Err (op_error_new ''busy'' ''gateway maintenance blocks new mutations'')
      else if int (gt_pending g) < usize_max then Ok (g\<lparr>gt_pending := gt_pending g + 1\<rparr>)
      else Err (op_error_new ''busy'' ''admission counter exhausted''))"

text \<open>\<open>Drop for Admission\<close>.\<close>

definition admission_drop :: "gate_state \<Rightarrow> gate_state" where
  "admission_drop g = g\<lparr>gt_pending := gt_pending g - 1\<rparr>"

record gate_snapshot =
  gn_gateway_instance_id :: string
  gn_deployment_id :: string
  gn_fencing_token :: string
  gn_active :: bool
  gn_admission_blocked :: bool
  gn_durable :: bool
  gn_pending_admissions :: nat
  gn_pending_port_operations :: nat
  gn_drained :: bool
  gn_error :: string

definition gate_status :: "nat \<Rightarrow> gate_state \<Rightarrow> gate_snapshot" where
  "gate_status pending_ports g =
     \<lparr>gn_gateway_instance_id = mr_gateway_instance_id (gt_record g),
      gn_deployment_id = mr_deployment_id (gt_record g),
      gn_fencing_token = show_u64 (mr_fencing_token (gt_record g)),
      gn_active = mr_active (gt_record g),
      gn_admission_blocked = (mr_active (gt_record g) \<or> \<not> gt_durable g),
      gn_durable = gt_durable g,
      gn_pending_admissions = gt_pending g,
      gn_pending_port_operations = pending_ports,
      gn_drained = (mr_active (gt_record g) \<and> gt_durable g \<and> gt_pending g = 0 \<and> pending_ports = 0),
      gn_error = gt_error g\<rparr>"

text \<open>
  The section of \<open>enter\<close> under the state lock: an error, nothing to do (\<open>Ok None\<close>), or the record
  to persist; the fence is closed in memory before the record is written.
\<close>

definition enter_begin ::
  "string \<Rightarrow> u64 \<Rightarrow> gate_state \<Rightarrow> (op_error + maintenance_record option) \<times> gate_state" where
  "enter_begin deployment token g =
     (let r = gt_record g;
          next = r\<lparr>mr_active := True, mr_deployment_id := deployment, mr_fencing_token := token\<rparr>;
          go = (Ok (Some next), g\<lparr>gt_record := next, gt_durable := False\<rparr>)
      in if \<not> gt_durable g \<and> \<not> mr_active r
         then (Err (op_error_new ''persistence_failed''
                 ''unknown maintenance state; reconcile storage before restarting''), g)
         else if mr_active r
         then if mr_deployment_id r \<noteq> deployment \<or> mr_fencing_token r \<noteq> token
              then (Err (op_error_new ''conflict'' ''another maintenance fence owns this gateway''), g)
              else if gt_durable g then (Ok None, g) else go
         else if u64_succ (mr_fencing_token r) \<noteq> Some token
         then (Err (op_error_new ''conflict'' ''fencing token must be the next generation''), g)
         else go)"

text \<open>The section of \<open>leave\<close> under the state lock; it changes nothing.\<close>

definition leave_begin ::
  "string \<Rightarrow> u64 \<Rightarrow> nat \<Rightarrow> gate_state \<Rightarrow> op_error + maintenance_record option" where
  "leave_begin deployment token pending_ports g =
     (let r = gt_record g in
      if mr_deployment_id r \<noteq> deployment \<or> mr_fencing_token r \<noteq> token
      then Err (op_error_new ''conflict'' ''maintenance fence owner changed'')
      else if \<not> gt_durable g
      then Err (op_error_new ''persistence_failed'' ''maintenance state is not durable'')
      else if \<not> mr_active r then Ok None
      else if gt_pending g \<noteq> 0 \<or> pending_ports \<noteq> 0
      then Err (op_error_new ''busy'' ''accepted operations have not drained'')
      else Ok (Some (r\<lparr>mr_active := False\<rparr>)))"

text \<open>The second half of \<open>persist\<close>: the outcome of the write is entered under the state lock.\<close>

definition persist_confirm ::
  "maintenance_record \<Rightarrow> string + unit \<Rightarrow> gate_state \<Rightarrow> (op_error + unit) \<times> gate_state" where
  "persist_confirm next result g =
     (case result of
        Inr _ \<Rightarrow> (Ok (), g\<lparr>gt_record := next, gt_durable := True, gt_error := []\<rparr>)
      | Inl e \<Rightarrow> (Err (op_error_new ''persistence_failed'' e), g\<lparr>gt_durable := False, gt_error := e\<rparr>))"

definition gate_persist ::
  "(maintenance_record \<Rightarrow> string) \<Rightarrow> db_fault \<Rightarrow> maintenance_record \<Rightarrow> gate_state \<times> maintenance_db
     \<Rightarrow> (op_error + unit) \<times> gate_state \<times> maintenance_db" where
  "gate_persist enc fault next gd =
     (let (g, db) = gd;
          (result, db') = save_record enc next fault db;
          (answer, g') = persist_confirm next result g
      in (answer, g', db'))"

text \<open>\<open>enter\<close> and \<open>leave\<close> as one caller sees them when nothing comes between their halves.\<close>

definition gate_enter ::
  "(maintenance_record \<Rightarrow> string) \<Rightarrow> db_fault \<Rightarrow> string \<Rightarrow> u64 \<Rightarrow> gate_state \<times> maintenance_db
     \<Rightarrow> (op_error + unit) \<times> gate_state \<times> maintenance_db" where
  "gate_enter enc fault deployment token gd =
     (case validate_owner deployment token of
        Inl e \<Rightarrow> (Err e, gd)
      | Inr _ \<Rightarrow>
          (case enter_begin deployment token (fst gd) of
             (Inl e, g) \<Rightarrow> (Err e, g, snd gd)
           | (Inr None, g) \<Rightarrow> (Ok (), g, snd gd)
           | (Inr (Some next), g) \<Rightarrow> gate_persist enc fault next (g, snd gd)))"

definition gate_leave ::
  "(maintenance_record \<Rightarrow> string) \<Rightarrow> db_fault \<Rightarrow> string \<Rightarrow> u64 \<Rightarrow> nat \<Rightarrow> gate_state \<times> maintenance_db
     \<Rightarrow> (op_error + unit) \<times> gate_state \<times> maintenance_db" where
  "gate_leave enc fault deployment token pending_ports gd =
     (case validate_owner deployment token of
        Inl e \<Rightarrow> (Err e, gd)
      | Inr _ \<Rightarrow>
          (case leave_begin deployment token pending_ports (fst gd) of
             Inl e \<Rightarrow> (Err e, gd)
           | Inr None \<Rightarrow> (Ok (), gd)
           | Inr (Some next) \<Rightarrow> gate_persist enc fault next gd))"

end
