(* ===== verification/Operations_State.thy ===== *)
theory Operations_State
  imports State_Files Maintenance Serial_Transport Protocol
begin

text \<open>
  The state of the operations service (operations/mod.rs): the stored settings and station
  records, the snapshots of ports and devices, the start-up that reconciles stored records with
  the configured ports, and the read-only queries. \<open>serde_json\<close>'s texts of the two stored states
  are parameters, as is SHA-256.
\<close>

section \<open>Stored states and snapshots\<close>

record stored_port =
  sp_enabled :: bool
  sp_device_read_enabled :: "(string \<times> bool) list"

record stored_state =
  ss_schema_version :: u32
  ss_revision :: string
  ss_ports :: "(string \<times> stored_port) list"

record stored_station_entry =
  se_topology_fingerprint :: string
  se_record :: station_version_record

type_synonym station_map = "(string \<times> (string \<times> stored_station_entry) list) list"

record stored_station_state =
  st_schema_version :: u32
  st_revision :: string
  st_ports :: station_map

record device_snapshot =
  dn_device_id :: string
  dn_name :: string
  dn_read_enabled :: bool
  dn_applied_read_enabled :: bool
  dn_communication_ok :: bool
  dn_last_data_at :: "string option"
  dn_station_version :: station_version_record

record ops_port_snapshot =
  pn_port_id :: string
  pn_port_name :: string
  pn_enabled :: bool
  pn_applied_enabled :: bool
  pn_open :: bool
  pn_devices :: "device_snapshot list"
  pn_pending_commands :: nat
  pn_control_pending :: bool
  pn_last_control_error :: "string option"

record ops_state =
  os_saved :: stored_state
  os_station_saved :: stored_station_state
  os_ports :: "(string \<times> ops_port_snapshot) list"
  os_pending :: "string \<Rightarrow> u64 option"

text \<open>The channel to a worker: closed when the receiver is gone.\<close>

record worker_channel =
  ch_open :: bool
  ch_queue :: "command list"

text \<open>
  The shared state behind \<open>Operations\<close> with the two state files; the command tracker and the
  configuration repository are modelled apart.
\<close>

record operations =
  op_maintenance :: gate_state
  op_state :: ops_state
  op_senders :: "string \<Rightarrow> worker_channel option"
  op_state_dir :: state_dir
  op_station_dir :: state_dir
  op_shutdown :: bool

record state_codec =
  sc_enc :: "stored_state \<Rightarrow> string"
  sc_dec :: "string \<Rightarrow> string + stored_state"
  sc_station_enc :: "stored_station_state \<Rightarrow> string"
  sc_station_dec :: "string \<Rightarrow> string + stored_station_state"

section \<open>Reading the stored states\<close>

definition default_stored_state :: stored_state where
  "default_stored_state = \<lparr>ss_schema_version = 1, ss_revision = ''1'', ss_ports = []\<rparr>"

definition default_stored_station_state :: stored_station_state where
  "default_stored_station_state = \<lparr>st_schema_version = 1, st_revision = ''1'', st_ports = []\<rparr>"

definition read_state :: "state_codec \<Rightarrow> state_dir \<Rightarrow> (string + stored_state) \<times> state_dir" where
  "read_state cd d =
     (case read_state_text d of
        (Inl e, d') \<Rightarrow> (Err e, d')
      | (Inr None, d') \<Rightarrow> (Ok default_stored_state, d')
      | (Inr (Some t), d') \<Rightarrow>
          (case sc_dec cd t of
             Inl e \<Rightarrow> (Err e, d')
           | Inr v \<Rightarrow>
               if ss_schema_version v \<noteq> 1 \<or> \<not> canonical_revision (ss_revision v)
               then (Err ''invalid operations schema/revision'', d') else (Ok v, d')))"

definition read_station_state :: "state_codec \<Rightarrow> state_dir \<Rightarrow> (string + stored_station_state) \<times> state_dir" where
  "read_station_state cd d =
     (case read_station_state_text d of
        (Inl e, d') \<Rightarrow> (Err e, d')
      | (Inr None, d') \<Rightarrow> (Ok default_stored_station_state, d')
      | (Inr (Some t), d') \<Rightarrow>
          (case sc_station_dec cd t of
             Inl e \<Rightarrow> (Err e, d')
           | Inr v \<Rightarrow>
               if st_schema_version v \<noteq> 1 \<or> \<not> canonical_revision (st_revision v)
               then (Err ''invalid station version schema/revision'', d') else (Ok v, d')))"

section \<open>Start-up\<close>

text \<open>The digest is over the port, the address, the prefix and the sorted point names.\<close>

definition station_topology_fingerprint ::
  "(string \<Rightarrow> string) \<Rightarrow> string \<Rightarrow> device_config \<Rightarrow> string" where
  "station_topology_fingerprint sha port device =
     sha (port @ [char_of (0::nat)] @ [char_of (unat (cfg_device_id (dc_config device)))]
          @ cfg_kks_prefix (dc_config device)
          @ concat (map (\<lambda>k. char_of (0::nat) # k) (sort (map rec_kks (dc_records device)))))"

definition device_key_text :: "u8 \<Rightarrow> string" where
  "device_key_text n = show_nat (unat n)"

definition reconcile_entry :: "string \<Rightarrow> stored_station_entry \<Rightarrow> stored_station_entry" where
  "reconcile_entry fingerprint e =
     (let e1 = (if se_topology_fingerprint e \<noteq> fingerprint
                then e\<lparr>se_topology_fingerprint := fingerprint,
                       se_record := (reset_for_configured_type (se_record e)
                         (configured_module_type (se_record e)))\<lparr>stale := False\<rparr>\<rparr>
                else e);
          r = se_record e1
      in if version_state r = ''querying''
         then e1\<lparr>se_record := r\<lparr>version_state := ''failed'',
                last_version_error := ''previous version query was interrupted by process shutdown'',
                consecutive_failures := saturating_inc (consecutive_failures r),
                stale := has_last_version r\<rparr>\<rparr>
         else e1)"

text \<open>The name of a device in the snapshot: the two characters for \<open>device\<close>, a space, the address.\<close>

definition device_name :: "u8 \<Rightarrow> string" where
  "device_name n = map (char_of :: nat \<Rightarrow> char) [232, 174, 190, 229, 164, 135] @ '' '' @ show_nat (unat n)"

definition initial_device :: "u8 \<Rightarrow> bool \<Rightarrow> station_version_record \<Rightarrow> device_snapshot" where
  "initial_device n enabled record =
     \<lparr>dn_device_id = device_key_text n, dn_name = device_name n, dn_read_enabled = enabled,
      dn_applied_read_enabled = False, dn_communication_ok = False, dn_last_data_at = None,
      dn_station_version = record\<rparr>"

text \<open>The inner loop over the devices of a port.\<close>

fun reconcile_devices ::
  "(device_config \<Rightarrow> string) \<Rightarrow> string \<Rightarrow> device_config list
     \<Rightarrow> stored_port \<times> station_map \<times> (string \<times> device_snapshot) list
     \<Rightarrow> string + stored_port \<times> station_map \<times> (string \<times> device_snapshot) list" where
  "reconcile_devices fp port [] acc = Ok acc"
| "reconcile_devices fp port (device # rest) (desired, stations, devices) =
     (let n = cfg_device_id (dc_config device);
          key = device_key_text n;
          fingerprint = fp device;
          desired' = desired\<lparr>sp_device_read_enabled :=
            entry_or_insert key True (\<lambda>b. b) (sp_device_read_enabled desired)\<rparr>;
          enabled = (case map_of (sp_device_read_enabled desired) key of Some b \<Rightarrow> b | None \<Rightarrow> True);
          fresh = \<lparr>se_topology_fingerprint = fingerprint, se_record = default_station_version\<rparr>;
          previous = (case map_of stations port of None \<Rightarrow> [] | Some m \<Rightarrow> m);
          entry = reconcile_entry fingerprint (case map_of previous key of Some e \<Rightarrow> e | None \<Rightarrow> fresh);
          stations' = btree_insert port (btree_insert key entry previous) stations
      in if map_of devices key \<noteq> None then Err ''duplicate operations device''
         else reconcile_devices fp port rest
                (desired', stations', btree_insert key (initial_device n enabled (se_record entry)) devices))"

definition initial_port :: "string \<Rightarrow> bool \<Rightarrow> device_snapshot list \<Rightarrow> ops_port_snapshot" where
  "initial_port port enabled devices =
     \<lparr>pn_port_id = port, pn_port_name = port, pn_enabled = enabled, pn_applied_enabled = False,
      pn_open = False, pn_devices = devices, pn_pending_commands = 0, pn_control_pending = False,
      pn_last_control_error = None\<rparr>"

text \<open>The loop over the configured ports.\<close>

fun reconcile_ports ::
  "(string \<Rightarrow> device_config \<Rightarrow> string) \<Rightarrow> serial_port_config list
     \<Rightarrow> (string \<times> stored_port) list \<times> station_map \<times> (string \<times> ops_port_snapshot) list
     \<Rightarrow> string + (string \<times> stored_port) list \<times> station_map \<times> (string \<times> ops_port_snapshot) list" where
  "reconcile_ports fp [] acc = Ok acc"
| "reconcile_ports fp (port # rest) (saved, stations, snapshots) =
     (let name = spc_port_number port in
      if map_of snapshots name \<noteq> None then Err ''duplicate operations port''
      else let desired = (case map_of saved name of
                 Some sp \<Rightarrow> sp | None \<Rightarrow> \<lparr>sp_enabled = True, sp_device_read_enabled = []\<rparr>)
           in and_then (reconcile_devices (fp name) name (spc_devices port) (desired, stations, []))
                (\<lambda>(desired', stations', devices).
                   reconcile_ports fp rest
                     (btree_insert name desired' saved, stations',
                      btree_insert name (initial_port name (sp_enabled desired') (map snd devices)) snapshots)))"

text \<open>Stored records of ports and devices that are no longer configured are dropped.\<close>

definition retain_configured :: "serial_port_config list \<Rightarrow> station_map \<Rightarrow> station_map" where
  "retain_configured ports stations =
     (let configured = map (\<lambda>p. (spc_port_number p, map (\<lambda>d. device_key_text (cfg_device_id (dc_config d))) (spc_devices p)))
                         (filter (\<lambda>p. spc_devices p \<noteq> []) ports)
      in List.map_filter (\<lambda>(port, devices).
           case map_of configured port of
             None \<Rightarrow> None
           | Some keys \<Rightarrow> Some (port, filter (\<lambda>(key, e). key \<in> set keys) devices)) stations)"

text \<open>
  \<open>new_with_directories\<close> without the directories themselves and the other components it opens; the
  two files are read, reconciled, and the station records are written back when they changed.
\<close>

definition operations_new ::
  "state_codec \<Rightarrow> (string \<Rightarrow> string) \<Rightarrow> serial_port_config list \<Rightarrow> gate_state \<Rightarrow> state_dir \<Rightarrow> state_dir
     \<Rightarrow> (string + operations) \<times> state_dir \<times> state_dir" where
  "operations_new cd sha ports gate d1 d2 =
     (case read_state cd d1 of
        (Inl e, d1') \<Rightarrow> (Err e, d1', d2)
      | (Inr saved, d1') \<Rightarrow>
          (case read_station_state cd d2 of
             (Inl e, d2') \<Rightarrow> (Err e, d1', d2')
           | (Inr station_saved, d2') \<Rightarrow>
               (case reconcile_ports (station_topology_fingerprint sha) ports
                       (ss_ports saved, st_ports station_saved, []) of
                  Inl e \<Rightarrow> (Err e, d1', d2')
                | Inr (saved_ports, stations, snapshots) \<Rightarrow>
                    (let kept = station_saved\<lparr>st_ports := retain_configured ports stations\<rparr>;
                         (written, d2'') =
                           (if sc_station_enc cd kept \<noteq> sc_station_enc cd station_saved
                            then case increment_persisted_revision (st_revision kept) of
                                   Inl e \<Rightarrow> (Err e, d2')
                                 | Inr r \<Rightarrow>
                                     (let next = kept\<lparr>st_revision := r\<rparr>;
                                          (p, d) = persist_station_state r (sc_station_enc cd next) (with_faults (sd_faults d2') d2')
                                      in (map_ok (\<lambda>_. next) p, d))
                            else (Ok kept, d2'))
                     in case written of
                          Inl e \<Rightarrow> (Err e, d1', d2'')
                        | Inr station \<Rightarrow>
                            (Ok \<lparr>op_maintenance = gate,
                                 op_state = \<lparr>os_saved = saved\<lparr>ss_ports := saved_ports\<rparr>,
                                   os_station_saved = station, os_ports = snapshots,
                                   os_pending = (\<lambda>_. None)\<rparr>,
                                 op_senders = (\<lambda>_. None), op_state_dir = d1', op_station_dir = d2'',
                                 op_shutdown = False\<rparr>, d1', d2'')))))"

section \<open>Queries\<close>

definition find_device :: "string \<Rightarrow> ops_port_snapshot \<Rightarrow> device_snapshot option" where
  "find_device key port = find (\<lambda>d. dn_device_id d = key) (pn_devices port)"

definition port_of :: "string \<Rightarrow> operations \<Rightarrow> ops_port_snapshot option" where
  "port_of port_id ops = map_of (os_ports (op_state ops)) port_id"

definition initial_port_enabled :: "string \<Rightarrow> operations \<Rightarrow> bool" where
  "initial_port_enabled port_id ops =
     (case port_of port_id ops of Some p \<Rightarrow> pn_enabled p | None \<Rightarrow> False)"

definition initial_device_read_enabled :: "string \<Rightarrow> u8 \<Rightarrow> operations \<Rightarrow> bool" where
  "initial_device_read_enabled port_id device_id ops =
     (case Option.bind (port_of port_id ops) (find_device (device_key_text device_id)) of
        Some d \<Rightarrow> dn_read_enabled d | None \<Rightarrow> False)"

definition initial_module_type :: "string \<Rightarrow> u8 \<Rightarrow> operations \<Rightarrow> module_type" where
  "initial_module_type port_id device_id ops =
     (case Option.bind (port_of port_id ops) (find_device (device_key_text device_id)) of
        Some d \<Rightarrow> configured_module_type (dn_station_version d) | None \<Rightarrow> MT_Unknown)"

definition detected_conflict :: "station_version_record \<Rightarrow> bool" where
  "detected_conflict r \<longleftrightarrow> detected_module_type r = MT_LegacyRussian \<and> type_mismatch r"

definition startup_version_query_devices :: "string \<Rightarrow> operations \<Rightarrow> u8 list" where
  "startup_version_query_devices port_id ops =
     (case port_of port_id ops of
        None \<Rightarrow> []
      | Some p \<Rightarrow>
          List.map_filter (\<lambda>d. parse_u8 (dn_device_id d))
            (filter (\<lambda>d. configured_module_type (dn_station_version d) = MT_Domestic
                          \<and> \<not> detected_conflict (dn_station_version d)) (pn_devices p)))"

definition pending_port_operations :: "operations \<Rightarrow> nat" where
  "pending_port_operations ops =
     length (filter (\<lambda>(k, p). pn_control_pending p \<or> pn_pending_commands p \<noteq> 0) (os_ports (op_state ops)))"

definition maintenance_status :: "operations \<Rightarrow> gate_snapshot" where
  "maintenance_status ops = gate_status (pending_port_operations ops) (op_maintenance ops)"

text \<open>The status without the build's constants and the parts of the other components.\<close>

record status_view =
  sv_revision :: string
  sv_station_revision :: string
  sv_maintenance :: gate_snapshot
  sv_ports :: "ops_port_snapshot list"

definition ops_status :: "operations \<Rightarrow> status_view" where
  "ops_status ops =
     \<lparr>sv_revision = ss_revision (os_saved (op_state ops)),
      sv_station_revision = st_revision (os_station_saved (op_state ops)),
      sv_maintenance = maintenance_status ops,
      sv_ports = map snd (os_ports (op_state ops))\<rparr>"

definition register_worker :: "string \<Rightarrow> worker_channel \<Rightarrow> operations \<Rightarrow> operations" where
  "register_worker port_id channel ops = ops\<lparr>op_senders := (op_senders ops)(port_id \<mapsto> channel)\<rparr>"

end
