(* ===== verification/Operations.thy ===== *)
theory Operations
  imports Operations_State
begin

text \<open>
  The operations that change the state of the service (operations/mod.rs): command admission, the
  two acquisition settings, the module type and the version query of a station, and the reports of
  the workers. A handler is the section under the state lock followed by the wait for the worker's
  answer; what other threads do meanwhile, and the answer, are an argument of the handler.
\<close>

section \<open>Common steps\<close>

definition on_state :: "(ops_state \<Rightarrow> ops_state) \<Rightarrow> operations \<Rightarrow> operations" where
  "on_state f ops = ops\<lparr>op_state := f (op_state ops)\<rparr>"

definition on_port :: "string \<Rightarrow> (ops_port_snapshot \<Rightarrow> ops_port_snapshot) \<Rightarrow> ops_state \<Rightarrow> ops_state" where
  "on_port port_id f s = s\<lparr>os_ports := adjust port_id f (os_ports s)\<rparr>"

text \<open>\<open>iter_mut().find\<close>: the first device with the identifier.\<close>

fun update_first :: "('a \<Rightarrow> bool) \<Rightarrow> ('a \<Rightarrow> 'a) \<Rightarrow> 'a list \<Rightarrow> 'a list" where
  "update_first P f [] = []"
| "update_first P f (x # xs) = (if P x then f x # xs else x # update_first P f xs)"

definition on_device :: "string \<Rightarrow> (device_snapshot \<Rightarrow> device_snapshot) \<Rightarrow> ops_port_snapshot \<Rightarrow> ops_port_snapshot" where
  "on_device key f p = p\<lparr>pn_devices := update_first (\<lambda>d. dn_device_id d = key) f (pn_devices p)\<rparr>"

definition set_pending :: "string \<Rightarrow> u64 option \<Rightarrow> ops_state \<Rightarrow> ops_state" where
  "set_pending port_id r s = s\<lparr>os_pending := (os_pending s)(port_id := r)\<rparr>"

definition control_started :: "string \<Rightarrow> u64 \<Rightarrow> ops_state \<Rightarrow> ops_state" where
  "control_started port_id rv s =
     set_pending port_id (Some rv)
       (on_port port_id (\<lambda>p. p\<lparr>pn_control_pending := True, pn_last_control_error := None\<rparr>) s)"

definition control_ended :: "string \<Rightarrow> string option \<Rightarrow> ops_state \<Rightarrow> ops_state" where
  "control_ended port_id outcome s =
     on_port port_id (\<lambda>p. p\<lparr>pn_control_pending := False, pn_last_control_error := outcome\<rparr>)
       (set_pending port_id None s)"

text \<open>\<open>Sender::send\<close>: refused when the receiver is gone.\<close>

definition channel_send :: "string \<Rightarrow> command \<Rightarrow> operations \<Rightarrow> bool \<times> operations" where
  "channel_send port_id c ops =
     (case op_senders ops port_id of
        Some ch \<Rightarrow>
          if ch_open ch
          then (True, ops\<lparr>op_senders := (op_senders ops)(port_id \<mapsto> ch\<lparr>ch_queue := ch_queue ch @ [c]\<rparr>)\<rparr>)
          else (False, ops)
      | None \<Rightarrow> (False, ops))"

definition control_command :: "string \<Rightarrow> command_type \<Rightarrow> u64 \<Rightarrow> command" where
  "control_command port_id ct rv =
     \<lparr>cmd_com = port_id, cmd_command = ct, cmd_ack_id = None, cmd_expires_at = None,
      cmd_control_receipt = Some rv, cmd_permit = False\<rparr>"

definition worker_sender :: "string \<Rightarrow> operations \<Rightarrow> op_error + unit" where
  "worker_sender port_id ops =
     (if op_senders ops port_id = None
      then Err (op_error_new ''operation_failed'' ''serial worker is unavailable'') else Ok ())"

definition save_settings ::
  "state_codec \<Rightarrow> nat option list \<Rightarrow> stored_state \<Rightarrow> operations \<Rightarrow> (string + unit) \<times> operations" where
  "save_settings cd fs next ops =
     (let (r, d) = persist_state (ss_revision next) (sc_enc cd next) (with_faults fs (op_state_dir ops))
      in (r, ops\<lparr>op_state_dir := d\<rparr>))"

definition save_stations ::
  "state_codec \<Rightarrow> nat option list \<Rightarrow> stored_station_state \<Rightarrow> operations \<Rightarrow> (string + unit) \<times> operations" where
  "save_stations cd fs next ops =
     (let (r, d) = persist_station_state (st_revision next) (sc_station_enc cd next)
                     (with_faults fs (op_station_dir ops))
      in (r, ops\<lparr>op_station_dir := d\<rparr>))"

text \<open>The shutdown check at the head of every section.\<close>

definition shutting_down :: "string \<Rightarrow> op_error" where
  "shutting_down rv = with_revision (op_error_new ''operation_failed'' ''gateway is shutting down'') rv"

section \<open>Command admission\<close>

definition admit_command :: "string \<Rightarrow> operations \<Rightarrow> (op_error + unit) \<times> operations" where
  "admit_command port_id ops =
     (case gate_admit (op_maintenance ops) of
        Inl e \<Rightarrow> (Err e, ops)
      | Inr g \<Rightarrow>
          (if op_shutdown ops then (Err (shutting_down (ss_revision (os_saved (op_state ops)))), ops)
           else case port_of port_id ops of
             None \<Rightarrow> (Err (op_error_new ''not_found'' ''unknown port''), ops)
           | Some p \<Rightarrow>
               if pn_control_pending p \<or> pn_pending_commands p > 0
               then (Err (op_error_new ''busy'' ''port control is still pending''), ops)
               else if \<not> pn_enabled p \<or> \<not> pn_applied_enabled p
               then (Err (op_error_new ''operation_failed'' ''port is disabled or not yet applied''), ops)
               else (Ok (), on_state (on_port port_id (\<lambda>p. p\<lparr>pn_pending_commands := pn_pending_commands p + 1\<rparr>))
                              (ops\<lparr>op_maintenance := g\<rparr>))))"

text \<open>\<open>Drop for PermitInner\<close>, and of the admission it holds.\<close>

definition permit_drop :: "string \<Rightarrow> operations \<Rightarrow> operations" where
  "permit_drop port_id ops =
     (let ops' = on_state (on_port port_id (\<lambda>p. p\<lparr>pn_pending_commands := pn_pending_commands p - 1\<rparr>)) ops
      in ops'\<lparr>op_maintenance := admission_drop (op_maintenance ops')\<rparr>)"

section \<open>Acquisition settings\<close>

text \<open>The command of a setting, for a port or for one of its devices.\<close>

definition setting_command :: "ops_port_snapshot \<Rightarrow> string option \<Rightarrow> bool \<Rightarrow> op_error + command_type" where
  "setting_command port device_id enabled =
     (case device_id of
        None \<Rightarrow> Ok (PortStatus enabled)
      | Some key \<Rightarrow>
          if \<not> list_ex (\<lambda>d. dn_device_id d = key) (pn_devices port)
          then Err (op_error_new ''not_found'' ''unknown device'')
          else case parse_u8 key of
                 None \<Rightarrow> Err (op_error_new ''invalid_request'' ''invalid device ID'')
               | Some n \<Rightarrow> Ok (DeviceReadSetting n enabled))"

definition stored_setting :: "string \<Rightarrow> string option \<Rightarrow> bool \<Rightarrow> stored_state \<Rightarrow> stored_state" where
  "stored_setting port_id device_id enabled s =
     s\<lparr>ss_ports := adjust port_id (\<lambda>sp. case device_id of
         Some key \<Rightarrow> sp\<lparr>sp_device_read_enabled := btree_insert key enabled (sp_device_read_enabled sp)\<rparr>
       | None \<Rightarrow> sp\<lparr>sp_enabled := enabled\<rparr>) (ss_ports s)\<rparr>"

definition desired_setting :: "string option \<Rightarrow> bool \<Rightarrow> ops_port_snapshot \<Rightarrow> ops_port_snapshot" where
  "desired_setting device_id enabled p =
     (case device_id of
        Some key \<Rightarrow> on_device key (\<lambda>d. d\<lparr>dn_read_enabled := enabled\<rparr>) p
      | None \<Rightarrow> p\<lparr>pn_enabled := enabled\<rparr>)"

text \<open>The section of \<open>set_control\<close> under the state lock.\<close>

definition set_control_locked ::
  "state_codec \<Rightarrow> nat option list \<Rightarrow> string \<Rightarrow> string option \<Rightarrow> bool \<Rightarrow> string \<Rightarrow> operations
     \<Rightarrow> (op_error + u64) \<times> operations" where
  "set_control_locked cd fs port_id device_id enabled expected ops =
     (let s = op_state ops; current = ss_revision (os_saved s) in
      if op_shutdown ops then (Err (shutting_down current), ops)
      else if expected \<noteq> current
      then (Err (with_revision (op_error_new ''conflict'' ''operations revision changed'') current), ops)
      else case port_of port_id ops of
        None \<Rightarrow> (Err (op_error_new ''not_found'' ''unknown port''), ops)
      | Some port \<Rightarrow>
          if pn_control_pending port \<or> pn_pending_commands port \<noteq> 0
          then (Err (with_revision (op_error_new ''busy'' ''port has a pending command or control operation'') current), ops)
          else case setting_command port device_id enabled of
            Inl e \<Rightarrow> (Err e, ops)
          | Inr ct \<Rightarrow>
              (case increment_revision current of
                 Inl e \<Rightarrow> (Err e, ops)
               | Inr rv \<Rightarrow>
                   (let next = stored_setting port_id device_id enabled ((os_saved s)\<lparr>ss_revision := show_u64 rv\<rparr>) in
                    case save_settings cd fs next ops of
                      (Inl e, ops1) \<Rightarrow>
                        (Err (op_error_new ''persistence_failed'' (''could not save acquisition settings: '' @ e)), ops1)
                    | (Inr _, ops1) \<Rightarrow>
                        (let ops2 = on_state (\<lambda>s. control_started port_id rv
                               (on_port port_id (desired_setting device_id enabled) (s\<lparr>os_saved := next\<rparr>))) ops1
                         in case channel_send port_id (control_command port_id ct rv) ops2 of
                              (True, ops3) \<Rightarrow> (Ok rv, ops3)
                            | (False, ops3) \<Rightarrow>
                                (Err (with_revision (op_error_new ''operation_failed''
                                   ''desired setting saved, worker unavailable; refresh status before further action'') (show_u64 rv)),
                                 on_state (control_ended port_id
                                   (Some ''worker channel closed; desired setting is saved but not applied'')) ops3)))))"

text \<open>The worker's answer, or its absence, at the end of the wait.\<close>

datatype control_reply = Reply_Ok | Reply_Err string | Reply_Timeout | Reply_Disconnected

definition control_answer :: "string \<Rightarrow> u64 \<Rightarrow> control_reply \<Rightarrow> op_error + string" where
  "control_answer gone rv reply =
     (case reply of
        Reply_Ok \<Rightarrow> Ok ''Applied''
      | Reply_Err message \<Rightarrow> Err (with_revision (op_error_new ''operation_failed'' message) (show_u64 rv))
      | Reply_Timeout \<Rightarrow> Ok ''Pending''
      | Reply_Disconnected \<Rightarrow> Err (with_revision (op_error_new ''operation_failed'' gone) (show_u64 rv)))"

type_synonym control_wait = "operations \<Rightarrow> control_reply \<times> operations"

record control_result =
  cr_view :: status_view
  cr_status :: string
  cr_revision :: "string option"

definition wait_control ::
  "string \<Rightarrow> control_wait \<Rightarrow> u64 \<Rightarrow> operations \<Rightarrow> (op_error + control_result) \<times> operations" where
  "wait_control gone wait rv ops =
     (let (reply, ops') = wait ops
      in (map_ok (\<lambda>status. \<lparr>cr_view = ops_status ops', cr_status = status, cr_revision = Some (show_u64 rv)\<rparr>)
            (control_answer gone rv reply), ops'))"

definition set_control ::
  "state_codec \<Rightarrow> nat option list \<Rightarrow> control_wait \<Rightarrow> string \<Rightarrow> json \<Rightarrow> operations
     \<Rightarrow> (op_error + control_result) \<times> operations" where
  "set_control cd fs wait action request ops =
     (let args =
        and_then (string_arg request ''port_id'') (\<lambda>port_id.
        and_then (if action = ''set_device_read_enabled''
                  then map_ok Some (string_arg request ''device_id'') else Ok None) (\<lambda>device_id.
        and_then (ok_or (op_error_new ''invalid_request'' ''enabled must be Boolean'')
                    (Option.bind (json_get request ''enabled'') json_as_bool)) (\<lambda>enabled.
        and_then (string_arg request ''expected_revision'') (\<lambda>expected.
        and_then (worker_sender port_id ops) (\<lambda>_.
          Ok (port_id, device_id, enabled, expected))))))
      in case args of
           Inl e \<Rightarrow> (Err e, ops)
         | Inr (port_id, device_id, enabled, expected) \<Rightarrow>
             (case set_control_locked cd fs port_id device_id enabled expected ops of
                (Inl e, ops1) \<Rightarrow> (Err e, ops1)
              | (Inr rv, ops1) \<Rightarrow>
                  wait_control ''worker ended without confirming; desired setting remains saved'' wait rv ops1))"

section \<open>Station versions\<close>

definition validate_station_request ::
  "ops_state \<Rightarrow> string \<Rightarrow> string \<Rightarrow> string \<Rightarrow> string \<Rightarrow> bool \<Rightarrow> op_error + unit" where
  "validate_station_request s expected expected_station port_id key query =
     (let station = st_revision (os_station_saved s) in
      if expected \<noteq> ss_revision (os_saved s)
      then Err (with_revision (op_error_new ''conflict'' ''operations revision changed'') (ss_revision (os_saved s)))
      else if expected_station \<noteq> station
      then Err (with_revision (op_error_new ''conflict'' ''station version revision changed'') station)
      else case map_of (os_ports s) port_id of
        None \<Rightarrow> Err (op_error_new ''not_found'' ''unknown port'')
      | Some port \<Rightarrow>
          if pn_control_pending port \<or> pn_pending_commands port \<noteq> 0
          then Err (with_revision (op_error_new ''busy'' ''port has a pending command or control operation'') station)
          else case find_device key port of
            None \<Rightarrow> Err (op_error_new ''not_found'' ''unknown device'')
          | Some device \<Rightarrow>
              if \<not> query then Ok ()
              else if configured_module_type (dn_station_version device) \<noteq> MT_Domestic
              then Err (with_revision (op_error_new ''conflict''
                     ''version query is allowed only for a station configured as domestic'') station)
              else if \<not> pn_enabled port \<or> \<not> pn_applied_enabled port
              then Err (op_error_new ''conflict'' ''port acquisition is disabled or not yet applied'')
              else if \<not> pn_open port then Err (op_error_new ''operation_failed'' ''serial port is offline'')
              else if \<not> dn_read_enabled device \<or> \<not> dn_applied_read_enabled device
              then Err (op_error_new ''conflict'' ''device acquisition is disabled or not yet applied'')
              else Ok ())"

text \<open>The entry of a station, if it is stored, and a stored state with its record changed.\<close>

definition station_entry :: "string \<Rightarrow> string \<Rightarrow> stored_station_state \<Rightarrow> stored_station_entry option" where
  "station_entry port_id key st = Option.bind (map_of (st_ports st) port_id) (\<lambda>m. map_of m key)"

definition on_station ::
  "string \<Rightarrow> string \<Rightarrow> (station_version_record \<Rightarrow> station_version_record) \<Rightarrow> stored_station_state
     \<Rightarrow> stored_station_state" where
  "on_station port_id key f st =
     st\<lparr>st_ports := adjust port_id (adjust key (\<lambda>e. e\<lparr>se_record := f (se_record e)\<rparr>)) (st_ports st)\<rparr>"

definition show_record :: "string \<Rightarrow> string \<Rightarrow> station_version_record \<Rightarrow> ops_state \<Rightarrow> ops_state" where
  "show_record port_id key r = on_port port_id (on_device key (\<lambda>d. d\<lparr>dn_station_version := r\<rparr>))"

definition query_marked :: "string \<Rightarrow> station_version_record \<Rightarrow> station_version_record" where
  "query_marked now r =
     r\<lparr>version_state := ''querying'', last_version_attempt_at := Some now, last_version_error := []\<rparr>"

text \<open>
  The common course of three operations: the next revision, the stored record of one station
  changed, the file written, then the record shown in the snapshot.
\<close>

datatype station_error = SE_Exhausted op_error | SE_Missing | SE_Unsaved string

definition change_station ::
  "state_codec \<Rightarrow> nat option list \<Rightarrow> string \<Rightarrow> string \<Rightarrow> (station_version_record \<Rightarrow> station_version_record)
     \<Rightarrow> operations \<Rightarrow> (station_error + u64) \<times> operations" where
  "change_station cd fs port_id key f ops =
     (let station = os_station_saved (op_state ops) in
      case increment_revision (st_revision station) of
        Inl e \<Rightarrow> (Err (SE_Exhausted e), ops)
      | Inr rv \<Rightarrow>
          (case station_entry port_id key station of
             None \<Rightarrow> (Err SE_Missing, ops)
           | Some e \<Rightarrow>
               (let next = on_station port_id key f (station\<lparr>st_revision := show_u64 rv\<rparr>) in
                case save_stations cd fs next ops of
                  (Inl m, ops1) \<Rightarrow> (Err (SE_Unsaved m), ops1)
                | (Inr _, ops1) \<Rightarrow>
                    (Ok rv, on_state (\<lambda>s. show_record port_id key (f (se_record e))
                                            (s\<lparr>os_station_saved := next\<rparr>)) ops1))))"

definition mark_station_query_pending ::
  "state_codec \<Rightarrow> nat option list \<Rightarrow> string \<Rightarrow> string \<Rightarrow> string \<Rightarrow> operations \<Rightarrow> (op_error + u64) \<times> operations" where
  "mark_station_query_pending cd fs now port_id key ops =
     (let (r, ops') = change_station cd fs port_id key (query_marked now) ops
      in (map_err (\<lambda>e. case e of
             SE_Exhausted x \<Rightarrow> x
           | SE_Missing \<Rightarrow> op_error_new ''not_found'' ''unknown station''
           | SE_Unsaved m \<Rightarrow> op_error_new ''persistence_failed'' (''could not save station query state: '' @ m)) r, ops'))"

definition hex_payload :: "bytes \<Rightarrow> string" where
  "hex_payload payload = concat (map format_02X payload)"

definition apply_station_query_result ::
  "string \<Rightarrow> string + station_version_response \<Rightarrow> station_version_record \<Rightarrow> station_version_record" where
  "apply_station_query_result now result r =
     (case result of
        Inr (Domestic payload cm plc) \<Rightarrow>
          (let mismatch = (configured_module_type r \<noteq> MT_Domestic) in
           r\<lparr>detected_module_type := MT_Domestic, type_mismatch := mismatch,
             communication_module_version := display_version cm,
             communication_module_version_raw := Some cm,
             plc_version := display_version plc, plc_version_raw := Some plc,
             version_payload := hex_payload payload,
             version_state := (if mismatch then ''type_mismatch'' else ''success''),
             last_version_success_at := Some now, last_version_error := [],
             consecutive_failures := 0, stale := False\<rparr>)
      | Inr (LegacyRussian payload) \<Rightarrow>
          (let mismatch = (configured_module_type r \<noteq> MT_LegacyRussian) in
           r\<lparr>detected_module_type := MT_LegacyRussian, type_mismatch := mismatch,
             communication_module_version := [], communication_module_version_raw := None,
             plc_version := [], plc_version_raw := None,
             version_payload := hex_payload payload,
             version_state := (if mismatch then ''type_mismatch'' else ''unsupported''),
             last_version_success_at := Some now,
             last_version_error := (if mismatch
               then ''configured domestic station returned the legacy all-FF marker'' else []),
             consecutive_failures := 0, stale := False\<rparr>)
      | Inl message \<Rightarrow>
          r\<lparr>version_state := ''failed'', last_version_error := message,
            consecutive_failures := saturating_inc (consecutive_failures r),
            stale := has_last_version r\<rparr>)"

definition report_station_query_result ::
  "state_codec \<Rightarrow> nat option list \<Rightarrow> string \<Rightarrow> string \<Rightarrow> u8 \<Rightarrow> string + station_version_response
     \<Rightarrow> operations \<Rightarrow> (string + unit) \<times> operations" where
  "report_station_query_result cd fs now port_id device_id result ops =
     (let (r, ops') = change_station cd fs port_id (device_key_text device_id) (apply_station_query_result now result) ops
      in (map_ok (\<lambda>_. ()) (map_err (\<lambda>e. case e of
             SE_Exhausted x \<Rightarrow> op_error_text x
           | SE_Missing \<Rightarrow> ''station disappeared while query was running''
           | SE_Unsaved m \<Rightarrow> ''could not persist station version result: '' @ m) r), ops'))"

text \<open>
  The section of \<open>set_device_module_type\<close> under the state lock; \<open>Ok None\<close> where the type is
  unchanged. A validated station has a stored entry; the code would panic without one. The reset
  record does not depend on the record before, so the shown and the stored one are the same.
\<close>

definition set_module_type_locked ::
  "state_codec \<Rightarrow> nat option list \<Rightarrow> string \<Rightarrow> string \<Rightarrow> u8 \<Rightarrow> module_type \<Rightarrow> string \<Rightarrow> string \<Rightarrow> operations
     \<Rightarrow> (op_error + u64 option) \<times> operations" where
  "set_module_type_locked cd fs port_id key device_id mt expected expected_station ops =
     (let s = op_state ops; station = os_station_saved s in
      if op_shutdown ops then (Err (shutting_down (st_revision station)), ops)
      else case validate_station_request s expected expected_station port_id key False of
        Inl e \<Rightarrow> (Err e, ops)
      | Inr _ \<Rightarrow>
          if map_option (\<lambda>d. configured_module_type (dn_station_version d))
               (Option.bind (port_of port_id ops) (find_device key)) = Some mt
          then (Ok None, ops)
          else case change_station cd fs port_id key (\<lambda>r. reset_for_configured_type r mt) ops of
            (Inl (SE_Exhausted e), ops1) \<Rightarrow> (Err e, ops1)
          | (Inl SE_Missing, ops1) \<Rightarrow> (Err (op_error_new ''panic'' ''validated station exists''), ops1)
          | (Inl (SE_Unsaved e), ops1) \<Rightarrow>
              (Err (op_error_new ''persistence_failed'' (''could not save station version settings: '' @ e)), ops1)
          | (Inr rv, ops1) \<Rightarrow>
              (let ops2 = on_state (control_started port_id rv) ops1
               in case channel_send port_id (control_command port_id (StationModuleTypeSetting device_id mt) rv) ops2 of
                    (True, ops3) \<Rightarrow> (Ok (Some rv), ops3)
                  | (False, ops3) \<Rightarrow>
                      (Err (with_revision (op_error_new ''operation_failed''
                         ''module type saved, but serial worker is unavailable'') (show_u64 rv)),
                       on_state (control_ended port_id
                         (Some ''worker channel closed; module type is saved and will apply on restart'')) ops3)))"

definition station_gone :: string where
  "station_gone = ''worker ended without confirming station operation''"

definition set_device_module_type ::
  "state_codec \<Rightarrow> nat option list \<Rightarrow> control_wait \<Rightarrow> json \<Rightarrow> operations \<Rightarrow> (op_error + control_result) \<times> operations" where
  "set_device_module_type cd fs wait request ops =
     (let args =
        and_then (string_arg request ''port_id'') (\<lambda>port_id.
        and_then (string_arg request ''device_id'') (\<lambda>key.
        and_then (ok_or (op_error_new ''invalid_request'' ''invalid device ID'') (parse_u8 key)) (\<lambda>device_id.
        and_then (and_then (string_arg request ''module_type'') (\<lambda>t.
            map_err (\<lambda>_. op_error_new ''invalid_request'' ''module_type must be unknown, domestic, or legacy_russian'')
              (module_type_from_str t))) (\<lambda>mt.
        and_then (string_arg request ''expected_revision'') (\<lambda>expected.
        and_then (string_arg request ''expected_station_revision'') (\<lambda>expected_station.
        and_then (worker_sender port_id ops) (\<lambda>_.
          Ok (port_id, key, device_id, mt, expected, expected_station))))))))
      in case args of
           Inl e \<Rightarrow> (Err e, ops)
         | Inr (port_id, key, device_id, mt, expected, expected_station) \<Rightarrow>
             (case set_module_type_locked cd fs port_id key device_id mt expected expected_station ops of
                (Inl e, ops1) \<Rightarrow> (Err e, ops1)
              | (Inr None, ops1) \<Rightarrow>
                  (Ok \<lparr>cr_view = ops_status ops1, cr_status = ''Unchanged'', cr_revision = None\<rparr>, ops1)
              | (Inr (Some rv), ops1) \<Rightarrow> wait_control station_gone wait rv ops1))"

definition query_version_locked ::
  "state_codec \<Rightarrow> nat option list \<Rightarrow> nat option list \<Rightarrow> string \<Rightarrow> string \<Rightarrow> string \<Rightarrow> u8 \<Rightarrow> string \<Rightarrow> string \<Rightarrow> operations
     \<Rightarrow> (op_error + u64) \<times> operations" where
  "query_version_locked cd fs fs' now port_id key device_id expected expected_station ops =
     (let s = op_state ops in
      if op_shutdown ops then (Err (shutting_down (st_revision (os_station_saved s))), ops)
      else case validate_station_request s expected expected_station port_id key True of
        Inl e \<Rightarrow> (Err e, ops)
      | Inr _ \<Rightarrow>
          (case mark_station_query_pending cd fs now port_id key ops of
             (Inl e, ops1) \<Rightarrow> (Err e, ops1)
           | (Inr rv, ops1) \<Rightarrow>
               (let ops2 = on_state (control_started port_id rv) ops1
                in case channel_send port_id (control_command port_id (QueryStationVersion device_id) rv) ops2 of
                     (True, ops3) \<Rightarrow> (Ok rv, ops3)
                   | (False, ops3) \<Rightarrow>
                       (let ops4 = on_state (control_ended port_id (Some ''serial worker channel closed'')) ops3
                        in (Err (with_revision (op_error_new ''operation_failed'' ''serial worker is unavailable'') (show_u64 rv)),
                            snd (report_station_query_result cd fs' now port_id device_id
                                   (Inl ''serial worker is unavailable'') ops4))))))"

definition query_device_version ::
  "state_codec \<Rightarrow> nat option list \<Rightarrow> nat option list \<Rightarrow> string \<Rightarrow> control_wait \<Rightarrow> json \<Rightarrow> operations
     \<Rightarrow> (op_error + control_result) \<times> operations" where
  "query_device_version cd fs fs' now wait request ops =
     (let args =
        and_then (string_arg request ''port_id'') (\<lambda>port_id.
        and_then (string_arg request ''device_id'') (\<lambda>key.
        and_then (ok_or (op_error_new ''invalid_request'' ''invalid device ID'') (parse_u8 key)) (\<lambda>device_id.
        and_then (string_arg request ''expected_revision'') (\<lambda>expected.
        and_then (string_arg request ''expected_station_revision'') (\<lambda>expected_station.
        and_then (worker_sender port_id ops) (\<lambda>_.
          Ok (port_id, key, device_id, expected, expected_station)))))))
      in case args of
           Inl e \<Rightarrow> (Err e, ops)
         | Inr (port_id, key, device_id, expected, expected_station) \<Rightarrow>
             (case query_version_locked cd fs fs' now port_id key device_id expected expected_station ops of
                (Inl e, ops1) \<Rightarrow> (Err e, ops1)
              | (Inr rv, ops1) \<Rightarrow> wait_control station_gone wait rv ops1))"

text \<open>The start of a throttled probe by the worker: \<open>Ok True\<close> when it goes ahead with its admission.\<close>

definition begin_automatic_station_query ::
  "state_codec \<Rightarrow> nat option list \<Rightarrow> string \<Rightarrow> string \<Rightarrow> u8 \<Rightarrow> operations \<Rightarrow> (op_error + bool) \<times> operations" where
  "begin_automatic_station_query cd fs now port_id device_id ops =
     (case gate_admit (op_maintenance ops) of
        Inl e \<Rightarrow> (Err e, ops)
      | Inr g \<Rightarrow>
          (let key = device_key_text device_id in
           if op_shutdown ops then (Ok False, ops)
           else case port_of port_id ops of
             None \<Rightarrow> (Ok False, ops)
           | Some port \<Rightarrow>
               (case find_device key port of
                  None \<Rightarrow> (Ok False, ops)
                | Some d \<Rightarrow>
                    if \<not> pn_enabled port \<or> \<not> pn_applied_enabled port \<or> \<not> pn_open port
                        \<or> \<not> dn_read_enabled d \<or> \<not> dn_applied_read_enabled d
                        \<or> configured_module_type (dn_station_version d) \<noteq> MT_Domestic
                        \<or> version_state (dn_station_version d) = ''querying''
                        \<or> detected_conflict (dn_station_version d)
                    then (Ok False, ops)
                    else case mark_station_query_pending cd fs now port_id key ops of
                           (Inl e, ops1) \<Rightarrow> (Err e, ops1)
                         | (Inr _, ops1) \<Rightarrow> (Ok True, ops1\<lparr>op_maintenance := g\<rparr>))))"

section \<open>Reports of the workers\<close>

definition interrupted :: "string \<Rightarrow> string \<Rightarrow> stored_station_entry \<Rightarrow> stored_station_entry" where
  "interrupted now message e =
     (if version_state (se_record e) = ''querying''
      then e\<lparr>se_record := apply_station_query_result now (Inl message) (se_record e)\<rparr> else e)"

definition interrupted_records ::
  "string \<Rightarrow> string \<Rightarrow> (string \<times> stored_station_entry) list \<Rightarrow> (string \<times> station_version_record) list" where
  "interrupted_records now message stations =
     map (\<lambda>(k, e). (k, se_record (interrupted now message e)))
       (filter (\<lambda>(k, e). version_state (se_record e) = ''querying'') stations)"

definition show_records :: "(string \<times> station_version_record) list \<Rightarrow> ops_port_snapshot \<Rightarrow> ops_port_snapshot" where
  "show_records changed p =
     p\<lparr>pn_devices := map (\<lambda>d. case map_of changed (dn_device_id d) of
                               Some r \<Rightarrow> d\<lparr>dn_station_version := r\<rparr> | None \<Rightarrow> d) (pn_devices p)\<rparr>"

definition fail_inflight_station_queries ::
  "state_codec \<Rightarrow> nat option list \<Rightarrow> string \<Rightarrow> string \<Rightarrow> string \<Rightarrow> operations \<Rightarrow> operations" where
  "fail_inflight_station_queries cd fs now port_id message ops =
     (let station = os_station_saved (op_state ops) in
      case map_of (st_ports station) port_id of
        None \<Rightarrow> ops
      | Some stations \<Rightarrow>
          (let changed = interrupted_records now message stations
           in if changed = [] then ops
              else case increment_persisted_revision (st_revision station) of
                Inl _ \<Rightarrow> ops
              | Inr rv \<Rightarrow>
                  (let next = station\<lparr>st_revision := rv,
                         st_ports := adjust port_id (map (\<lambda>(k, e). (k, interrupted now message e))) (st_ports station)\<rparr> in
                   case save_stations cd fs next ops of
                     (Inl _, ops1) \<Rightarrow> ops1
                   | (Inr _, ops1) \<Rightarrow>
                       on_state (\<lambda>s. on_port port_id (show_records changed) (s\<lparr>os_station_saved := next\<rparr>)) ops1)))"

text \<open>One device of a runtime report, with the stored staleness.\<close>

definition report_device ::
  "(string \<times> stored_station_entry) list \<Rightarrow> u8 \<times> bool \<times> bool \<times> string option \<Rightarrow> ops_port_snapshot \<Rightarrow> ops_port_snapshot" where
  "report_device stations rep =
     (case rep of (n, read_enabled, communication_ok, last_data_at) \<Rightarrow>
        on_device (device_key_text n) (\<lambda>d.
          let (saved_stale, has_version) = (case map_of stations (dn_device_id d) of
                Some e \<Rightarrow> (stale (se_record e), has_last_version (se_record e)) | None \<Rightarrow> (False, False))
          in d\<lparr>dn_applied_read_enabled := read_enabled, dn_communication_ok := communication_ok,
               dn_last_data_at := last_data_at,
               dn_station_version := (dn_station_version d)\<lparr>stale :=
                 saved_stale \<or> \<not> communication_ok \<and> has_version\<rparr>\<rparr>))"

definition report_runtime ::
  "string \<Rightarrow> bool \<Rightarrow> bool \<Rightarrow> (u8 \<times> bool \<times> bool \<times> string option) list \<Rightarrow> operations \<Rightarrow> operations" where
  "report_runtime port_id enabled opened devices ops =
     (let stations = (case map_of (st_ports (os_station_saved (op_state ops))) port_id of
            Some m \<Rightarrow> m | None \<Rightarrow> [])
      in on_state (on_port port_id (\<lambda>p.
           fold (report_device stations) devices (p\<lparr>pn_applied_enabled := enabled, pn_open := opened\<rparr>))) ops)"

definition control_is_current :: "string \<Rightarrow> u64 \<Rightarrow> operations \<Rightarrow> bool" where
  "control_is_current port_id rv ops \<longleftrightarrow> os_pending (op_state ops) port_id = Some rv"

definition ops_complete_control :: "string \<Rightarrow> u64 \<Rightarrow> string + unit \<Rightarrow> operations \<Rightarrow> operations" where
  "ops_complete_control port_id rv outcome ops =
     (if os_pending (op_state ops) port_id = Some rv
      then on_state (control_ended port_id (case outcome of Inl e \<Rightarrow> Some e | Inr _ \<Rightarrow> None)) ops
      else ops)"

definition fail_pending_controls :: "string \<Rightarrow> string \<Rightarrow> operations \<Rightarrow> operations" where
  "fail_pending_controls port_id message ops = on_state (control_ended port_id (Some message)) ops"

definition worker_stopped_ops :: "string \<Rightarrow> operations \<Rightarrow> operations" where
  "worker_stopped_ops port_id ops =
     on_state (\<lambda>s. on_port port_id (\<lambda>p. p\<lparr>pn_applied_enabled := False, pn_open := False,
          pn_devices := map (\<lambda>d. d\<lparr>dn_communication_ok := False, dn_applied_read_enabled := False,
            dn_station_version := (if has_last_version (dn_station_version d)
              then (dn_station_version d)\<lparr>stale := True\<rparr> else dn_station_version d)\<rparr>) (pn_devices p)\<rparr>)
        (control_ended port_id (Some ''serial worker stopped'') s)) ops"

end
