(* ===== verification/Operations_Runs.thy ===== *)
theory Operations_Runs
  imports Operations "HOL-Library.Multiset"
begin

text \<open>
  The operations service in use: requests, command permits, the workers' reports and the
  maintenance gate in any order. Three invariants: admissions and the exclusion of commands and
  controls on a port, the acquisition settings against their file, the station records against
  theirs.
\<close>

section \<open>Steps\<close>

text \<open>
  \<open>sy_rpcs\<close> counts the requests and automatic queries that hold an admission of the gate,
  \<open>sy_permits\<close> the ports of the command permits that are alive.
\<close>

record ops_system =
  sy_ops :: operations
  sy_rpcs :: nat
  sy_permits :: "string list"

definition admitted_ops :: "operations \<Rightarrow> gate_state \<Rightarrow> operations" where
  "admitted_ops ops g = ops\<lparr>op_maintenance := g\<rparr>"

text \<open>The worker takes its next command, or goes away.\<close>

definition take_command :: "string \<Rightarrow> worker_channel \<Rightarrow> operations \<Rightarrow> operations" where
  "take_command port_id ch ops = ops\<lparr>op_senders := (op_senders ops)(port_id \<mapsto> ch)\<rparr>"

text \<open>
  The steps. The admission of a request by the gate and its section under the state lock are one step; its
  wait for the worker's answer, and the end of its admission, are later steps. The requests that only pass
  the gate and change files of the configuration are not steps of this state.
\<close>

inductive ops_step :: "state_codec \<Rightarrow> ops_system \<Rightarrow> ops_system \<Rightarrow> bool" for cd where
  os_set_control:
    "gate_admit (op_maintenance (sy_ops s)) = Ok g \<Longrightarrow>
       set_control_locked cd fs p dv en ex (admitted_ops (sy_ops s) g) = (r, ops) \<Longrightarrow>
       ops_step cd s (s\<lparr>sy_ops := ops, sy_rpcs := sy_rpcs s + 1\<rparr>)"
| os_module_type:
    "gate_admit (op_maintenance (sy_ops s)) = Ok g \<Longrightarrow>
       set_module_type_locked cd fs p k n mt ex es (admitted_ops (sy_ops s) g) = (r, ops) \<Longrightarrow>
       ops_step cd s (s\<lparr>sy_ops := ops, sy_rpcs := sy_rpcs s + 1\<rparr>)"
| os_query:
    "gate_admit (op_maintenance (sy_ops s)) = Ok g \<Longrightarrow>
       query_version_locked cd fs fs' now p (device_key_text n) n ex es (admitted_ops (sy_ops s) g) = (r, ops) \<Longrightarrow>
       ops_step cd s (s\<lparr>sy_ops := ops, sy_rpcs := sy_rpcs s + 1\<rparr>)"
| os_automatic:
    "begin_automatic_station_query cd fs now p n (sy_ops s) = (r, ops) \<Longrightarrow>
       ops_step cd s (s\<lparr>sy_ops := ops, sy_rpcs := sy_rpcs s + (if r = Ok True then 1 else 0)\<rparr>)"
| os_return:
    "sy_rpcs s > 0 \<Longrightarrow>
       ops_step cd s (s\<lparr>sy_ops := admitted_ops (sy_ops s) (admission_drop (op_maintenance (sy_ops s))),
                        sy_rpcs := sy_rpcs s - 1\<rparr>)"
| os_admit:
    "admit_command p (sy_ops s) = (r, ops) \<Longrightarrow>
       ops_step cd s (s\<lparr>sy_ops := ops, sy_permits := (if is_ok r then p # sy_permits s else sy_permits s)\<rparr>)"
| os_permit:
    "p \<in> set (sy_permits s) \<Longrightarrow>
       ops_step cd s (s\<lparr>sy_ops := permit_drop p (sy_ops s), sy_permits := remove1 p (sy_permits s)\<rparr>)"
| os_result:
    "report_station_query_result cd fs now p n result (sy_ops s) = (r, ops) \<Longrightarrow>
       ops_step cd s (s\<lparr>sy_ops := ops\<rparr>)"
| os_inflight:
    "ops_step cd s (s\<lparr>sy_ops := fail_inflight_station_queries cd fs now p message (sy_ops s)\<rparr>)"
| os_runtime:
    "ops_step cd s (s\<lparr>sy_ops := report_runtime p enabled opened devices (sy_ops s)\<rparr>)"
| os_complete:
    "ops_step cd s (s\<lparr>sy_ops := ops_complete_control p rv outcome (sy_ops s)\<rparr>)"
| os_fail_pending:
    "ops_step cd s (s\<lparr>sy_ops := fail_pending_controls p message (sy_ops s)\<rparr>)"
| os_stopped:
    "ops_step cd s (s\<lparr>sy_ops := worker_stopped_ops p (sy_ops s)\<rparr>)"
| os_channel:
    "ops_step cd s (s\<lparr>sy_ops := take_command p ch (sy_ops s)\<rparr>)"
| os_shutdown:
    "ops_step cd s (s\<lparr>sy_ops := (sy_ops s)\<lparr>op_shutdown := True\<rparr>\<rparr>)"
| os_gate:
    "gt_pending g = gt_pending (op_maintenance (sy_ops s)) \<Longrightarrow>
       ops_step cd s (s\<lparr>sy_ops := admitted_ops (sy_ops s) g\<rparr>)"

section \<open>Selectors\<close>

named_theorems ops_sels

lemma on_state_sels [ops_sels]:
  "op_state (on_state f ops) = f (op_state ops)"
  "op_maintenance (on_state f ops) = op_maintenance ops"
  "op_senders (on_state f ops) = op_senders ops"
  "op_state_dir (on_state f ops) = op_state_dir ops"
  "op_station_dir (on_state f ops) = op_station_dir ops"
  by (simp_all add: on_state_def)

lemma on_port_sels [ops_sels]:
  "os_saved (on_port p f s) = os_saved s"
  "os_station_saved (on_port p f s) = os_station_saved s"
  "os_pending (on_port p f s) = os_pending s"
  "os_ports (on_port p f s) = adjust p f (os_ports s)"
  by (simp_all add: on_port_def)

lemma set_pending_sels [ops_sels]:
  "os_saved (set_pending p r s) = os_saved s"
  "os_station_saved (set_pending p r s) = os_station_saved s"
  "os_pending (set_pending p r s) = (os_pending s)(p := r)"
  "os_ports (set_pending p r s) = os_ports s"
  by (simp_all add: set_pending_def)

declare control_started_def [ops_sels] control_ended_def [ops_sels]

lemma on_device_sels [ops_sels]:
  "pn_pending_commands (on_device k f p) = pn_pending_commands p"
  "pn_control_pending (on_device k f p) = pn_control_pending p"
  "pn_enabled (on_device k f p) = pn_enabled p"
  "pn_devices (on_device k f p) = update_first (\<lambda>d. dn_device_id d = k) f (pn_devices p)"
  by (simp_all add: on_device_def)

lemma desired_setting_sels [ops_sels]:
  "pn_pending_commands (desired_setting dv en p) = pn_pending_commands p"
  "pn_control_pending (desired_setting dv en p) = pn_control_pending p"
  by (simp_all add: desired_setting_def ops_sels split: option.split)

lemma report_device_sels [ops_sels]:
  "pn_pending_commands (report_device st r p) = pn_pending_commands p"
  "pn_control_pending (report_device st r p) = pn_control_pending p"
  "pn_enabled (report_device st r p) = pn_enabled p"
  by (simp_all add: report_device_def ops_sels split: prod.split)

lemma fold_report_sels [ops_sels]:
  "pn_pending_commands (fold (report_device st) rs p) = pn_pending_commands p"
  "pn_control_pending (fold (report_device st) rs p) = pn_control_pending p"
  "pn_enabled (fold (report_device st) rs p) = pn_enabled p"
  by (induction rs arbitrary: p) (simp_all add: ops_sels)

lemma show_record_sels [ops_sels]:
  "os_saved (show_record p k r s) = os_saved s"
  "os_station_saved (show_record p k r s) = os_station_saved s"
  "os_pending (show_record p k r s) = os_pending s"
  "os_ports (show_record p k r s) = adjust p (on_device k (\<lambda>d. d\<lparr>dn_station_version := r\<rparr>)) (os_ports s)"
  by (simp_all add: show_record_def ops_sels)

lemma channel_send_sels [ops_sels]:
  "channel_send p c ops = (b, ops') \<Longrightarrow>
     op_state ops' = op_state ops \<and> op_maintenance ops' = op_maintenance ops
     \<and> op_state_dir ops' = op_state_dir ops \<and> op_station_dir ops' = op_station_dir ops"
  by (auto simp: channel_send_def split: option.splits if_splits)

lemma save_settings_sels:
  "save_settings cd fs next ops = (r, ops') \<Longrightarrow>
     op_state ops' = op_state ops \<and> op_maintenance ops' = op_maintenance ops
     \<and> op_station_dir ops' = op_station_dir ops
     \<and> persist_state (ss_revision next) (sc_enc cd next) (with_faults fs (op_state_dir ops)) = (r, op_state_dir ops')"
  by (auto simp: save_settings_def split: prod.splits)

lemma save_stations_sels:
  "save_stations cd fs next ops = (r, ops') \<Longrightarrow>
     op_state ops' = op_state ops \<and> op_maintenance ops' = op_maintenance ops
     \<and> op_state_dir ops' = op_state_dir ops
     \<and> persist_station_state (st_revision next) (sc_station_enc cd next) (with_faults fs (op_station_dir ops)) = (r, op_station_dir ops')"
  by (auto simp: save_stations_def split: prod.splits)

section \<open>What the sections do\<close>

text \<open>Every outcome of \<open>set_control\<close>'s section: refused, not saved, or saved and handed over.\<close>

lemma set_control_locked_cases:
  assumes "set_control_locked cd fs p dv en ex ops = (r, ops')"
  obtains (refused) e where "r = Inl e" "ops' = ops"
  | (unsaved) e rv nx where "r = Inl e" "op_state ops' = op_state ops" "op_maintenance ops' = op_maintenance ops"
      "op_station_dir ops' = op_station_dir ops"
      "\<exists>m. persist_state (show_u64 rv) (sc_enc cd nx) (with_faults fs (op_state_dir ops)) = (Inl m, op_state_dir ops')"
  | (saved) port rv nx sent where "map_of (os_ports (op_state ops)) p = Some port"
      "\<not> pn_control_pending port" "pn_pending_commands port = 0"
      "ex = ss_revision (os_saved (op_state ops))" "increment_revision ex = Inr rv"
      "dv \<noteq> None \<longrightarrow> the dv \<in> dn_device_id ` set (pn_devices port)"
      "nx = stored_setting p dv en ((os_saved (op_state ops))\<lparr>ss_revision := show_u64 rv\<rparr>)"
      "persist_state (show_u64 rv) (sc_enc cd nx) (with_faults fs (op_state_dir ops)) = (Inr (), op_state_dir ops')"
      "op_maintenance ops' = op_maintenance ops" "op_station_dir ops' = op_station_dir ops"
      "op_state ops' = (if sent then id else control_ended p (Some ''worker channel closed; desired setting is saved but not applied''))
         (control_started p rv (on_port p (desired_setting dv en) ((op_state ops)\<lparr>os_saved := nx\<rparr>)))"
      "is_ok r = sent"
proof -
  let ?s = "op_state ops"
  consider "\<exists>e. r = Inl e \<and> ops' = ops"
    | port ct rv where "port_of p ops = Some port" "\<not> pn_control_pending port" "pn_pending_commands port = 0"
       "ex = ss_revision (os_saved ?s)" "\<not> op_shutdown ops" "setting_command port dv en = Inr ct"
       "increment_revision ex = Inr rv"
    using assms
    by (auto simp: set_control_locked_def Let_def split: if_splits option.splits sum.splits) metis
  then show thesis
  proof cases
    case 1
    then show ?thesis using refused by blast
  next
    case (2 port ct rv)
    define next' where "next' = stored_setting p dv en ((os_saved ?s)\<lparr>ss_revision := show_u64 rv\<rparr>)"
    have rn: "ss_revision next' = show_u64 rv" by (simp add: next'_def stored_setting_def)
    obtain sr ops1 where sv: "save_settings cd fs next' ops = (sr, ops1)" by fastforce
    note sels = save_settings_sels[OF sv, unfolded rn]
    have dev: "dv \<noteq> None \<longrightarrow> the dv \<in> dn_device_id ` set (pn_devices port)"
      using 2(6) by (auto simp: setting_command_def list_ex_iff split: option.splits if_splits)
    show ?thesis
    proof (cases sr)
      case (Inl m)
      with 2 assms sv have "r = Inl (op_error_new ''persistence_failed'' (''could not save acquisition settings: '' @ m))"
        "ops' = ops1" by (simp_all add: set_control_locked_def Let_def next'_def)
      with unsaved sels Inl show ?thesis by blast
    next
      case (Inr u)
      define ops2 where "ops2 = on_state (\<lambda>s. control_started p rv
        (on_port p (desired_setting dv en) (s\<lparr>os_saved := next'\<rparr>))) ops1"
      obtain b ops3 where cs: "channel_send p (control_command p ct rv) ops2 = (b, ops3)" by fastforce
      note c = channel_send_sels[OF cs]
      have e: "(r, ops') = (if b then (Inr rv, ops3) else
          (Inl (with_revision (op_error_new ''operation_failed''
             ''desired setting saved, worker unavailable; refresh status before further action'') (show_u64 rv)),
           on_state (control_ended p (Some ''worker channel closed; desired setting is saved but not applied'')) ops3))"
        using 2 assms sv cs Inr by (cases b) (simp_all add: set_control_locked_def Let_def next'_def ops2_def)
      show ?thesis
        by (rule saved[of port rv next' b])
          (use 2 e c sels Inr dev in \<open>auto simp: next'_def ops2_def ops_sels port_of_def id_def split: if_splits\<close>)
    qed
  qed
qed

text \<open>The change of one station's record, as three operations make it.\<close>

definition station_changed ::
  "string \<Rightarrow> string \<Rightarrow> (station_version_record \<Rightarrow> station_version_record) \<Rightarrow> u64 \<Rightarrow> stored_station_state
     \<Rightarrow> stored_station_state" where
  "station_changed p k f rv st = on_station p k f (st\<lparr>st_revision := show_u64 rv\<rparr>)"

text \<open>What a station operation leaves where it does not succeed.\<close>

definition stations_unsaved :: "state_codec \<Rightarrow> operations \<Rightarrow> operations \<Rightarrow> bool" where
  "stations_unsaved cd ops ops' \<longleftrightarrow>
     op_state ops' = op_state ops \<and> op_maintenance ops' = op_maintenance ops
     \<and> op_state_dir ops' = op_state_dir ops
     \<and> (op_station_dir ops' = op_station_dir ops
        \<or> (\<exists>rv nx fs m. persist_station_state rv (sc_station_enc cd nx) (with_faults fs (op_station_dir ops))
              = (Inl m, op_station_dir ops')))"

definition stations_saved :: "state_codec \<Rightarrow> stored_station_state \<Rightarrow> operations \<Rightarrow> operations \<Rightarrow> bool" where
  "stations_saved cd nx ops ops' \<longleftrightarrow>
     op_maintenance ops' = op_maintenance ops \<and> op_state_dir ops' = op_state_dir ops
     \<and> (\<exists>fs rv. persist_station_state rv (sc_station_enc cd nx) (with_faults fs (op_station_dir ops))
           = (Inr (), op_station_dir ops'))"

lemma stations_unsaved_refl [simp]: "stations_unsaved cd ops ops"
  by (simp add: stations_unsaved_def)

lemma change_station_cases:
  assumes "change_station cd fs p k f ops = (r, ops')"
  obtains (refused) e where "r = Inl e" "stations_unsaved cd ops ops'"
  | (saved) rv e nx where "r = Inr rv" "increment_revision (st_revision (os_station_saved (op_state ops))) = Inr rv"
      "station_entry p k (os_station_saved (op_state ops)) = Some e"
      "nx = station_changed p k f rv (os_station_saved (op_state ops))"
      "stations_saved cd nx ops ops'"
      "op_state ops' = show_record p k (f (se_record e)) ((op_state ops)\<lparr>os_station_saved := nx\<rparr>)"
proof (cases "increment_revision (st_revision (os_station_saved (op_state ops)))")
  case (Inl x)
  with assms refused[of "SE_Exhausted x"] show ?thesis by (simp add: change_station_def)
next
  case i: (Inr rv)
  show ?thesis
  proof (cases "station_entry p k (os_station_saved (op_state ops))")
    case None
    with i assms refused[of SE_Missing] show ?thesis by (simp add: change_station_def)
  next
    case (Some e)
    define nx where "nx = station_changed p k f rv (os_station_saved (op_state ops))"
    have rn: "st_revision nx = show_u64 rv" by (simp add: nx_def station_changed_def on_station_def)
    obtain sr ops1 where sv: "save_stations cd fs nx ops = (sr, ops1)" by fastforce
    note sels = save_stations_sels[OF sv, unfolded rn]
    show ?thesis
    proof (cases sr)
      case (Inl m)
      with Some i assms sv have "r = Inl (SE_Unsaved m)" "ops' = ops1"
        by (auto simp: change_station_def nx_def station_changed_def)
      with refused sels Inl show ?thesis by (auto simp: stations_unsaved_def)
    next
      case (Inr u)
      with Some i assms sv have "r = Inr rv" "ops' = on_state (\<lambda>s. show_record p k (f (se_record e))
           (s\<lparr>os_station_saved := nx\<rparr>)) ops1"
        by (auto simp: change_station_def nx_def station_changed_def)
      with saved[OF _ i Some nx_def] sels Inr show ?thesis by (auto simp: stations_saved_def ops_sels)
    qed
  qed
qed

lemma stations_unsaved_trans_state: "stations_unsaved cd ops ops' \<Longrightarrow> op_state ops' = op_state ops \<and> op_maintenance ops' = op_maintenance ops"
  by (simp add: stations_unsaved_def)

text \<open>The end of a control that could not be handed to the worker.\<close>

definition unless_sent :: "bool \<Rightarrow> string \<Rightarrow> string \<Rightarrow> ops_state \<Rightarrow> ops_state" where
  "unless_sent sent p message s = (if sent then s else control_ended p (Some message) s)"

lemma validate_station_idle:
  assumes "validate_station_request s ex es p k q = Inr u"
  obtains port d where "map_of (os_ports s) p = Some port" "\<not> pn_control_pending port"
    "pn_pending_commands port = 0" "find_device k port = Some d"
    "ex = ss_revision (os_saved s)" "es = st_revision (os_station_saved s)"
  using assms by (auto simp: validate_station_request_def Let_def split: if_splits option.splits)

lemma module_type_cases:
  assumes "set_module_type_locked cd fs p k n mt ex es ops = (r, ops')"
  obtains (refused) "stations_unsaved cd ops ops'"
  | (saved) port rv nx e sent m where "map_of (os_ports (op_state ops)) p = Some port"
      "\<not> pn_control_pending port" "pn_pending_commands port = 0"
      "increment_revision (st_revision (os_station_saved (op_state ops))) = Inr rv"
      "station_entry p k (os_station_saved (op_state ops)) = Some e"
      "nx = station_changed p k (\<lambda>r. reset_for_configured_type r mt) rv (os_station_saved (op_state ops))"
      "stations_saved cd nx ops ops'"
      "op_state ops' = unless_sent sent p m (control_started p rv
         (show_record p k (reset_for_configured_type (se_record e) mt) ((op_state ops)\<lparr>os_station_saved := nx\<rparr>)))"
proof (cases "op_shutdown ops \<or> (\<exists>e. validate_station_request (op_state ops) ex es p k False = Inl e)
    \<or> map_option (\<lambda>d. configured_module_type (dn_station_version d)) (Option.bind (port_of p ops) (find_device k)) = Some mt")
  case True
  with assms have "ops' = ops"
    by (auto simp: set_module_type_locked_def Let_def split: if_splits sum.splits)
  with refused show ?thesis by simp
next
  case False
  then obtain u where v: "validate_station_request (op_state ops) ex es p k False = Inr u"
    by (cases "validate_station_request (op_state ops) ex es p k False") auto
  obtain cr ops1 where c: "change_station cd fs p k (\<lambda>r. reset_for_configured_type r mt) ops = (cr, ops1)" by fastforce
  from c show ?thesis
  proof (cases rule: change_station_cases)
    case (refused e)
    with False v assms c have "ops' = ops1"
      by (cases e) (simp_all add: set_module_type_locked_def Let_def del: map_option_eq_Some)
    with refused that(1) show ?thesis by simp
  next
    case (saved rv e nx)
    obtain port d where port: "map_of (os_ports (op_state ops)) p = Some port" "\<not> pn_control_pending port"
      "pn_pending_commands port = 0" using validate_station_idle[OF v] by metis
    define ops2 where "ops2 = on_state (control_started p rv) ops1"
    obtain b ops3 where cs: "channel_send p (control_command p (StationModuleTypeSetting n mt) rv) ops2 = (b, ops3)" by fastforce
    let ?m = "''worker channel closed; module type is saved and will apply on restart''"
    have "ops' = (if b then ops3 else on_state (control_ended p (Some ?m)) ops3)"
      using False v assms c saved(1) cs
      by (cases b) (simp_all add: set_module_type_locked_def Let_def ops2_def del: map_option_eq_Some)
    then have "op_state ops' = unless_sent b p ?m (control_started p rv (op_state ops1))"
      and "stations_saved cd nx ops ops'"
      using channel_send_sels[OF cs] saved(5) by (auto simp: unless_sent_def ops2_def ops_sels stations_saved_def)
    with that(2)[OF port saved(2,3,4)] saved(6) show ?thesis by simp
  qed
qed

lemma query_cases:
  assumes "query_version_locked cd fs fs' now p (device_key_text n) n ex es ops = (r, ops')"
  obtains (refused) "stations_unsaved cd ops ops'"
  | (saved) port rv nx e ops1 where "map_of (os_ports (op_state ops)) p = Some port"
      "\<not> pn_control_pending port" "pn_pending_commands port = 0"
      "increment_revision (st_revision (os_station_saved (op_state ops))) = Inr rv"
      "station_entry p (device_key_text n) (os_station_saved (op_state ops)) = Some e"
      "nx = station_changed p (device_key_text n) (query_marked now) rv (os_station_saved (op_state ops))"
      "stations_saved cd nx ops ops1"
      "op_state ops1 = control_started p rv
         (show_record p (device_key_text n) (query_marked now (se_record e)) ((op_state ops)\<lparr>os_station_saved := nx\<rparr>))"
      "op_state ops' = op_state ops1 \<and> op_maintenance ops' = op_maintenance ops1
         \<and> op_state_dir ops' = op_state_dir ops1 \<and> op_station_dir ops' = op_station_dir ops1
       \<or> ops' = snd (report_station_query_result cd fs' now p n (Inl ''serial worker is unavailable'')
                 (on_state (control_ended p (Some ''serial worker channel closed'')) ops1))"
proof (cases "op_shutdown ops \<or> (\<exists>e. validate_station_request (op_state ops) ex es p (device_key_text n) True = Inl e)")
  case True
  with assms have "ops' = ops"
    by (auto simp: query_version_locked_def Let_def split: if_splits sum.splits)
  with refused show ?thesis by simp
next
  case False
  then obtain u where v: "validate_station_request (op_state ops) ex es p (device_key_text n) True = Inr u"
    by (cases "validate_station_request (op_state ops) ex es p (device_key_text n) True") auto
  obtain cr ops1 where c: "change_station cd fs p (device_key_text n) (query_marked now) ops = (cr, ops1)" by fastforce
  from c show ?thesis
  proof (cases rule: change_station_cases)
    case (refused e)
    with False v assms c have "ops' = ops1"
      by (auto simp: query_version_locked_def mark_station_query_pending_def Let_def)
    with refused that(1) show ?thesis by simp
  next
    case (saved rv e nx)
    obtain port d where port: "map_of (os_ports (op_state ops)) p = Some port" "\<not> pn_control_pending port"
      "pn_pending_commands port = 0" using validate_station_idle[OF v] by metis
    define ops2 where "ops2 = on_state (control_started p rv) ops1"
    obtain b ops3 where cs: "channel_send p (control_command p (QueryStationVersion n) rv) ops2 = (b, ops3)" by fastforce
    have ops': "ops' = (if b then ops3 else snd (report_station_query_result cd fs' now p n
         (Inl ''serial worker is unavailable'') (on_state (control_ended p (Some ''serial worker channel closed'')) ops3)))"
      using False v assms c saved(1) cs
      by (cases b) (auto simp: query_version_locked_def mark_station_query_pending_def Let_def ops2_def)
    have "stations_saved cd nx ops ops3" and "op_state ops3 = control_started p rv (op_state ops1)"
      using channel_send_sels[OF cs] saved(5) by (auto simp: ops2_def ops_sels stations_saved_def)
    with that(2)[OF port saved(2,3,4), of ops3] saved(6) ops' show ?thesis by auto
  qed
qed

lemma automatic_cases:
  assumes "begin_automatic_station_query cd fs now p n ops = (r, ops')"
  obtains (refused) "stations_unsaved cd ops ops'" "r \<noteq> Inr True"
  | (saved) g rv nx e ops1 where "gate_admit (op_maintenance ops) = Inr g" "r = Inr True"
      "increment_revision (st_revision (os_station_saved (op_state ops))) = Inr rv"
      "station_entry p (device_key_text n) (os_station_saved (op_state ops)) = Some e"
      "nx = station_changed p (device_key_text n) (query_marked now) rv (os_station_saved (op_state ops))"
      "stations_saved cd nx ops ops1"
      "op_state ops1 = show_record p (device_key_text n) (query_marked now (se_record e)) ((op_state ops)\<lparr>os_station_saved := nx\<rparr>)"
      "ops' = admitted_ops ops1 g"
proof -
  obtain cr ops1 where c: "change_station cd fs p (device_key_text n) (query_marked now) ops = (cr, ops1)" by fastforce
  consider "ops' = ops \<and> r \<noteq> Inr True"
    | g where "gate_admit (op_maintenance ops) = Inr g" "(r, ops') = (case mark_station_query_pending cd fs now p (device_key_text n) ops of
         (Inl e, ops1) \<Rightarrow> (Err e, ops1) | (Inr _, ops1) \<Rightarrow> (Ok True, ops1\<lparr>op_maintenance := g\<rparr>))"
    using assms by (auto simp: begin_automatic_station_query_def Let_def split: sum.splits if_splits option.splits)
  then show thesis
  proof cases
    case 1
    with refused show ?thesis by simp
  next
    case (2 g)
    from c show ?thesis
    proof (cases rule: change_station_cases)
      case (refused e)
      with 2 c that(1) show ?thesis by (simp add: mark_station_query_pending_def)
    next
      case (saved rv e nx)
      with 2 c show ?thesis
        by (intro that(2)[OF 2(1) _ saved(2,3,4,5,6)]) (simp_all add: mark_station_query_pending_def admitted_ops_def)
    qed
  qed
qed

lemma inflight_cases:
  obtains (refused) "stations_unsaved cd ops (fail_inflight_station_queries cd fs now p m ops)"
  | (saved) stations n rv nx where "map_of (st_ports (os_station_saved (op_state ops))) p = Some stations"
      "parse_u64 (st_revision (os_station_saved (op_state ops))) = Some n" "u64_succ n = Some rv"
      "nx = (os_station_saved (op_state ops))\<lparr>st_revision := show_u64 rv,
         st_ports := adjust p (map (\<lambda>(k, e). (k, interrupted now m e))) (st_ports (os_station_saved (op_state ops)))\<rparr>"
      "stations_saved cd nx ops (fail_inflight_station_queries cd fs now p m ops)"
      "op_state (fail_inflight_station_queries cd fs now p m ops) =
         on_port p (show_records (interrupted_records now m stations)) ((op_state ops)\<lparr>os_station_saved := nx\<rparr>)"
proof (cases "map_of (st_ports (os_station_saved (op_state ops))) p")
  case None
  with refused show ?thesis by (simp add: fail_inflight_station_queries_def)
next
  case st: (Some stations)
  show ?thesis
  proof (cases "increment_persisted_revision (st_revision (os_station_saved (op_state ops)))")
    case (Inl e)
    with st refused show ?thesis by (simp add: fail_inflight_station_queries_def Let_def split: if_splits)
  next
    case (Inr r)
    then obtain n rv where n: "parse_u64 (st_revision (os_station_saved (op_state ops))) = Some n" "u64_succ n = Some rv"
      and r: "r = show_u64 rv" by (auto simp: increment_persisted_Ok)
    define nx where "nx = (os_station_saved (op_state ops))\<lparr>st_revision := show_u64 rv,
         st_ports := adjust p (map (\<lambda>(k, e). (k, interrupted now m e))) (st_ports (os_station_saved (op_state ops)))\<rparr>"
    have rn: "st_revision nx = show_u64 rv" by (simp add: nx_def)
    obtain sr ops1 where sv: "save_stations cd fs nx ops = (sr, ops1)" by fastforce
    note sels = save_stations_sels[OF sv, unfolded rn]
    show ?thesis
    proof (cases "interrupted_records now m stations = []")
      case True
      with st refused show ?thesis by (simp add: fail_inflight_station_queries_def)
    next
      case False
      show ?thesis
      proof (cases sr)
        case (Inl e)
        with st Inr r False sv have "fail_inflight_station_queries cd fs now p m ops = ops1"
          by (simp add: fail_inflight_station_queries_def Let_def nx_def)
        with refused sels Inl show ?thesis by (auto simp: stations_unsaved_def)
      next
        case srr: (Inr u)
        with st Inr r False sv have "fail_inflight_station_queries cd fs now p m ops =
            on_state (\<lambda>s. on_port p (show_records (interrupted_records now m stations)) (s\<lparr>os_station_saved := nx\<rparr>)) ops1"
          by (simp add: fail_inflight_station_queries_def Let_def nx_def)
        with saved[OF st n nx_def] sels srr show ?thesis by (auto simp: stations_saved_def on_state_sels)
      qed
    qed
  qed
qed

lemma show_records_sels [ops_sels]:
  "pn_pending_commands (show_records c p) = pn_pending_commands p"
  "pn_control_pending (show_records c p) = pn_control_pending p"
  "pn_enabled (show_records c p) = pn_enabled p"
  by (simp_all add: show_records_def)

end
