(* ===== verification/Operations_Invariant.thy ===== *)
theory Operations_Invariant
  imports Operations_Runs
begin

text \<open>
  The invariants of the operations service. Each speaks about a view of the state (what commands
  and controls are pending, which settings are shown, which station records are shown), so that an
  operation that leaves a view alone keeps its invariant.
\<close>

section \<open>Admissions, commands and controls\<close>

definition work_view :: "ops_state \<Rightarrow> string \<Rightarrow> (nat \<times> bool) option" where
  "work_view s p = map_option (\<lambda>q. (pn_pending_commands q, pn_control_pending q)) (map_of (os_ports s) p)"

text \<open>
  A port has at most one command, whose permit is alive, or one control, whose revision is
  remembered, and never both.
\<close>

fun port_work_ok :: "nat \<Rightarrow> u64 option \<Rightarrow> (nat \<times> bool) option \<Rightarrow> bool" where
  "port_work_ok k r None \<longleftrightarrow> r = None \<and> k = 0"
| "port_work_ok k r (Some (n, c)) \<longleftrightarrow> n = k \<and> n \<le> 1 \<and> (c \<longleftrightarrow> r \<noteq> None) \<and> (c \<longrightarrow> n = 0)"

definition work_ok :: "string list \<Rightarrow> ops_state \<Rightarrow> bool" where
  "work_ok permits s \<longleftrightarrow> (\<forall>p. port_work_ok (count_list permits p) (os_pending s p) (work_view s p))"

definition admissions_ok :: "ops_system \<Rightarrow> bool" where
  "admissions_ok s \<longleftrightarrow>
     gt_pending (op_maintenance (sy_ops s)) = sy_rpcs s + length (sy_permits s)
     \<and> work_ok (sy_permits s) (op_state (sy_ops s))"

lemma work_view_adjust:
  "work_view (on_port p f s) q =
     (if q = p then map_option (\<lambda>x. (pn_pending_commands (f x), pn_control_pending (f x))) (map_of (os_ports s) p)
      else work_view s q)"
  by (simp add: work_view_def ops_sels option.map_comp comp_def)

lemma work_view_same:
  assumes "\<And>x. pn_pending_commands (f x) = pn_pending_commands x" "\<And>x. pn_control_pending (f x) = pn_control_pending x"
  shows "work_view (on_port p f s) = work_view s"
  by (rule ext) (simp add: work_view_def ops_sels option.map_comp comp_def assms)

lemma work_view_parts [simp]:
  "work_view (s\<lparr>os_saved := a\<rparr>) = work_view s"
  "work_view (s\<lparr>os_station_saved := b\<rparr>) = work_view s"
  "work_view (set_pending p r s) = work_view s"
  by (simp_all add: work_view_def set_pending_def fun_eq_iff)

lemma work_view_show [simp]: "work_view (show_record p k r s) = work_view s"
  by (simp add: show_record_def work_view_same ops_sels)

lemma work_okI: "work_ok permits s \<Longrightarrow> work_view s' = work_view s \<Longrightarrow> os_pending s' = os_pending s \<Longrightarrow> work_ok permits s'"
  by (simp add: work_ok_def)

lemma work_ok_frame:
  "work_ok permits s \<Longrightarrow> work_ok permits (s\<lparr>os_saved := a\<rparr>)"
  "work_ok permits s \<Longrightarrow> work_ok permits (s\<lparr>os_station_saved := b\<rparr>)"
  "work_ok permits s \<Longrightarrow> work_ok permits (show_record p k r s)"
  by (auto intro: work_okI simp: ops_sels)

lemma work_ok_port:
  assumes "work_ok permits s"
    "\<And>x. pn_pending_commands (f x) = pn_pending_commands x" "\<And>x. pn_control_pending (f x) = pn_control_pending x"
  shows "work_ok permits (on_port p f s)"
  using assms by (auto intro: work_okI simp: work_view_same ops_sels)

lemma work_okD: "work_ok permits s \<Longrightarrow> port_work_ok (count_list permits p) (os_pending s p) (work_view s p)"
  by (simp add: work_ok_def)

text \<open>Only the entry of one port changes.\<close>

lemma work_ok_at:
  assumes "work_ok permits s"
    and "\<And>x. x \<noteq> p \<Longrightarrow> count_list permits' x = count_list permits x \<and> os_pending s' x = os_pending s x
           \<and> work_view s' x = work_view s x"
    and "port_work_ok (count_list permits' p) (os_pending s' p) (work_view s' p)"
  shows "work_ok permits' s'"
  unfolding work_ok_def
proof
  fix x
  show "port_work_ok (count_list permits' x) (os_pending s' x) (work_view s' x)"
    using assms(2)[of x] assms(3) work_okD[OF assms(1), of x] by (cases "x = p") simp_all
qed

lemma work_ok_started:
  assumes w: "work_ok permits s" and "map_of (os_ports s) p = Some q" "pn_pending_commands q = 0"
  shows "work_ok permits (control_started p rv s)"
  by (rule work_ok_at[OF w, of p])
    (use work_okD[OF w, of p] assms(2,3) in \<open>simp_all add: control_started_def ops_sels work_view_adjust work_view_def\<close>)

lemma work_ok_ended:
  assumes w: "work_ok permits s"
  shows "work_ok permits (control_ended p m s)"
  by (rule work_ok_at[OF w, of p]; cases "map_of (os_ports s) p")
    (use work_okD[OF w, of p] in \<open>simp_all add: control_ended_def ops_sels work_view_adjust work_view_def\<close>)

lemma work_ok_unless: "work_ok permits s \<Longrightarrow> work_ok permits (unless_sent b p m s)"
  by (simp add: unless_sent_def work_ok_ended)

lemma work_ok_permit:
  assumes w: "work_ok permits s" and "map_of (os_ports s) p = Some q" "pn_pending_commands q = 0" "\<not> pn_control_pending q"
  shows "work_ok (p # permits) (on_port p (\<lambda>x. x\<lparr>pn_pending_commands := pn_pending_commands x + 1\<rparr>) s)"
  by (rule work_ok_at[OF w, of p])
    (use work_okD[OF w, of p] assms(2-4) in \<open>simp_all add: ops_sels work_view_adjust work_view_def\<close>)

lemma count_remove1: "count_list (remove1 p xs) x = count_list xs x - (if x = p then 1 else 0)"
  by (induction xs) auto

lemma work_ok_permit_drop:
  assumes w: "work_ok permits s"
  shows "work_ok (remove1 p permits) (on_port p (\<lambda>x. x\<lparr>pn_pending_commands := pn_pending_commands x - 1\<rparr>) s)"
  by (rule work_ok_at[OF w, of p]; cases "map_of (os_ports s) p")
    (use work_okD[OF w, of p] in \<open>simp_all add: ops_sels work_view_adjust work_view_def count_remove1\<close>)

text \<open>The operations of the workers that leave the work of every port alone, or end a control.\<close>

lemma work_ok_reports:
  assumes w: "work_ok permits (op_state ops)"
  shows "work_ok permits (op_state (report_runtime p e opn ds ops))"
    and "work_ok permits (op_state (ops_complete_control p rv out ops))"
    and "work_ok permits (op_state (fail_pending_controls p m ops))"
    and "work_ok permits (op_state (worker_stopped_ops p ops))"
    and "work_ok permits (op_state (fail_inflight_station_queries cd fs now p m ops))"
proof -
  show "work_ok permits (op_state (report_runtime p e opn ds ops))"
    using w by (auto simp: report_runtime_def Let_def ops_sels intro!: work_ok_port)
  show "work_ok permits (op_state (ops_complete_control p rv out ops))"
    using w by (auto simp: ops_complete_control_def on_state_sels intro: work_ok_ended)
  show "work_ok permits (op_state (fail_pending_controls p m ops))"
    using w by (auto simp: fail_pending_controls_def on_state_sels intro: work_ok_ended)
  show "work_ok permits (op_state (worker_stopped_ops p ops))"
    using w by (auto simp: worker_stopped_ops_def on_state_sels intro!: work_ok_port work_ok_ended)
  show "work_ok permits (op_state (fail_inflight_station_queries cd fs now p m ops))"
    by (rule inflight_cases[of cd ops fs now p m])
      (use w in \<open>auto simp: stations_unsaved_def ops_sels intro!: work_ok_port work_ok_frame(2)\<close>)
qed

lemma gate_reports:
  "op_maintenance (report_runtime p e opn ds ops) = op_maintenance ops"
  "op_maintenance (ops_complete_control p rv out ops) = op_maintenance ops"
  "op_maintenance (fail_pending_controls p m ops) = op_maintenance ops"
  "op_maintenance (worker_stopped_ops p ops) = op_maintenance ops"
  "op_maintenance (fail_inflight_station_queries cd fs now p m ops) = op_maintenance ops"
proof -
  show "op_maintenance (fail_inflight_station_queries cd fs now p m ops) = op_maintenance ops"
    by (rule inflight_cases[of cd ops fs now p m]) (auto simp: stations_unsaved_def stations_saved_def)
qed (simp_all add: report_runtime_def ops_complete_control_def fail_pending_controls_def worker_stopped_ops_def
    on_state_sels Let_def)

lemma work_ok_change:
  assumes "change_station cd fs p k f ops = (r, ops')" and "work_ok permits (op_state ops)"
  shows "work_ok permits (op_state ops') \<and> op_maintenance ops' = op_maintenance ops"
  using assms(1)
proof (cases rule: change_station_cases)
  case (refused e)
  with assms(2) show ?thesis by (simp add: stations_unsaved_def)
next
  case (saved rv e nx)
  with assms(2) show ?thesis by (simp add: stations_saved_def work_ok_frame)
qed

lemma work_ok_result:
  assumes "report_station_query_result cd fs now p n res ops = (r, ops')" and "work_ok permits (op_state ops)"
  shows "work_ok permits (op_state ops') \<and> op_maintenance ops' = op_maintenance ops"
  using assms work_ok_change by (fastforce simp: report_station_query_result_def split: prod.splits)

lemma admitted_sels [simp]:
  "op_state (admitted_ops ops g) = op_state ops" "op_maintenance (admitted_ops ops g) = g"
  "op_state_dir (admitted_ops ops g) = op_state_dir ops" "op_station_dir (admitted_ops ops g) = op_station_dir ops"
  by (simp_all add: admitted_ops_def)

lemma work_ok_set_control:
  assumes "set_control_locked cd fs p dv en ex ops = (r, ops')" and w: "work_ok permits (op_state ops)"
  shows "work_ok permits (op_state ops') \<and> op_maintenance ops' = op_maintenance ops"
  using assms(1)
proof (cases rule: set_control_locked_cases)
  case (saved port rv nx sent)
  have "work_ok permits (on_port p (desired_setting dv en) ((op_state ops)\<lparr>os_saved := nx\<rparr>))"
    by (rule work_ok_port[OF work_ok_frame(1)[OF w]]) (simp_all add: ops_sels)
  then have "work_ok permits (control_started p rv (on_port p (desired_setting dv en) ((op_state ops)\<lparr>os_saved := nx\<rparr>)))"
    by (rule work_ok_started[where q = "desired_setting dv en port"]) (use saved in \<open>simp_all add: ops_sels\<close>)
  with saved show ?thesis by (simp add: work_ok_ended)
qed (use w in simp_all)

lemma work_ok_module_type:
  assumes "set_module_type_locked cd fs p k n mt ex es ops = (r, ops')" and w: "work_ok permits (op_state ops)"
  shows "work_ok permits (op_state ops') \<and> op_maintenance ops' = op_maintenance ops"
  using assms(1)
proof (cases rule: module_type_cases)
  case refused
  with w show ?thesis by (simp add: stations_unsaved_def)
next
  case (saved port rv nx e sent m)
  have "work_ok permits (control_started p rv (show_record p k (reset_for_configured_type (se_record e) mt)
      ((op_state ops)\<lparr>os_station_saved := nx\<rparr>)))"
    by (rule work_ok_started[where q = "on_device k (\<lambda>d. d\<lparr>dn_station_version := reset_for_configured_type (se_record e) mt\<rparr>) port"])
      (use w saved in \<open>simp_all add: work_ok_frame ops_sels\<close>)
  with saved show ?thesis by (simp add: work_ok_unless stations_saved_def)
qed

lemma work_ok_query:
  assumes "query_version_locked cd fs fs' now p (device_key_text n) n ex es ops = (r, ops')" and w: "work_ok permits (op_state ops)"
  shows "work_ok permits (op_state ops') \<and> op_maintenance ops' = op_maintenance ops"
  using assms(1)
proof (cases rule: query_cases)
  case refused
  with w show ?thesis by (simp add: stations_unsaved_def)
next
  case (saved port rv nx e ops1)
  have w1: "work_ok permits (op_state ops1)" unfolding saved(8)
    by (rule work_ok_started[where q = "on_device (device_key_text n) (\<lambda>d. d\<lparr>dn_station_version := query_marked now (se_record e)\<rparr>) port"])
      (use w saved in \<open>simp_all add: work_ok_frame ops_sels\<close>)
  let ?ended = "on_state (control_ended p (Some ''serial worker channel closed'')) ops1"
  obtain r2 ops2 where q: "report_station_query_result cd fs' now p n (Inl ''serial worker is unavailable'') ?ended = (r2, ops2)"
    by fastforce
  have "work_ok permits (op_state ?ended)" using w1 by (simp add: on_state_sels work_ok_ended)
  from work_ok_result[OF q this] q w1 saved(7,9) show ?thesis by (auto simp: stations_saved_def on_state_sels)
qed

lemma gate_admit_pending: "gate_admit g = Inr g' \<Longrightarrow> gt_pending g' = gt_pending g + 1"
  by (auto simp: gate_admit_def split: if_splits)

text \<open>Every step keeps the count of admissions and the exclusion.\<close>

lemma admissions_step:
  assumes "ops_step cd s s'" and inv: "admissions_ok s"
  shows "admissions_ok s'"
  using assms(1)
proof cases
  case (os_set_control g fs p dv en ex r ops)
  with inv work_ok_set_control[OF os_set_control(3), of "sy_permits s"] gate_admit_pending[OF os_set_control(2)]
  show ?thesis by (auto simp: admissions_ok_def)
next
  case (os_module_type g fs p k n mt ex es r ops)
  with inv work_ok_module_type[OF os_module_type(3), of "sy_permits s"] gate_admit_pending[OF os_module_type(2)]
  show ?thesis by (auto simp: admissions_ok_def)
next
  case (os_query g fs fs' now p n ex es r ops)
  with inv work_ok_query[OF os_query(3), of "sy_permits s"] gate_admit_pending[OF os_query(2)]
  show ?thesis by (auto simp: admissions_ok_def)
next
  case (os_automatic fs now p n r ops)
  from os_automatic(2) show ?thesis
  proof (cases rule: automatic_cases)
    case refused
    with os_automatic inv show ?thesis by (auto simp: admissions_ok_def stations_unsaved_def)
  next
    case (saved g rv nx e ops1)
    with os_automatic inv gate_admit_pending[OF saved(1)] show ?thesis
      by (auto simp: admissions_ok_def work_ok_frame)
  qed
next
  case os_return
  with inv show ?thesis by (auto simp: admissions_ok_def admission_drop_def)
next
  case (os_admit p r ops)
  show ?thesis
  proof (cases r)
    case (Inl e)
    with os_admit inv show ?thesis
      by (auto simp: admissions_ok_def admit_command_def split: sum.splits option.splits if_splits)
  next
    case (Inr u)
    with os_admit(2) obtain g q where g: "gate_admit (op_maintenance (sy_ops s)) = Inr g"
      and q: "map_of (os_ports (op_state (sy_ops s))) p = Some q" "\<not> pn_control_pending q" "pn_pending_commands q = 0"
      and ops: "ops = on_state (on_port p (\<lambda>p. p\<lparr>pn_pending_commands := pn_pending_commands p + 1\<rparr>))
                   ((sy_ops s)\<lparr>op_maintenance := g\<rparr>)"
      by (auto simp: admit_command_def port_of_def split: sum.splits option.splits if_splits)
    with os_admit(1) Inr inv work_ok_permit[OF _ q(1,3,2), of "sy_permits s"] gate_admit_pending[OF g]
    show ?thesis by (auto simp: admissions_ok_def on_state_sels)
  qed
next
  case (os_permit p)
  then have "length (sy_permits s) = Suc (length (remove1 p (sy_permits s)))"
    using length_pos_if_in_set[of p "sy_permits s"] by (simp add: length_remove1)
  with os_permit inv work_ok_permit_drop[of "sy_permits s" "op_state (sy_ops s)" p] show ?thesis
    by (auto simp: admissions_ok_def permit_drop_def admission_drop_def Let_def on_state_sels)
next
  case (os_result fs now p n result r ops)
  with inv work_ok_result[OF os_result(2), of "sy_permits s"] show ?thesis by (auto simp: admissions_ok_def)
qed (use inv in \<open>auto simp: admissions_ok_def gate_reports work_ok_reports take_command_def\<close>)

end
