(* ===== verification/Operations_Stored.thy ===== *)
theory Operations_Stored
  imports Operations_Invariant
begin

text \<open>
  The settings and the station records against their files: in every state the file holds what the
  snapshot shows, so a restart finds it again. The codec (\<open>serde_json\<close>) is required to read back
  what it wrote and to produce maps with one entry per key.
\<close>

section \<open>Well-formed stored states and the codec\<close>

definition settings_wf :: "stored_state \<Rightarrow> bool" where
  "settings_wf v \<longleftrightarrow>
     ss_schema_version v = 1 \<and> btree_ok (ss_ports v)
     \<and> list_all (\<lambda>(p, sp). btree_ok (sp_device_read_enabled sp)) (ss_ports v)"

definition stations_wf :: "stored_station_state \<Rightarrow> bool" where
  "stations_wf v \<longleftrightarrow>
     st_schema_version v = 1 \<and> btree_ok (st_ports v) \<and> list_all (\<lambda>(p, m). btree_ok m) (st_ports v)"

definition codec_reads_back :: "state_codec \<Rightarrow> bool" where
  "codec_reads_back cd \<longleftrightarrow>
     (\<forall>v. settings_wf v \<longrightarrow> sc_dec cd (sc_enc cd v) = Inr v)
     \<and> (\<forall>t v. sc_dec cd t = Inr v \<longrightarrow> ss_schema_version v = 1 \<longrightarrow> settings_wf v)
     \<and> (\<forall>v. stations_wf v \<longrightarrow> sc_station_dec cd (sc_station_enc cd v) = Inr v)
     \<and> (\<forall>t v. sc_station_dec cd t = Inr v \<longrightarrow> st_schema_version v = 1 \<longrightarrow> stations_wf v)"

lemma list_all_adjust:
  "list_all (\<lambda>(k, v). P v) m \<Longrightarrow> (\<And>v. P v \<Longrightarrow> P (f v)) \<Longrightarrow> list_all (\<lambda>(k, v). P v) (adjust p f m)"
  by (auto simp: adjust_def list_all_iff)

lemma settings_wf_revision [simp]: "settings_wf (v\<lparr>ss_revision := r\<rparr>) = settings_wf v"
  by (simp add: settings_wf_def)

lemma stations_wf_revision [simp]: "stations_wf (v\<lparr>st_revision := r\<rparr>) = stations_wf v"
  by (simp add: stations_wf_def)

lemma settings_wf_setting: "settings_wf v \<Longrightarrow> settings_wf (stored_setting p dv en v)"
  by (auto simp: settings_wf_def stored_setting_def btree_ok_insert split: option.split
      intro!: list_all_adjust)

lemma stations_wf_on_station: "stations_wf v \<Longrightarrow> stations_wf (on_station p k f v)"
  by (auto simp: stations_wf_def on_station_def intro!: list_all_adjust)

lemma stations_wf_changed: "stations_wf v \<Longrightarrow> stations_wf (station_changed p k f rv v)"
  by (simp add: station_changed_def stations_wf_on_station)

lemma settings_wf_port: "settings_wf v \<Longrightarrow> map_of (ss_ports v) p = Some sp \<Longrightarrow> btree_ok (sp_device_read_enabled sp)"
  by (auto simp: settings_wf_def list_all_iff dest: map_of_SomeD)

lemma stations_wf_port: "stations_wf v \<Longrightarrow> map_of (st_ports v) p = Some m \<Longrightarrow> btree_ok m"
  by (auto simp: stations_wf_def list_all_iff dest: map_of_SomeD)

section \<open>Acquisition settings\<close>

definition settings_view :: "ops_state \<Rightarrow> string \<Rightarrow> (bool \<times> (string \<times> bool) list) option" where
  "settings_view s p =
     map_option (\<lambda>q. (pn_enabled q, map (\<lambda>d. (dn_device_id d, dn_read_enabled d)) (pn_devices q)))
       (map_of (os_ports s) p)"

definition shows_settings :: "stored_port option \<Rightarrow> bool \<times> (string \<times> bool) list \<Rightarrow> bool" where
  "shows_settings sp v \<longleftrightarrow>
     (case sp of
        None \<Rightarrow> False
      | Some q \<Rightarrow> fst v = sp_enabled q \<and> distinct (map fst (snd v))
                   \<and> list_all (\<lambda>(k, b). map_of (sp_device_read_enabled q) k = Some b) (snd v))"

text \<open>What a start-up takes for a port and a device: the stored value, or enabled.\<close>

definition port_default :: "stored_port option \<Rightarrow> bool" where
  "port_default sp = (case sp of Some q \<Rightarrow> sp_enabled q | None \<Rightarrow> True)"

definition read_default :: "stored_port option \<Rightarrow> string \<Rightarrow> bool" where
  "read_default sp k =
     (case Option.bind sp (\<lambda>q. map_of (sp_device_read_enabled q) k) of Some b \<Rightarrow> b | None \<Rightarrow> True)"

definition completes :: "stored_state \<Rightarrow> stored_state \<Rightarrow> bool" where
  "completes disk v \<longleftrightarrow>
     ss_revision disk = ss_revision v
     \<and> (\<forall>p sp. map_of (ss_ports v) p = Some sp \<longrightarrow>
          sp_enabled sp = port_default (map_of (ss_ports disk) p)
          \<and> (\<forall>k b. map_of (sp_device_read_enabled sp) k = Some b \<longrightarrow> b = read_default (map_of (ss_ports disk) p) k))"

definition disk_settings :: "state_codec \<Rightarrow> string option \<Rightarrow> string + stored_state" where
  "disk_settings cd t = (case t of None \<Rightarrow> Inr default_stored_state | Some x \<Rightarrow> sc_dec cd x)"

definition settings_ok :: "state_codec \<Rightarrow> operations \<Rightarrow> bool" where
  "settings_ok cd ops \<longleftrightarrow>
     (let saved = os_saved (op_state ops); n = sd_nodes (op_state_dir ops) in
      settings_wf saved \<and> canonical_revision (ss_revision saved)
      \<and> tidy n \<and> n Backup = None
      \<and> (\<forall>t. current_text n = Some t \<longrightarrow> int (length t) \<le> max_state_bytes)
      \<and> (\<exists>v. disk_settings cd (current_text n) = Inr v \<and> ss_schema_version v = 1 \<and> completes v saved)
      \<and> (\<forall>p v. settings_view (op_state ops) p = Some v \<longrightarrow> shows_settings (map_of (ss_ports saved) p) v))"

lemma completes_refl: "completes v v"
  by (auto simp: completes_def port_default_def read_default_def)

lemma settings_okI:
  assumes "settings_ok cd ops" and "os_saved (op_state ops') = os_saved (op_state ops)"
    and "sd_nodes (op_state_dir ops') = sd_nodes (op_state_dir ops)"
    and "settings_view (op_state ops') = settings_view (op_state ops)"
  shows "settings_ok cd ops'"
  using assms by (simp add: settings_ok_def)

lemma settings_view_port:
  assumes "\<And>x. pn_enabled (f x) = pn_enabled x"
    and "\<And>x. map (\<lambda>d. (dn_device_id d, dn_read_enabled d)) (pn_devices (f x)) = map (\<lambda>d. (dn_device_id d, dn_read_enabled d)) (pn_devices x)"
  shows "settings_view (on_port p f s) = settings_view s"
  by (rule ext) (simp add: settings_view_def ops_sels option.map_comp comp_def assms)

lemma settings_view_parts [simp]:
  "settings_view (s\<lparr>os_saved := a\<rparr>) = settings_view s"
  "settings_view (s\<lparr>os_station_saved := b\<rparr>) = settings_view s"
  "settings_view (set_pending p r s) = settings_view s"
  by (simp_all add: settings_view_def set_pending_def fun_eq_iff)

lemma map_update_first:
  "(\<And>x. g (f x) = g x) \<Longrightarrow> map g (update_first P f xs) = map g xs"
  by (induction xs) auto

lemma settings_view_device:
  assumes "\<And>d. dn_device_id (f d) = dn_device_id d" "\<And>d. dn_read_enabled (f d) = dn_read_enabled d"
  shows "settings_view (on_port p (on_device k f) s) = settings_view s"
  by (rule settings_view_port) (simp_all add: ops_sels map_update_first assms)

lemma settings_view_show [simp]: "settings_view (show_record p k r s) = settings_view s"
  by (simp add: show_record_def settings_view_device)

lemma settings_view_control [simp]:
  "settings_view (control_started p rv s) = settings_view s"
  "settings_view (control_ended p m s) = settings_view s"
  "settings_view (unless_sent b p m' s) = settings_view s"
  by (simp_all add: control_started_def control_ended_def unless_sent_def settings_view_port)

lemma saved_control [simp]:
  "os_saved (control_started p rv s) = os_saved s" "os_saved (control_ended p m s) = os_saved s"
  "os_saved (unless_sent b p m' s) = os_saved s"
  "os_station_saved (control_started p rv s) = os_station_saved s" "os_station_saved (control_ended p m s) = os_station_saved s"
  "os_station_saved (unless_sent b p m' s) = os_station_saved s"
  by (simp_all add: control_started_def control_ended_def unless_sent_def ops_sels)

lemma report_device_views:
  "map (\<lambda>d. (dn_device_id d, dn_read_enabled d)) (pn_devices (report_device st rep q)) = map (\<lambda>d. (dn_device_id d, dn_read_enabled d)) (pn_devices q)"
  by (simp add: report_device_def ops_sels map_update_first split: prod.split)

lemma fold_report_views:
  "map (\<lambda>d. (dn_device_id d, dn_read_enabled d)) (pn_devices (fold (report_device st) reps q)) = map (\<lambda>d. (dn_device_id d, dn_read_enabled d)) (pn_devices q)"
  by (induction reps arbitrary: q) (simp_all add: report_device_views)

lemma settings_ok_reports:
  assumes "settings_ok cd ops"
  shows "settings_ok cd (report_runtime p e opn ds ops)"
    and "settings_ok cd (ops_complete_control p rv out ops)"
    and "settings_ok cd (fail_pending_controls p m ops)"
    and "settings_ok cd (worker_stopped_ops p ops)"
proof -
  show "settings_ok cd (report_runtime p e opn ds ops)"
    by (rule settings_okI[OF assms])
      (simp_all add: report_runtime_def Let_def ops_sels settings_view_port fold_report_views)
  show "settings_ok cd (ops_complete_control p rv out ops)"
    by (rule settings_okI[OF assms]) (simp_all add: ops_complete_control_def on_state_sels)
  show "settings_ok cd (fail_pending_controls p m ops)"
    by (rule settings_okI[OF assms]) (simp_all add: fail_pending_controls_def on_state_sels)
  show "settings_ok cd (worker_stopped_ops p ops)"
    by (rule settings_okI[OF assms])
      (simp_all add: worker_stopped_ops_def on_state_sels on_port_sels settings_view_port comp_def)
qed

text \<open>The operations on stations leave the settings and their file alone.\<close>

lemma settings_ok_unsaved: "settings_ok cd ops \<Longrightarrow> stations_unsaved cd' ops ops' \<Longrightarrow> settings_ok cd ops'"
  by (rule settings_okI) (auto simp: stations_unsaved_def)

lemma settings_ok_saved:
  assumes "settings_ok cd ops" and "stations_saved cd' nx ops ops'"
    and "os_saved (op_state ops') = os_saved (op_state ops)"
    and "settings_view (op_state ops') = settings_view (op_state ops)"
  shows "settings_ok cd ops'"
  using assms by (intro settings_okI[OF assms(1)]) (auto simp: stations_saved_def)

lemma settings_ok_change:
  assumes "settings_ok cd ops" and "change_station cd fs p k f ops = (r, ops')"
  shows "settings_ok cd ops'"
  using assms(2)
proof (cases rule: change_station_cases)
  case (refused e)
  with assms(1) settings_ok_unsaved show ?thesis by blast
next
  case (saved rv e nx)
  with settings_ok_saved[OF assms(1) saved(5)] show ?thesis by (simp add: ops_sels)
qed

lemma settings_ok_result:
  "settings_ok cd ops \<Longrightarrow> report_station_query_result cd fs now p n res ops = (r, ops') \<Longrightarrow> settings_ok cd ops'"
  using settings_ok_change by (fastforce simp: report_station_query_result_def split: prod.splits)

lemma settings_ok_inflight:
  assumes "settings_ok cd ops"
  shows "settings_ok cd (fail_inflight_station_queries cd fs now p m ops)"
proof (rule inflight_cases[of cd ops fs now p m])
  assume "stations_unsaved cd ops (fail_inflight_station_queries cd fs now p m ops)"
  with assms settings_ok_unsaved show ?thesis by blast
next
  fix stations n rv nx
  assume s: "stations_saved cd nx ops (fail_inflight_station_queries cd fs now p m ops)"
    and "op_state (fail_inflight_station_queries cd fs now p m ops) =
         on_port p (show_records (interrupted_records now m stations)) ((op_state ops)\<lparr>os_station_saved := nx\<rparr>)"
  moreover have "map (\<lambda>d. (dn_device_id d, dn_read_enabled d)) (pn_devices (show_records c q))
      = map (\<lambda>d. (dn_device_id d, dn_read_enabled d)) (pn_devices q)" for c q
    by (simp add: show_records_def split: option.split)
  ultimately show ?thesis
    by (intro settings_ok_saved[OF assms s]) (simp_all add: ops_sels settings_view_port)
qed

lemma settings_ok_module_type:
  assumes "settings_ok cd ops" and "set_module_type_locked cd fs p k n mt ex es ops = (r, ops')"
  shows "settings_ok cd ops'"
  using assms(2)
proof (cases rule: module_type_cases)
  case refused
  with assms(1) settings_ok_unsaved show ?thesis by blast
next
  case (saved port rv nx e sent m)
  with settings_ok_saved[OF assms(1) saved(7)] show ?thesis by (simp add: show_record_sels)
qed

lemma settings_ok_query:
  assumes "settings_ok cd ops" and "query_version_locked cd fs fs' now p (device_key_text n) n ex es ops = (r, ops')"
  shows "settings_ok cd ops'"
  using assms(2)
proof (cases rule: query_cases)
  case refused
  with assms(1) settings_ok_unsaved show ?thesis by blast
next
  case (saved port rv nx e ops1)
  have o1: "settings_ok cd ops1"
    using settings_ok_saved[OF assms(1) saved(7)] by (simp add: saved(8) show_record_sels)
  let ?ended = "on_state (control_ended p (Some ''serial worker channel closed'')) ops1"
  have "settings_ok cd ?ended" by (rule settings_okI[OF o1]) (simp_all add: on_state_sels)
  with settings_ok_result have "settings_ok cd (snd (report_station_query_result cd fs' now p n
      (Inl ''serial worker is unavailable'') ?ended))" by (metis prod.collapse)
  moreover have "op_state ops' = op_state ops1 \<Longrightarrow> op_state_dir ops' = op_state_dir ops1 \<Longrightarrow> settings_ok cd ops'"
    by (rule settings_okI[OF o1]) simp_all
  ultimately show ?thesis using saved(9) by auto
qed

text \<open>Writing the settings: a failed write leaves what the file shows, a completed one shows the new text.\<close>

lemma persist_cap: "persist_with what cap install rv bs d = (Inr u, d') \<Longrightarrow> int (length bs) \<le> cap"
  by (auto simp: persist_with_def split: if_splits)

lemma with_faults_sels [simp]: "sd_nodes (with_faults fs d) = sd_nodes d" "sd_trace (with_faults fs d) = []"
  by (simp_all add: with_faults_def)

lemma shows_with_faults: "tidy (sd_nodes d) \<Longrightarrow> shows_one_of (current_text (sd_nodes d)) bs (with_faults fs d)"
  by (simp add: shows_one_of_def)

lemma persist_settings:
  assumes "tidy (sd_nodes d)" and "persist_state rv bs (with_faults fs d) = (r, d')"
  shows "tidy (sd_nodes d') \<and> sd_nodes d' Backup = sd_nodes d Backup
    \<and> current_text (sd_nodes d') = (if is_ok r then Some bs else current_text (sd_nodes d))
    \<and> (is_ok r \<longrightarrow> int (length bs) \<le> max_state_bytes)"
  using persist_state_shows[OF shows_with_faults[OF assms(1), of bs fs] _ assms(2)] persist_state_backup[OF assms(2)]
    persist_cap[of _ max_state_bytes _ rv bs "with_faults fs d"] assms(2)
  by (cases r) (auto simp: shows_one_of_def persist_state_def)

lemma persist_stations:
  assumes "tidy (sd_nodes d)" and "persist_station_state rv bs (with_faults fs d) = (r, d')"
  shows "tidy (sd_nodes d')
    \<and> current_text (sd_nodes d') = (if is_ok r then Some bs else current_text (sd_nodes d))
    \<and> (is_ok r \<longrightarrow> int (length bs) \<le> max_station_state_bytes)"
  using persist_station_shows[OF shows_with_faults[OF assms(1), of bs fs] _ assms(2)]
    persist_cap[of _ max_station_state_bytes _ rv bs "with_faults fs d"] assms(2)
  by (cases r) (auto simp: shows_one_of_def persist_station_state_def)

lemma map_update_first_key:
  "distinct (map key xs) \<Longrightarrow> (\<And>x. key (f x) = key x) \<Longrightarrow>
     map g (update_first (\<lambda>x. key x = k) f xs) = map (\<lambda>x. g (if key x = k then f x else x)) xs"
proof (induction xs)
  case (Cons x xs)
  show ?case
  proof (cases "key x = k")
    case True
    with Cons.prems(1) have "\<forall>y \<in> set xs. key y \<noteq> k" by (metis distinct.simps(2) image_eqI image_set list.simps(9))
    then have "map g xs = map (\<lambda>x. g (if key x = k then f x else x)) xs" by auto
    with True show ?thesis by simp
  next
    case False
    with Cons show ?thesis by simp
  qed
qed simp

lemma shows_setting:
  assumes s: "shows_settings (Some q) (pn_enabled port, map (\<lambda>d. (dn_device_id d, dn_read_enabled d)) (pn_devices port))"
    and b: "btree_ok (sp_device_read_enabled q)"
  shows "shows_settings (Some (case dv of
         Some key \<Rightarrow> q\<lparr>sp_device_read_enabled := btree_insert key en (sp_device_read_enabled q)\<rparr>
       | None \<Rightarrow> q\<lparr>sp_enabled := en\<rparr>))
     (pn_enabled (desired_setting dv en port),
      map (\<lambda>d. (dn_device_id d, dn_read_enabled d)) (pn_devices (desired_setting dv en port)))"
proof (cases dv)
  case None
  with s show ?thesis by (simp add: shows_settings_def desired_setting_def)
next
  case (Some key)
  have d: "distinct (map dn_device_id (pn_devices port))" using s by (simp add: shows_settings_def comp_def)
  have "map (\<lambda>d. (dn_device_id d, dn_read_enabled d)) (pn_devices (desired_setting dv en port)) =
      map (\<lambda>d. (dn_device_id d, if dn_device_id d = key then en else dn_read_enabled d)) (pn_devices port)"
    using map_update_first_key[where key = dn_device_id, OF d, of "\<lambda>d. d\<lparr>dn_read_enabled := en\<rparr>"
      "\<lambda>d. (dn_device_id d, dn_read_enabled d)" key]
    by (simp add: desired_setting_def Some ops_sels if_distrib cong: if_cong)
  moreover have "pn_enabled (desired_setting dv en port) = pn_enabled port"
    by (simp add: desired_setting_def Some ops_sels)
  ultimately show ?thesis
    using s b by (auto simp: shows_settings_def Some comp_def list_all_iff map_of_btree_insert)
qed

lemma settings_ok_set_control:
  assumes codec: "codec_reads_back cd" and inv: "settings_ok cd ops"
    and "set_control_locked cd fs p dv en ex ops = (r, ops')"
  shows "settings_ok cd ops'"
  using assms(3)
proof (cases rule: set_control_locked_cases)
  case (refused e)
  with inv show ?thesis by simp
next
  case (unsaved e rv nx)
  then obtain m where "persist_state (show_u64 rv) (sc_enc cd nx) (with_faults fs (op_state_dir ops)) = (Inl m, op_state_dir ops')"
    by blast
  from persist_settings[OF _ this] unsaved inv show ?thesis by (auto simp: settings_ok_def Let_def)
next
  case (saved port rv nx sent)
  let ?s = "op_state ops" and ?saved = "os_saved (op_state ops)"
  have wf: "settings_wf ?saved" and t: "tidy (sd_nodes (op_state_dir ops))"
    and shown: "\<And>p v. settings_view ?s p = Some v \<Longrightarrow> shows_settings (map_of (ss_ports ?saved) p) v"
    using inv by (auto simp: settings_ok_def Let_def)
  have wfn: "settings_wf nx" unfolding saved(7) by (rule settings_wf_setting) (simp add: wf)
  have rn: "ss_revision nx = show_u64 rv" by (simp add: saved(7) stored_setting_def)
  have "canonical_revision (ss_revision nx)"
    using saved(5) u64_succ_pos by (auto simp: rn increment_revision_Ok)
  moreover have "disk_settings cd (Some (sc_enc cd nx)) = Inr nx" "ss_schema_version nx = 1"
    using codec wfn by (auto simp: disk_settings_def codec_reads_back_def settings_wf_def)
  moreover have "shows_settings (map_of (ss_ports nx) x) v"
    if v: "settings_view (on_port p (desired_setting dv en) (?s\<lparr>os_saved := nx\<rparr>)) x = Some v" for x v
  proof (cases "x = p")
    case True
    obtain q where q: "map_of (ss_ports ?saved) p = Some q"
      and sq: "shows_settings (Some q) (pn_enabled port, map (\<lambda>d. (dn_device_id d, dn_read_enabled d)) (pn_devices port))"
      using shown[of p "(pn_enabled port, map (\<lambda>d. (dn_device_id d, dn_read_enabled d)) (pn_devices port))"] saved(1)
      by (cases "map_of (ss_ports ?saved) p") (auto simp: settings_view_def shows_settings_def)
    from shows_setting[OF sq settings_wf_port[OF wf q]] v True q saved(1,7) show ?thesis
      by (auto simp: settings_view_def ops_sels stored_setting_def)
  next
    case False
    with v shown[of x v] show ?thesis by (simp add: settings_view_def ops_sels saved(7) stored_setting_def)
  qed
  moreover have "os_saved (op_state ops') = nx"
    and "settings_view (op_state ops') = settings_view (on_port p (desired_setting dv en) (?s\<lparr>os_saved := nx\<rparr>))"
    using saved(11) by (simp_all add: on_port_sels)
  ultimately show ?thesis
    using persist_settings[OF t saved(8)] wfn completes_refl[of nx] inv by (auto simp: settings_ok_def Let_def)
qed

end
