(* ===== verification/State_Text.thy ===== *)
theory State_Text
  imports Operations_Stored
begin

text \<open>
  A text format for the stored states that reads back what it wrote: an instance of the
  requirement on the codec, used by the worked examples. Each reader takes a value from the front
  of a text and returns the rest; the locale is what the combinators need from their parts.
\<close>

type_synonym 'a reader = "string \<Rightarrow> ('a \<times> string) option"

locale reads_back =
  fixes enc :: "'a \<Rightarrow> string" and dec :: "'a reader"
  assumes reads: "dec (enc x @ r) = Some (x, r)"
begin

lemma reads_all: "dec (enc x) = Some (x, [])"
  using reads[of x "[]"] by simp

lemma enc_inject: "enc x = enc y \<Longrightarrow> x = y"
  using reads_all[of x] reads_all[of y] by (metis option.inject prod.inject)

end

section \<open>Readers\<close>

definition enc_text :: "string \<Rightarrow> string" where
  "enc_text s = concat (map (\<lambda>c. [CHR ''='', c]) s) @ ''.''"

fun dec_text :: "string reader" where
  "dec_text [] = None"
| "dec_text [x] = (if x = CHR ''.'' then Some ([], []) else None)"
| "dec_text (x # c # r) =
     (if x = CHR ''.'' then Some ([], c # r)
      else if x = CHR ''='' then map_option (\<lambda>(s, t). (c # s, t)) (dec_text r) else None)"

definition enc_bool :: "bool \<Rightarrow> string" where
  "enc_bool b = (if b then ''1'' else ''0'')"

fun dec_bool :: "bool reader" where
  "dec_bool [] = None"
| "dec_bool (x # r) = (if x = CHR ''1'' then Some (True, r) else if x = CHR ''0'' then Some (False, r) else None)"

definition enc_word :: "'w::len word \<Rightarrow> string" where
  "enc_word w = enc_text (show_nat (unat w))"

definition dec_word :: "'w::len word reader" where
  "dec_word t = map_option (\<lambda>(s, r). (of_nat (digits_val s), r)) (dec_text t)"

definition enc_opt :: "('a \<Rightarrow> string) \<Rightarrow> 'a option \<Rightarrow> string" where
  "enc_opt e x = (case x of None \<Rightarrow> enc_bool False | Some v \<Rightarrow> enc_bool True @ e v)"

definition dec_opt :: "'a reader \<Rightarrow> 'a option reader" where
  "dec_opt d t =
     (case dec_bool t of
        None \<Rightarrow> None
      | Some (b, r) \<Rightarrow> if b then map_option (\<lambda>(v, r). (Some v, r)) (d r) else Some (None, r))"

definition enc_pair :: "('a \<Rightarrow> string) \<Rightarrow> ('b \<Rightarrow> string) \<Rightarrow> 'a \<times> 'b \<Rightarrow> string" where
  "enc_pair e f p = e (fst p) @ f (snd p)"

definition dec_pair :: "'a reader \<Rightarrow> 'b reader \<Rightarrow> ('a \<times> 'b) reader" where
  "dec_pair d f t =
     (case d t of None \<Rightarrow> None | Some (a, r) \<Rightarrow> map_option (\<lambda>(b, r). ((a, b), r)) (f r))"

fun enc_list :: "('a \<Rightarrow> string) \<Rightarrow> 'a list \<Rightarrow> string" where
  "enc_list e [] = ''0''"
| "enc_list e (x # xs) = ''1'' @ e x @ enc_list e xs"

text \<open>The reader of a list gets the length of its text as fuel, which is enough.\<close>

fun dec_list_fuel :: "nat \<Rightarrow> 'a reader \<Rightarrow> 'a list reader" where
  "dec_list_fuel 0 d t = None"
| "dec_list_fuel (Suc n) d t =
     (case dec_bool t of
        None \<Rightarrow> None
      | Some (more_items, r) \<Rightarrow>
          if \<not> more_items then Some ([], r)
          else case d r of
                 None \<Rightarrow> None
               | Some (x, r') \<Rightarrow> map_option (\<lambda>(xs, r). (x # xs, r)) (dec_list_fuel n d r'))"

definition dec_list :: "'a reader \<Rightarrow> 'a list reader" where
  "dec_list d t = dec_list_fuel (length t) d t"

definition enc_map :: "('a \<Rightarrow> 'b) \<Rightarrow> ('b \<Rightarrow> string) \<Rightarrow> 'a \<Rightarrow> string" where
  "enc_map f e x = e (f x)"

definition dec_map :: "('b \<Rightarrow> 'a) \<Rightarrow> 'b reader \<Rightarrow> 'a reader" where
  "dec_map g d t = map_option (\<lambda>(x, r). (g x, r)) (d t)"

lemma reads_text: "dec_text (enc_text s @ r) = Some (s, r)"
  by (induction s) (cases r, simp_all add: enc_text_def)

interpretation text_codec: reads_back enc_text dec_text
  by unfold_locales (rule reads_text)

interpretation bool_codec: reads_back enc_bool dec_bool
  by unfold_locales (simp add: enc_bool_def)

interpretation word_codec: reads_back enc_word dec_word
  by unfold_locales (simp add: enc_word_def dec_word_def reads_text digits_val_show_nat)

lemma reads_opt: "reads_back e d \<Longrightarrow> reads_back (enc_opt e) (dec_opt d)"
  by (simp add: reads_back_def enc_opt_def dec_opt_def bool_codec.reads split: option.split)

lemma reads_pair: "reads_back e d \<Longrightarrow> reads_back f g \<Longrightarrow> reads_back (enc_pair e f) (dec_pair d g)"
  by (simp add: reads_back_def enc_pair_def dec_pair_def)

lemma reads_map: "reads_back e d \<Longrightarrow> (\<And>x. g (f x) = x) \<Longrightarrow> reads_back (enc_map f e) (dec_map g d)"
  by (simp add: reads_back_def enc_map_def dec_map_def)

lemma reads_list_fuel:
  assumes "reads_back e d"
  shows "length xs < n \<Longrightarrow> dec_list_fuel n d (enc_list e xs @ r) = Some (xs, r)"
proof (induction xs arbitrary: n)
  case Nil
  then show ?case by (cases n) simp_all
next
  case (Cons x xs)
  then obtain m where "n = Suc m" "length xs < m" by (cases n) auto
  with Cons.IH assms show ?case by (simp add: reads_back_def)
qed

lemma length_enc_list: "length xs < length (enc_list e xs)"
  by (induction xs) auto

lemma reads_list:
  assumes "reads_back e d"
  shows "reads_back (enc_list e) (dec_list d)"
proof
  show "dec_list d (enc_list e xs @ r) = Some (xs, r)" for xs r
    using length_enc_list[of xs e] unfolding dec_list_def
    by (intro reads_list_fuel[OF assms]) simp
qed

lemmas reader_rules = reads_opt reads_pair reads_list text_codec.reads_back_axioms
  bool_codec.reads_back_axioms word_codec.reads_back_axioms

section \<open>The two stored states\<close>

definition type_code :: "module_type \<Rightarrow> bool \<times> bool" where
  "type_code t = (case t of MT_Unknown \<Rightarrow> (False, False) | MT_Domestic \<Rightarrow> (False, True) | MT_LegacyRussian \<Rightarrow> (True, False))"

definition code_type :: "bool \<times> bool \<Rightarrow> module_type" where
  "code_type c = (if fst c then MT_LegacyRussian else if snd c then MT_Domestic else MT_Unknown)"

abbreviation enc_type :: "module_type \<Rightarrow> string" where
  "enc_type \<equiv> enc_map type_code (enc_pair enc_bool enc_bool)"

abbreviation dec_type :: "module_type reader" where
  "dec_type \<equiv> dec_map code_type (dec_pair dec_bool dec_bool)"

lemma reads_type: "reads_back enc_type dec_type"
  by (intro reads_map reader_rules) (simp add: type_code_def code_type_def split: module_type.split)

definition port_parts :: "stored_port \<Rightarrow> bool \<times> (string \<times> bool) list" where
  "port_parts sp = (sp_enabled sp, sp_device_read_enabled sp)"

definition parts_port :: "bool \<times> (string \<times> bool) list \<Rightarrow> stored_port" where
  "parts_port x = \<lparr>sp_enabled = fst x, sp_device_read_enabled = snd x\<rparr>"

definition state_parts :: "stored_state \<Rightarrow> u32 \<times> string \<times> (string \<times> stored_port) list" where
  "state_parts v = (ss_schema_version v, ss_revision v, ss_ports v)"

definition parts_state :: "u32 \<times> string \<times> (string \<times> stored_port) list \<Rightarrow> stored_state" where
  "parts_state x = \<lparr>ss_schema_version = fst x, ss_revision = fst (snd x), ss_ports = snd (snd x)\<rparr>"

definition enc_settings :: "stored_state \<Rightarrow> string" where
  "enc_settings = enc_map state_parts (enc_pair enc_word (enc_pair enc_text
     (enc_list (enc_pair enc_text (enc_map port_parts (enc_pair enc_bool (enc_list (enc_pair enc_text enc_bool))))))))"

definition dec_settings :: "stored_state reader" where
  "dec_settings = dec_map parts_state (dec_pair dec_word (dec_pair dec_text
     (dec_list (dec_pair dec_text (dec_map parts_port (dec_pair dec_bool (dec_list (dec_pair dec_text dec_bool))))))))"

lemma reads_settings: "reads_back enc_settings dec_settings"
  unfolding enc_settings_def dec_settings_def
  by (intro reads_map reader_rules) (simp_all add: port_parts_def parts_port_def state_parts_def parts_state_def)

type_synonym record_parts =
  "module_type \<times> module_type \<times> bool \<times> string \<times> u16 option \<times> string \<times> u16 option \<times> string \<times> string
     \<times> string option \<times> string option \<times> string \<times> u32 \<times> bool"

fun parts_record :: "record_parts \<Rightarrow> station_version_record" where
  "parts_record (c, d, m, cv, cr, pv, pr, vp, vs, aa, sa, le, cf, st) =
     \<lparr>configured_module_type = c, detected_module_type = d, type_mismatch = m, communication_module_version = cv,
      communication_module_version_raw = cr, plc_version = pv, plc_version_raw = pr, version_payload = vp,
      version_state = vs, last_version_attempt_at = aa, last_version_success_at = sa, last_version_error = le,
      consecutive_failures = cf, stale = st\<rparr>"

definition parts_of_record :: "station_version_record \<Rightarrow> record_parts" where
  "parts_of_record r =
     (configured_module_type r, detected_module_type r, type_mismatch r, communication_module_version r,
      communication_module_version_raw r, plc_version r, plc_version_raw r, version_payload r, version_state r,
      last_version_attempt_at r, last_version_success_at r, last_version_error r, consecutive_failures r, stale r)"

definition enc_record :: "station_version_record \<Rightarrow> string" where
  "enc_record = enc_map parts_of_record
     (enc_pair enc_type (enc_pair enc_type (enc_pair enc_bool (enc_pair enc_text (enc_pair (enc_opt enc_word)
     (enc_pair enc_text (enc_pair (enc_opt enc_word) (enc_pair enc_text (enc_pair enc_text (enc_pair (enc_opt enc_text)
     (enc_pair (enc_opt enc_text) (enc_pair enc_text (enc_pair enc_word enc_bool)))))))))))))"

definition dec_record :: "station_version_record reader" where
  "dec_record = dec_map parts_record
     (dec_pair dec_type (dec_pair dec_type (dec_pair dec_bool (dec_pair dec_text (dec_pair (dec_opt dec_word)
     (dec_pair dec_text (dec_pair (dec_opt dec_word) (dec_pair dec_text (dec_pair dec_text (dec_pair (dec_opt dec_text)
     (dec_pair (dec_opt dec_text) (dec_pair dec_text (dec_pair dec_word dec_bool)))))))))))))"

lemma reads_record: "reads_back enc_record dec_record"
  unfolding enc_record_def dec_record_def
  by (intro reads_map reader_rules reads_type) (simp add: parts_of_record_def)

definition entry_parts :: "stored_station_entry \<Rightarrow> string \<times> station_version_record" where
  "entry_parts e = (se_topology_fingerprint e, se_record e)"

definition parts_entry :: "string \<times> station_version_record \<Rightarrow> stored_station_entry" where
  "parts_entry x = \<lparr>se_topology_fingerprint = fst x, se_record = snd x\<rparr>"

definition stations_parts :: "stored_station_state \<Rightarrow> u32 \<times> string \<times> station_map" where
  "stations_parts v = (st_schema_version v, st_revision v, st_ports v)"

definition parts_stations :: "u32 \<times> string \<times> station_map \<Rightarrow> stored_station_state" where
  "parts_stations x = \<lparr>st_schema_version = fst x, st_revision = fst (snd x), st_ports = snd (snd x)\<rparr>"

definition enc_stations :: "stored_station_state \<Rightarrow> string" where
  "enc_stations = enc_map stations_parts (enc_pair enc_word (enc_pair enc_text
     (enc_list (enc_pair enc_text (enc_list (enc_pair enc_text (enc_map entry_parts (enc_pair enc_text enc_record))))))))"

definition dec_stations :: "stored_station_state reader" where
  "dec_stations = dec_map parts_stations (dec_pair dec_word (dec_pair dec_text
     (dec_list (dec_pair dec_text (dec_list (dec_pair dec_text (dec_map parts_entry (dec_pair dec_text dec_record))))))))"

lemma reads_stations: "reads_back enc_stations dec_stations"
  unfolding enc_stations_def dec_stations_def
  by (intro reads_map reader_rules reads_record)
    (simp_all add: entry_parts_def parts_entry_def stations_parts_def parts_stations_def)

interpretation settings_codec: reads_back enc_settings dec_settings
  by (rule reads_settings)

interpretation stations_codec: reads_back enc_stations dec_stations
  by (rule reads_stations)

text \<open>The whole text must be read, and maps must be in order.\<close>

definition example_codec :: state_codec where
  "example_codec =
     \<lparr>sc_enc = enc_settings,
      sc_dec = (\<lambda>t. case dec_settings t of
         Some (v, []) \<Rightarrow> if settings_wf v then Inr v else Inl ''invalid state'' | _ \<Rightarrow> Inl ''invalid text''),
      sc_station_enc = enc_stations,
      sc_station_dec = (\<lambda>t. case dec_stations t of
         Some (v, []) \<Rightarrow> if stations_wf v then Inr v else Inl ''invalid state'' | _ \<Rightarrow> Inl ''invalid text'')\<rparr>"

lemma example_codec_reads_back: "codec_reads_back example_codec"
  by (auto simp: codec_reads_back_def example_codec_def settings_codec.reads_all stations_codec.reads_all
      split: option.splits prod.splits list.splits if_splits)

end
