(* ===== verification/Operations_Stations.thy ===== *)
theory Operations_Stations
  imports Operations_Stored
begin

text \<open>
  The station records against their file: the file holds the stored state exactly, and a snapshot
  shows the stored record of every station, except that a station that does not answer is shown
  as stale.
\<close>

section \<open>The invariant\<close>

definition same_record :: "station_version_record \<Rightarrow> station_version_record \<Rightarrow> bool" where
  "same_record a b \<longleftrightarrow> b = a\<lparr>stale := stale b\<rparr> \<and> (stale a \<longrightarrow> stale b)"

definition entry_shown :: "stored_station_state \<Rightarrow> string \<Rightarrow> string \<Rightarrow> station_version_record \<Rightarrow> bool" where
  "entry_shown st p k r \<longleftrightarrow>
     (case station_entry p k st of None \<Rightarrow> False | Some e \<Rightarrow> same_record (se_record e) r)"

definition devices_shown :: "stored_station_state \<Rightarrow> string \<Rightarrow> device_snapshot list \<Rightarrow> bool" where
  "devices_shown st p ds \<longleftrightarrow>
     distinct (map dn_device_id ds) \<and> (\<forall>d \<in> set ds. entry_shown st p (dn_device_id d) (dn_station_version d))"

definition stations_shown :: "stored_station_state \<Rightarrow> ops_state \<Rightarrow> bool" where
  "stations_shown st s \<longleftrightarrow> (\<forall>p q. map_of (os_ports s) p = Some q \<longrightarrow> devices_shown st p (pn_devices q))"

definition disk_stations :: "state_codec \<Rightarrow> string option \<Rightarrow> string + stored_station_state" where
  "disk_stations cd t = (case t of None \<Rightarrow> Inr default_stored_station_state | Some x \<Rightarrow> sc_station_dec cd x)"

definition stations_ok :: "state_codec \<Rightarrow> operations \<Rightarrow> bool" where
  "stations_ok cd ops \<longleftrightarrow>
     (let st = os_station_saved (op_state ops); n = sd_nodes (op_station_dir ops) in
      stations_wf st \<and> canonical_revision (st_revision st) \<and> tidy n
      \<and> (\<forall>t. current_text n = Some t \<longrightarrow> int (length t) \<le> max_station_state_bytes)
      \<and> disk_stations cd (current_text n) = Inr st
      \<and> stations_shown st (op_state ops))"

lemma same_record_refl [simp]: "same_record r r"
  by (simp add: same_record_def)

lemma same_record_stale: "same_record a b \<Longrightarrow> (stale a \<longrightarrow> x) \<Longrightarrow> same_record a (b\<lparr>stale := x\<rparr>)"
  by (cases a; cases b) (simp add: same_record_def)

lemma stations_shown_port:
  assumes "stations_shown st s" and "\<And>q. devices_shown st p (pn_devices q) \<Longrightarrow> devices_shown st p (pn_devices (f q))"
  shows "stations_shown st (on_port p f s)"
  using assms by (auto simp: stations_shown_def ops_sels)

lemma stations_shown_parts:
  "stations_shown st s \<Longrightarrow> stations_shown st (set_pending p r s)"
  "stations_shown st s \<Longrightarrow> stations_shown st (s\<lparr>os_saved := a\<rparr>)"
  "stations_shown st s \<Longrightarrow> stations_shown st (s\<lparr>os_station_saved := b\<rparr>)"
  "stations_shown st s \<Longrightarrow> stations_shown st (control_started p rv s)"
  "stations_shown st s \<Longrightarrow> stations_shown st (control_ended p m s)"
  "stations_shown st s \<Longrightarrow> stations_shown st (unless_sent b' p m' s)"
  by (auto simp: stations_shown_def ops_sels unless_sent_def)

lemma stations_okI:
  assumes "stations_ok cd ops" and "os_station_saved (op_state ops') = os_station_saved (op_state ops)"
    and "sd_nodes (op_station_dir ops') = sd_nodes (op_station_dir ops)"
    and "stations_shown (os_station_saved (op_state ops)) (op_state ops) \<Longrightarrow>
         stations_shown (os_station_saved (op_state ops)) (op_state ops')"
  shows "stations_ok cd ops'"
  using assms by (simp add: stations_ok_def Let_def)

section \<open>Preservation\<close>

text \<open>A change of one device that keeps its identifier.\<close>

lemma devices_shown_update:
  assumes "devices_shown st p ds" and "\<And>d. dn_device_id (f d) = dn_device_id d"
    and "\<And>d. d \<in> set ds \<Longrightarrow> dn_device_id d = k \<Longrightarrow> entry_shown st p k (dn_station_version d) \<Longrightarrow> entry_shown st' p k (dn_station_version (f d))"
    and "\<And>k'. k' \<noteq> k \<Longrightarrow> station_entry p k' st' = station_entry p k' st"
  shows "devices_shown st' p (update_first (\<lambda>d. dn_device_id d = k) f ds)"
proof -
  have e: "update_first (\<lambda>d. dn_device_id d = k) f ds = map (\<lambda>d. if dn_device_id d = k then f d else d) ds"
    using map_update_first_key[where key = dn_device_id and g = "\<lambda>x. x", of ds f k] assms(1,2)
    by (simp add: devices_shown_def)
  have ids: "map dn_device_id (map (\<lambda>d. if dn_device_id d = k then f d else d) ds) = map dn_device_id ds"
    using assms(2) by simp
  show ?thesis
    unfolding e devices_shown_def ids using assms by (auto simp: devices_shown_def entry_shown_def)
qed

lemma station_entry_changed:
  "station_entry p' k' (station_changed p k f rv st) =
     (if p' = p \<and> k' = k then map_option (\<lambda>e. e\<lparr>se_record := f (se_record e)\<rparr>) (station_entry p k st)
      else station_entry p' k' st)"
  by (cases "map_of (st_ports st) p") (auto simp: station_entry_def station_changed_def on_station_def)

lemma stations_shown_change:
  assumes "stations_shown st s" and e: "station_entry p k st = Some e"
  shows "stations_shown (station_changed p k f rv st) (show_record p k (f (se_record e)) s)"
  unfolding stations_shown_def
proof (intro allI impI)
  fix x q
  assume q: "map_of (os_ports (show_record p k (f (se_record e)) s)) x = Some q"
  show "devices_shown (station_changed p k f rv st) x (pn_devices q)"
  proof (cases "x = p")
    case True
    then obtain q0 where q0: "map_of (os_ports s) p = Some q0"
      and qq: "q = on_device k (\<lambda>d. d\<lparr>dn_station_version := f (se_record e)\<rparr>) q0"
      using q by (auto simp: ops_sels)
    from assms(1) q0 have "devices_shown st p (pn_devices q0)" by (auto simp: stations_shown_def)
    then have "devices_shown (station_changed p k f rv st) p
        (update_first (\<lambda>d. dn_device_id d = k) (\<lambda>d. d\<lparr>dn_station_version := f (se_record e)\<rparr>) (pn_devices q0))"
      by (rule devices_shown_update) (auto simp: entry_shown_def station_entry_changed e)
    then show ?thesis by (simp add: True qq ops_sels)
  next
    case False
    with q assms(1) have "devices_shown st x (pn_devices q)" by (auto simp: stations_shown_def ops_sels)
    with False show ?thesis by (auto simp: devices_shown_def entry_shown_def station_entry_changed)
  qed
qed

text \<open>A completed write of a changed state, and a failed one.\<close>

lemma stations_ok_written:
  assumes codec: "codec_reads_back cd" and inv: "stations_ok cd ops" and "stations_saved cd nx ops ops'"
    and "os_station_saved (op_state ops') = nx" and "stations_wf nx" and "canonical_revision (st_revision nx)"
    and "stations_shown nx (op_state ops')"
  shows "stations_ok cd ops'"
proof -
  obtain fs rv where w: "persist_station_state rv (sc_station_enc cd nx) (with_faults fs (op_station_dir ops)) = (Inr (), op_station_dir ops')"
    using assms(3) by (auto simp: stations_saved_def)
  have "tidy (sd_nodes (op_station_dir ops))" using inv by (simp add: stations_ok_def Let_def)
  from persist_stations[OF this w] assms codec show ?thesis
    by (auto simp: stations_ok_def disk_stations_def codec_reads_back_def)
qed

lemma stations_ok_unsaved:
  assumes inv: "stations_ok cd ops" and "stations_unsaved cd ops ops'"
  shows "stations_ok cd ops'"
proof -
  have t: "tidy (sd_nodes (op_station_dir ops))" using inv by (simp add: stations_ok_def Let_def)
  consider "op_station_dir ops' = op_station_dir ops" "op_state ops' = op_state ops"
    | rv nx fs m where "persist_station_state rv (sc_station_enc cd nx) (with_faults fs (op_station_dir ops)) = (Inl m, op_station_dir ops')"
        "op_state ops' = op_state ops"
    using assms(2) by (auto simp: stations_unsaved_def)
  then show ?thesis
  proof cases
    case 1
    with inv show ?thesis by (simp add: stations_ok_def)
  next
    case 2
    from persist_stations[OF t 2(1)] 2(2) inv show ?thesis by (simp add: stations_ok_def Let_def)
  qed
qed

lemma canonical_increment: "increment_revision s = Inr rv \<Longrightarrow> 0 < rv"
  by (auto simp: increment_revision_Ok dest: u64_succ_pos)

lemma revision_changed [simp]: "st_revision (station_changed p k f rv st) = show_u64 rv"
  by (simp add: station_changed_def on_station_def)

lemma stations_okD:
  assumes "stations_ok cd ops"
  shows "stations_wf (os_station_saved (op_state ops))" and "stations_shown (os_station_saved (op_state ops)) (op_state ops)"
  using assms by (simp_all add: stations_ok_def Let_def)

lemma stations_ok_change:
  assumes codec: "codec_reads_back cd" and inv: "stations_ok cd ops" and "change_station cd fs p k f ops = (r, ops')"
  shows "stations_ok cd ops'"
  using assms(3)
proof (cases rule: change_station_cases)
  case (refused e)
  with inv stations_ok_unsaved show ?thesis by blast
next
  case (saved rv e nx)
  show ?thesis
    by (rule stations_ok_written[OF codec inv saved(5)])
      (use saved stations_okD[OF inv] in \<open>auto simp: ops_sels stations_wf_changed canonical_increment
         intro: stations_shown_change stations_shown_parts\<close>)
qed

lemma stations_ok_result:
  "codec_reads_back cd \<Longrightarrow> stations_ok cd ops \<Longrightarrow> report_station_query_result cd fs now p n res ops = (r, ops') \<Longrightarrow> stations_ok cd ops'"
  using stations_ok_change by (fastforce simp: report_station_query_result_def split: prod.splits)

lemma stations_ok_module_type:
  assumes codec: "codec_reads_back cd" and inv: "stations_ok cd ops"
    and "set_module_type_locked cd fs p k n mt ex es ops = (r, ops')"
  shows "stations_ok cd ops'"
  using assms(3)
proof (cases rule: module_type_cases)
  case refused
  with inv stations_ok_unsaved show ?thesis by blast
next
  case (saved port rv nx e sent m)
  show ?thesis
  proof (rule stations_ok_written[OF codec inv saved(7)])
    show "stations_shown nx (op_state ops')"
      unfolding saved(8) saved(6)
      by (intro stations_shown_parts(4,6) stations_shown_change[OF _ saved(5)] stations_shown_parts(3) stations_okD[OF inv])
  qed (use saved stations_okD[OF inv] in \<open>auto simp: show_record_sels stations_wf_changed canonical_increment\<close>)
qed

lemma stations_ok_query:
  assumes codec: "codec_reads_back cd" and inv: "stations_ok cd ops"
    and "query_version_locked cd fs fs' now p (device_key_text n) n ex es ops = (r, ops')"
  shows "stations_ok cd ops'"
  using assms(3)
proof (cases rule: query_cases)
  case refused
  with inv stations_ok_unsaved show ?thesis by blast
next
  case (saved port rv nx e ops1)
  have o1: "stations_ok cd ops1"
  proof (rule stations_ok_written[OF codec inv saved(7)])
    show "stations_shown nx (op_state ops1)"
      unfolding saved(8) saved(6)
      by (intro stations_shown_parts(4) stations_shown_change[OF _ saved(5)] stations_shown_parts(3) stations_okD[OF inv])
  qed (use saved stations_okD[OF inv] in \<open>auto simp: show_record_sels stations_wf_changed canonical_increment\<close>)
  let ?ended = "on_state (control_ended p (Some ''serial worker channel closed'')) ops1"
  have "stations_ok cd ?ended" by (rule stations_okI[OF o1]) (auto simp: on_state_sels intro: stations_shown_parts)
  with stations_ok_result[OF codec] have "stations_ok cd (snd (report_station_query_result cd fs' now p n
      (Inl ''serial worker is unavailable'') ?ended))" by (metis prod.collapse)
  moreover have "op_state ops' = op_state ops1 \<Longrightarrow> op_station_dir ops' = op_station_dir ops1 \<Longrightarrow> stations_ok cd ops'"
    by (rule stations_okI[OF o1]) simp_all
  ultimately show ?thesis using saved(9) by auto
qed

lemma stations_ok_set_control:
  assumes "stations_ok cd ops" and "set_control_locked cd fs p dv en ex ops = (r, ops')"
  shows "stations_ok cd ops'"
  using assms(2)
proof (cases rule: set_control_locked_cases)
  case (saved port rv nx sent)
  have d: "devices_shown st p (pn_devices q) \<Longrightarrow> devices_shown st p (pn_devices (desired_setting dv en q))" for st q
    by (cases dv) (auto simp: desired_setting_def ops_sels intro: devices_shown_update)
  have st: "os_station_saved (op_state ops') = os_station_saved (op_state ops)"
    using saved(11) by (simp add: on_port_sels)
  show ?thesis
  proof (rule stations_okI[OF assms(1) st])
    assume "stations_shown (os_station_saved (op_state ops)) (op_state ops)"
    then have "stations_shown (os_station_saved (op_state ops))
        (control_started p rv (on_port p (desired_setting dv en) ((op_state ops)\<lparr>os_saved := nx\<rparr>)))"
      by (intro stations_shown_parts(4) stations_shown_port[OF _ d] stations_shown_parts(2))
    with saved(11) stations_shown_parts(5) show "stations_shown (os_station_saved (op_state ops)) (op_state ops')"
      by (cases sent) simp_all
  qed (simp add: saved(10))
qed (use assms(1) stations_okI[OF assms(1)] in simp_all)

lemma report_device_shown:
  assumes "devices_shown st p (pn_devices q)"
    and "stations = (case map_of (st_ports st) p of Some m \<Rightarrow> m | None \<Rightarrow> [])"
  shows "devices_shown st p (pn_devices (report_device stations rep q))"
proof -
  obtain n re co la where rep: "rep = (n, re, co, la)" by (cases rep)
  have "map_of stations k = station_entry p k st" for k
    using assms(2) by (cases "map_of (st_ports st) p") (simp_all add: station_entry_def)
  with assms(1) show ?thesis
    unfolding rep report_device_def
    by (auto simp: ops_sels Let_def entry_shown_def same_record_stale split: option.splits
        intro!: devices_shown_update)
qed

lemma fold_report_shown:
  assumes "devices_shown st p (pn_devices q)"
    and "stations = (case map_of (st_ports st) p of Some m \<Rightarrow> m | None \<Rightarrow> [])"
  shows "devices_shown st p (pn_devices (fold (report_device stations) reps q))"
  using assms(1)
proof (induction reps arbitrary: q)
  case (Cons rep reps)
  from Cons.IH[OF report_device_shown[OF Cons.prems assms(2)]] show ?case by simp
qed simp

lemma stations_ok_reports:
  assumes "stations_ok cd ops"
  shows "stations_ok cd (report_runtime p e opn ds ops)"
    and "stations_ok cd (ops_complete_control p rv out ops)"
    and "stations_ok cd (fail_pending_controls p m ops)"
    and "stations_ok cd (worker_stopped_ops p ops)"
proof -
  show "stations_ok cd (report_runtime p e opn ds ops)"
    by (rule stations_okI[OF assms])
      (auto simp: report_runtime_def Let_def ops_sels intro!: stations_shown_port fold_report_shown)
  show "stations_ok cd (ops_complete_control p rv out ops)"
    by (rule stations_okI[OF assms]) (auto simp: ops_complete_control_def on_state_sels intro: stations_shown_parts)
  show "stations_ok cd (fail_pending_controls p m ops)"
    by (rule stations_okI[OF assms]) (auto simp: fail_pending_controls_def on_state_sels intro: stations_shown_parts)
  show "stations_ok cd (worker_stopped_ops p ops)"
    by (rule stations_okI[OF assms])
      (auto simp: worker_stopped_ops_def on_state_sels on_port_sels comp_def devices_shown_def entry_shown_def
        same_record_stale split: option.splits intro!: stations_shown_port stations_shown_parts(5))
qed

text \<open>An interrupted query is marked in the stored records and in the snapshots alike.\<close>

lemma map_of_interrupted:
  assumes "btree_ok m"
  shows "map_of (interrupted_records now msg m) k =
    (case map_of m k of
       Some e \<Rightarrow> if version_state (se_record e) = ''querying'' then Some (se_record (interrupted now msg e)) else None
     | None \<Rightarrow> None)"
proof -
  have "map_of (interrupted_records now msg m) k =
      map_option (\<lambda>e. se_record (interrupted now msg e)) (map_of (filter (\<lambda>(k, e). version_state (se_record e) = ''querying'') m) k)"
    by (simp add: interrupted_records_def map_of_map)
  moreover have "map_of (filter (\<lambda>(k, e). version_state (se_record e) = ''querying'') m) k =
      (case map_of m k of Some e \<Rightarrow> if version_state (se_record e) = ''querying'' then Some e else None | None \<Rightarrow> None)"
    using bt.entries_distinct[OF assms]
    by (induction m) (auto split: option.splits simp: map_of_eq_None_iff image_iff)
  ultimately show ?thesis by (simp split: option.split)
qed

lemma devices_shown_interrupted:
  assumes d: "devices_shown st p (pn_devices q)" and m: "map_of (st_ports st) p = Some m" and ok: "btree_ok m"
    and st': "map_of (st_ports st') p = Some (map (\<lambda>(k, e). (k, interrupted now msg e)) m)"
  shows "devices_shown st' p (pn_devices (show_records (interrupted_records now msg m) q))"
proof -
  have e: "station_entry p k st = map_of m k" for k by (simp add: station_entry_def m)
  have e': "station_entry p k st' = map_option (interrupted now msg) (map_of m k)" for k
    using st' by (simp add: station_entry_def map_of_map)
  define g where "g d = (case map_of (interrupted_records now msg m) (dn_device_id d) of
    Some r \<Rightarrow> d\<lparr>dn_station_version := r\<rparr> | None \<Rightarrow> d)" for d :: device_snapshot
  have id: "dn_device_id (g d) = dn_device_id d" for d by (simp add: g_def split: option.split)
  have shown: "entry_shown st' p (dn_device_id d) (dn_station_version (g d))"
    if "entry_shown st p (dn_device_id d) (dn_station_version d)" for d
    using that by (auto simp: g_def entry_shown_def e e' map_of_interrupted[OF ok] interrupted_def
        split: option.splits)
  have "pn_devices (show_records (interrupted_records now msg m) q) = map g (pn_devices q)"
    by (simp add: show_records_def g_def)
  with d shown show ?thesis by (simp add: devices_shown_def comp_def id)
qed

lemma stations_ok_inflight:
  assumes codec: "codec_reads_back cd" and inv: "stations_ok cd ops"
  shows "stations_ok cd (fail_inflight_station_queries cd fs now p m ops)"
proof (rule inflight_cases[of cd ops fs now p m])
  assume "stations_unsaved cd ops (fail_inflight_station_queries cd fs now p m ops)"
  with inv stations_ok_unsaved show ?thesis by blast
next
  fix stations n rv nx
  assume st: "map_of (st_ports (os_station_saved (op_state ops))) p = Some stations"
    and "u64_succ n = Some rv"
    and nx: "nx = (os_station_saved (op_state ops))\<lparr>st_revision := show_u64 rv,
         st_ports := adjust p (map (\<lambda>(k, e). (k, interrupted now m e))) (st_ports (os_station_saved (op_state ops)))\<rparr>"
    and sv: "stations_saved cd nx ops (fail_inflight_station_queries cd fs now p m ops)"
    and new: "op_state (fail_inflight_station_queries cd fs now p m ops) =
         on_port p (show_records (interrupted_records now m stations)) ((op_state ops)\<lparr>os_station_saved := nx\<rparr>)"
  let ?st = "os_station_saved (op_state ops)"
  have wf: "stations_wf ?st" and shown: "stations_shown ?st (op_state ops)" using stations_okD[OF inv] by auto
  have "btree_ok (map (\<lambda>(k, e). (k, interrupted now m e)) x) = btree_ok x" for x
    by (simp add: btree_ok_def comp_def split_def)
  then have "stations_wf nx" using wf unfolding nx stations_wf_def by (auto intro: list_all_adjust)
  moreover have "stations_shown nx (op_state (fail_inflight_station_queries cd fs now p m ops))"
    unfolding stations_shown_def
  proof (intro allI impI)
    fix x q
    assume q: "map_of (os_ports (op_state (fail_inflight_station_queries cd fs now p m ops))) x = Some q"
    show "devices_shown nx x (pn_devices q)"
    proof (cases "x = p")
      case True
      with q obtain q0 where "map_of (os_ports (op_state ops)) p = Some q0"
        and qq: "q = show_records (interrupted_records now m stations) q0" by (auto simp: new ops_sels)
      with shown have "devices_shown ?st p (pn_devices q0)" by (auto simp: stations_shown_def)
      from devices_shown_interrupted[OF this st stations_wf_port[OF wf st]] show ?thesis
        by (simp add: True qq nx st)
    next
      case False
      with q shown have "devices_shown ?st x (pn_devices q)" by (auto simp: new ops_sels stations_shown_def)
      with False show ?thesis by (auto simp: devices_shown_def entry_shown_def station_entry_def nx)
    qed
  qed
  moreover have "os_station_saved (op_state (fail_inflight_station_queries cd fs now p m ops)) = nx"
    "canonical_revision (st_revision nx)"
    using \<open>u64_succ n = Some rv\<close> by (simp_all add: new on_port_sels nx u64_succ_pos)
  ultimately show ?thesis using stations_ok_written[OF codec inv sv] by simp
qed

section \<open>Runs\<close>

definition service_ok :: "state_codec \<Rightarrow> ops_system \<Rightarrow> bool" where
  "service_ok cd s \<longleftrightarrow> admissions_ok s \<and> settings_ok cd (sy_ops s) \<and> stations_ok cd (sy_ops s)"

lemma settings_ok_gate: "settings_ok cd (admitted_ops ops g) = settings_ok cd ops"
  by (simp add: settings_ok_def)

lemma stations_ok_gate: "stations_ok cd (admitted_ops ops g) = stations_ok cd ops"
  by (simp add: stations_ok_def)

lemma port_count_frames:
  assumes "\<And>q. pn_enabled (f q) = pn_enabled q" "\<And>q. pn_devices (f q) = pn_devices q"
  shows "settings_ok cd (on_state (on_port p f) ops) = settings_ok cd ops"
    and "stations_ok cd (on_state (on_port p f) ops) = stations_ok cd ops"
proof -
  have "settings_view (on_port p f s) = settings_view s" for s
    by (rule settings_view_port) (simp_all add: assms)
  then show "settings_ok cd (on_state (on_port p f) ops) = settings_ok cd ops"
    by (simp add: settings_ok_def ops_sels)
  have "stations_shown st (on_port p f s) = stations_shown st s" for st s
    by (auto simp: stations_shown_def ops_sels assms split: if_splits)
  then show "stations_ok cd (on_state (on_port p f) ops) = stations_ok cd ops"
    by (simp add: stations_ok_def ops_sels)
qed

lemma stored_admit:
  assumes "admit_command p ops = (r, ops')" and "settings_ok cd ops" "stations_ok cd ops"
  shows "settings_ok cd ops' \<and> stations_ok cd ops'"
  using assms settings_ok_gate stations_ok_gate
  by (auto simp: admit_command_def port_count_frames admitted_ops_def split: sum.splits option.splits if_splits)

lemma stored_permit:
  assumes "settings_ok cd ops" "stations_ok cd ops"
  shows "settings_ok cd (permit_drop p ops) \<and> stations_ok cd (permit_drop p ops)"
  using assms settings_ok_gate[of cd "on_state (on_port p (\<lambda>q. q\<lparr>pn_pending_commands := pn_pending_commands q - 1\<rparr>)) ops"]
    stations_ok_gate[of cd "on_state (on_port p (\<lambda>q. q\<lparr>pn_pending_commands := pn_pending_commands q - 1\<rparr>)) ops"]
  by (simp add: permit_drop_def Let_def port_count_frames admitted_ops_def)

lemma stored_automatic:
  assumes codec: "codec_reads_back cd" and "begin_automatic_station_query cd fs now p n ops = (r, ops')"
    and inv: "settings_ok cd ops" "stations_ok cd ops"
  shows "settings_ok cd ops' \<and> stations_ok cd ops'"
  using assms(2)
proof (cases rule: automatic_cases)
  case refused
  with inv settings_ok_unsaved stations_ok_unsaved show ?thesis by blast
next
  case (saved g rv nx e ops1)
  have "settings_ok cd ops1"
    using settings_ok_saved[OF inv(1) saved(6)] by (simp add: saved(7) show_record_sels)
  moreover have "stations_ok cd ops1"
    by (rule stations_ok_written[OF codec inv(2) saved(6)])
      (use saved stations_okD[OF inv(2)] in \<open>auto simp: ops_sels stations_wf_changed canonical_increment
         intro: stations_shown_change stations_shown_parts\<close>)
  ultimately show ?thesis by (simp add: saved(8) settings_ok_gate stations_ok_gate)
qed

lemma stored_step:
  assumes codec: "codec_reads_back cd" and "ops_step cd s s'"
    and inv: "settings_ok cd (sy_ops s)" "stations_ok cd (sy_ops s)"
  shows "settings_ok cd (sy_ops s') \<and> stations_ok cd (sy_ops s')"
  using assms(2)
proof cases
  case (os_set_control g fs p dv en ex r ops)
  with inv settings_ok_set_control[OF codec _ os_set_control(3)] stations_ok_set_control[OF _ os_set_control(3)]
  show ?thesis by (simp add: settings_ok_gate stations_ok_gate)
next
  case (os_module_type g fs p k n mt ex es r ops)
  with inv settings_ok_module_type[OF _ os_module_type(3)] stations_ok_module_type[OF codec _ os_module_type(3)]
  show ?thesis by (simp add: settings_ok_gate stations_ok_gate)
next
  case (os_query g fs fs' now p n ex es r ops)
  with inv settings_ok_query[OF _ os_query(3)] stations_ok_query[OF codec _ os_query(3)]
  show ?thesis by (simp add: settings_ok_gate stations_ok_gate)
next
  case (os_automatic fs now p n r ops)
  with inv stored_automatic[OF codec os_automatic(2)] show ?thesis by simp
next
  case (os_admit p r ops)
  with inv stored_admit[OF os_admit(2)] show ?thesis by simp
next
  case (os_result fs now p n result r ops)
  with inv settings_ok_result[OF _ os_result(2)] stations_ok_result[OF codec _ os_result(2)] show ?thesis by simp
next
  case (os_channel p ch)
  with inv show ?thesis by (simp add: take_command_def settings_ok_def stations_ok_def)
next
  case os_shutdown
  with inv show ?thesis by (simp add: settings_ok_def stations_ok_def)
qed (use inv in \<open>simp_all add: settings_ok_gate stations_ok_gate stored_permit settings_ok_reports
    stations_ok_reports settings_ok_inflight stations_ok_inflight[OF codec]\<close>)

inductive ops_run :: "state_codec \<Rightarrow> ops_system \<Rightarrow> ops_system \<Rightarrow> bool" for cd where
  or_here: "ops_run cd s s"
| or_next: "ops_run cd s s' \<Longrightarrow> ops_step cd s' s'' \<Longrightarrow> ops_run cd s s''"

lemma service_ok_run:
  assumes codec: "codec_reads_back cd" and "ops_run cd s s'" and "service_ok cd s"
  shows "service_ok cd s'"
  using assms(2,3)
proof induction
  case (or_next s s' s'')
  then show ?case using stored_step[OF codec] admissions_step by (auto simp: service_ok_def)
qed

end
