(* ===== verification/Operations_Restart.thy ===== *)
theory Operations_Restart
  imports Operations_Stations
begin

text \<open>
  Start-up of the operations service: what \<open>new_with_directories\<close> makes of the two files satisfies
  the invariants, and the settings and module types of configured stations are those of the files.
\<close>

section \<open>Lookups in the reconciled maps\<close>

definition map_entry :: "string \<Rightarrow> string \<Rightarrow> station_map \<Rightarrow> stored_station_entry option" where
  "map_entry p k m = Option.bind (map_of m p) (\<lambda>x. map_of x k)"

definition map_wf :: "station_map \<Rightarrow> bool" where
  "map_wf m \<longleftrightarrow> btree_ok m \<and> list_all (\<lambda>(p, x). btree_ok x) m"

definition stored_type :: "stored_station_entry option \<Rightarrow> module_type" where
  "stored_type e = (case e of Some x \<Rightarrow> configured_module_type (se_record x) | None \<Rightarrow> MT_Unknown)"

lemma station_entry_map: "station_entry p k st = map_entry p k (st_ports st)"
  by (simp add: station_entry_def map_entry_def)

lemma map_wf_port: "map_wf m \<Longrightarrow> map_of m p = Some x \<Longrightarrow> btree_ok x"
  by (auto simp: map_wf_def list_all_iff dest: map_of_SomeD)

lemma set_btree_insert: "set (btree_insert k v m) \<subseteq> insert (k, v) (set m)"
  by (induction k v m rule: btree_insert.induct) auto

lemma list_all_insert: "list_all P m \<Longrightarrow> P (k, v) \<Longrightarrow> list_all P (btree_insert k v m)"
  using set_btree_insert[of k v m] by (auto simp: list_all_iff)

lemma map_wf_insert: "map_wf m \<Longrightarrow> btree_ok x \<Longrightarrow> map_wf (btree_insert p x m)"
  by (simp add: map_wf_def btree_ok_insert list_all_insert)

lemma map_entry_insert:
  assumes "map_wf m" and "btree_ok x" and "x = (case map_of m p of None \<Rightarrow> [] | Some y \<Rightarrow> y)"
  shows "map_entry p' k' (btree_insert p (btree_insert k e x) m) =
    (if p' = p \<and> k' = k then Some e else map_entry p' k' m)"
  using assms by (auto simp: map_entry_def map_wf_def map_of_btree_insert split: option.splits)

lemma reconcile_entry_type [simp]:
  "configured_module_type (se_record (reconcile_entry fp e)) = configured_module_type (se_record e)"
  by (simp add: reconcile_entry_def Let_def reset_for_configured_type_def)

section \<open>The devices of a port\<close>

text \<open>What the loop over the devices keeps, relative to the settings and records it started with.\<close>

definition devices_inv ::
  "string \<Rightarrow> stored_port \<Rightarrow> station_map \<Rightarrow> stored_port \<times> station_map \<times> (string \<times> device_snapshot) list \<Rightarrow> bool" where
  "devices_inv port sp0 st0 acc \<longleftrightarrow>
     (case acc of (sp, st, ds) \<Rightarrow>
        btree_ok (sp_device_read_enabled sp) \<and> sp_enabled sp = sp_enabled sp0
        \<and> (\<forall>k b. map_of (sp_device_read_enabled sp) k = Some b \<longrightarrow> b = read_default (Some sp0) k)
        \<and> map_wf st \<and> (\<forall>p k. p \<noteq> port \<longrightarrow> map_entry p k st = map_entry p k st0)
        \<and> btree_ok ds
        \<and> (\<forall>k. map_of ds k = None \<longrightarrow> map_entry port k st = map_entry port k st0
               \<and> map_of (sp_device_read_enabled sp) k = map_of (sp_device_read_enabled sp0) k)
        \<and> (\<forall>k d. map_of ds k = Some d \<longrightarrow>
             dn_device_id d = k \<and> map_of (sp_device_read_enabled sp) k = Some (dn_read_enabled d)
             \<and> configured_module_type (dn_station_version d) = stored_type (map_entry port k st0)
             \<and> (\<exists>e. map_entry port k st = Some e \<and> dn_station_version d = se_record e)))"

lemma devices_inv_start:
  assumes "btree_ok (sp_device_read_enabled sp)" and "map_wf st"
  shows "devices_inv port sp st (sp, st, [])"
  using assms by (auto simp: devices_inv_def read_default_def btree_ok_def)

lemma devices_invD:
  assumes "devices_inv port sp0 st0 (sp, st, ds)" and "map_of ds k = Some d"
  shows "dn_device_id d = k" and "map_of (sp_device_read_enabled sp) k = Some (dn_read_enabled d)"
    and "configured_module_type (dn_station_version d) = stored_type (map_entry port k st0)"
    and "\<exists>e. map_entry port k st = Some e \<and> dn_station_version d = se_record e"
  using assms unfolding devices_inv_def prod.case by blast+

lemma reconcile_devices_inv:
  assumes "reconcile_devices fp port devs acc = Inr acc'" and "devices_inv port sp0 st0 acc"
  shows "devices_inv port sp0 st0 acc'
    \<and> (\<forall>k d. map_of (snd (snd acc)) k = Some d \<longrightarrow> map_of (snd (snd acc')) k = Some d)
    \<and> (\<forall>k d. map_of (snd (snd acc')) k = Some d \<longrightarrow> map_of (snd (snd acc)) k = Some d
          \<or> k \<in> (\<lambda>d. device_key_text (cfg_device_id (dc_config d))) ` set devs)"
  using assms
proof (induction devs arbitrary: acc)
  case Nil
  then show ?case by simp
next
  case (Cons device rest)
  obtain desired stations devices where acc: "acc = (desired, stations, devices)" by (cases acc)
  define n where "n = cfg_device_id (dc_config device)"
  define key where "key = device_key_text n"
  define desired' where "desired' = desired\<lparr>sp_device_read_enabled :=
            entry_or_insert key True (\<lambda>b. b) (sp_device_read_enabled desired)\<rparr>"
  define enabled where "enabled = (case map_of (sp_device_read_enabled desired) key of Some b \<Rightarrow> b | None \<Rightarrow> True)"
  define previous where "previous = (case map_of stations port of None \<Rightarrow> [] | Some m \<Rightarrow> m)"
  define entry where "entry = reconcile_entry (fp device) (case map_of previous key of Some e \<Rightarrow> e
     | None \<Rightarrow> \<lparr>se_topology_fingerprint = fp device, se_record = default_station_version\<rparr>)"
  define stations' where "stations' = btree_insert port (btree_insert key entry previous) stations"
  define devices' where "devices' = btree_insert key (initial_device n enabled (se_record entry)) devices"
  note defs = n_def key_def desired'_def enabled_def previous_def entry_def stations'_def devices'_def
  have fresh: "map_of devices key = None"
    and rest: "reconcile_devices fp port rest (desired', stations', devices') = Inr acc'"
    using Cons.prems(1) by (auto simp: acc Let_def defs split: if_splits)
  have inv: "devices_inv port sp0 st0 (desired, stations, devices)" using Cons.prems(2) by (simp add: acc)
  have bt: "btree_ok (sp_device_read_enabled desired)" "map_wf stations" "btree_ok devices"
    using inv by (auto simp: devices_inv_def)
  have bp: "btree_ok previous"
    using map_wf_port[OF bt(2), of port] by (simp add: previous_def btree_ok_def split: option.split)
  have me: "map_entry p' k' stations' = (if p' = port \<and> k' = key then Some entry else map_entry p' k' stations)" for p' k'
    unfolding stations'_def by (rule map_entry_insert[OF bt(2) bp previous_def])
  have wf': "map_wf stations'" unfolding stations'_def by (rule map_wf_insert[OF bt(2) btree_ok_insert[OF bp]])
  have old: "map_entry port key stations = map_entry port key st0"
    "map_of (sp_device_read_enabled desired) key = map_of (sp_device_read_enabled sp0) key"
    using inv fresh by (auto simp: devices_inv_def)
  have pk: "map_of previous key = map_entry port key stations"
    by (auto simp: previous_def map_entry_def split: option.split)
  have type: "configured_module_type (se_record entry) = stored_type (map_entry port key st0)"
    by (simp add: entry_def pk old stored_type_def default_station_version_def split: option.split)
  have me2: "map_of (sp_device_read_enabled desired') k =
      (if k = key then Some enabled else map_of (sp_device_read_enabled desired) k)" for k
    using bt(1) by (simp add: desired'_def map_of_entry enabled_def split: option.split)
  have en: "enabled = read_default (Some sp0) key" by (simp add: enabled_def old read_default_def)
  have md: "map_of devices' k = (if k = key then Some (initial_device n enabled (se_record entry)) else map_of devices k)" for k
    using bt(3) by (simp add: devices'_def map_of_btree_insert)
  have inv': "devices_inv port sp0 st0 (desired', stations', devices')"
    unfolding devices_inv_def prod.case
  proof (intro conjI allI impI)
    show "btree_ok (sp_device_read_enabled desired')" using bt(1) by (simp add: desired'_def btree_ok_entry)
    show "sp_enabled desired' = sp_enabled sp0" using inv by (simp add: desired'_def devices_inv_def)
    show "b = read_default (Some sp0) k" if "map_of (sp_device_read_enabled desired') k = Some b" for k b
      using that inv en by (auto simp: me2 devices_inv_def split: if_splits)
    show "map_wf stations'" by (rule wf')
    show "map_entry p k stations' = map_entry p k st0" if "p \<noteq> port" for p k
      using that inv by (auto simp: me devices_inv_def)
    show "btree_ok devices'" using bt(3) by (simp add: devices'_def btree_ok_insert)
    show "map_entry port k stations' = map_entry port k st0" if "map_of devices' k = None" for k
      using that inv by (auto simp: md me devices_inv_def split: if_splits)
    show "map_of (sp_device_read_enabled desired') k = map_of (sp_device_read_enabled sp0) k" if "map_of devices' k = None" for k
      using that inv by (auto simp: md me2 devices_inv_def split: if_splits)
  next
    fix k d assume d: "map_of devices' k = Some d"
    show "dn_device_id d = k" "map_of (sp_device_read_enabled desired') k = Some (dn_read_enabled d)"
      "configured_module_type (dn_station_version d) = stored_type (map_entry port k st0)"
      "\<exists>e. map_entry port k stations' = Some e \<and> dn_station_version d = se_record e"
      using d inv type by (auto simp: md me me2 devices_inv_def initial_device_def key_def split: if_splits)
  qed
  have keep: "map_of devices' k = Some d" if "map_of devices k = Some d" for k d
    using that fresh by (auto simp: md)
  have new: "map_of devices k = Some d \<or> k = device_key_text (cfg_device_id (dc_config device))"
    if "map_of devices' k = Some d" for k d
    using that by (auto simp: md key_def n_def split: if_splits)
  show ?case
    using Cons.IH[OF rest inv'] keep new by (fastforce simp: acc)
qed

section \<open>The ports\<close>

text \<open>A snapshot fresh from start-up: idle, with the stored settings, records and types.\<close>

definition port_started ::
  "(string \<times> stored_port) list \<Rightarrow> station_map \<Rightarrow> station_map \<Rightarrow> string \<Rightarrow> ops_port_snapshot \<Rightarrow> bool" where
  "port_started saved st0 st p q \<longleftrightarrow>
     pn_pending_commands q = 0 \<and> \<not> pn_control_pending q
     \<and> shows_settings (map_of saved p) (pn_enabled q, map (\<lambda>d. (dn_device_id d, dn_read_enabled d)) (pn_devices q))
     \<and> (\<forall>d \<in> set (pn_devices q).
          configured_module_type (dn_station_version d) = stored_type (map_entry p (dn_device_id d) st0)
          \<and> (\<exists>e. map_entry p (dn_device_id d) st = Some e \<and> dn_station_version d = se_record e))"

definition ports_inv ::
  "(string \<times> stored_port) list \<Rightarrow> station_map
     \<Rightarrow> (string \<times> stored_port) list \<times> station_map \<times> (string \<times> ops_port_snapshot) list \<Rightarrow> bool" where
  "ports_inv saved0 st0 acc \<longleftrightarrow>
     (case acc of (saved, st, snaps) \<Rightarrow>
        btree_ok saved \<and> list_all (\<lambda>(p, sp). btree_ok (sp_device_read_enabled sp)) saved
        \<and> (\<forall>p sp. map_of saved p = Some sp \<longrightarrow>
             sp_enabled sp = port_default (map_of saved0 p)
             \<and> (\<forall>k b. map_of (sp_device_read_enabled sp) k = Some b \<longrightarrow> b = read_default (map_of saved0 p) k))
        \<and> map_wf st \<and> btree_ok snaps
        \<and> (\<forall>p. map_of snaps p = None \<longrightarrow> map_of saved p = map_of saved0 p \<and> (\<forall>k. map_entry p k st = map_entry p k st0))
        \<and> (\<forall>p q. map_of snaps p = Some q \<longrightarrow> port_started saved st0 st p q))"

lemma ports_inv_start:
  assumes "btree_ok saved" and "list_all (\<lambda>(p, sp). btree_ok (sp_device_read_enabled sp)) saved" and "map_wf st"
  shows "ports_inv saved st (saved, st, [])"
  using assms by (auto simp: ports_inv_def port_default_def read_default_def btree_ok_def)

lemma map_of_values:
  assumes "btree_ok ds" and "\<And>k d. map_of ds k = Some d \<Longrightarrow> dn_device_id d = k"
  shows "distinct (map dn_device_id (map snd ds))" and "d \<in> set (map snd ds) \<Longrightarrow> map_of ds (dn_device_id d) = Some d"
proof -
  have dk: "distinct (map fst ds)" by (rule bt.entries_distinct[OF assms(1)])
  have m: "map_of ds k = Some x" if "(k, x) \<in> set ds" for k x using that dk by (simp add: map_of_eq_Some_iff)
  have eq: "map dn_device_id (map snd ds) = map fst ds" using assms(2) m by auto
  show "distinct (map dn_device_id (map snd ds))" unfolding eq by (rule dk)
  show "map_of ds (dn_device_id d) = Some d" if "d \<in> set (map snd ds)"
    using that assms(2) m by fastforce
qed

lemma port_started_other:
  assumes "port_started saved st0 st p q" and "map_of saved' p = map_of saved p"
    and "\<And>k. map_entry p k st' = map_entry p k st"
  shows "port_started saved' st0 st' p q"
  using assms by (simp add: port_started_def)

lemma reconcile_ports_inv:
  assumes "reconcile_ports fp ports acc = Inr acc'" and "ports_inv saved0 st0 acc"
  shows "ports_inv saved0 st0 acc'"
  using assms
proof (induction ports arbitrary: acc)
  case Nil
  then show ?case by simp
next
  case (Cons port rest)
  obtain saved stations snaps where acc: "acc = (saved, stations, snaps)" by (cases acc)
  define name where "name = spc_port_number port"
  define desired where "desired = (case map_of saved name of
     Some sp \<Rightarrow> sp | None \<Rightarrow> \<lparr>sp_enabled = True, sp_device_read_enabled = []\<rparr>)"
  obtain desired' stations' devices where r: "reconcile_devices (fp name) name (spc_devices port) (desired, stations, []) = Inr (desired', stations', devices)"
    and fresh: "map_of snaps name = None"
    and rest: "reconcile_ports fp rest (btree_insert name desired' saved, stations',
        btree_insert name (initial_port name (sp_enabled desired') (map snd devices)) snaps) = Inr acc'"
    using Cons.prems(1) by (auto simp: acc Let_def name_def[symmetric] desired_def[symmetric] split: if_splits)
  have inv: "ports_inv saved0 st0 (saved, stations, snaps)" using Cons.prems(2) by (simp add: acc)
  then have bs: "btree_ok saved" "btree_ok snaps" "map_wf stations"
    and la: "list_all (\<lambda>(p, sp). btree_ok (sp_device_read_enabled sp)) saved"
    and old: "map_of saved name = map_of saved0 name" "\<And>k. map_entry name k stations = map_entry name k st0"
    using fresh by (auto simp: ports_inv_def)
  have bd: "btree_ok (sp_device_read_enabled desired)"
    using la by (auto simp: desired_def btree_ok_def list_all_iff split: option.split dest: map_of_SomeD)
  have di: "devices_inv name desired stations (desired', stations', devices)"
    using reconcile_devices_inv[OF r devices_inv_start[OF bd bs(3)]] by simp
  have def1: "sp_enabled desired = port_default (map_of saved0 name)"
    by (simp add: desired_def old port_default_def split: option.split)
  have def2: "read_default (Some desired) k = read_default (map_of saved0 name) k" for k
    by (simp add: desired_def old read_default_def split: option.split)
  have bds: "btree_ok devices" and key: "\<And>k d. map_of devices k = Some d \<Longrightarrow> dn_device_id d = k"
    using di devices_invD(1)[OF di] by (simp add: devices_inv_def, blast)
  note ids = map_of_values(1)[OF bds key] and val = map_of_values(2)[OF bds key]
  have read: "map_of (sp_device_read_enabled desired') (dn_device_id d) = Some (dn_read_enabled d)"
    if "d \<in> snd ` set devices" for d
  proof -
    have "map_of devices (dn_device_id d) = Some d" using that val by simp
    then show ?thesis by (rule devices_invD(2)[OF di])
  qed
  let ?saved = "btree_insert name desired' saved"
  let ?new = "initial_port name (sp_enabled desired') (map snd devices)"
  have ms: "map_of ?saved p = (if p = name then Some desired' else map_of saved p)" for p
    using bs(1) by (simp add: map_of_btree_insert)
  have mn: "map_of (btree_insert name ?new snaps) p = (if p = name then Some ?new else map_of snaps p)" for p
    using bs(2) by (simp add: map_of_btree_insert)
  have started: "port_started ?saved st0 stations' name ?new"
    unfolding port_started_def
  proof (intro conjI ballI)
    show "shows_settings (map_of ?saved name)
        (pn_enabled ?new, map (\<lambda>d. (dn_device_id d, dn_read_enabled d)) (pn_devices ?new))"
      using ids read by (auto simp: ms shows_settings_def initial_port_def comp_def list_all_iff)
  next
    fix d assume "d \<in> set (pn_devices ?new)"
    then have m: "map_of devices (dn_device_id d) = Some d" using val by (simp add: initial_port_def)
    show "configured_module_type (dn_station_version d) = stored_type (map_entry name (dn_device_id d) st0)"
      using devices_invD(3)[OF di m] old by simp
    show "\<exists>e. map_entry name (dn_device_id d) stations' = Some e \<and> dn_station_version d = se_record e"
      by (rule devices_invD(4)[OF di m])
  qed (simp_all add: initial_port_def)
  have "ports_inv saved0 st0 (?saved, stations', btree_insert name ?new snaps)"
    unfolding ports_inv_def prod.case
  proof (intro conjI allI impI)
    show "btree_ok ?saved" "btree_ok (btree_insert name ?new snaps)" using bs by (simp_all add: btree_ok_insert)
    show "list_all (\<lambda>(p, sp). btree_ok (sp_device_read_enabled sp)) ?saved"
      using la di by (auto intro!: list_all_insert simp: devices_inv_def)
    show "map_wf stations'" using di by (simp add: devices_inv_def)
  next
    fix p sp assume "map_of ?saved p = Some sp"
    then show "sp_enabled sp = port_default (map_of saved0 p)"
      using inv di def1 by (auto simp: ms ports_inv_def devices_inv_def split: if_splits)
    fix k b assume "map_of (sp_device_read_enabled sp) k = Some b"
    with \<open>map_of ?saved p = Some sp\<close> show "b = read_default (map_of saved0 p) k"
      using inv di def2 by (auto simp: ms ports_inv_def devices_inv_def split: if_splits)
  next
    fix p assume "map_of (btree_insert name ?new snaps) p = None"
    then have p: "p \<noteq> name" "map_of snaps p = None" by (auto simp: mn split: if_splits)
    then show "map_of ?saved p = map_of saved0 p" using inv by (simp add: ms ports_inv_def)
    show "map_entry p k stations' = map_entry p k st0" for k
      using p inv di by (simp add: ports_inv_def devices_inv_def)
  next
    fix p q assume q: "map_of (btree_insert name ?new snaps) p = Some q"
    show "port_started ?saved st0 stations' p q"
    proof (cases "p = name")
      case True
      with q started show ?thesis by (simp add: mn)
    next
      case False
      with q inv have "port_started saved st0 stations p q" by (simp add: mn ports_inv_def)
      with False di show ?thesis by (auto intro: port_started_other simp: ms devices_inv_def)
    qed
  qed
  from Cons.IH[OF rest this] show ?case .
qed

text \<open>The snapshots belong to the configured ports, whose names are distinct.\<close>

definition port_keys :: "serial_port_config \<Rightarrow> string list" where
  "port_keys port = map (\<lambda>d. device_key_text (cfg_device_id (dc_config d))) (spc_devices port)"

lemma reconcile_ports_names:
  assumes "reconcile_ports fp ports acc = Inr acc'" and "ports_inv saved0 st0 acc"
  shows "distinct (map spc_port_number ports)
    \<and> (\<forall>port \<in> set ports. map_of (snd (snd acc)) (spc_port_number port) = None)
    \<and> (\<forall>p q. map_of (snd (snd acc')) p = Some q \<longrightarrow>
         map_of (snd (snd acc)) p = Some q
         \<or> (\<exists>port \<in> set ports. spc_port_number port = p \<and> dn_device_id ` set (pn_devices q) \<subseteq> set (port_keys port)))
    \<and> (\<forall>p q. map_of (snd (snd acc)) p = Some q \<longrightarrow> map_of (snd (snd acc')) p = Some q)"
  using assms
proof (induction ports arbitrary: acc)
  case Nil
  then show ?case by simp
next
  case (Cons port rest)
  obtain saved stations snaps where acc: "acc = (saved, stations, snaps)" by (cases acc)
  define name where "name = spc_port_number port"
  define desired where "desired = (case map_of saved name of
     Some sp \<Rightarrow> sp | None \<Rightarrow> \<lparr>sp_enabled = True, sp_device_read_enabled = []\<rparr>)"
  obtain desired' stations' devices where r: "reconcile_devices (fp name) name (spc_devices port) (desired, stations, []) = Inr (desired', stations', devices)"
    and fresh: "map_of snaps name = None"
    and rest: "reconcile_ports fp rest (btree_insert name desired' saved, stations',
        btree_insert name (initial_port name (sp_enabled desired') (map snd devices)) snaps) = Inr acc'"
    using Cons.prems(1) by (auto simp: acc Let_def name_def[symmetric] desired_def[symmetric] split: if_splits)
  let ?new = "initial_port name (sp_enabled desired') (map snd devices)"
  let ?acc = "(btree_insert name desired' saved, stations', btree_insert name ?new snaps)"
  have one: "reconcile_ports fp [port] acc = Inr ?acc"
    using r fresh by (simp add: acc Let_def name_def desired_def)
  have inv': "ports_inv saved0 st0 ?acc" by (rule reconcile_ports_inv[OF one Cons.prems(2)])
  have bs: "btree_ok saved" "btree_ok snaps" "map_wf stations"
    and la: "list_all (\<lambda>(p, sp). btree_ok (sp_device_read_enabled sp)) saved"
    using Cons.prems(2) by (auto simp: acc ports_inv_def)
  have bd: "btree_ok (sp_device_read_enabled desired)"
    using la by (auto simp: desired_def btree_ok_def list_all_iff split: option.split dest: map_of_SomeD)
  note dinv = reconcile_devices_inv[OF r devices_inv_start[OF bd bs(3)]]
  then have di: "devices_inv name desired stations (desired', stations', devices)"
    and dk: "\<And>k d. map_of devices k = Some d \<Longrightarrow> k \<in> set (port_keys port)"
    by (auto simp: port_keys_def)
  have "btree_ok devices" using di by (simp add: devices_inv_def)
  from map_of_values(2)[OF this devices_invD(1)[OF di]] dk
  have keys: "dn_device_id ` set (pn_devices ?new) \<subseteq> set (port_keys port)"
    by (auto simp: initial_port_def)
  have mn: "map_of (btree_insert name ?new snaps) p = (if p = name then Some ?new else map_of snaps p)" for p
    using bs(2) by (simp add: map_of_btree_insert)
  note ih = Cons.IH[OF rest inv', unfolded snd_conv]
  have names: "spc_port_number x \<noteq> name \<and> map_of snaps (spc_port_number x) = None" if "x \<in> set rest" for x
    using ih that mn by (metis option.distinct(1))
  have origin: "map_of snaps p = Some q \<or> (\<exists>x \<in> set (port # rest). spc_port_number x = p \<and> dn_device_id ` set (pn_devices q) \<subseteq> set (port_keys x))"
    if "map_of (snd (snd acc')) p = Some q" for p q
  proof -
    have "map_of (btree_insert name ?new snaps) p = Some q
        \<or> (\<exists>x \<in> set rest. spc_port_number x = p \<and> dn_device_id ` set (pn_devices q) \<subseteq> set (port_keys x))"
      using ih that by blast
    then show ?thesis using keys by (cases "p = name") (auto simp: mn name_def[symmetric])
  qed
  have kept: "map_of (snd (snd acc')) p = Some q" if "map_of snaps p = Some q" for p q
    using ih that fresh mn by (metis option.distinct(1))
  have "name \<notin> spc_port_number ` set rest" using names by blast
  then have "distinct (map spc_port_number (port # rest))" using ih by (simp add: name_def)
  moreover have "\<forall>x \<in> set (port # rest). map_of snaps (spc_port_number x) = None"
    using names fresh by (auto simp: name_def)
  ultimately show ?case unfolding acc snd_conv using origin kept by blast
qed

lemma map_of_map_filter_key:
  "distinct (map fst m) \<Longrightarrow>
   map_of (List.map_filter (\<lambda>(p, x). map_option (\<lambda>y. (p, g y x)) (c p)) m) p =
     (case c p of None \<Rightarrow> None | Some y \<Rightarrow> map_option (g y) (map_of m p))"
  by (induction m) (auto simp: map_filter_simps map_of_eq_None_iff split: option.splits)

lemma retain_entry:
  assumes wf: "map_wf st"
  shows "map_entry p k (retain_configured ports st) =
     (case map_of (map (\<lambda>port. (spc_port_number port, port_keys port)) (filter (\<lambda>port. spc_devices port \<noteq> []) ports)) p of
        None \<Rightarrow> None | Some keys \<Rightarrow> if k \<in> set keys then map_entry p k st else None)"
proof -
  let ?c = "map_of (map (\<lambda>port. (spc_port_number port, port_keys port)) (filter (\<lambda>port. spc_devices port \<noteq> []) ports))"
  have e: "retain_configured ports st =
      List.map_filter (\<lambda>(p, x). map_option (\<lambda>y. (p, filter (\<lambda>(key, e). key \<in> set y) x)) (?c p)) st"
    unfolding retain_configured_def Let_def port_keys_def map_option_case by (rule refl)
  have f: "map_of (filter (\<lambda>(key, e). key \<in> S) x) k = (if k \<in> S then map_of x k else None)" for S and x :: "(string \<times> stored_station_entry) list"
    by (induction x) auto
  have "distinct (map fst st)" using bt.entries_distinct[of st] wf by (simp add: map_wf_def)
  from map_of_map_filter_key[OF this, of "\<lambda>y x. filter (\<lambda>(key, e). key \<in> set y) x" ?c p]
  show ?thesis by (cases "?c p"; cases "map_of st p") (simp_all add: map_entry_def e f)
qed

lemma map_filter_keys: "sorted_wrt (<) (map fst m) \<Longrightarrow> (\<And>p x y. h (p, x) = Some y \<Longrightarrow> fst y = p) \<Longrightarrow>
   sorted_wrt (<) (map fst (List.map_filter h m)) \<and> fst ` set (List.map_filter h m) \<subseteq> fst ` set m"
  for m :: "('k::linorder \<times> 'v) list"
proof (induction m)
  case (Cons px m)
  obtain p x where px: "px = (p, x)" by fastforce
  from Cons.IH[OF _ Cons.prems(2)] Cons.prems(1) have ih: "sorted_wrt (<) (map fst (List.map_filter h m))"
    "fst ` set (List.map_filter h m) \<subseteq> fst ` set m" by auto
  show ?case
  proof (cases "h px")
    case None
    with ih show ?thesis by (auto simp: map_filter_simps)
  next
    case (Some y)
    then have "fst y = p" using Cons.prems(2)[of p x y] px by simp
    moreover have "\<forall>z \<in> set (List.map_filter h m). p < fst z"
      using ih(2) Cons.prems(1) px by fastforce
    ultimately show ?thesis using Some ih(1,2) px by (auto simp: map_filter_simps)
  qed
qed (simp add: map_filter_simps)

lemma in_map_filter: "y \<in> set (List.map_filter h m) \<longleftrightarrow> (\<exists>x \<in> set m. h x = Some y)"
  by (induction m) (auto simp: map_filter_simps split: option.splits)

lemma retain_wf: "map_wf st \<Longrightarrow> map_wf (retain_configured ports st)"
proof -
  assume wf: "map_wf st"
  have "btree_ok (retain_configured ports st)"
    unfolding retain_configured_def Let_def btree_ok_def
    by (rule conjunct1[OF map_filter_keys]) (use wf in \<open>auto simp: map_wf_def btree_ok_def split: option.splits\<close>)
  moreover have "list_all (\<lambda>(p, x). btree_ok x) (retain_configured ports st)"
    unfolding list_all_iff
  proof (clarify)
    fix p x assume "(p, x) \<in> set (retain_configured ports st)"
    then obtain y P where "(p, y) \<in> set st" "x = filter P y"
      by (auto simp: retain_configured_def Let_def in_map_filter split: option.splits)
    then show "btree_ok x" using wf by (auto simp: map_wf_def list_all_iff btree_ok_filter)
  qed
  ultimately show ?thesis by (simp add: map_wf_def)
qed

section \<open>The service after start-up\<close>

text \<open>The directories a start-up finds: no irregular files, texts within the limits.\<close>

definition dirs_readable :: "state_dir \<Rightarrow> state_dir \<Rightarrow> bool" where
  "dirs_readable d1 d2 \<longleftrightarrow>
     tidy (sd_nodes d1) \<and> sd_nodes d1 Backup = None \<and> sd_faults d1 = []
     \<and> (\<forall>t. current_text (sd_nodes d1) = Some t \<longrightarrow> int (length t) \<le> max_state_bytes)
     \<and> tidy (sd_nodes d2) \<and> sd_faults d2 = []
     \<and> (\<forall>t. current_text (sd_nodes d2) = Some t \<longrightarrow> int (length t) \<le> max_station_state_bytes)"

lemma read_text_dir: "sd_faults d = [] \<Longrightarrow> snd (read_text what cap d) = d"
  by (auto simp: read_text_def next_fault_def split: option.splits fs_node.splits)

lemma restore_backup_keeps:
  assumes "tidy (sd_nodes d)" and "sd_faults d = []" and "restore_backup d = (r, d')"
  shows "tidy (sd_nodes d') \<and> current_text (sd_nodes d') = current_text (sd_nodes d) \<and> sd_faults d' = [] \<and> r = Inr ()"
  using assms
  by (cases "sd_nodes d Main"; cases "sd_nodes d Backup")
    (auto simp: restore_backup_def node_defs fs_rename_def fs_remove_def next_fault_def change_nodes_def
      split: fs_node.splits)

lemma read_station_dir:
  assumes "tidy (sd_nodes d)" and "sd_faults d = []"
  shows "tidy (sd_nodes (snd (read_station_state cd d)))
    \<and> current_text (sd_nodes (snd (read_station_state cd d))) = current_text (sd_nodes d)
    \<and> sd_faults (snd (read_station_state cd d)) = []"
proof -
  obtain r d' where rb: "restore_backup d = (r, d')" by fastforce
  note k = restore_backup_keeps[OF assms rb]
  obtain x where x: "read_text ''station version state'' max_station_state_bytes d' = (x, d')"
    using read_text_dir[of d' "''station version state''" max_station_state_bytes] k by (metis prod.collapse)
  have "snd (read_station_state cd d) = d'"
    using k rb x by (auto simp: read_station_state_def read_station_state_text_def split: sum.splits option.splits)
  with k show ?thesis by simp
qed

lemma canonical_one: "canonical_revision ''1''"
proof -
  have "char_of (49::nat) = CHR ''1''" by code_simp
  then show ?thesis using canonical_show[of 1] by (simp add: show_u64_def show_nat.simps)
qed

lemma read_state_result:
  assumes "dirs_readable d1 d2" and "read_state cd d1 = (Inr v, d1')"
  shows "d1' = d1 \<and> disk_settings cd (current_text (sd_nodes d1)) = Inr v \<and> ss_schema_version v = 1
    \<and> canonical_revision (ss_revision v)"
proof -
  have f: "fst (read_state_text d1) = Ok (current_text (sd_nodes d1))"
    using assms(1) by (intro read_state_current) (auto simp: dirs_readable_def)
  have d: "snd (read_state_text d1) = d1"
    using read_text_dir[of d1] assms(1) by (simp add: read_state_text_def dirs_readable_def)
  from f d have e: "read_state_text d1 = (Ok (current_text (sd_nodes d1)), d1)" by (metis prod.collapse)
  show ?thesis
    using assms(2) e canonical_one
    by (cases "current_text (sd_nodes d1)")
      (auto simp: read_state_def disk_settings_def default_stored_state_def split: sum.splits if_splits)
qed

lemma read_station_result:
  assumes "dirs_readable d1 d2" and "read_station_state cd d2 = (Inr v, d2')"
  shows "disk_stations cd (current_text (sd_nodes d2)) = Inr v \<and> st_schema_version v = 1
    \<and> canonical_revision (st_revision v)"
proof -
  have f: "fst (read_station_state_text d2) = Ok (current_text (sd_nodes d2))"
    using assms(1) by (intro read_station_current) (auto simp: dirs_readable_def)
  obtain d where e: "read_station_state_text d2 = (Ok (current_text (sd_nodes d2)), d)"
    using f by (metis prod.collapse)
  show ?thesis
    using assms(2) e canonical_one
    by (cases "current_text (sd_nodes d2)")
      (auto simp: read_station_state_def disk_stations_def default_stored_station_state_def split: sum.splits if_splits)
qed

lemma operations_new_Ok:
  assumes "operations_new cd sha ports gate d1 d2 = (Inr ops, e1, e2)"
  obtains saved station d2' saved_ports stations snaps kept st where
    "read_state cd d1 = (Inr saved, op_state_dir ops)" "read_station_state cd d2 = (Inr station, d2')"
    "reconcile_ports (station_topology_fingerprint sha) ports (ss_ports saved, st_ports station, []) = Inr (saved_ports, stations, snaps)"
    "kept = station\<lparr>st_ports := retain_configured ports stations\<rparr>"
    "op_maintenance ops = gate"
    "op_state ops = \<lparr>os_saved = saved\<lparr>ss_ports := saved_ports\<rparr>, os_station_saved = st, os_ports = snaps, os_pending = (\<lambda>_. None)\<rparr>"
    "st = kept \<and> sc_station_enc cd kept = sc_station_enc cd station \<and> op_station_dir ops = d2'
     \<or> (\<exists>r. increment_persisted_revision (st_revision kept) = Inr r \<and> st = kept\<lparr>st_revision := r\<rparr>
          \<and> persist_station_state r (sc_station_enc cd st) (with_faults (sd_faults d2') d2') = (Inr (), op_station_dir ops))"
proof -
  obtain saved d1' where 1: "read_state cd d1 = (Inr saved, d1')"
    using assms by (auto simp: operations_new_def split: prod.splits sum.splits)
  obtain station d2' where 2: "read_station_state cd d2 = (Inr station, d2')"
    using assms by (auto simp: operations_new_def split: prod.splits sum.splits)
  obtain saved_ports stations snaps where 3: "reconcile_ports (station_topology_fingerprint sha) ports
      (ss_ports saved, st_ports station, []) = Inr (saved_ports, stations, snaps)"
    using assms 1 2 by (auto simp: operations_new_def split: sum.splits)
  define kept where "kept = station\<lparr>st_ports := retain_configured ports stations\<rparr>"
  show ?thesis
  proof (cases "sc_station_enc cd kept \<noteq> sc_station_enc cd station")
    case False
    with assms 1 2 3 show ?thesis
      by (intro that[OF _ 2 3 kept_def]) (auto simp: operations_new_def kept_def Let_def)
  next
    case True
    then obtain r where r: "increment_persisted_revision (st_revision kept) = Inr r"
      using assms 1 2 3 by (cases "increment_persisted_revision (st_revision kept)")
        (auto simp: operations_new_def kept_def Let_def)
    obtain pr d where w: "persist_station_state r (sc_station_enc cd (kept\<lparr>st_revision := r\<rparr>)) (with_faults (sd_faults d2') d2') = (pr, d)"
      by fastforce
    have "\<exists>u. pr = Inr u" using assms 1 2 3 True r w by (cases pr) (auto simp: operations_new_def kept_def Let_def)
    with assms 1 2 3 True r w show ?thesis
      by (intro that[OF _ 2 3 kept_def, of "kept\<lparr>st_revision := r\<rparr>"]) (auto simp: operations_new_def kept_def Let_def)
  qed
qed

lemma stations_wf_map: "stations_wf v \<longleftrightarrow> st_schema_version v = 1 \<and> map_wf (st_ports v)"
  by (simp add: stations_wf_def map_wf_def)

text \<open>Start-up on readable directories establishes the invariants.\<close>

lemma operations_new_service:
  assumes codec: "codec_reads_back cd" and dirs: "dirs_readable d1 d2" and g: "gt_pending gate = 0"
    and new: "operations_new cd sha ports gate d1 d2 = (Inr ops, e1, e2)"
  shows "service_ok cd \<lparr>sy_ops = ops, sy_rpcs = 0, sy_permits = []\<rparr>"
  using new
proof (cases rule: operations_new_Ok)
  case (1 saved station d2' saved_ports stations snaps kept st)
  note rs = read_state_result[OF dirs 1(1)] and rst = read_station_result[OF dirs 1(2)]
  have d2: "tidy (sd_nodes d2')" "current_text (sd_nodes d2') = current_text (sd_nodes d2)" "sd_faults d2' = []"
    using read_station_dir[of d2 cd] dirs 1(2) by (auto simp: dirs_readable_def)
  have wf: "settings_wf saved" 
    using codec rs by (cases "current_text (sd_nodes d1)")
      (auto simp: disk_settings_def codec_reads_back_def settings_wf_def default_stored_state_def btree_ok_def)
  have wft: "stations_wf station"
    using codec rst by (cases "current_text (sd_nodes d2)")
      (auto simp: disk_stations_def codec_reads_back_def stations_wf_def default_stored_station_state_def btree_ok_def)
  have start: "ports_inv (ss_ports saved) (st_ports station) (ss_ports saved, st_ports station, [])"
    using wf wft by (intro ports_inv_start) (auto simp: settings_wf_def stations_wf_map)
  note pinv = reconcile_ports_inv[OF 1(3) start] and names = reconcile_ports_names[OF 1(3) start]
  have mwf: "map_wf stations" using pinv by (simp add: ports_inv_def)
  have kwf: "stations_wf kept" using wft retain_wf[OF mwf] by (simp add: 1(4) stations_wf_map)
  have shown: "devices_shown kept p (pn_devices q)" if q: "map_of snaps p = Some q" for p q
  proof -
    from pinv q have ps: "port_started saved_ports (st_ports station) stations p q" by (simp add: ports_inv_def)
    have "\<forall>p q. map_of snaps p = Some q \<longrightarrow>
        (\<exists>port \<in> set ports. spc_port_number port = p \<and> dn_device_id ` set (pn_devices q) \<subseteq> set (port_keys port))"
      using names by simp
    with q obtain port where port: "port \<in> set ports" "spc_port_number port = p"
      "dn_device_id ` set (pn_devices q) \<subseteq> set (port_keys port)" by blast
    have "map_of (map (\<lambda>port. (spc_port_number port, port_keys port)) (filter (\<lambda>port. spc_devices port \<noteq> []) ports)) p
        = Some (port_keys port)" if "d \<in> set (pn_devices q)" for d
    proof -
      have "spc_devices port \<noteq> []" using that port(3) by (auto simp: port_keys_def)
      moreover have "distinct (map spc_port_number (filter (\<lambda>port. spc_devices port \<noteq> []) ports))"
        using names by (simp add: distinct_map_filter)
      ultimately show ?thesis using port by (intro map_of_is_SomeI) (auto simp: comp_def)
    qed
    with port(3) have "map_entry p (dn_device_id d) (retain_configured ports stations) = map_entry p (dn_device_id d) stations"
      if "d \<in> set (pn_devices q)" for d
      using that by (auto simp: retain_entry[OF mwf])
    with ps show ?thesis
      by (auto simp: devices_shown_def entry_shown_def station_entry_map 1(4) port_started_def shows_settings_def comp_def
          split: option.splits)
  qed
  have st: "stations_wf st" "canonical_revision (st_revision st)" "st_ports st = st_ports kept"
    using 1(7) kwf rst by (auto simp: 1(4) increment_persisted_Ok u64_succ_pos)
  have "devices_shown st p ds = devices_shown kept p ds" for p ds
    by (simp add: devices_shown_def entry_shown_def station_entry_map st(3))
  with shown have "stations_shown st (op_state ops)" by (simp add: stations_shown_def 1(6))
  moreover have "tidy (sd_nodes (op_station_dir ops)) \<and> disk_stations cd (current_text (sd_nodes (op_station_dir ops))) = Inr st
     \<and> (\<forall>t. current_text (sd_nodes (op_station_dir ops)) = Some t \<longrightarrow> int (length t) \<le> max_station_state_bytes)"
    using 1(7)
  proof (elim disjE conjE exE)
    assume "st = kept" and e: "sc_station_enc cd kept = sc_station_enc cd station" and "op_station_dir ops = d2'"
    moreover from codec kwf wft have "sc_station_dec cd (sc_station_enc cd kept) = Inr kept"
      "sc_station_dec cd (sc_station_enc cd station) = Inr station" by (auto simp: codec_reads_back_def)
    with e have "kept = station" by (metis sum.inject(2))
    ultimately show ?thesis using rst d2 dirs by (simp add: dirs_readable_def)
  next
    fix r assume "persist_station_state r (sc_station_enc cd st) (with_faults (sd_faults d2') d2') = (Inr (), op_station_dir ops)"
    from persist_stations[OF d2(1) this] codec st(1) show ?thesis
      by (auto simp: disk_stations_def codec_reads_back_def)
  qed
  ultimately have "stations_ok cd ops" using st(1,2) by (simp add: stations_ok_def 1(6))
  moreover have "settings_ok cd ops"
    unfolding settings_ok_def Let_def
  proof (intro conjI)
    show "\<exists>v. disk_settings cd (current_text (sd_nodes (op_state_dir ops))) = Ok v \<and> ss_schema_version v = 1
        \<and> completes v (os_saved (op_state ops))"
      using rs 1(6) pinv by (intro exI[of _ saved]) (auto simp: completes_def ports_inv_def)
    show "\<forall>p v. settings_view (op_state ops) p = Some v \<longrightarrow> shows_settings (map_of (ss_ports (os_saved (op_state ops))) p) v"
      using pinv by (auto simp: settings_view_def 1(6) ports_inv_def port_started_def)
  qed (use rs dirs wf pinv in \<open>auto simp: 1(6) dirs_readable_def settings_wf_def ports_inv_def\<close>)
  moreover have "admissions_ok \<lparr>sy_ops = ops, sy_rpcs = 0, sy_permits = []\<rparr>"
    unfolding admissions_ok_def work_ok_def
  proof (intro conjI allI)
    fix p
    show "port_work_ok (count_list (sy_permits \<lparr>sy_ops = ops, sy_rpcs = 0, sy_permits = []\<rparr>) p)
        (os_pending (op_state (sy_ops \<lparr>sy_ops = ops, sy_rpcs = 0, sy_permits = []\<rparr>)) p)
        (work_view (op_state (sy_ops \<lparr>sy_ops = ops, sy_rpcs = 0, sy_permits = []\<rparr>)) p)"
      using pinv by (cases "map_of snaps p") (auto simp: 1(6) work_view_def ports_inv_def port_started_def)
  qed (simp add: 1(5) g)
  ultimately show ?thesis by (simp add: service_ok_def)
qed

section \<open>A restart\<close>

lemma service_readable:
  assumes "service_ok cd s"
  shows "dirs_readable (with_faults [] (op_state_dir (sy_ops s))) (with_faults [] (op_station_dir (sy_ops s)))"
  using assms by (auto simp: service_ok_def settings_ok_def stations_ok_def Let_def dirs_readable_def with_faults_def)

lemma shows_settingsD:
  assumes "shows_settings sp (en, map (\<lambda>d. (dn_device_id d, dn_read_enabled d)) ds)"
  obtains q where "sp = Some q" "en = sp_enabled q"
    "\<And>d. d \<in> set ds \<Longrightarrow> map_of (sp_device_read_enabled q) (dn_device_id d) = Some (dn_read_enabled d)"
  using assms by (auto simp: shows_settings_def list_all_iff split: option.splits)

text \<open>What the snapshots show is what the stored settings say, with the defaults filled in.\<close>

lemma shown_default:
  assumes "completes v saved" and "shows_settings (map_of (ss_ports saved) p)
      (pn_enabled q, map (\<lambda>d. (dn_device_id d, dn_read_enabled d)) (pn_devices q))"
  shows "pn_enabled q = port_default (map_of (ss_ports v) p)"
    and "d \<in> set (pn_devices q) \<Longrightarrow> dn_read_enabled d = read_default (map_of (ss_ports v) p) (dn_device_id d)"
proof -
  obtain x where x: "map_of (ss_ports saved) p = Some x" "pn_enabled q = sp_enabled x"
    "\<And>d. d \<in> set (pn_devices q) \<Longrightarrow> map_of (sp_device_read_enabled x) (dn_device_id d) = Some (dn_read_enabled d)"
    using shows_settingsD[OF assms(2)] by metis
  with assms(1) show "pn_enabled q = port_default (map_of (ss_ports v) p)"
    and "d \<in> set (pn_devices q) \<Longrightarrow> dn_read_enabled d = read_default (map_of (ss_ports v) p) (dn_device_id d)"
    by (simp_all add: completes_def)
qed

lemma restart_keeps:
  assumes codec: "codec_reads_back cd" and inv: "service_ok cd s"
    and new: "operations_new cd sha ports gate (with_faults [] (op_state_dir (sy_ops s)))
      (with_faults [] (op_station_dir (sy_ops s))) = (Inr ops', e1, e2)"
    and q: "port_of p (sy_ops s) = Some q" and q': "port_of p ops' = Some q'"
  shows "pn_enabled q' = pn_enabled q"
    and "d \<in> set (pn_devices q) \<Longrightarrow> d' \<in> set (pn_devices q') \<Longrightarrow> dn_device_id d' = dn_device_id d \<Longrightarrow>
      dn_read_enabled d' = dn_read_enabled d
      \<and> configured_module_type (dn_station_version d') = configured_module_type (dn_station_version d)"
    and "ss_revision (os_saved (op_state ops')) = ss_revision (os_saved (op_state (sy_ops s)))"
proof -
  note dirs = service_readable[OF inv]
  have "pn_enabled q' = pn_enabled q \<and> ss_revision (os_saved (op_state ops')) = ss_revision (os_saved (op_state (sy_ops s)))
    \<and> (\<forall>d d'. d \<in> set (pn_devices q) \<longrightarrow> d' \<in> set (pn_devices q') \<longrightarrow> dn_device_id d' = dn_device_id d \<longrightarrow>
      dn_read_enabled d' = dn_read_enabled d
      \<and> configured_module_type (dn_station_version d') = configured_module_type (dn_station_version d))"
    using new
  proof (cases rule: operations_new_Ok)
    case (1 saved station d2' saved_ports stations snaps kept st)
    note rs = read_state_result[OF dirs 1(1)] and rst = read_station_result[OF dirs 1(2)]
    obtain v where v: "disk_settings cd (current_text (sd_nodes (op_state_dir (sy_ops s)))) = Inr v"
      "completes v (os_saved (op_state (sy_ops s)))"
      using inv by (auto simp: service_ok_def settings_ok_def Let_def)
    with rs have vs: "v = saved" by simp
    have sv: "shows_settings (map_of (ss_ports (os_saved (op_state (sy_ops s)))) p)
        (pn_enabled q, map (\<lambda>d. (dn_device_id d, dn_read_enabled d)) (pn_devices q))"
      using inv q by (auto simp: service_ok_def settings_ok_def Let_def settings_view_def port_of_def)
    have stn: "station = os_station_saved (op_state (sy_ops s))"
      using rst inv by (simp add: service_ok_def stations_ok_def Let_def)
    have wf: "settings_wf saved" "stations_wf station"
      using codec rs inv stn by (cases "current_text (sd_nodes (op_state_dir (sy_ops s)))",
          auto simp: disk_settings_def codec_reads_back_def settings_wf_def default_stored_state_def btree_ok_def
            service_ok_def stations_ok_def Let_def)
    have start: "ports_inv (ss_ports saved) (st_ports station) (ss_ports saved, st_ports station, [])"
      using wf by (intro ports_inv_start) (auto simp: settings_wf_def stations_wf_map)
    note pinv = reconcile_ports_inv[OF 1(3) start]
    have ps: "port_started saved_ports (st_ports station) stations p q'"
      using pinv q' by (simp add: ports_inv_def port_of_def 1(6))
    have comp: "completes saved (saved\<lparr>ss_ports := saved_ports\<rparr>)"
      using pinv by (auto simp: completes_def ports_inv_def)
    have sv': "shows_settings (map_of (ss_ports (saved\<lparr>ss_ports := saved_ports\<rparr>)) p)
        (pn_enabled q', map (\<lambda>d. (dn_device_id d, dn_read_enabled d)) (pn_devices q'))"
      using ps by (simp add: port_started_def)
    note old = shown_default[OF v(2) sv] and newd = shown_default[OF comp sv']
    have "configured_module_type (dn_station_version d') = configured_module_type (dn_station_version d)"
      if "d \<in> set (pn_devices q)" "d' \<in> set (pn_devices q')" "dn_device_id d' = dn_device_id d" for d d'
    proof -
      have "entry_shown station p (dn_device_id d) (dn_station_version d)"
        using inv that(1) q by (auto simp: stn service_ok_def stations_ok_def Let_def stations_shown_def devices_shown_def port_of_def)
      then obtain e where e: "map_entry p (dn_device_id d) (st_ports station) = Some e"
        and "same_record (se_record e) (dn_station_version d)"
        by (auto simp: entry_shown_def station_entry_map split: option.splits)
      then have "configured_module_type (se_record e) = configured_module_type (dn_station_version d)"
        by (metis same_record_def station_version_record.select_convs(1) station_version_record.surjective
            station_version_record.update_convs(14))
      moreover have "configured_module_type (dn_station_version d') = stored_type (map_entry p (dn_device_id d') (st_ports station))"
        using ps that(2) by (simp add: port_started_def)
      ultimately show ?thesis by (simp add: that(3) e stored_type_def)
    qed
    moreover have "ss_revision (os_saved (op_state ops')) = ss_revision (os_saved (op_state (sy_ops s)))"
      using v(2) by (simp add: 1(6) vs completes_def)
    ultimately show ?thesis using old newd vs by simp
  qed
  then show "pn_enabled q' = pn_enabled q"
    and "d \<in> set (pn_devices q) \<Longrightarrow> d' \<in> set (pn_devices q') \<Longrightarrow> dn_device_id d' = dn_device_id d \<Longrightarrow>
      dn_read_enabled d' = dn_read_enabled d
      \<and> configured_module_type (dn_station_version d') = configured_module_type (dn_station_version d)"
    and "ss_revision (os_saved (op_state ops')) = ss_revision (os_saved (op_state (sy_ops s)))" by blast+
qed

end
