(* ===== verification/Operations_Revisions.thy ===== *)
theory Operations_Revisions
  imports Operations_Restart
begin

text \<open>
  The revision of the settings grows with every accepted change and never otherwise, so of two
  requests that name the same revision only one is accepted. Receipts, in contrast, are compared
  by number only, and the settings and the station records count separately.
\<close>

section \<open>Which steps change the settings\<close>

lemma unsaved_saved: "stations_unsaved cd ops ops' \<Longrightarrow> os_saved (op_state ops') = os_saved (op_state ops)"
  by (simp add: stations_unsaved_def)

lemma change_saved:
  assumes "change_station cd fs p k f ops = (r, ops')"
  shows "os_saved (op_state ops') = os_saved (op_state ops)"
  using assms by (cases rule: change_station_cases) (auto simp: unsaved_saved show_record_sels)

lemma result_saved:
  "report_station_query_result cd fs now p n res ops = (r, ops') \<Longrightarrow> os_saved (op_state ops') = os_saved (op_state ops)"
  using change_saved by (fastforce simp: report_station_query_result_def split: prod.splits)

lemma query_saved:
  assumes "query_version_locked cd fs fs' now p (device_key_text n) n ex es ops = (r, ops')"
  shows "os_saved (op_state ops') = os_saved (op_state ops)"
  using assms
proof (cases rule: query_cases)
  case refused
  then show ?thesis by (rule unsaved_saved)
next
  case (saved port rv nx e ops1)
  let ?ended = "on_state (control_ended p (Some ''serial worker channel closed'')) ops1"
  obtain r2 ops2 where "report_station_query_result cd fs' now p n (Inl ''serial worker is unavailable'') ?ended = (r2, ops2)"
    by fastforce
  with result_saved[OF this] saved(8,9) show ?thesis by (auto simp: show_record_sels on_state_sels)
qed

lemma reports_saved [simp]:
  "os_saved (op_state (report_runtime p e opn ds ops)) = os_saved (op_state ops)"
  "os_saved (op_state (ops_complete_control p rv out ops)) = os_saved (op_state ops)"
  "os_saved (op_state (fail_pending_controls p m ops)) = os_saved (op_state ops)"
  "os_saved (op_state (worker_stopped_ops p ops)) = os_saved (op_state ops)"
  "os_saved (op_state (permit_drop p ops)) = os_saved (op_state ops)"
  "os_saved (op_state (take_command p ch ops)) = os_saved (op_state ops)"
  by (simp_all add: report_runtime_def ops_complete_control_def fail_pending_controls_def worker_stopped_ops_def
      permit_drop_def take_command_def Let_def on_state_sels on_port_sels)

lemma inflight_saved [simp]:
  "os_saved (op_state (fail_inflight_station_queries cd fs now p m ops)) = os_saved (op_state ops)"
  by (rule inflight_cases[of cd ops fs now p m]) (auto simp: unsaved_saved on_port_sels)

lemma admit_saved:
  "admit_command p ops = (r, ops') \<Longrightarrow> os_saved (op_state ops') = os_saved (op_state ops)"
  by (auto simp: admit_command_def on_state_sels on_port_sels split: sum.splits option.splits if_splits)

text \<open>A step leaves the settings alone, or is a change accepted at the current revision.\<close>

lemma saved_step:
  assumes "ops_step cd s s'"
  shows "os_saved (op_state (sy_ops s')) = os_saved (op_state (sy_ops s))
    \<or> (\<exists>rv. increment_revision (ss_revision (os_saved (op_state (sy_ops s)))) = Inr rv
         \<and> ss_revision (os_saved (op_state (sy_ops s'))) = show_u64 rv)"
  using assms
proof cases
  case (os_set_control g fs p dv en ex r ops)
  from os_set_control(3) show ?thesis
  proof (cases rule: set_control_locked_cases)
    case (saved port rv nx sent)
    then have "os_saved (op_state ops) = nx" by (simp add: on_port_sels)
    with saved os_set_control(1) show ?thesis by (simp add: stored_setting_def)
  qed (use os_set_control(1) in simp_all)
next
  case (os_module_type g fs p k n mt ex es r ops)
  from os_module_type(3) show ?thesis
    by (cases rule: module_type_cases) (use os_module_type(1) in \<open>auto simp: unsaved_saved show_record_sels\<close>)
next
  case (os_query g fs fs' now p n ex es r ops)
  with query_saved[OF os_query(3)] show ?thesis by simp
next
  case (os_automatic fs now p n r ops)
  from os_automatic(2) show ?thesis
    by (cases rule: automatic_cases) (use os_automatic(1) in \<open>auto simp: unsaved_saved show_record_sels\<close>)
next
  case (os_admit p r ops)
  with admit_saved[OF os_admit(2)] show ?thesis by simp
next
  case (os_result fs now p n result r ops)
  with result_saved[OF os_result(2)] show ?thesis by simp
qed simp_all

section \<open>Revisions grow\<close>

definition revision_number :: "ops_state \<Rightarrow> nat" where
  "revision_number s = (case parse_u64 (ss_revision (os_saved s)) of Some n \<Rightarrow> unat n | None \<Rightarrow> 0)"

lemma increment_number:
  assumes "increment_revision s = Inr rv" and "parse_u64 s = Some n"
  shows "unat rv = Suc (unat n)"
  using assms u64_succ_unat by (auto simp: increment_revision_Ok)

lemma revision_step:
  assumes "ops_step cd s s'"
  shows "revision_number (op_state (sy_ops s)) \<le> revision_number (op_state (sy_ops s'))"
  using saved_step[OF assms]
proof
  assume "\<exists>rv. increment_revision (ss_revision (os_saved (op_state (sy_ops s)))) = Inr rv
         \<and> ss_revision (os_saved (op_state (sy_ops s'))) = show_u64 rv"
  then show ?thesis
    by (auto simp: revision_number_def increment_revision_Ok split: option.split dest: u64_succ_unat)
qed (simp add: revision_number_def)

lemma revision_run: "ops_run cd s s' \<Longrightarrow> revision_number (op_state (sy_ops s)) \<le> revision_number (op_state (sy_ops s'))"
proof (induction rule: ops_run.induct)
  case (or_next s s' s'')
  then show ?case using revision_step order_trans by blast
qed simp

lemma accepted_cases:
  assumes "set_control_locked cd fs p dv en ex ops = (Inr rv, ops')"
  shows "ex = ss_revision (os_saved (op_state ops)) \<and> increment_revision ex = Inr rv
    \<and> ss_revision (os_saved (op_state ops')) = show_u64 rv \<and> os_pending (op_state ops') p = Some rv
    \<and> (\<exists>ct ch. op_senders ops' p = Some ch \<and> control_command p ct rv \<in> set (ch_queue ch))"
proof -
  have sent: "\<exists>ct ch. op_senders ops' p = Some ch \<and> control_command p ct rv \<in> set (ch_queue ch)"
    using assms by (auto simp: set_control_locked_def Let_def channel_send_def on_state_sels
        split: if_splits option.splits sum.splits prod.splits bool.splits)
  from assms show ?thesis
  proof (cases rule: set_control_locked_cases)
    case (saved port rv' nx sent')
    from saved(12) have s': sent' by simp
    have nx: "os_saved (op_state ops') = nx" and pend: "os_pending (op_state ops') p = Some rv'"
      using saved(11) s' by (simp_all add: ops_sels)
    have "rv' = rv"
      using assms saved(4,5) by (auto simp: set_control_locked_def Let_def split: if_splits option.splits sum.splits prod.splits bool.splits)
    with saved nx pend sent show ?thesis by (simp add: stored_setting_def)
  qed simp_all
qed

lemma stale_request:
  assumes "ex \<noteq> ss_revision (os_saved (op_state ops))"
  shows "set_control_locked cd fs p dv en ex ops =
    (Inl (if op_shutdown ops then shutting_down (ss_revision (os_saved (op_state ops)))
          else with_revision (op_error_new ''conflict'' ''operations revision changed'') (ss_revision (os_saved (op_state ops)))), ops)"
  using assms by (simp add: set_control_locked_def Let_def)

text \<open>A request on a station names the revision of the settings too.\<close>

lemma stale_station_requests:
  assumes "ex \<noteq> ss_revision (os_saved (op_state ops))" and "\<not> op_shutdown ops"
  defines "e \<equiv> with_revision (op_error_new ''conflict'' ''operations revision changed'') (ss_revision (os_saved (op_state ops)))"
  shows "set_module_type_locked cd fs p k n mt ex es ops = (Inl e, ops)"
    and "query_version_locked cd fs fs' now p k n ex es ops = (Inl e, ops)"
  using assms by (simp_all add: set_module_type_locked_def query_version_locked_def validate_station_request_def Let_def)

lemma shutdown_station_requests:
  assumes "op_shutdown ops"
  defines "e \<equiv> shutting_down (st_revision (os_station_saved (op_state ops)))"
  shows "set_module_type_locked cd fs p k n mt ex es ops = (Inl e, ops)"
    and "query_version_locked cd fs fs' now p k n ex es ops = (Inl e, ops)"
  using assms by (simp_all add: set_module_type_locked_def query_version_locked_def Let_def)

text \<open>
  The revision an accepted request named is gone for good: whatever happens afterwards, the same
  request is a conflict and changes nothing.
\<close>

lemma revision_used_up:
  assumes "canonical_revision (ss_revision (os_saved (op_state ops)))"
    and acc: "set_control_locked cd fs p dv en ex ops = (Inr rv, ops')"
    and run: "ops_run cd s s'" and "sy_ops s = ops'"
  shows "ss_revision (os_saved (op_state (sy_ops s'))) \<noteq> ex"
proof
  assume same: "ss_revision (os_saved (op_state (sy_ops s'))) = ex"
  from accepted_cases[OF acc] have ex: "ex = ss_revision (os_saved (op_state ops))"
    and inc: "increment_revision ex = Inr rv" and new: "ss_revision (os_saved (op_state ops')) = show_u64 rv" by auto
  obtain n where n: "parse_u64 ex = Some n" using inc by (auto simp: increment_revision_Ok)
  have "revision_number (op_state (sy_ops s)) = Suc (unat n)"
    using increment_number[OF inc n] new assms(4) by (simp add: revision_number_def)
  moreover have "revision_number (op_state (sy_ops s')) = unat n" by (simp add: revision_number_def same n)
  ultimately show False using revision_run[OF run] by simp
qed

section \<open>Receipts across the two counters\<close>

text \<open>
  A control that was invalidated is current again once a station operation of the same port gets
  the same number from its own counter.
\<close>

lemma module_type_pending:
  assumes "set_module_type_locked cd fs p k n mt ex es ops = (Inr (Some rv), ops')"
  shows "os_pending (op_state ops') p = Some rv"
proof -
  obtain cr ops1 where c: "change_station cd fs p k (\<lambda>r. reset_for_configured_type r mt) ops = (cr, ops1)" by fastforce
  have go: "\<not> op_shutdown ops \<and> is_ok (validate_station_request (op_state ops) ex es p k False)
      \<and> map_option (\<lambda>d. configured_module_type (dn_station_version d)) (Option.bind (port_of p ops) (find_device k)) \<noteq> Some mt"
    using assms by (cases "validate_station_request (op_state ops) ex es p k False")
      (simp_all add: set_module_type_locked_def Let_def del: map_option_eq_Some split: if_splits)
  then obtain u where v: "validate_station_request (op_state ops) ex es p k False = Inr u" by (auto simp: is_ok_iff)
  show ?thesis
  proof (cases cr)
    case (Inl e)
    with go v c assms show ?thesis
      by (cases e) (simp_all add: set_module_type_locked_def Let_def del: map_option_eq_Some)
  next
    case (Inr rv')
    obtain b ops3 where cs: "channel_send p (control_command p (StationModuleTypeSetting n mt) rv')
        (on_state (control_started p rv') ops1) = (b, ops3)" by fastforce
    with go v c Inr assms have "b \<and> rv' = rv \<and> ops' = ops3"
      by (cases b) (simp_all add: set_module_type_locked_def Let_def del: map_option_eq_Some)
    with channel_send_sels[OF cs] show ?thesis by (simp add: ops_sels)
  qed
qed

theorem invalidated_receipt_current_again:
  assumes "set_control_locked cd fs p dv en ex ops = (Inr rv, ops1)"
    and "set_module_type_locked cd fs' p k n mt ex' es (fail_pending_controls p m ops1) = (Inr (Some rv), ops2)"
  shows "\<not> control_is_current p rv (fail_pending_controls p m ops1) \<and> control_is_current p rv ops2
    \<and> \<not> control_is_current p rv (ops_complete_control p rv (Inr ()) ops2)"
  using module_type_pending[OF assms(2)]
  by (simp add: control_is_current_def fail_pending_controls_def ops_complete_control_def ops_sels)

section \<open>Under a closed gate\<close>

lemma unsaved_pending: "stations_unsaved cd ops ops' \<Longrightarrow> os_pending (op_state ops') = os_pending (op_state ops)"
  by (simp add: stations_unsaved_def)

lemma result_pending:
  assumes "report_station_query_result cd fs now p n res ops = (r, ops')"
  shows "os_pending (op_state ops') = os_pending (op_state ops)"
proof -
  obtain cr where "change_station cd fs p (device_key_text n) (apply_station_query_result now res) ops = (cr, ops')"
    using assms by (auto simp: report_station_query_result_def split: prod.splits)
  then show ?thesis by (cases rule: change_station_cases) (auto simp: unsaved_pending show_record_sels)
qed

lemma reports_pending:
  "os_pending (op_state (report_runtime p e opn ds ops)) = os_pending (op_state ops)"
  "os_pending (op_state (ops_complete_control p rv out ops)) x \<in> {None, os_pending (op_state ops) x}"
  "os_pending (op_state (fail_pending_controls p m ops)) x \<in> {None, os_pending (op_state ops) x}"
  "os_pending (op_state (worker_stopped_ops p ops)) x \<in> {None, os_pending (op_state ops) x}"
  "os_pending (op_state (fail_inflight_station_queries cd fs now p m ops)) = os_pending (op_state ops)"
  by (auto simp: report_runtime_def ops_complete_control_def fail_pending_controls_def worker_stopped_ops_def Let_def
      control_ended_def on_state_sels on_port_sels set_pending_sels)
    (rule inflight_cases[of cd ops fs now p m]; simp add: unsaved_pending on_port_sels)

text \<open>While the gate admits nothing, no request, permit or control begins, and the settings stay.\<close>

lemma fenced_step:
  assumes "ops_step cd s s'" and closed: "gate_admit (op_maintenance (sy_ops s)) = Inl e"
  shows "sy_rpcs s' \<le> sy_rpcs s \<and> length (sy_permits s') \<le> length (sy_permits s)
    \<and> os_saved (op_state (sy_ops s')) = os_saved (op_state (sy_ops s))
    \<and> (\<forall>p. os_pending (op_state (sy_ops s')) p \<in> {None, os_pending (op_state (sy_ops s)) p})"
  using assms(1)
proof cases
  case (os_automatic fs now p n r ops)
  from os_automatic(2) show ?thesis
    by (cases rule: automatic_cases)
      (use os_automatic(1) closed in \<open>auto simp: unsaved_saved unsaved_pending\<close>)
next
  case (os_admit p r ops)
  with closed show ?thesis by (auto simp: admit_command_def)
next
  case (os_permit p)
  then show ?thesis by (simp add: permit_drop_def Let_def on_state_sels on_port_sels length_remove1)
next
  case (os_result fs now p n result r ops)
  with result_saved[OF os_result(2)] result_pending[OF os_result(2)] show ?thesis by simp
next
  case (os_channel p ch)
  then show ?thesis by (simp add: take_command_def)
qed (use closed in \<open>simp_all add: reports_pending[simplified]\<close>)

inductive fenced_run :: "state_codec \<Rightarrow> ops_system \<Rightarrow> ops_system \<Rightarrow> bool" for cd where
  fd_here: "fenced_run cd s s"
| fd_next: "fenced_run cd s s' \<Longrightarrow> gate_admit (op_maintenance (sy_ops s')) = Inl e \<Longrightarrow> ops_step cd s' s''
     \<Longrightarrow> fenced_run cd s s''"

lemma fenced_run_quiet:
  assumes "fenced_run cd s s'" and "admissions_ok s" and "sy_rpcs s = 0" "sy_permits s = []"
    and "\<forall>p. os_pending (op_state (sy_ops s)) p = None"
  shows "admissions_ok s' \<and> sy_rpcs s' = 0 \<and> sy_permits s' = []
    \<and> os_saved (op_state (sy_ops s')) = os_saved (op_state (sy_ops s))
    \<and> (\<forall>p. os_pending (op_state (sy_ops s')) p = None)"
  using assms
proof induction
  case (fd_next s s' e s'')
  from fenced_step[OF fd_next.hyps(3,2)] fd_next.IH[OF fd_next.prems] admissions_step[OF fd_next.hyps(3)]
  show ?case by (metis insertE le_zero_eq length_0_conv singletonD)
qed simp

lemma pending_none:
  assumes "admissions_ok s" and "pending_port_operations (sy_ops s) = 0"
  shows "os_pending (op_state (sy_ops s)) p = None"
proof (cases "map_of (os_ports (op_state (sy_ops s))) p")
  case None
  then show ?thesis using assms(1) work_okD[of "sy_permits s" "op_state (sy_ops s)" p]
    by (simp add: admissions_ok_def work_view_def)
next
  case (Some q)
  then have "\<not> pn_control_pending q"
    using assms(2) by (auto simp: pending_port_operations_def filter_empty_conv dest: map_of_SomeD)
  with Some show ?thesis using assms(1) work_okD[of "sy_permits s" "op_state (sy_ops s)" p]
    by (simp add: admissions_ok_def work_view_def)
qed

lemma quiet_ports:
  assumes "admissions_ok s" and "sy_permits s = []" and "\<forall>p. os_pending (op_state (sy_ops s)) p = None"
    and "port_of p (sy_ops s) = Some q"
  shows "\<not> pn_control_pending q \<and> pn_pending_commands q = 0"
  using assms work_okD[of "sy_permits s" "op_state (sy_ops s)" p]
  by (simp add: admissions_ok_def work_view_def port_of_def)

end
