(* ===== verification/Maintenance_Runs.thy ===== *)
theory Maintenance_Runs
  imports Maintenance
begin

text \<open>
  The gate in use: callers enter and leave, mutations are admitted and finish between the halves
  of a transition, writes fail or are cut off by a restart at any point. The invariant relates the
  state in memory to the stored row; \<open>fc_acks\<close> remembers the \<open>enter\<close> requests that were answered
  with success.
\<close>

section \<open>Steps\<close>

datatype flight =
    Saving bool maintenance_record
  | Saved bool maintenance_record "string + unit"

record fence =
  fc_gate :: gate_state
  fc_db :: maintenance_db
  fc_flight :: "flight option"
  fc_acks :: "(string \<times> u64) list"

definition start_fence ::
  "(maintenance_record \<Rightarrow> string) \<Rightarrow> (string \<Rightarrow> string + maintenance_record) \<Rightarrow> string
     \<Rightarrow> db_fault \<Rightarrow> maintenance_db \<Rightarrow> fence" where
  "start_fence enc dec gateway fault db =
     (let (g, db') = gate_open enc dec gateway fault db
      in \<lparr>fc_gate = g, fc_db = db', fc_flight = None, fc_acks = []\<rparr>)"

inductive fence_step ::
  "(maintenance_record \<Rightarrow> string) \<Rightarrow> (string \<Rightarrow> string + maintenance_record) \<Rightarrow> string
     \<Rightarrow> fence \<Rightarrow> fence \<Rightarrow> bool" for enc dec gateway where
  fs_admit:
    "gate_admit (fc_gate s) = Ok g \<Longrightarrow> fence_step enc dec gateway s (s\<lparr>fc_gate := g\<rparr>)"
| fs_finish:
    "gt_pending (fc_gate s) > 0 \<Longrightarrow>
       fence_step enc dec gateway s (s\<lparr>fc_gate := admission_drop (fc_gate s)\<rparr>)"
| fs_enter_again:
    "fc_flight s = None \<Longrightarrow> validate_owner d t = Ok () \<Longrightarrow>
       enter_begin d t (fc_gate s) = (Ok None, g) \<Longrightarrow>
       fence_step enc dec gateway s (s\<lparr>fc_gate := g, fc_acks := (d, t) # fc_acks s\<rparr>)"
| fs_enter:
    "fc_flight s = None \<Longrightarrow> validate_owner d t = Ok () \<Longrightarrow>
       enter_begin d t (fc_gate s) = (Ok (Some next), g) \<Longrightarrow>
       fence_step enc dec gateway s (s\<lparr>fc_gate := g, fc_flight := Some (Saving True next)\<rparr>)"
| fs_leave:
    "fc_flight s = None \<Longrightarrow> validate_owner d t = Ok () \<Longrightarrow>
       leave_begin d t ports (fc_gate s) = Ok (Some next) \<Longrightarrow>
       fence_step enc dec gateway s (s\<lparr>fc_flight := Some (Saving False next)\<rparr>)"
| fs_write:
    "fc_flight s = Some (Saving entering next) \<Longrightarrow> save_record enc next fault (fc_db s) = (r, db) \<Longrightarrow>
       fence_step enc dec gateway s (s\<lparr>fc_db := db, fc_flight := Some (Saved entering next r)\<rparr>)"
| fs_confirm:
    "fc_flight s = Some (Saved entering next r) \<Longrightarrow>
       persist_confirm next r (fc_gate s) = (answer, g) \<Longrightarrow>
       fence_step enc dec gateway s
         (s\<lparr>fc_gate := g, fc_flight := None,
            fc_acks := (if entering \<and> is_ok answer
                        then (mr_deployment_id next, mr_fencing_token next) # fc_acks s
                        else fc_acks s)\<rparr>)"
| fs_restart:
    "gate_open enc dec gateway fault (fc_db s) = (g, db) \<Longrightarrow>
       fence_step enc dec gateway s (s\<lparr>fc_gate := g, fc_db := db, fc_flight := None\<rparr>)"

inductive fence_reachable ::
  "(maintenance_record \<Rightarrow> string) \<Rightarrow> (string \<Rightarrow> string + maintenance_record) \<Rightarrow> string
     \<Rightarrow> fence \<Rightarrow> bool" for enc dec gateway where
  fr_start: "fence_reachable enc dec gateway (start_fence enc dec gateway fault db)"
| fr_step: "fence_reachable enc dec gateway s \<Longrightarrow> fence_step enc dec gateway s s'
     \<Longrightarrow> fence_reachable enc dec gateway s'"

section \<open>The invariant\<close>

definition stored :: "(string \<Rightarrow> string + maintenance_record) \<Rightarrow> maintenance_db \<Rightarrow> maintenance_record option" where
  "stored dec db =
     (case db of Db_Row t \<Rightarrow> (case dec t of Inr r \<Rightarrow> Some r | Inl _ \<Rightarrow> None) | _ \<Rightarrow> None)"

text \<open>The stored record belongs to the fence in memory, or to the open generation before it.\<close>

definition behind :: "maintenance_record \<Rightarrow> maintenance_record \<Rightarrow> bool" where
  "behind disk memory \<longleftrightarrow>
     memory = disk\<lparr>mr_active := mr_active memory\<rparr>
     \<or> u64_succ (mr_fencing_token disk) = Some (mr_fencing_token memory) \<and> \<not> mr_active disk"

definition covers :: "maintenance_record option \<Rightarrow> string \<times> u64 \<Rightarrow> bool" where
  "covers disk a \<longleftrightarrow>
     (case disk of
        None \<Rightarrow> False
      | Some r \<Rightarrow> unat (snd a) < unat (mr_fencing_token r)
                    \<or> a = (mr_deployment_id r, mr_fencing_token r))"

definition idle_ok :: "maintenance_record option \<Rightarrow> gate_state \<Rightarrow> bool" where
  "idle_ok disk g \<longleftrightarrow>
     (if gt_durable g then disk = Some (gt_record g)
      else mr_active (gt_record g) \<longrightarrow> (\<exists>r. disk = Some r \<and> behind r (gt_record g)))"

definition entering_ok :: "maintenance_record option \<Rightarrow> gate_state \<Rightarrow> maintenance_record \<Rightarrow> bool" where
  "entering_ok disk g next \<longleftrightarrow>
     gt_record g = next \<and> mr_active next \<and> \<not> gt_durable g \<and> (\<exists>r. disk = Some r \<and> behind r next)"

definition leaving_ok :: "maintenance_record option \<Rightarrow> gate_state \<Rightarrow> maintenance_record \<Rightarrow> bool" where
  "leaving_ok disk g next \<longleftrightarrow>
     next = (gt_record g)\<lparr>mr_active := False\<rparr> \<and> mr_active (gt_record g) \<and> gt_durable g \<and> gt_pending g = 0
     \<and> disk \<in> {Some (gt_record g), Some next}"

fun flight_ok :: "maintenance_record option \<Rightarrow> gate_state \<Rightarrow> flight option \<Rightarrow> bool" where
  "flight_ok disk g None = idle_ok disk g"
| "flight_ok disk g (Some (Saving entering next)) =
     (if entering then entering_ok disk g next
      else leaving_ok disk g next \<and> disk = Some (gt_record g))"
| "flight_ok disk g (Some (Saved entering next r)) =
     ((if entering then entering_ok disk g next else leaving_ok disk g next)
      \<and> (is_ok r \<longrightarrow> disk = Some next))"

definition acks_ok :: "maintenance_record option \<Rightarrow> (string \<times> u64) list \<Rightarrow> bool" where
  "acks_ok disk acks \<longleftrightarrow>
     list_all (covers disk) acks
     \<and> (\<forall>d d' t. (d, t) \<in> set acks \<longrightarrow> (d', t) \<in> set acks \<longrightarrow> d = d')"

definition fence_ok :: "(string \<Rightarrow> string + maintenance_record) \<Rightarrow> fence \<Rightarrow> bool" where
  "fence_ok dec s \<longleftrightarrow>
     flight_ok (stored dec (fc_db s)) (fc_gate s) (fc_flight s)
     \<and> acks_ok (stored dec (fc_db s)) (fc_acks s)"

section \<open>Lemmas on the parts\<close>

lemma stored_row [simp]: "dec (enc r) = Inr r \<Longrightarrow> stored dec (Db_Row (enc r)) = Some r"
  by (simp add: stored_def)

lemma stored_Some: "stored dec db = Some r \<longleftrightarrow> (\<exists>t. db = Db_Row t \<and> dec t = Inr r)"
  by (auto simp: stored_def split: maintenance_db.splits sum.splits)

lemma load_stored:
  assumes codec: "\<And>r. dec (enc r) = Inr r" and "load enc dec initial fault db = (res, db')"
  shows "(stored dec db \<noteq> None \<longrightarrow> stored dec db' = stored dec db)
     \<and> (\<forall>r. res = Inr r \<longrightarrow> stored dec db' = Some r)"
  using assms
  by (cases db; cases fault)
    (auto simp: load_def connect_def Let_def stored_def split: sum.splits if_splits)

lemma gate_open_idle:
  assumes codec: "\<And>r. dec (enc r) = Inr r" and "gate_open enc dec gateway fault db = (g, db')"
  shows "idle_ok (stored dec db') g \<and> (stored dec db \<noteq> None \<longrightarrow> stored dec db' = stored dec db)"
proof -
  obtain res where l: "load enc dec (initial_record gateway) fault db = (res, db')"
    using assms(2) by (auto simp: gate_open_def Let_def split: prod.splits sum.splits)
  from load_stored[OF codec l] l assms(2) show ?thesis
    by (cases res) (auto simp: gate_open_def Let_def idle_ok_def initial_record_def)
qed

lemma save_stored:
  assumes codec: "\<And>r. dec (enc r) = Inr r" and "save_record enc next fault db = (res, db')"
    and "stored dec db = Some r"
  shows "stored dec db' \<in> {Some r, Some next} \<and> (is_ok res \<longrightarrow> stored dec db' = Some next)"
  using assms
  by (cases fault) (auto simp: stored_Some save_record_def connect_def Let_def split: if_splits)

lemma covers_behind: "covers (Some r) a \<Longrightarrow> behind r next \<Longrightarrow> covers (Some next) a"
  unfolding behind_def
proof (elim disjE)
  assume "covers (Some r) a" and "next = r\<lparr>mr_active := mr_active next\<rparr>"
  moreover from this(2) have "mr_fencing_token next = mr_fencing_token r"
    and "mr_deployment_id next = mr_deployment_id r" by (metis maintenance_record.select_convs(1-4) maintenance_record.surjective maintenance_record.update_convs(5))+
  ultimately show ?thesis by (simp add: covers_def)
qed (cases a, auto simp: covers_def dest: u64_succ_unat)

lemma acks_behind: "acks_ok (Some r) acks \<Longrightarrow> behind r next \<Longrightarrow> acks_ok (Some next) acks"
  by (auto simp: acks_ok_def list_all_iff intro: covers_behind)

lemma behind_refl [simp]: "behind r r"
  by (simp add: behind_def)

lemma behind_inactive [simp]: "behind r (r\<lparr>mr_active := b\<rparr>)" "behind (r\<lparr>mr_active := b\<rparr>) r"
  by (simp_all add: behind_def)

lemma acks_add:
  assumes "acks_ok (Some r) acks" and "a = (mr_deployment_id r, mr_fencing_token r)"
  shows "acks_ok (Some r) (a # acks)"
  using assms by (fastforce simp: acks_ok_def covers_def list_all_iff)

lemma acks_ok_Nil [simp]: "acks_ok disk []"
  by (simp add: acks_ok_def)

lemma acks_open:
  "acks_ok disk acks \<Longrightarrow> (disk \<noteq> None \<longrightarrow> disk' = disk) \<Longrightarrow> acks_ok disk' acks"
  by (cases disk; cases acks) (auto simp: acks_ok_def covers_def)

lemma enter_begin_None:
  "enter_begin d t g = (Inr None, g') \<longleftrightarrow>
     g' = g \<and> gt_durable g \<and> mr_active (gt_record g)
     \<and> mr_deployment_id (gt_record g) = d \<and> mr_fencing_token (gt_record g) = t"
  by (auto simp: enter_begin_def Let_def)

lemma enter_begin_idle:
  assumes "enter_begin d t g = (Inr (Some next), g')" and "idle_ok disk g"
  shows "entering_ok disk g' next"
  using assms by (auto simp: enter_begin_def Let_def entering_ok_def idle_ok_def behind_def split: if_splits)

lemma leave_begin_Some:
  "leave_begin d t ports g = Inr (Some next) \<longleftrightarrow>
     next = (gt_record g)\<lparr>mr_active := False\<rparr> \<and> mr_active (gt_record g) \<and> gt_durable g
     \<and> gt_pending g = 0 \<and> ports = 0
     \<and> mr_deployment_id (gt_record g) = d \<and> mr_fencing_token (gt_record g) = t"
  by (auto simp: leave_begin_def Let_def)

lemma gate_admit_Ok:
  "gate_admit g = Inr g' \<longleftrightarrow>
     \<not> mr_active (gt_record g) \<and> gt_durable g \<and> int (gt_pending g) < usize_max
     \<and> g' = g\<lparr>gt_pending := gt_pending g + 1\<rparr>"
  by (auto simp: gate_admit_def)

lemma flight_pending:
  "flight_ok disk g f \<Longrightarrow> gt_pending g \<noteq> 0 \<Longrightarrow> flight_ok disk (g\<lparr>gt_pending := n\<rparr>) f"
  by (cases f rule: flight_ok.cases[of "(disk, g, f)" for f, simplified])
    (auto simp: idle_ok_def entering_ok_def leaving_ok_def split: if_splits)

lemma flight_admit:
  "flight_ok disk g f \<Longrightarrow> gate_admit g = Inr g' \<Longrightarrow> f = None \<and> disk = Some (gt_record g) \<and> idle_ok disk g'"
  by (cases f rule: flight_ok.cases[of "(disk, g, f)" for f, simplified])
    (auto simp: idle_ok_def entering_ok_def leaving_ok_def gate_admit_Ok split: if_splits)

lemma confirm_ok:
  assumes "flight_ok disk g (Some (Saved entering next r))" and "persist_confirm next r g = (answer, g')"
  shows "idle_ok disk g' \<and> (is_ok answer \<longrightarrow> disk = Some next)"
  using assms
  by (cases r) (auto simp: persist_confirm_def idle_ok_def entering_ok_def leaving_ok_def split: if_splits)

lemma write_ok:
  assumes codec: "\<And>r. dec (enc r) = Inr r"
    and inv: "flight_ok (stored dec db) g (Some (Saving entering next))"
    and s: "save_record enc next fault db = (r, db')"
  shows "flight_ok (stored dec db') g (Some (Saved entering next r))
     \<and> (\<exists>d d'. stored dec db = Some d \<and> stored dec db' = Some d' \<and> behind d d')"
proof (cases entering)
  case True
  with inv obtain d where "stored dec db = Some d" and "entering_ok (stored dec db) g next" and "behind d next"
    by (auto simp: entering_ok_def)
  with save_stored[OF codec s] True show ?thesis by (auto simp: entering_ok_def)
next
  case False
  with inv have d: "stored dec db = Some (gt_record g)" and l: "leaving_ok (stored dec db) g next" by auto
  with save_stored[OF codec s d] False show ?thesis by (auto simp: leaving_ok_def)
qed

section \<open>Preservation\<close>

inductive_cases fence_stepE: "fence_step enc dec gateway s s'"

lemma fence_step_ok:
  assumes codec: "\<And>r. dec (enc r) = Inr r"
    and "fence_step enc dec gateway s s'" and "fence_ok dec s"
  shows "fence_ok dec s'"
  using assms(2)
proof cases
  case (fs_admit g)
  with assms(3) flight_admit[of "stored dec (fc_db s)" "fc_gate s" "fc_flight s" g] show ?thesis
    by (auto simp: fence_ok_def)
next
  case fs_finish
  with assms(3) show ?thesis by (auto simp: fence_ok_def admission_drop_def intro: flight_pending)
next
  case (fs_enter_again d t g)
  with assms(3) show ?thesis
    by (auto simp: fence_ok_def enter_begin_None idle_ok_def intro: acks_add)
next
  case (fs_enter d t r g)
  with assms(3) enter_begin_idle show ?thesis by (auto simp: fence_ok_def)
next
  case (fs_leave d t ports r)
  with assms(3) show ?thesis by (auto simp: fence_ok_def leave_begin_Some leaving_ok_def idle_ok_def)
next
  case (fs_write entering r fault res db)
  then have "flight_ok (stored dec (fc_db s)) (fc_gate s) (Some (Saving entering r))"
    using assms(3) unfolding fence_ok_def by metis
  from write_ok[OF codec this fs_write(3)] fs_write assms(3) show ?thesis
    by (auto simp: fence_ok_def simp del: flight_ok.simps intro: acks_behind)
next
  case (fs_confirm entering r res answer g)
  then have "flight_ok (stored dec (fc_db s)) (fc_gate s) (Some (Saved entering r res))"
    using assms(3) unfolding fence_ok_def by metis
  from confirm_ok[OF this fs_confirm(3)] fs_confirm assms(3) show ?thesis
    by (auto simp: fence_ok_def intro: acks_add)
next
  case (fs_restart fault g db)
  from gate_open_idle[OF codec fs_restart(2)] fs_restart assms(3) show ?thesis
    by (auto simp: fence_ok_def intro: acks_open)
qed

lemma fence_reachable_ok:
  assumes codec: "\<And>r. dec (enc r) = Inr r" and "fence_reachable enc dec gateway s"
  shows "fence_ok dec s"
  using assms(2)
proof induction
  case (fr_start fault db)
  obtain g db' where o: "gate_open enc dec gateway fault db = (g, db')" by fastforce
  with gate_open_idle[OF codec o] show ?case by (simp add: start_fence_def fence_ok_def)
next
  case (fr_step s s')
  then show ?case using fence_step_ok[OF codec] by blast
qed

section \<open>The stored fence\<close>

text \<open>What one step does to a stored record that is active: nothing, or its drained release.\<close>

lemma active_step:
  assumes codec: "\<And>r. dec (enc r) = Inr r" and inv: "fence_ok dec s"
    and step: "fence_step enc dec gateway s s'"
    and r: "stored dec (fc_db s) = Some r" and a: "mr_active r"
  shows "stored dec (fc_db s') = Some r
     \<or> stored dec (fc_db s') = Some (r\<lparr>mr_active := False\<rparr>) \<and> gt_pending (fc_gate s) = 0
        \<and> fc_flight s = Some (Saving False (r\<lparr>mr_active := False\<rparr>))"
  using step
proof cases
  case (fs_write entering n fault res db)
  then have f: "flight_ok (stored dec (fc_db s)) (fc_gate s) (Some (Saving entering n))"
    using inv unfolding fence_ok_def by metis
  from save_stored[OF codec fs_write(3) r] f a r fs_write show ?thesis
    by (cases entering) (auto simp: entering_ok_def leaving_ok_def behind_def)
next
  case (fs_restart fault g db)
  from gate_open_idle[OF codec fs_restart(2)] fs_restart r show ?thesis by auto
qed (use r in auto)

lemma active_update_id: "mr_active r \<Longrightarrow> r\<lparr>mr_active := True\<rparr> = r"
  by (cases r) simp

lemma gate_persist_fine:
  "gate_persist enc Db_Fine next (g, Db_Row t) =
     (Ok (), g\<lparr>gt_record := next, gt_durable := True, gt_error := []\<rparr>, Db_Row (enc next))"
  by (simp add: gate_persist_def save_record_def connect_def persist_confirm_def)

text \<open>
  The owner of a closed fence can always finish: entering once more makes the fence durable, and
  leaving it when everything has drained opens the gate.
\<close>

lemma owner_finishes:
  assumes inv: "fence_ok dec s" and "fc_flight s = None" and act: "mr_active (gt_record (fc_gate s))"
    and own: "validate_owner d t = Ok ()" "mr_deployment_id (gt_record (fc_gate s)) = d"
      "mr_fencing_token (gt_record (fc_gate s)) = t"
    and drained: "gt_pending (fc_gate s) = 0"
  obtains g db g' db' where "gate_enter enc Db_Fine d t (fc_gate s, fc_db s) = (Ok (), g, db)"
    and "gate_leave enc Db_Fine d t 0 (g, db) = (Ok (), g', db')"
    and "is_ok (gate_admit g')" and "db' = Db_Row (enc (gt_record g'))"
proof -
  define r where "r = gt_record (fc_gate s)"
  from inv assms(2) act obtain x where x: "fc_db s = Db_Row x"
    by (auto simp: fence_ok_def idle_ok_def stored_Some split: if_splits)
  define g where "g = (if gt_durable (fc_gate s) then fc_gate s
    else (fc_gate s)\<lparr>gt_record := r, gt_durable := True, gt_error := []\<rparr>)"
  define db where "db = (if gt_durable (fc_gate s) then fc_db s else Db_Row (enc r))"
  have same: "r\<lparr>mr_active := True, mr_deployment_id := d, mr_fencing_token := t\<rparr> = r"
    using act own(2,3) by (simp add: r_def)
  have enter: "gate_enter enc Db_Fine d t (fc_gate s, fc_db s) = (Ok (), g, db)"
    using act own same
    by (auto simp: gate_enter_def enter_begin_def Let_def x gate_persist_fine g_def db_def r_def active_update_id)
  obtain y where y: "db = Db_Row y" using x unfolding db_def by (metis (full_types))
  have "gt_record g = r" "gt_durable g" "gt_pending g = 0" using drained by (auto simp: g_def r_def)
  with act own have "gate_leave enc Db_Fine d t 0 (g, db) =
      (Ok (), g\<lparr>gt_record := r\<lparr>mr_active := False\<rparr>, gt_durable := True, gt_error := []\<rparr>,
       Db_Row (enc (r\<lparr>mr_active := False\<rparr>)))"
    by (auto simp: gate_leave_def leave_begin_def Let_def y gate_persist_fine r_def)
  with enter drained \<open>gt_pending g = 0\<close> show ?thesis
    by (intro that[of g db]) (auto simp: gate_admit_def usize_max_def)
qed

end
