(* ===== verification/Operations_Examples.thy ===== *)
theory Operations_Examples
  imports State_Text Operations_Revisions Maintenance_Runs
begin

text \<open>
  Worked examples for the operations service: one port with one device, started on empty
  directories, and a maintenance gate on a new database.
\<close>

section \<open>The service\<close>

definition empty_dir :: state_dir where
  "empty_dir = \<lparr>sd_nodes = (\<lambda>_. None), sd_faults = [], sd_trace = []\<rparr>"

definition example_gate :: gate_state where
  "example_gate = \<lparr>gt_record = initial_record ''G'', gt_pending = 0, gt_durable = True, gt_error = []\<rparr>"

definition example_port :: serial_port_config where
  "example_port = port_config_new ''C'' 9600 False
     [\<lparr>dc_config = \<lparr>cfg_com = ''C'', cfg_baud_rate = 9600, cfg_is_special = False, cfg_com_index = 1,
        cfg_device_id = 1, cfg_data_len = 4, cfg_kks_prefix = ''K''\<rparr>, dc_records = []\<rparr>]"

definition booted :: "(string + operations) \<times> state_dir \<times> state_dir" where
  "booted = operations_new example_codec (\<lambda>s. s) [example_port] example_gate empty_dir empty_dir"

definition booted_system :: ops_system where
  "booted_system = \<lparr>sy_ops = projr (fst booted), sy_rpcs = 0, sy_permits = []\<rparr>"

text \<open>The worker registers and reports that the port is open and enabled.\<close>

definition registered_ops :: operations where
  "registered_ops = take_command ''C'' \<lparr>ch_open = True, ch_queue = []\<rparr> (projr (fst booted))"

definition registered :: ops_system where
  "registered = \<lparr>sy_ops = registered_ops, sy_rpcs = 0, sy_permits = []\<rparr>"

definition running_ops :: operations where
  "running_ops = report_runtime ''C'' True True [(1, True, True, None)] registered_ops"

definition running :: ops_system where
  "running = \<lparr>sy_ops = running_ops, sy_rpcs = 0, sy_permits = []\<rparr>"

text \<open>A request to stop reading the device, at revision 1.\<close>

definition admitted_gate :: gate_state where
  "admitted_gate = example_gate\<lparr>gt_pending := 1\<rparr>"

definition stop_reading :: "(op_error + u64) \<times> operations" where
  "stop_reading = set_control_locked example_codec [] ''C'' (Some ''1'') False ''1''
     (admitted_ops running_ops admitted_gate)"

definition stopped :: ops_system where
  "stopped = \<lparr>sy_ops = snd stop_reading, sy_rpcs = 1, sy_permits = []\<rparr>"

lemma booted_Ok: "booted = (Inr (projr (fst booted)), snd booted)"
proof -
  have "is_ok (fst booted)" by code_simp
  then show ?thesis by (cases "fst booted") (simp_all add: prod_eq_iff)
qed

lemma booted_new:
  "operations_new example_codec (\<lambda>s. s) [example_port] example_gate empty_dir empty_dir
     = (Inr (projr (fst booted)), fst (snd booted), snd (snd booted))"
  using booted_Ok unfolding booted_def[symmetric] by (metis prod.collapse)

lemma running_reached: "ops_run example_codec booted_system running"
proof -
  have "ops_step example_codec booted_system registered"
    using os_channel[of example_codec booted_system "''C''"]
    by (simp add: registered_def registered_ops_def booted_system_def)
  moreover have "ops_step example_codec registered running"
    using os_runtime[of example_codec registered "''C''" True True "[(1, True, True, None)]"]
    by (simp add: running_def running_ops_def registered_def)
  ultimately show ?thesis by (rule or_next[OF or_next[OF or_here]])
qed

lemma running_gate: "gate_admit (op_maintenance (sy_ops running)) = Ok admitted_gate"
  by code_simp

lemma stopped_step: "ops_step example_codec running stopped"
  using os_set_control[OF running_gate, of example_codec "[]" "''C''" "Some ''1''" False "''1''" "fst stop_reading" "snd stop_reading"]
  by (simp add: stopped_def running_def stop_reading_def)

lemma stop_reading_Ok: "stop_reading = (Ok 2, snd stop_reading)"
proof -
  have "fst stop_reading = Ok 2" by code_simp
  then show ?thesis by (metis prod.collapse)
qed

lemma stopped_reached: "ops_run example_codec booted_system stopped"
  by (rule or_next[OF running_reached stopped_step])

lemma example_dirs: "dirs_readable empty_dir empty_dir"
  by (simp add: dirs_readable_def empty_dir_def tidy_def irregular_def current_text_def)

lemma example_gate_pending: "gt_pending example_gate = 0"
  by (simp add: example_gate_def)

definition rebooted :: "(string + operations) \<times> state_dir \<times> state_dir" where
  "rebooted = (let ops = snd stop_reading in operations_new example_codec (\<lambda>s. s) [example_port] example_gate
     (with_faults [] (op_state_dir ops)) (with_faults [] (op_station_dir ops)))"

lemma rebooted_Ok: "rebooted = (Inr (projr (fst rebooted)), snd rebooted)"
proof -
  have "is_ok (fst rebooted)" by code_simp
  then show ?thesis by (cases "fst rebooted") (simp_all add: prod_eq_iff)
qed

lemma rebooted_new:
  "operations_new example_codec (\<lambda>s. s) [example_port] example_gate (with_faults [] (op_state_dir (sy_ops stopped)))
     (with_faults [] (op_station_dir (sy_ops stopped))) = (Inr (projr (fst rebooted)), fst (snd rebooted), snd (snd rebooted))"
proof -
  have "rebooted = (Inr (projr (fst rebooted)), fst (snd rebooted), snd (snd rebooted))"
    using rebooted_Ok by (metis prod.collapse)
  moreover have "operations_new example_codec (\<lambda>s. s) [example_port] example_gate
     (with_faults [] (op_state_dir (sy_ops stopped))) (with_faults [] (op_station_dir (sy_ops stopped))) = rebooted"
    unfolding rebooted_def stopped_def Let_def by simp
  ultimately show ?thesis by metis
qed

section \<open>The gate\<close>

definition gate_parts :: "maintenance_record \<Rightarrow> u32 \<times> string \<times> u64 \<times> string \<times> bool" where
  "gate_parts r = (mr_schema_version r, mr_gateway_instance_id r, mr_fencing_token r, mr_deployment_id r, mr_active r)"

fun parts_gate :: "u32 \<times> string \<times> u64 \<times> string \<times> bool \<Rightarrow> maintenance_record" where
  "parts_gate (v, g, t, d, a) =
     \<lparr>mr_schema_version = v, mr_gateway_instance_id = g, mr_fencing_token = t, mr_deployment_id = d, mr_active = a\<rparr>"

definition gate_enc :: "maintenance_record \<Rightarrow> string" where
  "gate_enc = enc_map gate_parts (enc_pair enc_word (enc_pair enc_text (enc_pair enc_word (enc_pair enc_text enc_bool))))"

definition gate_reader :: "maintenance_record reader" where
  "gate_reader = dec_map parts_gate (dec_pair dec_word (dec_pair dec_text (dec_pair dec_word (dec_pair dec_text dec_bool))))"

definition gate_dec :: "string \<Rightarrow> string + maintenance_record" where
  "gate_dec t = (case gate_reader t of Some (r, []) \<Rightarrow> Inr r | _ \<Rightarrow> Inl ''invalid text'')"

lemma gate_reads_back: "reads_back gate_enc gate_reader"
  unfolding gate_enc_def gate_reader_def by (intro reads_map reader_rules) (simp add: gate_parts_def)

interpretation gate_codec: reads_back gate_enc gate_reader
  by (rule gate_reads_back)

lemma gate_dec_enc: "gate_dec (gate_enc r) = Inr r"
  by (simp add: gate_dec_def gate_codec.reads_all)

definition new_fence :: fence where
  "new_fence = start_fence gate_enc gate_dec ''G'' Db_Fine Db_Absent"

definition fence_record :: maintenance_record where
  "fence_record = (initial_record ''G'')\<lparr>mr_active := True, mr_deployment_id := ''d'', mr_fencing_token := 1\<rparr>"

definition fence_entering :: fence where
  "fence_entering = new_fence\<lparr>fc_gate := snd (enter_begin ''d'' 1 (fc_gate new_fence)),
     fc_flight := Some (Saving True fence_record)\<rparr>"

definition fence_written :: fence where
  "fence_written = fence_entering\<lparr>fc_db := snd (save_record gate_enc fence_record Db_Fine (fc_db fence_entering)),
     fc_flight := Some (Saved True fence_record (fst (save_record gate_enc fence_record Db_Fine (fc_db fence_entering))))\<rparr>"

definition fence_closed :: fence where
  "fence_closed = fence_written\<lparr>fc_gate := snd (persist_confirm fence_record (Inr ()) (fc_gate fence_written)),
     fc_flight := None, fc_acks := [(''d'', 1)]\<rparr>"

lemma new_fence_reached: "fence_reachable gate_enc gate_dec ''G'' new_fence"
  unfolding new_fence_def by (rule fr_start)

lemma fence_entering_step: "fence_step gate_enc gate_dec ''G'' new_fence fence_entering"
proof -
  have e: "fst (enter_begin ''d'' 1 (fc_gate new_fence)) = Ok (Some fence_record)"
    and f: "fc_flight new_fence = None" and v: "validate_owner ''d'' 1 = Ok ()" by code_simp+
  from e have "enter_begin ''d'' 1 (fc_gate new_fence) = (Ok (Some fence_record), snd (enter_begin ''d'' 1 (fc_gate new_fence)))"
    by (metis prod.collapse)
  from fs_enter[OF f v this] show ?thesis unfolding fence_entering_def .
qed

lemma fence_written_step: "fence_step gate_enc gate_dec ''G'' fence_entering fence_written"
proof -
  have "fc_flight fence_entering = Some (Saving True fence_record)" by (simp add: fence_entering_def)
  then show ?thesis unfolding fence_written_def by (rule fs_write[where fault = Db_Fine]) simp
qed

lemma fence_closed_step: "fence_step gate_enc gate_dec ''G'' fence_written fence_closed"
proof -
  have s: "fst (save_record gate_enc fence_record Db_Fine (fc_db fence_entering)) = Inr ()"
    and a: "fc_acks fence_written = []" by code_simp+
  have f: "fc_flight fence_written = Some (Saved True fence_record (Inr ()))" by (simp add: fence_written_def s)
  have p: "persist_confirm fence_record (Inr ()) (fc_gate fence_written)
      = (Ok (), snd (persist_confirm fence_record (Inr ()) (fc_gate fence_written)))"
    by (simp add: persist_confirm_def)
  from fs_confirm[OF f p, of gate_enc gate_dec "''G''"] show ?thesis
    by (simp add: fence_closed_def a fence_record_def)
qed

lemma fence_closed_reached: "fence_reachable gate_enc gate_dec ''G'' fence_closed"
  by (intro fr_step[OF _ fence_closed_step] fr_step[OF _ fence_written_step] fr_step[OF _ fence_entering_step] new_fence_reached)

end
