(* ===== verification/Operations_Properties.thy ===== *)
theory Operations_Properties
  imports Operations_Examples
begin

text \<open>Properties of the maintenance gate, the state files and the operations service.\<close>

section \<open>Maintenance\<close>

text \<open>C5 The maintenance fence. In every state the gate can reach, with writes that fail and
restarts at any point, a fence that is closed in memory or on disk refuses every mutation as busy;
and a stored fence stays as it is from one step to the next until its owner's release is written,
which happens only when no admitted operation is left.\<close>

theorem maintenance_fence_holds:
  assumes codec: "\<And>r. dec (enc r) = Inr r" and reach: "fence_reachable enc dec gateway s"
    and step: "fence_step enc dec gateway s s'" and r: "stored dec (fc_db s) = Some r"
  shows "(mr_active (gt_record (fc_gate s)) \<or> mr_active r \<longrightarrow>
           (\<exists>e. gate_admit (fc_gate s) = Err e \<and> oe_code e = ''busy''))
    \<and> (mr_active r \<longrightarrow> stored dec (fc_db s') = Some r
         \<or> stored dec (fc_db s') = Some (r\<lparr>mr_active := False\<rparr>) \<and> gt_pending (fc_gate s) = 0
            \<and> fc_flight s = Some (Saving False (r\<lparr>mr_active := False\<rparr>)))"
proof (intro conjI impI)
  have inv: "fence_ok dec s" by (rule fence_reachable_ok[OF codec reach])
  then have f: "flight_ok (stored dec (fc_db s)) (fc_gate s) (fc_flight s)" by (simp add: fence_ok_def)
  show "\<exists>e. gate_admit (fc_gate s) = Err e \<and> oe_code e = ''busy''" if "mr_active (gt_record (fc_gate s)) \<or> mr_active r"
  proof (cases "gate_admit (fc_gate s)")
    case (Inl e)
    then show ?thesis by (auto simp: gate_admit_def op_error_new_def split: if_splits)
  next
    case (Inr g)
    with flight_admit[OF f Inr] that r show ?thesis by (auto simp: gate_admit_Ok)
  qed
  show "stored dec (fc_db s') = Some r
         \<or> stored dec (fc_db s') = Some (r\<lparr>mr_active := False\<rparr>) \<and> gt_pending (fc_gate s) = 0
            \<and> fc_flight s = Some (Saving False (r\<lparr>mr_active := False\<rparr>))" if "mr_active r"
    by (rule active_step[OF codec inv step r that])
qed

theorem maintenance_fence_holds_witness:
  "stored gate_dec (fc_db fence_closed) = Some fence_record \<and> mr_active fence_record
   \<and> (\<exists>e. gate_admit (fc_gate fence_closed) = Err e \<and> oe_code e = ''busy'')"
proof -
  have r: "stored gate_dec (fc_db fence_closed) = Some fence_record" by code_simp
  have a: "mr_active fence_record" by (simp add: fence_record_def)
  obtain g db where o: "gate_open gate_enc gate_dec ''G'' Db_Fine (fc_db fence_closed) = (g, db)" by fastforce
  from maintenance_fence_holds[OF gate_dec_enc fence_closed_reached fs_restart[OF o] r] r a show ?thesis by simp
qed

text \<open>C21 One owner per fencing token. Of all the requests to enter maintenance that were ever
confirmed, across restarts and failed writes, no two with the same token come from different
deployments.\<close>

theorem fencing_token_single_owner:
  assumes codec: "\<And>r. dec (enc r) = Inr r" and reach: "fence_reachable enc dec gateway s"
    and "(d, t) \<in> set (fc_acks s)" and "(d', t) \<in> set (fc_acks s)"
  shows "d = d'"
  using fence_reachable_ok[OF codec reach] assms(3,4) by (auto simp: fence_ok_def acks_ok_def)

theorem fencing_token_single_owner_witness:
  "fence_reachable gate_enc gate_dec ''G'' fence_closed \<and> (''d'', 1) \<in> set (fc_acks fence_closed) \<and> ''d'' = ''d''"
  using fencing_token_single_owner[OF gate_dec_enc fence_closed_reached, of "''d''" 1 "''d''"] fence_closed_reached
  by (simp add: fence_closed_def)

text \<open>C22 The owner of a closed fence can always open it again: when no transition is under way and
the admitted operations have drained, entering once more and then leaving, with the storage
working, succeeds, and the gate admits operations again, in memory and on disk, whatever writes
failed before.\<close>

theorem fence_owner_can_finish:
  assumes codec: "\<And>r. dec (enc r) = Inr r" and reach: "fence_reachable enc dec gateway s"
    and "fc_flight s = None" and "mr_active (gt_record (fc_gate s))" and "gt_pending (fc_gate s) = 0"
    and "validate_owner d t = Ok ()" and "mr_deployment_id (gt_record (fc_gate s)) = d"
    and "mr_fencing_token (gt_record (fc_gate s)) = t"
  shows "\<exists>g db g' db'. gate_enter enc Db_Fine d t (fc_gate s, fc_db s) = (Ok (), g, db)
    \<and> gate_leave enc Db_Fine d t 0 (g, db) = (Ok (), g', db')
    \<and> is_ok (gate_admit g') \<and> stored dec db' = Some (gt_record g')"
  by (rule owner_finishes[OF fence_reachable_ok[OF codec reach] assms(3,4,6,7,8,5), of enc])
    (use codec in fastforce)

theorem fence_owner_can_finish_witness:
  "\<exists>g db g' db'. gate_enter gate_enc Db_Fine ''d'' 1 (fc_gate fence_closed, fc_db fence_closed) = (Ok (), g, db)
    \<and> gate_leave gate_enc Db_Fine ''d'' 1 0 (g, db) = (Ok (), g', db')
    \<and> is_ok (gate_admit g') \<and> stored gate_dec db' = Some (gt_record g')"
proof (rule fence_owner_can_finish[OF gate_dec_enc fence_closed_reached])
  show "fc_flight fence_closed = None" by (simp add: fence_closed_def)
  show "mr_active (gt_record (fc_gate fence_closed))" "gt_pending (fc_gate fence_closed) = 0"
    "validate_owner ''d'' 1 = Ok ()" "mr_deployment_id (gt_record (fc_gate fence_closed)) = ''d''"
    "mr_fencing_token (gt_record (fc_gate fence_closed)) = 1" by code_simp+
qed

section \<open>State files\<close>

text \<open>C8 The station file is replaced as a whole. Whatever system call fails, and wherever the
process stops between two of them, a start-up that then reads the file finds the previous text or
the new one, complete; after the call returned it finds the new text if the answer was success and
the previous one if it was not.\<close>

theorem state_file_replaced_whole:
  assumes "tidy (sd_nodes d)" and "persist_station_state rv bs (with_faults fs d) = (res, d')"
    and "\<And>t. current_text (sd_nodes d) = Some t \<Longrightarrow> int (length t) \<le> max_station_state_bytes"
  shows "(\<forall>n \<in> set (sd_trace d').
       fst (read_station_state_text \<lparr>sd_nodes = n, sd_faults = [], sd_trace = []\<rparr>)
         \<in> {Ok (current_text (sd_nodes d)), Ok (Some bs)})
    \<and> fst (read_station_state_text (with_faults [] d')) = Ok (if is_ok res then Some bs else current_text (sd_nodes d))"
proof -
  let ?old = "current_text (sd_nodes d)"
  have s: "shows_one_of ?old bs d'" and c: "current_text (sd_nodes d') = (if is_ok res then Some bs else ?old)"
    using persist_station_shows[OF shows_with_faults[OF assms(1)] _ assms(2)] by auto
  show ?thesis
  proof (cases "int (length bs) \<le> max_station_state_bytes")
    case True
    have read: "fst (read_station_state_text e) = Ok (current_text (sd_nodes e))"
      if "tidy (sd_nodes e)" "current_text (sd_nodes e) = ?old \<or> current_text (sd_nodes e) = Some bs" "sd_faults e = []" for e
      using that True assms(3) by (intro read_station_current) auto
    have "fst (read_station_state_text (with_faults [] d')) = Ok (current_text (sd_nodes d'))"
      using read[of "with_faults [] d'"] s by (simp add: shows_one_of_def with_faults_def)
    moreover have "fst (read_station_state_text \<lparr>sd_nodes = n, sd_faults = [], sd_trace = []\<rparr>) \<in> {Ok ?old, Ok (Some bs)}"
      if "n \<in> set (sd_trace d')" for n
      using read[of "\<lparr>sd_nodes = n, sd_faults = [], sd_trace = []\<rparr>"] s that
      by (auto simp: shows_one_of_def list_all_iff)
    ultimately show ?thesis using c by simp
  next
    case False
    then have "sd_trace d' = []" and n: "sd_nodes d' = sd_nodes d" and "\<not> is_ok res"
      using assms(1,2) by (auto simp: persist_station_state_def persist_with_def with_faults_def tidy_def)
    moreover have "fst (read_station_state_text (with_faults [] d')) = Ok ?old"
      using read_station_current[of "with_faults [] d'"] assms(1,3) by (simp add: n with_faults_def)
    ultimately show ?thesis by simp
  qed
qed

text \<open>The fourth call, which moves the temporary file into place, fails; so does the one that would
move the backup back.\<close>

definition old_file :: state_dir where
  "old_file = empty_dir\<lparr>sd_nodes := [Main \<mapsto> Regular ''old'']\<rparr>"

theorem state_file_replaced_whole_witness:
  "is_ok (fst (persist_station_state ''2'' ''new'' (with_faults [None, None, None, Some 0, Some 0] old_file))) = False
   \<and> length (sd_trace (snd (persist_station_state ''2'' ''new'' (with_faults [None, None, None, Some 0, Some 0] old_file)))) = 4
   \<and> fst (read_station_state_text (with_faults [] (snd (persist_station_state ''2'' ''new''
        (with_faults [None, None, None, Some 0, Some 0] old_file))))) = Ok (Some ''old'')"
proof -
  have t: "tidy (sd_nodes old_file)" by (simp add: old_file_def tidy_def irregular_def)
  have o: "current_text (sd_nodes old_file) = Some ''old''" by (simp add: old_file_def current_text_def)
  obtain res d' where p: "persist_station_state ''2'' ''new'' (with_faults [None, None, None, Some 0, Some 0] old_file) = (res, d')"
    by fastforce
  have "is_ok (fst (persist_station_state ''2'' ''new'' (with_faults [None, None, None, Some 0, Some 0] old_file))) = False"
    "length (sd_trace (snd (persist_station_state ''2'' ''new'' (with_faults [None, None, None, Some 0, Some 0] old_file)))) = 4"
    by code_simp+
  with state_file_replaced_whole[OF t p] o p show ?thesis by (simp add: max_station_state_bytes_def)
qed

section \<open>Commands and controls\<close>

text \<open>C6 A port is never shared. After start-up, however requests, commands, reports of the workers,
restarts of workers and maintenance follow one another, a port has at most one admitted command and
then no control in progress, a control is in progress exactly when its revision is remembered, the
count of a port is the number of its living permits, the gate counts every admission that is still
held, and every shown station record is the stored one, but for one flag: a record that is stored as
fresh may be shown as stale (while its station does not answer or its worker is stopped), never the other
way round.\<close>

theorem port_never_shared:
  assumes codec: "codec_reads_back cd" and "dirs_readable d1 d2" and "gt_pending gate = 0"
    and "operations_new cd sha ports gate d1 d2 = (Inr ops, e1, e2)"
    and "ops_run cd \<lparr>sy_ops = ops, sy_rpcs = 0, sy_permits = []\<rparr> s" and "port_of p (sy_ops s) = Some q"
  shows "pn_pending_commands q = count_list (sy_permits s) p \<and> pn_pending_commands q \<le> 1
    \<and> \<not> (pn_control_pending q \<and> pn_pending_commands q > 0)
    \<and> (pn_control_pending q \<longleftrightarrow> (\<exists>rv. control_is_current p rv (sy_ops s)))
    \<and> gt_pending (op_maintenance (sy_ops s)) = sy_rpcs s + length (sy_permits s)
    \<and> devices_shown (os_station_saved (op_state (sy_ops s))) p (pn_devices q)"
proof -
  have inv: "service_ok cd s"
    by (rule service_ok_run[OF codec assms(5) operations_new_service[OF codec assms(2-4)]])
  then have w: "work_ok (sy_permits s) (op_state (sy_ops s))"
    and g: "gt_pending (op_maintenance (sy_ops s)) = sy_rpcs s + length (sy_permits s)"
    by (auto simp: service_ok_def admissions_ok_def)
  have "devices_shown (os_station_saved (op_state (sy_ops s))) p (pn_devices q)"
    using inv assms(6) by (auto simp: service_ok_def stations_ok_def Let_def stations_shown_def port_of_def)
  with work_okD[OF w, of p] g assms(6) show ?thesis
    by (auto simp: work_view_def port_of_def control_is_current_def)
qed

theorem port_never_shared_witness:
  "is_ok (fst stop_reading) \<and> (\<exists>q. port_of ''C'' (sy_ops stopped) = Some q \<and> pn_control_pending q
     \<and> pn_pending_commands q = 0 \<and> (\<exists>rv. control_is_current ''C'' rv (sy_ops stopped)))"
proof -
  have c: "map_option pn_control_pending (port_of ''C'' (sy_ops stopped)) = Some True" by code_simp
  then obtain q where q: "port_of ''C'' (sy_ops stopped) = Some q" "pn_control_pending q" by auto
  from port_never_shared[OF example_codec_reads_back example_dirs example_gate_pending booted_new
      stopped_reached[unfolded booted_system_def] q(1)]
  show ?thesis using q stop_reading_Ok by (metis fst_conv is_ok.simps(2) not_gr0)
qed

text \<open>C20 A drained fence stays quiet. From a state in which the maintenance status reports that
everything has drained, as long as the gate admits nothing, no command and no control begins on any
port, no request is in progress, and the acquisition settings do not change.\<close>

theorem drained_stays_quiet:
  assumes "admissions_ok s" and "gn_drained (maintenance_status (sy_ops s))"
    and "fenced_run cd s s'" and "port_of p (sy_ops s') = Some q"
  shows "\<not> pn_control_pending q \<and> pn_pending_commands q = 0 \<and> sy_rpcs s' = 0 \<and> sy_permits s' = []
    \<and> os_saved (op_state (sy_ops s')) = os_saved (op_state (sy_ops s))"
proof -
  have d: "gt_pending (op_maintenance (sy_ops s)) = 0" "pending_port_operations (sy_ops s) = 0"
    using assms(2) by (auto simp: maintenance_status_def gate_status_def)
  with assms(1) have "sy_rpcs s = 0" "sy_permits s = []" by (auto simp: admissions_ok_def)
  with fenced_run_quiet[OF assms(3,1)] pending_none[OF assms(1) d(2)] quiet_ports[of s' p q] assms(4)
  show ?thesis by blast
qed

definition fenced_system :: ops_system where
  "fenced_system = \<lparr>sy_ops = admitted_ops running_ops (example_gate\<lparr>gt_record := fence_record\<rparr>), sy_rpcs = 0, sy_permits = []\<rparr>"

theorem drained_stays_quiet_witness:
  "\<exists>q. port_of ''C'' (ops_complete_control ''C'' 7 (Inr ()) (sy_ops fenced_system)) = Some q \<and> \<not> pn_control_pending q
     \<and> pn_pending_commands q = 0"
proof -
  have r: "running\<lparr>sy_ops := admitted_ops (sy_ops running) (example_gate\<lparr>gt_record := fence_record\<rparr>)\<rparr> = fenced_system"
    by (simp add: running_def fenced_system_def)
  have "gt_pending (op_maintenance (sy_ops running)) = 0" by code_simp
  then have "ops_step example_codec running fenced_system"
    using os_gate[of "example_gate\<lparr>gt_record := fence_record\<rparr>" running example_codec] r by (simp add: example_gate_def)
  with running_reached have run: "ops_run example_codec booted_system fenced_system" by (rule or_next)
  have ok: "admissions_ok fenced_system"
    using service_ok_run[OF example_codec_reads_back run[unfolded booted_system_def]
        operations_new_service[OF example_codec_reads_back example_dirs example_gate_pending booted_new]]
    by (simp add: service_ok_def)
  have dr: "gn_drained (maintenance_status (sy_ops fenced_system))" by code_simp
  have closed: "\<exists>e. gate_admit (op_maintenance (sy_ops fenced_system)) = Inl e"
    by (simp add: fenced_system_def gate_admit_def fence_record_def)
  then obtain e where "gate_admit (op_maintenance (sy_ops fenced_system)) = Inl e" by blast
  from fd_next[OF fd_here this os_complete[of example_codec fenced_system "''C''" 7 "Inr ()"]]
  have f: "fenced_run example_codec fenced_system (fenced_system\<lparr>sy_ops := ops_complete_control ''C'' 7 (Inr ()) (sy_ops fenced_system)\<rparr>)" .
  have "port_of ''C'' (ops_complete_control ''C'' 7 (Inr ()) (sy_ops fenced_system)) \<noteq> None" by code_simp
  then obtain q where q: "port_of ''C'' (ops_complete_control ''C'' 7 (Inr ()) (sy_ops fenced_system)) = Some q" by auto
  with drained_stays_quiet[OF ok dr f, of "''C''" q] show ?thesis by simp
qed

section \<open>Settings\<close>

text \<open>C7 Settings survive a restart. After start-up and any run of the service, a new process that
starts on the files as they are shows, for every port and device that both know, the same enabled
and reading flags and the same configured module type, and the same revision of the settings.\<close>

theorem settings_survive_restart:
  assumes codec: "codec_reads_back cd" and "dirs_readable d1 d2" and "gt_pending gate = 0"
    and "operations_new cd sha ports gate d1 d2 = (Inr ops, e1, e2)"
    and "ops_run cd \<lparr>sy_ops = ops, sy_rpcs = 0, sy_permits = []\<rparr> s"
    and "operations_new cd sha' ports' gate' (with_faults [] (op_state_dir (sy_ops s)))
      (with_faults [] (op_station_dir (sy_ops s))) = (Inr ops', e1', e2')"
    and "port_of p (sy_ops s) = Some q" and "port_of p ops' = Some q'"
    and "d \<in> set (pn_devices q)" and "d' \<in> set (pn_devices q')" and "dn_device_id d' = dn_device_id d"
  shows "pn_enabled q' = pn_enabled q \<and> dn_read_enabled d' = dn_read_enabled d
    \<and> configured_module_type (dn_station_version d') = configured_module_type (dn_station_version d)
    \<and> ss_revision (os_saved (op_state ops')) = ss_revision (os_saved (op_state (sy_ops s)))"
proof -
  have inv: "service_ok cd s"
    by (rule service_ok_run[OF codec assms(5) operations_new_service[OF codec assms(2-4)]])
  from restart_keeps[OF codec inv assms(6-8)] assms(9-11) show ?thesis by blast
qed

theorem settings_survive_restart_witness:
  "\<exists>q d. port_of ''C'' (projr (fst rebooted)) = Some q \<and> pn_devices q = [d] \<and> \<not> dn_read_enabled d
     \<and> ss_revision (os_saved (op_state (projr (fst rebooted)))) = ''2''"
proof -
  have old: "map_option (\<lambda>q. map dn_read_enabled (pn_devices q)) (port_of ''C'' (sy_ops stopped)) = Some [False]"
    "map_option (\<lambda>q. map dn_device_id (pn_devices q)) (port_of ''C'' (sy_ops stopped)) = Some [''1'']"
    "ss_revision (os_saved (op_state (sy_ops stopped))) = ''2''" by code_simp+
  have new: "map_option (\<lambda>q. map dn_device_id (pn_devices q)) (port_of ''C'' (projr (fst rebooted))) = Some [''1'']" by code_simp
  obtain q d where q: "port_of ''C'' (sy_ops stopped) = Some q" "pn_devices q = [d]" "\<not> dn_read_enabled d" "dn_device_id d = ''1''"
    using old(1,2) by auto
  obtain q' d' where q': "port_of ''C'' (projr (fst rebooted)) = Some q'" "pn_devices q' = [d']" "dn_device_id d' = ''1''"
    using new by auto
  from settings_survive_restart[OF example_codec_reads_back example_dirs example_gate_pending booted_new
      stopped_reached[unfolded booted_system_def] rebooted_new q(1) q'(1), of d d'] q q' old(3)
  show ?thesis by auto
qed

text \<open>C9 One switch per revision of the settings. Once a request to switch a port or a device on or off
was accepted at a revision of the acquisition settings, that revision is used up: whatever happens
afterwards, every other request on a port that names it, to switch a port or a device, to set the
module type of a station or to query the version of a station, is refused as a conflict (or because of
the shutdown) and changes nothing. (A module type or a version query that is accepted leaves the
revision of the settings as it is: it counts the revision of the station records.)\<close>

theorem one_change_per_revision:
  assumes codec: "codec_reads_back cd" and "dirs_readable d1 d2" and "gt_pending gate = 0"
    and "operations_new cd sha ports gate d1 d2 = (Inr ops, e1, e2)"
    and "ops_run cd \<lparr>sy_ops = ops, sy_rpcs = 0, sy_permits = []\<rparr> s"
    and "set_control_locked cd fs p dv en ex (admitted_ops (sy_ops s) g) = (Inr rv, ops1)"
    and "ops_run cd (s\<lparr>sy_ops := ops1, sy_rpcs := sy_rpcs s + 1\<rparr>) s'"
  shows "\<exists>e e'. set_control_locked cd fs' p' dv' en' ex (sy_ops s') = (Inl e, sy_ops s')
    \<and> set_module_type_locked cd fs' p' k n mt ex es (sy_ops s') = (Inl e', sy_ops s')
    \<and> query_version_locked cd fs' fs'' now p' k n ex es (sy_ops s') = (Inl e', sy_ops s')
    \<and> (op_shutdown (sy_ops s') \<or> oe_code e = ''conflict'' \<and> oe_code e' = ''conflict'')"
proof -
  have "service_ok cd s"
    by (rule service_ok_run[OF codec assms(5) operations_new_service[OF codec assms(2-4)]])
  then have "canonical_revision (ss_revision (os_saved (op_state (admitted_ops (sy_ops s) g))))"
    by (simp add: service_ok_def settings_ok_def Let_def)
  from revision_used_up[OF this assms(6,7)] have "ex \<noteq> ss_revision (os_saved (op_state (sy_ops s')))" by simp
  note stale = stale_request[OF this] stale_station_requests[OF this]
  show ?thesis
  proof (cases "op_shutdown (sy_ops s')")
    case True
    then show ?thesis by (simp add: stale(1) shutdown_station_requests)
  next
    case False
    then show ?thesis by (simp add: stale with_revision_def op_error_new_def)
  qed
qed

theorem one_change_per_revision_witness:
  "fst stop_reading = Ok 2 \<and> (\<exists>e e'. set_control_locked example_codec [] ''C'' None False ''1'' (snd stop_reading) = (Inl e, snd stop_reading)
     \<and> query_version_locked example_codec [] [] ''now'' ''C'' ''1'' 1 ''1'' ''1'' (snd stop_reading) = (Inl e', snd stop_reading)
     \<and> (op_shutdown (snd stop_reading) \<or> oe_code e = ''conflict'' \<and> oe_code e' = ''conflict''))"
proof -
  have s: "running\<lparr>sy_ops := snd stop_reading, sy_rpcs := sy_rpcs running + 1\<rparr> = stopped"
    by (simp add: running_def stopped_def)
  have a: "set_control_locked example_codec [] ''C'' (Some ''1'') False ''1'' (admitted_ops (sy_ops running) admitted_gate) = (Ok 2, snd stop_reading)"
    using stop_reading_Ok by (simp add: stop_reading_def running_def)
  have "ops_run example_codec (running\<lparr>sy_ops := snd stop_reading, sy_rpcs := sy_rpcs running + 1\<rparr>) stopped"
    unfolding s by (rule or_here)
  from one_change_per_revision[OF example_codec_reads_back example_dirs example_gate_pending booted_new
      running_reached[unfolded booted_system_def] a this, of "[]" "''C''" None False "''1''" 1 MT_Domestic "''1''" "[]" "''now''"]
  show ?thesis using stop_reading_Ok by (metis fst_conv ops_system.select_convs(1) stopped_def)
qed

end
