(* ===== verification/Spec2Isabelle.thy ===== *)
theory Spec2Isabelle
  imports Calc_Properties Frame_Properties Command_Properties Serial_Properties Link_Properties Operations_Properties
begin

text \<open>
  \<^bold>\<open>The programs.\<close> The repository is a gateway between serial devices and an OPC UA server. Its main
  program (\<open>src/src\<close>) polls the devices of each serial port, decodes their frames into named points,
  computes derived points from formulas, publishes both, executes control commands on the serial ports
  under a durable audit journal, and lets an operator switch ports and devices, query the versions of the
  stations and put the gateway into maintenance. A second program (\<open>src/communicate\<close>) connects two
  units over a serial line: each sends snapshots of its inputs and shows those of its peer.

  \<^bold>\<open>Theories and what they model.\<close> Shared by both programs:

  \<^item> \<open>Prelude\<close>: results (\<open>Ok\<close>, \<open>Err\<close>), ASCII text, decimal and hexadecimal numbers, words. Text is the
    list of its UTF-8 bytes.
  \<^item> \<open>Float64\<close>: IEEE binary64 and binary32 values with rounding to nearest even, as the evaluator and
    the point decoder use them.
  \<^item> \<open>Ordered_Map\<close>: the ordered maps of the standard library as sorted association lists, with their
    contract as the locales \<open>ordered_map\<close> and \<open>removable_map\<close>.

  Acquisition and commands (\<open>src/src\<close>):

  \<^item> \<open>Model\<close>: \<open>src/src/model\<close> and \<open>src/src/runtime_cache.rs\<close>: point values, station versions, commands,
    device states, the latest-state cache, the system state.
  \<^item> \<open>Csv_Config\<close>: \<open>src/src/csv_parser.rs\<close>: the device files, validated before saving and parsed at startup.
  \<^item> \<open>Protocol\<close>: \<open>src/src/protocol.rs\<close>: checksums, frames, bit ranges, typed points.
  \<^item> \<open>Tokenizer\<close>, \<open>Calc_Parser\<close>, \<open>Evaluator\<close>, \<open>Calc_Engine\<close>, \<open>Dependency_Order\<close>, \<open>Calc_Cycle\<close>:
    \<open>src/src/calc_engine\<close>: lexer, Pratt parser, evaluators, compilation, topological order (Kahn's
    algorithm, in the locale \<open>kahn_graph\<close>), one cycle, and the runner. Formulas are printed for the round
    trip with all decimal digits of their float literals.
  \<^item> \<open>Command_Tracking\<close>, \<open>Command_Journal\<close>: \<open>src/src/command_tracking.rs\<close>: the tracker's state under its
    lock as a step relation, and the SQLite journal with its writer thread.
  \<^item> \<open>Command_Transaction\<close>: \<open>src/src/serial/command_transaction.rs\<close>, \<open>command_audit.rs\<close> and
    \<open>command_pacing.rs\<close>: the attempts, acknowledgements, audit record and pacing of one command.
  \<^item> \<open>Serial_Transport\<close>: \<open>src/src/serial/transport.rs\<close>, \<open>version_transaction.rs\<close> and \<open>port_config.rs\<close>:
    reads and writes under a deadline, wire times, the version query of a station, the devices of a port.
  \<^item> \<open>Serial_Logs\<close>: the rate-limited diagnostics of \<open>src/src/serial/manager.rs\<close>; what the three logs have
    in common is the locale \<open>rate_limited_log\<close>.
  \<^item> \<open>Frame_Assembly\<close>, \<open>Serial_Manager\<close>: the rest of \<open>manager.rs\<close>: the length of a frame from its first
    bytes, forwarded frames, the state of a port and its devices, sending, receiving, publishing,
    reconnecting, the change of roles.
  \<^item> \<open>Serial_Worker\<close>: \<open>src/src/serial/worker.rs\<close>: one pass of a worker: incoming commands, the primary and
    the standby cycle, queued commands, the turn of the devices; start and restart.
  \<^item> \<open>Serial_Invariant\<close>, \<open>Serial_Runs\<close>, \<open>Worker_Runs\<close>: the invariant \<open>manager_ok\<close> of a port, that every
    operation of manager and worker keeps it, and the runs of a worker as the relation \<open>worker_run\<close>.
  \<^item> \<open>Frame_Delivery\<close>: that a frame that arrives in pieces is put together, attributed and reported.

  Operation of the gateway (\<open>src/src/operations\<close>):

  \<^item> \<open>Operations_Base\<close>, \<open>Operations_State\<close>, \<open>Operations\<close>: \<open>mod.rs\<close>: requests and errors, the stored settings
    and station records, the start-up that reconciles them with the configured ports, the admission of
    commands, the switches of ports and devices, module types and version queries, the reports of the workers.
  \<^item> \<open>State_Files\<close>: how \<open>mod.rs\<close> reads and replaces its two state files. A list of faults decides which call
    to the operating system fails, and every directory between two calls is recorded, so that a crash leaves
    one of them.
  \<^item> \<open>Maintenance\<close>, \<open>Maintenance_Runs\<close>: \<open>maintenance.rs\<close>: the fence with its row in the database, the two
    halves of entering and leaving and the write between them, and their interleavings as the relation
    \<open>fence_step\<close>.
  \<^item> \<open>Operations_Runs\<close>: the service in use as the relation \<open>ops_step\<close>. \<open>Operations_Invariant\<close>,
    \<open>Operations_Stored\<close>, \<open>Operations_Stations\<close>, \<open>Operations_Restart\<close> and \<open>Operations_Revisions\<close>: that
    admissions exclude each other, that files and memory agree, that the start-up establishes this, and that
    the revision of the settings only grows.
  \<^item> \<open>State_Text\<close>: a text format that meets the requirement \<open>codec_reads_back\<close> on the texts of the state
    files, built with the locale \<open>reads_back\<close>.

  The link of two units (\<open>src/communicate/src\<close>):

  \<^item> \<open>Link_Frame\<close>: \<open>frame.rs\<close>: the envelope and the decoder of a byte stream. What its two loops have in common
    are the locales \<open>byte_loop\<close> and \<open>prefix_loop\<close>, interpreted as \<open>recovering\<close> and \<open>feeding\<close>.
  \<^item> \<open>Link_Points\<close>, \<open>Link_Config\<close>: \<open>points.rs\<close>, \<open>config.rs\<close> and \<open>protocol.rs\<close>: the point store and the validation
    of a configuration.
  \<^item> \<open>Unit_Report\<close>: \<open>unit_report.rs\<close>: the layouts of the snapshots and their fields.
  \<^item> \<open>Link_Mailbox\<close>, \<open>Link_Stream\<close>: \<open>synchronization.rs\<close>: the mailboxes, the schedule and one turn of a
    connection.
  \<^item> \<open>Link_Serial\<close>, \<open>Link_Poller\<close>: \<open>serial.rs\<close> and \<open>poller.rs\<close>: a write that is never repeated, request and
    answer, the supervision of a connection.
  \<^item> \<open>Link_Runs\<close>, \<open>Link_Liveness\<close>: the runs of a connection and of a worker, and that good points come only
    from snapshots the connection has heard.

  \<open>Worked_Examples\<close>, \<open>Serial_Examples\<close>, \<open>Link_Examples\<close> and \<open>Operations_Examples\<close> have concrete inputs and
  what the definitions compute on them. The properties are in \<open>Calc_Properties\<close>, \<open>Frame_Properties\<close>,
  \<open>Command_Properties\<close>, \<open>Serial_Properties\<close>, \<open>Link_Properties\<close>, \<open>Operations_Properties\<close> and this theory.

  \<^bold>\<open>How the parts interact.\<close> A worker owns the manager of its port. It decodes answers with \<open>Protocol\<close>,
  by the points of the device file of \<open>Csv_Config\<close>, writes the latest-state cache of \<open>Model\<close> and sends
  reports to the subscribers, from which the calculation runner takes its variables. Commands come with
  a number under which \<open>Command_Tracking\<close> has admitted them; the worker executes them through
  \<open>Command_Transaction\<close>, whose line is the manager's sending and receiving. The operations service admits
  commands and controls to the ports, sends the controls to the workers, and shows and stores what they
  report; every admission passes the maintenance gate. A worker of the link program feeds the bytes of its
  line to the decoder of \<open>Link_Frame\<close>, publishes the reports in them to the point store and sends what the
  mailbox of its port holds.

  \<^bold>\<open>What the properties show.\<close> Calculation: which rules an engine has, that a cycle ends with typed values
  from within the limits and solves the formulas, that parsing ends and reads back what was printed. Frames:
  that accepted frames are encodings, and that validated points decode. Commands: that no identity is admitted
  twice, in one process or across restarts, and what a transaction may do on the line. Ports: that subscribers,
  cache and port agree, that a worker never panics, that answers are reported. Link: that inputs are shown
  at the peer, that only fresh snapshots are sent, that silence and loss are shown, that no byte is lost
  unnoticed. Operation: that the fence holds across failures and restarts and has one owner, that a port is
  never shared, that settings survive restarts and files are replaced whole, that a revision admits one switch.

  \<^bold>\<open>Conventions.\<close> A Rust \<open>Result\<close> is a sum with \<open>Err\<close> on the left, a panic is \<open>None\<close> or an error of its
  own, machine integers are words of their width, revisions and instants are natural numbers. The
  parser runs on fuel, one more than the number of tokens, which is shown to be enough. What the
  source only calls is a parameter: SHA-256, the JSON, TOML and CSV libraries, zlib and CRC-32, SQLite (its
  statements are read as effects on tables, with faults at any of them), the file system, the serial line and
  the clock. Each operation on a port takes a record of what the driver and the clock answer to its calls, so
  that a theorem over all such records holds for every behaviour of the line. The hypotheses about such code:
  \<open>send_driver_ok\<close>, that writing to an open port does not fail as not connected (part of \<open>worker_run\<close>, and so of
  the properties over it); \<open>delivers\<close>, that the bytes of a frame arrive in order, in any pieces; \<open>json_ok\<close> and
  \<open>codec_reads_back\<close>, that the JSON library reads back what it wrote; and \<open>codec_ok\<close>, that zlib decompresses what
  it compressed. Each is met by a concrete function of the examples.

  \<^bold>\<open>Not modelled.\<close> The text of log lines is left out; of the records a port writes, the kind and the
  figures are kept. Of the workers, the cancellation at shutdown and the channels' own behaviour are left
  out; of the tracker, its threads. In \<open>ops_step\<close> the admission of a request and its section under the lock are
  one step; the requests on configuration files (\<open>src/src/operations/files.rs\<close>, calculation mode and logging
  level), the dispatch of JSON requests and the checks of the configuration during maintenance are left out. The
  OPC UA servers of both programs (\<open>src/src/server\<close>, \<open>opc.rs\<close>), the start-up of the processes, and the remote
  configuration of the link program (\<open>operations.rs\<close>, \<open>runtime.rs\<close>) are input and output of libraries. The
  configuration form (\<open>src/crates\<close>), the development tools (\<open>src/tools\<close>) and the vendored serial port
  library are not part of the model.
\<close>

section \<open>Commands across restarts\<close>

text \<open>C2 A command whose record is in the journal when the process starts is never admitted again by that
  process, whether the journal can be written or read, and whatever a later lookup answers or fails
  with, as long as the journal keeps the record.\<close>

theorem never_replayed_after_restart:
  assumes "tracker_open sha enc dec oenv db = (ctx, s, conn, db')"
    and "(m, c) \<in> fst ` set (commands db)" and "(m, c) \<in> fst ` set (commands now_db)"
    and "be_lookup env = map_err Journal (lookup_journal fault dec (gateway ctx) m c now_db)
       \<or> be_lookup env = Err e"
  shows "fst (begin_command sha ctx env m c port ack payload t) \<noteq> Ok (w, True)"
proof -
  have "be_lookup env \<noteq> Ok None"
    using assms(4) lookup_stored[OF assms(3)] by (auto simp del: map_err.simps)
  with opened_history[OF assms(1) _ assms(2)] show ?thesis by (intro begin_not_new)
qed

theorem never_replayed_after_restart_witness:
  "\<exists>ctx s conn db'. tracker_open demo_sha demo_enc demo_dec
       \<lparr>oe_fault = Some ''locked'', oe_save_fault = (\<lambda>_. None), oe_read_fault = None, oe_history_fault = None,
        oe_boot = ''b2'', oe_fresh = ''f'', oe_now = ''u''\<rparr> demo_db = (ctx, s, conn, db') \<and>
     fst (begin_command demo_sha ctx (demo_begin_env\<lparr>be_lookup := Err (Journal ''busy'')\<rparr>) ''m'' ''c'' ''COM1'' 8 ''1108'' s)
       \<noteq> Ok (demo_snapshot, True)"
proof -
  obtain ctx s conn db' where o: "tracker_open demo_sha demo_enc demo_dec
       \<lparr>oe_fault = Some ''locked'', oe_save_fault = (\<lambda>_. None), oe_read_fault = None, oe_history_fault = None,
        oe_boot = ''b2'', oe_fresh = ''f'', oe_now = ''u''\<rparr> demo_db = (ctx, s, conn, db')"
    using prod_cases4 by blast
  have "(''m'', ''c'') \<in> fst ` set (commands demo_db)" by (simp add: demo_db_def)
  from never_replayed_after_restart[OF o this this, where env = "demo_begin_env\<lparr>be_lookup := Err (Journal ''busy'')\<rparr>"
      and e = "Journal ''busy''"] o show ?thesis by fastforce
qed

end
